(* ===== verification/Mama_Prelude.thy ===== *)
theory Mama_Prelude
  imports Main "HOL-Library.Word" "HOL-Library.Monad_Syntax"
begin

text \<open>
  Shared vocabulary of the development: the machine integer types of the code (LP64, so
  \<open>unsigned long\<close> and \<open>size_t\<close> have 64 bits), the status codes every public operation of the C
  API returns, and the generic lemmas on lists, options and words used by several components.
\<close>

unbundle bit_operations_syntax

type_synonym u8 = "8 word"
type_synonym u16 = "16 word"
type_synonym u32 = "32 word"
type_synonym u64 = "64 word"
type_synonym i32 = "32 word"

text \<open>The enumeration \<open>mama_status\<close> (without the entitlement codes, which are compiled only
  with \<open>WITH_ENTITLEMENTS\<close>).\<close>

datatype mama_status =
    MAMA_STATUS_OK | MAMA_STATUS_NOMEM | MAMA_STATUS_PLATFORM | MAMA_STATUS_SYSTEM_ERROR
  | MAMA_STATUS_INVALID_ARG | MAMA_STATUS_NULL_ARG | MAMA_STATUS_NOT_FOUND
  | MAMA_STATUS_TIMER_FAILURE | MAMA_STATUS_IP_NOT_FOUND | MAMA_STATUS_TIMEOUT
  | MAMA_STATUS_NOT_ENTITLED | MAMA_STATUS_PROPERTY_TOO_LONG | MAMA_STATUS_MD_NOT_OPENED
  | MAMA_STATUS_PUB_SUB_NOT_OPENED | MAMA_STATUS_ENTITLEMENTS_NOT_ENABLED
  | MAMA_STATUS_BAD_TRANSPORT_TYPE | MAMA_STATUS_UNSUPPORTED_IO_TYPE
  | MAMA_STATUS_TOO_MANY_DISPATCHERS | MAMA_STATUS_NOT_IMPLEMENTED
  | MAMA_STATUS_WRONG_FIELD_TYPE | MAMA_STATUS_BAD_SYMBOL | MAMA_STATUS_IO_ERROR
  | MAMA_STATUS_NOT_INSTALLED | MAMA_STATUS_CONFLATE_ERROR | MAMA_STATUS_QUEUE_FULL
  | MAMA_STATUS_QUEUE_END | MAMA_STATUS_NO_BRIDGE_IMPL | MAMA_STATUS_INVALID_QUEUE
  | MAMA_STATUS_NOT_MODIFIABLE | MAMA_STATUS_DELETE | MAMA_STATUS_NOT_PERMISSIONED
  | MAMA_STATUS_SUBSCRIPTION_INVALID_STATE | MAMA_STATUS_QUEUE_OPEN_OBJECTS
  | MAMA_STATUS_SUBSCRIPTION_INVALID_TYPE | MAMA_STATUS_SUBSCRIPTION_GAP
  | MAMA_STATUS_NOT_INITIALISED | MAMA_STATUS_NO_SUBSCRIBERS | MAMA_STATUS_EXPIRED
  | MAMA_STATUS_BANDWIDTH_EXCEEDED

text \<open>The effects of operations on the single fields of their state, collected by the components.\<close>

named_theorems field_effects \<open>the effect of an operation on the fields of its state\<close>

text \<open>Facts that give the loop bounds of the array loops.\<close>

lemma word_less_succ:
  fixes w :: "'a::len word"
  assumes "w \<noteq> - 1"
  shows "w < w + 1"
proof -
  have "1 + w \<noteq> 0" using assms by (metis add.commute add_eq_0_iff2)
  from unatSuc [OF this] show ?thesis by (simp add: word_less_nat_alt add.commute)
qed

lemma unat_and_mask_lt: "n < LENGTH('a) \<Longrightarrow> unat (w AND mask n :: 'a::len word) < 2 ^ n"
  by (simp add: and_mask_lt_2p word_less_nat_alt [symmetric] take_bit_eq_mask [symmetric]
      unsigned_take_bit_eq)

lemma sint_push_bit_1:
  assumes "n < 31" shows "sint (push_bit n 1 :: i32) = 2 ^ n"
proof -
  have lt: "(2::int) ^ n < 2 ^ 31" using assms by (intro power_strict_increasing) auto
  have "sint (push_bit n 1 :: i32) = sint (word_of_int (2 ^ n) :: i32)"
    by (simp add: push_bit_eq_mult)
  also have "\<dots> = signed_take_bit 31 (2 ^ n)"
    by (simp only: signed_of_int) simp
  also have "\<dots> = 2 ^ n"
    using lt by (intro signed_take_bit_int_eq_self) (auto intro: order_trans [of _ 0])
  finally show ?thesis .
qed

lemma sint_2p_i32: "n < 31 \<Longrightarrow> sint (2 ^ n :: i32) = 2 ^ n"
  using sint_push_bit_1 [of n] by simp

lemma distinct_concat_key:
  assumes "\<forall>i < length xss. distinct (map f (xss ! i)) \<and> (\<forall>x \<in> set (xss ! i). g (f x) = (i::nat))"
  shows "distinct (map f (concat xss))"
  using assms
proof (induction xss rule: rev_induct)
  case Nil
  then show ?case by simp
next
  case (snoc xs xss)
  have "\<forall>i < length xss. distinct (map f (xss ! i)) \<and> (\<forall>x \<in> set (xss ! i). g (f x) = i)"
  proof (intro allI impI)
    fix i
    assume "i < length xss"
    then show "distinct (map f (xss ! i)) \<and> (\<forall>x \<in> set (xss ! i). g (f x) = i)"
      using snoc.prems [rule_format, of i] by (simp add: nth_append)
  qed
  then have IH: "distinct (map f (concat xss))" and
    lt: "\<And>x. x \<in> set (concat xss) \<Longrightarrow> g (f x) < length xss"
    using snoc.IH by (auto simp: in_set_conv_nth [of _ xss])
  moreover have "distinct (map f xs)" and "\<And>x. x \<in> set xs \<Longrightarrow> g (f x) = length xss"
    using snoc.prems [rule_format, of "length xss"] by (auto simp: nth_append)
  ultimately show ?case by fastforce
qed

lemma map_of_unique:
  "distinct (map fst xs) \<Longrightarrow> map_of xs k = Some v \<longleftrightarrow> (k, v) \<in> set xs"
  by (rule map_of_eq_Some_iff)

lemma fold_slots_nil:
  "fold (\<lambda>i bs. bs[i := []]) [0..<n] xs = replicate (min n (length xs)) [] @ drop n xs"
proof (induction n)
  case 0
  then show ?case by simp
next
  case (Suc n)
  show ?case
  proof (cases "n < length xs")
    case True
    then have "drop n xs = xs ! n # drop (Suc n) xs" by (rule Cons_nth_drop_Suc [symmetric])
    with Suc True show ?thesis
      by (simp add: min_def list_update_append replicate_append_same [symmetric])
  next
    case False
    with Suc show ?thesis by (simp add: min_def list_update_beyond)
  qed
qed

lemma set_concat_nth: "set (concat xss) = (\<Union>i < length xss. set (xss ! i))"
  by (auto simp: set_conv_nth [of xss])

lemma fold_map_nth: "fold (\<lambda>i. f (xs ! i)) [0..<length xs] = fold f xs"
proof -
  have "fold (\<lambda>i. f (xs ! i)) [0..<length xs] = fold f (map ((!) xs) [0..<length xs])"
    by (simp add: fold_map comp_def)
  then show ?thesis by (simp add: map_nth)
qed

lemma fold_concat_map: "fold (\<lambda>ys. fold f (map g ys)) xss = fold f (map g (concat xss))"
  by (induction xss) (simp_all add: fun_eq_iff)

lemma unat_2p: "n < LENGTH('a) \<Longrightarrow> unat (2 ^ n :: 'a::len word) = 2 ^ n"
proof -
  assume "n < LENGTH('a)"
  have "unat (2 ^ n :: 'a word) = unat (of_nat (2 ^ n) :: 'a word)" by simp
  also have "\<dots> = 2 ^ n mod 2 ^ LENGTH('a)" by (simp only: unat_of_nat)
  also have "\<dots> = 2 ^ n"
    using \<open>n < LENGTH('a)\<close> by (simp add: power_strict_increasing_iff)
  finally show ?thesis .
qed

text \<open>The conversion of a small \<open>unsigned long\<close> to \<open>int\<close>.\<close>

lemma sint_ucast_of_nat:
  assumes "n < 2 ^ 31" shows "sint (ucast (of_nat n :: u64) :: i32) = int n"
proof -
  have "uint (of_nat n :: u64) = int n"
    using assms by (simp add: uint_nat unat_of_nat)
  then have "ucast (of_nat n :: u64) = (word_of_int (int n) :: i32)"
    by (metis word_of_int_uint of_int_of_nat_eq unsigned_def ucast_eq)
  then have "sint (ucast (of_nat n :: u64) :: i32) = signed_take_bit 31 (int n)"
    by (simp only: signed_of_int) simp
  then show ?thesis using assms by (simp add: signed_take_bit_int_eq_self)
qed

end
