(* ===== verification/Lookup2.thy ===== *)
theory Lookup2
  imports Mama_Prelude
begin

text \<open>
  The hash function of the string tables (\<open>common/c_cpp/src/c/lookup2.c\<close>, \<open>lookup2.h\<close>): the
  macro \<open>mix\<close> and the function \<open>whash\<close>. The type \<open>ub4\<close> is \<open>unsigned long int\<close>, which
  is 64 bits wide on the supported LP64 platforms, so all arithmetic is on 64-bit words and wraps
  there. Bytes are unsigned (\<open>ub1\<close>); a key is the character list before its terminating NUL.
\<close>

definition hashsize :: "nat \<Rightarrow> u64" where
  "hashsize n = push_bit n 1"

definition hashmask :: "nat \<Rightarrow> u64" where
  "hashmask n = hashsize n - 1"

definition mix :: "u64 \<Rightarrow> u64 \<Rightarrow> u64 \<Rightarrow> u64 \<times> u64 \<times> u64" where
  "mix a b c =
    (let a = a - b; a = a - c; a = a XOR drop_bit 13 c;
         b = b - c; b = b - a; b = b XOR push_bit 8 a;
         c = c - a; c = c - b; c = c XOR drop_bit 13 b;
         a = a - b; a = a - c; a = a XOR drop_bit 12 c;
         b = b - c; b = b - a; b = b XOR push_bit 16 a;
         c = c - a; c = c - b; c = c XOR drop_bit 5 b;
         a = a - b; a = a - c; a = a XOR drop_bit 3 c;
         b = b - c; b = b - a; b = b XOR push_bit 10 a;
         c = c - a; c = c - b; c = c XOR drop_bit 15 b
     in (a, b, c))"

definition kbyte :: "string \<Rightarrow> nat \<Rightarrow> u64" where
  "kbyte k i = of_char (k ! i)"

text \<open>The loop over the blocks of twelve bytes: \<open>len\<close> is the length of the part of the key that
  is left, and \<open>k += 12\<close> drops the block.\<close>

function whash_loop :: "string \<Rightarrow> u64 \<Rightarrow> u64 \<Rightarrow> u64 \<Rightarrow> string \<times> u64 \<times> u64 \<times> u64" where
  "whash_loop k a b c =
    (if 12 \<le> length k then
       let a = a + (kbyte k 0 + push_bit 8 (kbyte k 1) + push_bit 16 (kbyte k 2)
                     + push_bit 24 (kbyte k 3));
           b = b + (kbyte k 4 + push_bit 8 (kbyte k 5) + push_bit 16 (kbyte k 6)
                     + push_bit 24 (kbyte k 7));
           c = c + (kbyte k 8 + push_bit 8 (kbyte k 9) + push_bit 16 (kbyte k 10)
                     + push_bit 24 (kbyte k 11));
           (a, b, c) = mix a b c
       in whash_loop (drop 12 k) a b c
     else (k, a, b, c))"
  by pat_completeness auto
termination
  by (relation "measure (\<lambda>(k, a, b, c). length k)") auto

text \<open>The fall-through \<open>switch (len)\<close> on the last bytes: the statement of \<open>case n\<close> is executed
  exactly when \<open>n \<le> len\<close>.\<close>

definition whash_tail :: "string \<Rightarrow> u64 \<Rightarrow> u64 \<Rightarrow> u64 \<Rightarrow> u64 \<times> u64 \<times> u64" where
  "whash_tail k a b c =
    (let len = length k;
         c = (if 11 \<le> len then c + push_bit 24 (kbyte k 10) else c);
         c = (if 10 \<le> len then c + push_bit 16 (kbyte k 9) else c);
         c = (if 9 \<le> len then c + push_bit 8 (kbyte k 8) else c);
         b = (if 8 \<le> len then b + push_bit 24 (kbyte k 7) else b);
         b = (if 7 \<le> len then b + push_bit 16 (kbyte k 6) else b);
         b = (if 6 \<le> len then b + push_bit 8 (kbyte k 5) else b);
         b = (if 5 \<le> len then b + kbyte k 4 else b);
         a = (if 4 \<le> len then a + push_bit 24 (kbyte k 3) else a);
         a = (if 3 \<le> len then a + push_bit 16 (kbyte k 2) else a);
         a = (if 2 \<le> len then a + push_bit 8 (kbyte k 1) else a);
         a = (if 1 \<le> len then a + kbyte k 0 else a)
     in (a, b, c))"

definition whash :: "string \<Rightarrow> u64 \<Rightarrow> u64" where
  "whash key initval =
    (let (k, a, b, c) = whash_loop key 0x9e3779b9 0x9e3779b9 initval;
         c = c + of_nat (length key);
         (a, b, c) = whash_tail k a b c;
         (a, b, c) = mix a b c
     in c)"

subsection \<open>Reversibility of the mixer\<close>

text \<open>The macro is three rounds of the same shape with different shift distances; each round is
  undone by running it backwards.\<close>

definition mix_round :: "nat \<Rightarrow> nat \<Rightarrow> nat \<Rightarrow> u64 \<times> u64 \<times> u64 \<Rightarrow> u64 \<times> u64 \<times> u64" where
  "mix_round i j l = (\<lambda>(a, b, c).
    (let a' = (a - b - c) XOR drop_bit i c;
         b' = (b - c - a') XOR push_bit j a';
         c' = (c - a' - b') XOR drop_bit l b'
     in (a', b', c')))"

lemma mix_rounds: "mix a b c = mix_round 3 10 15 (mix_round 12 16 5 (mix_round 13 8 13 (a, b, c)))"
  by (simp add: mix_def mix_round_def Let_def)

definition unmix_round :: "nat \<Rightarrow> nat \<Rightarrow> nat \<Rightarrow> u64 \<times> u64 \<times> u64 \<Rightarrow> u64 \<times> u64 \<times> u64" where
  "unmix_round i j l = (\<lambda>(a', b', c').
    (let c = (c' XOR drop_bit l b') + b' + a';
         b = (b' XOR push_bit j a') + a' + c;
         a = (a' XOR drop_bit i c) + c + b
     in (a, b, c)))"

lemma undo_xor_sub: "(((x - p - q) XOR r) XOR r) + q + p = (x :: 'a::len word)"
  by (simp add: xor.assoc)

lemma unmix_mix_round: "unmix_round i j l (mix_round i j l s) = s"
proof -
  obtain a b c where s: "s = (a, b, c)" by (cases s)
  define a' where "a' = (a - b - c) XOR drop_bit i c"
  define b' where "b' = (b - c - a') XOR push_bit j a'"
  define c' where "c' = (c - a' - b') XOR drop_bit l b'"
  have "mix_round i j l s = (a', b', c')"
    by (simp only: s mix_round_def a'_def b'_def c'_def Let_def prod.case)
  moreover have "(c' XOR drop_bit l b') + b' + a' = c"
    unfolding c'_def by (rule undo_xor_sub)
  moreover have "(b' XOR push_bit j a') + a' + c = b"
    unfolding b'_def by (rule undo_xor_sub)
  moreover have "(a' XOR drop_bit i c) + c + b = a"
    unfolding a'_def by (rule undo_xor_sub)
  ultimately show ?thesis
    by (simp only: s unmix_round_def Let_def prod.case)
qed

lemma inj_mix_round: "inj (mix_round i j l)"
  by (rule inj_on_inverseI [where g = "unmix_round i j l"]) (rule unmix_mix_round)

lemma hashmask_mask: "hashmask n = mask n"
  by (simp add: hashmask_def hashsize_def mask_eq_decr_exp push_bit_eq_mult)

lemma unat_and_hashmask: "n < 64 \<Longrightarrow> unat (h AND hashmask n) < 2 ^ n"
  using unat_and_mask_lt [where 'a = 64, of n h] by (simp add: hashmask_mask)

end
