(* ===== verification/Table_Spec.thy ===== *)
theory Table_Spec
  imports Mama_Prelude
begin

text \<open>
  The interface of a string-keyed table as its clients see it: an invariant, the finite map a
  table stands for, the two updates, and the enumeration that iteration follows. The laws are what
  \<open>wtable.h\<close> promises; the lemmas are the ones every client of such a table needs.
\<close>

locale table_spec =
  fixes inv :: "'t \<Rightarrow> bool"
    and tmap :: "'t \<Rightarrow> string \<rightharpoonup> 'd"
    and put :: "'t \<Rightarrow> string \<Rightarrow> 'd \<Rightarrow> 't"
    and del :: "'t \<Rightarrow> string \<Rightarrow> 't"
    and entries :: "'t \<Rightarrow> (string \<times> 'd) list"
  assumes tmap_put: "inv t \<Longrightarrow> tmap (put t k d) = (tmap t)(k \<mapsto> d)"
    and tmap_del: "inv t \<Longrightarrow> tmap (del t k) = (tmap t)(k := None)"
    and inv_put: "inv t \<Longrightarrow> inv (put t k d)"
    and inv_del: "inv t \<Longrightarrow> inv (del t k)"
    and tmap_entries: "inv t \<Longrightarrow> map_of (entries t) = tmap t"
    and distinct_entries: "inv t \<Longrightarrow> distinct (map fst (entries t))"
begin

lemma entries_iff: "inv t \<Longrightarrow> (k, d) \<in> set (entries t) \<longleftrightarrow> tmap t k = Some d"
  using tmap_entries [of t] distinct_entries [of t] by (metis map_of_eq_Some_iff)

lemma dom_entries: "inv t \<Longrightarrow> dom (tmap t) = fst ` set (entries t)"
  using tmap_entries [of t] by (metis dom_map_of_conv_image_fst)

lemma finite_dom: "inv t \<Longrightarrow> finite (dom (tmap t))"
  by (simp add: dom_entries)

lemma length_entries: "inv t \<Longrightarrow> length (entries t) = card (dom (tmap t))"
  using distinct_entries [of t]
  by (metis dom_entries distinct_card length_map list.set_map)

lemma length_put:
  "inv t \<Longrightarrow> length (entries (put t k d))
     = (if k \<in> dom (tmap t) then length (entries t) else Suc (length (entries t)))"
  by (simp add: length_entries inv_put tmap_put finite_dom insert_absorb)

lemma length_del:
  "inv t \<Longrightarrow> length (entries (del t k))
     = (if k \<in> dom (tmap t) then length (entries t) - 1 else length (entries t))"
  by (simp add: length_entries inv_del tmap_del finite_dom card_Diff_singleton_if)

end

end
