(* ===== verification/WTable.thy ===== *)
theory WTable
  imports Lookup2 Table_Spec
begin

text \<open>
  The string-keyed hash table of \<open>common/c_cpp/src/c/wtable.c\<close>. A table is an array of
  \<open>2 ^ size\<close> bucket chains; a chain is the list of its buckets from the array slot on, which is
  the order in which the code's \<open>next\<close> pointers are followed (no bucket is shared between
  chains). A \<open>void*\<close> datum is an \<open>option\<close> with \<open>None\<close> for \<open>NULL\<close>; so is a
  \<open>wtable_t\<close> or key argument that the code compares with \<open>NULL\<close>. A failing \<open>calloc\<close>
  is the Boolean argument \<open>mem\<close> of the operations that allocate.
\<close>

record 'v bucket =
  bkey :: string
  bdata :: "'v option"

record 'v wtable =
  wname :: string
  buckets :: "'v bucket list list"
  wsize :: u16

definition HASH_INITVAL :: u64 where
  "HASH_INITVAL = 1"

text \<open>\<open>h = whash (key, len, HASH_INITVAL); h = (h & hashmask (wtable->size))\<close>\<close>

definition whash_index :: "'v wtable \<Rightarrow> string \<Rightarrow> nat" where
  "whash_index t key = unat (whash key HASH_INITVAL AND hashmask (unat (wsize t)))"

text \<open>The bound \<open>1 << wtable->size\<close> of the loops over all slots is a shift of the \<open>int\<close>
  constant 1, so it is a 32-bit value.\<close>

definition loop_size :: "'v wtable \<Rightarrow> int" where
  "loop_size t = sint (push_bit (unat (wsize t)) 1 :: i32)"

subsection \<open>Creation\<close>

text \<open>The loop that finds the table size; \<open>sz\<close> is the 16-bit field \<open>wtable->size\<close> and
  \<open>hashsize\<close> of 64 or more is an undefined shift, the \<open>None\<close> result.\<close>

function create_loop :: "u16 \<Rightarrow> u64 \<Rightarrow> u64 \<Rightarrow> (u16 \<times> u64) option" where
  "create_loop sz tsize want =
    (if tsize < want then
       (if unat sz + 1 < 64 then create_loop (sz + 1) (hashsize (unat (sz + 1))) want else None)
     else Some (sz, tsize))"
  by pat_completeness auto
termination
proof (relation "measure (\<lambda>(sz, tsize, want). 64 - unat sz)")
  fix sz :: u16 and tsize want :: u64
  assume "unat sz + 1 < 64"
  then have "unat (sz + 1) = unat sz + 1"
    by (subst unat_add_lem [THEN iffD1]) simp_all
  with \<open>unat sz + 1 < 64\<close>
  show "((sz + 1, hashsize (unat (sz + 1)), want), (sz, tsize, want))
      \<in> measure (\<lambda>(sz, tsize, want). 64 - unat sz)" by simp
qed simp

declare create_loop.simps [simp del]

text \<open>The inner option is the returned pointer; the two Booleans say whether the two \<open>calloc\<close>
  calls (the table, its bucket array) succeed.\<close>

definition wtable_create :: "bool \<Rightarrow> bool \<Rightarrow> string option \<Rightarrow> u64 \<Rightarrow> ('v wtable option) option" where
  "wtable_create mem1 mem2 name n =
    (if \<not> mem1 then Some None
     else
       (let want = n * 10;
            nm = (case name of Some s \<Rightarrow> s | None \<Rightarrow> [])
        in case create_loop 1 (hashsize 1) want of
             None \<Rightarrow> None
           | Some (sz, tsize) \<Rightarrow>
               if \<not> mem2 then Some None
               else Some (Some \<lparr>wname = nm, buckets = replicate (unat tsize) [], wsize = sz\<rparr>)))"

subsection \<open>Insertion, lookup, removal\<close>

text \<open>The loop along a chain: \<open>Some\<close> the chain with the datum of the first bucket with the key
  replaced, \<open>None\<close> when no bucket has the key.\<close>

fun chain_replace :: "string \<Rightarrow> 'v option \<Rightarrow> 'v bucket list \<Rightarrow> 'v bucket list option" where
  "chain_replace key d [] = None"
| "chain_replace key d (b # bs) =
    (if key = bkey b then Some (b\<lparr>bdata := d\<rparr> # bs)
     else map_option ((#) b) (chain_replace key d bs))"

definition wtable_insert ::
  "bool \<Rightarrow> 'v wtable option \<Rightarrow> string option \<Rightarrow> 'v option \<Rightarrow> int \<times> 'v wtable option" where
  "wtable_insert mem table key data =
    (case table of
       None \<Rightarrow> (0, None)
     | Some t \<Rightarrow>
         (case key of
            None \<Rightarrow> (-1, Some t)
          | Some k \<Rightarrow>
              (let h = whash_index t k; b = buckets t ! h
               in case chain_replace k data b of
                    Some b' \<Rightarrow> (0, Some (t\<lparr>buckets := (buckets t)[h := b']\<rparr>))
                  | None \<Rightarrow>
                      (if \<not> mem then (-1, Some t)
                       else (1, Some (t\<lparr>buckets :=
                              (buckets t)[h := \<lparr>bkey = k, bdata = data\<rparr> # b]\<rparr>))))))"

fun chain_lookup :: "string \<Rightarrow> 'v bucket list \<Rightarrow> 'v option" where
  "chain_lookup key [] = None"
| "chain_lookup key (b # bs) = (if key = bkey b then bdata b else chain_lookup key bs)"

definition wtable_lookup :: "'v wtable option \<Rightarrow> string option \<Rightarrow> 'v option" where
  "wtable_lookup table key =
    (case table of
       None \<Rightarrow> None
     | Some t \<Rightarrow>
         (case key of
            None \<Rightarrow> None
          | Some k \<Rightarrow> chain_lookup k (buckets t ! whash_index t k)))"

text \<open>The removal loop keeps the previous bucket \<open>b0\<close> and links it (or the array slot) to the
  successor of the bucket that is freed.\<close>

fun chain_remove :: "string \<Rightarrow> 'v bucket list \<Rightarrow> ('v option \<times> 'v bucket list) option" where
  "chain_remove key [] = None"
| "chain_remove key (b # bs) =
    (if key = bkey b then Some (bdata b, bs)
     else map_option (\<lambda>(d, bs'). (d, b # bs')) (chain_remove key bs))"

definition wtable_remove ::
  "'v wtable option \<Rightarrow> string option \<Rightarrow> 'v option \<times> 'v wtable option" where
  "wtable_remove table key =
    (case table of
       None \<Rightarrow> (None, None)
     | Some t \<Rightarrow>
         (case key of
            None \<Rightarrow> (None, Some t)
          | Some k \<Rightarrow>
              (let h = whash_index t k
               in case chain_remove k (buckets t ! h) of
                    Some (d, b') \<Rightarrow> (d, Some (t\<lparr>buckets := (buckets t)[h := b']\<rparr>))
                  | None \<Rightarrow> (None, Some t))))"

subsection \<open>Iteration and clearing\<close>

text \<open>A callback is a state transformer on the closure; it does not change the table (the code
  fetches \<open>next\<close> before the call, so that a callback may remove the current bucket, but no
  caller modelled here does).\<close>

fun chain_for_each :: "('v option \<Rightarrow> string \<Rightarrow> 's \<Rightarrow> 's) \<Rightarrow> 'v bucket list \<Rightarrow> 's \<Rightarrow> 's" where
  "chain_for_each cb [] s = s"
| "chain_for_each cb (b # bs) s = chain_for_each cb bs (cb (bdata b) (bkey b) s)"

definition wtable_for_each ::
  "'v wtable option \<Rightarrow> ('v option \<Rightarrow> string \<Rightarrow> 's \<Rightarrow> 's) \<Rightarrow> 's \<Rightarrow> 's" where
  "wtable_for_each table cb s =
    (case table of
       None \<Rightarrow> s
     | Some t \<Rightarrow> fold (\<lambda>i. chain_for_each cb (buckets t ! i)) [0..<nat (loop_size t)] s)"

text \<open>\<open>wtable_free_all\<close> and \<open>wtable_free_all_xdata\<close> free the buckets of every slot and set
  the slot to \<open>NULL\<close>; the first also frees the data. The list returned is the data pointers that
  are passed to \<open>free\<close>, in order.\<close>

definition clear_slots :: "'v wtable \<Rightarrow> 'v wtable" where
  "clear_slots t =
    t\<lparr>buckets := fold (\<lambda>i bs. bs[i := []]) [0..<nat (loop_size t)] (buckets t)\<rparr>"

definition wtable_free_all :: "'v wtable \<Rightarrow> 'v option list \<times> 'v wtable" where
  "wtable_free_all t =
    (wtable_for_each (Some t) (\<lambda>d k freed. freed @ [d]) [], clear_slots t)"

definition wtable_free_all_xdata :: "'v wtable \<Rightarrow> 'v wtable" where
  "wtable_free_all_xdata t = clear_slots t"

definition wtable_clear :: "'v wtable option \<Rightarrow> 'v wtable option" where
  "wtable_clear table = map_option clear_slots table"

definition wtable_clear_for_each ::
  "'v wtable option \<Rightarrow> ('v option \<Rightarrow> string \<Rightarrow> 's \<Rightarrow> 's) \<Rightarrow> 's \<Rightarrow> 's \<times> 'v wtable option" where
  "wtable_clear_for_each table cb s = (wtable_for_each table cb s, map_option clear_slots table)"

subsection \<open>The invariant and the abstraction\<close>

text \<open>Every slot holds the buckets whose keys hash to it, each key once. Tables with
  \<open>2 ^ 31\<close> or more slots are excluded: there the loop bound \<open>1 << wtable->size\<close> overflows.\<close>

definition wt_inv :: "'v wtable \<Rightarrow> bool" where
  "wt_inv t \<longleftrightarrow> unat (wsize t) < 31 \<and> length (buckets t) = 2 ^ unat (wsize t) \<and>
     (\<forall>i < length (buckets t). distinct (map bkey (buckets t ! i)) \<and>
        (\<forall>b \<in> set (buckets t ! i). whash_index t (bkey b) = i))"

definition bpair :: "'v bucket \<Rightarrow> string \<times> 'v option" where
  "bpair b = (bkey b, bdata b)"

definition wt_entries :: "'v wtable \<Rightarrow> (string \<times> 'v option) list" where
  "wt_entries t = map bpair (concat (buckets t))"

definition wt_map :: "'v wtable \<Rightarrow> string \<rightharpoonup> 'v option" where
  "wt_map t k = map_of (map bpair (buckets t ! whash_index t k)) k"

lemma fst_bpair [simp]: "fst (bpair b) = bkey b" and snd_bpair [simp]: "snd (bpair b) = bdata b"
  by (simp_all add: bpair_def)

lemma fst_o_bpair [simp]: "fst \<circ> bpair = bkey"
  by (simp add: fun_eq_iff)

lemma whash_index_lt: "wt_inv t \<Longrightarrow> whash_index t k < length (buckets t)"
  unfolding wt_inv_def whash_index_def using unat_and_hashmask [of "unat (wsize t)"] by simp

lemma whash_index_buckets [simp]: "whash_index (t\<lparr>buckets := bs\<rparr>) = whash_index t"
  by (simp add: fun_eq_iff whash_index_def)

lemma loop_size_inv: "wt_inv t \<Longrightarrow> nat (loop_size t) = length (buckets t)"
  by (simp add: wt_inv_def loop_size_def sint_2p_i32 nat_power_eq)

subsection \<open>Chains\<close>

lemma chain_replace_None: "chain_replace k d bs = None \<longleftrightarrow> k \<notin> bkey ` set bs"
  by (induction bs) auto

lemma chain_replace_keys: "chain_replace k d bs = Some bs' \<Longrightarrow> map bkey bs' = map bkey bs"
  by (induction bs arbitrary: bs') (auto split: if_splits)

lemma chain_replace_key_in:
  "chain_replace k d bs = Some bs' \<Longrightarrow> b \<in> set bs' \<Longrightarrow> bkey b \<in> bkey ` set bs"
  using chain_replace_keys [of k d bs bs'] by (metis imageI list.set_map)

lemma chain_replace_map:
  "chain_replace k d bs = Some bs' \<Longrightarrow>
     map_of (map bpair bs') = (map_of (map bpair bs))(k \<mapsto> d)"
  by (induction bs arbitrary: bs') (auto simp: bpair_def fun_eq_iff split: if_splits)

lemma chain_lookup_map:
  "chain_lookup k bs = Option.bind (map_of (map bpair bs) k) id"
  by (induction bs) (auto simp: bpair_def)

lemma chain_remove_None: "chain_remove k bs = None \<longleftrightarrow> k \<notin> bkey ` set bs"
  by (induction bs) auto

lemma chain_remove_Some:
  "chain_remove k bs = Some (d, bs') \<Longrightarrow>
     \<exists>xs b ys. bs = xs @ b # ys \<and> bs' = xs @ ys \<and> bkey b = k \<and> bdata b = d \<and> k \<notin> bkey ` set xs"
proof (induction bs arbitrary: bs')
  case Nil
  then show ?case by simp
next
  case (Cons c cs)
  show ?case
  proof (cases "k = bkey c")
    case True
    with Cons.prems show ?thesis by (intro exI [of _ "[]"]) auto
  next
    case False
    with Cons.prems obtain cs' where r: "chain_remove k cs = Some (d, cs')" and bs': "bs' = c # cs'"
      by auto
    from Cons.IH [OF r] obtain xs b ys where
      "cs = xs @ b # ys \<and> cs' = xs @ ys \<and> bkey b = k \<and> bdata b = d \<and> k \<notin> bkey ` set xs"
      by blast
    with bs' False show ?thesis
      by (intro exI [of _ "c # xs"] exI [of _ b] exI [of _ ys]) auto
  qed
qed

lemma chain_for_each_fold: "chain_for_each cb bs = fold (\<lambda>(k, d). cb d k) (map bpair bs)"
proof
  show "chain_for_each cb bs s = fold (\<lambda>(k, d). cb d k) (map bpair bs) s" for s
    by (induction bs arbitrary: s) (simp_all add: bpair_def)
qed

subsection \<open>The operations on the abstraction\<close>

lemma wt_map_update:
  "wt_inv t \<Longrightarrow> wt_map (t\<lparr>buckets := (buckets t)[whash_index t k := bs]\<rparr>) k'
     = (if whash_index t k' = whash_index t k then map_of (map bpair bs) k' else wt_map t k')"
  by (simp add: wt_map_def nth_list_update whash_index_lt)

lemma wt_inv_update:
  assumes inv: "wt_inv t" and "distinct (map bkey bs)"
    and "\<And>b. b \<in> set bs \<Longrightarrow> whash_index t (bkey b) = whash_index t k"
  shows "wt_inv (t\<lparr>buckets := (buckets t)[whash_index t k := bs]\<rparr>)"
  using assms whash_index_lt [OF inv, of k] by (auto simp: wt_inv_def nth_list_update)

lemma wt_inv_chain:
  assumes "wt_inv t"
  shows "distinct (map bkey (buckets t ! whash_index t k))"
    and "b \<in> set (buckets t ! whash_index t k) \<Longrightarrow> whash_index t (bkey b) = whash_index t k"
  using assms whash_index_lt [OF assms, of k] by (auto simp: wt_inv_def)

definition wt_put :: "'v wtable \<Rightarrow> string \<Rightarrow> 'v option \<Rightarrow> 'v wtable" where
  "wt_put t k d = the (snd (wtable_insert True (Some t) (Some k) d))"

definition wt_del :: "'v wtable \<Rightarrow> string \<Rightarrow> 'v wtable" where
  "wt_del t k = the (snd (wtable_remove (Some t) (Some k)))"

lemma wtable_insert_Some:
  "wtable_insert True (Some t) (Some k) d
     = (if k \<in> dom (wt_map t) then 0 else 1, Some (wt_put t k d))"
proof -
  have "k \<in> dom (wt_map t) \<longleftrightarrow> chain_replace k d (buckets t ! whash_index t k) \<noteq> None"
    by (auto simp: chain_replace_None wt_map_def dom_map_of_conv_image_fst
        domIff map_of_eq_None_iff image_image)
  then show ?thesis
    by (auto simp: wt_put_def wtable_insert_def Let_def split: option.splits)
qed

lemma wt_put_unfold:
  "wt_put t k d = t\<lparr>buckets := (buckets t)[whash_index t k :=
     (case chain_replace k d (buckets t ! whash_index t k) of
        Some b' \<Rightarrow> b' | None \<Rightarrow> \<lparr>bkey = k, bdata = d\<rparr> # buckets t ! whash_index t k)]\<rparr>"
  by (simp add: wt_put_def wtable_insert_def Let_def split: option.splits)

lemma wt_map_put: "wt_inv t \<Longrightarrow> wt_map (wt_put t k d) = (wt_map t)(k \<mapsto> d)"
  by (rule ext, simp add: wt_put_unfold wt_map_update split: option.split)
    (auto simp: chain_replace_map bpair_def wt_map_def)

lemma wt_inv_put: "wt_inv t \<Longrightarrow> wt_inv (wt_put t k d)"
  unfolding wt_put_unfold
proof (rule wt_inv_update)
  let ?bs = "buckets t ! whash_index t k"
  assume inv: "wt_inv t"
  note c = wt_inv_chain [OF inv, where k = k]
  show "distinct (map bkey (case chain_replace k d ?bs of
        Some b' \<Rightarrow> b' | None \<Rightarrow> \<lparr>bkey = k, bdata = d\<rparr> # ?bs))"
    using c(1) by (auto simp: chain_replace_None dest: chain_replace_keys split: option.splits)
  fix b
  assume "b \<in> set (case chain_replace k d ?bs of
        Some b' \<Rightarrow> b' | None \<Rightarrow> \<lparr>bkey = k, bdata = d\<rparr> # ?bs)"
  then have "bkey b = k \<or> bkey b \<in> bkey ` set ?bs"
    by (auto split: option.splits dest: chain_replace_key_in)
  then show "whash_index t (bkey b) = whash_index t k"
    using c(2) by auto
qed

lemma wtable_lookup_map:
  "wtable_lookup (Some t) (Some k) = Option.bind (wt_map t k) id"
  by (simp add: wtable_lookup_def chain_lookup_map wt_map_def)

lemma chain_remove_map:
  assumes "distinct (map bkey bs)" and "chain_remove k bs = Some (d, bs')"
  shows "map_of (map bpair bs') = (map_of (map bpair bs))(k := None)"
    and "map_of (map bpair bs) k = Some d"
    and "distinct (map bkey bs')" and "set bs' \<subseteq> set bs"
proof -
  obtain xs b ys where bs: "bs = xs @ b # ys" "bs' = xs @ ys" and b: "bkey b = k" "bdata b = d"
    using chain_remove_Some [OF assms(2)] by blast
  have k: "k \<notin> bkey ` set xs" "k \<notin> bkey ` set ys" using assms(1) b bs by auto
  then have "map_of (map bpair xs) k = None" "map_of (map bpair ys) k = None"
    by (auto simp: map_of_eq_None_iff image_image)
  with bs b show "map_of (map bpair bs') = (map_of (map bpair bs))(k := None)"
    and "map_of (map bpair bs) k = Some d"
    by (auto simp: fun_eq_iff bpair_def map_add_def split: option.splits)
  show "distinct (map bkey bs')" and "set bs' \<subseteq> set bs" using assms(1) bs by auto
qed

lemma wt_del_unfold:
  "wt_del t k = (case chain_remove k (buckets t ! whash_index t k) of
     None \<Rightarrow> t | Some (d, bs) \<Rightarrow> t\<lparr>buckets := (buckets t)[whash_index t k := bs]\<rparr>)"
  by (simp add: wt_del_def wtable_remove_def Let_def split: option.splits)

lemma wtable_remove_Some:
  assumes "wt_inv t"
  shows "wtable_remove (Some t) (Some k) = (Option.bind (wt_map t k) id, Some (wt_del t k))"
proof (cases "chain_remove k (buckets t ! whash_index t k)")
  case None
  then have "wt_map t k = None"
    by (simp add: chain_remove_None wt_map_def map_of_eq_None_iff image_image)
  with None show ?thesis by (simp add: wt_del_unfold wtable_remove_def)
next
  case (Some r)
  obtain d bs where r: "r = (d, bs)" by (cases r)
  with Some have "wt_map t k = Some d"
    using chain_remove_map(2) [OF wt_inv_chain(1) [OF assms]] by (simp add: wt_map_def)
  with Some r show ?thesis by (simp add: wt_del_unfold wtable_remove_def)
qed

lemma wt_map_del: "wt_inv t \<Longrightarrow> wt_map (wt_del t k) = (wt_map t)(k := None)"
proof (cases "chain_remove k (buckets t ! whash_index t k)")
  case None
  then have "wt_map t k = None"
    by (simp add: chain_remove_None wt_map_def map_of_eq_None_iff image_image)
  with None show ?thesis by (simp add: wt_del_unfold fun_upd_idem)
next
  case (Some r)
  assume inv: "wt_inv t"
  obtain d bs where r: "r = (d, bs)" by (cases r)
  note m = chain_remove_map(1) [OF wt_inv_chain(1) [OF inv] Some [unfolded r]]
  show ?thesis
    by (rule ext, simp add: Some r wt_del_unfold wt_map_update inv m) (auto simp: wt_map_def)
qed

lemma wt_inv_del: "wt_inv t \<Longrightarrow> wt_inv (wt_del t k)"
proof (cases "chain_remove k (buckets t ! whash_index t k)")
  case None
  assume "wt_inv t"
  with None show ?thesis by (simp add: wt_del_unfold)
next
  case (Some r)
  assume inv: "wt_inv t"
  obtain d bs where r: "r = (d, bs)" by (cases r)
  note m = chain_remove_map(3,4) [OF wt_inv_chain(1) [OF inv] Some [unfolded r]]
  have "wt_inv (t\<lparr>buckets := (buckets t)[whash_index t k := bs]\<rparr>)"
    using m wt_inv_chain(2) [OF inv] by (intro wt_inv_update [OF inv]) auto
  with Some r show ?thesis by (simp add: wt_del_unfold)
qed

lemma wt_entries_distinct: "wt_inv t \<Longrightarrow> distinct (map fst (wt_entries t))"
  unfolding wt_entries_def map_map fst_o_bpair
  by (rule distinct_concat_key [where g = "whash_index t"]) (simp add: wt_inv_def)

lemma wt_entries_map:
  assumes "wt_inv t"
  shows "map_of (wt_entries t) = wt_map t"
proof (rule ext)
  fix k
  have "map_of (wt_entries t) k = Some d \<longleftrightarrow> wt_map t k = Some d" for d
  proof -
    have "map_of (wt_entries t) k = Some d \<longleftrightarrow>
        (\<exists>i < length (buckets t). \<exists>b \<in> set (buckets t ! i). bpair b = (k, d))"
      using wt_entries_distinct [OF assms]
      by (simp add: map_of_eq_Some_iff wt_entries_def set_concat_nth image_iff del: set_concat)
        (metis lessThan_iff)
    also have "\<dots> \<longleftrightarrow> (\<exists>b \<in> set (buckets t ! whash_index t k). bpair b = (k, d))"
      using whash_index_lt [OF assms, of k] assms by (auto simp: wt_inv_def bpair_def)
    also have "\<dots> \<longleftrightarrow> wt_map t k = Some d"
      using wt_inv_chain(1) [OF assms, of k] by (auto simp: wt_map_def image_iff) metis+
    finally show ?thesis .
  qed
  then show "map_of (wt_entries t) k = wt_map t k"
    by (metis not_Some_eq)
qed

lemma wtable_for_each_entries:
  "wt_inv t \<Longrightarrow> wtable_for_each (Some t) cb s = fold (\<lambda>(k, d). cb d k) (wt_entries t) s"
  using fold_map_nth [of "\<lambda>bs. fold (\<lambda>(k, d). cb d k) (map bpair bs)" "buckets t"]
  by (simp add: wtable_for_each_def loop_size_inv chain_for_each_fold
      wt_entries_def fold_concat_map [symmetric])

lemma clear_slots_inv:
  assumes "wt_inv t"
  shows "wt_inv (clear_slots t)" and "wt_map (clear_slots t) = Map.empty"
    and "wt_entries (clear_slots t) = []"
proof -
  have c: "clear_slots t = t\<lparr>buckets := replicate (length (buckets t)) []\<rparr>"
    by (simp add: clear_slots_def loop_size_inv [OF assms] fold_slots_nil)
  show "wt_inv (clear_slots t)" and "wt_map (clear_slots t) = Map.empty"
    using assms whash_index_lt [OF assms] by (auto simp: c wt_inv_def wt_map_def)
  show "wt_entries (clear_slots t) = []"
    by (simp add: c wt_entries_def)
qed

interpretation wt: table_spec wt_inv wt_map wt_put wt_del wt_entries
  by unfold_locales
    (simp_all add: wt_map_put wt_map_del wt_inv_put wt_inv_del wt_entries_map wt_entries_distinct)

subsection \<open>Creation\<close>

lemma unat_hashsize: "n < 64 \<Longrightarrow> unat (hashsize n) = 2 ^ n"
  by (simp add: hashsize_def unat_2p)

lemma create_loop_result:
  assumes "1 \<le> unat sz" and "unat sz \<le> 30" and "unat want \<le> 2 ^ 30"
    and "unat sz = 1 \<or> 2 ^ (unat sz - 1) < unat want"
  shows "\<exists>sz'. create_loop sz (hashsize (unat sz)) want = Some (sz', hashsize (unat sz')) \<and>
     1 \<le> unat sz' \<and> unat sz' \<le> 30 \<and> unat want \<le> 2 ^ unat sz' \<and>
     (unat sz' = 1 \<or> 2 ^ (unat sz' - 1) < unat want)"
  using assms
proof (induction "30 - unat sz" arbitrary: sz rule: less_induct)
  case less
  show ?case
  proof (cases "hashsize (unat sz) < want")
    case False
    with less.prems show ?thesis
      by (intro exI [of _ sz])
        (simp add: create_loop.simps [of sz] word_less_nat_alt unat_hashsize not_less)
  next
    case True
    then have lt: "2 ^ unat sz < unat want"
      using less.prems by (simp add: word_less_nat_alt unat_hashsize)
    then have "(2::nat) ^ unat sz < 2 ^ 30" using less.prems by linarith
    then have sz30: "unat sz < 30" by (rule power_less_imp_less_exp [rotated]) simp
    then have suc: "unat (sz + 1) = unat sz + 1"
      by (subst unat_add_lem [THEN iffD1]) simp_all
    have "\<exists>sz'. create_loop (sz + 1) (hashsize (unat (sz + 1))) want = Some (sz', hashsize (unat sz'))
        \<and> 1 \<le> unat sz' \<and> unat sz' \<le> 30 \<and> unat want \<le> 2 ^ unat sz' \<and>
        (unat sz' = 1 \<or> 2 ^ (unat sz' - 1) < unat want)"
      using less.prems sz30 suc lt by (intro less.hyps) auto
    with True sz30 show ?thesis by (simp add: create_loop.simps [of sz])
  qed
qed

lemma wtable_create_wf:
  assumes "unat n * 10 \<le> 2 ^ 30"
  shows "\<exists>t :: 'v wtable. wtable_create True True name n = Some (Some t) \<and> wt_inv t \<and> wt_map t = Map.empty \<and>
     unat n * 10 \<le> length (buckets t) \<and> (length (buckets t) = 2 \<or> length (buckets t) < 2 * (unat n * 10))"
proof -
  have n10: "unat (n * 10) = unat n * 10"
    using assms by (subst unat_mult_lem [THEN iffD1]) simp_all
  obtain sz where sz: "create_loop 1 (hashsize 1) (n * 10) = Some (sz, hashsize (unat sz))"
      "1 \<le> unat sz" "unat sz \<le> 30" "unat n * 10 \<le> 2 ^ unat sz"
      "unat sz = 1 \<or> 2 ^ (unat sz - 1) < unat n * 10"
    using create_loop_result [of 1 "n * 10"] assms n10 by auto
  let ?t = "\<lparr>wname = (case name of Some s \<Rightarrow> s | None \<Rightarrow> []),
    buckets = replicate (unat (hashsize (unat sz))) [], wsize = sz\<rparr> :: 'v wtable"
  have c: "wtable_create True True name n = Some (Some ?t)"
    using sz(1) by (simp add: wtable_create_def)
  have len: "length (buckets ?t) = 2 ^ unat sz"
    using sz(3) by (simp add: unat_hashsize)
  then have inv: "wt_inv ?t" using sz(3) by (simp add: wt_inv_def unat_hashsize)
  have "wt_map ?t k = None" for k
    using whash_index_lt [OF inv, of k] by (simp add: wt_map_def)
  then have m: "wt_map ?t = Map.empty" by (rule ext)
  have "(2::nat) ^ unat sz = 2 * 2 ^ (unat sz - 1)"
    using sz(2) by (metis One_nat_def Suc_le_D diff_Suc_1 power_Suc)
  with sz(5) have "length (buckets ?t) = 2 \<or> length (buckets ?t) < 2 * (unat n * 10)"
    using len by auto
  with c inv m len sz(4) show ?thesis by metis
qed

subsection \<open>Properties\<close>

text \<open>C5: inserting a key into a well-formed table keeps the table well formed, makes lookup
  return the new datum for that key and leaves every other key as it was; the return code is 1 for
  a new key and 0 for a key whose datum is replaced.\<close>

theorem wtable_insert_lookup:
  assumes "wt_inv t"
  shows "\<exists>t'. wtable_insert True (Some t) (Some k) d
      = (if k \<in> dom (wt_map t) then 0 else 1, Some t') \<and> wt_inv t' \<and>
      (\<forall>k'. wtable_lookup (Some t') (Some k')
          = (if k' = k then d else wtable_lookup (Some t) (Some k')))"
  using assms by (intro exI [of _ "wt_put t k d"])
    (simp add: wtable_insert_Some wt.inv_put wtable_lookup_map wt.tmap_put)

definition wt_demo :: "nat wtable" where
  "wt_demo = \<lparr>wname = ''demo'', buckets = [[], []], wsize = 1\<rparr>"

lemma wt_demo_inv: "wt_inv wt_demo"
  by (auto simp: wt_inv_def wt_demo_def less_Suc_eq numeral_2_eq_2)

theorem wtable_insert_lookup_witness:
  "\<exists>t'. wtable_insert True (Some wt_demo) (Some ''IBM'') (Some 7)
      = (if ''IBM'' \<in> dom (wt_map wt_demo) then 0 else 1, Some t') \<and> wt_inv t' \<and>
      (\<forall>k'. wtable_lookup (Some t') (Some k')
          = (if k' = ''IBM'' then Some 7 else wtable_lookup (Some wt_demo) (Some k')))"
  by (rule wtable_insert_lookup [OF wt_demo_inv])

text \<open>Removing a key from a well-formed table returns the datum that lookup returned, keeps
  the table well formed, makes the key absent and leaves every other key as it was.\<close>

lemma wtable_remove_lookup:
  assumes "wt_inv t"
  shows "\<exists>t'. wtable_remove (Some t) (Some k) = (wtable_lookup (Some t) (Some k), Some t') \<and>
      wt_inv t' \<and> wt_map t' = (wt_map t)(k := None) \<and>
      (\<forall>k'. wtable_lookup (Some t') (Some k')
          = (if k' = k then None else wtable_lookup (Some t) (Some k')))"
  using assms by (intro exI [of _ "wt_del t k"])
    (simp add: wtable_remove_Some wt.inv_del wtable_lookup_map wt.tmap_del)

lemma fold_snoc_swap: "fold (\<lambda>(k, d) acc. acc @ [(k, d)]) xs acc = acc @ xs"
  by (induction xs arbitrary: acc) auto

text \<open>Iteration over a well-formed table calls the callback exactly once for every key of the
  table, with the datum that lookup returns for it, and clearing with a callback does the same and
  leaves a well-formed empty table.\<close>

lemma wtable_for_each_once:
  assumes "wt_inv t"
  defines "visited \<equiv> wtable_for_each (Some t) (\<lambda>d k acc. acc @ [(k, d)]) []"
  shows "distinct (map fst visited) \<and> (\<forall>k d. (k, d) \<in> set visited \<longleftrightarrow> wt_map t k = Some d) \<and>
    (\<exists>t'. wtable_clear_for_each (Some t) (\<lambda>d k acc. acc @ [(k, d)]) [] = (visited, Some t') \<and>
       wt_inv t' \<and> wt_map t' = Map.empty)"
proof -
  have v: "visited = wt_entries t"
    by (simp add: visited_def wtable_for_each_entries [OF assms(1)] fold_snoc_swap)
  then show ?thesis
    using wt.distinct_entries [OF assms(1)] wt.entries_iff [OF assms(1)] clear_slots_inv [OF assms(1)]
    by (auto simp: wtable_clear_for_each_def wtable_for_each_entries [OF assms(1)] fold_snoc_swap)
qed

text \<open>When \<open>10 * n\<close> is at most \<open>2 ^ 30\<close> and the allocations succeed, creation returns a
  well-formed empty table with at least \<open>10 * n\<close> slots, and with fewer than twice that many
  unless it has the minimal two slots; in particular its size loop ends.\<close>

lemma wtable_create_ok:
  assumes "unat n * 10 \<le> 2 ^ 30"
  shows "\<exists>t :: 'v wtable. wtable_create True True name n = Some (Some t) \<and> wt_inv t \<and> wt_map t = Map.empty \<and>
     unat n * 10 \<le> length (buckets t) \<and> (length (buckets t) = 2 \<or> length (buckets t) < 2 * (unat n * 10))"
  using assms by (rule wtable_create_wf)

end
