(* ===== verification/EndpointPool.thy ===== *)
theory EndpointPool
  imports WTable
begin

text \<open>
  The endpoint pool of the qpid bridge (\<open>mama/c_cpp/src/c/bridge/qpid/endpointpool.c\<close>): a table
  from topics to tables from identifiers to endpoints, and a result buffer that is reused by every
  query. The sub tables are objects that the code reaches through pointers and changes in place, so
  the model has a store \<open>tables\<close> of sub tables by address and the container maps a topic to an
  address. The buffer is the list of the pointer-sized slots that are allocated; a write behind its
  end is the result \<open>None\<close>. The \<open>n\<close>-th allocation of a call succeeds when \<open>mem n\<close>
  holds, and \<open>realloc\<close> to \<open>n\<close> bytes when \<open>re n\<close> holds.
\<close>

type_synonym alloc = "nat \<Rightarrow> bool"

datatype 'v endpoint = EpData 'v | EpKey string

record 'v endpointPoolImpl =
  mName :: string
  mContainer :: "nat wtable"
  tables :: "nat \<Rightarrow> 'v wtable"
  nextTable :: nat
  mBuffer :: "'v endpoint option list"
  mBufferOffset :: nat
  mBufferLimit :: nat

definition ENDPOINT_POOL_TABLE_CHUNK_SIZE :: u64 where
  "ENDPOINT_POOL_TABLE_CHUNK_SIZE = 10"

definition ENDPOINT_POOL_BUFFER_CHUNK_SIZE :: nat where
  "ENDPOINT_POOL_BUFFER_CHUNK_SIZE = 1024"

definition sizeof_ptr :: nat where
  "sizeof_ptr = 8"

text \<open>The outer \<open>None\<close> is the undefined shift of \<open>wtable_create\<close>. The store is empty; its
  default value is irrelevant, no address is allocated.\<close>

definition endpointPool_create ::
  "alloc \<Rightarrow> bool \<Rightarrow> string option \<Rightarrow> (mama_status \<times> 'v endpointPoolImpl option) option" where
  "endpointPool_create mem endpoints name =
    (case name of
       None \<Rightarrow> Some (MAMA_STATUS_NULL_ARG, None)
     | Some nm \<Rightarrow>
         if \<not> endpoints then Some (MAMA_STATUS_NULL_ARG, None)
         else if \<not> mem 0 then Some (MAMA_STATUS_NOMEM, None)
         else if \<not> mem 1 then Some (MAMA_STATUS_NOMEM, None)
         else if \<not> mem 2 then Some (MAMA_STATUS_NOMEM, None)
         else
           (case wtable_create (mem 3) (mem 4) (Some nm) ENDPOINT_POOL_TABLE_CHUNK_SIZE of
              None \<Rightarrow> None
            | Some None \<Rightarrow> Some (MAMA_STATUS_NOMEM, None)
            | Some (Some t) \<Rightarrow>
                Some (MAMA_STATUS_OK, Some
                  \<lparr>mName = nm, mContainer = t,
                   tables = (\<lambda>_. \<lparr>wname = [], buckets = [], wsize = 0\<rparr>), nextTable = 0,
                   mBuffer = replicate (ENDPOINT_POOL_BUFFER_CHUNK_SIZE div sizeof_ptr) None,
                   mBufferOffset = 0, mBufferLimit = ENDPOINT_POOL_BUFFER_CHUNK_SIZE\<rparr>)))"

definition endpointPool_registerWithIdentifier ::
  "alloc \<Rightarrow> 'v endpointPoolImpl option \<Rightarrow> string option \<Rightarrow> string option \<Rightarrow> 'v option
     \<Rightarrow> (mama_status \<times> 'v endpointPoolImpl option) option" where
  "endpointPool_registerWithIdentifier mem endpoints topic identifier opaque =
    (case (endpoints, topic, identifier) of
       (Some impl, Some tp, Some ident) \<Rightarrow>
         (case wtable_lookup (Some (mContainer impl)) (Some tp) of
            None \<Rightarrow>
              (case wtable_create (mem 0) (mem 1) (Some tp) 1 of
                 None \<Rightarrow> None
               | Some newTable \<Rightarrow>
                   (let newTable' = snd (wtable_insert (mem 2) newTable (Some ident) opaque);
                        a = nextTable impl;
                        ref = map_option (\<lambda>_. a) newTable';
                        cont = the (snd (wtable_insert (mem 3) (Some (mContainer impl)) (Some tp) ref))
                    in Some (MAMA_STATUS_OK, Some
                         (case newTable' of
                            None \<Rightarrow> impl\<lparr>mContainer := cont\<rparr>
                          | Some t \<Rightarrow> impl\<lparr>mContainer := cont, tables := (tables impl)(a := t),
                                          nextTable := Suc a\<rparr>))))
          | Some a \<Rightarrow>
              (case wtable_lookup (Some (tables impl a)) (Some ident) of
                 None \<Rightarrow>
                   Some (MAMA_STATUS_OK, Some (impl\<lparr>tables := (tables impl)(a :=
                     the (snd (wtable_insert (mem 0) (Some (tables impl a)) (Some ident) opaque)))\<rparr>))
               | Some entry \<Rightarrow> Some (MAMA_STATUS_OK, Some impl)))
     | _ \<Rightarrow> Some (MAMA_STATUS_NULL_ARG, endpoints))"

text \<open>\<open>fmt\<close> is the platform's \<open>"%p"\<close> rendering of a pointer; \<open>snprintf\<close> keeps at most 127
  characters of it. The third component is the string that \<open>*identifier\<close> is set to.\<close>

definition endpointPool_registerWithoutIdentifier ::
  "alloc \<Rightarrow> ('v \<Rightarrow> string) \<Rightarrow> 'v endpointPoolImpl option \<Rightarrow> string option \<Rightarrow> bool \<Rightarrow> 'v option
     \<Rightarrow> (mama_status \<times> 'v endpointPoolImpl option \<times> string option) option" where
  "endpointPool_registerWithoutIdentifier mem fmt endpoints topic identifier opaque =
    (case (endpoints, topic, opaque) of
       (Some impl, Some tp, Some v) \<Rightarrow>
         (if \<not> identifier then Some (MAMA_STATUS_NULL_ARG, endpoints, None)
          else
            (let ident = (if mem 0 then Some (take 127 (fmt v)) else None)
             in map_option (\<lambda>(st, p). (st, p, ident))
                  (endpointPool_registerWithIdentifier (\<lambda>n. mem (Suc n)) endpoints topic ident opaque)))
     | _ \<Rightarrow> Some (MAMA_STATUS_NULL_ARG, endpoints, None))"

definition endpointPool_unregister ::
  "'v endpointPoolImpl option \<Rightarrow> string option \<Rightarrow> string option
     \<Rightarrow> mama_status \<times> 'v endpointPoolImpl option" where
  "endpointPool_unregister endpoints topic identifier =
    (case (endpoints, topic, identifier) of
       (Some impl, Some tp, Some ident) \<Rightarrow>
         (case wtable_lookup (Some (mContainer impl)) (Some tp) of
            None \<Rightarrow> (MAMA_STATUS_OK, Some impl)
          | Some a \<Rightarrow>
              (MAMA_STATUS_OK, Some (impl\<lparr>tables := (tables impl)(a :=
                 the (snd (wtable_remove (Some (tables impl a)) (Some ident))))\<rparr>)))
     | _ \<Rightarrow> (MAMA_STATUS_NULL_ARG, endpoints))"

text \<open>The growth loop of \<open>endpointPoolImpl_extendBuffer\<close>.\<close>

function grow :: "nat \<Rightarrow> nat \<Rightarrow> nat" where
  "grow newSize sz =
    (if newSize < sz then grow (newSize + ENDPOINT_POOL_BUFFER_CHUNK_SIZE) sz else newSize)"
  by pat_completeness auto
termination
  by (relation "measure (\<lambda>(newSize, sz). sz - newSize)")
    (auto simp: ENDPOINT_POOL_BUFFER_CHUNK_SIZE_def)

declare grow.simps [simp del]

text \<open>The code stores the new buffer but leaves \<open>mBufferLimit\<close> as it was.\<close>

definition endpointPoolImpl_extendBuffer ::
  "(nat \<Rightarrow> bool) \<Rightarrow> 'v endpointPoolImpl \<Rightarrow> nat \<Rightarrow> mama_status \<times> 'v endpointPoolImpl" where
  "endpointPoolImpl_extendBuffer re impl sz =
    (if sz \<le> mBufferLimit impl then (MAMA_STATUS_OK, impl)
     else
       (let newSize = grow (mBufferLimit impl) sz; n = newSize div sizeof_ptr
        in if \<not> re newSize then (MAMA_STATUS_NOMEM, impl)
           else (MAMA_STATUS_OK, impl\<lparr>mBuffer :=
                   take n (mBuffer impl) @ replicate (n - length (mBuffer impl)) None\<rparr>)))"

definition endpointPoolImpl_appendEachEndpoint ::
  "(nat \<Rightarrow> bool) \<Rightarrow> 'v option \<Rightarrow> string \<Rightarrow> 'v endpointPoolImpl option \<Rightarrow> 'v endpointPoolImpl option" where
  "endpointPoolImpl_appendEachEndpoint re data key closure =
    Option.bind closure (\<lambda>impl.
      (let required = sizeof_ptr * mBufferOffset impl;
           impl = (if required > mBufferLimit impl
                   then snd (endpointPoolImpl_extendBuffer re impl required) else impl);
           d = (case data of None \<Rightarrow> EpKey key | Some v \<Rightarrow> EpData v)
       in if mBufferOffset impl < length (mBuffer impl)
          then Some (impl\<lparr>mBuffer := (mBuffer impl)[mBufferOffset impl := Some d],
                          mBufferOffset := Suc (mBufferOffset impl)\<rparr>)
          else None))"

text \<open>The result is the status, the count, the array \<open>*opaque\<close> (\<open>None\<close> for \<open>NULL\<close>) and
  the pool; \<open>outs\<close> says that the two output arguments are not \<open>NULL\<close>.\<close>

definition endpointPool_getRegistered ::
  "(nat \<Rightarrow> bool) \<Rightarrow> 'v endpointPoolImpl option \<Rightarrow> string option \<Rightarrow> bool
    \<Rightarrow> (mama_status \<times> nat \<times> 'v endpoint option list option \<times> 'v endpointPoolImpl option) option" where
  "endpointPool_getRegistered re endpoints topic outs =
    (case (endpoints, topic) of
       (Some impl, Some tp) \<Rightarrow>
         (if \<not> outs then Some (MAMA_STATUS_NULL_ARG, 0, None, endpoints)
          else
            (case wtable_lookup (Some (mContainer impl)) (Some tp) of
               None \<Rightarrow> Some (MAMA_STATUS_OK, 0, None, endpoints)
             | Some a \<Rightarrow>
                 Option.bind
                   (wtable_for_each (Some (tables impl a)) (endpointPoolImpl_appendEachEndpoint re)
                     (Some (impl\<lparr>mBufferOffset := 0\<rparr>)))
                   (\<lambda>impl'. Some (MAMA_STATUS_OK, mBufferOffset impl', Some (mBuffer impl'), Some impl'))))
     | _ \<Rightarrow> Some (MAMA_STATUS_NULL_ARG, 0, None, endpoints))"

definition endpointPool_getName ::
  "'v endpointPoolImpl option \<Rightarrow> bool \<Rightarrow> mama_status \<times> string option" where
  "endpointPool_getName endpoints out =
    (case endpoints of
       None \<Rightarrow> (MAMA_STATUS_NULL_ARG, None)
     | Some impl \<Rightarrow> if \<not> out then (MAMA_STATUS_NULL_ARG, None)
                   else (MAMA_STATUS_OK, Some (mName impl)))"

text \<open>The callback records a match in \<open>existNode.mResult\<close>.\<close>

definition endpointPoolImpl_checkEndpointExists :: "'v \<Rightarrow> 'v option \<Rightarrow> string \<Rightarrow> int \<Rightarrow> int" where
  "endpointPoolImpl_checkEndpointExists matchWith data key result =
    (if data = Some matchWith then 1 else result)"

text \<open>The integer returned on a \<open>NULL\<close> argument is the code 5 of \<open>MAMA_STATUS_NULL_ARG\<close>; the
  accumulated result of the iteration is computed and then ignored.\<close>

definition endpointPool_isRegistedByContent ::
  "'v endpointPoolImpl option \<Rightarrow> string option \<Rightarrow> 'v option \<Rightarrow> int" where
  "endpointPool_isRegistedByContent endpoints topic content =
    (case (endpoints, topic, content) of
       (Some impl, Some tp, Some c) \<Rightarrow>
         (case wtable_lookup (Some (mContainer impl)) (Some tp) of
            None \<Rightarrow> 0
          | Some a \<Rightarrow>
              (let mResult = wtable_for_each (Some (tables impl a))
                     (endpointPoolImpl_checkEndpointExists c) 0
               in 1))
     | _ \<Rightarrow> 5)"

text \<open>Destruction visits every sub table; the result is the addresses of the sub tables whose keys
  and whose structure are freed, in order, or \<open>None\<close> when a \<open>NULL\<close> sub table is
  dereferenced.\<close>

definition endpointPoolImpl_destroySubTable :: "nat option \<Rightarrow> string \<Rightarrow> nat list option \<Rightarrow> nat list option" where
  "endpointPoolImpl_destroySubTable data key closure =
    Option.bind closure (\<lambda>freed. case data of None \<Rightarrow> None | Some a \<Rightarrow> Some (freed @ [a]))"

definition endpointPool_destroy ::
  "'v endpointPoolImpl option \<Rightarrow> (mama_status \<times> nat list) option" where
  "endpointPool_destroy endpoints =
    (case endpoints of
       None \<Rightarrow> Some (MAMA_STATUS_NULL_ARG, [])
     | Some impl \<Rightarrow>
         Option.bind (wtable_for_each (Some (mContainer impl)) endpointPoolImpl_destroySubTable (Some []))
           (\<lambda>freed. Some (MAMA_STATUS_OK, freed)))"

subsection \<open>Invariant and abstraction\<close>

text \<open>Every topic's reference is an allocated address, no two topics share one, every sub table is
  well formed, and the buffer has the size of one chunk.\<close>

definition ep_inv :: "'v endpointPoolImpl \<Rightarrow> bool" where
  "ep_inv p \<longleftrightarrow> wt_inv (mContainer p) \<and>
     (\<forall>tp r. wt_map (mContainer p) tp = Some r \<longrightarrow>
        (\<exists>a. r = Some a \<and> a < nextTable p \<and> wt_inv (tables p a))) \<and>
     (\<forall>tp tp' a. wt_map (mContainer p) tp = Some (Some a) \<longrightarrow>
        wt_map (mContainer p) tp' = Some (Some a) \<longrightarrow> tp = tp') \<and>
     mBufferLimit p = 1024 \<and> length (mBuffer p) = 128"

text \<open>The abstract pool: for every topic the map from identifiers to data pointers.\<close>

definition ep_abs :: "'v endpointPoolImpl \<Rightarrow> string \<Rightarrow> string \<rightharpoonup> 'v option" where
  "ep_abs p tp = (case wt_map (mContainer p) tp of Some (Some a) \<Rightarrow> wt_map (tables p a) | _ \<Rightarrow> Map.empty)"

text \<open>The specification of registration: an identifier with a non-\<open>NULL\<close> endpoint keeps it,
  any other identifier gets the new endpoint.\<close>

definition reg_spec :: "(string \<rightharpoonup> 'v option) \<Rightarrow> string \<Rightarrow> 'v option \<Rightarrow> (string \<rightharpoonup> 'v option)" where
  "reg_spec m ident opaque =
    (case m ident of Some (Some v) \<Rightarrow> m | _ \<Rightarrow> m(ident \<mapsto> opaque))"

subsection \<open>Lemmas\<close>

abbreviation all_mem :: alloc where
  "all_mem \<equiv> (\<lambda>_. True)"

lemma ep_inv_container: "ep_inv p \<Longrightarrow> wt_inv (mContainer p)"
  by (simp add: ep_inv_def)

lemma ep_inv_ref:
  "ep_inv p \<Longrightarrow> wt_map (mContainer p) tp = Some r \<Longrightarrow>
     \<exists>a. r = Some a \<and> a < nextTable p \<and> wt_inv (tables p a)"
  by (simp add: ep_inv_def)

lemma ep_inv_inj:
  "ep_inv p \<Longrightarrow> wt_map (mContainer p) tp = Some (Some a) \<Longrightarrow>
     wt_map (mContainer p) tp' = Some (Some a) \<Longrightarrow> tp' = tp"
  by (auto simp: ep_inv_def)

lemma topic_lookup:
  assumes "ep_inv p"
  shows "wtable_lookup (Some (mContainer p)) (Some tp) = None \<longleftrightarrow> wt_map (mContainer p) tp = None"
    and "wtable_lookup (Some (mContainer p)) (Some tp) = Some a \<longleftrightarrow>
          wt_map (mContainer p) tp = Some (Some a)"
  using ep_inv_ref [OF assms, of tp]
  by (cases "wt_map (mContainer p) tp"; auto simp: wtable_lookup_map)+

text \<open>Changing one topic's sub table in place.\<close>

lemma ep_table_update:
  assumes inv: "ep_inv p" and ref: "wt_map (mContainer p) tp = Some (Some a)" and t: "wt_inv t"
  shows "ep_inv (p\<lparr>tables := (tables p)(a := t)\<rparr>)"
    and "ep_abs (p\<lparr>tables := (tables p)(a := t)\<rparr>) = (ep_abs p)(tp := wt_map t)"
proof -
  show "ep_inv (p\<lparr>tables := (tables p)(a := t)\<rparr>)"
    unfolding ep_inv_def
  proof (intro conjI allI impI)
    fix tp' r
    assume "wt_map (mContainer (p\<lparr>tables := (tables p)(a := t)\<rparr>)) tp' = Some r"
    then show "\<exists>b. r = Some b \<and> b < nextTable (p\<lparr>tables := (tables p)(a := t)\<rparr>) \<and>
        wt_inv (tables (p\<lparr>tables := (tables p)(a := t)\<rparr>) b)"
      using ep_inv_ref [OF inv, of tp' r] t by auto
  qed (use inv in \<open>auto simp: ep_inv_def\<close>)
  have "ep_abs (p\<lparr>tables := (tables p)(a := t)\<rparr>) tp' = ((ep_abs p)(tp := wt_map t)) tp'" for tp'
  proof (cases "tp' = tp")
    case True
    with ref show ?thesis by (simp add: ep_abs_def)
  next
    case False
    then have "wt_map (mContainer p) tp' \<noteq> Some (Some a)" using ep_inv_inj [OF inv ref] by blast
    with False show ?thesis by (auto simp: ep_abs_def split: option.splits)
  qed
  then show "ep_abs (p\<lparr>tables := (tables p)(a := t)\<rparr>) = (ep_abs p)(tp := wt_map t)"
    by (rule ext)
qed

text \<open>Adding a topic with a fresh sub table.\<close>

lemma ep_table_new:
  assumes inv: "ep_inv p" and new: "wt_map (mContainer p) tp = None" and t: "wt_inv t"
  defines "q \<equiv> p\<lparr>mContainer := wt_put (mContainer p) tp (Some (nextTable p)),
      tables := (tables p)(nextTable p := t), nextTable := Suc (nextTable p)\<rparr>"
  shows "ep_inv q" and "ep_abs q = (ep_abs p)(tp := wt_map t)"
proof -
  note c = ep_inv_container [OF inv]
  have m: "wt_map (mContainer q) = (wt_map (mContainer p))(tp \<mapsto> Some (nextTable p))"
    using c by (simp add: q_def wt.tmap_put)
  have q: "nextTable q = Suc (nextTable p)" "tables q = (tables p)(nextTable p := t)"
    by (simp_all add: q_def)
  have lt: "wt_map (mContainer p) tp' = Some (Some a) \<Longrightarrow> a < nextTable p" for tp' a
    using ep_inv_ref [OF inv, of tp'] by auto
  show "ep_inv q"
    unfolding ep_inv_def
  proof (intro conjI allI impI)
    show "wt_inv (mContainer q)" using c by (simp add: q_def wt.inv_put)
    show "mBufferLimit q = 1024" and "length (mBuffer q) = 128"
      using inv by (simp_all add: q_def ep_inv_def)
    fix tp' r
    assume "wt_map (mContainer q) tp' = Some r"
    then show "\<exists>a. r = Some a \<and> a < nextTable q \<and> wt_inv (tables q a)"
      using ep_inv_ref [OF inv, of tp' r] t
      by (auto simp: m q less_Suc_eq split: if_splits)
  next
    fix tp1 tp2 a
    assume "wt_map (mContainer q) tp1 = Some (Some a)" and "wt_map (mContainer q) tp2 = Some (Some a)"
    then show "tp1 = tp2"
      using lt ep_inv_inj [OF inv] by (auto simp: m split: if_splits)
  qed
  have "ep_abs q tp' = ((ep_abs p)(tp := wt_map t)) tp'" for tp'
    using lt [of tp'] by (auto simp: ep_abs_def m q split: option.splits)
  then show "ep_abs q = (ep_abs p)(tp := wt_map t)" by (rule ext)
qed

text \<open>Registration, when every allocation succeeds.\<close>

lemma registerWithIdentifier_ok:
  assumes inv: "ep_inv p"
  shows "\<exists>q. endpointPool_registerWithIdentifier all_mem (Some p) (Some tp) (Some ident) opaque
       = Some (MAMA_STATUS_OK, Some q) \<and> ep_inv q \<and>
       ep_abs q = (ep_abs p)(tp := reg_spec (ep_abs p tp) ident opaque)"
proof (cases "wt_map (mContainer p) tp")
  case None
  obtain t :: "'a wtable" where t: "wtable_create True True (Some tp) 1 = Some (Some t)"
      "wt_inv t" "wt_map t = Map.empty"
    using wtable_create_wf [of 1 "Some tp"] by auto
  let ?t = "wt_put t ident opaque"
  have "wtable_lookup (Some (mContainer p)) (Some tp) = None"
    using None by (simp add: topic_lookup [OF inv])
  with t(1) have "endpointPool_registerWithIdentifier all_mem (Some p) (Some tp) (Some ident) opaque
       = Some (MAMA_STATUS_OK, Some (p\<lparr>mContainer := wt_put (mContainer p) tp (Some (nextTable p)),
           tables := (tables p)(nextTable p := ?t), nextTable := Suc (nextTable p)\<rparr>))"
    by (simp add: endpointPool_registerWithIdentifier_def wtable_insert_Some Let_def)
  moreover have "wt_map ?t = reg_spec (ep_abs p tp) ident opaque"
    using t None by (simp add: wt.tmap_put ep_abs_def reg_spec_def)
  ultimately show ?thesis
    using ep_table_new [OF inv None wt.inv_put [OF t(2), of ident opaque]] by (simp add: wt.tmap_put)
next
  case (Some r)
  then obtain a where a: "wt_map (mContainer p) tp = Some (Some a)" and t: "wt_inv (tables p a)"
    using ep_inv_ref [OF inv Some] by auto
  have abs: "ep_abs p tp = wt_map (tables p a)" by (simp add: ep_abs_def a)
  have l: "wtable_lookup (Some (mContainer p)) (Some tp) = Some a"
    using a by (simp add: topic_lookup [OF inv])
  show ?thesis
  proof (cases "wtable_lookup (Some (tables p a)) (Some ident)")
    case None
    then have "wt_map (wt_put (tables p a) ident opaque) = reg_spec (ep_abs p tp) ident opaque"
      using t by (auto simp: wt.tmap_put abs reg_spec_def wtable_lookup_map split: option.splits)
    with None l ep_table_update [OF inv a wt.inv_put [OF t, of ident opaque]] show ?thesis
      by (simp add: endpointPool_registerWithIdentifier_def wtable_insert_Some)
  next
    case (Some v)
    then have "reg_spec (ep_abs p tp) ident opaque = ep_abs p tp"
      by (auto simp: abs reg_spec_def wtable_lookup_map split: option.splits)
    with Some l inv show ?thesis
      by (simp add: endpointPool_registerWithIdentifier_def)
  qed
qed

lemma unregister_ok:
  assumes inv: "ep_inv p"
  shows "\<exists>q. endpointPool_unregister (Some p) (Some tp) (Some ident) = (MAMA_STATUS_OK, Some q) \<and>
       ep_inv q \<and> ep_abs q = (ep_abs p)(tp := (ep_abs p tp)(ident := None))"
proof (cases "wt_map (mContainer p) tp")
  case None
  then have "wtable_lookup (Some (mContainer p)) (Some tp) = None" and e: "ep_abs p tp = Map.empty"
    by (simp_all add: topic_lookup [OF inv] ep_abs_def)
  moreover have "(ep_abs p)(tp := (ep_abs p tp)(ident := None)) = ep_abs p"
    by (simp add: e fun_upd_idem)
  ultimately show ?thesis using inv by (simp add: endpointPool_unregister_def)
next
  case (Some r)
  then obtain a where a: "wt_map (mContainer p) tp = Some (Some a)" and t: "wt_inv (tables p a)"
    using ep_inv_ref [OF inv Some] by auto
  have "wt_map (wt_del (tables p a) ident) = (ep_abs p tp)(ident := None)"
    using t a by (simp add: wt.tmap_del ep_abs_def)
  moreover have "wtable_lookup (Some (mContainer p)) (Some tp) = Some a"
    using a by (simp add: topic_lookup [OF inv])
  ultimately show ?thesis
    using ep_table_update [OF inv a wt.inv_del [OF t, of ident]]
    by (simp add: endpointPool_unregister_def wtable_remove_Some [OF t])
qed

subsection \<open>The query and its buffer\<close>

definition ep_of :: "string \<times> 'v option \<Rightarrow> 'v endpoint" where
  "ep_of kd = (case snd kd of None \<Rightarrow> EpKey (fst kd) | Some v \<Rightarrow> EpData v)"

abbreviation append_all ::
  "(nat \<Rightarrow> bool) \<Rightarrow> (string \<times> 'v option) list \<Rightarrow> 'v endpointPoolImpl option \<Rightarrow> 'v endpointPoolImpl option" where
  "append_all re es \<equiv> fold (\<lambda>(k, d). endpointPoolImpl_appendEachEndpoint re d k) es"

lemma append_one:
  assumes "mBufferLimit p = 1024" and "length (mBuffer p) = 128" and "mBufferOffset p \<le> 128"
  shows "endpointPoolImpl_appendEachEndpoint re d k (Some p) =
    (if mBufferOffset p < 128
     then Some (p\<lparr>mBuffer := (mBuffer p)[mBufferOffset p := Some (ep_of (k, d))],
                  mBufferOffset := Suc (mBufferOffset p)\<rparr>)
     else None)"
  using assms
  by (auto simp: endpointPoolImpl_appendEachEndpoint_def sizeof_ptr_def ep_of_def Let_def
      split: option.splits)

lemma append_all_None: "append_all re es None = None"
  by (induction es) (auto simp: endpointPoolImpl_appendEachEndpoint_def)

lemma append_all_fits:
  assumes "mBufferLimit p = 1024" and "length (mBuffer p) = 128"
    and "mBufferOffset p + length es \<le> 128"
  shows "append_all re es (Some p) = Some (p\<lparr>
     mBuffer := take (mBufferOffset p) (mBuffer p) @ map (Some \<circ> ep_of) es
                  @ drop (mBufferOffset p + length es) (mBuffer p),
     mBufferOffset := mBufferOffset p + length es\<rparr>)"
  using assms
proof (induction es arbitrary: p)
  case Nil
  then show ?case by simp
next
  case (Cons e es)
  obtain k d where e: "e = (k, d)" by (cases e)
  let ?o = "mBufferOffset p"
  let ?p = "p\<lparr>mBuffer := (mBuffer p)[?o := Some (ep_of e)], mBufferOffset := Suc ?o\<rparr>"
  have "append_all re (e # es) (Some p) = append_all re es (Some ?p)"
    using Cons.prems by (simp add: e append_one)
  moreover have "take (Suc ?o) ((mBuffer p)[?o := Some (ep_of e)])
      = take ?o (mBuffer p) @ [Some (ep_of e)]"
    using Cons.prems by (simp add: take_Suc_conv_app_nth)
  ultimately show ?case
    using Cons.prems Cons.IH [of ?p] by simp
qed

lemma append_all_overflows:
  assumes "mBufferLimit p = 1024" and "length (mBuffer p) = 128"
    and "mBufferOffset p \<le> 128" and "128 < mBufferOffset p + length es"
  shows "append_all re es (Some p) = None"
  using assms
proof (induction es arbitrary: p)
  case Nil
  then show ?case by simp
next
  case (Cons e es)
  then show ?case
    by (cases e) (simp add: append_one append_all_None)
qed

text \<open>What a successful query must answer: status OK, the number of identifiers registered for the
  topic, and in the first slots of the array the endpoint of every identifier (the identifier
  itself for a \<open>NULL\<close> endpoint), each once; registrations are not changed.\<close>

definition getRegistered_spec ::
  "'v endpointPoolImpl \<Rightarrow> string \<Rightarrow>
    (mama_status \<times> nat \<times> 'v endpoint option list option \<times> 'v endpointPoolImpl option) option \<Rightarrow> bool" where
  "getRegistered_spec p tp r \<longleftrightarrow>
    (\<exists>es arr q. r = Some (MAMA_STATUS_OK, card (dom (ep_abs p tp)), arr, Some q) \<and>
       ep_inv q \<and> ep_abs q = ep_abs p \<and> distinct (map fst es) \<and> map_of es = ep_abs p tp \<and>
       (es \<noteq> [] \<longrightarrow> (\<exists>a. arr = Some a \<and> take (length es) a = map (Some \<circ> ep_of) es)))"

lemma getRegistered_unknown:
  assumes inv: "ep_inv p" and none: "wt_map (mContainer p) tp = None"
  shows "getRegistered_spec p tp (endpointPool_getRegistered re (Some p) (Some tp) True)"
proof -
  have "ep_abs p tp = Map.empty" using none by (simp add: ep_abs_def)
  moreover have "wtable_lookup (Some (mContainer p)) (Some tp) = None"
    using none by (simp add: topic_lookup [OF inv])
  ultimately show ?thesis
    using inv by (simp add: getRegistered_spec_def endpointPool_getRegistered_def)
qed

lemma getRegistered_append:
  assumes inv: "ep_inv p" and a: "wt_map (mContainer p) tp = Some (Some a)" and t: "wt_inv (tables p a)"
  shows "endpointPool_getRegistered re (Some p) (Some tp) True =
        Option.bind (append_all re (wt_entries (tables p a)) (Some (p\<lparr>mBufferOffset := 0\<rparr>)))
          (\<lambda>q. Some (MAMA_STATUS_OK, mBufferOffset q, Some (mBuffer q), Some q))"
  using a t by (simp add: endpointPool_getRegistered_def topic_lookup(2) [OF inv, THEN iffD2]
      wtable_for_each_entries)

lemma getRegistered_known:
  assumes inv: "ep_inv p" and a: "wt_map (mContainer p) tp = Some (Some a)" and t: "wt_inv (tables p a)"
    and le: "card (dom (ep_abs p tp)) \<le> 128"
  shows "getRegistered_spec p tp (endpointPool_getRegistered re (Some p) (Some tp) True)"
proof -
  let ?es = "wt_entries (tables p a)" and ?p = "p\<lparr>mBufferOffset := 0\<rparr>"
  let ?buf = "map (Some \<circ> ep_of) ?es @ drop (length ?es) (mBuffer p)"
  let ?q = "p\<lparr>mBuffer := ?buf, mBufferOffset := length ?es\<rparr>"
  have abs: "ep_abs p tp = wt_map (tables p a)" using a by (simp add: ep_abs_def)
  have n: "length ?es = card (dom (ep_abs p tp))" using t by (simp add: abs wt.length_entries)
  have buf: "mBufferLimit p = 1024" "length (mBuffer p) = 128" using inv by (simp_all add: ep_inv_def)
  have "append_all re ?es (Some ?p) = Some ?q"
    using append_all_fits [of ?p ?es re] buf n le by simp
  then have "endpointPool_getRegistered re (Some p) (Some tp) True
      = Some (MAMA_STATUS_OK, card (dom (ep_abs p tp)), Some ?buf, Some ?q)"
    by (simp add: getRegistered_append [OF inv a t] n)
  moreover have "ep_inv ?q" using inv buf n le by (simp add: ep_inv_def)
  moreover have "ep_abs ?q = ep_abs p"
    by (rule ext) (simp add: ep_abs_def split: option.split)
  moreover have "distinct (map fst ?es) \<and> map_of ?es = ep_abs p tp"
    using t by (simp add: abs wt.tmap_entries wt.distinct_entries)
  ultimately show ?thesis
    unfolding getRegistered_spec_def
    by (intro exI [of _ ?es] exI [of _ "Some ?buf"] exI [of _ ?q]) simp
qed

lemma getRegistered_overflow:
  assumes inv: "ep_inv p" and gt: "128 < card (dom (ep_abs p tp))"
  shows "endpointPool_getRegistered re (Some p) (Some tp) True = None"
proof -
  from gt have "wt_map (mContainer p) tp \<noteq> None" by (auto simp: ep_abs_def split: option.splits)
  then obtain a where a: "wt_map (mContainer p) tp = Some (Some a)" and t: "wt_inv (tables p a)"
    using ep_inv_ref [OF inv, of tp] by auto
  have "length (wt_entries (tables p a)) = card (dom (ep_abs p tp))"
    using t a by (simp add: ep_abs_def wt.length_entries)
  then have "append_all re (wt_entries (tables p a)) (Some (p\<lparr>mBufferOffset := 0\<rparr>)) = None"
    using inv gt by (intro append_all_overflows) (simp_all add: ep_inv_def)
  then show ?thesis by (simp add: getRegistered_append [OF inv a t])
qed

lemma endpointPool_create_wf:
  "\<exists>p. endpointPool_create all_mem True (Some nm) = Some (MAMA_STATUS_OK, Some p) \<and>
     ep_inv p \<and> ep_abs p = (\<lambda>_. Map.empty) \<and> mName p = nm"
proof -
  obtain t :: "nat wtable" where t: "wtable_create True True (Some nm) 10 = Some (Some t)"
      "wt_inv t" "wt_map t = Map.empty"
    using wtable_create_wf [of 10 "Some nm"] by auto
  then show ?thesis
    by (simp add: endpointPool_create_def ENDPOINT_POOL_TABLE_CHUNK_SIZE_def ep_inv_def ep_abs_def
        ENDPOINT_POOL_BUFFER_CHUNK_SIZE_def sizeof_ptr_def fun_eq_iff)
qed

subsection \<open>Properties\<close>

text \<open>A pool that a run of the code reaches: creation followed by one registration.\<close>

lemma ep_inv_nonempty:
  "\<exists>p :: nat endpointPoolImpl. ep_inv p \<and> ep_abs p ''T'' = [''id'' \<mapsto> Some 5]"
proof -
  obtain p0 :: "nat endpointPoolImpl" where "ep_inv p0" and "ep_abs p0 = (\<lambda>_. Map.empty)"
    using endpointPool_create_wf by blast
  then show ?thesis
    using registerWithIdentifier_ok [of p0 "''T''" "''id''" "Some 5"] by (auto simp: reg_spec_def)
qed

definition ep_demo :: "nat endpointPoolImpl" where
  "ep_demo = \<lparr>mName = ''pool'', mContainer = \<lparr>wname = ''pool'', buckets = [[], []], wsize = 1\<rparr>,
     tables = (\<lambda>_. \<lparr>wname = [], buckets = [], wsize = 0\<rparr>), nextTable = 0,
     mBuffer = replicate 128 None, mBufferOffset = 0, mBufferLimit = 1024\<rparr>"

lemma ep_demo_wf: "ep_inv ep_demo" and ep_demo_abs: "ep_abs ep_demo = (\<lambda>_. Map.empty)"
proof -
  have "wt_inv (mContainer ep_demo)"
    by (auto simp: ep_demo_def wt_inv_def less_Suc_eq numeral_2_eq_2)
  then have "wt_map (mContainer ep_demo) tp = None" for tp
    using whash_index_lt [of "mContainer ep_demo" tp]
    by (auto simp: ep_demo_def wt_map_def less_Suc_eq numeral_2_eq_2)
  with \<open>wt_inv (mContainer ep_demo)\<close>
  show "ep_inv ep_demo" and "ep_abs ep_demo = (\<lambda>_. Map.empty)"
    by (simp_all add: ep_inv_def ep_abs_def fun_eq_iff) (simp_all add: ep_demo_def)
qed

text \<open>Registering an endpoint refines the abstract registration: for that topic an identifier
  that already has an endpoint keeps it and any other identifier gets the new one, every other
  topic is untouched, and the invariant is kept.\<close>

lemma endpointPool_register_refines:
  assumes "ep_inv p"
  shows "\<exists>q. endpointPool_registerWithIdentifier all_mem (Some p) (Some tp) (Some ident) opaque
       = Some (MAMA_STATUS_OK, Some q) \<and> ep_inv q \<and>
       ep_abs q = (ep_abs p)(tp := reg_spec (ep_abs p tp) ident opaque)"
  using assms by (rule registerWithIdentifier_ok)

text \<open>Unregistering an identifier removes exactly that identifier from that topic, leaves every
  other registration as it was and keeps the invariant, also when the topic or the identifier is
  not registered.\<close>

lemma endpointPool_unregister_refines:
  assumes "ep_inv p"
  shows "\<exists>q. endpointPool_unregister (Some p) (Some tp) (Some ident) = (MAMA_STATUS_OK, Some q) \<and>
       ep_inv q \<and> ep_abs q = (ep_abs p)(tp := (ep_abs p tp)(ident := None))"
  using assms by (rule unregister_ok)

text \<open>A query for a topic answers correctly exactly when at most 128 endpoints are registered
  for it; with 129 or more it writes behind the end of its result buffer (the code asks for
  \<open>8 * offset\<close> bytes where it needs \<open>8 * (offset + 1)\<close>).\<close>

lemma endpointPool_getRegistered_bound:
  assumes "ep_inv p"
  shows "(if card (dom (ep_abs p tp)) \<le> 128
          then getRegistered_spec p tp (endpointPool_getRegistered re (Some p) (Some tp) True)
          else endpointPool_getRegistered re (Some p) (Some tp) True = None)"
proof (cases "wt_map (mContainer p) tp")
  case None
  then have "card (dom (ep_abs p tp)) \<le> 128" by (simp add: ep_abs_def)
  then show ?thesis using getRegistered_unknown [OF assms None] by simp
next
  case (Some r)
  with ep_inv_ref [OF assms Some] show ?thesis
    using getRegistered_known [OF assms, of tp] getRegistered_overflow [OF assms, of tp re] by auto
qed

text \<open>There is a pool that the code can reach, with one endpoint registered for a topic, in which
  the containment query by content answers 1 for a content that is not registered: the result of the
  search is computed and then ignored.\<close>

lemma endpointPool_isRegisted_ignores_content:
  "\<exists>p :: nat endpointPoolImpl. ep_inv p \<and> ep_abs p ''T'' = [''id'' \<mapsto> Some 5] \<and>
     endpointPool_isRegistedByContent (Some p) (Some ''T'') (Some 9) = 1"
proof -
  obtain p :: "nat endpointPoolImpl" where inv: "ep_inv p" and abs: "ep_abs p ''T'' = [''id'' \<mapsto> Some 5]"
    using ep_inv_nonempty by blast
  from abs have "ep_abs p ''T'' ''id'' = Some (Some 5)" by simp
  then obtain a where "wt_map (mContainer p) ''T'' = Some (Some a)"
    by (auto simp: ep_abs_def split: option.splits)
  then have "wtable_lookup (Some (mContainer p)) (Some ''T'') = Some a"
    by (simp add: topic_lookup [OF inv])
  with inv abs show ?thesis by (auto simp: endpointPool_isRegistedByContent_def)
qed

end
