(* ===== verification/Deque_Spec.thy ===== *)
theory Deque_Spec
  imports Mama_Prelude
begin

text \<open>
  Interfaces of sequential containers. \<open>drain_spec\<close> is what a consumer that only takes elements
  from the front relies on; \<open>deque_spec\<close> extends it with insertion at both ends. Operations return
  \<open>None\<close> when the code would access memory through an invalid pointer, so every law is also a
  safety statement. The generic consumers \<open>pops\<close> (take up to \<open>n\<close> elements) and
  \<open>drain_all\<close> (take elements until there is none) are defined once for every such container.
\<close>

fun pops :: "('l \<Rightarrow> ('l \<times> 'e option) option) \<Rightarrow> nat \<Rightarrow> 'l \<Rightarrow> ('l \<times> 'e list) option" where
  "pops pop 0 l = Some (l, [])"
| "pops pop (Suc n) l =
    do { (l, r) \<leftarrow> pop l;
         case r of
           None \<Rightarrow> Some (l, [])
         | Some x \<Rightarrow> do { (l, xs) \<leftarrow> pops pop n l; Some (l, x # xs) } }"

partial_function (option) drain_all ::
  "('l \<Rightarrow> ('l \<times> 'e option) option) \<Rightarrow> 'l \<Rightarrow> ('l \<times> 'e list) option" where
  "drain_all pop l =
    do { (l, r) \<leftarrow> pop l;
         case r of
           None \<Rightarrow> Some (l, [])
         | Some x \<Rightarrow> do { (l, xs) \<leftarrow> drain_all pop l; Some (l, x # xs) } }"

locale drain_spec =
  fixes rep :: "'l \<Rightarrow> 'e list \<Rightarrow> bool"
    and pop :: "'l \<Rightarrow> ('l \<times> 'e option) option"
  assumes pop_Nil: "rep l [] \<Longrightarrow> pop l = Some (l, None)"
    and pop_Cons: "rep l (x # xs) \<Longrightarrow> \<exists>l'. pop l = Some (l', Some x) \<and> rep l' xs"
begin

lemma pops_take:
  "rep l xs \<Longrightarrow> \<exists>l'. pops pop n l = Some (l', take n xs) \<and> rep l' (drop n xs)"
proof (induction n arbitrary: l xs)
  case 0
  then show ?case by simp
next
  case (Suc n)
  show ?case
  proof (cases xs)
    case Nil
    with Suc.prems show ?thesis by (auto simp: pop_Nil)
  next
    case (Cons y ys)
    with Suc.prems obtain l1 where "pop l = Some (l1, Some y)" and "rep l1 ys"
      using pop_Cons by blast
    with Suc.IH [of l1 ys] Cons show ?thesis by auto
  qed
qed

lemma drain_all_total:
  "rep l xs \<Longrightarrow> \<exists>l'. drain_all pop l = Some (l', xs) \<and> rep l' []"
proof (induction xs arbitrary: l)
  case Nil
  then show ?case by (subst drain_all.simps) (simp add: pop_Nil)
next
  case (Cons x xs)
  then obtain l1 where "pop l = Some (l1, Some x)" and "rep l1 xs"
    using pop_Cons by blast
  with Cons.IH [of l1] show ?case by (subst drain_all.simps) auto
qed

end

locale deque_spec = drain_spec +
  fixes fresh :: "'l \<Rightarrow> 'e list \<Rightarrow> 'e \<Rightarrow> bool"
    and push_back :: "'e \<Rightarrow> 'l \<Rightarrow> 'l option"
    and push_front :: "'e \<Rightarrow> 'l \<Rightarrow> 'l option"
  assumes push_back_rep: "rep l xs \<Longrightarrow> fresh l xs e \<Longrightarrow> \<exists>l'. push_back e l = Some l' \<and> rep l' (xs @ [e])"
    and push_front_rep: "rep l xs \<Longrightarrow> fresh l xs e \<Longrightarrow> \<exists>l'. push_front e l = Some l' \<and> rep l' (e # xs)"
begin

text \<open>First in, first out; and an element pushed to the front overtakes.\<close>

lemma push_back_then_drain:
  "rep l xs \<Longrightarrow> fresh l xs e \<Longrightarrow>
     \<exists>l1 l2. push_back e l = Some l1 \<and> drain_all pop l1 = Some (l2, xs @ [e]) \<and> rep l2 []"
  using push_back_rep drain_all_total by metis

lemma push_front_then_pop:
  "rep l xs \<Longrightarrow> fresh l xs e \<Longrightarrow>
     \<exists>l1 l2. push_front e l = Some l1 \<and> pop l1 = Some (l2, Some e) \<and> rep l2 xs"
  using push_front_rep pop_Cons by metis

end

end
