(* ===== verification/WList.thy ===== *)
theory WList
  imports Deque_Spec
begin

text \<open>
  The doubly linked list of \<open>common/c_cpp/src/c/list.c\<close>, at the level of its pointers. A node
  pointer is \<open>NULL\<close>, the mark \<open>(header*)-1\<close> of nodes on the free list, one of the two dummy
  nodes inside the list structure, or the address of an allocated node. An element pointer
  \<open>node + 1\<close> is identified with its node. Reading or writing a field through \<open>NULL\<close> or
  the mark, and \<open>abort ()\<close>, are the result \<open>None\<close>. The iterators of a list are kept in the
  order of the code's chain, each with its \<open>currentElement\<close>. The recursive lock of the list is
  not modelled: every operation below runs under it from beginning to end.
\<close>

datatype ptr = Null | MinusOne | Head | Tail | Elem nat

record 'a wlist =
  mPrev :: "ptr \<Rightarrow> ptr"
  mNext :: "ptr \<Rightarrow> ptr"
  payload :: "ptr \<Rightarrow> 'a option"
  mFreeList :: ptr
  mAllocSize :: u64
  lsize :: u64
  iterators :: "(nat \<times> ptr) list"

text \<open>Access through a pointer.\<close>

definition rd :: "(ptr \<Rightarrow> ptr) \<Rightarrow> ptr \<Rightarrow> ptr option" where
  "rd f p = (if p = Null \<or> p = MinusOne then None else Some (f p))"

definition setPrev :: "ptr \<Rightarrow> ptr \<Rightarrow> 'a wlist \<Rightarrow> 'a wlist option" where
  "setPrev p q l = (if p = Null \<or> p = MinusOne then None else Some (l\<lparr>mPrev := (mPrev l)(p := q)\<rparr>))"

definition setNext :: "ptr \<Rightarrow> ptr \<Rightarrow> 'a wlist \<Rightarrow> 'a wlist option" where
  "setNext p q l = (if p = Null \<or> p = MinusOne then None else Some (l\<lparr>mNext := (mNext l)(p := q)\<rparr>))"

subsection \<open>Creation, allocation and release\<close>

definition list_create :: "u64 \<Rightarrow> 'a wlist" where
  "list_create elementSize =
    (let n = elementSize div 8 + (if elementSize mod 8 \<noteq> 0 then 1 else 0);
         n = n * 8;
         n = n + 16
     in \<lparr>mPrev = (\<lambda>_. Null)(Tail := Head), mNext = (\<lambda>_. Null)(Head := Tail), payload = (\<lambda>_. None),
         mFreeList = Null, mAllocSize = n, lsize = 0, iterators = []\<rparr>)"

text \<open>\<open>mem\<close> is the address that \<open>calloc\<close> returns when the free list is empty.\<close>

definition list_allocate_element :: "nat option \<Rightarrow> 'a wlist \<Rightarrow> 'a wlist \<times> ptr" where
  "list_allocate_element mem l =
    (if mFreeList l \<noteq> Null then
       (let r = mFreeList l
        in (l\<lparr>mFreeList := mNext l r, mPrev := (mPrev l)(r := Null), mNext := (mNext l)(r := Null),
              payload := (payload l)(r := None)\<rparr>, r))
     else
       (case mem of
          None \<Rightarrow> (l, Null)
        | Some a \<Rightarrow>
            (l\<lparr>mPrev := (mPrev l)(Elem a := Null), mNext := (mNext l)(Elem a := Null),
               payload := (payload l)(Elem a := None)\<rparr>, Elem a)))"

definition free_element :: "ptr \<Rightarrow> 'a wlist \<Rightarrow> 'a wlist option" where
  "free_element ele l =
    do { p \<leftarrow> rd (mPrev l) ele;
         n \<leftarrow> rd (mNext l) ele;
         if p \<noteq> Null \<or> n \<noteq> Null then Some l
         else do { l \<leftarrow> setPrev ele MinusOne l;
                   l \<leftarrow> setNext ele (mFreeList l) l;
                   Some (l\<lparr>mFreeList := ele\<rparr>) } }"

definition list_free_element :: "ptr \<Rightarrow> 'a wlist \<Rightarrow> 'a wlist option" where
  "list_free_element ele l = (if ele = Tail then None else free_element ele l)"

subsection \<open>Insertion\<close>

definition list_push_back :: "ptr \<Rightarrow> 'a wlist \<Rightarrow> 'a wlist option" where
  "list_push_back ele l =
    do { l \<leftarrow> setNext ele Tail l;
         l \<leftarrow> setPrev ele (mPrev l Tail) l;
         l \<leftarrow> setNext (mPrev l Tail) ele l;
         l \<leftarrow> setPrev Tail ele l;
         Some (l\<lparr>lsize := lsize l + 1\<rparr>) }"

definition list_push_front :: "ptr \<Rightarrow> 'a wlist \<Rightarrow> 'a wlist option" where
  "list_push_front ele l =
    do { l \<leftarrow> setPrev ele Head l;
         l \<leftarrow> setNext ele (mNext l Head) l;
         l \<leftarrow> setPrev (mNext l Head) ele l;
         l \<leftarrow> setNext Head ele l;
         Some (l\<lparr>lsize := lsize l + 1\<rparr>) }"

definition list_add_element :: "nat option \<Rightarrow> 'a wlist \<Rightarrow> ('a wlist \<times> ptr) option" where
  "list_add_element mem l =
    (case list_allocate_element mem l of
       (l, e) \<Rightarrow> if e = Null then Some (l, Null)
                 else do { l \<leftarrow> list_push_back e l; Some (l, e) })"

definition insert_before :: "ptr \<Rightarrow> ptr \<Rightarrow> 'a wlist \<Rightarrow> 'a wlist option" where
  "insert_before what pos l =
    do { l \<leftarrow> setNext what pos l;
         p \<leftarrow> rd (mPrev l) pos;
         l \<leftarrow> setPrev what p l;
         p \<leftarrow> rd (mPrev l) pos;
         l \<leftarrow> setNext p what l;
         l \<leftarrow> setPrev pos what l;
         Some (l\<lparr>lsize := lsize l + 1\<rparr>) }"

definition list_insert_before :: "ptr \<Rightarrow> ptr \<Rightarrow> 'a wlist \<Rightarrow> 'a wlist option" where
  "list_insert_before position element l =
    do { p \<leftarrow> rd (mPrev l) position;
         if p = Null then Some l
         else do { n \<leftarrow> rd (mNext l) element;
                   if n \<noteq> Null then Some l else insert_before element position l } }"

subsection \<open>Access\<close>

definition list_get_head :: "'a wlist \<Rightarrow> ptr" where
  "list_get_head l = (if mNext l Head = Tail then Null else mNext l Head)"

definition list_get_tail :: "'a wlist \<Rightarrow> ptr" where
  "list_get_tail l = (if mNext l Head = Tail then Null else mPrev l Tail)"

definition list_get_next :: "ptr \<Rightarrow> 'a wlist \<Rightarrow> ptr option" where
  "list_get_next ele l =
    do { n \<leftarrow> rd (mNext l) ele; Some (if n = Tail then Null else n) }"

definition list_size :: "'a wlist \<Rightarrow> u64" where
  "list_size l = lsize l"

fun get_next_times :: "nat \<Rightarrow> ptr \<Rightarrow> 'a wlist \<Rightarrow> ptr option" where
  "get_next_times 0 p l = Some p"
| "get_next_times (Suc n) p l = do { p \<leftarrow> list_get_next p l; get_next_times n p l }"

text \<open>The \<open>unsigned long\<close> size is converted to an \<open>int\<close>.\<close>

definition list_get_element_at_index :: "int \<Rightarrow> 'a wlist \<Rightarrow> ptr option" where
  "list_get_element_at_index index l =
    (let count = sint (ucast (list_size l) :: i32)
     in if index < 0 \<or> index \<ge> count then Some Null
        else get_next_times (nat index) (list_get_head l) l)"

definition list_is_empty :: "'a wlist \<Rightarrow> bool" where
  "list_is_empty l \<longleftrightarrow> mNext l Head = Tail"

subsection \<open>Removal\<close>

definition list_adjust_iterators :: "ptr \<Rightarrow> 'a wlist \<Rightarrow> 'a wlist option" where
  "list_adjust_iterators ele l =
    do { n \<leftarrow> rd (mNext l) ele;
         let n = (if n = Tail \<and> 1 < lsize l then mNext l Head else n);
         Some (l\<lparr>iterators := map (\<lambda>(i, c). (i, if c = ele then n else c)) (iterators l)\<rparr>) }"

definition list_pop_front :: "'a wlist \<Rightarrow> ('a wlist \<times> ptr) option" where
  "list_pop_front l =
    (if list_is_empty l then Some (l, Null)
     else
       do { let r = mNext l Head;
            l \<leftarrow> list_adjust_iterators r l;
            n \<leftarrow> rd (mNext l) r;
            l \<leftarrow> setNext Head n l;
            n \<leftarrow> rd (mNext l) r;
            l \<leftarrow> setPrev n Head l;
            l \<leftarrow> setNext r Null l;
            l \<leftarrow> setPrev r Null l;
            Some (l\<lparr>lsize := lsize l - 1\<rparr>, r) })"

definition list_remove_element :: "ptr \<Rightarrow> 'a wlist \<Rightarrow> 'a wlist option" where
  "list_remove_element ele l =
    do { l \<leftarrow> list_adjust_iterators ele l;
         if ele = Tail then None
         else
           do { p \<leftarrow> rd (mPrev l) ele;
                if p = Null \<or> p = MinusOne then Some l
                else
                  do { n \<leftarrow> rd (mNext l) ele;
                       l \<leftarrow> setNext p n l;
                       n \<leftarrow> rd (mNext l) ele;
                       p \<leftarrow> rd (mPrev l) ele;
                       l \<leftarrow> setPrev n p l;
                       let l = l\<lparr>lsize := lsize l - 1\<rparr>;
                       l \<leftarrow> setPrev ele Null l;
                       l \<leftarrow> setNext ele Null l;
                       Some l } } }"

subsection \<open>Iteration\<close>

text \<open>The callback may change the list and a closure; the successor is read before the call. A
  \<open>NULL\<close> callback is \<open>None\<close>.\<close>

partial_function (option) for_each_loop ::
  "(ptr \<Rightarrow> 'a wlist \<times> 's \<Rightarrow> ('a wlist \<times> 's) option) \<Rightarrow> ptr \<Rightarrow> 'a wlist \<times> 's \<Rightarrow> ('a wlist \<times> 's) option" where
  "for_each_loop cb cur ls =
    (if cur = Tail \<or> cur = Head then Some ls
     else do { n \<leftarrow> rd (mNext (fst ls)) cur; ls \<leftarrow> cb cur ls; for_each_loop cb n ls })"

definition list_for_each ::
  "(ptr \<Rightarrow> 'a wlist \<times> 's \<Rightarrow> ('a wlist \<times> 's) option) option \<Rightarrow> 'a wlist \<times> 's \<Rightarrow> ('a wlist \<times> 's) option" where
  "list_for_each cb ls =
    for_each_loop (case cb of None \<Rightarrow> (\<lambda>_. Some) | Some f \<Rightarrow> f) (mNext (fst ls) Head) ls"

text \<open>Iterators: \<open>it\<close> names an iterator of the chain; using one that is not in the chain is a use
  of freed memory.\<close>

definition itCurrent :: "nat \<Rightarrow> 'a wlist \<Rightarrow> ptr option" where
  "itCurrent it l = map_of (iterators l) it"

definition itSet :: "nat \<Rightarrow> ptr \<Rightarrow> 'a wlist \<Rightarrow> 'a wlist" where
  "itSet it p l = l\<lparr>iterators := map (\<lambda>(i, c). (i, if i = it then p else c)) (iterators l)\<rparr>"

definition getCurrentNode :: "nat \<Rightarrow> 'a wlist \<Rightarrow> ('a wlist \<times> ptr) option" where
  "getCurrentNode it l =
    do { c \<leftarrow> itCurrent it l;
         if c = Head \<or> c = Tail then
           (if lsize l > 0 then Some (itSet it (mNext l Head) l, mNext l Head) else Some (l, Null))
         else Some (l, c) }"

definition list_create_iterator :: "nat \<Rightarrow> 'a wlist \<Rightarrow> 'a wlist" where
  "list_create_iterator it l = l\<lparr>iterators := (it, mNext l Head) # iterators l\<rparr>"

definition iterator_current :: "nat \<Rightarrow> 'a wlist \<Rightarrow> ('a wlist \<times> ptr) option" where
  "iterator_current it l = getCurrentNode it l"

definition iterator_insert_before :: "nat \<Rightarrow> ptr \<Rightarrow> 'a wlist \<Rightarrow> 'a wlist option" where
  "iterator_insert_before it ele l =
    do { (l, c) \<leftarrow> getCurrentNode it l; insert_before ele c l }"

definition iterator_next :: "nat \<Rightarrow> 'a wlist \<Rightarrow> ('a wlist \<times> ptr) option" where
  "iterator_next it l =
    do { c \<leftarrow> itCurrent it l;
         if c \<noteq> Tail then
           do { (l, r) \<leftarrow> getCurrentNode it l;
                c \<leftarrow> itCurrent it l;
                n \<leftarrow> rd (mNext l) c;
                Some (itSet it n l, r) }
         else Some (l, Null) }"

definition iterator_next_circ :: "nat \<Rightarrow> 'a wlist \<Rightarrow> ('a wlist \<times> ptr) option" where
  "iterator_next_circ it l =
    do { (l, r) \<leftarrow> getCurrentNode it l;
         c \<leftarrow> itCurrent it l;
         n \<leftarrow> rd (mNext l) c;
         Some (itSet it (if n = Tail then mNext l Head else n) l, r) }"

text \<open>The loop of \<open>iterator_destroy\<close> does not advance \<open>cur\<close>, which is the first iterator of the
  chain: it ends only when there is no iterator or when the second one is the one to destroy.\<close>

partial_function (option) destroy_loop :: "(nat \<times> ptr) list \<Rightarrow> nat \<Rightarrow> (nat \<times> ptr) list option" where
  "destroy_loop its it =
    (if its = [] then Some its
     else if 2 \<le> length its \<and> fst (its ! 1) = it then Some (hd its # drop 2 its)
     else destroy_loop its it)"

definition iterator_destroy :: "nat \<Rightarrow> 'a wlist \<Rightarrow> 'a wlist option" where
  "iterator_destroy it l =
    (if iterators l \<noteq> [] \<and> fst (hd (iterators l)) = it then Some (l\<lparr>iterators := tl (iterators l)\<rparr>)
     else do { its \<leftarrow> destroy_loop (iterators l) it; Some (l\<lparr>iterators := its\<rparr>) })"

definition iterator_move_element_before :: "nat \<Rightarrow> ptr \<Rightarrow> 'a wlist \<Rightarrow> 'a wlist option" where
  "iterator_move_element_before it ele l =
    do { (l, cur) \<leftarrow> getCurrentNode it l;
         if ele = cur then Some l
         else do { p \<leftarrow> rd (mPrev l) cur;
                   if ele = p then Some l
                   else do { l \<leftarrow> list_remove_element ele l; insert_before ele cur l } } }"

text \<open>Destruction calls the destructor for every element in order and frees the elements, the
  iterators and the nodes of the free list.\<close>

partial_function (option) destroy_elements ::
  "(ptr \<Rightarrow> 's \<Rightarrow> 's) option \<Rightarrow> 'a wlist \<Rightarrow> ptr \<Rightarrow> ptr list \<times> 's \<Rightarrow> (ptr list \<times> 's) option" where
  "destroy_elements destructor l cur fs =
    (if cur = Tail then Some fs
     else do { n \<leftarrow> rd (mNext l) cur;
               let s = (case destructor of None \<Rightarrow> snd fs | Some d \<Rightarrow> d cur (snd fs));
               destroy_elements destructor l n (fst fs @ [cur], s) })"

partial_function (option) destroy_freelist :: "'a wlist \<Rightarrow> ptr \<Rightarrow> ptr list \<Rightarrow> ptr list option" where
  "destroy_freelist l cur freed =
    (if cur = Null then Some freed
     else do { n \<leftarrow> rd (mNext l) cur; destroy_freelist l n (freed @ [cur]) })"

definition list_destroy ::
  "(ptr \<Rightarrow> 's \<Rightarrow> 's) option \<Rightarrow> 'a wlist \<Rightarrow> 's \<Rightarrow> (ptr list \<times> nat list \<times> 's) option" where
  "list_destroy destructor l s =
    do { (freed, s) \<leftarrow> destroy_elements destructor l (mNext l Head) ([], s);
         freed \<leftarrow> destroy_freelist l (mFreeList l) freed;
         Some (freed, map fst (iterators l), s) }"

subsection \<open>Chains of nodes\<close>

fun chained :: "(ptr \<Rightarrow> ptr) \<Rightarrow> (ptr \<Rightarrow> ptr) \<Rightarrow> ptr list \<Rightarrow> bool" where
  "chained nx pv (p # q # ps) \<longleftrightarrow> nx p = q \<and> pv q = p \<and> chained nx pv (q # ps)"
| "chained nx pv _ \<longleftrightarrow> True"

lemma chained_append:
  "chained nx pv (as @ p # bs) \<longleftrightarrow> chained nx pv (as @ [p]) \<and> chained nx pv (p # bs)"
proof (induction as)
  case Nil
  then show ?case by simp
next
  case (Cons a as)
  then show ?case by (cases as) auto
qed

lemma chained_frame:
  assumes "\<And>p. p \<in> set (butlast ps) \<Longrightarrow> nx' p = nx p" and "\<And>p. p \<in> set (tl ps) \<Longrightarrow> pv' p = pv p"
  shows "chained nx' pv' ps = chained nx pv ps"
  using assms
proof (induction nx pv ps rule: chained.induct)
  case (1 nx pv p q ps)
  have "chained nx' pv' (q # ps) = chained nx pv (q # ps)"
    using "1.prems" by (intro "1.IH") (auto dest: list.set_sel(2) split: if_splits)
  with "1.prems" show ?case by simp
qed auto

text \<open>Linking a new node between two neighbours, and unlinking a node.\<close>

lemma chained_link:
  assumes "chained nx pv (as @ p # q # bs)" and "distinct (as @ p # q # bs)"
    and "e \<notin> set (as @ p # q # bs)"
  shows "chained (nx(e := q, p := e)) (pv(e := p, q := e)) (as @ p # e # q # bs)"
proof -
  let ?nx = "nx(e := q, p := e)" and ?pv = "pv(e := p, q := e)"
  from assms(1) have "chained nx pv (as @ [p])" and "chained nx pv (q # bs)"
    by (simp_all add: chained_append [of nx pv as p "q # bs"] chained_append [of nx pv as p "e # q # bs"])
  moreover have "chained ?nx ?pv (as @ [p]) = chained nx pv (as @ [p])"
    using assms(2,3) by (intro chained_frame) (auto simp: butlast_append tl_append split: list.splits)
  moreover have "chained ?nx ?pv (q # bs) = chained nx pv (q # bs)"
    using assms(2,3) by (intro chained_frame) (auto dest: in_set_butlastD split: if_splits)
  ultimately show ?thesis
    using assms(2,3) by (simp add: chained_append [of ?nx ?pv as p "e # q # bs"])
qed

lemma chained_unlink:
  assumes "chained nx pv (as @ p # e # q # bs)" and "distinct (as @ p # e # q # bs)"
  shows "chained (nx(p := q, e := Null)) (pv(q := p, e := Null)) (as @ p # q # bs)"
proof -
  let ?nx = "nx(p := q, e := Null)" and ?pv = "pv(q := p, e := Null)"
  from assms(1) have "chained nx pv (as @ [p])" and "chained nx pv (q # bs)"
    by (simp_all add: chained_append [of nx pv as p "q # bs"] chained_append [of nx pv as p "e # q # bs"])
  moreover have "chained ?nx ?pv (as @ [p]) = chained nx pv (as @ [p])"
    using assms(2) by (intro chained_frame) (auto simp: butlast_append tl_append split: list.splits)
  moreover have "chained ?nx ?pv (q # bs) = chained nx pv (q # bs)"
    using assms(2) by (intro chained_frame) (auto dest: in_set_butlastD split: if_splits)
  ultimately show ?thesis
    using assms(2) by (auto simp: chained_append [of ?nx ?pv as p "q # bs"])
qed

lemma chained_mid:
  "chained nx pv (as @ p # q # bs) \<Longrightarrow> nx p = q \<and> pv q = p"
  by (simp add: chained_append [of nx pv as p "q # bs"])

fun free_chain :: "(ptr \<Rightarrow> ptr) \<Rightarrow> (ptr \<Rightarrow> ptr) \<Rightarrow> ptr \<Rightarrow> nat list \<Rightarrow> bool" where
  "free_chain nx pv p [] \<longleftrightarrow> p = Null"
| "free_chain nx pv p (a # as) \<longleftrightarrow> p = Elem a \<and> pv p = MinusOne \<and> free_chain nx pv (nx p) as"

lemma free_chain_frame:
  assumes "\<And>a. a \<in> set as \<Longrightarrow> nx' (Elem a) = nx (Elem a) \<and> pv' (Elem a) = pv (Elem a)"
  shows "free_chain nx' pv' p as = free_chain nx pv p as"
  using assms by (induction as arbitrary: p) auto

subsection \<open>The representation relation\<close>

text \<open>The list stands for the sequence \<open>xs\<close> of node addresses, its free list for \<open>fs\<close>.\<close>

definition path :: "nat list \<Rightarrow> ptr list" where
  "path xs = Head # map Elem xs @ [Tail]"

definition wl_rep :: "'a wlist \<Rightarrow> nat list \<Rightarrow> nat list \<Rightarrow> bool" where
  "wl_rep l xs fs \<longleftrightarrow> distinct (xs @ fs) \<and> chained (mNext l) (mPrev l) (path xs) \<and>
     free_chain (mNext l) (mPrev l) (mFreeList l) fs \<and> lsize l = of_nat (length xs)"

text \<open>A node that was allocated or removed and is neither in the list nor on the free list.\<close>

definition detached :: "'a wlist \<Rightarrow> nat list \<Rightarrow> nat list \<Rightarrow> nat \<Rightarrow> bool" where
  "detached l xs fs e \<longleftrightarrow> e \<notin> set xs \<union> set fs \<and> mPrev l (Elem e) = Null \<and> mNext l (Elem e) = Null"

lemma distinct_path: "distinct xs \<Longrightarrow> distinct (path xs)"
  by (auto simp: path_def distinct_map inj_on_def)

lemma path_append: "path (us @ vs) = (Head # map Elem us) @ map Elem vs @ [Tail]"
  by (simp add: path_def)

lemma rd_simps [simp]:
  "rd f (Elem a) = Some (f (Elem a))" "rd f Head = Some (f Head)" "rd f Tail = Some (f Tail)"
  "rd f Null = None" "rd f MinusOne = None"
  by (simp_all add: rd_def)

lemma set_simps [simp]:
  "setPrev (Elem a) q l = Some (l\<lparr>mPrev := (mPrev l)(Elem a := q)\<rparr>)"
  "setPrev Head q l = Some (l\<lparr>mPrev := (mPrev l)(Head := q)\<rparr>)"
  "setPrev Tail q l = Some (l\<lparr>mPrev := (mPrev l)(Tail := q)\<rparr>)"
  "setNext (Elem a) q l = Some (l\<lparr>mNext := (mNext l)(Elem a := q)\<rparr>)"
  "setNext Head q l = Some (l\<lparr>mNext := (mNext l)(Head := q)\<rparr>)"
  "setNext Tail q l = Some (l\<lparr>mNext := (mNext l)(Tail := q)\<rparr>)"
  by (simp_all add: setPrev_def setNext_def)

text \<open>The neighbours of a place in the sequence.\<close>

definition before :: "nat list \<Rightarrow> ptr" where
  "before us = (if us = [] then Head else Elem (last us))"

definition after :: "nat list \<Rightarrow> ptr" where
  "after vs = (if vs = [] then Tail else Elem (hd vs))"

lemma path_split: "\<exists>as bs. path (us @ vs) = as @ before us # after vs # bs \<and>
   path (us @ e # vs) = as @ before us # Elem e # after vs # bs"
proof -
  obtain as where as: "Head # map Elem us = as @ [before us]"
    by (cases us rule: rev_cases) (auto simp: before_def)
  obtain bs where bs: "map Elem vs @ [Tail] = after vs # bs"
    by (cases vs) (auto simp: after_def)
  show ?thesis
    using as bs by (intro exI [of _ as] exI [of _ bs]) (simp add: path_append)
qed

lemma wl_rep_neighbours:
  assumes "wl_rep l (us @ vs) fs"
  shows "mNext l (before us) = after vs" and "mPrev l (after vs) = before us"
proof -
  obtain as bs where "path (us @ vs) = as @ before us # after vs # bs" using path_split by blast
  then have "chained (mNext l) (mPrev l) (as @ before us # after vs # bs)"
    using assms by (simp add: wl_rep_def)
  from chained_mid [OF this] show "mNext l (before us) = after vs" and "mPrev l (after vs) = before us"
    by auto
qed

lemma before_cases: "before us = Head \<or> (\<exists>a \<in> set us. before us = Elem a)"
  by (auto simp: before_def)

lemma after_cases: "after vs = Tail \<or> (\<exists>a \<in> set vs. after vs = Elem a)"
  by (auto simp: after_def)

lemma before_after_simps [simp]:
  "before us \<noteq> Null" "before us \<noteq> MinusOne" "before us \<noteq> Tail"
  "after vs \<noteq> Null" "after vs \<noteq> MinusOne" "after vs \<noteq> Head"
  "before [] = Head" "after [] = Tail" "after (v # vs) = Elem v" "before (us @ [u]) = Elem u"
  by (auto simp: before_def after_def)

text \<open>The effect of linking and unlinking a node on the structure.\<close>

definition link_at :: "ptr \<Rightarrow> ptr \<Rightarrow> ptr \<Rightarrow> 'a wlist \<Rightarrow> 'a wlist" where
  "link_at p e q l = l\<lparr>mNext := (mNext l)(e := q, p := e), mPrev := (mPrev l)(e := p, q := e),
     lsize := lsize l + 1\<rparr>"

definition adjusted :: "ptr \<Rightarrow> ptr \<Rightarrow> 'a wlist \<Rightarrow> (nat \<times> ptr) list" where
  "adjusted e q l = map (\<lambda>(i, c). (i, if c = e
     then (if q = Tail \<and> 1 < lsize l then mNext l Head else q) else c)) (iterators l)"

definition unlink_at :: "ptr \<Rightarrow> ptr \<Rightarrow> ptr \<Rightarrow> 'a wlist \<Rightarrow> 'a wlist" where
  "unlink_at p e q l = l\<lparr>mNext := (mNext l)(p := q, e := Null), mPrev := (mPrev l)(q := p, e := Null),
     lsize := lsize l - 1, iterators := adjusted e q l\<rparr>"

lemma link_at_frame [simp]:
  "payload (link_at p e q l) = payload l" "iterators (link_at p e q l) = iterators l"
  "mFreeList (link_at p e q l) = mFreeList l"
  by (simp_all add: link_at_def)

lemma unlink_at_frame [simp]:
  "payload (unlink_at p e q l) = payload l" "mFreeList (unlink_at p e q l) = mFreeList l"
  "iterators (unlink_at p e q l) = adjusted e q l"
  by (simp_all add: unlink_at_def)

lemma wl_rep_link:
  assumes rep: "wl_rep l (us @ vs) fs" and e: "e \<notin> set (us @ vs) \<union> set fs"
  shows "wl_rep (link_at (before us) (Elem e) (after vs) l) (us @ e # vs) fs"
proof -
  let ?nx = "(mNext l)(Elem e := after vs, before us := Elem e)"
  let ?pv = "(mPrev l)(Elem e := before us, after vs := Elem e)"
  obtain as bs where p: "path (us @ vs) = as @ before us # after vs # bs"
    and p': "path (us @ e # vs) = as @ before us # Elem e # after vs # bs"
    using path_split by blast
  have d: "distinct (us @ vs)" using rep by (auto simp: wl_rep_def)
  have "Elem e \<notin> set (path (us @ vs))" using e by (auto simp: path_def)
  then have "chained ?nx ?pv (path (us @ e # vs))"
    using rep distinct_path [OF d] unfolding p p' wl_rep_def
    by (intro chained_link) simp_all
  moreover have "free_chain ?nx ?pv (mFreeList l) fs = free_chain (mNext l) (mPrev l) (mFreeList l) fs"
    using rep e before_cases [of us] after_cases [of vs]
    by (intro free_chain_frame) (auto simp: wl_rep_def)
  ultimately show ?thesis
    using rep e by (auto simp: wl_rep_def link_at_def)
qed

lemma wl_rep_unlink:
  assumes rep: "wl_rep l (us @ e # vs) fs"
  defines "l' \<equiv> unlink_at (before us) (Elem e) (after vs) l"
  shows "wl_rep l' (us @ vs) fs" and "detached l' (us @ vs) fs e"
proof -
  let ?nx = "(mNext l)(before us := after vs, Elem e := Null)"
  let ?pv = "(mPrev l)(after vs := before us, Elem e := Null)"
  obtain as bs where p: "path (us @ vs) = as @ before us # after vs # bs"
    and p': "path (us @ e # vs) = as @ before us # Elem e # after vs # bs"
    using path_split by blast
  have d: "distinct ((us @ e # vs) @ fs)" using rep by (simp add: wl_rep_def)
  then have "distinct (us @ e # vs)" by auto
  then have "chained ?nx ?pv (path (us @ vs))"
    using rep distinct_path [of "us @ e # vs"] unfolding p p' wl_rep_def
    by (intro chained_unlink) simp_all
  moreover have "free_chain ?nx ?pv (mFreeList l) fs
      = free_chain (mNext l) (mPrev l) (mFreeList l) fs"
    using d before_cases [of us] after_cases [of vs]
    by (intro free_chain_frame) auto
  ultimately show "wl_rep l' (us @ vs) fs"
    using rep by (auto simp: wl_rep_def l'_def unlink_at_def)
  show "detached l' (us @ vs) fs e"
    using d by (auto simp: detached_def l'_def unlink_at_def)
qed

subsection \<open>The operations\<close>

lemma push_back_eq:
  assumes "wl_rep l xs fs" and "e \<notin> set xs"
  shows "list_push_back (Elem e) l = Some (link_at (before xs) (Elem e) Tail l)"
  using wl_rep_neighbours [of l xs "[]" fs] assms
  by (simp add: list_push_back_def link_at_def setNext_def)

lemma push_front_eq:
  assumes "wl_rep l xs fs" and "e \<notin> set xs"
  shows "list_push_front (Elem e) l = Some (link_at Head (Elem e) (after xs) l)"
  using wl_rep_neighbours [of l "[]" xs fs] assms
  by (simp add: list_push_front_def link_at_def setPrev_def)

lemma insert_before_eq:
  assumes "wl_rep l (us @ w # vs) fs" and "e \<notin> set (us @ w # vs)"
  shows "insert_before (Elem e) (Elem w) l = Some (link_at (before us) (Elem e) (Elem w) l)"
  using wl_rep_neighbours [of l us "w # vs" fs] assms
  by (simp add: insert_before_def link_at_def setNext_def)

lemma remove_eq:
  assumes "wl_rep l (us @ e # vs) fs"
  shows "list_remove_element (Elem e) l = Some (unlink_at (before us) (Elem e) (after vs) l)"
  using wl_rep_neighbours [of l us "e # vs" fs] wl_rep_neighbours [of l "us @ [e]" vs fs] assms
  by (auto simp: list_remove_element_def list_adjust_iterators_def unlink_at_def adjusted_def
      setNext_def setPrev_def fun_upd_twist Let_def)

lemma pop_front_eq:
  assumes "wl_rep l (x # xs) fs"
  shows "list_pop_front l = Some (unlink_at Head (Elem x) (after xs) l, Elem x)"
  using wl_rep_neighbours [of l "[]" "x # xs" fs] wl_rep_neighbours [of l "[x]" xs fs] assms
  by (auto simp: list_pop_front_def list_is_empty_def list_adjust_iterators_def unlink_at_def
      adjusted_def setPrev_def before_def Let_def)

lemma pop_front_empty: "wl_rep l [] fs \<Longrightarrow> list_pop_front l = Some (l, Null)"
  using wl_rep_neighbours [of l "[]" "[]" fs] by (simp add: list_pop_front_def list_is_empty_def)

lemma wl_rep_create: "wl_rep (list_create n) [] []"
  by (simp add: wl_rep_def list_create_def path_def Let_def)

lemma allocate_from_freelist:
  assumes rep: "wl_rep l xs (f # fs)"
  obtains l' where "list_allocate_element mem l = (l', Elem f)" and "wl_rep l' xs fs"
    and "detached l' xs fs f" and "iterators l' = iterators l"
    and "payload l' = (payload l)(Elem f := None)"
proof -
  let ?l = "l\<lparr>mFreeList := mNext l (Elem f), mPrev := (mPrev l)(Elem f := Null),
      mNext := (mNext l)(Elem f := Null), payload := (payload l)(Elem f := None)\<rparr>"
  have f: "mFreeList l = Elem f" "f \<notin> set xs" "f \<notin> set fs"
    and fc: "free_chain (mNext l) (mPrev l) (mNext l (Elem f)) fs"
    using rep by (auto simp: wl_rep_def)
  have "chained (mNext ?l) (mPrev ?l) (path xs) = chained (mNext l) (mPrev l) (path xs)"
    using f(2) by (intro chained_frame) (auto simp: path_def butlast_append split: if_splits)
  moreover have "free_chain (mNext ?l) (mPrev ?l) (mNext l (Elem f)) fs"
    using fc f(3) by (subst free_chain_frame [of _ _ "mNext l" _ "mPrev l"]) auto
  ultimately have "wl_rep ?l xs fs" using rep by (auto simp: wl_rep_def)
  moreover have "detached ?l xs fs f" using f by (simp add: detached_def)
  ultimately show ?thesis
    using f(1) by (intro that [of ?l]) (simp_all add: list_allocate_element_def Let_def)
qed

lemma allocate_fresh:
  assumes rep: "wl_rep l xs []" and a: "a \<notin> set xs"
  obtains l' where "list_allocate_element (Some a) l = (l', Elem a)" and "wl_rep l' xs []"
    and "detached l' xs [] a" and "iterators l' = iterators l"
    and "payload l' = (payload l)(Elem a := None)"
proof -
  let ?l = "l\<lparr>mPrev := (mPrev l)(Elem a := Null), mNext := (mNext l)(Elem a := Null),
      payload := (payload l)(Elem a := None)\<rparr>"
  have "chained (mNext ?l) (mPrev ?l) (path xs) = chained (mNext l) (mPrev l) (path xs)"
    using a by (intro chained_frame) (auto simp: path_def butlast_append split: if_splits)
  then have "wl_rep ?l xs []" using rep by (auto simp: wl_rep_def)
  moreover have "detached ?l xs [] a" using a by (simp add: detached_def)
  ultimately show ?thesis
    using rep by (intro that [of ?l]) (simp_all add: list_allocate_element_def wl_rep_def)
qed

lemma free_detached:
  assumes rep: "wl_rep l xs fs" and e: "detached l xs fs e"
  obtains l' where "list_free_element (Elem e) l = Some l'" and "wl_rep l' xs (e # fs)"
    and "iterators l' = iterators l" and "payload l' = payload l" and "lsize l' = lsize l"
proof -
  let ?l = "l\<lparr>mPrev := (mPrev l)(Elem e := MinusOne), mNext := (mNext l)(Elem e := mFreeList l),
      mFreeList := Elem e\<rparr>"
  have n: "e \<notin> set xs" "e \<notin> set fs" using e by (simp_all add: detached_def)
  have "chained (mNext ?l) (mPrev ?l) (path xs) = chained (mNext l) (mPrev l) (path xs)"
    using n(1) by (intro chained_frame) (auto simp: path_def butlast_append split: if_splits)
  moreover have "free_chain (mNext ?l) (mPrev ?l) (mFreeList l) fs"
    using rep n(2) by (subst free_chain_frame [of _ _ "mNext l" _ "mPrev l"]) (auto simp: wl_rep_def)
  ultimately have "wl_rep ?l xs (e # fs)" using rep n by (auto simp: wl_rep_def)
  then show ?thesis
    using e by (intro that [of ?l]) (simp_all add: list_free_element_def free_element_def detached_def)
qed

text \<open>An element that is still in the list, or already on the free list, is not freed.\<close>

lemma free_member:
  assumes "wl_rep l (us @ e # vs) fs"
  shows "list_free_element (Elem e) l = Some l"
  using wl_rep_neighbours [of l us "e # vs" fs] assms
  by (simp add: list_free_element_def free_element_def)

lemma free_chain_marked: "free_chain nx pv p fs \<Longrightarrow> e \<in> set fs \<Longrightarrow> pv (Elem e) = MinusOne"
  by (induction fs arbitrary: p) auto

lemma free_twice:
  assumes "wl_rep l xs fs" and "e \<in> set fs"
  shows "list_free_element (Elem e) l = Some l"
  using assms free_chain_marked [of "mNext l" "mPrev l" "mFreeList l" fs e]
  by (auto simp: list_free_element_def free_element_def wl_rep_def)

text \<open>Removing an element that is not in the list changes nothing but iterators that point at it.\<close>

lemma remove_outside:
  assumes "mPrev l (Elem e) = Null \<or> mPrev l (Elem e) = MinusOne"
    and "Elem e \<notin> snd ` set (iterators l)"
  shows "list_remove_element (Elem e) l = Some l"
proof -
  have "map (\<lambda>(i, c). (i, if c = Elem e then n else c)) (iterators l) = iterators l" for n
    using assms(2) by (intro map_idI) (auto simp: image_iff)
  then show ?thesis
    using assms(1) by (auto simp: list_remove_element_def list_adjust_iterators_def)
qed

subsection \<open>Access by position\<close>

lemma get_head_after: "wl_rep l xs fs \<Longrightarrow> list_get_head l = (if xs = [] then Null else Elem (hd xs))"
  using wl_rep_neighbours [of l "[]" xs fs] by (auto simp: list_get_head_def after_def)

lemma get_tail_before: "wl_rep l xs fs \<Longrightarrow> list_get_tail l = (if xs = [] then Null else Elem (last xs))"
  using wl_rep_neighbours [of l "[]" xs fs] wl_rep_neighbours [of l xs "[]" fs]
  by (auto simp: list_get_tail_def after_def before_def)

lemma next_of: "wl_rep l (us @ x # vs) fs \<Longrightarrow> mNext l (Elem x) = after vs"
  using wl_rep_neighbours(1) [of l "us @ [x]" vs fs] by simp

lemma get_next_times_nth:
  assumes "wl_rep l (us @ xs) fs" and "n < length xs"
  shows "get_next_times n (Elem (hd xs)) l = Some (Elem (xs ! n))"
  using assms
proof (induction n arbitrary: us xs)
  case 0
  then show ?case by (cases xs) auto
next
  case (Suc n)
  obtain x y zs where xs: "xs = x # y # zs"
    using Suc.prems(2) by (cases xs; cases "tl xs") auto
  have "list_get_next (Elem x) l = Some (Elem y)"
    using next_of [of l us x "y # zs" fs] Suc.prems(1) by (simp add: list_get_next_def xs)
  moreover have "get_next_times n (Elem (hd (y # zs))) l = Some (Elem ((y # zs) ! n))"
    using Suc.prems xs by (intro Suc.IH [of "us @ [x]"]) auto
  ultimately show ?case by (simp add: xs)
qed

lemma element_at_index:
  assumes rep: "wl_rep l xs fs" and len: "length xs < 2 ^ 31"
  shows "list_get_element_at_index i l
     = Some (if 0 \<le> i \<and> i < int (length xs) then Elem (xs ! nat i) else Null)"
proof -
  have "sint (ucast (list_size l) :: i32) = int (length xs)"
    using rep sint_ucast_of_nat [OF len] by (simp add: wl_rep_def list_size_def)
  moreover have "0 \<le> i \<Longrightarrow> i < int (length xs) \<Longrightarrow>
      get_next_times (nat i) (list_get_head l) l = Some (Elem (xs ! nat i))"
    using get_next_times_nth [of l "[]" xs fs "nat i"] rep get_head_after [OF rep] by auto
  ultimately show ?thesis
    by (auto simp: list_get_element_at_index_def Let_def)
qed

subsection \<open>Iteration with a callback\<close>

text \<open>A total-correctness rule for the loop: \<open>I\<close> speaks about the elements that are still to be
  visited; each call keeps it for the elements behind the current one.\<close>

lemma for_each_rule:
  assumes "I rest ls"
    and "\<And>x rest ls. I (x # rest) ls \<Longrightarrow>
          mNext (fst ls) (Elem x) = after rest \<and> (\<exists>ls'. cb (Elem x) ls = Some ls' \<and> I rest ls')"
  shows "\<exists>ls'. for_each_loop cb (after rest) ls = Some ls' \<and> I [] ls'"
  using assms(1)
proof (induction rest arbitrary: ls)
  case Nil
  then show ?case by (simp add: for_each_loop.simps)
next
  case (Cons x rest)
  from assms(2) [OF Cons.prems] obtain ls1 where
    "mNext (fst ls) (Elem x) = after rest" "cb (Elem x) ls = Some ls1" "I rest ls1" by blast
  with Cons.IH [of ls1] show ?case by (simp add: for_each_loop.simps [of cb "Elem x"])
qed

lemma for_each_order:
  assumes "wl_rep l xs fs"
  shows "list_for_each (Some (\<lambda>e (l, seen). Some (l, seen @ [e]))) (l, []) = Some (l, map Elem xs)"
proof -
  let ?cb = "\<lambda>e (l, seen). Some (l, seen @ [e])"
  have "\<exists>ls'. for_each_loop ?cb (after xs) (l, []) = Some ls' \<and> ls' = (l, map Elem xs)"
    using for_each_rule [where cb = ?cb and rest = xs and ls = "(l, [])"
        and I = "\<lambda>rest ls. \<exists>us. xs = us @ rest \<and> ls = (l, map Elem us)"]
      next_of [where fs = fs] assms by force
  moreover have "mNext l Head = after xs" using wl_rep_neighbours [of l "[]" xs fs] assms by simp
  ultimately show ?thesis by (simp add: list_for_each_def)
qed

subsection \<open>Iterators\<close>

text \<open>No iterator dangles: each points at a dummy node or at an element of the list.\<close>

definition its_ok :: "'a wlist \<Rightarrow> nat list \<Rightarrow> bool" where
  "its_ok l xs \<longleftrightarrow> snd ` set (iterators l) \<subseteq> {Head, Tail} \<union> Elem ` set xs"

lemma its_ok_link: "its_ok l (us @ vs) \<Longrightarrow> its_ok (link_at p (Elem e) q l) (us @ e # vs)"
  by (auto simp: its_ok_def)

lemma its_ok_unlink:
  assumes rep: "wl_rep l (us @ e # vs) fs" and ok: "its_ok l (us @ e # vs)"
  shows "its_ok (unlink_at (before us) (Elem e) (after vs) l) (us @ vs)"
proof -
  have size: "1 < lsize l \<Longrightarrow> vs = [] \<Longrightarrow> us \<noteq> []"
    using rep by (auto simp: wl_rep_def)
  have "mNext l Head = after (us @ e # vs)"
    using wl_rep_neighbours [of l "[]" "us @ e # vs" fs] rep by simp
  then have "1 < lsize l \<Longrightarrow> vs = [] \<Longrightarrow> mNext l Head \<in> Elem ` set us"
    using size by (cases us) auto
  moreover have "after vs = Tail \<longleftrightarrow> vs = []" by (cases vs) auto
  moreover define n where "n = (if after vs = Tail \<and> 1 < lsize l then mNext l Head else after vs)"
  ultimately have "n \<in> {Head, Tail} \<union> Elem ` set (us @ vs)"
    using after_cases [of vs] by auto
  moreover have "snd ` set (adjusted (Elem e) (after vs) l)
      = (\<lambda>c. if c = Elem e then n else c) ` snd ` set (iterators l)"
    by (force simp: adjusted_def n_def image_image split_beta)
  moreover have "(if c = Elem e then n else c) \<in> {Head, Tail} \<union> Elem ` set (us @ vs)"
    if "c \<in> snd ` set (iterators l)" for c
  proof -
    have "c \<in> {Head, Tail} \<union> Elem ` set (us @ e # vs)" using ok that unfolding its_ok_def by (rule subsetD)
    with calculation(1) show ?thesis by auto
  qed
  ultimately show ?thesis
    unfolding its_ok_def unlink_at_frame by (simp only: image_subset_iff) blast
qed

lemma iterator_next_step:
  assumes rep: "wl_rep l (us @ rest) fs" and it: "itCurrent it l = Some (after rest)"
  shows "iterator_next it l = (case rest of
      [] \<Rightarrow> Some (l, Null) | x # xs \<Rightarrow> Some (itSet it (after xs) l, Elem x))"
proof (cases rest)
  case Nil
  with it show ?thesis by (simp add: iterator_next_def)
next
  case (Cons x xs)
  then have "mNext l (Elem x) = after xs" using next_of [of l us x xs fs] rep by simp
  with Cons it show ?thesis by (simp add: iterator_next_def getCurrentNode_def)
qed

lemma itSet_rep [simp]:
  "wl_rep (itSet it p l) xs fs = wl_rep l xs fs" "payload (itSet it p l) = payload l"
  by (simp_all add: wl_rep_def itSet_def)

lemma itCurrent_itSet [simp]: "itCurrent it l \<noteq> None \<Longrightarrow> itCurrent it (itSet it p l) = Some p"
proof -
  have "map_of its it \<noteq> None \<Longrightarrow>
      map_of (map (\<lambda>(i, c). (i, if i = it then p else c)) its) it = Some p" for its
    by (induction its) auto
  then show "itCurrent it l \<noteq> None \<Longrightarrow> itCurrent it (itSet it p l) = Some p"
    by (simp add: itCurrent_def itSet_def)
qed

text \<open>Calling \<open>iterator_next\<close> \<open>n\<close> times, collecting what it returns.\<close>

fun next_times :: "nat \<Rightarrow> nat \<Rightarrow> 'a wlist \<Rightarrow> ptr list option" where
  "next_times it 0 l = Some []"
| "next_times it (Suc n) l =
    do { (l, p) \<leftarrow> iterator_next it l; ps \<leftarrow> next_times it n l; Some (p # ps) }"

lemma next_times_walk:
  assumes "wl_rep l (us @ rest) fs" and "itCurrent it l = Some (after rest)"
  shows "next_times it n l = Some (map Elem (take n rest) @ replicate (n - length rest) Null)"
  using assms
proof (induction n arbitrary: l us rest)
  case 0
  then show ?case by simp
next
  case (Suc n)
  note step = iterator_next_step [OF Suc.prems]
  show ?case
  proof (cases rest)
    case Nil
    with Suc.prems step Suc.IH [of l us rest] show ?thesis by simp
  next
    case (Cons x xs)
    with Suc.prems step Suc.IH [of "itSet it (after xs) l" "us @ [x]" xs] show ?thesis by simp
  qed
qed

text \<open>\<open>iterator_destroy\<close> of an iterator that is not among the two newest ones never returns.\<close>

lemma destroy_loop_diverges:
  assumes "its \<noteq> []" and "\<not> (2 \<le> length its \<and> fst (its ! 1) = it)"
  shows "destroy_loop its it = None"
proof (rule ccontr)
  assume "destroy_loop its it \<noteq> None"
  then obtain r where r: "destroy_loop its it = Some r" by blast
  have "\<not> (its \<noteq> [] \<and> \<not> (2 \<le> length its \<and> fst (its ! 1) = it))"
    by (rule destroy_loop.raw_induct [OF _ r]) (auto split: if_splits)
  with assms show False by blast
qed

lemma destroy_loop_second:
  "2 \<le> length its \<Longrightarrow> fst (its ! 1) = it \<Longrightarrow> destroy_loop its it = Some (hd its # drop 2 its)"
  by (subst destroy_loop.simps) auto

subsection \<open>Destruction\<close>

lemma destroy_elements_run:
  assumes "wl_rep l (us @ rest) fs"
  shows "destroy_elements d l (after rest) (freed, s) = Some (freed @ map Elem rest,
     fold (\<lambda>x. case d of None \<Rightarrow> id | Some f \<Rightarrow> f (Elem x)) rest s)"
  using assms
proof (induction rest arbitrary: us freed s)
  case Nil
  then show ?case by (simp add: destroy_elements.simps)
next
  case (Cons x rest)
  have "mNext l (Elem x) = after rest" using next_of [of l us x rest fs] Cons.prems by simp
  with Cons.IH [of "us @ [x]"] Cons.prems show ?case
    by (cases d) (simp_all add: destroy_elements.simps [of _ l "Elem x"])
qed

lemma destroy_freelist_run:
  "free_chain (mNext l) (mPrev l) p fs \<Longrightarrow> destroy_freelist l p freed = Some (freed @ map Elem fs)"
  by (induction fs arbitrary: p freed) (simp_all add: destroy_freelist.simps)

lemma list_destroy_run:
  assumes "wl_rep l xs fs"
  shows "list_destroy d l s = Some (map Elem (xs @ fs), map fst (iterators l),
     fold (\<lambda>x. case d of None \<Rightarrow> id | Some f \<Rightarrow> f (Elem x)) xs s)"
proof -
  have "mNext l Head = after xs" using wl_rep_neighbours [of l "[]" xs fs] assms by simp
  then show ?thesis
    using assms
    by (simp add: list_destroy_def destroy_elements_run [of l "[]" xs fs]
        destroy_freelist_run [of l "mFreeList l" fs] wl_rep_def)
qed

subsection \<open>The list as a deque\<close>

definition wl_seq :: "'a wlist \<Rightarrow> nat list \<Rightarrow> bool" where
  "wl_seq l xs \<longleftrightarrow> (\<exists>fs. wl_rep l xs fs)"

definition wl_fresh :: "'a wlist \<Rightarrow> nat list \<Rightarrow> nat \<Rightarrow> bool" where
  "wl_fresh l xs e \<longleftrightarrow> (\<forall>fs. wl_rep l xs fs \<longrightarrow> detached l xs fs e)"

text \<open>\<open>list_pop_front\<close> with the returned pointer read as an optional address.\<close>

definition pop_addr :: "'a wlist \<Rightarrow> ('a wlist \<times> nat option) option" where
  "pop_addr l = do { (l, p) \<leftarrow> list_pop_front l;
     Some (l, case p of Elem a \<Rightarrow> Some a | _ \<Rightarrow> None) }"

lemma push_back_rep':
  assumes "wl_rep l xs fs" and "detached l xs fs e"
  shows "list_push_back (Elem e) l = Some (link_at (before xs) (Elem e) Tail l)"
    and "wl_rep (link_at (before xs) (Elem e) Tail l) (xs @ [e]) fs"
  using assms push_back_eq [of l xs fs e] wl_rep_link [of l xs "[]" fs e] by (auto simp: detached_def)

lemma push_front_rep':
  assumes "wl_rep l xs fs" and "detached l xs fs e"
  shows "list_push_front (Elem e) l = Some (link_at Head (Elem e) (after xs) l)"
    and "wl_rep (link_at Head (Elem e) (after xs) l) (e # xs) fs"
  using assms push_front_eq [of l xs fs e] wl_rep_link [of l "[]" xs fs e] by (auto simp: detached_def)

lemma pop_front_rep':
  assumes "wl_rep l (x # xs) fs"
  shows "list_pop_front l = Some (unlink_at Head (Elem x) (after xs) l, Elem x)"
    and "wl_rep (unlink_at Head (Elem x) (after xs) l) xs fs"
    and "detached (unlink_at Head (Elem x) (after xs) l) xs fs x"
  using assms pop_front_eq [of l x xs fs] wl_rep_unlink [of l "[]" x xs fs] by simp_all

interpretation wl: deque_spec wl_seq pop_addr wl_fresh
  "\<lambda>e. list_push_back (Elem e)" "\<lambda>e. list_push_front (Elem e)"
proof unfold_locales
  show "pop_addr l = Some (l, None)" if "wl_seq l []" for l :: "'a wlist"
    using that by (auto simp: wl_seq_def pop_addr_def pop_front_empty)
  show "\<exists>l'. pop_addr l = Some (l', Some x) \<and> wl_seq l' xs" if "wl_seq l (x # xs)"
    for l :: "'a wlist" and x xs
    using that pop_front_rep' by (fastforce simp: wl_seq_def pop_addr_def)
  show "\<exists>l'. list_push_back (Elem e) l = Some l' \<and> wl_seq l' (xs @ [e])"
    if "wl_seq l xs" "wl_fresh l xs e" for l :: "'a wlist" and xs e
    using that push_back_rep' by (fastforce simp: wl_seq_def wl_fresh_def)
  show "\<exists>l'. list_push_front (Elem e) l = Some l' \<and> wl_seq l' (e # xs)"
    if "wl_seq l xs" "wl_fresh l xs e" for l :: "'a wlist" and xs e
    using that push_front_rep' by (fastforce simp: wl_seq_def wl_fresh_def)
qed

subsection \<open>Properties\<close>

text \<open>A concrete list: created, three nodes allocated and pushed, one of them popped and freed.\<close>

definition wl_demo :: "nat wlist" where
  "wl_demo = \<lparr>mPrev = (\<lambda>_. Null)(Tail := Elem 2, Elem 2 := Elem 1, Elem 1 := Head, Elem 0 := MinusOne),
     mNext = (\<lambda>_. Null)(Head := Elem 1, Elem 1 := Elem 2, Elem 2 := Tail),
     payload = (\<lambda>_. None), mFreeList = Elem 0, mAllocSize = 24, lsize = 2,
     iterators = [(12, Elem 2), (11, Elem 1), (10, Tail)]\<rparr>"

lemma wl_demo_rep: "wl_rep wl_demo [1, 2] [0]" and wl_demo_detached: "detached wl_demo [1, 2] [0] 7"
  and wl_demo_its: "its_ok wl_demo [1, 2]"
  by (simp_all add: wl_demo_def wl_rep_def path_def detached_def its_ok_def)

text \<open>Pushing a node that is not in the list at the back or at the front never follows an invalid
  pointer and puts exactly that node there; the order of the others, the free list and the contents
  of all nodes are kept, and so is that no iterator dangles.\<close>

lemma list_push_refines:
  assumes "wl_rep l xs fs" and "detached l xs fs e" and "its_ok l xs"
  shows "(\<exists>l'. list_push_back (Elem e) l = Some l' \<and> wl_rep l' (xs @ [e]) fs \<and>
            payload l' = payload l \<and> its_ok l' (xs @ [e])) \<and>
         (\<exists>l'. list_push_front (Elem e) l = Some l' \<and> wl_rep l' (e # xs) fs \<and>
            payload l' = payload l \<and> its_ok l' (e # xs))"
  using push_back_rep' [OF assms(1,2)] push_front_rep' [OF assms(1,2)]
    its_ok_link [of l xs "[]"] its_ok_link [of l "[]" xs] assms(3) by simp

text \<open>Popping returns the first node of the sequence and leaves the others in order, with the node
  detached and no iterator left pointing at it; popping an empty list returns \<open>NULL\<close> and changes
  nothing.\<close>

lemma list_pop_front_refines:
  assumes "wl_rep l xs fs" and "its_ok l xs"
  shows "(case xs of
       [] \<Rightarrow> list_pop_front l = Some (l, Null)
     | x # ys \<Rightarrow> \<exists>l'. list_pop_front l = Some (l', Elem x) \<and> wl_rep l' ys fs \<and> detached l' ys fs x \<and>
         payload l' = payload l \<and> its_ok l' ys)"
proof (cases xs)
  case Nil
  with assms(1) show ?thesis by (simp add: pop_front_empty)
next
  case (Cons x ys)
  then show ?thesis
    using pop_front_rep' [of l x ys fs] its_ok_unlink [of l "[]" x ys fs] assms by simp
qed

text \<open>C6: removing an element of the list removes exactly that element, marks its node as not being in
  the list, and redirects every iterator that pointed at it; removing a node that is not in the list
  and at which no iterator points changes nothing.\<close>

theorem list_remove_refines:
  assumes "wl_rep l xs fs" and "its_ok l xs"
  shows "(e \<in> set xs \<longrightarrow> (\<exists>l'. list_remove_element (Elem e) l = Some l' \<and> wl_rep l' (remove1 e xs) fs \<and>
            detached l' (remove1 e xs) fs e \<and> payload l' = payload l \<and> its_ok l' (remove1 e xs))) \<and>
         (e \<in> set fs \<or> detached l xs fs e \<longrightarrow> list_remove_element (Elem e) l = Some l)"
proof (intro conjI impI)
  assume "e \<in> set xs"
  then obtain us vs where xs: "xs = us @ e # vs" and "e \<notin> set us" by (meson split_list_first)
  then have "remove1 e xs = us @ vs" by (simp add: remove1_append)
  then show "\<exists>l'. list_remove_element (Elem e) l = Some l' \<and> wl_rep l' (remove1 e xs) fs \<and>
      detached l' (remove1 e xs) fs e \<and> payload l' = payload l \<and> its_ok l' (remove1 e xs)"
    using remove_eq [of l us e vs fs] wl_rep_unlink [of l us e vs fs] its_ok_unlink [of l us e vs fs]
      assms xs by simp
next
  assume e: "e \<in> set fs \<or> detached l xs fs e"
  then have "mPrev l (Elem e) = Null \<or> mPrev l (Elem e) = MinusOne" and "e \<notin> set xs"
    using assms(1) free_chain_marked [of "mNext l" "mPrev l" "mFreeList l" fs e]
    by (auto simp: wl_rep_def detached_def)
  moreover from this have "Elem e \<notin> snd ` set (iterators l)"
    using assms(2) unfolding its_ok_def by auto
  ultimately show "list_remove_element (Elem e) l = Some l" by (intro remove_outside) auto
qed

theorem list_remove_refines_witness:
  "\<exists>l'. list_remove_element (Elem 2) wl_demo = Some l' \<and> wl_rep l' [1] [0] \<and>
     detached l' [1] [0] 2 \<and> payload l' = payload wl_demo \<and> its_ok l' [1]"
  using list_remove_refines [OF wl_demo_rep wl_demo_its, of 2] by simp

text \<open>The allocation discipline: a node taken from the free list or a fresh one from \<open>calloc\<close> is
  detached, and the list and the rest of the free list are unchanged; freeing a detached node puts it
  on the free list; freeing a node that is in the list, or a second time, has no effect.\<close>

lemma list_alloc_free_discipline:
  assumes "wl_rep l xs fs" and "a \<notin> set xs"
  shows "(\<exists>l' e. list_allocate_element (Some a) l = (l', Elem e) \<and> wl_rep l' xs (tl fs) \<and>
            detached l' xs (tl fs) e \<and> e = (if fs = [] then a else hd fs)) \<and>
         (\<forall>e. detached l xs fs e \<longrightarrow>
            (\<exists>l'. list_free_element (Elem e) l = Some l' \<and> wl_rep l' xs (e # fs))) \<and>
         (\<forall>e \<in> set xs \<union> set fs. list_free_element (Elem e) l = Some l)"
proof (intro conjI ballI allI impI)
  show "\<exists>l' e. list_allocate_element (Some a) l = (l', Elem e) \<and> wl_rep l' xs (tl fs) \<and>
      detached l' xs (tl fs) e \<and> e = (if fs = [] then a else hd fs)"
  proof (cases fs)
    case Nil
    with assms show ?thesis using allocate_fresh [of l xs a] by fastforce
  next
    case (Cons f gs)
    with assms(1) show ?thesis using allocate_from_freelist [of l xs f gs "Some a"] by fastforce
  qed
  show "\<exists>l'. list_free_element (Elem e) l = Some l' \<and> wl_rep l' xs (e # fs)"
    if "detached l xs fs e" for e
    using free_detached [OF assms(1) that] by blast
  show "list_free_element (Elem e) l = Some l" if e: "e \<in> set xs \<union> set fs" for e
  proof (cases "e \<in> set xs")
    case True
    then obtain us vs where "xs = us @ e # vs" by (meson split_list)
    with assms(1) show ?thesis by (simp add: free_member)
  next
    case False
    with e assms(1) show ?thesis by (simp add: free_twice)
  qed
qed

text \<open>C40: iterating with a callback returns and calls the callback for every element of the list, in
  list order, each once.\<close>

theorem list_for_each_visits:
  assumes "wl_rep l xs fs"
  shows "list_for_each (Some (\<lambda>e (l, seen). Some (l, seen @ [e]))) (l, []) = Some (l, map Elem xs)"
  using assms by (rule for_each_order)

theorem list_for_each_visits_witness:
  "list_for_each (Some (\<lambda>e (l, seen). Some (l, seen @ [e]))) (wl_demo, [])
     = Some (wl_demo, [Elem 1, Elem 2])"
  using list_for_each_visits [OF wl_demo_rep] by simp

text \<open>A new iterator returns the elements of the list in order, one per call of
  \<open>iterator_next\<close>, and \<open>NULL\<close> from then on.\<close>

lemma list_iterator_walk:
  assumes "wl_rep l xs fs"
  shows "next_times it n (list_create_iterator it l)
     = Some (map Elem (take n xs) @ replicate (n - length xs) Null)"
proof -
  have "wl_rep (list_create_iterator it l) ([] @ xs) fs"
    using assms by (simp add: wl_rep_def list_create_iterator_def)
  moreover have "itCurrent it (list_create_iterator it l) = Some (after xs)"
    using wl_rep_neighbours [of l "[]" xs fs] assms by (simp add: itCurrent_def list_create_iterator_def)
  ultimately show ?thesis by (rule next_times_walk)
qed

text \<open>Destroying the newest or the second newest iterator of a list unlinks it, but destroying any
  older one never returns (the search loop does not advance).\<close>

lemma iterator_destroy_hangs:
  assumes "iterators l = (i, p) # (j, q) # rest" and "i \<noteq> j"
  shows "iterator_destroy it l
     = (if it = i then Some (l\<lparr>iterators := (j, q) # rest\<rparr>)
        else if it = j then Some (l\<lparr>iterators := (i, p) # rest\<rparr>)
        else None)"
  using assms destroy_loop_diverges [of "iterators l" it] destroy_loop_second [of "iterators l" it]
  by (auto simp: iterator_destroy_def)

text \<open>Destroying a list returns, calls the destructor for the elements of the list in order, and
  frees every node of the list and of the free list exactly once.\<close>

lemma list_destroy_frees_once:
  assumes "wl_rep l xs fs"
  shows "list_destroy (Some (\<lambda>e seen. seen @ [e])) l [] = Some (map Elem (xs @ fs), map fst (iterators l), map Elem xs)
    \<and> distinct (map Elem (xs @ fs))"
proof -
  have "fold (\<lambda>x seen. seen @ [Elem x]) xs acc = acc @ map Elem xs" for acc
    by (induction xs arbitrary: acc) auto
  then show ?thesis
    using assms list_destroy_run [OF assms, of "Some (\<lambda>e seen. seen @ [e])" "[]"]
    by (auto simp: wl_rep_def distinct_map inj_on_def)
qed

end
