(* ===== verification/Throttle.thy ===== *)
theory Throttle
  imports Complex_Main WList "HOL-Library.Sublist"
begin

text \<open>
  The message throttle of \<open>mama/c_cpp/src/c/throttle.c\<close>: a queue of actions (a list of
  \<open>list.c\<close>) served by a timer that executes a quota of them per interval. The doubles
  \<open>mRate\<close> and \<open>mInterval\<close> are exact rational numbers here; the conversion to \<open>int\<close> truncates
  towards zero and is undefined (\<open>None\<close>) outside the range of \<open>int\<close>. The timer is
  \<open>None\<close> when \<open>mTimer\<close> is \<open>NULL\<close> and else carries the interval it was created with. Every
  operation returns the actions it executed, in order; an action is assumed not to call back into
  the throttle. The result \<open>None\<close> of an operation is a memory error or an undefined
  conversion.
\<close>

subsection \<open>Data\<close>

record MsgProperties =
  mOwner :: nat
  mActionCb :: nat
  mClosure1 :: nat
  mClosure2 :: nat

record wombatThrottle =
  mMsgQueue :: "MsgProperties wlist"
  mRate :: rat
  mMsgsSentThisInterval :: int
  mMessagesPerInterval :: int
  mInterval :: rat
  mQueue :: nat
  mTimer :: "rat option"

definition WOMBAT_THROTTLE_DEFAULT_RATE :: rat where
  "WOMBAT_THROTTLE_DEFAULT_RATE = 1000"

text \<open>The C conversion from a floating point number to \<open>int\<close>.\<close>

definition double_to_int :: "rat \<Rightarrow> int option" where
  "double_to_int r =
    (let n = (if r < 0 then \<lceil>r\<rceil> else \<lfloor>r\<rfloor>)
     in if - (2 ^ 31) \<le> n \<and> n < 2 ^ 31 then Some n else None)"

subsection \<open>Operations\<close>

definition wombatThrottle_getRate :: "wombatThrottle \<Rightarrow> rat" where
  "wombatThrottle_getRate t = mRate t"

definition wombatThrottle_setRate :: "rat \<Rightarrow> wombatThrottle \<Rightarrow> wombatThrottle option" where
  "wombatThrottle_setRate rate t =
    (let rate = (if rate < 0 then 0 else rate);
         t = t\<lparr>mRate := rate\<rparr>
     in if mRate t = 0 then Some t
        else if mRate t < 10 then
          do { n \<leftarrow> double_to_int (mRate t);
               Some (t\<lparr>mInterval := 1, mMessagesPerInterval := n\<rparr>) }
        else
          do { n \<leftarrow> double_to_int (mRate t * mInterval t);
               Some (t\<lparr>mMessagesPerInterval := (if n \<le> 0 then 1 else n)\<rparr>) })"

text \<open>\<open>sizeof (MsgProperties)\<close> is 32 (four pointers); \<open>memOk\<close> says whether \<open>malloc\<close> succeeds.\<close>

definition wombatThrottle_allocate :: "bool \<Rightarrow> (wombatThrottle option \<times> mama_status) option" where
  "wombatThrottle_allocate memOk =
    (if \<not> memOk then Some (None, MAMA_STATUS_NOMEM)
     else
       do { let impl = \<lparr>mMsgQueue = list_create 32, mRate = 0, mMsgsSentThisInterval = 0,
                        mMessagesPerInterval = 0, mInterval = 1 / 10, mQueue = 0, mTimer = None\<rparr>;
            impl \<leftarrow> wombatThrottle_setRate WOMBAT_THROTTLE_DEFAULT_RATE impl;
            Some (Some impl, MAMA_STATUS_OK) })"

definition wombatThrottle_create :: "nat \<Rightarrow> wombatThrottle \<Rightarrow> wombatThrottle \<times> mama_status" where
  "wombatThrottle_create queue t = (t\<lparr>mQueue := queue\<rparr>, MAMA_STATUS_OK)"

definition wombatThrottle_setInterval ::
  "rat \<Rightarrow> wombatThrottle option \<Rightarrow> wombatThrottle option \<times> mama_status" where
  "wombatThrottle_setInterval interval th =
    (case th of
       None \<Rightarrow> (None, MAMA_STATUS_NULL_ARG)
     | Some t \<Rightarrow> (Some (t\<lparr>mInterval := interval\<rparr>), MAMA_STATUS_OK))"

text \<open>The nodes that \<open>wombatThrottle_cleanUp\<close> frees; the structure itself is freed after them.\<close>

definition wombatThrottle_cleanUp :: "wombatThrottle \<Rightarrow> ptr list option" where
  "wombatThrottle_cleanUp t =
    do { (freed, its, u) \<leftarrow> list_destroy None (mMsgQueue t) (); Some freed }"

definition wombatThrottle_destroy :: "wombatThrottle option \<Rightarrow> (ptr list \<times> mama_status) option" where
  "wombatThrottle_destroy th =
    (case th of
       None \<Rightarrow> Some ([], MAMA_STATUS_OK)
     | Some t \<Rightarrow>
         do { let t = (if mTimer t \<noteq> None then t\<lparr>mTimer := None\<rparr> else t);
              freed \<leftarrow> wombatThrottle_cleanUp t;
              Some (freed, MAMA_STATUS_OK) })"

text \<open>\<open>mem\<close> is the address \<open>calloc\<close> returns, \<open>timerOk\<close> whether \<open>mamaTimer_create\<close> sets the timer.
  The result: the throttle, the handle, the executed actions and the status.\<close>

definition wombatThrottle_dispatch ::
  "nat option \<Rightarrow> bool \<Rightarrow> MsgProperties \<Rightarrow> bool \<Rightarrow> wombatThrottle \<Rightarrow>
    (wombatThrottle \<times> ptr \<times> MsgProperties list \<times> mama_status) option" where
  "wombatThrottle_dispatch mem timerOk action immediate t =
    (if mRate t \<le> 0 then Some (t, Null, [action], MAMA_STATUS_OK)
     else
       (case list_allocate_element mem (mMsgQueue t) of
          (q, info) \<Rightarrow>
            let t = t\<lparr>mMsgQueue := q\<rparr>;
                t = (if mTimer t = None \<and> timerOk then t\<lparr>mTimer := Some (mInterval t)\<rparr> else t)
            in if info = Null then Some (t, Null, [], MAMA_STATUS_NOMEM)
               else
                 do { let q = q\<lparr>payload := (payload q)(info := Some action)\<rparr>;
                      q \<leftarrow> (if immediate then list_push_front info q else list_push_back info q);
                      Some (t\<lparr>mMsgQueue := q\<rparr>, info, [], MAMA_STATUS_OK) }))"

text \<open>The action of a popped node is called before the node is freed.\<close>

definition wombatThrottle_sendQueuedMessage ::
  "wombatThrottle \<Rightarrow> (wombatThrottle \<times> MsgProperties option) option" where
  "wombatThrottle_sendQueuedMessage t =
    do { (q, info) \<leftarrow> list_pop_front (mMsgQueue t);
         if info \<noteq> Null then
           do { action \<leftarrow> payload q info;
                q \<leftarrow> list_free_element info q;
                Some (t\<lparr>mMsgQueue := q\<rparr>, Some action) }
         else Some (t\<lparr>mMsgQueue := q\<rparr>, None) }"

lemma sendQueuedMessage_frame:
  "wombatThrottle_sendQueuedMessage t = Some (t', r) \<Longrightarrow> \<exists>q. t' = t\<lparr>mMsgQueue := q\<rparr>"
  by (auto simp: wombatThrottle_sendQueuedMessage_def bind_eq_Some_conv split: if_splits)

function wombatThrottle_dispatchMessagesUntilQuota ::
  "wombatThrottle \<Rightarrow> (wombatThrottle \<times> MsgProperties list) option" where
  "wombatThrottle_dispatchMessagesUntilQuota t =
    (let s = mMsgsSentThisInterval t;
         t = t\<lparr>mMsgsSentThisInterval := s + 1\<rparr>
     in if s < mMessagesPerInterval t then
          (case wombatThrottle_sendQueuedMessage t of
             None \<Rightarrow> None
           | Some (t, None) \<Rightarrow> Some (t, [])
           | Some (t, Some m) \<Rightarrow>
               do { (t, ms) \<leftarrow> wombatThrottle_dispatchMessagesUntilQuota t; Some (t, m # ms) })
        else Some (t, []))"
  by pat_completeness auto
termination
  by (relation "measure (\<lambda>t. nat (mMessagesPerInterval t - mMsgsSentThisInterval t))")
    (auto dest: sendQueuedMessage_frame)

definition removeMessagesForOwnerCb ::
  "nat \<Rightarrow> ptr \<Rightarrow> MsgProperties wlist \<times> nat \<Rightarrow> (MsgProperties wlist \<times> nat) option" where
  "removeMessagesForOwnerCb owner element qc =
    do { let (q, gRemoveCount) = qc;
         info \<leftarrow> payload q element;
         if owner = mOwner info then
           do { q \<leftarrow> list_remove_element element q;
                q \<leftarrow> list_free_element element q;
                Some (q, gRemoveCount + 1) }
         else Some (q, gRemoveCount) }"

definition wombatThrottle_removeMessagesForOwner ::
  "nat \<Rightarrow> wombatThrottle option \<Rightarrow> (wombatThrottle option \<times> nat \<times> mama_status) option" where
  "wombatThrottle_removeMessagesForOwner owner th =
    (case th of
       None \<Rightarrow> Some (None, 0, MAMA_STATUS_NULL_ARG)
     | Some t \<Rightarrow>
         do { (q, n) \<leftarrow> list_for_each (Some (removeMessagesForOwnerCb owner)) (mMsgQueue t, 0);
              Some (Some (t\<lparr>mMsgQueue := q\<rparr>), n, MAMA_STATUS_OK) })"

text \<open>The elements of the second list hold handles, that is, nodes of the queue.\<close>

definition removeMessagesFromListCb ::
  "ptr \<Rightarrow> ptr wlist \<times> MsgProperties wlist \<times> nat \<Rightarrow> (ptr wlist \<times> MsgProperties wlist \<times> nat) option" where
  "removeMessagesFromListCb element lqc =
    do { let (l, q, gRemoveCount) = lqc;
         let action = (case payload l element of None \<Rightarrow> Null | Some a \<Rightarrow> a);
         q \<leftarrow> list_remove_element action q;
         q \<leftarrow> list_free_element action q;
         Some (l, q, gRemoveCount + 1) }"

definition wombatThrottle_removeMessagesFromList ::
  "ptr wlist \<Rightarrow> wombatThrottle \<Rightarrow> (wombatThrottle \<times> nat \<times> mama_status) option" where
  "wombatThrottle_removeMessagesFromList handles t =
    do { (l, q, n) \<leftarrow> list_for_each (Some removeMessagesFromListCb) (handles, mMsgQueue t, 0);
         Some (t\<lparr>mMsgQueue := q\<rparr>, n, MAMA_STATUS_OK) }"

definition wombatThrottle_removeAction ::
  "ptr \<Rightarrow> wombatThrottle \<Rightarrow> (wombatThrottle \<times> mama_status) option" where
  "wombatThrottle_removeAction action t =
    do { q \<leftarrow> list_remove_element action (mMsgQueue t);
         q \<leftarrow> list_free_element action q;
         Some (t\<lparr>mMsgQueue := q\<rparr>, MAMA_STATUS_OK) }"

text \<open>The condition of the purging loop of the timer callback.\<close>

definition purge_step :: "wombatThrottle \<Rightarrow> (wombatThrottle \<times> MsgProperties option) option" where
  "purge_step t = (if mRate t = 0 then wombatThrottle_sendQueuedMessage t else Some (t, None))"

definition wombatThrottle_timerCB :: "wombatThrottle \<Rightarrow> (wombatThrottle \<times> MsgProperties list) option" where
  "wombatThrottle_timerCB t =
    do { (t, purged) \<leftarrow> drain_all purge_step t;
         let t = t\<lparr>mMsgsSentThisInterval := 0\<rparr>;
         let t = (if list_size (mMsgQueue t) = 0 then t\<lparr>mTimer := None\<rparr> else t);
         (t, sent) \<leftarrow> wombatThrottle_dispatchMessagesUntilQuota t;
         Some (t, purged @ sent) }"

subsection \<open>The queue of actions\<close>

declare wombatThrottle_dispatchMessagesUntilQuota.simps [simp del]

text \<open>The queue holds the nodes and actions \<open>as\<close>, oldest first, and \<open>fs\<close> are the nodes of its free
  list. The throttle creates no iterator of its queue.\<close>

definition q_rep :: "MsgProperties wlist \<Rightarrow> (nat \<times> MsgProperties) list \<Rightarrow> nat list \<Rightarrow> bool" where
  "q_rep q as fs \<longleftrightarrow> wl_rep q (map fst as) fs \<and> (\<forall>(a, m) \<in> set as. payload q (Elem a) = Some m) \<and>
     iterators q = []"

definition th_rep :: "wombatThrottle \<Rightarrow> (nat \<times> MsgProperties) list \<Rightarrow> bool" where
  "th_rep t as \<longleftrightarrow> (\<exists>fs. q_rep (mMsgQueue t) as fs) \<and> length as < 2 ^ 64"

text \<open>A later state of the throttle \<open>t0\<close> that differs from it in the queue only.\<close>

definition th_run :: "wombatThrottle \<Rightarrow> wombatThrottle \<Rightarrow> (nat \<times> MsgProperties) list \<Rightarrow> bool" where
  "th_run t0 t as \<longleftrightarrow> th_rep t as \<and> (\<exists>q. t = t0\<lparr>mMsgQueue := q\<rparr>)"

definition th_acts :: "wombatThrottle \<Rightarrow> wombatThrottle \<Rightarrow> MsgProperties list \<Rightarrow> bool" where
  "th_acts t0 t ms \<longleftrightarrow> (\<exists>as. th_run t0 t as \<and> ms = map snd as)"

lemma th_rep_fields [simp]:
  "th_rep (t\<lparr>mMsgsSentThisInterval := s\<rparr>) as = th_rep t as"
  "th_rep (t\<lparr>mTimer := r\<rparr>) as = th_rep t as"
  "th_rep (t\<lparr>mMsgQueue := q, mMsgsSentThisInterval := s\<rparr>) as = th_rep (t\<lparr>mMsgQueue := q\<rparr>) as"
  "th_rep (t\<lparr>mMsgsSentThisInterval := s, mMsgQueue := q\<rparr>) as = th_rep (t\<lparr>mMsgQueue := q\<rparr>) as"
  by (simp_all add: th_rep_def)

lemma send_empty: "th_rep t [] \<Longrightarrow> wombatThrottle_sendQueuedMessage t = Some (t, None)"
  by (auto simp: th_rep_def q_rep_def wombatThrottle_sendQueuedMessage_def pop_front_empty)

lemma send_first:
  assumes "th_rep t ((a, m) # as)"
  obtains q where "wombatThrottle_sendQueuedMessage t = Some (t\<lparr>mMsgQueue := q\<rparr>, Some m)"
    and "th_rep (t\<lparr>mMsgQueue := q\<rparr>) as"
proof -
  let ?q = "unlink_at Head (Elem a) (after (map fst as)) (mMsgQueue t)"
  from assms obtain fs where "wl_rep (mMsgQueue t) (a # map fst as) fs" by (auto simp: th_rep_def q_rep_def)
  note pop = pop_front_rep' [OF this]
  obtain q where q: "list_free_element (Elem a) ?q = Some q" "wl_rep q (map fst as) (a # fs)"
    "payload q = payload ?q" "iterators q = iterators ?q"
    using free_detached [OF pop(2,3)] by blast
  show ?thesis
    using assms pop(1) q by (intro that [of q]) (auto simp: wombatThrottle_sendQueuedMessage_def th_rep_def
        q_rep_def adjusted_def intro!: exI [of _ "a # fs"])
qed

interpretation tq: drain_spec "th_acts t0" wombatThrottle_sendQueuedMessage for t0
proof unfold_locales
  show "wombatThrottle_sendQueuedMessage t = Some (t, None)" if "th_acts t0 t []" for t
    using that by (auto simp: th_acts_def th_run_def intro: send_empty)
  show "\<exists>t'. wombatThrottle_sendQueuedMessage t = Some (t', Some m) \<and> th_acts t0 t' ms"
    if "th_acts t0 t (m # ms)" for t m ms
  proof -
    from that obtain a as q0 where rep: "th_rep t ((a, m) # as)" and ms: "ms = map snd as"
      and t: "t = t0\<lparr>mMsgQueue := q0\<rparr>"
      by (auto simp: th_acts_def th_run_def)
    from send_first [OF rep] obtain q where
      "wombatThrottle_sendQueuedMessage t = Some (t\<lparr>mMsgQueue := q\<rparr>, Some m)"
      "th_rep (t\<lparr>mMsgQueue := q\<rparr>) as" .
    then show ?thesis unfolding th_acts_def th_run_def ms t by auto
  qed
qed

interpretation tp: drain_spec "\<lambda>t ms. th_acts t0 t ms \<and> mRate t = 0" purge_step for t0
proof unfold_locales
  show "purge_step t = Some (t, None)" if "th_acts t0 t [] \<and> mRate t = 0" for t
    using that tq.pop_Nil [of t0 t] by (simp add: purge_step_def)
  show "\<exists>t'. purge_step t = Some (t', Some m) \<and> th_acts t0 t' ms \<and> mRate t' = 0"
    if "th_acts t0 t (m # ms) \<and> mRate t = 0" for t m ms
    using that tq.pop_Cons [of t0 t m ms] by (fastforce simp: purge_step_def dest: sendQueuedMessage_frame)
qed

lemma quota_run:
  assumes "th_rep t as"
  shows "\<exists>q s. wombatThrottle_dispatchMessagesUntilQuota t
           = Some (t\<lparr>mMsgQueue := q, mMsgsSentThisInterval := s\<rparr>,
                   map snd (take (nat (mMessagesPerInterval t - mMsgsSentThisInterval t)) as)) \<and>
         th_rep (t\<lparr>mMsgQueue := q\<rparr>) (drop (nat (mMessagesPerInterval t - mMsgsSentThisInterval t)) as)"
  using assms
proof (induction t arbitrary: as rule: wombatThrottle_dispatchMessagesUntilQuota.induct)
  case (1 t)
  let ?t = "t\<lparr>mMsgsSentThisInterval := mMsgsSentThisInterval t + 1\<rparr>"
  let ?n = "mMessagesPerInterval t - mMsgsSentThisInterval t"
  have self: "t\<lparr>mMsgQueue := mMsgQueue t\<rparr> = t" by simp
  show ?case
  proof (cases "mMsgsSentThisInterval t < mMessagesPerInterval t")
    case False
    with "1.prems" show ?thesis
      by (intro exI [of _ "mMsgQueue t"] exI [of _ "mMsgsSentThisInterval t + 1"])
        (simp add: wombatThrottle_dispatchMessagesUntilQuota.simps [of t])
  next
    case True
    then have n: "nat ?n = Suc (nat (?n - 1))" by simp
    show ?thesis
    proof (cases as)
      case Nil
      with "1.prems" True show ?thesis
        using send_empty [of ?t]
        by (intro exI [of _ "mMsgQueue t"] exI [of _ "mMsgsSentThisInterval t + 1"])
          (simp add: wombatThrottle_dispatchMessagesUntilQuota.simps [of t])
    next
      case (Cons am as')
      then obtain a m where am: "as = (a, m) # as'" by (cases am) auto
      from send_first [of ?t a m as'] "1.prems" am obtain q where
        q: "wombatThrottle_sendQueuedMessage ?t = Some (?t\<lparr>mMsgQueue := q\<rparr>, Some m)"
           "th_rep (?t\<lparr>mMsgQueue := q\<rparr>) as'"
        by auto
      from "1.IH" [OF refl refl _ q(1) refl refl, of as'] True q obtain q' s where
        "wombatThrottle_dispatchMessagesUntilQuota (?t\<lparr>mMsgQueue := q\<rparr>)
           = Some (t\<lparr>mMsgQueue := q', mMsgsSentThisInterval := s\<rparr>, map snd (take (nat (?n - 1)) as'))"
        "th_rep (t\<lparr>mMsgQueue := q'\<rparr>) (drop (nat (?n - 1)) as')"
        by (auto simp: algebra_simps)
      with True q(1) show ?thesis
        unfolding am n
        by (intro exI [of _ q'] exI [of _ s])
          (simp add: wombatThrottle_dispatchMessagesUntilQuota.simps [of t])
    qed
  qed
qed

text \<open>The purging loop of the timer callback.\<close>

lemma purge_run:
  assumes "th_rep t as"
  shows "\<exists>q. drain_all purge_step t = Some (t\<lparr>mMsgQueue := q\<rparr>, if mRate t = 0 then map snd as else []) \<and>
     th_rep (t\<lparr>mMsgQueue := q\<rparr>) (if mRate t = 0 then [] else as)"
proof (cases "mRate t = 0")
  case True
  have "\<exists>q. t = t\<lparr>mMsgQueue := q\<rparr>" by (rule exI [of _ "mMsgQueue t"]) simp
  with assms True have "th_acts t t (map snd as) \<and> mRate t = 0" by (auto simp: th_acts_def th_run_def)
  from tp.drain_all_total [OF this] True show ?thesis by (auto simp: th_acts_def th_run_def)
next
  case False
  with assms show ?thesis
    by (subst drain_all.simps) (auto simp: purge_step_def intro!: exI [of _ "mMsgQueue t"])
qed

lemma list_size_zero: "th_rep t as \<Longrightarrow> list_size (mMsgQueue t) = 0 \<longleftrightarrow> as = []"
proof -
  assume "th_rep t as"
  then have "list_size (mMsgQueue t) = of_nat (length as)" and "length as < 2 ^ 64"
    by (auto simp: th_rep_def q_rep_def wl_rep_def list_size_def)
  then show ?thesis
    by (simp add: word_unat_eq_iff unat_of_nat)
qed

text \<open>What one expiry of the timer does.\<close>

definition tick_count :: "wombatThrottle \<Rightarrow> nat \<Rightarrow> nat" where
  "tick_count t n = (if mRate t = 0 then n else nat (mMessagesPerInterval t))"

lemma timerCB_run:
  assumes "th_rep t as"
  shows "\<exists>t'. wombatThrottle_timerCB t = Some (t', map snd (take (tick_count t (length as)) as)) \<and>
     th_rep t' (drop (tick_count t (length as)) as) \<and>
     mTimer t' = (if mRate t = 0 \<or> as = [] then None else mTimer t) \<and>
     mRate t' = mRate t \<and> mMessagesPerInterval t' = mMessagesPerInterval t"
proof -
  let ?rest = "if mRate t = 0 then [] else as"
  obtain q where q: "drain_all purge_step t
      = Some (t\<lparr>mMsgQueue := q\<rparr>, if mRate t = 0 then map snd as else [])"
    "th_rep (t\<lparr>mMsgQueue := q\<rparr>) ?rest"
    using purge_run [OF assms] by blast
  let ?t = "t\<lparr>mMsgQueue := q, mMsgsSentThisInterval := 0\<rparr>"
  let ?t' = "if list_size (mMsgQueue ?t) = 0 then ?t\<lparr>mTimer := None\<rparr> else ?t"
  have z: "list_size q = 0 \<longleftrightarrow> ?rest = []" using list_size_zero [OF q(2)] by simp
  have "th_rep ?t' ?rest" using q(2) by (cases "mRate t = 0") simp_all
  from quota_run [OF this] show ?thesis
    using q z by (auto simp: wombatThrottle_timerCB_def tick_count_def th_rep_def split: if_splits)
qed

subsection \<open>Cancellation\<close>

text \<open>Unlinking and freeing a node, as the three cancelling operations do: it disappears from the
  queue; a node that is already on the free list is left alone.\<close>

definition cancel :: "ptr \<Rightarrow> MsgProperties wlist \<Rightarrow> MsgProperties wlist option" where
  "cancel p q = do { q \<leftarrow> list_remove_element p q; list_free_element p q }"

lemma filter_other:
  assumes "distinct (map fst (us @ (a, m) # vs))"
  shows "filter (\<lambda>p. fst p \<noteq> a) (us @ (a, m) # vs) = us @ vs"
proof -
  have "\<forall>p \<in> set us \<union> set vs. fst p \<noteq> a" using assms by auto
  then show ?thesis by (simp add: filter_id_conv)
qed

lemma filter_other_keys: "fst ` set ps \<subseteq> insert a (fst ` set (filter (\<lambda>p. fst p \<noteq> a) ps))"
  by force

lemma cancel_member:
  assumes "q_rep q (us @ (a, m) # vs) fs"
  obtains q' where "cancel (Elem a) q = Some q'" and "q_rep q' (us @ vs) (a # fs)"
    and "payload q' = payload q"
proof -
  let ?q = "unlink_at (before (map fst us)) (Elem a) (after (map fst vs)) q"
  have rep: "wl_rep q (map fst us @ a # map fst vs) fs" using assms by (simp add: q_rep_def)
  obtain q' where q': "list_free_element (Elem a) ?q = Some q'"
    "wl_rep q' (map fst us @ map fst vs) (a # fs)" "payload q' = payload ?q" "iterators q' = iterators ?q"
    using free_detached [OF wl_rep_unlink [OF rep]] by blast
  show ?thesis
    using that [of q'] q' remove_eq [OF rep] assms by (auto simp: cancel_def q_rep_def adjusted_def)
qed

lemma cancel_one:
  assumes "q_rep q as fs" and "a \<in> fst ` set as \<union> set fs"
  obtains q' fs' where "cancel (Elem a) q = Some q'" and "q_rep q' (filter (\<lambda>p. fst p \<noteq> a) as) fs'"
    and "payload q' = payload q" and "set fs' = insert a (set fs)"
proof (cases "a \<in> fst ` set as")
  case True
  then obtain us m vs where as: "as = us @ (a, m) # vs" by (fastforce dest: split_list)
  have "distinct (map fst as)" using assms(1) unfolding q_rep_def wl_rep_def distinct_append by blast
  then have "filter (\<lambda>p. fst p \<noteq> a) as = us @ vs" unfolding as by (rule filter_other)
  with that cancel_member [of q us a m vs fs] assms(1) as show ?thesis by (metis list.simps(15))
next
  case False
  with assms have a: "a \<in> set fs" by auto
  then have "list_remove_element (Elem a) q = Some q"
    using assms(1) free_chain_marked [of "mNext q" "mPrev q" "mFreeList q" fs a]
    by (intro remove_outside) (auto simp: q_rep_def wl_rep_def)
  moreover have "list_free_element (Elem a) q = Some q"
    using assms(1) a by (intro free_twice) (auto simp: q_rep_def)
  moreover have "filter (\<lambda>p. fst p \<noteq> a) as = as" using False by (force simp: filter_id_conv)
  ultimately show ?thesis
    using that [of q fs] assms(1) a by (auto simp: cancel_def insert_absorb)
qed

lemma removeMessagesForOwner_run:
  assumes "q_rep q as fs"
  shows "\<exists>q' fs'. list_for_each (Some (removeMessagesForOwnerCb owner)) (q, 0)
      = Some (q', length (filter (\<lambda>(a, m). mOwner m = owner) as)) \<and>
     q_rep q' (filter (\<lambda>(a, m). mOwner m \<noteq> owner) as) fs'"
proof -
  let ?K = "\<lambda>(a, m). mOwner m \<noteq> owner" and ?D = "\<lambda>(a, m). mOwner m = owner"
  let ?I = "\<lambda>rest (q', c). \<exists>us vs fs'. as = us @ vs \<and> rest = map fst vs \<and>
     q_rep q' (filter ?K us @ vs) fs' \<and> payload q' = payload q \<and> c = length (filter ?D us)"
  have step: "mNext (fst qc) (Elem x) = after rest \<and>
      (\<exists>qc'. removeMessagesForOwnerCb owner (Elem x) qc = Some qc' \<and> ?I rest qc')"
    if I: "?I (x # rest) qc" for x rest qc
  proof -
    obtain q1 c us m vs fs1 where qc: "qc = (q1, c)" "as = us @ (x, m) # vs" "rest = map fst vs"
      and rep: "q_rep q1 (filter ?K us @ (x, m) # vs) fs1" and pl: "payload q1 = payload q"
      and c: "c = length (filter ?D us)"
      using I by (cases qc) (auto simp: Cons_eq_map_conv)
    have nx: "mNext q1 (Elem x) = after rest"
      using rep next_of [of q1 "map fst (filter ?K us)" x "map fst vs" fs1] qc by (simp add: q_rep_def)
    have m: "payload q1 (Elem x) = Some m" using rep by (auto simp: q_rep_def)
    obtain q2 where can: "cancel (Elem x) q1 = Some q2"
      and rep2: "q_rep q2 (filter ?K us @ vs) (x # fs1)" and pl2: "payload q2 = payload q1"
      using cancel_member [OF rep] by blast
    show ?thesis
    proof (cases "mOwner m = owner")
      case True
      then have "removeMessagesForOwnerCb owner (Elem x) qc = Some (q2, c + 1)"
        using can m by (auto simp: removeMessagesForOwnerCb_def cancel_def qc(1) bind_eq_Some_conv)
      moreover have "?I rest (q2, c + 1)"
        unfolding prod.case using qc True rep2 pl pl2 c
        by (intro exI [of _ "us @ [(x, m)]"] exI [of _ vs] exI [of _ "x # fs1"]) auto
      ultimately show ?thesis using nx qc(1) by auto
    next
      case False
      then have "removeMessagesForOwnerCb owner (Elem x) qc = Some (q1, c)"
        using m by (auto simp: removeMessagesForOwnerCb_def qc(1))
      moreover have "?I rest (q1, c)"
        unfolding prod.case using qc False rep pl c
        by (intro exI [of _ "us @ [(x, m)]"] exI [of _ vs] exI [of _ fs1]) auto
      ultimately show ?thesis using nx qc(1) by auto
    qed
  qed
  have "?I (map fst as) (q, 0)"
    unfolding prod.case using assms by (intro exI [of _ "[]"] exI [of _ as] exI [of _ fs]) simp
  from for_each_rule [of ?I, OF this step] show ?thesis
    using wl_rep_neighbours [of q "[]" "map fst as" fs] assms
    by (fastforce simp: list_for_each_def q_rep_def)
qed

lemma removeMessagesFromList_run:
  assumes "q_rep q as fs" and "wl_rep l ns gs"
    and "\<forall>n \<in> set ns. \<exists>a \<in> fst ` set as \<union> set fs. payload l (Elem n) = Some (Elem a)"
  shows "\<exists>q' fs'. list_for_each (Some removeMessagesFromListCb) (l, q, 0) = Some (l, q', length ns) \<and>
     q_rep q' (filter (\<lambda>p. Some (Elem (fst p)) \<notin> (\<lambda>n. payload l (Elem n)) ` set ns) as) fs'"
proof -
  let ?left = "\<lambda>us. filter (\<lambda>p. Some (Elem (fst p)) \<notin> (\<lambda>n. payload l (Elem n)) ` set us) as"
  let ?I = "\<lambda>rest (l', q', c). \<exists>us fs'. ns = us @ rest \<and> l' = l \<and> c = length us \<and>
     q_rep q' (?left us) fs' \<and> fst ` set as \<union> set fs \<subseteq> fst ` set (?left us) \<union> set fs'"
  have step: "mNext (fst lqc) (Elem x) = after rest \<and>
      (\<exists>lqc'. removeMessagesFromListCb (Elem x) lqc = Some lqc' \<and> ?I rest lqc')"
    if I: "?I (x # rest) lqc" for x rest lqc
  proof -
    obtain q1 us fs1 where lqc: "lqc = (l, q1, length us)" and ns: "ns = us @ x # rest"
      and rep: "q_rep q1 (?left us) fs1"
      and dom: "fst ` set as \<union> set fs \<subseteq> fst ` set (?left us) \<union> set fs1"
      using I by (cases lqc) auto
    obtain a where a: "a \<in> fst ` set as \<union> set fs" "payload l (Elem x) = Some (Elem a)"
      using assms(3) ns by auto
    have flt: "filter (\<lambda>p. fst p \<noteq> a) (?left us) = ?left (us @ [x])"
      using a(2) by (auto intro: filter_cong)
    obtain q2 fs2 where q2: "cancel (Elem a) q1 = Some q2" "q_rep q2 (?left (us @ [x])) fs2"
      "set fs2 = insert a (set fs1)"
    proof (rule cancel_one [OF rep, of a, unfolded flt])
      show "a \<in> fst ` set (?left us) \<union> set fs1" using a(1) dom by blast
    qed
    have "removeMessagesFromListCb (Elem x) lqc = Some (l, q2, length (us @ [x]))"
      using q2(1) a(2) by (auto simp: removeMessagesFromListCb_def cancel_def lqc bind_eq_Some_conv)
    moreover have "fst ` set as \<union> set fs \<subseteq> fst ` set (?left (us @ [x])) \<union> set fs2"
      using dom q2(3) filter_other_keys [of "?left us" a, unfolded flt] by blast
    ultimately show ?thesis
      using lqc ns q2(2) next_of [of l us x rest gs] assms(2) by auto
  qed
  have "?I ns (l, q, 0)" using assms(1) by auto
  from for_each_rule [of ?I, OF this step] show ?thesis
    using wl_rep_neighbours [of l "[]" ns gs] assms(2)
    by (fastforce simp: list_for_each_def)
qed

subsection \<open>Dispatching\<close>

lemma allocate_run:
  assumes "wl_rep l xs fs" and "a \<notin> set xs"
  obtains l' e fs' where "list_allocate_element (Some a) l = (l', Elem e)" and "wl_rep l' xs fs'"
    and "detached l' xs fs' e" and "iterators l' = iterators l"
    and "payload l' = (payload l)(Elem e := None)"
proof (cases fs)
  case Nil
  with assms allocate_fresh [of l xs a] that show ?thesis by blast
next
  case (Cons f gs)
  with assms allocate_from_freelist [of l xs f gs "Some a"] that show ?thesis by blast
qed

lemma dispatch_run:
  assumes "th_rep t as" and "a \<notin> fst ` set as" and "length as + 1 < 2 ^ 64" and "0 < mRate t"
  shows "\<exists>t' e. wombatThrottle_dispatch (Some a) timerOk m immediate t = Some (t', Elem e, [], MAMA_STATUS_OK) \<and>
     th_rep t' (if immediate then (e, m) # as else as @ [(e, m)]) \<and>
     mTimer t' = (if mTimer t = None \<and> timerOk then Some (mInterval t) else mTimer t) \<and>
     mRate t' = mRate t \<and> mMessagesPerInterval t' = mMessagesPerInterval t"
proof -
  obtain fs where rep: "wl_rep (mMsgQueue t) (map fst as) fs" "iterators (mMsgQueue t) = []"
    and pl: "\<forall>(b, m) \<in> set as. payload (mMsgQueue t) (Elem b) = Some m"
    using assms(1) by (auto simp: th_rep_def q_rep_def)
  obtain q e fs' where q: "list_allocate_element (Some a) (mMsgQueue t) = (q, Elem e)"
    "wl_rep q (map fst as) fs'" "detached q (map fst as) fs' e" "iterators q = []"
    "payload q = (payload (mMsgQueue t))(Elem e := None)"
    using allocate_run [OF rep(1), of a] assms(2) rep(2) by auto
  let ?q = "q\<lparr>payload := (payload q)(Elem e := Some m)\<rparr>"
  let ?q' = "if immediate then link_at Head (Elem e) (after (map fst as)) ?q
    else link_at (before (map fst as)) (Elem e) Tail ?q"
  have r: "wl_rep ?q (map fst as) fs'" "detached ?q (map fst as) fs' e"
    using q(2,3) by (simp_all add: wl_rep_def detached_def)
  have e: "e \<notin> fst ` set as" using q(3) by (auto simp: detached_def)
  have "q_rep ?q' (if immediate then (e, m) # as else as @ [(e, m)]) fs'"
    using push_back_rep' [OF r] push_front_rep' [OF r] q(4,5) pl e by (force simp: q_rep_def)
  then show ?thesis
    using push_back_rep' [OF r] push_front_rep' [OF r] q(1) assms(3,4)
    by (auto simp: wombatThrottle_dispatch_def th_rep_def Let_def)
qed

subsection \<open>Successive expiries of the timer\<close>

fun ticks :: "nat \<Rightarrow> wombatThrottle \<Rightarrow> (wombatThrottle \<times> MsgProperties list list) option" where
  "ticks 0 t = Some (t, [])"
| "ticks (Suc k) t =
    do { (t, ms) \<leftarrow> wombatThrottle_timerCB t; (t, mss) \<leftarrow> ticks k t; Some (t, ms # mss) }"

lemma ticks_length: "ticks k t = Some (t', mss) \<Longrightarrow> length mss = k"
  by (induction k arbitrary: t mss) (auto simp: bind_eq_Some_conv)

lemma ticks_run:
  assumes "th_rep t as" and "mRate t \<noteq> 0"
  shows "\<exists>t' mss. ticks k t = Some (t', mss) \<and> th_rep t' (drop (k * nat (mMessagesPerInterval t)) as) \<and>
     concat mss = map snd (take (k * nat (mMessagesPerInterval t)) as) \<and>
     (\<forall>ms \<in> set mss. length ms \<le> nat (mMessagesPerInterval t))"
  using assms
proof (induction k arbitrary: t as)
  case 0
  then show ?case by simp
next
  case (Suc k)
  let ?n = "nat (mMessagesPerInterval t)"
  from timerCB_run [OF Suc.prems(1)] Suc.prems(2) obtain t1 where t1:
    "wombatThrottle_timerCB t = Some (t1, map snd (take ?n as))" "th_rep t1 (drop ?n as)"
    "mRate t1 = mRate t" "mMessagesPerInterval t1 = mMessagesPerInterval t"
    by (auto simp: tick_count_def)
  have "take ?n as @ take (k * ?n) (drop ?n as) = take (?n + k * ?n) as" by (simp add: take_add)
  moreover have "drop (k * ?n) (drop ?n as) = drop (?n + k * ?n) as" by (simp add: add.commute)
  ultimately show ?case
    using Suc.IH [OF t1(2)] Suc.prems(2) t1 by (force simp flip: map_append)
qed



subsection \<open>Properties\<close>

text \<open>A concrete throttle: created, its rate set to 20 messages a second (2 per interval of 0.1
  seconds), four actions of the owners 1 and 2 queued.\<close>

definition demo_msg :: "nat \<Rightarrow> nat \<Rightarrow> MsgProperties" where
  "demo_msg owner c = \<lparr>mOwner = owner, mActionCb = 100, mClosure1 = c, mClosure2 = 0\<rparr>"

definition demo_as :: "(nat \<times> MsgProperties) list" where
  "demo_as = [(1, demo_msg 1 11), (2, demo_msg 2 12), (3, demo_msg 1 13), (4, demo_msg 2 14)]"

definition th_demo :: wombatThrottle where
  "th_demo = \<lparr>mMsgQueue =
      \<lparr>mPrev = (\<lambda>_. Null)(Tail := Elem 4, Elem 4 := Elem 3, Elem 3 := Elem 2, Elem 2 := Elem 1, Elem 1 := Head),
       mNext = (\<lambda>_. Null)(Head := Elem 1, Elem 1 := Elem 2, Elem 2 := Elem 3, Elem 3 := Elem 4, Elem 4 := Tail),
       payload = (\<lambda>p. case p of Elem a \<Rightarrow> map_of demo_as a | _ \<Rightarrow> None), mFreeList = Null,
       mAllocSize = 48, lsize = 4, iterators = []\<rparr>,
     mRate = 20, mMsgsSentThisInterval = 0, mMessagesPerInterval = 2, mInterval = 1 / 10, mQueue = 5,
     mTimer = Some (1 / 10)\<rparr>"

lemma th_demo_fields [simp]:
  "mRate th_demo = 20" "mMessagesPerInterval th_demo = 2" "mTimer th_demo = Some (1 / 10)"
  by (simp_all add: th_demo_def)

lemma th_demo_q: "q_rep (mMsgQueue th_demo) demo_as []"
  by (simp add: q_rep_def wl_rep_def path_def th_demo_def demo_as_def)

lemma th_demo_rep: "th_rep th_demo demo_as"
  using th_demo_q by (auto simp: th_rep_def demo_as_def)

text \<open>C7: at an expiry of the timer a throttle with a positive rate executes exactly the first
  \<open>mMessagesPerInterval\<close> queued actions (all, when there are fewer), oldest first, and keeps the
  others in order; a throttle whose rate is 0 executes all. The timer is destroyed exactly when
  nothing was queued or the rate is 0.\<close>

theorem throttle_tick:
  assumes "th_rep t as"
  shows "\<exists>t' n. n = (if mRate t = 0 then length as else nat (mMessagesPerInterval t)) \<and>
     wombatThrottle_timerCB t = Some (t', map snd (take n as)) \<and> th_rep t' (drop n as) \<and>
     mTimer t' = (if mRate t = 0 \<or> as = [] then None else mTimer t)"
  using timerCB_run [OF assms] by (auto simp: tick_count_def)

theorem throttle_tick_witness:
  "\<exists>t'. wombatThrottle_timerCB th_demo = Some (t', [demo_msg 1 11, demo_msg 2 12]) \<and>
     th_rep t' [(3, demo_msg 1 13), (4, demo_msg 2 14)] \<and> mTimer t' = Some (1 / 10)"
  using throttle_tick [OF th_demo_rep] by (simp add: demo_as_def)






text \<open>A throttle whose rate is below one message a second never executes a queued action: the
  quota of its interval is truncated to 0. (The neighbouring branch, for rates of at least 10, forces
  the quota to be at least 1.)\<close>

lemma throttle_slow_rate_starves:
  assumes "th_rep t as" and "0 < rate" and "rate < 1"
  shows "\<exists>t' t''. wombatThrottle_setRate rate t = Some t' \<and>
     ticks k t' = Some (t'', replicate k []) \<and> th_rep t'' as"
proof -
  have "\<lfloor>rate\<rfloor> = 0" using assms(2,3) by (simp add: floor_eq_iff)
  then have "\<exists>t'. wombatThrottle_setRate rate t = Some t' \<and> th_rep t' as \<and> mRate t' \<noteq> 0 \<and> mMessagesPerInterval t' = 0"
    using assms by (simp add: wombatThrottle_setRate_def double_to_int_def th_rep_def)
  then obtain t' where t': "wombatThrottle_setRate rate t = Some t'" "th_rep t' as" "mRate t' \<noteq> 0"
    "mMessagesPerInterval t' = 0" by blast
  from ticks_run [OF t'(2,3), of k] t'(4) obtain t'' mss where
    k: "ticks k t' = Some (t'', mss)" "th_rep t'' as" "\<forall>ms \<in> set mss. ms = []" by auto
  have "mss = replicate k []"
    using k(3) ticks_length [OF k(1)] by (auto intro: replicate_eqI)
  with k t'(1) show ?thesis by blast
qed

text \<open>Dispatching an action with a positive rate executes nothing, puts the action at the end of
  the queue (at its front when it is immediate), returns its node as the handle and leaves the timer
  running if it can be created; with rate 0 the action is executed at once, before every queued one.\<close>

lemma throttle_dispatch:
  assumes "th_rep t as" and "a \<notin> fst ` set as" and "length as + 1 < 2 ^ 64"
  shows "if 0 < mRate t
     then \<exists>t' e. wombatThrottle_dispatch (Some a) True m immediate t = Some (t', Elem e, [], MAMA_STATUS_OK) \<and>
            th_rep t' (if immediate then (e, m) # as else as @ [(e, m)]) \<and> mTimer t' \<noteq> None
     else wombatThrottle_dispatch (Some a) True m immediate t = Some (t, Null, [m], MAMA_STATUS_OK)"
proof (cases "0 < mRate t")
  case True
  then have "\<exists>t' e. wombatThrottle_dispatch (Some a) True m immediate t = Some (t', Elem e, [], MAMA_STATUS_OK) \<and>
            th_rep t' (if immediate then (e, m) # as else as @ [(e, m)]) \<and> mTimer t' \<noteq> None"
    using dispatch_run [OF assms True, where timerOk = True and m = m and immediate = immediate]
    by (cases "mTimer t") fastforce+
  with True show ?thesis by simp
next
  case False
  then show ?thesis by (simp add: wombatThrottle_dispatch_def)
qed

text \<open>Cancellation: removing the messages of an owner removes exactly the actions of that owner and
  counts them; removing one action through its handle removes exactly it, and has no effect when the
  action was executed before and its node is on the free list.\<close>

lemma throttle_cancel:
  assumes "q_rep (mMsgQueue t) as fs" and "length as < 2 ^ 64" and "a \<in> fst ` set as \<union> set fs"
  shows "(\<exists>t'. wombatThrottle_removeMessagesForOwner owner (Some t)
        = Some (Some t', length (filter (\<lambda>(a, m). mOwner m = owner) as), MAMA_STATUS_OK) \<and>
      th_rep t' (filter (\<lambda>(a, m). mOwner m \<noteq> owner) as)) \<and>
    (\<exists>t'. wombatThrottle_removeAction (Elem a) t = Some (t', MAMA_STATUS_OK) \<and>
      th_rep t' (filter (\<lambda>p. fst p \<noteq> a) as))"
proof
  have "length (filter P as) < 2 ^ 64" for P using assms(2) le_less_trans length_filter_le by blast
  note len = this
  show "\<exists>t'. wombatThrottle_removeMessagesForOwner owner (Some t)
        = Some (Some t', length (filter (\<lambda>(a, m). mOwner m = owner) as), MAMA_STATUS_OK) \<and>
      th_rep t' (filter (\<lambda>(a, m). mOwner m \<noteq> owner) as)"
    using removeMessagesForOwner_run [OF assms(1), of owner] len
    by (auto simp: wombatThrottle_removeMessagesForOwner_def th_rep_def)
  show "\<exists>t'. wombatThrottle_removeAction (Elem a) t = Some (t', MAMA_STATUS_OK) \<and>
      th_rep t' (filter (\<lambda>p. fst p \<noteq> a) as)"
  proof (rule cancel_one [OF assms(1,3)])
    fix q' fs'
    assume "cancel (Elem a) (mMsgQueue t) = Some q'" and "q_rep q' (filter (\<lambda>p. fst p \<noteq> a) as) fs'"
    with len show ?thesis
      by (auto simp: wombatThrottle_removeAction_def cancel_def th_rep_def bind_eq_Some_conv
          intro!: exI [of _ "t\<lparr>mMsgQueue := q'\<rparr>"])
  qed
qed

end
