(* ===== verification/MamaMsg.thy ===== *)
theory MamaMsg
  imports Mama_Prelude
begin

text \<open>
  Messages as the subscription machinery sees them: the types and statuses of
  \<open>mama/msgtype.h\<close> and \<open>mama/msgstatus.h\<close>, and the fields that are read from a message, each
  optional because the payload may not contain it. How a payload is encoded is the business of the
  payload bridges and is not modelled. Integers of the wire that are no member of an enumeration are
  kept by the \<open>OTHER\<close> constructors.
\<close>

datatype mamaMsgType =
    MAMA_MSG_TYPE_UPDATE | MAMA_MSG_TYPE_INITIAL | MAMA_MSG_TYPE_CANCEL | MAMA_MSG_TYPE_ERROR
  | MAMA_MSG_TYPE_CORRECTION | MAMA_MSG_TYPE_CLOSING | MAMA_MSG_TYPE_RECAP | MAMA_MSG_TYPE_DELETE
  | MAMA_MSG_TYPE_EXPIRE | MAMA_MSG_TYPE_SNAPSHOT | MAMA_MSG_TYPE_PREOPENING | MAMA_MSG_TYPE_QUOTE
  | MAMA_MSG_TYPE_TRADE | MAMA_MSG_TYPE_ORDER | MAMA_MSG_TYPE_BOOK_INITIAL
  | MAMA_MSG_TYPE_BOOK_UPDATE | MAMA_MSG_TYPE_BOOK_CLEAR | MAMA_MSG_TYPE_BOOK_RECAP
  | MAMA_MSG_TYPE_BOOK_SNAPSHOT | MAMA_MSG_TYPE_NOT_PERMISSIONED | MAMA_MSG_TYPE_NOT_FOUND
  | MAMA_MSG_TYPE_END_OF_INITIALS | MAMA_MSG_TYPE_WOMBAT_REQUEST | MAMA_MSG_TYPE_WOMBAT_CALC
  | MAMA_MSG_TYPE_SEC_STATUS | MAMA_MSG_TYPE_DDICT_SNAPSHOT | MAMA_MSG_TYPE_MISC
  | MAMA_MSG_TYPE_TIBRV | MAMA_MSG_TYPE_FEATURE_SET | MAMA_MSG_TYPE_SYNC_REQUEST
  | MAMA_MSG_TYPE_REFRESH | MAMA_MSG_TYPE_WORLD_VIEW | MAMA_MSG_TYPE_NEWS_QUERY
  | MAMA_MSG_TYPE_NULL | MAMA_MSG_TYPE_ENTITLEMENTS_REFRESH | MAMA_MSG_TYPE_UNKNOWN
  | MAMA_MSG_TYPE_OTHER int

datatype mamaMsgStatus =
    MAMA_MSG_STATUS_OK | MAMA_MSG_STATUS_LINE_DOWN | MAMA_MSG_STATUS_NO_SUBSCRIBERS
  | MAMA_MSG_STATUS_BAD_SYMBOL | MAMA_MSG_STATUS_EXPIRED | MAMA_MSG_STATUS_TIMEOUT
  | MAMA_MSG_STATUS_MISC | MAMA_MSG_STATUS_STALE | MAMA_MSG_STATUS_PLATFORM_STATUS
  | MAMA_MSG_STATUS_NOT_ENTITLED | MAMA_MSG_STATUS_NOT_FOUND | MAMA_MSG_STATUS_POSSIBLY_STALE
  | MAMA_MSG_STATUS_NOT_PERMISSIONED | MAMA_MSG_STATUS_TOPIC_CHANGE
  | MAMA_MSG_STATUS_BANDWIDTH_EXCEEDED | MAMA_MSG_STATUS_DUPLICATE | MAMA_MSG_STATUS_UNKNOWN
  | MAMA_MSG_STATUS_OTHER int

datatype mamaQuality =
    MAMA_QUALITY_OK | MAMA_QUALITY_MAYBE_STALE | MAMA_QUALITY_STALE | MAMA_QUALITY_PARTIAL_STALE
  | MAMA_QUALITY_FORCED_STALE | MAMA_QUALITY_DUPLICATE | MAMA_QUALITY_UNKNOWN

text \<open>The fields of a message are named after the reserved fields; \<open>mStatus\<close> and
  \<open>mDqStrategyContext\<close> (whether the message was put into the cache of a data quality context)
  are members of the message structure itself, and \<open>mMsgId\<close> is its identity.\<close>

record mamaMsg =
  mMsgId :: nat
  fMsgType :: "mamaMsgType option"
  fMsgStatus :: "mamaMsgStatus option"
  fSeqNum :: "u64 option"
  fSenderId :: "u64 option"
  fConflateCount :: "u16 option"
  fMsgTotal :: "i32 option"
  fMsgNum :: "i32 option"
  mStatus :: mamaMsgStatus
  mDqStrategyContext :: bool

text \<open>The 64-bit field is converted to the 32-bit \<open>mama_seqnum_t\<close>; 0 when there is none.\<close>

definition mamaMsg_getSeqNum :: "mamaMsg \<Rightarrow> u32" where
  "mamaMsg_getSeqNum msg = (case fSeqNum msg of None \<Rightarrow> 0 | Some n \<Rightarrow> ucast n)"

definition mamaMsgType_typeForMsg :: "mamaMsg \<Rightarrow> mamaMsgType" where
  "mamaMsgType_typeForMsg msg = (case fMsgType msg of None \<Rightarrow> MAMA_MSG_TYPE_UNKNOWN | Some t \<Rightarrow> t)"

definition mamaMsgImpl_getStatusFromMsg :: "mamaMsg \<Rightarrow> mamaMsg \<times> mamaMsgStatus" where
  "mamaMsgImpl_getStatusFromMsg msg =
    (let result = (case fMsgStatus msg of None \<Rightarrow> MAMA_MSG_STATUS_UNKNOWN | Some s \<Rightarrow> s)
     in (msg\<lparr>mStatus := result\<rparr>, result))"

definition mamaMsgStatus_statusForMsg :: "mamaMsg \<Rightarrow> mamaMsgStatus" where
  "mamaMsgStatus_statusForMsg msg = mStatus msg"

definition msgUtils_setStatus :: "mamaMsgStatus \<Rightarrow> mamaMsg \<Rightarrow> mamaMsg" where
  "msgUtils_setStatus status msg = msg\<lparr>mStatus := status\<rparr>"

lemma getSeqNum_setStatus [simp]: "mamaMsg_getSeqNum (msgUtils_setStatus s m) = mamaMsg_getSeqNum m"
  by (simp add: mamaMsg_getSeqNum_def msgUtils_setStatus_def)

lemma getSeqNum_context [simp]:
  "mamaMsg_getSeqNum (m\<lparr>mDqStrategyContext := b\<rparr>) = mamaMsg_getSeqNum m"
  by (simp add: mamaMsg_getSeqNum_def)

end
