(* ===== verification/DqCache.thy ===== *)
theory DqCache
  imports MamaMsg "HOL-Library.Sublist"
begin

text \<open>
  The data quality context of \<open>dqstrategy.c\<close> and its message cache: an array used as a ring, in
  which updates are kept while an initial value or a recap is awaited, and from which a gap is
  filled later. \<open>mCache\<close> is \<open>None\<close> for a \<open>NULL\<close> array. Operations return \<open>None\<close> when they
  index the array outside its bounds, and the messages they destroy or forward to the
  subscription's \<open>onMsg\<close> callback, in order; the callback is assumed not to detach a cached message
  while the cache is being read.
\<close>

datatype dqState =
    DQ_STATE_NOT_ESTABLISHED | DQ_STATE_OK | DQ_STATE_WAITING_FOR_RECAP | DQ_STATE_POSSIBLY_STALE
  | DQ_STATE_DUPLICATE | DQ_STATE_STALE_NO_RECAP | DQ_STATE_WAITING_FOR_RECAP_AFTER_FT

record mamaDqContext =
  mSeqNum :: u32
  mDQState :: dqState
  mCache :: "mamaMsg option list option"
  mCurCacheIdx :: nat
  mCacheSize :: nat
  mRecapRequest :: "nat option"
  mSenderId :: u64
  mDoNotForward :: bool
  mSetCacheMsgStale :: bool

subsection \<open>Operations\<close>

fun clear_loop :: "nat \<Rightarrow> mamaMsg option list \<Rightarrow> (mamaMsg option list \<times> mamaMsg list) option" where
  "clear_loop 0 c = Some (c, [])"
| "clear_loop (Suc i) c =
    do { (c, d) \<leftarrow> clear_loop i c;
         if i < length c then
           (case c ! i of None \<Rightarrow> Some (c, d) | Some m \<Rightarrow> Some (c[i := None], d @ [m]))
         else None }"

definition dqContext_clearCache :: "bool \<Rightarrow> mamaDqContext \<Rightarrow> (mamaDqContext \<times> mamaMsg list) option" where
  "dqContext_clearCache freeArray ctx =
    (case mCache ctx of
       None \<Rightarrow> Some (ctx, [])
     | Some c \<Rightarrow>
         do { (c, destroyed) \<leftarrow> clear_loop (mCacheSize ctx) c;
              Some (ctx\<lparr>mCache := (if freeArray then None else Some c), mCurCacheIdx := 0\<rparr>, destroyed) })"

text \<open>\<open>mem\<close> says whether the allocation of the array succeeds; its failure is not noticed and leaves the context without a cache.\<close>

definition dqContext_initializeContext :: "bool \<Rightarrow> int \<Rightarrow> nat option \<Rightarrow> mamaDqContext \<Rightarrow> mamaDqContext" where
  "dqContext_initializeContext mem cacheSize recap ctx =
    (let ctx = ctx\<lparr>mDQState := DQ_STATE_NOT_ESTABLISHED, mSeqNum := 0, mCurCacheIdx := 0, mSenderId := 0,
                   mRecapRequest := recap, mSetCacheMsgStale := False\<rparr>
     in if cacheSize > 0 then
          (case mCache ctx of
             None \<Rightarrow> ctx\<lparr>mCache := (if mem then Some (replicate (nat cacheSize) None) else None), mCacheSize := nat cacheSize\<rparr>
           | Some _ \<Rightarrow> ctx)
        else ctx\<lparr>mCache := None\<rparr>)"

text \<open>The result names the image request that is destroyed.\<close>

definition dqContext_cleanup ::
  "mamaDqContext \<Rightarrow> (mamaDqContext \<times> mamaMsg list \<times> nat option) option" where
  "dqContext_cleanup ctx =
    do { (ctx, destroyed) \<leftarrow> dqContext_clearCache True ctx;
         Some (ctx\<lparr>mRecapRequest := None\<rparr>, destroyed, mRecapRequest ctx) }"

text \<open>The loop of \<open>dqContext_applyPreInitialCache\<close>, with the sequence number of the context, the next
  expected one and the forwarded messages.\<close>

function apply_loop ::
  "mamaMsg option list \<Rightarrow> nat \<Rightarrow> nat \<Rightarrow> u32 \<Rightarrow> u32 \<Rightarrow> mamaMsg list \<Rightarrow> (u32 \<times> mamaMsg list) option" where
  "apply_loop c i idx seq expected fwd =
    (if i < idx then
       (if length c \<le> i then None
        else
          (case c ! i of
             None \<Rightarrow> Some (seq, fwd)
           | Some m \<Rightarrow>
               let cached = mamaMsg_getSeqNum m
               in if expected = cached then apply_loop c (i + 1) idx cached (cached + 1) (fwd @ [m])
                  else if cached > expected then Some (seq, fwd)
                  else apply_loop c (i + 1) idx seq expected fwd))
     else Some (seq, fwd))"
  by pat_completeness auto
termination
  by (relation "measure (\<lambda>(c, i, idx, seq, expected, fwd). idx - i)") auto

definition dqContext_applyPreInitialCache :: "mamaDqContext \<Rightarrow> (mamaDqContext \<times> mamaMsg list) option" where
  "dqContext_applyPreInitialCache ctx =
    (case mCache ctx of
       None \<Rightarrow> Some (ctx, [])
     | Some c \<Rightarrow>
         do { (seq, fwd) \<leftarrow> apply_loop c 0 (mCurCacheIdx ctx) (mSeqNum ctx) (mSeqNum ctx + 1) [];
              Some (ctx\<lparr>mSeqNum := seq\<rparr>, fwd) })"

text \<open>The do-while loop of \<open>dqContext_fillGap\<close>.\<close>

partial_function (option) fill_loop ::
  "nat \<Rightarrow> nat \<Rightarrow> bool \<Rightarrow> u32 \<Rightarrow> mamaMsg option list \<Rightarrow> nat \<Rightarrow> u32 \<Rightarrow> mamaMsg list \<Rightarrow>
    (bool \<times> mamaMsg option list \<times> mamaMsg list) option" where
  "fill_loop n idx stale e c cur nxt fwd =
    (if length c \<le> cur then None
     else
       (case c ! cur of
          None \<Rightarrow> Some (False, c, fwd)
        | Some m \<Rightarrow>
            let hit = (mamaMsg_getSeqNum m = nxt);
                m = (if hit \<and> stale then msgUtils_setStatus MAMA_MSG_STATUS_STALE m else m);
                c = c[cur := Some m];
                fwd = (if hit then fwd @ [m] else fwd);
                nxt = (if hit then nxt + 1 else nxt)
            in if hit \<and> nxt = e then Some (True, c, fwd)
               else
                 let cur = (if cur + 1 = n then 0 else cur + 1)
                 in if cur = idx then Some (False, c, fwd)
                    else fill_loop n idx stale e c cur nxt fwd))"

definition dqContext_fillGap :: "u32 \<Rightarrow> mamaDqContext \<Rightarrow> (bool \<times> mamaDqContext \<times> mamaMsg list) option" where
  "dqContext_fillGap e ctx =
    (case mCache ctx of
       None \<Rightarrow> Some (False, ctx\<lparr>mSetCacheMsgStale := False\<rparr>, [])
     | Some c \<Rightarrow>
         if length c \<le> mCurCacheIdx ctx then None
         else
           do { let cur = (if c ! mCurCacheIdx ctx = None then 0 else mCurCacheIdx ctx);
                (r, c, fwd) \<leftarrow>
                  fill_loop (mCacheSize ctx) (mCurCacheIdx ctx) (mSetCacheMsgStale ctx) e c cur (mSeqNum ctx + 1) [];
                let ctx = ctx\<lparr>mCache := Some c\<rparr>;
                Some (r, if r then ctx else ctx\<lparr>mSetCacheMsgStale := False\<rparr>, fwd) })"

fun detach_loop :: "u32 \<Rightarrow> nat \<Rightarrow> mamaMsg option list \<Rightarrow> mamaMsg option list option" where
  "detach_loop seq 0 c = Some c"
| "detach_loop seq (Suc n) [] = None"
| "detach_loop seq (Suc n) (x # c) =
    (if x \<noteq> None \<and> mamaMsg_getSeqNum (the x) = seq then Some (None # c)
     else do { c \<leftarrow> detach_loop seq n c; Some (x # c) })"

definition dqStrategyImpl_detachMsg :: "mamaMsg \<Rightarrow> mamaDqContext \<Rightarrow> mamaDqContext option" where
  "dqStrategyImpl_detachMsg msg ctx =
    (case mCache ctx of
       None \<Rightarrow> Some ctx
     | Some c \<Rightarrow>
         do { c \<leftarrow> detach_loop (mamaMsg_getSeqNum msg) (mCacheSize ctx) c;
              Some (ctx\<lparr>mCache := Some c\<rparr>) })"

text \<open>Detaching a message that is already in a cache removes it from there; \<open>detachOk\<close> says whether
  the earlier steps of \<open>mamaMsg_detach\<close>, which depend on the queue and the bridge, succeed. The
  status of the detaching is ignored.\<close>

definition dqContext_cacheMsg ::
  "bool \<Rightarrow> mamaMsg \<Rightarrow> mamaDqContext \<Rightarrow> (mamaDqContext \<times> mamaMsg list) option" where
  "dqContext_cacheMsg detachOk msg ctx =
    (case mCache ctx of
       None \<Rightarrow> Some (ctx, [])
     | Some c0 \<Rightarrow>
         if length c0 \<le> mCurCacheIdx ctx then None
         else
           do { let destroyed = (case c0 ! mCurCacheIdx ctx of None \<Rightarrow> [] | Some m \<Rightarrow> [m]);
                ctx \<leftarrow> (if detachOk \<and> mDqStrategyContext msg then dqStrategyImpl_detachMsg msg ctx else Some ctx);
                c \<leftarrow> mCache ctx;
                let c = c[mCurCacheIdx ctx := Some (msg\<lparr>mDqStrategyContext := True\<rparr>)];
                let i = mCurCacheIdx ctx + 1;
                Some (ctx\<lparr>mCache := Some c, mCurCacheIdx := (if i = mCacheSize ctx then 0 else i)\<rparr>, destroyed) })"

subsection \<open>The cache as a bounded queue\<close>

text \<open>The ring of \<open>n\<close> slots with write position \<open>idx\<close> holds the messages \<open>ms\<close>, oldest first.\<close>

definition ring :: "nat \<Rightarrow> nat \<Rightarrow> mamaMsg option list \<Rightarrow> mamaMsg list \<Rightarrow> bool" where
  "ring n idx c ms \<longleftrightarrow> length c = n \<and> idx < n \<and>
     (if length ms < n then idx = length ms \<and> c = map Some ms @ replicate (n - length ms) None
      else length ms = n \<and> drop idx c @ take idx c = map Some ms)"

definition dq_ring :: "mamaDqContext \<Rightarrow> mamaMsg list \<Rightarrow> bool" where
  "dq_ring ctx ms \<longleftrightarrow> (\<exists>c. mCache ctx = Some c \<and> ring (mCacheSize ctx) (mCurCacheIdx ctx) c ms)"

text \<open>The abstract cache keeps the newest \<open>n\<close> messages.\<close>

definition keep_newest :: "nat \<Rightarrow> mamaMsg list \<Rightarrow> mamaMsg list" where
  "keep_newest n ms = drop (length ms - n) ms"

lemma ring_initial: "0 < n \<Longrightarrow> ring n 0 (replicate n None) []"
  by (simp add: ring_def)

lemma ring_slot:
  assumes "ring n idx c ms"
  shows "c ! idx = (if length ms < n then None else Some (hd ms))"
proof (cases "length ms < n")
  case True
  with assms show ?thesis by (auto simp: ring_def nth_append)
next
  case False
  with assms have "drop idx c @ take idx c = map Some ms" "idx < length c" by (auto simp: ring_def)
  then have "hd (drop idx c @ take idx c) = Some (hd ms)" by (cases ms) auto
  with False \<open>idx < length c\<close> show ?thesis by (simp add: hd_drop_conv_nth hd_append)
qed

lemma ring_put:
  assumes "ring n idx c ms"
  shows "ring n (if idx + 1 = n then 0 else idx + 1) (c[idx := Some m])
     (if length ms < n then ms @ [m] else tl ms @ [m])"
proof (cases "length ms < n")
  case True
  then have c: "c = map Some ms @ replicate (n - length ms) None" "idx = length ms" "length c = n"
    using assms by (auto simp: ring_def)
  from True obtain k where k: "n - length ms = Suc k" by (metis Suc_diff_Suc)
  have "c[idx := Some m] = map Some (ms @ [m]) @ replicate k None"
    unfolding c(1,2) k by (simp add: list_update_append)
  with True k c(3) show ?thesis by (auto simp: ring_def c(2))
next
  case False
  then have c: "length c = n" "idx < n" "length ms = n" "drop idx c @ take idx c = map Some ms"
    using assms by (auto simp: ring_def)
  have d: "drop idx c = c ! idx # drop (Suc idx) c" using c(1,2) by (simp add: Cons_nth_drop_Suc)
  with c(4) have tl: "map Some (tl ms) = drop (Suc idx) c @ take idx c" by (cases ms) auto
  have t: "take (Suc idx) (c[idx := Some m]) = take idx c @ [Some m]"
    using c(1,2) by (simp add: take_Suc_conv_app_nth)
  show ?thesis
  proof (cases "Suc idx = n")
    case True
    with c t tl have "c[idx := Some m] = map Some (tl ms @ [m])" by simp
    with True c show ?thesis by (simp add: ring_def)
  next
    case False
    with c t tl show ?thesis by (simp add: ring_def drop_update_cancel)
  qed
qed

lemma ring_full_len: "ring n idx c ms \<Longrightarrow> length ms \<le> n \<and> 0 < n"
  by (auto simp: ring_def split: if_splits)

lemma keep_newest_snoc:
  "length ms \<le> n \<Longrightarrow> 0 < n \<Longrightarrow>
     keep_newest n (ms @ [m]) = (if length ms < n then ms @ [m] else tl ms @ [m])"
  by (cases ms) (auto simp: keep_newest_def)

lemma cacheMsg_run:
  assumes "dq_ring ctx ms" and "\<not> mDqStrategyContext m"
  shows "\<exists>ctx'. dqContext_cacheMsg ok m ctx
      = Some (ctx', if length ms < mCacheSize ctx then [] else [hd ms]) \<and>
     dq_ring ctx' (keep_newest (mCacheSize ctx) (ms @ [m\<lparr>mDqStrategyContext := True\<rparr>])) \<and>
     mCacheSize ctx' = mCacheSize ctx"
proof -
  obtain c where c: "mCache ctx = Some c" and r: "ring (mCacheSize ctx) (mCurCacheIdx ctx) c ms"
    using assms(1) by (auto simp: dq_ring_def)
  have "mCurCacheIdx ctx < length c" using r by (auto simp: ring_def)
  then show ?thesis
    using c assms(2) ring_slot [OF r] ring_put [OF r, of "m\<lparr>mDqStrategyContext := True\<rparr>"]
      ring_full_len [OF r]
    by (auto simp: dqContext_cacheMsg_def dq_ring_def keep_newest_snoc Let_def)
qed

subsection \<open>Filling a gap\<close>

text \<open>Reference: go through the cached messages in the order of their arrival and deliver each one that
  has the next missing number, until the number \<open>e\<close> is reached.\<close>

definition mark :: "bool \<Rightarrow> mamaMsg \<Rightarrow> mamaMsg" where
  "mark stale m = (if stale then msgUtils_setStatus MAMA_MSG_STATUS_STALE m else m)"

fun fill_seq :: "bool \<Rightarrow> u32 \<Rightarrow> u32 \<Rightarrow> mamaMsg list \<Rightarrow> bool \<times> mamaMsg list" where
  "fill_seq stale e nxt [] = (False, [])"
| "fill_seq stale e nxt (m # ms) =
    (if mamaMsg_getSeqNum m = nxt then
       (if nxt + 1 = e then (True, [mark stale m])
        else (case fill_seq stale e (nxt + 1) ms of (r, fwd) \<Rightarrow> (r, mark stale m # fwd)))
     else fill_seq stale e nxt ms)"

lemma mod_succ_pos: "(cur::nat) < n \<Longrightarrow> (if cur + 1 = n then 0 else cur + 1) = (cur + 1) mod n"
  by auto

lemma mod_shift_neq:
  fixes s j k n :: nat
  assumes "j < k" and "k - j < n"
  shows "(s + j) mod n \<noteq> (s + k) mod n"
proof
  assume "(s + j) mod n = (s + k) mod n"
  then have "n dvd (s + k) - (s + j)" using assms(1) by (metis mod_eq_dvd_iff_nat add_le_mono le_refl less_imp_le)
  then have "n dvd k - j" by simp
  with assms show False by (auto dest: dvd_imp_le)
qed

lemma fill_loop_run:
  assumes "length c = n" and "0 < n" and "length ms \<le> n" and "idx = (s + length ms) mod n"
    and "j < length ms" and "\<forall>k. j \<le> k \<and> k < length ms \<longrightarrow> c ! ((s + k) mod n) = Some (ms ! k)"
  shows "\<exists>c'. fill_loop n idx stale e c ((s + j) mod n) nxt fwd
      = Some (fst (fill_seq stale e nxt (drop j ms)), c', fwd @ snd (fill_seq stale e nxt (drop j ms))) \<and>
     length c' = n"
  using assms
proof (induction "length ms - j" arbitrary: j c nxt fwd)
  case 0
  then show ?case by simp
next
  case (Suc d)
  let ?cur = "(s + j) mod n"
  have cur: "?cur < n" using Suc.prems(2) by simp
  have m: "c ! ?cur = Some (ms ! j)" and dr: "drop j ms = ms ! j # drop (Suc j) ms"
    using Suc.prems(5,6) by (auto simp: Cons_nth_drop_Suc)
  have succ: "(if ?cur + 1 = n then 0 else ?cur + 1) = (s + Suc j) mod n"
    using mod_succ_pos [OF cur] by (simp add: mod_Suc_eq)
  let ?hit = "mamaMsg_getSeqNum (ms ! j) = nxt"
  let ?m = "if ?hit \<and> stale then msgUtils_setStatus MAMA_MSG_STATUS_STALE (ms ! j) else ms ! j"
  let ?c = "c[?cur := Some ?m]" and ?nxt = "if ?hit then nxt + 1 else nxt"
    and ?fwd = "if ?hit then fwd @ [?m] else fwd"
  have unf: "fill_loop n idx stale e c ?cur nxt fwd =
     (if ?hit \<and> ?nxt = e then Some (True, ?c, ?fwd)
      else if (s + Suc j) mod n = idx then Some (False, ?c, ?fwd)
      else fill_loop n idx stale e ?c ((s + Suc j) mod n) ?nxt ?fwd)"
    using cur Suc.prems(1) m succ by (subst fill_loop.simps) (simp add: Let_def)
  show ?case
  proof (cases "Suc j = length ms")
    case True
    then show ?thesis
      using Suc.prems(1,4) unfolding unf dr by (auto simp: mark_def)
  next
    case False
    with Suc.prems(5) have j: "Suc j < length ms" by simp
    then have "(s + Suc j) mod n \<noteq> idx"
      using mod_shift_neq [of "Suc j" "length ms" n s] Suc.prems(3,4) by simp
    moreover have "\<forall>k. Suc j \<le> k \<and> k < length ms \<longrightarrow> ?c ! ((s + k) mod n) = Some (ms ! k)"
    proof (intro allI impI)
      fix k
      assume k: "Suc j \<le> k \<and> k < length ms"
      then have "(s + j) mod n \<noteq> (s + k) mod n"
        using Suc.prems(3) by (intro mod_shift_neq) auto
      with k show "?c ! ((s + k) mod n) = Some (ms ! k)" using Suc.prems(6) by simp
    qed
    ultimately show ?thesis
      using Suc.hyps(1) [of "Suc j" ?c ?nxt ?fwd] Suc.hyps(2) Suc.prems(1-4) j
      unfolding unf dr by (auto simp: mark_def split: prod.splits)
  qed
qed

lemma ring_nth:
  assumes "ring n idx c ms" and "k < length ms"
  shows "c ! (((if length ms < n then 0 else idx) + k) mod n) = Some (ms ! k)"
proof (cases "length ms < n")
  case True
  with assms show ?thesis by (auto simp: ring_def nth_append)
next
  case False
  with assms have c: "length c = n" "idx < n" "length ms = n" "drop idx c @ take idx c = map Some ms"
    by (auto simp: ring_def)
  then have "(drop idx c @ take idx c) ! k = Some (ms ! k)" using assms(2) by simp
  moreover have "(drop idx c @ take idx c) ! k = c ! ((idx + k) mod n)"
  proof (cases "idx + k < n")
    case True
    with c(1) show ?thesis by (auto simp: nth_append)
  next
    case False
    with c assms(2) have "(idx + k) mod n = idx + k - n" by (simp add: le_mod_geq)
    with False c(1,2,3) assms(2) show ?thesis by (auto simp: nth_append add.commute)
  qed
  ultimately show ?thesis using False by simp
qed

lemma fillGap_run:
  assumes "dq_ring ctx ms"
  shows "\<exists>ctx'. dqContext_fillGap e ctx
      = Some (fst (fill_seq (mSetCacheMsgStale ctx) e (mSeqNum ctx + 1) ms), ctx',
              snd (fill_seq (mSetCacheMsgStale ctx) e (mSeqNum ctx + 1) ms)) \<and>
     (\<exists>c' b. ctx' = ctx\<lparr>mCache := Some c', mSetCacheMsgStale := b\<rparr> \<and> length c' = mCacheSize ctx)"
proof -
  let ?n = "mCacheSize ctx" and ?idx = "mCurCacheIdx ctx"
  obtain c where c: "mCache ctx = Some c" and r: "ring ?n ?idx c ms"
    using assms by (auto simp: dq_ring_def)
  let ?s = "if length ms < ?n then 0 else ?idx"
  have n: "length c = ?n" "0 < ?n" "length ms \<le> ?n" "?idx < ?n" "?idx = (?s + length ms) mod ?n"
    using r ring_full_len [OF r] by (auto simp: ring_def split: if_splits)
  have start: "(if c ! ?idx = None then 0 else ?idx) = ?s" using ring_slot [OF r] by auto
  have upd: "\<exists>c' b. ctx\<lparr>mCache := Some d\<rparr> = ctx\<lparr>mCache := Some c', mSetCacheMsgStale := b\<rparr> \<and> length c' = ?n"
    if "length d = ?n" for d
    using that by (intro exI [of _ d] exI [of _ "mSetCacheMsgStale ctx"]) simp
  show ?thesis
  proof (cases "ms = []")
    case True
    with r have "c ! 0 = None" by (simp add: ring_def)
    then have "fill_loop ?n ?idx (mSetCacheMsgStale ctx) e c 0 (mSeqNum ctx + 1) [] = Some (False, c, [])"
      using n by (subst fill_loop.simps) simp
    with True start n c show ?thesis by (auto simp: dqContext_fillGap_def)
  next
    case False
    then have "?s = (?s + 0) mod ?n" using n by simp
    then obtain c' where "fill_loop ?n ?idx (mSetCacheMsgStale ctx) e c ?s (mSeqNum ctx + 1) []
      = Some (fst (fill_seq (mSetCacheMsgStale ctx) e (mSeqNum ctx + 1) ms), c',
              snd (fill_seq (mSetCacheMsgStale ctx) e (mSeqNum ctx + 1) ms)) \<and> length c' = ?n"
      using fill_loop_run [of c ?n ms ?idx ?s 0 "mSetCacheMsgStale ctx" e "mSeqNum ctx + 1" "[]"]
        n ring_nth [OF r] False by auto
    then show ?thesis
      using start n c upd [of c'] by (auto simp: dqContext_fillGap_def Let_def)
  qed
qed

text \<open>What the reference delivers: consecutive sequence numbers, and all of the gap if it can.\<close>

fun seq_from :: "u32 \<Rightarrow> nat \<Rightarrow> u32 list" where
  "seq_from s 0 = []"
| "seq_from s (Suc k) = s # seq_from (s + 1) k"

lemma mark_seq [simp]: "mamaMsg_getSeqNum (mark b m) = mamaMsg_getSeqNum m"
  by (simp add: mark_def)

lemma fill_seq_consecutive:
  "fill_seq stale e nxt ms = (r, fwd) \<Longrightarrow>
     map mamaMsg_getSeqNum fwd = seq_from nxt (length fwd) \<and> (r \<longrightarrow> nxt + of_nat (length fwd) = e)"
proof (induction stale e nxt ms arbitrary: fwd rule: fill_seq.induct)
  case (1 stale e nxt)
  then show ?case by simp
next
  case (2 stale e nxt m ms)
  then show ?case by (auto split: if_splits prod.splits simp: algebra_simps)
qed

lemma seq_from_nth: "k < n \<Longrightarrow> seq_from s n ! k = s + of_nat k"
  by (induction n arbitrary: s k) (auto simp: nth_Cons split: nat.splits)

text \<open>Completeness: when the missing messages are among the cached ones, in order, the gap is filled.\<close>

lemma fill_seq_complete:
  assumes "subseq (seq_from nxt (Suc k)) (map mamaMsg_getSeqNum ms)" and "e = nxt + of_nat (Suc k)"
    and "Suc k < 2 ^ 32"
  shows "fst (fill_seq stale e nxt ms)"
  using assms
proof (induction stale e nxt ms arbitrary: k rule: fill_seq.induct)
  case (1 stale e nxt)
  then show ?case by simp
next
  case (2 stale e nxt m ms)
  show ?case
  proof (cases "mamaMsg_getSeqNum m = nxt")
    case hit: True
    then have sub: "subseq (seq_from (nxt + 1) k) (map mamaMsg_getSeqNum ms)" using "2.prems"(1) by simp
    show ?thesis
    proof (cases k)
      case 0
      with hit "2.prems"(2) show ?thesis by simp
    next
      case (Suc k')
      have "of_nat (Suc k) \<noteq> (1 :: u32)"
        using Suc "2.prems"(3) by (simp add: word_unat_eq_iff unat_of_nat del: of_nat_Suc)
      then have "nxt + 1 \<noteq> e" using "2.prems"(2) by (simp del: of_nat_Suc)
      with hit "2.IH"(1) [of k'] sub Suc "2.prems"(2,3) show ?thesis
        by (auto simp: algebra_simps split: prod.splits)
    qed
  next
    case False
    with "2.IH"(2) [of k] "2.prems" show ?thesis by simp
  qed
qed

subsection \<open>Applying the cache after an initial value\<close>

fun apply_seq :: "u32 \<Rightarrow> u32 \<Rightarrow> mamaMsg list \<Rightarrow> u32 \<times> mamaMsg list" where
  "apply_seq seq expected [] = (seq, [])"
| "apply_seq seq expected (m # ms) =
    (if mamaMsg_getSeqNum m = expected then
       (case apply_seq expected (expected + 1) ms of (s, fwd) \<Rightarrow> (s, m # fwd))
     else if mamaMsg_getSeqNum m > expected then (seq, [])
     else apply_seq seq expected ms)"

declare apply_loop.simps [simp del]

lemma apply_loop_run:
  assumes "idx \<le> length c" and "i + length ms = idx" and "\<forall>k < length ms. c ! (i + k) = Some (ms ! k)"
  shows "apply_loop c i idx seq expected fwd
     = Some (fst (apply_seq seq expected ms), fwd @ snd (apply_seq seq expected ms))"
  using assms
proof (induction ms arbitrary: i seq expected fwd)
  case Nil
  then show ?case by (simp add: apply_loop.simps)
next
  case (Cons m ms)
  have "c ! i = Some m" using Cons.prems(3) by force
  moreover have "\<forall>k < length ms. c ! (i + 1 + k) = Some (ms ! k)" using Cons.prems(3) by force
  ultimately show ?case
    using Cons.IH [of "i + 1"] Cons.prems(1,2)
    by (subst apply_loop.simps) (auto split: prod.splits)
qed

text \<open>Only the slots before the write position are read: of a ring that is full these are the newest
  messages only.\<close>

lemma ring_prefix:
  assumes "ring n idx c ms"
  shows "k < idx \<Longrightarrow> c ! k = Some (drop (if length ms < n then 0 else n - idx) ms ! k)"
    and "length (drop (if length ms < n then 0 else n - idx) ms) = idx"
proof -
  show "length (drop (if length ms < n then 0 else n - idx) ms) = idx"
    using assms by (auto simp: ring_def split: if_splits)
  show "c ! k = Some (drop (if length ms < n then 0 else n - idx) ms ! k)" if "k < idx"
  proof (cases "length ms < n")
    case True
    with that assms show ?thesis by (auto simp: ring_def nth_append)
  next
    case False
    then have c: "length c = n" "idx < n" "length ms = n" "drop idx c @ take idx c = map Some ms"
      using assms by (auto simp: ring_def)
    have "map Some (drop (n - idx) ms) = drop (n - idx) (drop idx c @ take idx c)"
      by (simp only: c(4) drop_map)
    also have "\<dots> = take idx c" using c(1,2) by simp
    finally have "map Some (drop (n - idx) ms) ! k = c ! k" using that by simp
    with that c False show ?thesis by simp
  qed
qed

lemma applyPreInitialCache_run:
  assumes "dq_ring ctx ms"
  defines "seen \<equiv> (if length ms < mCacheSize ctx then ms else drop (mCacheSize ctx - mCurCacheIdx ctx) ms)"
  shows "dqContext_applyPreInitialCache ctx =
     Some (ctx\<lparr>mSeqNum := fst (apply_seq (mSeqNum ctx) (mSeqNum ctx + 1) seen)\<rparr>,
           snd (apply_seq (mSeqNum ctx) (mSeqNum ctx + 1) seen))"
proof -
  obtain c where c: "mCache ctx = Some c" and r: "ring (mCacheSize ctx) (mCurCacheIdx ctx) c ms"
    using assms(1) by (auto simp: dq_ring_def)
  have seen: "seen = drop (if length ms < mCacheSize ctx then 0 else mCacheSize ctx - mCurCacheIdx ctx) ms"
    by (simp add: seen_def)
  have "mCurCacheIdx ctx \<le> length c" using r by (auto simp: ring_def)
  with c apply_loop_run [of "mCurCacheIdx ctx" c 0 seen] ring_prefix [OF r, folded seen]
  show ?thesis by (simp add: dqContext_applyPreInitialCache_def case_prod_beta)
qed

subsection \<open>Clearing\<close>

lemma clear_loop_run:
  "n \<le> length c \<Longrightarrow> clear_loop n c
     = Some (replicate n None @ drop n c, map the (filter (\<lambda>x. x \<noteq> None) (take n c)))"
proof (induction n)
  case 0
  then show ?case by simp
next
  case (Suc n)
  then have "drop n c = c ! n # drop (Suc n) c" by (simp add: Cons_nth_drop_Suc)
  moreover have "take (Suc n) c = take n c @ [c ! n]" using Suc.prems by (simp add: take_Suc_conv_app_nth)
  ultimately show ?case
    using Suc by (cases "c ! n")
      (auto simp: nth_append list_update_append replicate_append_same [symmetric])
qed

lemma clearCache_run:
  assumes "mCache ctx = Some c" and "length c = mCacheSize ctx"
  shows "dqContext_clearCache freeArray ctx
      = Some (ctx\<lparr>mCache := (if freeArray then None else Some (replicate (mCacheSize ctx) None)), mCurCacheIdx := 0\<rparr>,
              map the (filter (\<lambda>x. x \<noteq> None) c))"
  using assms clear_loop_run [of "length c" c] by (simp add: dqContext_clearCache_def)

subsection \<open>Properties\<close>

text \<open>Caching a sequence of messages.\<close>

fun cache_all :: "mamaMsg list \<Rightarrow> mamaDqContext \<Rightarrow> (mamaDqContext \<times> mamaMsg list) option" where
  "cache_all [] ctx = Some (ctx, [])"
| "cache_all (m # ms) ctx =
    do { (ctx, d) \<leftarrow> dqContext_cacheMsg True m ctx;
         (ctx, ds) \<leftarrow> cache_all ms ctx;
         Some (ctx, d @ ds) }"

abbreviation cached :: "mamaMsg \<Rightarrow> mamaMsg" where
  "cached m \<equiv> m\<lparr>mDqStrategyContext := True\<rparr>"

lemma keep_newest_keep_newest: "keep_newest n (keep_newest n xs @ ys) = keep_newest n (xs @ ys)"
  by (cases "length xs \<le> n") (simp_all add: keep_newest_def add.commute)

lemma dropped_snoc:
  assumes "length ms \<le> n" and "0 < n"
  shows "(if length ms < n then [] else [hd ms]) @
      take (length (keep_newest n (ms @ [m])) + k - n) (keep_newest n (ms @ [m]) @ xs)
    = take (length ms + Suc k - n) (ms @ m # xs)"
proof (cases "length ms < n")
  case True
  then show ?thesis using assms by (simp add: keep_newest_snoc)
next
  case False
  with assms obtain y ys where ms: "ms = y # ys" "n = Suc (length ys)" by (cases ms) auto
  then have "keep_newest n (ms @ [m]) = ys @ [m]" using keep_newest_snoc [OF assms] by simp
  then show ?thesis using ms by (simp del: take_append)
qed

lemma cache_all_run:
  assumes "dq_ring ctx ms" and "\<forall>m \<in> set xs. \<not> mDqStrategyContext m"
  shows "\<exists>ctx'. cache_all xs ctx
      = Some (ctx', take (length ms + length xs - mCacheSize ctx) (ms @ map cached xs)) \<and>
     dq_ring ctx' (keep_newest (mCacheSize ctx) (ms @ map cached xs)) \<and> mCacheSize ctx' = mCacheSize ctx"
  using assms
proof (induction xs arbitrary: ctx ms)
  case Nil
  then have "length ms \<le> mCacheSize ctx" using ring_full_len by (auto simp: dq_ring_def)
  with Nil show ?case by (simp add: keep_newest_def)
next
  case (Cons x xs)
  let ?n = "mCacheSize ctx"
  have n: "length ms \<le> ?n" "0 < ?n" using Cons.prems(1) ring_full_len by (auto simp: dq_ring_def)
  obtain ctx1 where c1: "dqContext_cacheMsg True x ctx = Some (ctx1, if length ms < ?n then [] else [hd ms])"
    "dq_ring ctx1 (keep_newest ?n (ms @ [cached x]))" "mCacheSize ctx1 = ?n"
    using cacheMsg_run [OF Cons.prems(1), of x True] Cons.prems(2) by auto
  from Cons.IH [OF c1(2)] Cons.prems(2) c1(3) obtain ctx2 where
    c2: "cache_all xs ctx1 = Some (ctx2, take (length (keep_newest ?n (ms @ [cached x])) + length xs - ?n)
        (keep_newest ?n (ms @ [cached x]) @ map cached xs))"
    "dq_ring ctx2 (keep_newest ?n (keep_newest ?n (ms @ [cached x]) @ map cached xs))"
    "mCacheSize ctx2 = ?n" by auto
  have "keep_newest ?n (keep_newest ?n (ms @ [cached x]) @ map cached xs) = keep_newest ?n (ms @ map cached (x # xs))"
    by (simp add: keep_newest_keep_newest)
  moreover have "cache_all (x # xs) ctx = Some (ctx2, take (length ms + length (x # xs) - ?n) (ms @ map cached (x # xs)))"
    using c1(1) c2(1) dropped_snoc [OF n, of "cached x" "length xs" "map cached xs"] by simp
  ultimately show ?case using c2(2,3) by auto
qed

definition ctx0 :: mamaDqContext where
  "ctx0 = \<lparr>mSeqNum = 0, mDQState = DQ_STATE_NOT_ESTABLISHED, mCache = None, mCurCacheIdx = 0, mCacheSize = 0,
     mRecapRequest = None, mSenderId = 0, mDoNotForward = False, mSetCacheMsgStale = False\<rparr>"

definition upd :: "nat \<Rightarrow> mamaMsg" where
  "upd n = \<lparr>mMsgId = n, fMsgType = Some MAMA_MSG_TYPE_UPDATE, fMsgStatus = Some MAMA_MSG_STATUS_OK,
     fSeqNum = Some (of_nat n), fSenderId = Some 7, fConflateCount = None, fMsgTotal = None, fMsgNum = None,
     mStatus = MAMA_MSG_STATUS_OK, mDqStrategyContext = False\<rparr>"

lemma init_ring:
  assumes "0 < n" and "mCache ctx = None"
  shows "dq_ring (dqContext_initializeContext True n recap ctx) []"
  using assms ring_initial [of "nat n"] by (simp add: dqContext_initializeContext_def dq_ring_def Let_def)

text \<open>C16: the message cache is a bounded queue: from a freshly initialised context, whose array was allocated, the cache never
  writes or reads outside its array, holds the newest \<open>mCacheSize\<close> messages in the order of their
  arrival, and destroys exactly the older ones, each once and oldest first.\<close>

theorem dq_cache_keeps_newest:
  assumes "0 < n" and "mCache ctx = None" and "\<forall>m \<in> set ms. \<not> mDqStrategyContext m"
  shows "\<exists>ctx'. cache_all ms (dqContext_initializeContext True n recap ctx)
      = Some (ctx', take (length ms - nat n) (map cached ms)) \<and>
     dq_ring ctx' (drop (length ms - nat n) (map cached ms))"
proof -
  have "mCacheSize (dqContext_initializeContext True n recap ctx) = nat n"
    using assms(1,2) by (simp add: dqContext_initializeContext_def Let_def)
  with cache_all_run [OF init_ring [OF assms(1,2), of recap] assms(3)] show ?thesis
    by (auto simp: keep_newest_def)
qed

theorem dq_cache_keeps_newest_witness:
  "\<exists>ctx'. cache_all [upd 1, upd 2, upd 3, upd 4, upd 5] (dqContext_initializeContext True 3 (Some 1) ctx0)
      = Some (ctx', [cached (upd 1), cached (upd 2)]) \<and>
     dq_ring ctx' [cached (upd 3), cached (upd 4), cached (upd 5)]"
  using dq_cache_keeps_newest [of 3 ctx0 "[upd 1, upd 2, upd 3, upd 4, upd 5]" "Some 1"]
  by (simp add: ctx0_def upd_def)

text \<open>C17: filling a gap from the cache returns, stays inside the array and delivers messages with
  consecutive sequence numbers that start right behind the last one of the context; if it reports
  success these are exactly the missing numbers up to \<open>e\<close>; and it does report success when the
  missing messages are cached in order, wherever the ring starts.\<close>

theorem dq_fill_gap:
  assumes "dq_ring ctx ms"
  shows "\<exists>r ctx' fwd. dqContext_fillGap e ctx = Some (r, ctx', fwd) \<and>
     map mamaMsg_getSeqNum fwd = seq_from (mSeqNum ctx + 1) (length fwd) \<and>
     (r \<longrightarrow> mSeqNum ctx + 1 + of_nat (length fwd) = e) \<and>
     (\<forall>k. e = mSeqNum ctx + 1 + of_nat (Suc k) \<and> Suc k < 2 ^ 32 \<and>
        subseq (seq_from (mSeqNum ctx + 1) (Suc k)) (map mamaMsg_getSeqNum ms) \<longrightarrow> r)"
proof -
  let ?f = "fill_seq (mSetCacheMsgStale ctx) e (mSeqNum ctx + 1) ms"
  obtain ctx' where "dqContext_fillGap e ctx = Some (fst ?f, ctx', snd ?f)"
    using fillGap_run [OF assms] by blast
  moreover have "map mamaMsg_getSeqNum (snd ?f) = seq_from (mSeqNum ctx + 1) (length (snd ?f)) \<and>
      (fst ?f \<longrightarrow> mSeqNum ctx + 1 + of_nat (length (snd ?f)) = e)"
    using fill_seq_consecutive [of "mSetCacheMsgStale ctx" e "mSeqNum ctx + 1" ms "fst ?f" "snd ?f"]
    by simp
  ultimately show ?thesis
    using fill_seq_complete [of "mSeqNum ctx + 1" _ ms e] by blast
qed

text \<open>A full ring of three slots whose oldest message is in the middle, behind sequence number 3.\<close>

definition ctx_demo :: mamaDqContext where
  "ctx_demo = ctx0\<lparr>mSeqNum := 3, mDQState := DQ_STATE_OK, mCurCacheIdx := 1, mCacheSize := 3,
     mCache := Some [Some (upd 5), Some (upd 3), Some (upd 4)]\<rparr>"

lemma ctx_demo_ring: "dq_ring ctx_demo [upd 3, upd 4, upd 5]"
  by (simp add: dq_ring_def ring_def ctx_demo_def)

lemma upd_seq [simp]: "n < 100 \<Longrightarrow> mamaMsg_getSeqNum (upd n) = of_nat n"
  by (simp add: mamaMsg_getSeqNum_def upd_def unsigned_of_nat take_bit_nat_eq_self)

theorem dq_fill_gap_witness:
  "\<exists>ctx' fwd. dqContext_fillGap 6 ctx_demo = Some (True, ctx', fwd) \<and> map mamaMsg_getSeqNum fwd = seq_from 4 (length fwd)"
proof -
  have [simp]: "mSeqNum ctx_demo = 3" by (simp add: ctx_demo_def)
  obtain r ctx' fwd where "dqContext_fillGap 6 ctx_demo = Some (r, ctx', fwd)"
    and "map mamaMsg_getSeqNum fwd = seq_from 4 (length fwd)"
    and "\<forall>k. 6 = (4 :: u32) + of_nat (Suc k) \<and> Suc k < 2 ^ 32 \<and>
       subseq (seq_from 4 (Suc k)) (map mamaMsg_getSeqNum [upd 3, upd 4, upd 5]) \<longrightarrow> r"
    using dq_fill_gap [OF ctx_demo_ring, of 6] by auto
  moreover from this(3) [rule_format, of 1] have "r = True" by simp
  ultimately show ?thesis by auto
qed

text \<open>After an initial value the cache is applied up to the write position only. While the cache is
  not full this is all of it; but when exactly as many messages were cached as it has slots, the
  write position has wrapped to 0 and none of them is delivered, although the loop is commented as
  handling a cache that has looped over.\<close>

lemma dq_apply_cache_wrapped:
  assumes "dq_ring ctx ms"
  shows "(length ms < mCacheSize ctx \<longrightarrow>
       dqContext_applyPreInitialCache ctx =
         (case apply_seq (mSeqNum ctx) (mSeqNum ctx + 1) ms of (s, fwd) \<Rightarrow> Some (ctx\<lparr>mSeqNum := s\<rparr>, fwd))) \<and>
     (length ms = mCacheSize ctx \<and> mCurCacheIdx ctx = 0 \<longrightarrow>
       dqContext_applyPreInitialCache ctx = Some (ctx, []))"
  using applyPreInitialCache_run [OF assms] by (auto split: prod.splits)

end
