(* ===== verification/DqStrategy.thy ===== *)
theory DqStrategy
  imports DqCache
begin

text \<open>
  The data quality strategy of \<open>dqstrategy.c\<close>: every message of a subscription is checked against the
  sequence number and the sender of its context; gaps lead to a recap request and a change of
  quality. The state is the part of the subscription, its transport and the strategy that these
  functions read and write, with one data quality context; user callbacks, requests and statistics
  are recorded in \<open>trace\<close> in the order in which they happen (\<open>SendRecapRequest\<close> says whether the
  request is for one item of a group). The members named \<open>has...\<close> say
  whether a pointer of the code is not \<open>NULL\<close>. A callback is assumed not to destroy the
  subscription. The record is extensible, so that the operations apply to the larger state of the
  message callback as well.
\<close>

subsection \<open>Data\<close>

datatype subscType = MAMA_SUBSC_TYPE_NORMAL | MAMA_SUBSC_TYPE_GROUP | MAMA_SUBSC_TYPE_BOOK
  | MAMA_SUBSC_TYPE_BASIC | MAMA_SUBSC_TYPE_DICTIONARY | MAMA_SUBSC_TYPE_SYMBOL_LIST
  | MAMA_SUBSC_TYPE_SYMBOL_LIST_NORMAL | MAMA_SUBSC_TYPE_SYMBOL_LIST_GROUP
  | MAMA_SUBSC_TYPE_SYMBOL_LIST_BOOK

datatype preInitialScheme = PRE_INITIAL_SCHEME_ON_GAP | PRE_INITIAL_SCHEME_ON_INITIAL
datatype dqStartegyScheme = DQ_SCHEME_DELIVER_ALL | DQ_SCHEME_INGORE_DUPS
datatype dqftStrategyScheme = DQ_FT_DO_NOT_WAIT_FOR_RECAP | DQ_FT_WAIT_FOR_RECAP

datatype stat = MamaStatFtTakeovers | MamaStatNumMessages | MamaStatUnknownMsgs | MamaStatInitials
  | MamaStatRecaps
datatype collector = TransportStats | QueueStats | GlobalStats

datatype sub_event =
    OnQuality mamaQuality
  | OnGap
  | OnRecapRequest
  | OnMsg mamaMsg
  | OnError mama_status
  | SendRecapRequest bool
  | TportQuality
  | IncrementStat collector stat
  | DestroyMsg mamaMsg
  | StopWaitInitial
  | StopWaitRecap
  | Deactivate
  | ResetRefresh

record dqSystem =
  dqCtx :: mamaDqContext
  mTryToFillGap :: bool
  mSubscType :: subscType
  hasOnQuality :: bool
  hasOnGap :: bool
  hasOnRecapRequest :: bool
  mFtStrategyScheme :: dqftStrategyScheme
  mDqStrategyScheme :: dqStartegyScheme
  mPreInitialScheme :: preInitialScheme
  mPreRecapCacheEnabled :: bool
  mQuality :: mamaQuality
  hasTportCb :: bool
  gGenerateTransportStats :: bool
  hasGlobalStats :: bool
  trace :: "sub_event list"

definition emit :: "sub_event list \<Rightarrow> 'a dqSystem_scheme \<Rightarrow> 'a dqSystem_scheme" where
  "emit es s = s\<lparr>trace := trace s @ es\<rparr>"

definition upd_ctx :: "(mamaDqContext \<Rightarrow> mamaDqContext) \<Rightarrow> 'a dqSystem_scheme \<Rightarrow> 'a dqSystem_scheme" where
  "upd_ctx f s = s\<lparr>dqCtx := f (dqCtx s)\<rparr>"

subsection \<open>Operations\<close>

text \<open>\<open>mamaTransportImpl_unsetAllPossiblyStale\<close>, through the subscription.\<close>

definition mamaSubscription_unsetAllPossiblyStale :: "'a dqSystem_scheme \<Rightarrow> 'a dqSystem_scheme" where
  "mamaSubscription_unsetAllPossiblyStale s =
    (if mQuality s \<noteq> MAMA_QUALITY_OK then
       emit (if hasTportCb s then [TportQuality] else []) (s\<lparr>mQuality := MAMA_QUALITY_OK\<rparr>)
     else s)"

definition dqStrategyImpl_resetDqContext :: "u32 \<Rightarrow> u64 \<Rightarrow> 'a dqSystem_scheme \<Rightarrow> 'a dqSystem_scheme" where
  "dqStrategyImpl_resetDqContext seqNum senderId s =
    upd_ctx (\<lambda>ctx. ctx\<lparr>mSeqNum := seqNum, mSenderId := senderId\<rparr>) s"

definition resetDqState :: "'a dqSystem_scheme \<Rightarrow> 'a dqSystem_scheme" where
  "resetDqState s =
    (let st = mDQState (dqCtx s);
         s = (if st \<noteq> DQ_STATE_OK \<and> st \<noteq> DQ_STATE_NOT_ESTABLISHED \<and> hasOnQuality s
              then emit [OnQuality MAMA_QUALITY_OK] s else s)
     in upd_ctx (\<lambda>ctx. ctx\<lparr>mDQState := DQ_STATE_OK\<rparr>) s)"

definition handleFTTakeover :: "u32 \<Rightarrow> u64 \<Rightarrow> bool \<Rightarrow> 'a dqSystem_scheme \<Rightarrow> 'a dqSystem_scheme" where
  "handleFTTakeover seqNum senderId recoverOnRecap s =
    (if recoverOnRecap then
       upd_ctx (\<lambda>ctx. ctx\<lparr>mSeqNum := seqNum, mDQState := DQ_STATE_WAITING_FOR_RECAP_AFTER_FT\<rparr>) s
     else dqStrategyImpl_resetDqContext seqNum senderId (resetDqState s))"

definition dqStrategy_sendRecapRequest :: "'a dqSystem_scheme \<Rightarrow> 'a dqSystem_scheme" where
  "dqStrategy_sendRecapRequest s =
    (let s = upd_ctx (\<lambda>ctx. ctx\<lparr>mDQState := DQ_STATE_WAITING_FOR_RECAP\<rparr>) s;
         s = emit [SendRecapRequest (mSubscType s = MAMA_SUBSC_TYPE_GROUP)] s
     in if hasOnRecapRequest s then emit [OnRecapRequest] s else s)"

definition handleStaleData :: "mamaMsg \<Rightarrow> 'a dqSystem_scheme \<Rightarrow> mamaMsg \<times> 'a dqSystem_scheme" where
  "handleStaleData msg s =
    (let msg = msgUtils_setStatus MAMA_MSG_STATUS_STALE msg;
         st = mDQState (dqCtx s)
     in if st \<noteq> DQ_STATE_WAITING_FOR_RECAP \<and> st \<noteq> DQ_STATE_POSSIBLY_STALE then
          let s = dqStrategy_sendRecapRequest s
          in (msg, if hasOnQuality s then emit [OnQuality MAMA_QUALITY_STALE] s else s)
        else if st = DQ_STATE_POSSIBLY_STALE \<and> st \<noteq> DQ_STATE_WAITING_FOR_RECAP then
          (msg, dqStrategy_sendRecapRequest s)
        else (msg, s))"

definition dqStrategy_setPossiblyStale :: "'a dqSystem_scheme \<Rightarrow> 'a dqSystem_scheme" where
  "dqStrategy_setPossiblyStale s = upd_ctx (\<lambda>ctx. ctx\<lparr>mDQState := DQ_STATE_POSSIBLY_STALE\<rparr>) s"

definition dqStrategy_getDqState :: "mamaDqContext \<Rightarrow> dqState" where
  "dqStrategy_getDqState ctx = mDQState ctx"

text \<open>Clearing the cache of the context, and filling a gap from it.\<close>

definition clear_cache :: "'a dqSystem_scheme \<Rightarrow> 'a dqSystem_scheme option" where
  "clear_cache s =
    do { (ctx, destroyed) \<leftarrow> dqContext_clearCache False (dqCtx s);
         Some (emit (map DestroyMsg destroyed) (s\<lparr>dqCtx := ctx\<rparr>)) }"

definition try_fill :: "u32 \<Rightarrow> 'a dqSystem_scheme \<Rightarrow> (bool \<times> 'a dqSystem_scheme) option" where
  "try_fill seqNum s =
    do { let s = s\<lparr>mTryToFillGap := False\<rparr>;
         (filled, ctx, fwd) \<leftarrow> dqContext_fillGap seqNum (dqCtx s);
         s \<leftarrow> clear_cache (emit (map OnMsg fwd) (s\<lparr>dqCtx := ctx\<rparr>));
         Some (filled, if filled then upd_ctx (\<lambda>ctx. ctx\<lparr>mSeqNum := seqNum\<rparr>) s else s) }"

text \<open>The branch of \<open>dqStrategy_checkSeqNum\<close> for updates. \<open>ctxSeqNum\<close> and \<open>ctxDqState\<close> are
  the values at the beginning of the call.\<close>

definition check_update ::
  "u32 \<Rightarrow> u32 \<Rightarrow> dqState \<Rightarrow> u16 \<Rightarrow> mamaMsg \<Rightarrow> 'a dqSystem_scheme \<Rightarrow> (mamaMsg \<times> 'a dqSystem_scheme) option" where
  "check_update seqNum ctxSeqNum ctxDqState conflateCnt msg s =
    do { let noGap = ((ctxDqState = DQ_STATE_NOT_ESTABLISHED \<or> seqNum = 0 \<or>
                       seqNum = ctxSeqNum + ucast conflateCnt) \<and>
                      (ctxDqState \<noteq> DQ_STATE_WAITING_FOR_RECAP \<or>
                       ctxDqState \<noteq> DQ_STATE_WAITING_FOR_RECAP_AFTER_FT));
         s \<leftarrow> (if noGap then
                 do { s \<leftarrow> (if mTryToFillGap s then clear_cache (s\<lparr>mTryToFillGap := False\<rparr>) else Some s);
                      Some (mamaSubscription_unsetAllPossiblyStale s) }
               else Some s);
         if noGap \<and> mamaMsgStatus_statusForMsg msg = MAMA_MSG_STATUS_OK then
           Some (msg, upd_ctx (\<lambda>ctx. ctx\<lparr>mSeqNum := seqNum\<rparr>) (resetDqState s))
         else if mDqStrategyScheme s = DQ_SCHEME_INGORE_DUPS \<and> seqNum \<le> ctxSeqNum \<and>
                 (ctxDqState \<noteq> DQ_STATE_WAITING_FOR_RECAP \<or>
                  ctxDqState \<noteq> DQ_STATE_WAITING_FOR_RECAP_AFTER_FT) then
           Some (msg, upd_ctx (\<lambda>ctx. ctx\<lparr>mDoNotForward := True\<rparr>) s)
         else if seqNum = ctxSeqNum \<and> ctxDqState \<noteq> DQ_STATE_WAITING_FOR_RECAP_AFTER_FT then
           let s = upd_ctx (\<lambda>ctx. ctx\<lparr>mDQState := DQ_STATE_DUPLICATE\<rparr>) s;
               s = (if hasOnQuality s then emit [OnQuality MAMA_QUALITY_DUPLICATE] s else s)
           in Some (msgUtils_setStatus MAMA_MSG_STATUS_DUPLICATE msg, s)
         else if ctxDqState = DQ_STATE_WAITING_FOR_RECAP_AFTER_FT then
           Some (msg, upd_ctx (\<lambda>ctx. ctx\<lparr>mDoNotForward := True\<rparr>) s)
         else
           do { (filled, s) \<leftarrow> (if mPreInitialScheme s = PRE_INITIAL_SCHEME_ON_GAP \<and> mTryToFillGap s
                               then try_fill seqNum s else Some (False, s));
                if filled then Some (msg, s)
                else Some (handleStaleData msg (if hasOnGap s then emit [OnGap] s else s)) } }"

definition check_recap :: "u32 \<Rightarrow> u64 \<Rightarrow> 'a dqSystem_scheme \<Rightarrow> 'a dqSystem_scheme" where
  "check_recap seqNum senderId s =
    (let s = (if mPreRecapCacheEnabled s then s\<lparr>mTryToFillGap := True\<rparr> else s);
         s = mamaSubscription_unsetAllPossiblyStale s;
         s = dqStrategyImpl_resetDqContext seqNum senderId (resetDqState s)
     in upd_ctx (\<lambda>ctx. ctx\<lparr>mDoNotForward := False\<rparr>) s)"

definition check_initial :: "u32 \<Rightarrow> u64 \<Rightarrow> mamaMsg \<Rightarrow> 'a dqSystem_scheme \<Rightarrow> 'a dqSystem_scheme" where
  "check_initial seqNum senderId msg s =
    (let s = s\<lparr>mTryToFillGap := True\<rparr>;
         msgStatus = mamaMsgStatus_statusForMsg msg
     in if msgStatus = MAMA_MSG_STATUS_POSSIBLY_STALE \<or> msgStatus = MAMA_MSG_STATUS_STALE then
          dqStrategyImpl_resetDqContext seqNum senderId
            (upd_ctx (\<lambda>ctx. ctx\<lparr>mDQState := DQ_STATE_STALE_NO_RECAP\<rparr>) s)
        else check_recap seqNum senderId s)"

definition check_type ::
  "mamaMsgType \<Rightarrow> u32 \<Rightarrow> u32 \<Rightarrow> dqState \<Rightarrow> u64 \<Rightarrow> mamaMsg \<Rightarrow> 'a dqSystem_scheme \<Rightarrow>
    (mamaMsg \<times> 'a dqSystem_scheme) option" where
  "check_type msgType seqNum ctxSeqNum ctxDqState senderId msg s =
    (if msgType \<in> {MAMA_MSG_TYPE_SEC_STATUS, MAMA_MSG_TYPE_BOOK_UPDATE} then
       check_update seqNum ctxSeqNum ctxDqState 1 msg s
     else if msgType \<in> {MAMA_MSG_TYPE_INITIAL, MAMA_MSG_TYPE_BOOK_INITIAL} then
       Some (msg, check_initial seqNum senderId msg s)
     else if msgType \<in> {MAMA_MSG_TYPE_RECAP, MAMA_MSG_TYPE_BOOK_RECAP} then
       Some (msg, check_recap seqNum senderId s)
     else if msgType = MAMA_MSG_TYPE_DDICT_SNAPSHOT then Some (msg, s)
     else
       check_update seqNum ctxSeqNum ctxDqState
         (case fConflateCount msg of None \<Rightarrow> 1 | Some n \<Rightarrow> n) msg s)"

definition dqStrategy_checkSeqNum ::
  "mamaMsg \<Rightarrow> mamaMsgType \<Rightarrow> 'a dqSystem_scheme \<Rightarrow> (mamaMsg \<times> 'a dqSystem_scheme) option" where
  "dqStrategy_checkSeqNum msg msgType s =
    (let ctxSeqNum = mSeqNum (dqCtx s);
         ctxSenderId = mSenderId (dqCtx s);
         ctxDqState = mDQState (dqCtx s);
         seqNum = mamaMsg_getSeqNum msg;
         s = upd_ctx (\<lambda>ctx. ctx\<lparr>mDoNotForward := False\<rparr>) s;
         senderId = (case fSenderId msg of None \<Rightarrow> 0 | Some i \<Rightarrow> i)
     in if ctxSenderId \<noteq> 0 \<and> senderId \<noteq> 0 \<and> ctxSenderId \<noteq> senderId then
          let s = (if gGenerateTransportStats s then emit [IncrementStat TransportStats MamaStatFtTakeovers] s else s);
              s = (if hasGlobalStats s then emit [IncrementStat GlobalStats MamaStatFtTakeovers] s else s)
          in if mFtStrategyScheme s = DQ_FT_WAIT_FOR_RECAP then
               check_type msgType seqNum ctxSeqNum ctxDqState senderId msg
                 (handleFTTakeover seqNum senderId True (upd_ctx (\<lambda>ctx. ctx\<lparr>mDoNotForward := True\<rparr>) s))
             else Some (msg, handleFTTakeover seqNum senderId False s)
        else check_type msgType seqNum ctxSeqNum ctxDqState senderId msg s)"

subsection \<open>Auxiliary facts\<close>

definition same_sender :: "mamaMsg \<Rightarrow> 'a dqSystem_scheme \<Rightarrow> bool" where
  "same_sender msg s \<longleftrightarrow> mSenderId (dqCtx s) = 0 \<or> fSenderId msg \<in> {None, Some 0, Some (mSenderId (dqCtx s))}"

definition is_update :: "mamaMsgType \<Rightarrow> bool" where
  "is_update t \<longleftrightarrow> t \<notin> {MAMA_MSG_TYPE_INITIAL, MAMA_MSG_TYPE_BOOK_INITIAL, MAMA_MSG_TYPE_RECAP,
     MAMA_MSG_TYPE_BOOK_RECAP, MAMA_MSG_TYPE_DDICT_SNAPSHOT}"

definition conflate_count :: "mamaMsgType \<Rightarrow> mamaMsg \<Rightarrow> u16" where
  "conflate_count t msg = (if t \<in> {MAMA_MSG_TYPE_SEC_STATUS, MAMA_MSG_TYPE_BOOK_UPDATE} then 1
     else case fConflateCount msg of None \<Rightarrow> 1 | Some n \<Rightarrow> n)"

definition in_sequence :: "mamaMsg \<Rightarrow> mamaMsgType \<Rightarrow> 'a dqSystem_scheme \<Rightarrow> bool" where
  "in_sequence msg t s \<longleftrightarrow> mDQState (dqCtx s) = DQ_STATE_NOT_ESTABLISHED \<or> mamaMsg_getSeqNum msg = 0 \<or>
     mamaMsg_getSeqNum msg = mSeqNum (dqCtx s) + ucast (conflate_count t msg)"

lemma emit_simps [simp]:
  "dqCtx (emit es s) = dqCtx s" "mTryToFillGap (emit es s) = mTryToFillGap s"
  "hasOnQuality (emit es s) = hasOnQuality s" "hasOnGap (emit es s) = hasOnGap s"
  "hasOnRecapRequest (emit es s) = hasOnRecapRequest s" "mSubscType (emit es s) = mSubscType s"
  "mFtStrategyScheme (emit es s) = mFtStrategyScheme s" "mDqStrategyScheme (emit es s) = mDqStrategyScheme s"
  "mPreInitialScheme (emit es s) = mPreInitialScheme s" "mQuality (emit es s) = mQuality s"
  "hasTportCb (emit es s) = hasTportCb s" "hasGlobalStats (emit es s) = hasGlobalStats s"
  "mPreRecapCacheEnabled (emit es s) = mPreRecapCacheEnabled s"
  "trace (emit es s) = trace s @ es"
  by (simp_all add: emit_def)

lemma upd_ctx_simps [simp]:
  "dqCtx (upd_ctx f s) = f (dqCtx s)" "mTryToFillGap (upd_ctx f s) = mTryToFillGap s"
  "hasOnQuality (upd_ctx f s) = hasOnQuality s" "hasOnGap (upd_ctx f s) = hasOnGap s"
  "hasOnRecapRequest (upd_ctx f s) = hasOnRecapRequest s" "mSubscType (upd_ctx f s) = mSubscType s"
  "mFtStrategyScheme (upd_ctx f s) = mFtStrategyScheme s" "mDqStrategyScheme (upd_ctx f s) = mDqStrategyScheme s"
  "mPreInitialScheme (upd_ctx f s) = mPreInitialScheme s" "mQuality (upd_ctx f s) = mQuality s"
  "hasTportCb (upd_ctx f s) = hasTportCb s" "hasGlobalStats (upd_ctx f s) = hasGlobalStats s"
  "mPreRecapCacheEnabled (upd_ctx f s) = mPreRecapCacheEnabled s"
  "gGenerateTransportStats (upd_ctx f s) = gGenerateTransportStats s"
  "trace (upd_ctx f s) = trace s"
  by (simp_all add: upd_ctx_def)

lemma unset_simps [simp]:
  "dqCtx (mamaSubscription_unsetAllPossiblyStale s) = dqCtx s"
  "hasOnQuality (mamaSubscription_unsetAllPossiblyStale s) = hasOnQuality s"
  "hasOnGap (mamaSubscription_unsetAllPossiblyStale s) = hasOnGap s"
  "mTryToFillGap (mamaSubscription_unsetAllPossiblyStale s) = mTryToFillGap s"
  "mDqStrategyScheme (mamaSubscription_unsetAllPossiblyStale s) = mDqStrategyScheme s"
  "mPreInitialScheme (mamaSubscription_unsetAllPossiblyStale s) = mPreInitialScheme s"
  "hasOnRecapRequest (mamaSubscription_unsetAllPossiblyStale s) = hasOnRecapRequest s"
  "mSubscType (mamaSubscription_unsetAllPossiblyStale s) = mSubscType s"
  "trace (mamaSubscription_unsetAllPossiblyStale s) =
     trace s @ (if mQuality s \<noteq> MAMA_QUALITY_OK \<and> hasTportCb s then [TportQuality] else [])"
  by (simp_all add: mamaSubscription_unsetAllPossiblyStale_def)

lemma reset_simps [simp]:
  "dqCtx (resetDqState s) = (dqCtx s)\<lparr>mDQState := DQ_STATE_OK\<rparr>"
  "trace (resetDqState s) = trace s @
     (if mDQState (dqCtx s) \<notin> {DQ_STATE_OK, DQ_STATE_NOT_ESTABLISHED} \<and> hasOnQuality s
      then [OnQuality MAMA_QUALITY_OK] else [])"
  by (simp_all add: resetDqState_def Let_def)

lemma checkSeqNum_update:
  assumes "same_sender msg s" and "is_update t"
  shows "dqStrategy_checkSeqNum msg t s =
     check_update (mamaMsg_getSeqNum msg) (mSeqNum (dqCtx s)) (mDQState (dqCtx s)) (conflate_count t msg) msg
       (upd_ctx (\<lambda>ctx. ctx\<lparr>mDoNotForward := False\<rparr>) s)"
  using assms
  by (auto simp: dqStrategy_checkSeqNum_def check_type_def same_sender_def is_update_def
      conflate_count_def Let_def split: option.splits)

lemma clear_cache_ok:
  assumes "case mCache (dqCtx s) of None \<Rightarrow> True | Some c \<Rightarrow> length c = mCacheSize (dqCtx s)"
  obtains ctx ds where "clear_cache s = Some (emit (map DestroyMsg ds) (s\<lparr>dqCtx := ctx\<rparr>))"
    and "mSeqNum ctx = mSeqNum (dqCtx s)" and "mDQState ctx = mDQState (dqCtx s)"
    and "mSenderId ctx = mSenderId (dqCtx s)" and "mDoNotForward ctx = mDoNotForward (dqCtx s)"
proof (cases "mCache (dqCtx s)")
  case None
  then show ?thesis
    using that [of "[]" "dqCtx s"] by (simp add: clear_cache_def dqContext_clearCache_def)
next
  case (Some c)
  with assms clearCache_run [of "dqCtx s" c False] show ?thesis
    using that [of "map the (filter (\<lambda>x. x \<noteq> None) c)"
        "(dqCtx s)\<lparr>mCache := Some (replicate (mCacheSize (dqCtx s)) None), mCurCacheIdx := 0\<rparr>"]
    by (simp add: clear_cache_def)
qed

text \<open>The cache of the context is an array of its declared size.\<close>

definition cache_ok :: "mamaDqContext \<Rightarrow> bool" where
  "cache_ok ctx \<longleftrightarrow> (case mCache ctx of None \<Rightarrow> True | Some c \<Rightarrow> length c = mCacheSize ctx \<and> mCurCacheIdx ctx < mCacheSize ctx)"

definition quiet :: "sub_event \<Rightarrow> bool" where
  "quiet e \<longleftrightarrow> (case e of DestroyMsg _ \<Rightarrow> True | TportQuality \<Rightarrow> True | _ \<Rightarrow> False)"

lemma check_update_in_sequence:
  assumes "st = DQ_STATE_NOT_ESTABLISHED \<or> seqNum = 0 \<or> seqNum = ctxSeqNum + ucast cnt"
    and "mStatus msg = MAMA_MSG_STATUS_OK" and "cache_ok (dqCtx s)"
  shows "\<exists>s' es. check_update seqNum ctxSeqNum st cnt msg s = Some (msg, s') \<and>
     mSeqNum (dqCtx s') = seqNum \<and> mDQState (dqCtx s') = DQ_STATE_OK \<and>
     mSenderId (dqCtx s') = mSenderId (dqCtx s) \<and> mDoNotForward (dqCtx s') = mDoNotForward (dqCtx s) \<and>
     trace s' = trace s @ es @
       (if mDQState (dqCtx s) \<notin> {DQ_STATE_OK, DQ_STATE_NOT_ESTABLISHED} \<and> hasOnQuality s
        then [OnQuality MAMA_QUALITY_OK] else []) \<and> (\<forall>e \<in> set es. quiet e)"
proof (cases "mTryToFillGap s")
  case False
  then show ?thesis
    using assms
    by (auto simp: check_update_def mamaMsgStatus_statusForMsg_def quiet_def
        intro!: exI [of _ "if mQuality s \<noteq> MAMA_QUALITY_OK \<and> hasTportCb s then [TportQuality] else []"])
next
  case True
  let ?s = "s\<lparr>mTryToFillGap := False\<rparr>"
  have "case mCache (dqCtx ?s) of None \<Rightarrow> True | Some c \<Rightarrow> length c = mCacheSize (dqCtx ?s)"
    using assms(3) by (auto simp: cache_ok_def split: option.splits)
  then obtain ctx ds where
    c: "clear_cache ?s = Some (emit (map DestroyMsg ds) (?s\<lparr>dqCtx := ctx\<rparr>))"
    "mSeqNum ctx = mSeqNum (dqCtx ?s)" "mDQState ctx = mDQState (dqCtx ?s)"
    "mSenderId ctx = mSenderId (dqCtx ?s)" "mDoNotForward ctx = mDoNotForward (dqCtx ?s)"
    by (rule clear_cache_ok)
  let ?es = "map DestroyMsg ds @ (if mQuality s \<noteq> MAMA_QUALITY_OK \<and> hasTportCb s then [TportQuality] else [])"
  show ?thesis
    using assms(1,2) True c
    by (auto simp: check_update_def mamaMsgStatus_statusForMsg_def quiet_def intro!: exI [of _ ?es])
qed

lemma in_sequence_run:
  assumes "same_sender msg s" and "is_update t" and "in_sequence msg t s"
    and "mStatus msg = MAMA_MSG_STATUS_OK" and "cache_ok (dqCtx s)"
  shows "\<exists>s' es. dqStrategy_checkSeqNum msg t s = Some (msg, s') \<and>
     mSeqNum (dqCtx s') = mamaMsg_getSeqNum msg \<and> mDQState (dqCtx s') = DQ_STATE_OK \<and>
     mSenderId (dqCtx s') = mSenderId (dqCtx s) \<and> \<not> mDoNotForward (dqCtx s') \<and>
     trace s' = trace s @ es @
       (if mDQState (dqCtx s) \<notin> {DQ_STATE_OK, DQ_STATE_NOT_ESTABLISHED} \<and> hasOnQuality s
        then [OnQuality MAMA_QUALITY_OK] else []) \<and> (\<forall>e \<in> set es. quiet e)"
proof -
  let ?s = "upd_ctx (\<lambda>ctx. ctx\<lparr>mDoNotForward := False\<rparr>) s"
  have "cache_ok (dqCtx ?s)" using assms(5) by (simp add: cache_ok_def split: option.splits)
  from check_update_in_sequence [OF _ assms(4) this, of "mDQState (dqCtx s)" "mamaMsg_getSeqNum msg"
      "mSeqNum (dqCtx s)" "conflate_count t msg"] assms(3)
  show ?thesis
    by (simp add: checkSeqNum_update [OF assms(1,2)] in_sequence_def)
qed

text \<open>Without a cache to fill from, checking an update delivers nothing, and does not lift the mark that
  keeps a message from being forwarded.\<close>

definition delivers_nothing :: "'a dqSystem_scheme \<Rightarrow> 'a dqSystem_scheme \<Rightarrow> bool" where
  "delivers_nothing s u \<longleftrightarrow> (mDoNotForward (dqCtx s) \<longrightarrow> mDoNotForward (dqCtx u)) \<and>
     (\<exists>es. trace u = trace s @ es \<and> (\<forall>m. OnMsg m \<notin> set es))"

lemma handleStaleData_delivers_nothing: "delivers_nothing s (snd (handleStaleData msg s))"
  by (simp add: delivers_nothing_def handleStaleData_def dqStrategy_sendRecapRequest_def Let_def)

lemma delivers_nothing_trans: "delivers_nothing s t \<Longrightarrow> delivers_nothing t u \<Longrightarrow> delivers_nothing s u"
  by (auto simp: delivers_nothing_def)

lemma delivers_nothing_steps:
  "delivers_nothing s (upd_ctx (\<lambda>ctx. ctx\<lparr>mSeqNum := n\<rparr>) (resetDqState s))"
  "delivers_nothing s (upd_ctx (\<lambda>ctx. ctx\<lparr>mDoNotForward := True\<rparr>) s)"
  "delivers_nothing s (mamaSubscription_unsetAllPossiblyStale s)"
  "delivers_nothing s (if hasOnQuality s
     then emit [OnQuality MAMA_QUALITY_DUPLICATE] (upd_ctx (\<lambda>ctx. ctx\<lparr>mDQState := DQ_STATE_DUPLICATE\<rparr>) s)
     else upd_ctx (\<lambda>ctx. ctx\<lparr>mDQState := DQ_STATE_DUPLICATE\<rparr>) s)"
  "delivers_nothing s (if hasOnGap s then emit [OnGap] s else s)"
  by (simp_all add: delivers_nothing_def)

text \<open>The branches of an update without a cache to fill from: first the transport quality, then the rest.\<close>

definition update_rest ::
  "bool \<Rightarrow> u32 \<Rightarrow> u32 \<Rightarrow> dqState \<Rightarrow> mamaMsg \<Rightarrow> 'a dqSystem_scheme \<Rightarrow> mamaMsg \<times> 'a dqSystem_scheme" where
  "update_rest ok seqNum cs cd msg v =
    (if ok then (msg, upd_ctx (\<lambda>ctx. ctx\<lparr>mSeqNum := seqNum\<rparr>) (resetDqState v))
     else if mDqStrategyScheme v = DQ_SCHEME_INGORE_DUPS \<and> seqNum \<le> cs then
       (msg, upd_ctx (\<lambda>ctx. ctx\<lparr>mDoNotForward := True\<rparr>) v)
     else if seqNum = cs \<and> cd \<noteq> DQ_STATE_WAITING_FOR_RECAP_AFTER_FT then
       (msgUtils_setStatus MAMA_MSG_STATUS_DUPLICATE msg,
        if hasOnQuality v
        then emit [OnQuality MAMA_QUALITY_DUPLICATE] (upd_ctx (\<lambda>ctx. ctx\<lparr>mDQState := DQ_STATE_DUPLICATE\<rparr>) v)
        else upd_ctx (\<lambda>ctx. ctx\<lparr>mDQState := DQ_STATE_DUPLICATE\<rparr>) v)
     else if cd = DQ_STATE_WAITING_FOR_RECAP_AFTER_FT then
       (msg, upd_ctx (\<lambda>ctx. ctx\<lparr>mDoNotForward := True\<rparr>) v)
     else handleStaleData msg (if hasOnGap v then emit [OnGap] v else v))"

lemma check_update_no_fill:
  assumes "\<not> mTryToFillGap s"
  obtains ok v where "v = s \<or> v = mamaSubscription_unsetAllPossiblyStale s"
    and "check_update seqNum cs cd cnt msg s = Some (update_rest ok seqNum cs cd msg v)"
proof -
  define ng where "ng \<longleftrightarrow> cd = DQ_STATE_NOT_ESTABLISHED \<or> seqNum = 0 \<or> seqNum = cs + ucast cnt"
  have guard: "cd \<noteq> DQ_STATE_WAITING_FOR_RECAP \<or> cd \<noteq> DQ_STATE_WAITING_FOR_RECAP_AFTER_FT" by auto
  show thesis
    by (rule that [of "if ng then mamaSubscription_unsetAllPossiblyStale s else s"
            "ng \<and> mamaMsgStatus_statusForMsg msg = MAMA_MSG_STATUS_OK"])
      (use assms guard in \<open>simp_all add: check_update_def update_rest_def ng_def [symmetric] Let_def\<close>)
qed

lemma update_rest_delivers_nothing: "delivers_nothing v (snd (update_rest ok seqNum cs cd msg v))"
  by (simp add: update_rest_def delivers_nothing_steps
      delivers_nothing_trans [OF delivers_nothing_steps(5) handleStaleData_delivers_nothing])

lemma check_update_delivers_nothing:
  assumes "check_update seqNum cs cd cnt msg s = Some (m', u)" and "\<not> mTryToFillGap s"
  shows "delivers_nothing s u"
proof -
  obtain ok v where v: "v = s \<or> v = mamaSubscription_unsetAllPossiblyStale s"
    and "check_update seqNum cs cd cnt msg s = Some (update_rest ok seqNum cs cd msg v)"
    using check_update_no_fill [OF assms(2)] by metis
  with assms(1) have "delivers_nothing v u" using update_rest_delivers_nothing [of v ok seqNum cs cd msg] by simp
  with v show ?thesis using delivers_nothing_trans [OF delivers_nothing_steps(3)] by metis
qed

lemma check_update_total:
  "\<not> mTryToFillGap s \<Longrightarrow> \<exists>m' u. check_update seqNum cs cd cnt msg s = Some (m', u)"
  by (metis check_update_no_fill surj_pair)

lemma takeover_delivers_nothing:
  assumes "is_update t" and "\<not> mTryToFillGap s"
    and "mFtStrategyScheme s = DQ_FT_WAIT_FOR_RECAP" and "\<not> same_sender msg s"
  obtains m' u es where "dqStrategy_checkSeqNum msg t s = Some (m', u)" and "mDoNotForward (dqCtx u)"
    and "trace u = trace s @ es" and "\<forall>m. OnMsg m \<notin> set es"
proof -
  let ?i = "case fSenderId msg of None \<Rightarrow> 0 | Some i \<Rightarrow> i"
  let ?s0 = "upd_ctx (\<lambda>ctx. ctx\<lparr>mDoNotForward := False\<rparr>) s"
  let ?s1 = "if gGenerateTransportStats ?s0 then emit [IncrementStat TransportStats MamaStatFtTakeovers] ?s0 else ?s0"
  let ?s2 = "if hasGlobalStats ?s1 then emit [IncrementStat GlobalStats MamaStatFtTakeovers] ?s1 else ?s1"
  let ?v = "handleFTTakeover (mamaMsg_getSeqNum msg) ?i True (upd_ctx (\<lambda>ctx. ctx\<lparr>mDoNotForward := True\<rparr>) ?s2)"
  have ct: "check_type t a b c d msg v = check_update a b c (conflate_count t msg) msg v"
    for a b c d and v :: "'a dqSystem_scheme"
    using assms(1) by (auto simp: check_type_def is_update_def conflate_count_def)
  have "mSenderId (dqCtx s) \<noteq> 0 \<and> ?i \<noteq> 0 \<and> mSenderId (dqCtx s) \<noteq> ?i"
    using assms(4) by (auto simp: same_sender_def split: option.splits)
  moreover have "mFtStrategyScheme ?s2 = DQ_FT_WAIT_FOR_RECAP" using assms(3) by simp
  ultimately have run: "dqStrategy_checkSeqNum msg t s =
      check_update (mamaMsg_getSeqNum msg) (mSeqNum (dqCtx s)) (mDQState (dqCtx s)) (conflate_count t msg) msg ?v"
    unfolding dqStrategy_checkSeqNum_def Let_def ct by simp
  have v: "\<not> mTryToFillGap ?v" using assms(2) by (simp add: handleFTTakeover_def)
  then obtain m' u where u: "dqStrategy_checkSeqNum msg t s = Some (m', u)"
    using check_update_total unfolding run by blast
  with v have "delivers_nothing ?v u" unfolding run by (blast intro: check_update_delivers_nothing)
  moreover have "mDoNotForward (dqCtx ?v)" by (simp add: handleFTTakeover_def)
  moreover have "\<exists>es. trace ?v = trace s @ es \<and> (\<forall>m. OnMsg m \<notin> set es)" by (simp add: handleFTTakeover_def)
  ultimately show ?thesis using u that unfolding delivers_nothing_def by fastforce
qed

text \<open>A message whose number is neither the next one nor the last one, in a context that is established
  and has no cache to fill from.\<close>

definition gap :: "mamaMsg \<Rightarrow> mamaMsgType \<Rightarrow> 'a dqSystem_scheme \<Rightarrow> bool" where
  "gap msg t s \<longleftrightarrow> \<not> in_sequence msg t s \<and> mamaMsg_getSeqNum msg \<noteq> mSeqNum (dqCtx s) \<and>
     mDqStrategyScheme s = DQ_SCHEME_DELIVER_ALL \<and> \<not> mTryToFillGap s \<and>
     mDQState (dqCtx s) \<noteq> DQ_STATE_WAITING_FOR_RECAP_AFTER_FT"

lemma gap_run:
  assumes "same_sender msg s" and "is_update t" and "gap msg t s"
  shows "dqStrategy_checkSeqNum msg t s =
     Some (handleStaleData msg (if hasOnGap s then emit [OnGap] (upd_ctx (\<lambda>ctx. ctx\<lparr>mDoNotForward := False\<rparr>) s)
       else upd_ctx (\<lambda>ctx. ctx\<lparr>mDoNotForward := False\<rparr>) s))"
  using assms(3) by (auto simp: checkSeqNum_update [OF assms(1,2)] gap_def in_sequence_def check_update_def)

text \<open>Processing messages one after the other.\<close>

fun check_all :: "(mamaMsg \<times> mamaMsgType) list \<Rightarrow> 'a dqSystem_scheme \<Rightarrow> (mamaMsg list \<times> 'a dqSystem_scheme) option" where
  "check_all [] s = Some ([], s)"
| "check_all ((msg, t) # ms) s =
    do { (m, s) \<leftarrow> dqStrategy_checkSeqNum msg t s; (ms, s) \<leftarrow> check_all ms s; Some (m # ms, s) }"

text \<open>What a gap leaves: the context waits for a recap, and nothing else of it has changed.\<close>

definition awaits_recap :: "'a dqSystem_scheme \<Rightarrow> 'a dqSystem_scheme \<Rightarrow> bool" where
  "awaits_recap s s' \<longleftrightarrow> mDQState (dqCtx s') = DQ_STATE_WAITING_FOR_RECAP \<and> \<not> mDoNotForward (dqCtx s') \<and>
     mSeqNum (dqCtx s') = mSeqNum (dqCtx s) \<and> mSenderId (dqCtx s') = mSenderId (dqCtx s) \<and>
     mDqStrategyScheme s' = mDqStrategyScheme s \<and> mTryToFillGap s' = mTryToFillGap s \<and> hasOnGap s' = hasOnGap s"

definition gap_events :: "'a dqSystem_scheme \<Rightarrow> sub_event list" where
  "gap_events s = (if hasOnGap s then [OnGap] else []) @
     (if mDQState (dqCtx s) = DQ_STATE_WAITING_FOR_RECAP then []
      else [SendRecapRequest (mSubscType s = MAMA_SUBSC_TYPE_GROUP)] @ (if hasOnRecapRequest s then [OnRecapRequest] else []) @
        (if hasOnQuality s \<and> mDQState (dqCtx s) \<noteq> DQ_STATE_POSSIBLY_STALE then [OnQuality MAMA_QUALITY_STALE] else []))"

lemma gap_step:
  assumes "same_sender msg s" and "is_update t" and "gap msg t s"
  shows "\<exists>s'. dqStrategy_checkSeqNum msg t s = Some (msgUtils_setStatus MAMA_MSG_STATUS_STALE msg, s') \<and> awaits_recap s s' \<and> trace s' = trace s @ gap_events s"
  by (auto simp: gap_run [OF assms] handleStaleData_def dqStrategy_sendRecapRequest_def awaits_recap_def gap_events_def Let_def)

lemma awaits_recap_gap: "same_sender msg s \<Longrightarrow> gap msg t s \<Longrightarrow> awaits_recap s s' \<Longrightarrow> same_sender msg s' \<and> gap msg t s'"
  by (auto simp: awaits_recap_def gap_def same_sender_def in_sequence_def)

lemma waiting_run:
  assumes "mDQState (dqCtx s) = DQ_STATE_WAITING_FOR_RECAP" and "\<not> mDoNotForward (dqCtx s)"
    and "\<forall>(msg, t) \<in> set ms. same_sender msg s \<and> is_update t \<and> gap msg t s"
  shows "\<exists>s'. check_all ms s = Some (map (\<lambda>(msg, t). msgUtils_setStatus MAMA_MSG_STATUS_STALE msg) ms, s') \<and> awaits_recap s s' \<and>
    trace s' = trace s @ (if hasOnGap s then replicate (length ms) OnGap else [])"
  using assms
proof (induction ms arbitrary: s)
  case Nil then show ?case by (simp add: awaits_recap_def)
next
  case (Cons m ms)
  obtain msg t where m: "m = (msg, t)" by force
  with Cons.prems obtain s1 where s1: "dqStrategy_checkSeqNum msg t s = Some (msgUtils_setStatus MAMA_MSG_STATUS_STALE msg, s1)"
      "awaits_recap s s1" "trace s1 = trace s @ gap_events s" using gap_step [of msg s t] by auto
  moreover have "\<forall>(msg, t) \<in> set ms. same_sender msg s1 \<and> is_update t \<and> gap msg t s1" using Cons.prems(3) awaits_recap_gap [OF _ _ s1(2)] by fastforce
  ultimately obtain s2 where "check_all ms s1 = Some (map (\<lambda>(msg, t). msgUtils_setStatus MAMA_MSG_STATUS_STALE msg) ms, s2)"
      "awaits_recap s1 s2" "trace s2 = trace s1 @ (if hasOnGap s1 then replicate (length ms) OnGap else [])"
    using Cons.IH [of s1] by (auto simp: awaits_recap_def)
  then show ?case using s1 Cons.prems(1) by (auto simp: m awaits_recap_def gap_events_def)
qed

subsection \<open>Properties\<close>

text \<open>A context in state \<open>st\<close> behind sequence number 3 of sender 7, without a cache.\<close>

definition sys_demo :: "dqState \<Rightarrow> dqSystem" where
  "sys_demo st = \<lparr>dqCtx = ctx0\<lparr>mSeqNum := 3, mSenderId := 7, mDQState := st\<rparr>, mTryToFillGap = False,
     mSubscType = MAMA_SUBSC_TYPE_NORMAL, hasOnQuality = True, hasOnGap = True, hasOnRecapRequest = True,
     mFtStrategyScheme = DQ_FT_WAIT_FOR_RECAP, mDqStrategyScheme = DQ_SCHEME_DELIVER_ALL,
     mPreInitialScheme = PRE_INITIAL_SCHEME_ON_GAP, mPreRecapCacheEnabled = False,
     mQuality = MAMA_QUALITY_OK, hasTportCb = True, gGenerateTransportStats = False, hasGlobalStats = False,
     trace = []\<rparr>"

lemmas demo_simps = sys_demo_def ctx0_def same_sender_def is_update_def in_sequence_def conflate_count_def
  cache_ok_def gap_def quiet_def

lemma upd_fields [simp]:
  "fSenderId (upd n) = Some 7" "fConflateCount (upd n) = None" "mStatus (upd n) = MAMA_MSG_STATUS_OK"
  by (simp_all add: upd_def)

text \<open>C12: an update of the known sender with the expected sequence number (conflation included, modulo
  2 to the 32) and status OK, while no recap is awaited, is accepted: it becomes the last one of the context, the
  state is OK, the message is forwarded, no gap is reported and no recap is requested; the quality
  callback is told OK exactly when the quality was bad before. (What happens while a recap is awaited, and with another status, is shown by
  \<open>dq_waiting_left_without_recap\<close> and \<open>dq_stale_update_requests_recap\<close>.)\<close>

theorem dq_in_sequence_accepted:
  assumes "same_sender msg s" and "is_update t" and "in_sequence msg t s"
    and "mStatus msg = MAMA_MSG_STATUS_OK" and "cache_ok (dqCtx s)"
    and "mDQState (dqCtx s) \<notin> {DQ_STATE_WAITING_FOR_RECAP, DQ_STATE_WAITING_FOR_RECAP_AFTER_FT}"
  shows "\<exists>s' es. dqStrategy_checkSeqNum msg t s = Some (msg, s') \<and>
     mSeqNum (dqCtx s') = mamaMsg_getSeqNum msg \<and> mDQState (dqCtx s') = DQ_STATE_OK \<and>
     mSenderId (dqCtx s') = mSenderId (dqCtx s) \<and> \<not> mDoNotForward (dqCtx s') \<and>
     trace s' = trace s @ es @
       (if mDQState (dqCtx s) \<notin> {DQ_STATE_OK, DQ_STATE_NOT_ESTABLISHED} \<and> hasOnQuality s
        then [OnQuality MAMA_QUALITY_OK] else []) \<and> (\<forall>e \<in> set es. quiet e)"
  using assms(1-5) by (rule in_sequence_run)

theorem dq_in_sequence_accepted_witness:
  "\<exists>s' es. dqStrategy_checkSeqNum (upd 4) MAMA_MSG_TYPE_UPDATE (sys_demo DQ_STATE_POSSIBLY_STALE) = Some (upd 4, s') \<and>
     mSeqNum (dqCtx s') = 4 \<and> mDQState (dqCtx s') = DQ_STATE_OK \<and> mSenderId (dqCtx s') = 7 \<and>
     \<not> mDoNotForward (dqCtx s') \<and> trace s' = es @ [OnQuality MAMA_QUALITY_OK] \<and> (\<forall>e \<in> set es. quiet e)"
  using dq_in_sequence_accepted [of "upd 4" "sys_demo DQ_STATE_POSSIBLY_STALE" MAMA_MSG_TYPE_UPDATE]
  by (simp add: demo_simps)

text \<open>C1: every run of consecutive gaps requests exactly one recap. The context is established, all old data is delivered (the scheme
  \<open>DQ_SCHEME_DELIVER_ALL\<close>), no filling of the gap from the cache is pending and no takeover is being waited for; the messages are updates of the known sender,
  and the sequence number of each is neither 0 nor that of the last message of the context nor the next one. Then every one of them is marked stale and is forwarded,
  every one calls the function for gaps, and the context is not moved on. The first one requests a recap, unless one is already awaited, and the quality
  callback is told stale (unless the context was already known to be possibly stale); the others request none. The run may end by a recap, but also by an update
  in sequence, which ends the waiting although no recap has come (\<open>dq_waiting_left_without_recap\<close>).\<close>

theorem dq_gap_requests_one_recap:
  assumes "ms \<noteq> []" and "\<forall>(msg, t) \<in> set ms. same_sender msg s \<and> is_update t \<and> gap msg t s"
  shows "\<exists>s'. check_all ms s = Some (map (\<lambda>(msg, t). msgUtils_setStatus MAMA_MSG_STATUS_STALE msg) ms, s') \<and>
     mSeqNum (dqCtx s') = mSeqNum (dqCtx s) \<and> mDQState (dqCtx s') = DQ_STATE_WAITING_FOR_RECAP \<and>
     \<not> mDoNotForward (dqCtx s') \<and>
     trace s' = trace s @ (if hasOnGap s then [OnGap] else []) @
       (if mDQState (dqCtx s) = DQ_STATE_WAITING_FOR_RECAP then []
        else [SendRecapRequest (mSubscType s = MAMA_SUBSC_TYPE_GROUP)] @
             (if hasOnRecapRequest s then [OnRecapRequest] else []) @
             (if hasOnQuality s \<and> mDQState (dqCtx s) \<noteq> DQ_STATE_POSSIBLY_STALE
              then [OnQuality MAMA_QUALITY_STALE] else [])) @
       (if hasOnGap s then replicate (length ms - 1) OnGap else [])"
proof -
  obtain msg t rest where ms: "ms = (msg, t) # rest" using assms(1) by (metis list.exhaust prod.exhaust)
  with assms(2) have g: "same_sender msg s" "is_update t" "gap msg t s" and r: "\<forall>(m, t) \<in> set rest. same_sender m s \<and> is_update t \<and> gap m t s" by auto
  obtain s1 where s1: "dqStrategy_checkSeqNum msg t s = Some (msgUtils_setStatus MAMA_MSG_STATUS_STALE msg, s1)"
    and w: "awaits_recap s s1" and tr: "trace s1 = trace s @ gap_events s" using gap_step [OF g] by blast
  have "\<forall>(m, t) \<in> set rest. same_sender m s1 \<and> is_update t \<and> gap m t s1" using r awaits_recap_gap [OF _ _ w] by fastforce
  then obtain s2 where "check_all rest s1 = Some (map (\<lambda>(m, t). msgUtils_setStatus MAMA_MSG_STATUS_STALE m) rest, s2)"
      "awaits_recap s1 s2" "trace s2 = trace s1 @ (if hasOnGap s1 then replicate (length rest) OnGap else [])"
    using waiting_run [of s1 rest] w by (auto simp: awaits_recap_def)
  then show ?thesis using s1 w tr by (auto simp: ms awaits_recap_def gap_events_def)
qed

theorem dq_gap_requests_one_recap_witness:
  "\<exists>s'. check_all [(upd 9, MAMA_MSG_TYPE_TRADE), (upd 10, MAMA_MSG_TYPE_QUOTE)] (sys_demo DQ_STATE_OK)
      = Some ([msgUtils_setStatus MAMA_MSG_STATUS_STALE (upd 9), msgUtils_setStatus MAMA_MSG_STATUS_STALE (upd 10)], s') \<and>
     mDQState (dqCtx s') = DQ_STATE_WAITING_FOR_RECAP \<and>
     trace s' = [OnGap, SendRecapRequest False, OnRecapRequest, OnQuality MAMA_QUALITY_STALE, OnGap]"
  using dq_gap_requests_one_recap [of "[(upd 9, MAMA_MSG_TYPE_TRADE), (upd 10, MAMA_MSG_TYPE_QUOTE)]" "sys_demo DQ_STATE_OK"]
  by (force simp: demo_simps)

text \<open>C13: a recap, and an initial value that is not stale, resynchronise the context from every state,
  also across a change of the sender under either fault tolerance scheme: afterwards the sequence
  number and the sender are those of the message, the state is OK and the message is forwarded.\<close>

theorem dq_recap_resynchronises:
  assumes "t \<in> {MAMA_MSG_TYPE_RECAP, MAMA_MSG_TYPE_BOOK_RECAP} \<or>
      t \<in> {MAMA_MSG_TYPE_INITIAL, MAMA_MSG_TYPE_BOOK_INITIAL} \<and>
      mStatus msg \<notin> {MAMA_MSG_STATUS_STALE, MAMA_MSG_STATUS_POSSIBLY_STALE}"
  shows "\<exists>s'. dqStrategy_checkSeqNum msg t s = Some (msg, s') \<and>
     mSeqNum (dqCtx s') = mamaMsg_getSeqNum msg \<and> mDQState (dqCtx s') = DQ_STATE_OK \<and>
     mSenderId (dqCtx s') = (case fSenderId msg of None \<Rightarrow> 0 | Some i \<Rightarrow> i) \<and> \<not> mDoNotForward (dqCtx s')"
proof -
  have r: "dqCtx (check_recap seqNum senderId s)
      = (dqCtx s)\<lparr>mSeqNum := seqNum, mDQState := DQ_STATE_OK, mSenderId := senderId, mDoNotForward := False\<rparr>"
    for seqNum senderId and s :: "'a dqSystem_scheme"
    by (simp add: check_recap_def dqStrategyImpl_resetDqContext_def Let_def)
  have "check_type t seqNum cs cd senderId msg s = Some (msg, check_recap seqNum senderId
      (if t \<in> {MAMA_MSG_TYPE_INITIAL, MAMA_MSG_TYPE_BOOK_INITIAL} then s\<lparr>mTryToFillGap := True\<rparr> else s))"
    for seqNum senderId cs cd and s :: "'a dqSystem_scheme"
    using assms by (auto simp: check_type_def check_initial_def mamaMsgStatus_statusForMsg_def Let_def)
  then show ?thesis
    by (auto simp: dqStrategy_checkSeqNum_def handleFTTakeover_def dqStrategyImpl_resetDqContext_def r Let_def)
qed

theorem dq_recap_resynchronises_witness:
  "\<exists>s'. dqStrategy_checkSeqNum (upd 50) MAMA_MSG_TYPE_RECAP (sys_demo DQ_STATE_WAITING_FOR_RECAP) = Some (upd 50, s') \<and>
     mSeqNum (dqCtx s') = 50 \<and> mDQState (dqCtx s') = DQ_STATE_OK \<and> mSenderId (dqCtx s') = 7 \<and>
     \<not> mDoNotForward (dqCtx s')"
  using dq_recap_resynchronises [of MAMA_MSG_TYPE_RECAP "upd 50" "sys_demo DQ_STATE_WAITING_FOR_RECAP"] by simp

text \<open>An update with the expected sequence number whose status is stale is treated as a gap: it is
  reported and a recap is requested, where the comment of the code says that no recap is requested
  for such a message.\<close>

lemma dq_stale_update_requests_recap:
  assumes "same_sender msg s" and "is_update t" and "in_sequence msg t s"
    and "mStatus msg = MAMA_MSG_STATUS_STALE" and "mamaMsg_getSeqNum msg \<noteq> mSeqNum (dqCtx s)"
    and "mDqStrategyScheme s = DQ_SCHEME_DELIVER_ALL" and "\<not> mTryToFillGap s"
    and "mDQState (dqCtx s) = DQ_STATE_OK"
  shows "\<exists>s' es. dqStrategy_checkSeqNum msg t s = Some (msg, s') \<and>
     mDQState (dqCtx s') = DQ_STATE_WAITING_FOR_RECAP \<and> mSeqNum (dqCtx s') = mSeqNum (dqCtx s) \<and>
     trace s' = trace s @ es \<and> SendRecapRequest (mSubscType s = MAMA_SUBSC_TYPE_GROUP) \<in> set es"
proof -
  have "msgUtils_setStatus MAMA_MSG_STATUS_STALE msg = msg" using assms(4) by (simp add: msgUtils_setStatus_def)
  then show ?thesis
    using assms(3-8)
    by (auto simp: checkSeqNum_update [OF assms(1,2)] in_sequence_def check_update_def
        mamaMsgStatus_statusForMsg_def handleStaleData_def dqStrategy_sendRecapRequest_def Let_def)
qed

text \<open>A context that waits for a recap (after a gap or after a takeover of the feed) leaves that state
  on the next update in sequence, and reports good quality, without any recap: the conditions that
  should prevent this are disjunctions of two inequalities that are always true.\<close>

lemma dq_waiting_left_without_recap:
  assumes "mDQState (dqCtx s) \<in> {DQ_STATE_WAITING_FOR_RECAP, DQ_STATE_WAITING_FOR_RECAP_AFTER_FT}"
    and "same_sender msg s" and "is_update t" and "in_sequence msg t s"
    and "mStatus msg = MAMA_MSG_STATUS_OK" and "cache_ok (dqCtx s)" and "hasOnQuality s"
  shows "\<exists>s'. dqStrategy_checkSeqNum msg t s = Some (msg, s') \<and> mDQState (dqCtx s') = DQ_STATE_OK \<and>
     last (trace s') = OnQuality MAMA_QUALITY_OK"
  using in_sequence_run [OF assms(2-6)] assms(1,7) by auto

end
