(* ===== verification/ListenerMsgCallback.thy ===== *)
theory ListenerMsgCallback
  imports DqStrategy
begin

text \<open>
  The message callback of a market data subscription, \<open>listenermsgcallback.c\<close> (built without
  entitlements), on top of the data quality strategy, with the operations of \<open>subscription.c\<close> that it
  calls. The state extends that of the strategy by the members of the subscription and of the
  subject context used here. The context a message belongs to is \<open>dqCtx\<close>; \<open>ownDqCtx\<close> is the
  subscription's own context when that is another one (group subscriptions), else \<open>None\<close>. Stopping an
  image request is an event, with its effect on \<open>mExpectingInitial\<close>; logging is omitted.
\<close>

subsection \<open>State\<close>

datatype mamaServiceLevel = MAMA_SERVICE_LEVEL_REAL_TIME | MAMA_SERVICE_LEVEL_SNAPSHOT
  | MAMA_SERVICE_LEVEL_REPEATING_SNAPSHOT | MAMA_SERVICE_LEVEL_CONFLATED | MAMA_SERVICE_LEVEL_UNKNOWN

record listenerSystem = dqSystem +
  mRecoverGaps :: bool
  hasDqStrategy :: bool
  mInitialCount :: int
  mImageCount :: int
  mInitialArrived :: bool
  mAcceptMultipleInitials :: bool
  mServiceLevel :: mamaServiceLevel
  mExpectingInitial :: bool
  hasWildcards :: bool
  mRespondToNextRefresh :: bool
  ownDqCtx :: "mamaDqContext option"
  gGenerateQueueStats :: bool

subsection \<open>Operations of the subscription\<close>

definition mamaSubscription_forwardMsg :: "mamaMsg \<Rightarrow> 'a dqSystem_scheme \<Rightarrow> 'a dqSystem_scheme" where
  "mamaSubscription_forwardMsg msg s = emit [OnMsg msg] s"

definition mamaSubscription_checkSeqNum ::
  "mamaMsg \<Rightarrow> mamaMsgType \<Rightarrow> listenerSystem \<Rightarrow> (mamaMsg \<times> listenerSystem) option" where
  "mamaSubscription_checkSeqNum msg msgType s =
    (if mRecoverGaps s \<and> hasDqStrategy s then dqStrategy_checkSeqNum msg msgType s else Some (msg, s))"

text \<open>Both image requests are stopped; stopping one clears \<open>mExpectingInitial\<close>.\<close>

definition mamaSubscription_stopWaitForResponse :: "listenerSystem \<Rightarrow> listenerSystem" where
  "mamaSubscription_stopWaitForResponse s =
    emit [StopWaitInitial, StopWaitRecap] (s\<lparr>mExpectingInitial := False\<rparr>)"

definition mamaSubscription_setPossiblyStale :: "listenerSystem \<Rightarrow> listenerSystem" where
  "mamaSubscription_setPossiblyStale s =
    (let state = dqStrategy_getDqState (case ownDqCtx s of None \<Rightarrow> dqCtx s | Some ctx \<Rightarrow> ctx)
     in if state = DQ_STATE_OK then
          let s = (if hasOnQuality s then emit [OnQuality MAMA_QUALITY_MAYBE_STALE] s else s)
          in case ownDqCtx s of
               None \<Rightarrow> dqStrategy_setPossiblyStale s
             | Some ctx \<Rightarrow> s\<lparr>ownDqCtx := Some (ctx\<lparr>mDQState := DQ_STATE_POSSIBLY_STALE\<rparr>)\<rparr>
        else s)"

definition mamaSubscription_isExpectingUpdates :: "listenerSystem \<Rightarrow> bool" where
  "mamaSubscription_isExpectingUpdates s \<longleftrightarrow> mServiceLevel s \<noteq> MAMA_SERVICE_LEVEL_SNAPSHOT"

definition mamaSubscription_respondToRefreshMessage :: "listenerSystem \<Rightarrow> listenerSystem" where
  "mamaSubscription_respondToRefreshMessage s =
    (if mRespondToNextRefresh s then emit [ResetRefresh] s else s\<lparr>mRespondToNextRefresh := True\<rparr>)"

definition mamaSubscription_getQuality :: "mamaDqContext \<Rightarrow> mamaQuality" where
  "mamaSubscription_getQuality ctx =
    (case dqStrategy_getDqState ctx of
       DQ_STATE_OK \<Rightarrow> MAMA_QUALITY_OK
     | DQ_STATE_WAITING_FOR_RECAP \<Rightarrow> MAMA_QUALITY_STALE
     | DQ_STATE_STALE_NO_RECAP \<Rightarrow> MAMA_QUALITY_STALE
     | DQ_STATE_POSSIBLY_STALE \<Rightarrow> MAMA_QUALITY_MAYBE_STALE
     | DQ_STATE_DUPLICATE \<Rightarrow> MAMA_QUALITY_DUPLICATE
     | _ \<Rightarrow> MAMA_QUALITY_UNKNOWN)"

subsection \<open>Operations of the callback\<close>

text \<open>The three collectors that may count an event.\<close>

definition increment_stats :: "stat \<Rightarrow> listenerSystem \<Rightarrow> listenerSystem" where
  "increment_stats st s =
    emit ((if gGenerateQueueStats s then [IncrementStat QueueStats st] else []) @
          (if gGenerateTransportStats s then [IncrementStat TransportStats st] else []) @
          (if hasGlobalStats s then [IncrementStat GlobalStats st] else [])) s"

definition isInitialMessageOrRecap :: "mamaMsgType \<Rightarrow> bool" where
  "isInitialMessageOrRecap msgType \<longleftrightarrow>
     msgType = MAMA_MSG_TYPE_INITIAL \<or> msgType = MAMA_MSG_TYPE_SNAPSHOT \<or>
     msgType = MAMA_MSG_TYPE_DDICT_SNAPSHOT \<or> msgType = MAMA_MSG_TYPE_RECAP \<or>
     msgType = MAMA_MSG_TYPE_BOOK_INITIAL \<or> msgType = MAMA_MSG_TYPE_BOOK_SNAPSHOT \<or>
     msgType = MAMA_MSG_TYPE_BOOK_RECAP"

text \<open>\<open>msgUtils_msgTotal\<close> and \<open>msgUtils_msgNum\<close> convert a 32-bit variable to \<open>short\<close>; it is not
  initialised, so that a message without the field gives the arbitrary value \<open>junk\<close>.\<close>

definition msgUtils_msgTotal :: "i32 \<Rightarrow> mamaMsg \<Rightarrow> 16 word" where
  "msgUtils_msgTotal junk msg = ucast (case fMsgTotal msg of None \<Rightarrow> junk | Some v \<Rightarrow> v)"

definition msgUtils_msgNum :: "i32 \<Rightarrow> mamaMsg \<Rightarrow> 16 word" where
  "msgUtils_msgNum junk msg = ucast (case fMsgNum msg of None \<Rightarrow> junk | Some v \<Rightarrow> v)"

definition processPointToPointMessage ::
  "i32 \<times> i32 \<Rightarrow> mamaMsg \<Rightarrow> mamaMsgType \<Rightarrow> listenerSystem \<Rightarrow> listenerSystem option" where
  "processPointToPointMessage junk msg msgType s =
    do { let total = msgUtils_msgTotal (fst junk) msg;
         let msgNo = msgUtils_msgNum (snd junk) msg;
         let s = (if total = 0 \<or> msgNo = total then
                    let s = s\<lparr>mInitialCount := mInitialCount s + 1, mImageCount := mImageCount s + 1,
                              mInitialArrived := True\<rparr>
                    in if \<not> mAcceptMultipleInitials s then mamaSubscription_stopWaitForResponse s else s
                  else s);
         (msg, s) \<leftarrow> mamaSubscription_checkSeqNum msg msgType s;
         let s = (if \<not> mamaSubscription_isExpectingUpdates s \<and> \<not> mAcceptMultipleInitials s
                  then emit [Deactivate] s else s);
         let s = mamaSubscription_forwardMsg msg s;
         if mPreInitialScheme s = PRE_INITIAL_SCHEME_ON_INITIAL \<and>
            (msgType = MAMA_MSG_TYPE_INITIAL \<or> msgType = MAMA_MSG_TYPE_BOOK_INITIAL \<or>
             (mPreRecapCacheEnabled s \<and> (msgType = MAMA_MSG_TYPE_RECAP \<or> msgType = MAMA_MSG_TYPE_BOOK_RECAP)))
         then
           do { (ctx, fwd) \<leftarrow> dqContext_applyPreInitialCache (dqCtx s);
                clear_cache (emit (map OnMsg fwd) (s\<lparr>dqCtx := ctx\<rparr>)) }
         else Some s }"

definition listenerMsgCallback_invokeErrorCallback :: "mama_status \<Rightarrow> listenerSystem \<Rightarrow> listenerSystem" where
  "listenerMsgCallback_invokeErrorCallback status s =
    emit [OnError status] (mamaSubscription_stopWaitForResponse s)"

text \<open>The message type that is written into the message is not read again.\<close>

definition handleNoSubscribers :: "listenerSystem \<Rightarrow> listenerSystem" where
  "handleNoSubscribers s =
    (let s = (if \<not> hasWildcards s then mamaSubscription_stopWaitForResponse s else s)
     in listenerMsgCallback_invokeErrorCallback MAMA_STATUS_NO_SUBSCRIBERS s)"

text \<open>The first switch of \<open>listenerMsgCallback_processMsg\<close>: the state and whether to go on.\<close>

definition process_status ::
  "mamaMsgStatus \<Rightarrow> mamaMsgType \<Rightarrow> listenerSystem \<Rightarrow> listenerSystem \<times> bool" where
  "process_status status msgType s =
    (case status of
       MAMA_MSG_STATUS_NOT_PERMISSIONED \<Rightarrow>
         (listenerMsgCallback_invokeErrorCallback MAMA_STATUS_NOT_PERMISSIONED s, False)
     | MAMA_MSG_STATUS_BAD_SYMBOL \<Rightarrow>
         (listenerMsgCallback_invokeErrorCallback MAMA_STATUS_BAD_SYMBOL s, False)
     | MAMA_MSG_STATUS_EXPIRED \<Rightarrow>
         (listenerMsgCallback_invokeErrorCallback MAMA_STATUS_EXPIRED s, False)
     | MAMA_MSG_STATUS_NOT_FOUND \<Rightarrow>
         (listenerMsgCallback_invokeErrorCallback MAMA_STATUS_NOT_FOUND s, False)
     | MAMA_MSG_STATUS_TIMEOUT \<Rightarrow>
         (listenerMsgCallback_invokeErrorCallback MAMA_STATUS_TIMEOUT s, False)
     | MAMA_MSG_STATUS_NO_SUBSCRIBERS \<Rightarrow> (handleNoSubscribers s, False)
     | MAMA_MSG_STATUS_POSSIBLY_STALE \<Rightarrow>
         (if msgType = MAMA_MSG_TYPE_MISC then mamaSubscription_setPossiblyStale s else s, True)
     | MAMA_MSG_STATUS_BANDWIDTH_EXCEEDED \<Rightarrow>
         (listenerMsgCallback_invokeErrorCallback MAMA_STATUS_BANDWIDTH_EXCEEDED s, False)
     | MAMA_MSG_STATUS_UNKNOWN \<Rightarrow>
         (increment_stats MamaStatUnknownMsgs (mamaSubscription_setPossiblyStale s), False)
     | _ \<Rightarrow> (s, True))"

definition process_stats :: "mamaMsgType \<Rightarrow> listenerSystem \<Rightarrow> listenerSystem" where
  "process_stats msgType s =
    (case msgType of
       MAMA_MSG_TYPE_INITIAL \<Rightarrow> increment_stats MamaStatInitials s
     | MAMA_MSG_TYPE_RECAP \<Rightarrow> increment_stats MamaStatRecaps s
     | MAMA_MSG_TYPE_BOOK_RECAP \<Rightarrow> increment_stats MamaStatRecaps s
     | MAMA_MSG_TYPE_UNKNOWN \<Rightarrow> increment_stats MamaStatUnknownMsgs s
     | _ \<Rightarrow> s)"

definition check_and_forward :: "mamaMsg \<Rightarrow> mamaMsgType \<Rightarrow> listenerSystem \<Rightarrow> listenerSystem option" where
  "check_and_forward msg msgType s =
    do { (msg, s) \<leftarrow> mamaSubscription_checkSeqNum msg msgType s;
         Some (if \<not> mDoNotForward (dqCtx s) then mamaSubscription_forwardMsg msg s else s) }"

definition stop_and_report :: "mama_status \<Rightarrow> listenerSystem \<Rightarrow> listenerSystem" where
  "stop_and_report status s =
    listenerMsgCallback_invokeErrorCallback status (mamaSubscription_stopWaitForResponse s)"

definition process_type :: "mamaMsg \<Rightarrow> mamaMsgType \<Rightarrow> listenerSystem \<Rightarrow> listenerSystem option" where
  "process_type msg msgType s =
    (case msgType of
       MAMA_MSG_TYPE_REFRESH \<Rightarrow> Some (mamaSubscription_respondToRefreshMessage s)
     | MAMA_MSG_TYPE_DELETE \<Rightarrow> Some (stop_and_report MAMA_STATUS_DELETE s)
     | MAMA_MSG_TYPE_EXPIRE \<Rightarrow> Some (stop_and_report MAMA_STATUS_EXPIRED s)
     | MAMA_MSG_TYPE_NOT_PERMISSIONED \<Rightarrow> Some (stop_and_report MAMA_STATUS_NOT_PERMISSIONED s)
     | MAMA_MSG_TYPE_NOT_FOUND \<Rightarrow> Some (stop_and_report MAMA_STATUS_NOT_FOUND s)
     | MAMA_MSG_TYPE_UNKNOWN \<Rightarrow> Some s
     | _ \<Rightarrow> check_and_forward msg msgType s)"

text \<open>Whether an update is kept back, because an initial value or a recap is awaited.\<close>

definition held_back :: "mamaMsgType \<Rightarrow> listenerSystem \<Rightarrow> bool" where
  "held_back msgType s \<longleftrightarrow>
     (mExpectingInitial s \<and> \<not> mInitialArrived s) \<or>
     (dqStrategy_getDqState (dqCtx s) = DQ_STATE_WAITING_FOR_RECAP \<and> mPreRecapCacheEnabled s \<and>
      msgType \<noteq> MAMA_MSG_TYPE_DELETE \<and> msgType \<noteq> MAMA_MSG_TYPE_EXPIRE \<and> msgType \<noteq> MAMA_MSG_TYPE_UNKNOWN)"

definition hold_back :: "bool \<Rightarrow> mamaMsg \<Rightarrow> listenerSystem \<Rightarrow> listenerSystem option" where
  "hold_back detachOk msg s =
    do { let s = (if dqStrategy_getDqState (dqCtx s) = DQ_STATE_WAITING_FOR_RECAP \<and> mPreRecapCacheEnabled s
                  then upd_ctx (\<lambda>ctx. ctx\<lparr>mSetCacheMsgStale := True\<rparr>) s else s);
         (ctx, destroyed) \<leftarrow> dqContext_cacheMsg detachOk msg (dqCtx s);
         Some (emit (map DestroyMsg destroyed) (s\<lparr>dqCtx := ctx\<rparr>)) }"

definition listenerMsgCallback_processMsg ::
  "i32 \<times> i32 \<Rightarrow> bool \<Rightarrow> mamaMsg \<Rightarrow> listenerSystem \<Rightarrow> listenerSystem option" where
  "listenerMsgCallback_processMsg junk detachOk msg s =
    (let msgType = mamaMsgType_typeForMsg msg;
         (msg, status) = mamaMsgImpl_getStatusFromMsg msg;
         s = increment_stats MamaStatNumMessages s;
         (s, continue) = (if status \<noteq> MAMA_MSG_STATUS_OK then process_status status msgType s else (s, True))
     in if \<not> continue then Some s
        else
          let s = process_stats msgType s
          in if isInitialMessageOrRecap msgType then processPointToPointMessage junk msg msgType s
             else if held_back msgType s then hold_back detachOk msg s
             else process_type msg msgType s)"

subsection \<open>Properties\<close>

text \<open>The error codes that statuses of messages are translated to.\<close>

definition error_of_status :: "mamaMsgStatus \<Rightarrow> mama_status option" where
  "error_of_status st = map_of
     [(MAMA_MSG_STATUS_NOT_PERMISSIONED, MAMA_STATUS_NOT_PERMISSIONED),
      (MAMA_MSG_STATUS_BAD_SYMBOL, MAMA_STATUS_BAD_SYMBOL), (MAMA_MSG_STATUS_EXPIRED, MAMA_STATUS_EXPIRED),
      (MAMA_MSG_STATUS_NOT_FOUND, MAMA_STATUS_NOT_FOUND), (MAMA_MSG_STATUS_TIMEOUT, MAMA_STATUS_TIMEOUT),
      (MAMA_MSG_STATUS_NO_SUBSCRIBERS, MAMA_STATUS_NO_SUBSCRIBERS),
      (MAMA_MSG_STATUS_BANDWIDTH_EXCEEDED, MAMA_STATUS_BANDWIDTH_EXCEEDED)] st"

definition is_stat :: "sub_event \<Rightarrow> bool" where
  "is_stat e \<longleftrightarrow> (case e of IncrementStat _ _ \<Rightarrow> True | _ \<Rightarrow> False)"

lemma stats_simps [simp]:
  "dqCtx (increment_stats st s) = dqCtx s" "mExpectingInitial (increment_stats st s) = mExpectingInitial s"
  "mInitialArrived (increment_stats st s) = mInitialArrived s"
  "mPreRecapCacheEnabled (increment_stats st s) = mPreRecapCacheEnabled s"
  "mRecoverGaps (increment_stats st s) = mRecoverGaps s" "hasDqStrategy (increment_stats st s) = hasDqStrategy s"
  "hasOnQuality (increment_stats st s) = hasOnQuality s" "mTryToFillGap (increment_stats st s) = mTryToFillGap s"
  "mFtStrategyScheme (increment_stats st s) = mFtStrategyScheme s"
  "mDqStrategyScheme (increment_stats st s) = mDqStrategyScheme s"
  by (simp_all add: increment_stats_def emit_def)

lemma increment_stats_trace:
  obtains es where "trace (increment_stats st s) = trace s @ es" and "\<forall>e \<in> set es. is_stat e"
  by (rule that) (auto simp: increment_stats_def is_stat_def)

lemma stop_simps [simp]:
  "trace (mamaSubscription_stopWaitForResponse s) = trace s @ [StopWaitInitial, StopWaitRecap]"
  "dqCtx (mamaSubscription_stopWaitForResponse s) = dqCtx s"
  "mExpectingInitial (mamaSubscription_stopWaitForResponse s) = False"
  by (simp_all add: mamaSubscription_stopWaitForResponse_def emit_def)

lemma mExpectingInitial_emit [simp]: "mExpectingInitial (emit es s) = mExpectingInitial s"
  by (simp add: emit_def)

lemma conflate_count_status: "conflate_count t (msg\<lparr>mStatus := st\<rparr>) = conflate_count t msg"
  by (simp add: conflate_count_def)

text \<open>An update with status OK that is not kept back goes straight to the check of its sequence number.\<close>

lemma process_update:
  assumes "fMsgType msg = Some t" and "t \<in> {MAMA_MSG_TYPE_UPDATE, MAMA_MSG_TYPE_QUOTE, MAMA_MSG_TYPE_TRADE}"
    and "fMsgStatus msg = Some MAMA_MSG_STATUS_OK" and "\<not> held_back t s"
  shows "listenerMsgCallback_processMsg junk ok msg s =
     check_and_forward (msg\<lparr>mStatus := MAMA_MSG_STATUS_OK\<rparr>) t (increment_stats MamaStatNumMessages s)"
  using assms
  by (auto simp: listenerMsgCallback_processMsg_def mamaMsgImpl_getStatusFromMsg_def mamaMsgType_typeForMsg_def held_back_def
      process_type_def process_stats_def isInitialMessageOrRecap_def Let_def)

text \<open>A subscription that waits for its initial value (or not), with a cache of two slots.\<close>

definition lst_demo :: "bool \<Rightarrow> listenerSystem" where
  "lst_demo waiting = dqSystem.extend
     ((sys_demo DQ_STATE_OK)\<lparr>dqCtx := dqContext_initializeContext True 2 (Some 1) ctx0\<lparr>mSeqNum := 3, mSenderId := 7, mDQState := DQ_STATE_OK\<rparr>\<rparr>)
     (listenerSystem.fields True True 0 0 (\<not> waiting) False MAMA_SERVICE_LEVEL_REAL_TIME waiting False True None False)"

lemma lst_demo_fields [simp]:
  "mRecoverGaps (lst_demo w)" "hasDqStrategy (lst_demo w)" "mExpectingInitial (lst_demo w) = w"
  "mInitialArrived (lst_demo w) = (\<not> w)" "trace (lst_demo w) = []"
  "mFtStrategyScheme (lst_demo w) = DQ_FT_WAIT_FOR_RECAP" "mDqStrategyScheme (lst_demo w) = DQ_SCHEME_DELIVER_ALL"
  "\<not> mPreRecapCacheEnabled (lst_demo w)"
  "dqCtx (lst_demo w) = ctx0\<lparr>mSeqNum := 3, mSenderId := 7, mDQState := DQ_STATE_OK, mRecapRequest := Some 1,
     mCache := Some [None, None], mCacheSize := 2\<rparr>"
  by (simp_all add: lst_demo_def dqSystem.defs listenerSystem.defs sys_demo_def dqContext_initializeContext_def
      ctx0_def Let_def numeral_2_eq_2)

lemma upd_wire [simp]:
  "fMsgType (upd n) = Some MAMA_MSG_TYPE_UPDATE" "fMsgStatus (upd n) = Some MAMA_MSG_STATUS_OK"
  "\<not> mDqStrategyContext (upd n)" "(upd n)\<lparr>mStatus := MAMA_MSG_STATUS_OK\<rparr> = upd n"
  by (simp_all add: upd_def)

text \<open>C15: a message with an error status is not delivered: the error callback is called exactly once,
  with the corresponding code, the outstanding image requests are stopped, and the data quality
  context is not touched.\<close>

theorem listener_reports_error:
  assumes "error_of_status (case fMsgStatus msg of None \<Rightarrow> MAMA_MSG_STATUS_UNKNOWN | Some st \<Rightarrow> st) = Some err"
  shows "\<exists>s' es. listenerMsgCallback_processMsg junk ok msg s = Some s' \<and> trace s' = trace s @ es @ [OnError err] \<and>
     (\<forall>e \<in> set es. is_stat e \<or> e \<in> {StopWaitInitial, StopWaitRecap}) \<and> {StopWaitInitial, StopWaitRecap} \<subseteq> set es \<and>
     \<not> mExpectingInitial s' \<and> dqCtx s' = dqCtx s"
proof -
  obtain es where "trace (increment_stats MamaStatNumMessages s) = trace s @ es" "\<forall>e \<in> set es. is_stat e"
    by (rule increment_stats_trace)
  then show ?thesis
    using assms
    by (auto simp: listenerMsgCallback_processMsg_def mamaMsgImpl_getStatusFromMsg_def error_of_status_def
        process_status_def handleNoSubscribers_def listenerMsgCallback_invokeErrorCallback_def Let_def
        split: if_splits option.splits)
qed

theorem listener_reports_error_witness:
  "\<exists>s' es. listenerMsgCallback_processMsg (0, 0) True ((upd 4)\<lparr>fMsgStatus := Some MAMA_MSG_STATUS_BAD_SYMBOL\<rparr>) (lst_demo True)
       = Some s' \<and> trace s' = es @ [OnError MAMA_STATUS_BAD_SYMBOL] \<and>
     (\<forall>e \<in> set es. is_stat e \<or> e \<in> {StopWaitInitial, StopWaitRecap}) \<and> {StopWaitInitial, StopWaitRecap} \<subseteq> set es \<and>
     \<not> mExpectingInitial s'"
  using listener_reports_error [of "(upd 4)\<lparr>fMsgStatus := Some MAMA_MSG_STATUS_BAD_SYMBOL\<rparr>" MAMA_STATUS_BAD_SYMBOL
      "(0, 0)" True "lst_demo True"]
  by (auto simp: error_of_status_def)

text \<open>C14: while the initial value of a subscription is awaited no update reaches the application: it is
  put into the cache instead, the oldest one being dropped when the cache is full, and nothing else
  of the context changes.\<close>

theorem listener_holds_back_updates:
  assumes "mExpectingInitial s" and "\<not> mInitialArrived s"
    and "fMsgStatus msg = Some MAMA_MSG_STATUS_OK" and "\<not> isInitialMessageOrRecap (mamaMsgType_typeForMsg msg)"
    and "dq_ring (dqCtx s) ms" and "\<not> mDqStrategyContext msg" and "\<not> mPreRecapCacheEnabled s"
  shows "\<exists>s' es. listenerMsgCallback_processMsg junk ok msg s = Some s' \<and>
     dq_ring (dqCtx s') (keep_newest (mCacheSize (dqCtx s)) (ms @ [cached (msg\<lparr>mStatus := MAMA_MSG_STATUS_OK\<rparr>)])) \<and>
     trace s' = trace s @ es \<and> (\<forall>e \<in> set es. is_stat e \<or> (\<exists>m. e = DestroyMsg m))"
proof -
  let ?m = "msg\<lparr>mStatus := MAMA_MSG_STATUS_OK\<rparr>" and ?t = "mamaMsgType_typeForMsg msg"
  let ?s = "process_stats ?t (increment_stats MamaStatNumMessages s)"
  have ps: "process_stats ?t u = u \<or> process_stats ?t u = increment_stats MamaStatUnknownMsgs u" for u
    using assms(4) by (auto simp: process_stats_def isInitialMessageOrRecap_def split: mamaMsgType.splits)
  obtain e1 where e1: "trace (increment_stats MamaStatNumMessages s) = trace s @ e1" "\<forall>e \<in> set e1. is_stat e"
    by (rule increment_stats_trace)
  obtain e2 where e2: "trace (increment_stats MamaStatUnknownMsgs (increment_stats MamaStatNumMessages s))
      = trace (increment_stats MamaStatNumMessages s) @ e2" "\<forall>e \<in> set e2. is_stat e"
    by (rule increment_stats_trace)
  have "\<exists>es. trace ?s = trace s @ es \<and> (\<forall>e \<in> set es. is_stat e)"
    using ps [of "increment_stats MamaStatNumMessages s"] e1 e2 by auto
  then obtain es where es: "trace ?s = trace s @ es" "\<forall>e \<in> set es. is_stat e" by blast
  have s: "dqCtx ?s = dqCtx s" "mExpectingInitial ?s" "\<not> mInitialArrived ?s" "\<not> mPreRecapCacheEnabled ?s"
    using ps [of "increment_stats MamaStatNumMessages s"] assms(1,2,7) by auto
  obtain ctx ds where "dqContext_cacheMsg ok ?m (dqCtx s) = Some (ctx, ds)"
    "dq_ring ctx (keep_newest (mCacheSize (dqCtx s)) (ms @ [cached ?m]))"
    using cacheMsg_run [OF assms(5), of ?m ok] assms(6) by auto
  then show ?thesis
    using s es assms(3,4)
    by (auto simp: listenerMsgCallback_processMsg_def mamaMsgImpl_getStatusFromMsg_def held_back_def
        hold_back_def Let_def intro!: exI [of _ "es @ map DestroyMsg ds"])
qed

theorem listener_holds_back_updates_witness:
  "\<exists>s' es. listenerMsgCallback_processMsg (0, 0) True (upd 4) (lst_demo True) = Some s' \<and>
     dq_ring (dqCtx s') [cached (upd 4)] \<and> trace s' = es \<and> (\<forall>e \<in> set es. is_stat e \<or> (\<exists>m. e = DestroyMsg m))"
proof -
  have "dq_ring (dqCtx (lst_demo True)) []" by (simp add: dq_ring_def ring_def ctx0_def numeral_2_eq_2)
  with listener_holds_back_updates [of "lst_demo True" "upd 4" "[]" "(0, 0)" True] show ?thesis
    by (simp add: mamaMsgType_typeForMsg_def isInitialMessageOrRecap_def keep_newest_def)
qed

text \<open>Outside the waiting phases an update of the known sender with the next sequence number is
  delivered to the application exactly once, unchanged, and no error, gap or recap request occurs on
  the way; it becomes the last message of the context.\<close>

lemma listener_delivers_in_sequence:
  assumes "fMsgType msg = Some t" and "t \<in> {MAMA_MSG_TYPE_UPDATE, MAMA_MSG_TYPE_QUOTE, MAMA_MSG_TYPE_TRADE}"
    and "fMsgStatus msg = Some MAMA_MSG_STATUS_OK" and "\<not> held_back t s"
    and "mRecoverGaps s" and "hasDqStrategy s"
    and "same_sender msg s" and "in_sequence msg t s" and "cache_ok (dqCtx s)" and "mDQState (dqCtx s) = DQ_STATE_OK"
  shows "\<exists>s' es. listenerMsgCallback_processMsg junk ok msg s = Some s' \<and>
     trace s' = trace s @ es @ [OnMsg (msg\<lparr>mStatus := MAMA_MSG_STATUS_OK\<rparr>)] \<and>
     (\<forall>e \<in> set es. is_stat e \<or> quiet e) \<and> mSeqNum (dqCtx s') = mamaMsg_getSeqNum msg"
proof -
  let ?m = "msg\<lparr>mStatus := MAMA_MSG_STATUS_OK\<rparr>" and ?s = "increment_stats MamaStatNumMessages s"
  obtain e1 where e1: "trace ?s = trace s @ e1" "\<forall>e \<in> set e1. is_stat e"
    by (rule increment_stats_trace)
  have m: "mamaMsg_getSeqNum ?m = mamaMsg_getSeqNum msg" by (simp add: mamaMsg_getSeqNum_def)
  have upd: "is_update t" using assms(2) by (auto simp: is_update_def)
  have "same_sender ?m ?s" "in_sequence ?m t ?s" "cache_ok (dqCtx ?s)"
    using assms(7,8,9) m by (simp_all add: same_sender_def in_sequence_def conflate_count_status)
  from in_sequence_run [OF this(1) upd this(2) _ this(3)] m assms(10) obtain s' e2 where
    s': "dqStrategy_checkSeqNum ?m t ?s = Some (?m, s')" "mSeqNum (dqCtx s') = mamaMsg_getSeqNum msg"
    "\<not> mDoNotForward (dqCtx s')" "trace s' = trace s @ e1 @ e2" "\<forall>e \<in> set e2. quiet e"
    using e1(1) by auto
  have "listenerMsgCallback_processMsg junk ok msg s = Some (emit [OnMsg ?m] s')"
    using s' assms(5,6)
    by (simp add: process_update [OF assms(1-4)] check_and_forward_def mamaSubscription_checkSeqNum_def mamaSubscription_forwardMsg_def)
  then show ?thesis using s' e1(2) by (auto intro!: exI [of _ "e1 @ e2"])
qed

text \<open>With the scheme that waits for a recap after a fault tolerant takeover, an update of a new
  sender is not delivered to the application, whatever its sequence number.\<close>

lemma listener_ft_takeover_not_forwarded:
  assumes "fMsgType msg = Some t" and "t \<in> {MAMA_MSG_TYPE_UPDATE, MAMA_MSG_TYPE_QUOTE, MAMA_MSG_TYPE_TRADE}"
    and "fMsgStatus msg = Some MAMA_MSG_STATUS_OK" and "\<not> held_back t s"
    and "mRecoverGaps s" and "hasDqStrategy s" and "\<not> mTryToFillGap s"
    and "mFtStrategyScheme s = DQ_FT_WAIT_FOR_RECAP"
    and "\<not> same_sender msg s"
  shows "\<exists>s' es. listenerMsgCallback_processMsg junk ok msg s = Some s' \<and>
     trace s' = trace s @ es \<and> (\<forall>m. OnMsg m \<notin> set es)"
proof -
  let ?m = "msg\<lparr>mStatus := MAMA_MSG_STATUS_OK\<rparr>" and ?s = "increment_stats MamaStatNumMessages s"
  obtain e1 where e1: "trace ?s = trace s @ e1" "\<forall>e \<in> set e1. is_stat e"
    by (rule increment_stats_trace)
  have "is_update t" "\<not> mTryToFillGap ?s" "mFtStrategyScheme ?s = DQ_FT_WAIT_FOR_RECAP" "\<not> same_sender ?m ?s"
    using assms(2,7-9) by (auto simp: is_update_def same_sender_def)
  then obtain m' u e2 where u: "dqStrategy_checkSeqNum ?m t ?s = Some (m', u)" "mDoNotForward (dqCtx u)"
    "trace u = trace ?s @ e2" "\<forall>m. OnMsg m \<notin> set e2"
    by (rule takeover_delivers_nothing)
  have "listenerMsgCallback_processMsg junk ok msg s = Some u"
    using assms(5,6) u(1,2)
    by (simp add: process_update [OF assms(1-4)] check_and_forward_def mamaSubscription_checkSeqNum_def)
  moreover have "\<forall>m. OnMsg m \<notin> set e1" using e1(2) unfolding is_stat_def by fastforce
  ultimately show ?thesis using u(3,4) e1(1) by (intro exI [of _ u] exI [of _ "e1 @ e2"]) auto
qed

end
