(* ===== verification/Ft.thy ===== *)
theory Ft
  imports Complex_Main Mama_Prelude "HOL-Library.Product_Lexorder"
begin

text \<open>
  Fault tolerant groups, \<open>mama/c_cpp/src/c/ft.c\<close>: the members of a group send heartbeats and elect
  the one with the best credentials as the active one. A timer is a boolean (whether the pointer is
  not \<open>NULL\<close>); what \<open>mamaTimer_create\<close> and \<open>mamaIo_create\<close> return is given by the environment.
  Heartbeats sent, timer resets and state callbacks are recorded in \<open>ftTrace\<close>. The variable
  \<open>foundheartbeat\<close> is shared by all members of a process in the code; here it is a member of the
  state of the only member. Sockets are lists of the packets that wait to be received; a packet that
  cannot be parsed is \<open>None\<close>.
\<close>

subsection \<open>Data\<close>

datatype mamaFtState = MAMA_FT_STATE_STANDBY | MAMA_FT_STATE_ACTIVE | MAMA_FT_STATE_UNKNOWN

datatype mamaFtType = MAMA_FT_TYPE_MULTICAST | MAMA_FT_TYPE_BRIDGE

record heartbeat =
  hbWeight :: u32
  hbIncarnation :: u32
  hbPid :: i32
  hbIpAddr :: i32
  hbPrimary :: u32
  hbGroupName :: string

datatype ft_event = SendHeartbeat heartbeat | StateChangeCb mamaFtState | ResetHeartbeatTimer
  | ResetTimeoutTimer

record mamaFtMember =
  ftType :: mamaFtType
  myGroupName :: string
  myWeight :: u32
  myIncarnation :: u32
  myNextIncarnation :: u32
  myHeartbeatInterval :: rat
  myTimeoutInterval :: rat
  myIsActive :: bool
  mySubscriptionActive :: bool
  myReadHandler :: bool
  myHeartbeatTimer :: bool
  myTimeoutTimer :: bool
  myHeartbeatTick :: u32
  myState :: mamaFtState
  myIP :: i32
  myPid :: i32
  myRecvWindow :: int
  myInstanceId :: "string option"
  mySymbol :: "string option"
  myRecvSocket :: int
  mySendSocket :: int
  mySendAddr :: "string \<times> u16"
  foundheartbeat :: nat
  ftTrace :: "ft_event list"

text \<open>The results of the bridge: the status of creating a timer and whether the pointer is set, the
  status of creating the I/O handler, and the address of the host.\<close>

record ftEnv =
  timerStatus :: mama_status
  timerSet :: bool
  ioStatus :: mama_status
  ipAddress :: i32

definition ft_emit :: "ft_event list \<Rightarrow> mamaFtMember \<Rightarrow> mamaFtMember" where
  "ft_emit es impl = impl\<lparr>ftTrace := ftTrace impl @ es\<rparr>"

subsection \<open>Heartbeats and timers\<close>

definition state_code :: "mamaFtState \<Rightarrow> u32" where
  "state_code st = (case st of MAMA_FT_STATE_STANDBY \<Rightarrow> 0 | MAMA_FT_STATE_ACTIVE \<Rightarrow> 1 | MAMA_FT_STATE_UNKNOWN \<Rightarrow> 99)"

text \<open>The contents of a heartbeat; the bridge variant sends the incarnation in place of the state.\<close>

definition ftSendHeartbeat_msg :: "mamaFtMember \<Rightarrow> heartbeat" where
  "ftSendHeartbeat_msg impl =
    \<lparr>hbWeight = myWeight impl, hbIncarnation = myIncarnation impl, hbPid = myPid impl, hbIpAddr = myIP impl,
     hbPrimary = (case ftType impl of
                    MAMA_FT_TYPE_MULTICAST \<Rightarrow> state_code (myState impl)
                  | MAMA_FT_TYPE_BRIDGE \<Rightarrow> myIncarnation impl),
     hbGroupName = myGroupName impl\<rparr>"

definition ftSendHeartbeat :: "mamaFtMember \<Rightarrow> mamaFtMember" where
  "ftSendHeartbeat impl = ft_emit [SendHeartbeat (ftSendHeartbeat_msg impl)] impl"

text \<open>Resetting a timer whose pointer is \<open>NULL\<close> returns an error and has no effect.\<close>

definition resetTimeoutTimer :: "mamaFtMember \<Rightarrow> mamaFtMember \<times> mama_status" where
  "resetTimeoutTimer impl =
    (if myTimeoutTimer impl then (ft_emit [ResetTimeoutTimer] impl, MAMA_STATUS_OK)
     else (impl, MAMA_STATUS_NULL_ARG))"

definition startTimeoutTimer :: "ftEnv \<Rightarrow> mamaFtMember \<Rightarrow> mamaFtMember \<times> mama_status" where
  "startTimeoutTimer env impl =
    (if myTimeoutTimer impl then resetTimeoutTimer impl
     else (impl\<lparr>myTimeoutTimer := timerSet env\<rparr>, timerStatus env))"

text \<open>The returned status is not read by any caller (it is not initialised when there is no timer).\<close>

definition stopTimeoutTimer :: "mamaFtMember \<Rightarrow> mamaFtMember" where
  "stopTimeoutTimer impl = (if myTimeoutTimer impl then impl\<lparr>myTimeoutTimer := False\<rparr> else impl)"

definition invokeStateChange :: "ftEnv \<Rightarrow> mamaFtState \<Rightarrow> mamaFtMember \<Rightarrow> mamaFtMember" where
  "invokeStateChange env state impl =
    (if myState impl = state then impl
     else
       let impl = (case state of
                     MAMA_FT_STATE_ACTIVE \<Rightarrow>
                       let impl = impl\<lparr>myIncarnation := myNextIncarnation impl\<rparr>;
                           impl = ftSendHeartbeat impl;
                           impl = (if myHeartbeatTimer impl then ft_emit [ResetHeartbeatTimer] impl else impl)
                       in stopTimeoutTimer impl
                   | MAMA_FT_STATE_STANDBY \<Rightarrow> fst (startTimeoutTimer env impl)
                   | MAMA_FT_STATE_UNKNOWN \<Rightarrow> fst (startTimeoutTimer env impl));
           impl = impl\<lparr>myState := state\<rparr>
       in ft_emit [StateChangeCb state] impl)"

definition checkState :: "ftEnv \<Rightarrow> mamaFtState \<Rightarrow> mamaFtMember \<Rightarrow> mamaFtMember" where
  "checkState env state impl =
    (case state of
       MAMA_FT_STATE_STANDBY \<Rightarrow>
         (case myState impl of
            MAMA_FT_STATE_UNKNOWN \<Rightarrow> invokeStateChange env MAMA_FT_STATE_STANDBY impl
          | MAMA_FT_STATE_ACTIVE \<Rightarrow> invokeStateChange env MAMA_FT_STATE_STANDBY impl
          | MAMA_FT_STATE_STANDBY \<Rightarrow> impl)
     | MAMA_FT_STATE_ACTIVE \<Rightarrow>
         (case myState impl of
            MAMA_FT_STATE_UNKNOWN \<Rightarrow> invokeStateChange env MAMA_FT_STATE_ACTIVE impl
          | MAMA_FT_STATE_STANDBY \<Rightarrow> invokeStateChange env MAMA_FT_STATE_ACTIVE impl
          | MAMA_FT_STATE_ACTIVE \<Rightarrow> impl)
     | MAMA_FT_STATE_UNKNOWN \<Rightarrow>
         (case myState impl of
            MAMA_FT_STATE_ACTIVE \<Rightarrow> invokeStateChange env MAMA_FT_STATE_UNKNOWN impl
          | MAMA_FT_STATE_STANDBY \<Rightarrow> invokeStateChange env MAMA_FT_STATE_UNKNOWN impl
          | MAMA_FT_STATE_UNKNOWN \<Rightarrow> impl))"

text \<open>The result \<open>True\<close> is the return value 0: the other member has better credentials. The
  addresses are compared as unsigned numbers, the process ids as signed ones.\<close>

definition mamaBetterCredentials :: "mamaFtMember \<Rightarrow> u32 \<Rightarrow> u32 \<Rightarrow> u32 \<Rightarrow> i32 \<Rightarrow> bool" where
  "mamaBetterCredentials impl weight incarnation ipAddr pid =
    (if weight > myWeight impl then True
     else if weight = myWeight impl \<and> incarnation > myIncarnation impl then True
     else if weight = myWeight impl \<and> incarnation = myIncarnation impl \<and> ipAddr > myIP impl then True
     else if weight = myWeight impl \<and> incarnation = myIncarnation impl \<and> ipAddr = myIP impl \<and>
             sint pid > sint (myPid impl) then True
     else False)"

definition mamaCheckHeartbeat :: "ftEnv \<Rightarrow> heartbeat \<Rightarrow> mamaFtMember \<Rightarrow> mamaFtMember" where
  "mamaCheckHeartbeat env hb impl =
    (if hbGroupName hb \<noteq> myGroupName impl then impl
     else if hbPid hb = myPid impl \<and> hbIpAddr hb = myIP impl then impl
     else if mamaBetterCredentials impl (hbWeight hb) (hbIncarnation hb) (hbIpAddr hb) (hbPid hb) then
       let impl = (if hbIncarnation hb \<ge> myNextIncarnation impl
                   then impl\<lparr>myNextIncarnation := hbIncarnation hb + 1\<rparr> else impl);
           impl = checkState env MAMA_FT_STATE_STANDBY impl;
           impl = fst (resetTimeoutTimer impl)
       in impl\<lparr>foundheartbeat := foundheartbeat impl + 1\<rparr>
     else impl)"

text \<open>Receiving the next packet of a socket; the result is 0, or -1 when there is none. Members that use
  a bridge do not poll.\<close>

fun ftRecvHearbeat ::
  "ftEnv \<Rightarrow> heartbeat option list \<Rightarrow> mamaFtMember \<Rightarrow> mamaFtMember \<times> heartbeat option list \<times> int" where
  "ftRecvHearbeat env socket impl =
    (case ftType impl of
       MAMA_FT_TYPE_BRIDGE \<Rightarrow> (impl, socket, -1)
     | MAMA_FT_TYPE_MULTICAST \<Rightarrow>
         (case socket of
            [] \<Rightarrow> (impl, [], -1)
          | None # ps \<Rightarrow> (impl, ps, 0)
          | Some hb # ps \<Rightarrow> (mamaCheckHeartbeat env hb impl, ps, 0)))"

partial_function (option) recv_loop ::
  "ftEnv \<Rightarrow> heartbeat option list \<Rightarrow> mamaFtMember \<Rightarrow> (mamaFtMember \<times> heartbeat option list) option" where
  "recv_loop env socket impl =
    (case ftRecvHearbeat env socket impl of
       (impl, socket, r) \<Rightarrow> if r = 0 then recv_loop env socket impl else Some (impl, socket))"

definition ftTimeoutTimerCb ::
  "ftEnv \<Rightarrow> heartbeat option list \<Rightarrow> mamaFtMember \<Rightarrow> (mamaFtMember \<times> heartbeat option list) option" where
  "ftTimeoutTimerCb env socket impl =
    do { let impl = impl\<lparr>foundheartbeat := 0\<rparr>;
         (impl, socket) \<leftarrow> recv_loop env socket impl;
         Some (if foundheartbeat impl = 0 then checkState env MAMA_FT_STATE_ACTIVE impl else impl, socket) }"

definition ftHeartbeatTimerCb :: "mamaFtMember \<Rightarrow> mamaFtMember" where
  "ftHeartbeatTimerCb impl = ftSendHeartbeat (impl\<lparr>myHeartbeatTick := myHeartbeatTick impl + 1\<rparr>)"

text \<open>The loop of \<open>ioCallback\<close> receives up to \<open>myRecvWindow\<close> packets.\<close>

fun io_loop :: "ftEnv \<Rightarrow> nat \<Rightarrow> heartbeat option list \<Rightarrow> mamaFtMember \<Rightarrow> mamaFtMember \<times> heartbeat option list" where
  "io_loop env 0 socket impl = (impl, socket)"
| "io_loop env (Suc n) socket impl =
    (case ftRecvHearbeat env socket impl of
       (impl, socket, r) \<Rightarrow> if r = 0 then io_loop env n socket impl else (impl, socket))"

definition ioCallback :: "ftEnv \<Rightarrow> heartbeat option list \<Rightarrow> mamaFtMember \<Rightarrow> mamaFtMember \<times> heartbeat option list" where
  "ioCallback env socket impl = io_loop env (nat (myRecvWindow impl)) socket impl"

subsection \<open>Life cycle\<close>

definition ftDeactivate :: "mamaFtMember \<Rightarrow> mamaFtMember \<times> mama_status" where
  "ftDeactivate impl =
    (case ftType impl of
       MAMA_FT_TYPE_MULTICAST \<Rightarrow>
         (if myIsActive impl \<and> myReadHandler impl then impl\<lparr>myReadHandler := False\<rparr> else impl, MAMA_STATUS_OK)
     | MAMA_FT_TYPE_BRIDGE \<Rightarrow>
         (if myIsActive impl then impl\<lparr>mySubscriptionActive := False\<rparr> else impl, MAMA_STATUS_OK))"

definition mamaFtMember_deactivate :: "mamaFtMember \<Rightarrow> mamaFtMember \<times> mama_status" where
  "mamaFtMember_deactivate impl =
    (case ftDeactivate impl of
       (impl, ret) \<Rightarrow>
         if ret \<noteq> MAMA_STATUS_OK then (impl, ret)
         else
           let impl = (if myHeartbeatTimer impl then impl\<lparr>myHeartbeatTimer := False\<rparr> else impl);
               impl = stopTimeoutTimer impl
           in (impl\<lparr>myIsActive := False, myIncarnation := 0, myNextIncarnation := 0\<rparr>, ret))"

definition ftActivate :: "ftEnv \<Rightarrow> mamaFtMember \<Rightarrow> mamaFtMember \<times> mama_status" where
  "ftActivate env impl =
    (case (if myIsActive impl then mamaFtMember_deactivate impl else (impl, MAMA_STATUS_OK)) of
       (impl, status) \<Rightarrow>
         if status \<noteq> MAMA_STATUS_OK then (impl, status)
         else
           (case ftType impl of
              MAMA_FT_TYPE_BRIDGE \<Rightarrow> (impl, MAMA_STATUS_OK)
            | MAMA_FT_TYPE_MULTICAST \<Rightarrow>
                (impl\<lparr>myReadHandler := (ioStatus env = MAMA_STATUS_OK)\<rparr>, ioStatus env)))"

definition mamaFtMember_activate :: "ftEnv \<Rightarrow> mamaFtMember \<Rightarrow> mamaFtMember \<times> mama_status" where
  "mamaFtMember_activate env impl =
    (case ftActivate env impl of
       (impl, status) \<Rightarrow>
         if status \<noteq> MAMA_STATUS_OK then (impl, status)
         else
           let impl = impl\<lparr>myHeartbeatTimer := timerSet env\<rparr>; status = timerStatus env
           in if status \<noteq> MAMA_STATUS_OK then (impl, status)
              else
                let impl = impl\<lparr>myIP := ipAddress env, myNextIncarnation := 1, myHeartbeatTick := 0\<rparr>;
                    (impl, status) = startTimeoutTimer env impl
                in if status \<noteq> MAMA_STATUS_OK then (impl, status)
                   else (impl\<lparr>myIsActive := True\<rparr>, status))"

text \<open>The variant \<open>t\<close> anticipates the choice of function pointers that \<open>mamaFtMember_setup\<close> makes; no
  operation before it reads them.\<close>

definition ft_calloc :: "i32 \<Rightarrow> mamaFtType \<Rightarrow> mamaFtMember" where
  "ft_calloc pid t =
    \<lparr>ftType = t, myGroupName = [], myWeight = 0, myIncarnation = 0, myNextIncarnation = 0,
     myHeartbeatInterval = 0, myTimeoutInterval = 0, myIsActive = False, mySubscriptionActive = False,
     myReadHandler = False, myHeartbeatTimer = False, myTimeoutTimer = False, myHeartbeatTick = 0,
     myState = MAMA_FT_STATE_STANDBY, myIP = 0, myPid = pid, myRecvWindow = 20, myInstanceId = None,
     mySymbol = None, myRecvSocket = 0, mySendSocket = 0, mySendAddr = ([], 0), foundheartbeat = 0, ftTrace = []\<rparr>"

definition mamaFtMember_create :: "bool \<Rightarrow> i32 \<Rightarrow> mamaFtType \<Rightarrow> mamaFtMember option \<times> mama_status" where
  "mamaFtMember_create callocOk pid t =
    (if callocOk then (Some (ft_calloc pid t), MAMA_STATUS_OK) else (None, MAMA_STATUS_NOMEM))"

definition mamaFtMember_setWeight :: "u32 \<Rightarrow> mamaFtMember option \<Rightarrow> mamaFtMember option \<times> mama_status" where
  "mamaFtMember_setWeight value m =
    (case m of
       None \<Rightarrow> (None, MAMA_STATUS_INVALID_ARG)
     | Some impl \<Rightarrow> (Some (impl\<lparr>myWeight := value\<rparr>), MAMA_STATUS_OK))"

definition mamaFtStateToString :: "mamaFtState \<Rightarrow> string" where
  "mamaFtStateToString state =
    (case state of
       MAMA_FT_STATE_STANDBY \<Rightarrow> ''standby''
     | MAMA_FT_STATE_ACTIVE \<Rightarrow> ''active''
     | MAMA_FT_STATE_UNKNOWN \<Rightarrow> ''unknown'')"

subsection \<open>The order of credentials\<close>

text \<open>Credentials are compared lexicographically, which makes them a linear order.\<close>

type_synonym cred = "nat \<times> nat \<times> nat \<times> int"

definition member_cred :: "mamaFtMember \<Rightarrow> cred" where
  "member_cred m = (unat (myWeight m), unat (myIncarnation m), unat (myIP m), sint (myPid m))"

definition hb_cred :: "heartbeat \<Rightarrow> cred" where
  "hb_cred hb = (unat (hbWeight hb), unat (hbIncarnation hb), unat (hbIpAddr hb), sint (hbPid hb))"

lemma better_iff_less:
  "mamaBetterCredentials m (hbWeight hb) (hbIncarnation hb) (hbIpAddr hb) (hbPid hb) \<longleftrightarrow> member_cred m < hb_cred hb"
  by (auto simp: mamaBetterCredentials_def member_cred_def hb_cred_def word_less_nat_alt word_unat_eq_iff)

lemma hb_cred_msg [simp]: "hb_cred (ftSendHeartbeat_msg m) = member_cred m"
  by (simp add: hb_cred_def member_cred_def ftSendHeartbeat_msg_def)

lemma msg_fields [simp]:
  "hbPid (ftSendHeartbeat_msg m) = myPid m" "hbIpAddr (ftSendHeartbeat_msg m) = myIP m"
  "hbGroupName (ftSendHeartbeat_msg m) = myGroupName m"
  by (simp_all add: ftSendHeartbeat_msg_def)

lemma cred_eq_key: "member_cred m = member_cred m' \<Longrightarrow> myIP m = myIP m' \<and> myPid m = myPid m'"
  by (simp add: member_cred_def) (metis signed_word_eqI unsigned_word_eqI)

text \<open>The heartbeat belongs to another member of the same group and beats this one.\<close>

definition beaten :: "heartbeat \<Rightarrow> mamaFtMember \<Rightarrow> bool" where
  "beaten hb m \<longleftrightarrow> hbGroupName hb = myGroupName m \<and> \<not> (hbPid hb = myPid m \<and> hbIpAddr hb = myIP m) \<and>
     member_cred m < hb_cred hb"

lemma ft_emit_simps [simp]:
  "myState (ft_emit es m) = myState m" "myWeight (ft_emit es m) = myWeight m"
  "myIncarnation (ft_emit es m) = myIncarnation m" "myNextIncarnation (ft_emit es m) = myNextIncarnation m"
  "myIP (ft_emit es m) = myIP m" "myPid (ft_emit es m) = myPid m" "myGroupName (ft_emit es m) = myGroupName m"
  "myTimeoutTimer (ft_emit es m) = myTimeoutTimer m" "myHeartbeatTimer (ft_emit es m) = myHeartbeatTimer m"
  "foundheartbeat (ft_emit es m) = foundheartbeat m" "ftType (ft_emit es m) = ftType m"
  "ftTrace (ft_emit es m) = ftTrace m @ es"
  by (simp_all add: ft_emit_def)

lemma resetTimeoutTimer_fields [field_effects]:
  "myWeight (fst (resetTimeoutTimer m)) = myWeight m" "myIncarnation (fst (resetTimeoutTimer m)) = myIncarnation m"
  "myNextIncarnation (fst (resetTimeoutTimer m)) = myNextIncarnation m"
  "myIP (fst (resetTimeoutTimer m)) = myIP m" "myPid (fst (resetTimeoutTimer m)) = myPid m"
  "myGroupName (fst (resetTimeoutTimer m)) = myGroupName m" "ftType (fst (resetTimeoutTimer m)) = ftType m"
  "foundheartbeat (fst (resetTimeoutTimer m)) = foundheartbeat m"
  "myState (fst (resetTimeoutTimer m)) = myState m"
  by (simp_all add: resetTimeoutTimer_def)

lemma to_standby_fields [field_effects]:
  "myState (checkState env MAMA_FT_STATE_STANDBY m) = MAMA_FT_STATE_STANDBY"
  "myWeight (checkState env MAMA_FT_STATE_STANDBY m) = myWeight m"
  "myIncarnation (checkState env MAMA_FT_STATE_STANDBY m) = myIncarnation m"
  "myNextIncarnation (checkState env MAMA_FT_STATE_STANDBY m) = myNextIncarnation m"
  "myIP (checkState env MAMA_FT_STATE_STANDBY m) = myIP m" "myPid (checkState env MAMA_FT_STATE_STANDBY m) = myPid m"
  "myGroupName (checkState env MAMA_FT_STATE_STANDBY m) = myGroupName m"
  "ftType (checkState env MAMA_FT_STATE_STANDBY m) = ftType m"
  "foundheartbeat (checkState env MAMA_FT_STATE_STANDBY m) = foundheartbeat m"
  by (cases "myState m"; simp add: checkState_def invokeStateChange_def startTimeoutTimer_def
      resetTimeoutTimer_def Let_def)+

lemma to_active_fields [field_effects]:
  "myWeight (checkState env MAMA_FT_STATE_ACTIVE m) = myWeight m"
  "myIP (checkState env MAMA_FT_STATE_ACTIVE m) = myIP m" "myPid (checkState env MAMA_FT_STATE_ACTIVE m) = myPid m"
  "myGroupName (checkState env MAMA_FT_STATE_ACTIVE m) = myGroupName m"
  by (cases "myState m"; simp add: checkState_def invokeStateChange_def ftSendHeartbeat_def
      stopTimeoutTimer_def Let_def)+

lemma checkHeartbeat_effect [field_effects]:
  "myState (mamaCheckHeartbeat env hb m) = (if beaten hb m then MAMA_FT_STATE_STANDBY else myState m)"
  "myWeight (mamaCheckHeartbeat env hb m) = myWeight m"
  "myIncarnation (mamaCheckHeartbeat env hb m) = myIncarnation m"
  "myIP (mamaCheckHeartbeat env hb m) = myIP m" "myPid (mamaCheckHeartbeat env hb m) = myPid m"
  "myGroupName (mamaCheckHeartbeat env hb m) = myGroupName m" "ftType (mamaCheckHeartbeat env hb m) = ftType m"
  "foundheartbeat (mamaCheckHeartbeat env hb m) = foundheartbeat m + (if beaten hb m then 1 else 0)"
  "myNextIncarnation (mamaCheckHeartbeat env hb m) =
     (if beaten hb m \<and> hbIncarnation hb \<ge> myNextIncarnation m then hbIncarnation hb + 1 else myNextIncarnation m)"
  by (auto simp: mamaCheckHeartbeat_def better_iff_less beaten_def field_effects Let_def)

lemma not_beaten_ignored: "\<not> beaten hb m \<Longrightarrow> mamaCheckHeartbeat env hb m = m"
  by (auto simp: mamaCheckHeartbeat_def better_iff_less beaten_def)

lemma beaten_stable: "beaten hb (mamaCheckHeartbeat env hb' m) = beaten hb m"
  by (simp add: beaten_def member_cred_def field_effects)

lemma hear_effect:
  defines "hear env hbs m \<equiv> fold (mamaCheckHeartbeat env) hbs m"
  shows "myState (hear env hbs m) = (if \<exists>hb \<in> set hbs. beaten hb m then MAMA_FT_STATE_STANDBY else myState m)"
    and "foundheartbeat (hear env hbs m) = foundheartbeat m + length (filter (\<lambda>hb. beaten hb m) hbs)"
  unfolding hear_def
  by (induction hbs arbitrary: m) (auto simp: field_effects beaten_stable)

lemma recv_loop_multicast:
  "ftType m = MAMA_FT_TYPE_MULTICAST \<Longrightarrow>
     recv_loop env ps m = Some (fold (mamaCheckHeartbeat env) (map the (filter (\<lambda>p. p \<noteq> None) ps)) m, [])"
proof (induction ps arbitrary: m)
  case Nil
  then show ?case by (subst recv_loop.simps) simp
next
  case (Cons p ps)
  then show ?case by (subst recv_loop.simps) (cases p; simp add: field_effects)
qed

lemma recv_loop_bridge: "ftType m = MAMA_FT_TYPE_BRIDGE \<Longrightarrow> recv_loop env ps m = Some (m, ps)"
  by (subst recv_loop.simps) simp

lemma ignored_heartbeats: "\<forall>hb \<in> set hbs. \<not> beaten hb m \<Longrightarrow> fold (mamaCheckHeartbeat env) hbs m = m"
  by (induction hbs) (auto simp: not_beaten_ignored)

text \<open>Becoming active: the new incarnation, the immediate heartbeat, the callback.\<close>

lemma become_active:
  assumes "myState m \<noteq> MAMA_FT_STATE_ACTIVE"
  shows "myState (checkState env MAMA_FT_STATE_ACTIVE m) = MAMA_FT_STATE_ACTIVE"
    and "myIncarnation (checkState env MAMA_FT_STATE_ACTIVE m) = myNextIncarnation m"
    and "\<not> myTimeoutTimer (checkState env MAMA_FT_STATE_ACTIVE m)"
    and "\<exists>es hb. ftTrace (checkState env MAMA_FT_STATE_ACTIVE m) = ftTrace m @ SendHeartbeat hb # es @ [StateChangeCb MAMA_FT_STATE_ACTIVE] \<and>
       hb_cred hb = member_cred (checkState env MAMA_FT_STATE_ACTIVE m)"
  using assms
  by (cases "myState m"; auto simp: checkState_def invokeStateChange_def ftSendHeartbeat_def stopTimeoutTimer_def
      ftSendHeartbeat_msg_def hb_cred_def member_cred_def Let_def)+

subsection \<open>Properties\<close>

definition demo_member :: "u32 \<Rightarrow> i32 \<Rightarrow> mamaFtState \<Rightarrow> mamaFtMember" where
  "demo_member weight pid st = (ft_calloc pid MAMA_FT_TYPE_MULTICAST)
     \<lparr>myGroupName := ''grp'', myWeight := weight, myIsActive := True, myIP := 16, myIncarnation := 1, myNextIncarnation := 1, myState := st,
      myTimeoutTimer := (st \<noteq> MAMA_FT_STATE_ACTIVE), myHeartbeatTimer := True\<rparr>"

definition demo_env :: ftEnv where
  "demo_env = \<lparr>timerStatus = MAMA_STATUS_OK, timerSet = True, ioStatus = MAMA_STATUS_OK, ipAddress = 16\<rparr>"

lemma demo_member_fields [simp]:
  "myGroupName (demo_member w p st) = ''grp''" "myIP (demo_member w p st) = 16" "myPid (demo_member w p st) = p"
  "myState (demo_member w p st) = st" "myWeight (demo_member w p st) = w"
  "myIncarnation (demo_member w p st) = 1" "myNextIncarnation (demo_member w p st) = 1"
  "ftType (demo_member w p st) = MAMA_FT_TYPE_MULTICAST"
  by (simp_all add: demo_member_def ft_calloc_def)

text \<open>C19: election: when every member of a group has heard a heartbeat of every member (its own
  included, which it ignores), no two members are active, whatever their states were before; a
  member that is active is the one with the greatest credentials, and if that one was active it still
  is.\<close>

theorem ft_election_unique:
  assumes "\<forall>m \<in> set ms. myGroupName m = g"
    and "\<forall>m \<in> set ms. \<forall>m' \<in> set ms. myIP m = myIP m' \<and> myPid m = myPid m' \<longrightarrow> m = m'"
    and "best \<in> set ms" and "\<forall>m \<in> set ms. member_cred m \<le> member_cred best"
  shows "\<forall>m \<in> set ms. myState (fold (mamaCheckHeartbeat env) (map ftSendHeartbeat_msg ms) m)
     = (if m = best then myState best else MAMA_FT_STATE_STANDBY)"
proof
  fix m
  assume m: "m \<in> set ms"
  have "(\<exists>m' \<in> set ms. beaten (ftSendHeartbeat_msg m') m) \<longleftrightarrow> m \<noteq> best"
  proof
    assume "\<exists>m' \<in> set ms. beaten (ftSendHeartbeat_msg m') m"
    then show "m \<noteq> best" using assms(4) by (auto simp: beaten_def)
  next
    assume "m \<noteq> best"
    moreover from this have "member_cred m \<noteq> member_cred best"
      using cred_eq_key assms(2,3) m by blast
    ultimately have "beaten (ftSendHeartbeat_msg best) m"
      using assms m unfolding beaten_def hb_cred_msg by (auto simp: ftSendHeartbeat_msg_def order_less_le)
    with assms(3) show "\<exists>m' \<in> set ms. beaten (ftSendHeartbeat_msg m') m" by blast
  qed
  then show "myState (fold (mamaCheckHeartbeat env) (map ftSendHeartbeat_msg ms) m)
      = (if m = best then myState best else MAMA_FT_STATE_STANDBY)"
    by (auto simp: hear_effect)
qed

theorem ft_election_unique_witness:
  "myState (fold (mamaCheckHeartbeat demo_env)
       (map ftSendHeartbeat_msg [demo_member 5 100 MAMA_FT_STATE_ACTIVE, demo_member 9 101 MAMA_FT_STATE_ACTIVE])
       (demo_member 5 100 MAMA_FT_STATE_ACTIVE)) = MAMA_FT_STATE_STANDBY \<and>
   myState (fold (mamaCheckHeartbeat demo_env)
       (map ftSendHeartbeat_msg [demo_member 5 100 MAMA_FT_STATE_ACTIVE, demo_member 9 101 MAMA_FT_STATE_ACTIVE])
       (demo_member 9 101 MAMA_FT_STATE_ACTIVE)) = MAMA_FT_STATE_ACTIVE"
proof -
  let ?a = "demo_member 5 100 MAMA_FT_STATE_ACTIVE" and ?b = "demo_member 9 101 MAMA_FT_STATE_ACTIVE"
  have "myPid ?a \<noteq> myPid ?b" by simp
  then have "?a \<noteq> ?b" by metis
  moreover have "member_cred ?a \<le> member_cred ?b" by (simp add: member_cred_def)
  moreover have "myPid ?a \<noteq> myPid ?b" by simp
  ultimately have "\<forall>m \<in> set [?a, ?b]. myState (fold (mamaCheckHeartbeat demo_env) (map ftSendHeartbeat_msg [?a, ?b]) m)
      = (if m = ?b then myState ?b else MAMA_FT_STATE_STANDBY)"
    by (intro ft_election_unique [where g = "''grp''"]) auto
  then have "myState (fold (mamaCheckHeartbeat demo_env) (map ftSendHeartbeat_msg [?a, ?b]) m)
      = (if m = ?b then myState ?b else MAMA_FT_STATE_STANDBY)" if "m = ?a \<or> m = ?b" for m
    using that by (metis list.set_intros)
  from this [of ?a] this [of ?b] \<open>?a \<noteq> ?b\<close> show ?thesis
    by (simp only: if_False if_True simp_thms demo_member_fields)
qed

text \<open>Takeover: when the timeout timer of a member that is not active fires and no better heartbeat
  waits in its socket, the member becomes active, sends a heartbeat at once and tells the application.
  If it had heard the heartbeat of a former active member of the same weight, its new incarnation
  beats that one: the former active member steps back when it hears of the new one.\<close>

lemma ft_takeover_sticks:
  assumes "ftType m = MAMA_FT_TYPE_MULTICAST" and "beaten hb m" and "hbWeight hb = myWeight m"
    and "hbIncarnation hb \<noteq> - 1" and "\<forall>p \<in> set ps. \<forall>hb'. p = Some hb' \<longrightarrow> \<not> beaten hb' m"
    and "ftSendHeartbeat_msg old = hb" and "myState old = MAMA_FT_STATE_ACTIVE"
  shows "\<exists>m'. ftTimeoutTimerCb env ps (mamaCheckHeartbeat env hb m) = Some (m', []) \<and>
     myState m' = MAMA_FT_STATE_ACTIVE \<and> \<not> myTimeoutTimer m' \<and>
     last (ftTrace m') = StateChangeCb MAMA_FT_STATE_ACTIVE \<and>
     myState (mamaCheckHeartbeat env (ftSendHeartbeat_msg m') old) = MAMA_FT_STATE_STANDBY"
proof -
  let ?m = "(mamaCheckHeartbeat env hb m)\<lparr>foundheartbeat := 0\<rparr>"
  let ?m' = "checkState env MAMA_FT_STATE_ACTIVE ?m"
  have "beaten h ?m = beaten h m" for h
    using beaten_stable [of h env hb m] by (simp add: beaten_def member_cred_def)
  then have "\<forall>hb' \<in> set (map the (filter (\<lambda>p. p \<noteq> None) ps)). \<not> beaten hb' ?m"
    using assms(5) by auto
  then have run: "ftTimeoutTimerCb env ps (mamaCheckHeartbeat env hb m) = Some (?m', [])"
    using assms(1)
    by (simp add: ftTimeoutTimerCb_def recv_loop_multicast checkHeartbeat_effect ignored_heartbeats)
  have standby: "myState ?m \<noteq> MAMA_FT_STATE_ACTIVE" using assms(2) by (simp add: checkHeartbeat_effect)
  note act = become_active [OF standby, of env]
  have "hbIncarnation hb < hbIncarnation hb + 1" by (rule word_less_succ [OF assms(4)])
  then have "unat (hbIncarnation hb) < unat (myIncarnation ?m')"
    using assms(2) by (auto simp: act(2) checkHeartbeat_effect word_less_nat_alt not_le)
  moreover have fields: "myWeight ?m' = myWeight m" "myIP ?m' = myIP m" "myPid ?m' = myPid m" "myGroupName ?m' = myGroupName m"
    by (simp_all add: to_active_fields checkHeartbeat_effect)
  ultimately have "hb_cred hb < member_cred ?m'"
    using assms(3) by (simp add: hb_cred_def member_cred_def)
  then have "beaten (ftSendHeartbeat_msg ?m') old"
    using assms(2) fields unfolding assms(6) [symmetric] beaten_def by auto
  then show ?thesis
    using run act by (auto simp: checkHeartbeat_effect)
qed

text \<open>A member that was active, is deactivated and then activated again counts as active from the
  start, without an election: its state is not reset, so the application is not told and the timeout
  timer has no effect, while it sends heartbeats with incarnation 0.\<close>

lemma ft_reactivation_keeps_active:
  assumes "myState m = MAMA_FT_STATE_ACTIVE" and "ftType m = MAMA_FT_TYPE_MULTICAST"
    and "timerStatus env = MAMA_STATUS_OK" and "timerSet env" and "ioStatus env = MAMA_STATUS_OK"
  shows "\<exists>m'. mamaFtMember_activate env (fst (mamaFtMember_deactivate m)) = (m', MAMA_STATUS_OK) \<and>
     myIsActive m' \<and> myState m' = MAMA_FT_STATE_ACTIVE \<and> myIncarnation m' = 0 \<and> ftTrace m' = ftTrace m \<and>
     ftTimeoutTimerCb env [] m' = Some (m'\<lparr>foundheartbeat := 0\<rparr>, [])"
proof -
  have d: "\<exists>d. mamaFtMember_deactivate m = (d, MAMA_STATUS_OK) \<and> myState d = MAMA_FT_STATE_ACTIVE \<and>
      ftType d = MAMA_FT_TYPE_MULTICAST \<and> \<not> myIsActive d \<and> myIncarnation d = 0 \<and> \<not> myTimeoutTimer d \<and> ftTrace d = ftTrace m"
    using assms(1,2) by (simp add: mamaFtMember_deactivate_def ftDeactivate_def stopTimeoutTimer_def Let_def)
  then obtain d where d: "mamaFtMember_deactivate m = (d, MAMA_STATUS_OK)" "myState d = MAMA_FT_STATE_ACTIVE"
      "ftType d = MAMA_FT_TYPE_MULTICAST" "\<not> myIsActive d" "myIncarnation d = 0" "\<not> myTimeoutTimer d"
      "ftTrace d = ftTrace m" by blast
  let ?m' = "d\<lparr>myReadHandler := True, myHeartbeatTimer := True, myIP := ipAddress env, myNextIncarnation := 1,
     myHeartbeatTick := 0, myTimeoutTimer := True, myIsActive := True\<rparr>"
  have "mamaFtMember_activate env d = (?m', MAMA_STATUS_OK)"
    using d assms(3-5) by (simp add: mamaFtMember_activate_def ftActivate_def startTimeoutTimer_def Let_def)
  moreover have "ftTimeoutTimerCb env [] ?m' = Some (?m'\<lparr>foundheartbeat := 0\<rparr>, [])"
    using d by (simp add: ftTimeoutTimerCb_def recv_loop_multicast checkState_def)
  ultimately show ?thesis using d by simp
qed

end
