(* ===== verification/CString.thy ===== *)
theory CString
  imports Mama_Prelude
begin

text \<open>
  Strings of the C library: printing and reading of numbers, and the search functions that several components use.
  A string is the list of its characters without the terminating 0.
\<close>

subsection \<open>Printing numbers\<close>

definition digits :: string where
  "digits = ''0123456789abcdef''"

function print_nat :: "nat \<Rightarrow> nat \<Rightarrow> string" where
  "print_nat base n =
    (if base < 2 \<or> n < base then [digits ! n] else print_nat base (n div base) @ [digits ! (n mod base)])"
  by pat_completeness auto
termination
  by (relation "measure snd") auto

declare print_nat.simps [simp del]

definition print_int :: "int \<Rightarrow> string" where
  "print_int i = (if i < 0 then CHR ''-'' # print_nat 10 (nat (- i)) else print_nat 10 (nat i))"

subsection \<open>Reading numbers\<close>

definition is_space :: "char \<Rightarrow> bool" where
  "is_space c \<longleftrightarrow> c \<in> {CHR '' '', CHR 0x09, CHR 0x0A, CHR 0x0B, CHR 0x0C, CHR 0x0D}"

definition digit_val :: "nat \<Rightarrow> char \<Rightarrow> nat option" where
  "digit_val base c =
    (let n = of_char c :: nat;
         v = (if 48 \<le> n \<and> n \<le> 57 then Some (n - 48)
              else if 97 \<le> n \<and> n \<le> 122 then Some (n - 87)
              else if 65 \<le> n \<and> n \<le> 90 then Some (n - 55)
              else None)
     in case v of Some d \<Rightarrow> if d < base then Some d else None | None \<Rightarrow> None)"

fun scan_digits :: "nat \<Rightarrow> nat \<Rightarrow> string \<Rightarrow> nat \<times> string" where
  "scan_digits base acc [] = (acc, [])"
| "scan_digits base acc (c # cs) =
    (case digit_val base c of None \<Rightarrow> (acc, c # cs) | Some d \<Rightarrow> scan_digits base (acc * base + d) cs)"

lemma digit_val_hex: "\<forall>d \<in> set [0..<16]. digit_val 16 (digits ! d) = Some d"
  by code_simp

lemma digit_val_digits:
  assumes "d < base" and "base \<le> 16"
  shows "digit_val base (digits ! d) = Some d"
proof -
  have "digit_val 16 (digits ! d) = Some d" using digit_val_hex assms by auto
  then show ?thesis using assms by (auto simp: digit_val_def Let_def split: if_splits)
qed

lemma scan_print:
  assumes "2 \<le> base" and "base \<le> 16"
  shows "\<exists>k. scan_digits base acc (print_nat base n @ rest) = scan_digits base (acc * k + n) rest"
  using assms
proof (induction base n arbitrary: acc rest rule: print_nat.induct)
  case (1 base n)
  show ?case
  proof (cases "n < base")
    case True
    with "1.prems" show ?thesis
      by (intro exI [of _ base]) (simp add: print_nat.simps [of base n] digit_val_digits)
  next
    case False
    then obtain k where "scan_digits base acc (print_nat base (n div base) @ (digits ! (n mod base)) # rest)
        = scan_digits base (acc * k + n div base) ((digits ! (n mod base)) # rest)"
      using "1.IH" [of acc "(digits ! (n mod base)) # rest"] "1.prems" by auto
    with False "1.prems" show ?thesis
      by (intro exI [of _ "k * base"])
        (simp add: print_nat.simps [of base n] digit_val_digits algebra_simps)
  qed
qed

lemma scan_print_value:
  assumes "2 \<le> base" and "base \<le> 16" and "rest = [] \<or> digit_val base (hd rest) = None"
  shows "scan_digits base 0 (print_nat base n @ rest) = (n, rest)"
  using scan_print [OF assms(1,2), of 0 n rest] assms(3) by (cases rest) auto

lemma print_chars:
  assumes "2 \<le> base" and "base \<le> 16"
  shows "\<forall>c \<in> set (print_nat base n). digit_val base c \<noteq> None" and "print_nat base n \<noteq> []"
proof -
  show "\<forall>c \<in> set (print_nat base n). digit_val base c \<noteq> None"
    using assms
    by (induction base n rule: print_nat.induct) (subst print_nat.simps, auto simp: digit_val_digits)
  show "print_nat base n \<noteq> []" by (subst print_nat.simps) simp
qed

lemma print_length: "0 < k \<Longrightarrow> n < base ^ k \<Longrightarrow> 2 \<le> base \<Longrightarrow> length (print_nat base n) \<le> k"
proof (induction k arbitrary: n)
  case 0
  then show ?case by simp
next
  case (Suc k)
  show ?case
  proof (cases "n < base")
    case True
    then show ?thesis by (simp add: print_nat.simps)
  next
    case False
    have "n div base < base ^ k" using Suc.prems by (simp add: less_mult_imp_div_less mult.commute)
    moreover have "0 < k" using False Suc.prems(2) by (cases k) auto
    ultimately show ?thesis using Suc False by (subst print_nat.simps) auto
  qed
qed

lemma digit_chars:
  assumes "digit_val base c \<noteq> None" and "base \<le> 16"
  shows "\<not> is_space c" and "c \<notin> {CHR ''-'', CHR ''+'', CHR ''x'', CHR ''X''}"
  using assms by (auto simp: is_space_def digit_val_def)

definition scan_sign :: "string \<Rightarrow> bool \<times> string" where
  "scan_sign s = (case s of c # cs \<Rightarrow> if c = CHR ''-'' then (True, cs) else if c = CHR ''+'' then (False, cs)
     else (False, s) | [] \<Rightarrow> (False, s))"

text \<open>\<open>strtoul\<close> in base 10, with its saturation; without digits the value is 0.\<close>

definition strtoul :: "string \<Rightarrow> u64" where
  "strtoul s =
    (case scan_sign (dropWhile is_space s) of
       (neg, s) \<Rightarrow> let v = of_nat (min (fst (scan_digits 10 0 s)) (2 ^ 64 - 1)) in if neg then - v else v)"

text \<open>\<open>strchr\<close> for a character other than the terminator: the rest of the string from the first occurrence on.\<close>

definition strchr :: "string \<Rightarrow> char \<Rightarrow> string option" where
  "strchr s c = (case dropWhile (\<lambda>d. d \<noteq> c) s of [] \<Rightarrow> None | r \<Rightarrow> Some r)"

definition isdigit :: "char \<Rightarrow> bool" where
  "isdigit c \<longleftrightarrow> digit_val 10 c \<noteq> None"

text \<open>The conversion \<open>%0*d\<close> of a number that is not negative.\<close>

definition print_padded :: "nat \<Rightarrow> nat \<Rightarrow> string" where
  "print_padded width n = replicate (width - length (print_nat 10 n)) (CHR ''0'') @ print_nat 10 n"

lemma strchr_none: "c \<notin> set s \<Longrightarrow> strchr s c = None"
  by (induction s) (auto simp: strchr_def)

lemma strchr_first: "c \<notin> set s \<Longrightarrow> strchr (s @ c # r) c = Some (c # r)"
  by (induction s) (auto simp: strchr_def)

lemma print_padded_digits:
  "\<forall>c \<in> set (print_padded w n). isdigit c" "print_padded w n \<noteq> []"
proof -
  have "isdigit (CHR ''0'')" by (simp add: isdigit_def digit_val_def)
  then show "\<forall>c \<in> set (print_padded w n). isdigit c"
    using print_chars(1) [of 10 n] by (auto simp: print_padded_def isdigit_def)
  show "print_padded w n \<noteq> []" using print_chars(2) [of 10 n] by (simp add: print_padded_def)
qed

lemma print_padded_length: "n < 10 ^ w \<Longrightarrow> 0 < w \<Longrightarrow> length (print_padded w n) = w"
  using print_length [of w n 10] by (simp add: print_padded_def)

lemma isdigit_chars: "isdigit c \<Longrightarrow> c \<notin> {CHR '' '', CHR ''/'', CHR ''-'', CHR ''+'', CHR '':'', CHR ''.''} \<and> \<not> is_space c"
  by (auto simp: isdigit_def is_space_def digit_val_def)

lemma scan_zeros: "scan_digits 10 0 (replicate k (CHR ''0'') @ s) = scan_digits 10 0 s"
  by (induction k) (simp_all add: digit_val_def)

lemma scan_padded: "rest = [] \<or> \<not> isdigit (hd rest) \<Longrightarrow> scan_digits 10 0 (print_padded w n @ rest) = (n, rest)"
  using scan_print_value [of 10 rest n] by (simp add: print_padded_def scan_zeros isdigit_def)

lemma strtoul_padded:
  assumes "rest = [] \<or> \<not> isdigit (hd rest)" and "n < 2 ^ 64"
  shows "strtoul (print_padded w n @ rest) = of_nat n"
proof -
  obtain c cs where c: "print_padded w n = c # cs" "isdigit c" using print_padded_digits [of w n] by (cases "print_padded w n") auto
  then have "scan_sign (dropWhile is_space (print_padded w n @ rest)) = (False, print_padded w n @ rest)"
    using isdigit_chars [of c] by (simp add: scan_sign_def)
  moreover have "min n (2 ^ 64 - 1) = n" using assms(2) by simp
  ultimately show ?thesis using scan_padded [OF assms(1)] by (simp add: strtoul_def Let_def)
qed

end
