(* ===== verification/FtWire.thy ===== *)
theory FtWire
  imports Ft CString
begin

text \<open>
  The multicast packets of \<open>ft.c\<close>: \<open>multicastFt_sendHeartbeat\<close> prints a heartbeat with
  \<open>snprintf\<close>, \<open>multicastFt_receiveHeartbeat\<close> reads it back with \<open>sscanf\<close>. The conversions of the
  standard library that the two formats use are modelled on character lists; the host is little
  endian. A packet that is longer than the send buffer, and a group name that is longer than the
  receive buffer, are memory errors (\<open>None\<close>).
\<close>

subsection \<open>Sending\<close>

definition tab :: char where
  "tab = CHR 0x09"

text \<open>Byte order conversion on a little endian host.\<close>

definition htonl :: "u32 \<Rightarrow> u32" where
  "htonl w = push_bit 24 (take_bit 8 w) OR push_bit 16 (take_bit 8 (drop_bit 8 w)) OR
     push_bit 8 (take_bit 8 (drop_bit 16 w)) OR take_bit 8 (drop_bit 24 w)"

definition FT_MAX_PACKET_SIZE :: nat where
  "FT_MAX_PACKET_SIZE = 1500"

definition packet_text :: "mamaFtMember \<Rightarrow> string" where
  "packet_text impl =
    print_nat 16 (unat (htonl (myIP impl))) @ [tab] @ print_int (sint (myPid impl)) @ [tab] @
    print_int (sint (myWeight impl)) @ [tab] @ print_int (sint (myIncarnation impl)) @ [tab] @
    print_int (sint (state_code (myState impl))) @ [tab] @ myGroupName impl"

text \<open>The characters sent before the terminating 0; more bytes are sent than the buffer has when the text
  does not fit.\<close>

definition multicastFt_sendHeartbeat :: "mamaFtMember \<Rightarrow> string option" where
  "multicastFt_sendHeartbeat impl =
    (if length (packet_text impl) + 1 \<le> FT_MAX_PACKET_SIZE then Some (packet_text impl) else None)"

subsection \<open>Reading\<close>

text \<open>The conversions \<open>%u\<close> and \<open>%x\<close> into an \<open>unsigned int\<close>: white space, a sign, for base 16 the prefix
  0x, and at least one digit; the value is that of \<open>strtoul\<close>, with its saturation.\<close>

definition scan_prefix :: "nat \<Rightarrow> string \<Rightarrow> string" where
  "scan_prefix base s = (case s of
     c # d # cs \<Rightarrow> if base = 16 \<and> c = CHR ''0'' \<and> (d = CHR ''x'' \<or> d = CHR ''X'') then cs else s | _ \<Rightarrow> s)"

definition scan_unsigned :: "nat \<Rightarrow> string \<Rightarrow> (u32 \<times> string) option" where
  "scan_unsigned base s =
    (case scan_sign (dropWhile is_space s) of
       (neg, s) \<Rightarrow>
         let s = scan_prefix base s
         in if s = [] \<or> digit_val base (hd s) = None then None
            else (case scan_digits base 0 s of
                    (n, rest) \<Rightarrow>
                      let v = (of_nat (min n (2 ^ 64 - 1)) :: u64)
                      in Some (ucast (if neg then - v else v), rest)))"

definition scan_word :: "string \<Rightarrow> (string \<times> string) option" where
  "scan_word s =
    (let s = dropWhile is_space s; w = takeWhile (\<lambda>c. \<not> is_space c) s
     in if w = [] then None else Some (w, dropWhile (\<lambda>c. \<not> is_space c) s))"

text \<open>The conversion of \<open>multicastFt_receiveHeartbeat\<close>: the inner \<open>None\<close> is a packet that does not have
  the six fields.\<close>

definition multicastFt_receiveHeartbeat :: "string \<Rightarrow> heartbeat option option" where
  "multicastFt_receiveHeartbeat msg =
    (case do { (ip, s) \<leftarrow> scan_unsigned 16 msg;
               (pid, s) \<leftarrow> scan_unsigned 10 (dropWhile is_space s);
               (weight, s) \<leftarrow> scan_unsigned 10 (dropWhile is_space s);
               (incarnation, s) \<leftarrow> scan_unsigned 10 (dropWhile is_space s);
               (primary, s) \<leftarrow> scan_unsigned 10 (dropWhile is_space s);
               (grp, s) \<leftarrow> scan_word (dropWhile is_space s);
               Some (ip, pid, weight, incarnation, primary, grp) }
     of None \<Rightarrow> Some None
      | Some (ip, pid, weight, incarnation, primary, grp) \<Rightarrow>
          if length grp \<ge> 100 then None
          else Some (Some \<lparr>hbWeight = weight, hbIncarnation = incarnation, hbPid = pid, hbIpAddr = htonl ip,
                           hbPrimary = primary, hbGroupName = grp\<rparr>))"

subsection \<open>Byte order\<close>

definition swapped :: "nat \<Rightarrow> nat" where
  "swapped n = (if n < 8 then n + 24 else if n < 16 then n + 8 else if n < 24 then n - 8 else n - 24)"

lemma bit_htonl:
  assumes "n < 32"
  shows "bit (htonl w) n = bit w (swapped n)"
proof -
  consider "n < 8" | "8 \<le> n" "n < 16" | "16 \<le> n" "n < 24" | "24 \<le> n" using assms by linarith
  then show ?thesis
    by cases (use assms in \<open>auto simp: htonl_def swapped_def bit_simps add.commute\<close>)
qed

lemma swapped_swapped: "n < 32 \<Longrightarrow> swapped n < 32 \<and> swapped (swapped n) = n"
  by (auto simp: swapped_def)

lemma htonl_htonl [simp]: "htonl (htonl w) = w"
  by (rule bit_word_eqI) (simp add: bit_htonl swapped_swapped)

subsection \<open>Numbers\<close>

lemma tab_facts [simp]: "is_space tab" "digit_val base tab = None" "tab \<noteq> CHR ''x''" "tab \<noteq> CHR ''X''"
  by (simp_all add: tab_def is_space_def digit_val_def)

lemma scan_prefix_print:
  assumes "2 \<le> base" and "base \<le> 16"
  shows "scan_prefix base (print_nat base n @ tab # rest) = print_nat base n @ tab # rest"
proof -
  have "\<forall>c \<in> set (print_nat base n). c \<noteq> CHR ''x'' \<and> c \<noteq> CHR ''X''"
    using print_chars(1) [OF assms] digit_chars(2) [OF _ assms(2)] by blast
  moreover obtain c cs where "print_nat base n = c # cs"
    using print_chars(2) [OF assms, of n] by (cases "print_nat base n") auto
  ultimately show ?thesis by (cases cs) (auto simp: scan_prefix_def)
qed

lemma ucast_of_int_down: "ucast (of_int k :: u64) = (of_int k :: u32)"
  by (simp add: unsigned_of_int word_of_int_eq_iff)

lemma scan_nat:
  assumes "2 \<le> base" and "base \<le> 16" and "n < 2 ^ 32"
  shows "scan_unsigned base (print_nat base n @ tab # rest) = Some (of_nat n, tab # rest)"
    and "base = 10 \<Longrightarrow> scan_unsigned base (CHR ''-'' # print_nat base n @ tab # rest) = Some (- of_nat n, tab # rest)"
proof -
  let ?s = "print_nat base n @ tab # rest"
  obtain c cs where c: "print_nat base n = c # cs" "digit_val base c \<noteq> None"
    using print_chars [OF assms(1,2), of n] by (cases "print_nat base n") auto
  note nc = digit_chars [OF c(2) assms(2)]
  have pre: "scan_sign (dropWhile is_space ?s) = (False, ?s)"
    "scan_sign (dropWhile is_space (CHR ''-'' # ?s)) = (True, ?s)"
    using c nc by (auto simp: scan_sign_def is_space_def)
  have dig: "scan_digits base 0 ?s = (n, tab # rest)" using assms(1,2) by (intro scan_print_value) simp_all
  have hd: "?s \<noteq> []" "digit_val base (hd ?s) \<noteq> None" using c by auto
  have m: "min n (2 ^ 64 - 1) = n" using assms(3) by simp
  have u: "ucast (of_nat n :: u64) = (of_nat n :: u32)" "ucast (- of_nat n :: u64) = (- of_nat n :: u32)"
    using ucast_of_int_down [of "int n"] ucast_of_int_down [of "- int n"] by simp_all
  show "scan_unsigned base ?s = Some (of_nat n, tab # rest)"
    unfolding scan_unsigned_def pre scan_prefix_print [OF assms(1,2)] prod.case Let_def dig m
    using hd u(1) by simp
  show "scan_unsigned base (CHR ''-'' # ?s) = Some (- of_nat n, tab # rest)" if "base = 10"
    unfolding scan_unsigned_def pre scan_prefix_print [OF assms(1,2)] prod.case Let_def dig m
    using hd u(2) by simp
qed

lemma scan_int: "scan_unsigned 10 (print_int (sint (w :: u32)) @ tab # rest) = Some (w, tab # rest)"
proof (cases "sint w < 0")
  case True
  have "- sint w < 2 ^ 32" using sint_ge [of w] by simp
  moreover have "- of_nat (nat (- sint w)) = w" using True by simp
  ultimately show ?thesis
    using True scan_nat(2) [of 10 "nat (- sint w)" rest] by (simp add: print_int_def)
next
  case False
  have "sint w < 2 ^ 32" using sint_lt [of w] by simp
  moreover have "of_nat (nat (sint w)) = w" using False by simp
  ultimately show ?thesis
    using False scan_nat(1) [of 10 "nat (sint w)" rest] by (simp add: print_int_def)
qed

subsection \<open>Properties\<close>

lemma print_int_length: "length (print_int (sint (w :: u32))) \<le> 11"
proof -
  have "- (2 ^ 31) \<le> sint w" "sint w < 2 ^ 31" using sint_ge [of w] sint_lt [of w] by simp_all
  then have "length (print_nat 10 (nat (sint w))) \<le> 10" "length (print_nat 10 (nat (- sint w))) \<le> 10"
    by (auto intro!: print_length)
  then show ?thesis by (auto simp: print_int_def)
qed

lemma packet_fits:
  assumes "length (myGroupName m) < 100"
  shows "length (packet_text m) + 1 \<le> FT_MAX_PACKET_SIZE"
proof -
  have "unat (htonl (myIP m)) < 16 ^ 8" using unsigned_less [of "htonl (myIP m)"] by simp
  then have "length (print_nat 16 (unat (htonl (myIP m)))) \<le> 8" by (intro print_length) simp_all
  then show ?thesis
    using assms print_int_length [of "myPid m"] print_int_length [of "myWeight m"]
      print_int_length [of "myIncarnation m"] print_int_length [of "state_code (myState m)"]
    by (simp add: packet_text_def FT_MAX_PACKET_SIZE_def)
qed

lemma scan_field:
  "scan_unsigned 10 (dropWhile is_space (tab # print_int (sint (w :: u32)) @ tab # rest)) = Some (w, tab # rest)"
proof -
  have hd: "\<not> is_space (hd (print_nat 10 n))" for n
    using print_chars [of 10 n] digit_chars(1) [of 10 "hd (print_nat 10 n)"] by simp
  have "\<not> is_space (CHR ''-'')" by (simp add: is_space_def)
  with hd have "\<not> is_space (hd (print_int (sint w)))" by (simp add: print_int_def)
  moreover have "print_int (sint w) \<noteq> []" using print_chars(2) [of 10] by (simp add: print_int_def)
  ultimately have "dropWhile is_space (tab # print_int (sint w) @ tab # rest) = print_int (sint w) @ tab # rest"
    by (cases "print_int (sint w)") auto
  then show ?thesis by (simp add: scan_int)
qed

lemma packet_roundtrip:
  assumes "ftType m = MAMA_FT_TYPE_MULTICAST" and "myGroupName m \<noteq> []"
    and "\<forall>c \<in> set (myGroupName m). \<not> is_space c" and "length (myGroupName m) < 100"
  shows "\<exists>p. multicastFt_sendHeartbeat m = Some p \<and>
     multicastFt_receiveHeartbeat p = Some (Some (ftSendHeartbeat_msg m))"
proof -
  let ?g = "myGroupName m"
  have "scan_unsigned 16 (print_nat 16 (unat (htonl (myIP m))) @ tab # rest) = Some (htonl (myIP m), tab # rest)" for rest
    using scan_nat(1) [of 16 "unat (htonl (myIP m))" rest] unsigned_less [of "htonl (myIP m)"] by simp
  moreover have "scan_word (dropWhile is_space (tab # ?g)) = Some (?g, [])"
  proof -
    have dw: "dropWhile is_space (tab # ?g) = ?g" "dropWhile is_space ?g = ?g"
      using assms(2,3) by (cases ?g; simp)+
    have tw: "takeWhile (\<lambda>c. \<not> is_space c) ?g = ?g" "dropWhile (\<lambda>c. \<not> is_space c) ?g = []"
      using assms(3) by (simp_all add: takeWhile_eq_all_conv dropWhile_eq_Nil_conv)
    show ?thesis unfolding scan_word_def dw Let_def tw using assms(2) by simp
  qed
  ultimately have "multicastFt_receiveHeartbeat (packet_text m) = Some (Some (ftSendHeartbeat_msg m))"
    using assms(1,4)
    by (simp add: multicastFt_receiveHeartbeat_def packet_text_def scan_field ftSendHeartbeat_msg_def
        del: dropWhile.simps)
  with packet_fits [OF assms(4)] show ?thesis by (simp add: multicastFt_sendHeartbeat_def)
qed

text \<open>C21: the packet round trip: a heartbeat that a multicast member with a non-empty group name of less than
  100 characters without white space sends fits the buffers, and is read back by the other members
  with exactly the credentials, the state and the group of the sender (negative process ids and
  weights beyond the signed range included).\<close>

theorem ft_packet_roundtrip:
  assumes "ftType m = MAMA_FT_TYPE_MULTICAST" and "myGroupName m \<noteq> []"
    and "\<forall>c \<in> set (myGroupName m). \<not> is_space c" and "length (myGroupName m) < 100"
  shows "\<exists>p. multicastFt_sendHeartbeat m = Some p \<and>
     multicastFt_receiveHeartbeat p = Some (Some (ftSendHeartbeat_msg m))"
  using assms by (rule packet_roundtrip)

theorem ft_packet_roundtrip_witness:
  "\<exists>p. multicastFt_sendHeartbeat (demo_member 5 100 MAMA_FT_STATE_ACTIVE) = Some p \<and>
     multicastFt_receiveHeartbeat p = Some (Some (ftSendHeartbeat_msg (demo_member 5 100 MAMA_FT_STATE_ACTIVE)))"
  by (rule ft_packet_roundtrip) (simp_all add: is_space_def)

end
