(* ===== verification/FtSetup.thy ===== *)
theory FtSetup
  imports FtWire
begin

text \<open>
  Setting up and releasing the members of \<open>ft.c\<close>: the names of a member, the choice of the multicast
  parameters from the properties, the sequence of system calls that opens the sockets, and the
  accessors. Which system calls and which calls of the bridge succeed is given by the environment;
  the descriptors that stay open are the last component of a result. A name that \<open>strdup\<close> could not
  allocate is the empty list.
\<close>

subsection \<open>Names\<close>

definition FT_SYMBOL_PREFIX :: string where
  "FT_SYMBOL_PREFIX = ''MAMA_FT''"

text \<open>\<open>snprintf\<close> into a buffer of \<open>len\<close> bytes keeps \<open>len - 1\<close> characters.\<close>

definition snprintf :: "nat \<Rightarrow> string \<Rightarrow> string" where
  "snprintf len s = take (len - 1) s"

text \<open>The address is that of the host, 0 when it cannot be resolved; the process id is cut to 16 bits.\<close>

definition genInstanceId :: "bool \<Rightarrow> u32 \<Rightarrow> i32 \<Rightarrow> string \<Rightarrow> string option" where
  "genInstanceId mallocOk ipAddr getpid groupName =
    (let len = length groupName + 8 + 4 + 3; pid = (ucast getpid :: u16)
     in if mallocOk
        then Some (snprintf len
                    (groupName @ ''.'' @ print_nat 16 (unat ipAddr) @ ''.'' @ print_nat 16 (unat pid)))
        else None)"

definition genSymbol :: "bool \<Rightarrow> string \<Rightarrow> string option" where
  "genSymbol mallocOk groupName =
    (let len = length groupName + length FT_SYMBOL_PREFIX + 2
     in if mallocOk then Some (snprintf len (FT_SYMBOL_PREFIX @ ''.'' @ groupName)) else None)"

subsection \<open>The environment\<close>

text \<open>\<open>seTransport\<close> is \<open>None\<close> for a \<open>NULL\<close> transport, else what \<open>mamaTransport_getName\<close> returns.\<close>

record ftSetupEnv =
  seTransport :: "(mama_status \<times> string option) option"
  seProperties :: "string \<Rightarrow> string option"
  seMallocOk :: bool
  seHostIp :: u32
  seSubscription :: mama_status
  sePublisher :: mama_status
  seMsg :: mama_status
  seRecvSock :: int
  seNonblock :: int
  seReuseAddr :: int
  seRcvBuf :: int
  seBind :: int
  seJoin :: int
  seSendSock :: int
  seMulticastIf :: int
  seTtl :: int

subsection \<open>Parameters\<close>

text \<open>\<open>atol\<close> and \<open>atoi\<close> on a platform with 64-bit \<open>long\<close>, as \<open>strtol\<close> and a conversion.\<close>

definition atol :: "string \<Rightarrow> int" where
  "atol s = (case scan_sign (dropWhile is_space s) of
     (neg, s) \<Rightarrow> let n = int (fst (scan_digits 10 0 s))
                 in if neg then max (- (2 ^ 63)) (- n) else min (2 ^ 63 - 1) n)"

definition atoi :: "string \<Rightarrow> int" where
  "atoi s = sint (word_of_int (atol s) :: i32)"

definition FT_MAX_PROPERTY_NAME_LENGTH :: nat where
  "FT_MAX_PROPERTY_NAME_LENGTH = 1024"

text \<open>The name is formatted into a buffer that is one shorter than the array; the test for a name that is
  too long lets the longest truncated name pass.\<close>

definition multicastFt_getProperty ::
  "(string \<Rightarrow> string option) \<Rightarrow> string \<Rightarrow> string \<Rightarrow> string \<Rightarrow> string option" where
  "multicastFt_getProperty props prefix key transportName =
    (let full = ''mama.'' @ prefix @ ''.transport.'' @ transportName @ ''.'' @ key;
         buffer = snprintf (FT_MAX_PROPERTY_NAME_LENGTH - 1) full;
         numberWritten = length full
     in if FT_MAX_PROPERTY_NAME_LENGTH - 1 < numberWritten then None else props buffer)"

definition FT_NETWORK :: string where
  "FT_NETWORK = ''239.1.1.1''"

definition FT_SERVICE :: int where
  "FT_SERVICE = 7702"

definition FT_TTL :: u8 where
  "FT_TTL = 1"

definition setup_network :: "(string \<Rightarrow> string option) \<Rightarrow> string \<Rightarrow> string" where
  "setup_network props name =
    (case multicastFt_getProperty props ''multicast'' ''network'' name of
       None \<Rightarrow> (case multicastFt_getProperty props ''native'' ''network'' name of
                  None \<Rightarrow> FT_NETWORK
                | Some s \<Rightarrow> s)
     | Some s \<Rightarrow> s)"

definition setup_service :: "(string \<Rightarrow> string option) \<Rightarrow> string \<Rightarrow> int" where
  "setup_service props name =
    (case multicastFt_getProperty props ''multicast'' ''service'' name of
       None \<Rightarrow> (case multicastFt_getProperty props ''native'' ''service'' name of
                  None \<Rightarrow> FT_SERVICE
                | Some s \<Rightarrow> atol s)
     | Some _ \<Rightarrow> FT_SERVICE)"

definition setup_ttl :: "(string \<Rightarrow> string option) \<Rightarrow> string \<Rightarrow> u8" where
  "setup_ttl props name =
    (case multicastFt_getProperty props ''multicast'' ''ttl'' name of
       None \<Rightarrow> (case multicastFt_getProperty props ''native'' ''ttl'' name of
                  None \<Rightarrow> FT_TTL
                | Some s \<Rightarrow> word_of_int (atol s))
     | Some _ \<Rightarrow> FT_TTL)"

definition setup_iorecv :: "(string \<Rightarrow> string option) \<Rightarrow> string \<Rightarrow> int" where
  "setup_iorecv props name =
    (case multicastFt_getProperty props ''multicast'' ''iowindow'' name of None \<Rightarrow> 20 | Some s \<Rightarrow> atoi s)"

subsection \<open>Set-up\<close>

definition setup_members ::
  "ftSetupEnv \<Rightarrow> string \<Rightarrow> u32 \<Rightarrow> rat \<Rightarrow> rat \<Rightarrow> mamaFtMember \<Rightarrow> mamaFtMember" where
  "setup_members env groupName weight heartbeatInterval timeoutInterval impl =
    impl\<lparr>myWeight := weight, myHeartbeatInterval := heartbeatInterval, myTimeoutInterval := timeoutInterval,
         myGroupName := (if seMallocOk env then groupName else []),
         myInstanceId := genInstanceId (seMallocOk env) (seHostIp env) (myPid impl) groupName,
         mySymbol := genSymbol (seMallocOk env) groupName,
         myState := MAMA_FT_STATE_UNKNOWN\<rparr>"

definition bridgeFt_setup ::
  "ftSetupEnv \<Rightarrow> string option \<Rightarrow> u32 \<Rightarrow> rat \<Rightarrow> rat \<Rightarrow> mamaFtMember \<Rightarrow> mamaFtMember \<times> mama_status" where
  "bridgeFt_setup env groupName weight heartbeatInterval timeoutInterval impl =
    (case groupName of
       None \<Rightarrow> (impl, MAMA_STATUS_INVALID_ARG)
     | Some groupName \<Rightarrow>
         if seTransport env = None then (impl, MAMA_STATUS_INVALID_ARG)
         else
           let impl = setup_members env groupName weight heartbeatInterval timeoutInterval impl
           in if \<not> seMallocOk env then (impl, MAMA_STATUS_NOMEM)
              else if seSubscription env \<noteq> MAMA_STATUS_OK then (impl, seSubscription env)
              else
                let impl = impl\<lparr>mySubscriptionActive := True\<rparr>
                in if sePublisher env \<noteq> MAMA_STATUS_OK then (impl, sePublisher env)
                   else if seMsg env \<noteq> MAMA_STATUS_OK then (impl, seMsg env)
                   else (impl, MAMA_STATUS_OK))"

text \<open>The sockets: the receiving socket is created and configured, then the sending one. The result is the
  member, the status and the descriptors that are open.\<close>

definition setup_recv_socket :: "ftSetupEnv \<Rightarrow> mamaFtMember \<Rightarrow> mamaFtMember \<times> mama_status \<times> int list" where
  "setup_recv_socket env impl =
    (let sock = seRecvSock env
     in if sock = -1 then (impl, MAMA_STATUS_SYSTEM_ERROR, [])
        else if seNonblock env \<noteq> 0 then (impl, MAMA_STATUS_SYSTEM_ERROR, [sock])
        else if seReuseAddr env = -1 then (impl, MAMA_STATUS_SYSTEM_ERROR, [])
        else if seRcvBuf env = -1 then (impl, MAMA_STATUS_SYSTEM_ERROR, [])
        else if seBind env = -1 then (impl, MAMA_STATUS_SYSTEM_ERROR, [])
        else
          let impl = impl\<lparr>myRecvSocket := sock\<rparr>
          in if seJoin env = -1 then (impl, MAMA_STATUS_SYSTEM_ERROR, [])
             else (impl, MAMA_STATUS_OK, [sock]))"

definition setup_send_socket ::
  "ftSetupEnv \<Rightarrow> string \<Rightarrow> int \<Rightarrow> u8 \<Rightarrow> mamaFtMember \<Rightarrow> mamaFtMember \<times> mama_status \<times> int list" where
  "setup_send_socket env network service ttl impl =
    (let impl = impl\<lparr>mySendSocket := seSendSock env, mySendAddr := (network, word_of_int service)\<rparr>;
         fds = (if seSendSock env = -1 then [] else [seSendSock env])
     in if seMulticastIf env = -1 then (impl, MAMA_STATUS_SYSTEM_ERROR, fds)
        else if ttl \<noteq> 1 \<and> seTtl env = -1 then (impl, MAMA_STATUS_SYSTEM_ERROR, fds)
        else (impl, MAMA_STATUS_OK, fds))"

definition setup_transport_name :: "ftSetupEnv \<Rightarrow> string option" where
  "setup_transport_name env =
    (case seTransport env of
       None \<Rightarrow> Some ''ft''
     | Some (status, name) \<Rightarrow>
         (case name of
            None \<Rightarrow> None
          | Some n \<Rightarrow> if status \<noteq> MAMA_STATUS_OK \<or> n = [] then None else Some n))"

definition multicastFt_setup ::
  "ftSetupEnv \<Rightarrow> string option \<Rightarrow> u32 \<Rightarrow> rat \<Rightarrow> rat \<Rightarrow> mamaFtMember \<Rightarrow> mamaFtMember \<times> mama_status \<times> int list" where
  "multicastFt_setup env groupName weight heartbeatInterval timeoutInterval impl =
    (case groupName of
       None \<Rightarrow> (impl, MAMA_STATUS_INVALID_ARG, [])
     | Some groupName \<Rightarrow>
         (case setup_transport_name env of
            None \<Rightarrow> (impl, MAMA_STATUS_INVALID_ARG, [])
          | Some transportName \<Rightarrow>
              let props = seProperties env;
                  network = setup_network props transportName;
                  service = setup_service props transportName;
                  ttl = setup_ttl props transportName;
                  iorecv = setup_iorecv props transportName;
                  impl = setup_members env groupName weight heartbeatInterval timeoutInterval
                           (impl\<lparr>mySendSocket := -1\<rparr>);
                  impl = impl\<lparr>mySendAddr := (network, word_of_int service), myRecvWindow := iorecv\<rparr>
              in if \<not> seMallocOk env then (impl, MAMA_STATUS_NOMEM, [])
                 else (case setup_recv_socket env impl of
                         (impl, status, fds) \<Rightarrow>
                           if status \<noteq> MAMA_STATUS_OK then (impl, status, fds)
                           else (case setup_send_socket env network service ttl impl of
                                   (impl, status, fds') \<Rightarrow> (impl, status, fds @ fds')))))"

definition mamaFtMember_setup ::
  "ftSetupEnv \<Rightarrow> mamaFtType \<Rightarrow> string option \<Rightarrow> u32 \<Rightarrow> rat \<Rightarrow> rat \<Rightarrow> mamaFtMember \<Rightarrow>
   mamaFtMember \<times> mama_status \<times> int list" where
  "mamaFtMember_setup env fttype groupName weight heartbeatInterval timeoutInterval impl =
    (let impl = impl\<lparr>ftType := fttype\<rparr>
     in case fttype of
          MAMA_FT_TYPE_MULTICAST \<Rightarrow> multicastFt_setup env groupName weight heartbeatInterval timeoutInterval impl
        | MAMA_FT_TYPE_BRIDGE \<Rightarrow>
            (case bridgeFt_setup env groupName weight heartbeatInterval timeoutInterval impl of
               (impl, status) \<Rightarrow> (impl, status, [])))"

subsection \<open>Release and accessors\<close>

text \<open>Destroying a member returns nothing that is closed: the sockets stay open.\<close>

definition mamaFtMember_destroy :: "mamaFtMember option \<Rightarrow> mamaFtMember option \<times> mama_status" where
  "mamaFtMember_destroy m =
    (case m of
       None \<Rightarrow> (None, MAMA_STATUS_INVALID_ARG)
     | Some impl \<Rightarrow> (case mamaFtMember_deactivate impl of (_, _) \<Rightarrow> (None, MAMA_STATUS_OK)))"

definition ft_get :: "(mamaFtMember \<Rightarrow> 'a) \<Rightarrow> mamaFtMember option \<Rightarrow> mama_status \<times> 'a option" where
  "ft_get field m =
    (case m of None \<Rightarrow> (MAMA_STATUS_INVALID_ARG, None) | Some impl \<Rightarrow> (MAMA_STATUS_OK, Some (field impl)))"

definition mamaFtMember_isActive :: "mamaFtMember option \<Rightarrow> mama_status \<times> bool option" where
  "mamaFtMember_isActive m = ft_get myIsActive m"

definition mamaFtMember_getGroupName :: "mamaFtMember option \<Rightarrow> mama_status \<times> string option" where
  "mamaFtMember_getGroupName m = ft_get myGroupName m"

definition mamaFtMember_getWeight :: "mamaFtMember option \<Rightarrow> mama_status \<times> u32 option" where
  "mamaFtMember_getWeight m = ft_get myWeight m"

definition mamaFtMember_getHeartbeatInterval :: "mamaFtMember option \<Rightarrow> mama_status \<times> rat option" where
  "mamaFtMember_getHeartbeatInterval m = ft_get myHeartbeatInterval m"

definition mamaFtMember_getTimeoutInterval :: "mamaFtMember option \<Rightarrow> mama_status \<times> rat option" where
  "mamaFtMember_getTimeoutInterval m = ft_get myTimeoutInterval m"

definition mamaFtMember_getHeartbeatTick :: "mamaFtMember option \<Rightarrow> mama_status \<times> u32 option" where
  "mamaFtMember_getHeartbeatTick m = ft_get myHeartbeatTick m"

definition mamaFtMember_setInstanceId ::
  "bool \<Rightarrow> u32 \<Rightarrow> string option \<Rightarrow> mamaFtMember option \<Rightarrow> mamaFtMember option \<times> mama_status" where
  "mamaFtMember_setInstanceId mallocOk hostIp ident m =
    (case m of
       None \<Rightarrow> (None, MAMA_STATUS_INVALID_ARG)
     | Some impl \<Rightarrow>
         let newId = (if ident \<noteq> None \<and> ident \<noteq> Some [] then (if mallocOk then ident else None)
                      else genInstanceId mallocOk hostIp (myPid impl) (myGroupName impl))
         in (Some (impl\<lparr>myInstanceId := newId\<rparr>),
             if newId = None then MAMA_STATUS_NOMEM else MAMA_STATUS_OK))"

text \<open>The subscription callback of the bridge variant: \<open>None\<close> is a message that lacks one of the fields.\<close>

definition ftSubMsgCb :: "ftEnv \<Rightarrow> heartbeat option \<Rightarrow> mamaFtMember \<Rightarrow> mamaFtMember" where
  "ftSubMsgCb env msg impl = (case msg of None \<Rightarrow> impl | Some hb \<Rightarrow> mamaCheckHeartbeat env hb impl)"

subsection \<open>Lemmas\<close>

lemma print_hex_length:
  "length (print_nat 16 (unat (w :: u32))) \<le> 8" "length (print_nat 16 (unat (v :: u16))) \<le> 4"
  using unsigned_less [of w] unsigned_less [of v] by (auto intro!: print_length)

text \<open>The buffers of the names are just large enough: nothing is cut off.\<close>

lemma genInstanceId_fits:
  "genInstanceId True ip pid g = Some (g @ ''.'' @ print_nat 16 (unat ip) @ ''.'' @ print_nat 16 (unat (ucast pid :: u16)))"
  using print_hex_length(1) [of ip] print_hex_length(2) [of "ucast pid"] by (simp add: genInstanceId_def snprintf_def Let_def)

lemma genSymbol_fits: "genSymbol True g = Some (''MAMA_FT.'' @ g)"
  by (simp add: genSymbol_def snprintf_def FT_SYMBOL_PREFIX_def)

lemma setup_members_fields [simp]:
  "myState (setup_members env g w hb t m) = MAMA_FT_STATE_UNKNOWN"
  "myWeight (setup_members env g w hb t m) = w"
  "ftType (setup_members env g w hb t m) = ftType m"
  "seMallocOk env \<Longrightarrow> myGroupName (setup_members env g w hb t m) = g"
  by (simp_all add: setup_members_def)

lemma setup_recv_socket_ok:
  assumes "setup_recv_socket env m = (m', MAMA_STATUS_OK, fds)"
  shows "m' = m\<lparr>myRecvSocket := seRecvSock env\<rparr>" and "fds = [seRecvSock env]" and "seRecvSock env \<noteq> -1"
  using assms by (auto simp: setup_recv_socket_def Let_def split: if_splits)

lemma setup_send_socket_ok:
  assumes "setup_send_socket env network service ttl m = (m', MAMA_STATUS_OK, fds)"
  shows "m' = m\<lparr>mySendSocket := seSendSock env, mySendAddr := (network, word_of_int service)\<rparr>"
    and "set fds = {seSendSock env} - {-1}"
  using assms by (auto simp: setup_send_socket_def Let_def split: if_splits)

lemma multicastFt_setup_ok:
  assumes "multicastFt_setup env (Some g) w hb t m = (m', MAMA_STATUS_OK, fds)"
  obtains name where "setup_transport_name env = Some name" and "seMallocOk env"
    and "m' = (setup_members env g w hb t (m\<lparr>mySendSocket := -1\<rparr>))
      \<lparr>myRecvWindow := setup_iorecv (seProperties env) name, myRecvSocket := seRecvSock env, mySendSocket := seSendSock env,
       mySendAddr := (setup_network (seProperties env) name, word_of_int (setup_service (seProperties env) name))\<rparr>"
    and "set fds = {seRecvSock env, seSendSock env} - {-1}"
proof -
  obtain name where n: "setup_transport_name env = Some name"
    using assms by (auto simp: multicastFt_setup_def split: option.splits)
  have "seMallocOk env" using assms n by (auto simp: multicastFt_setup_def Let_def split: if_splits)
  moreover define m1 where "m1 = (setup_members env g w hb t (m\<lparr>mySendSocket := -1\<rparr>))
    \<lparr>mySendAddr := (setup_network (seProperties env) name, word_of_int (setup_service (seProperties env) name)),
     myRecvWindow := setup_iorecv (seProperties env) name\<rparr>"
  ultimately obtain m2 fds1 fds2 where
    r: "setup_recv_socket env m1 = (m2, MAMA_STATUS_OK, fds1)" and
    s: "setup_send_socket env (setup_network (seProperties env) name) (setup_service (seProperties env) name)
        (setup_ttl (seProperties env) name) m2 = (m', MAMA_STATUS_OK, fds2)" and
    f: "fds = fds1 @ fds2"
    using assms n by (auto simp: multicastFt_setup_def Let_def split: if_splits prod.splits)
  note ok = setup_recv_socket_ok [OF r] setup_send_socket_ok [OF s]
  show thesis
    by (rule that [OF n \<open>seMallocOk env\<close>]) (use ok f in \<open>auto simp: m1_def\<close>)
qed

lemma bridgeFt_setup_ok:
  assumes "bridgeFt_setup env (Some g) w hb t m = (m', MAMA_STATUS_OK)"
  shows "seMallocOk env" and "m' = (setup_members env g w hb t m)\<lparr>mySubscriptionActive := True\<rparr>"
  using assms by (auto simp: bridgeFt_setup_def Let_def split: if_splits)

subsection \<open>Properties\<close>

definition demo_setup :: "(string \<Rightarrow> string option) \<Rightarrow> ftSetupEnv" where
  "demo_setup props =
    \<lparr>seTransport = None, seProperties = props, seMallocOk = True, seHostIp = 16,
     seSubscription = MAMA_STATUS_OK, sePublisher = MAMA_STATUS_OK, seMsg = MAMA_STATUS_OK,
     seRecvSock = 3, seNonblock = 0, seReuseAddr = 0, seRcvBuf = 0, seBind = 0, seJoin = 0,
     seSendSock = 4, seMulticastIf = 0, seTtl = 0\<rparr>"

definition demo_props :: "string \<Rightarrow> string option" where
  "demo_props k = (if k = ''mama.multicast.transport.ft.service'' then Some ''7000'' else None)"

lemma demo_setup_ok:
  "mamaFtMember_setup (demo_setup props) MAMA_FT_TYPE_MULTICAST (Some ''grp'') 5 1 3 (ft_calloc 100 MAMA_FT_TYPE_BRIDGE)
    = (fst (mamaFtMember_setup (demo_setup props) MAMA_FT_TYPE_MULTICAST (Some ''grp'') 5 1 3 (ft_calloc 100 MAMA_FT_TYPE_BRIDGE)),
       MAMA_STATUS_OK, [3, 4])"
  by (simp add: mamaFtMember_setup_def multicastFt_setup_def demo_setup_def setup_transport_name_def
      setup_recv_socket_def setup_send_socket_def Let_def)

text \<open>A member that was set up successfully has the group, weight and intervals it was given, starts
  in the unknown state, and has complete names (the group, the host and the process in the instance
  id; the prefix and the group in the symbol): the buffers they are printed into never cut them off.
  A multicast member has exactly its two sockets open.\<close>

lemma ft_setup_ok:
  assumes "mamaFtMember_setup env t (Some g) w hb tm m = (m', MAMA_STATUS_OK, fds)"
  shows "ftType m' = t \<and> myGroupName m' = g \<and> myWeight m' = w \<and> myHeartbeatInterval m' = hb \<and>
     myTimeoutInterval m' = tm \<and> myState m' = MAMA_FT_STATE_UNKNOWN \<and> mySymbol m' = Some (''MAMA_FT.'' @ g) \<and>
     myInstanceId m' = Some (g @ ''.'' @ print_nat 16 (unat (seHostIp env)) @ ''.'' @
       print_nat 16 (unat (ucast (myPid m) :: u16))) \<and>
     set fds = (case t of MAMA_FT_TYPE_MULTICAST \<Rightarrow> {myRecvSocket m', mySendSocket m'} - {-1} | MAMA_FT_TYPE_BRIDGE \<Rightarrow> {})"
proof (cases t)
  case MAMA_FT_TYPE_MULTICAST
  with assms have "multicastFt_setup env (Some g) w hb tm (m\<lparr>ftType := t\<rparr>) = (m', MAMA_STATUS_OK, fds)"
    by (simp add: mamaFtMember_setup_def)
  then show ?thesis
    by (rule multicastFt_setup_ok)
      (simp add: setup_members_def MAMA_FT_TYPE_MULTICAST genInstanceId_fits genSymbol_fits)
next
  case MAMA_FT_TYPE_BRIDGE
  with assms have b: "bridgeFt_setup env (Some g) w hb tm (m\<lparr>ftType := t\<rparr>) = (m', MAMA_STATUS_OK)" "fds = []"
    by (auto simp: mamaFtMember_setup_def split: prod.splits)
  show ?thesis
    using bridgeFt_setup_ok [OF b(1)] b(2)
    by (simp add: setup_members_def MAMA_FT_TYPE_BRIDGE genInstanceId_fits genSymbol_fits)
qed

text \<open>The service that is configured under the multicast name of a transport is ignored: whatever the
  value of the property is, a multicast member that was set up sends to the default service 7702 (and
  its time to live is the default 1 when a multicast time to live is configured).\<close>

lemma ft_multicast_properties_ignored:
  assumes "mamaFtMember_setup env MAMA_FT_TYPE_MULTICAST (Some g) w hb tm m = (m', MAMA_STATUS_OK, fds)"
    and "setup_transport_name env = Some name"
    and "multicastFt_getProperty (seProperties env) ''multicast'' ''service'' name = Some s"
  shows "snd (mySendAddr m') = 7702 \<and>
    (multicastFt_getProperty (seProperties env) ''multicast'' ''ttl'' name \<noteq> None \<longrightarrow> setup_ttl (seProperties env) name = 1)"
proof -
  have "multicastFt_setup env (Some g) w hb tm (m\<lparr>ftType := MAMA_FT_TYPE_MULTICAST\<rparr>) = (m', MAMA_STATUS_OK, fds)"
    using assms(1) by (simp add: mamaFtMember_setup_def)
  then have "snd (mySendAddr m') = word_of_int (setup_service (seProperties env) name)"
    by (rule multicastFt_setup_ok) (use assms(2) in simp)
  then show ?thesis using assms(3) by (auto simp: setup_service_def FT_SERVICE_def setup_ttl_def FT_TTL_def)
qed

end
