(* ===== verification/Transition_Spec.thy ===== *)
theory Transition_Spec
  imports Main
begin

text \<open>
  Transition systems: the reachable states of an initial condition and a step relation, and the
  interface through which a component shows a property of all its reachable states: an invariant that
  holds at the start and is kept by every step.
\<close>

inductive reachable :: "('s \<Rightarrow> bool) \<Rightarrow> ('s \<Rightarrow> 's \<Rightarrow> bool) \<Rightarrow> 's \<Rightarrow> bool" for init step where
  reach_init: "init s \<Longrightarrow> reachable init step s"
| reach_step: "reachable init step s \<Longrightarrow> step s s' \<Longrightarrow> reachable init step s'"

locale invariant_system =
  fixes init :: "'s \<Rightarrow> bool" and step :: "'s \<Rightarrow> 's \<Rightarrow> bool" and inv :: "'s \<Rightarrow> bool"
  assumes inv_init: "init s \<Longrightarrow> inv s"
    and inv_step: "inv s \<Longrightarrow> step s s' \<Longrightarrow> inv s'"
begin

lemma reachable_inv: "reachable init step s \<Longrightarrow> inv s"
  by (induction rule: reachable.induct) (auto intro: inv_init inv_step)

lemma reachable_run: "step\<^sup>*\<^sup>* s s' \<Longrightarrow> reachable init step s \<Longrightarrow> reachable init step s'"
  by (induction rule: rtranclp_induct) (auto intro: reach_step)

end

text \<open>
  Sequences of operations that may fail, and the interface of a component that implements a specification: an operation that the
  specification allows in the abstract state succeeds, keeps the invariant and has the specified effect.
\<close>

fun run_ops :: "('op \<Rightarrow> 's \<Rightarrow> 's option) \<Rightarrow> 'op list \<Rightarrow> 's \<Rightarrow> 's option" where
  "run_ops step [] s = Some s"
| "run_ops step (p # ps) s = (case step p s of None \<Rightarrow> None | Some s' \<Rightarrow> run_ops step ps s')"

fun allowed :: "('op \<Rightarrow> 'a \<Rightarrow> bool) \<Rightarrow> ('op \<Rightarrow> 'a \<Rightarrow> 'a) \<Rightarrow> 'op list \<Rightarrow> 'a \<Rightarrow> bool" where
  "allowed valid spec [] a = True"
| "allowed valid spec (p # ps) a = (valid p a \<and> allowed valid spec ps (spec p a))"

locale simulation_spec =
  fixes inv :: "'s \<Rightarrow> bool" and abs :: "'s \<Rightarrow> 'a" and step :: "'op \<Rightarrow> 's \<Rightarrow> 's option" and spec :: "'op \<Rightarrow> 'a \<Rightarrow> 'a"
    and valid :: "'op \<Rightarrow> 'a \<Rightarrow> bool"
  assumes simulates: "inv s \<Longrightarrow> valid p (abs s) \<Longrightarrow> \<exists>s'. step p s = Some s' \<and> inv s' \<and> abs s' = spec p (abs s)"
begin

lemma run_simulates:
  "inv s \<Longrightarrow> allowed valid spec ps (abs s) \<Longrightarrow> \<exists>s'. run_ops step ps s = Some s' \<and> inv s' \<and> abs s' = fold spec ps (abs s)"
proof (induction ps arbitrary: s)
  case (Cons p ps)
  then obtain s' where "step p s = Some s'" "inv s'" "abs s' = spec p (abs s)" using simulates [of s p] by auto
  with Cons.IH [of s'] Cons.prems show ?case by simp
qed simp

end

end
