(* ===== verification/MRSWLock.thy ===== *)
theory MRSWLock
  imports Transition_Spec Mama_Prelude
begin

text \<open>
  The multiple reader / single writer lock of \<open>common/c_cpp/src/c/MRSWLock.c\<close>, run by \<open>N\<close> threads that
  are interleaved arbitrarily. A step of a thread is one operation on the mutex or on the semaphore,
  together with the accesses to the structure that are made under the mutex next to it. Threads are
  numbered from 1 (the code uses 0 for no thread). Threads follow the contract of the header file:
  they release only locks that they hold, and pass a lock that is not \<open>NULL\<close>.
\<close>

subsection \<open>The structure and its primitives\<close>

text \<open>The mutex is recursive: its owner and how often the owner has locked it.\<close>

record MRSWLock =
  m_numberReaders :: int
  m_numberWriters :: int
  m_noLocksEvent :: nat
  m_mutex :: "(nat \<times> nat) option"
  m_writeThreadId :: nat

text \<open>\<open>None\<close> means that the caller blocks.\<close>

definition wlock_lock :: "nat \<Rightarrow> MRSWLock \<Rightarrow> MRSWLock option" where
  "wlock_lock t l =
    (case m_mutex l of
       None \<Rightarrow> Some (l\<lparr>m_mutex := Some (t, 1)\<rparr>)
     | Some (u, n) \<Rightarrow> if u = t then Some (l\<lparr>m_mutex := Some (t, n + 1)\<rparr>) else None)"

definition wlock_unlock :: "nat \<Rightarrow> MRSWLock \<Rightarrow> MRSWLock" where
  "wlock_unlock t l =
    (case m_mutex l of
       None \<Rightarrow> l
     | Some (u, n) \<Rightarrow>
         if u = t then l\<lparr>m_mutex := (if n \<le> 1 then None else Some (t, n - 1))\<rparr> else l)"

definition wsem_wait :: "MRSWLock \<Rightarrow> MRSWLock option" where
  "wsem_wait l = (if m_noLocksEvent l = 0 then None else Some (l\<lparr>m_noLocksEvent := m_noLocksEvent l - 1\<rparr>))"

text \<open>A timed wait without time never blocks.\<close>

definition wsem_timedwait_0 :: "MRSWLock \<Rightarrow> MRSWLock" where
  "wsem_timedwait_0 l = l\<lparr>m_noLocksEvent := m_noLocksEvent l - 1\<rparr>"

definition wsem_post :: "MRSWLock \<Rightarrow> MRSWLock" where
  "wsem_post l = l\<lparr>m_noLocksEvent := m_noLocksEvent l + 1\<rparr>"

subsection \<open>Creation and release\<close>

datatype MRSW_RESULT = MRSW_S_OK | MRSW_E_INVALIDARG | MRSW_E_OUTOFMEMORY | MRSW_E_SYSTEM

definition MRSWLock_free :: "bool \<Rightarrow> MRSWLock option \<Rightarrow> MRSW_RESULT" where
  "MRSWLock_free semDestroyed lock =
    (case lock of
       None \<Rightarrow> MRSW_E_INVALIDARG
     | Some _ \<Rightarrow> if \<not> semDestroyed then MRSW_E_SYSTEM else MRSW_S_OK)"

definition new_lock :: MRSWLock where
  "new_lock = \<lparr>m_numberReaders = 0, m_numberWriters = 0, m_noLocksEvent = 0, m_mutex = None, m_writeThreadId = 0\<rparr>"

definition MRSWLock_create :: "bool \<Rightarrow> bool \<Rightarrow> bool \<Rightarrow> MRSW_RESULT \<times> MRSWLock option" where
  "MRSWLock_create callocOk semOk mutexOk =
    (let ret = MRSW_E_OUTOFMEMORY;
         (ret, rLock) =
           (if \<not> callocOk then (ret, None)
            else if \<not> semOk \<or> \<not> mutexOk then (ret, Some new_lock)
            else (MRSW_S_OK, Some (wsem_post new_lock)))
     in if ret \<noteq> MRSW_S_OK then (ret, None) else (ret, rLock))"

subsection \<open>Threads\<close>

datatype mrsw_op = Acquire bool | Release bool

text \<open>The positions of a thread: before the named operation on the mutex or the semaphore.\<close>

datatype pc = Idle
  | AcqW_getId | AcqW_readId | AcqW_again | AcqW_inc | AcqW_wait | AcqW_lock | AcqW_test
  | AcqR_lock | AcqR_reset | AcqR_inc
  | RelW_lock | RelW_test | RelW_post | RelW_unlock
  | RelR_lock | RelR_dec | RelR_post | RelR_unlock

text \<open>\<open>todo\<close> holds the operations that remain of a composed call; \<open>rHeld\<close> and \<open>wHeld\<close> count the locks that
  the thread has acquired and not begun to release.\<close>

record thread =
  pc :: pc
  todo :: "mrsw_op list"
  rHeld :: nat
  wHeld :: nat

fun start_op :: "mrsw_op \<Rightarrow> thread \<Rightarrow> thread" where
  "start_op (Acquire read) th = th\<lparr>pc := (if read then AcqR_lock else AcqW_getId)\<rparr>"
| "start_op (Release read) th =
    (if read then th\<lparr>pc := RelR_lock, rHeld := rHeld th - 1\<rparr>
     else th\<lparr>pc := RelW_lock, wHeld := wHeld th - 1\<rparr>)"

definition end_op :: "thread \<Rightarrow> thread" where
  "end_op th = (case todo th of [] \<Rightarrow> th\<lparr>pc := Idle\<rparr> | op # ops \<Rightarrow> start_op op (th\<lparr>todo := ops\<rparr>))"

text \<open>One step of thread \<open>t\<close>; \<open>None\<close> when it is blocked or idle.\<close>

definition MRSWLock_acquire :: "nat \<Rightarrow> thread \<Rightarrow> MRSWLock \<Rightarrow> (thread \<times> MRSWLock) option" where
  "MRSWLock_acquire t th l =
    (case pc th of
       AcqW_getId \<Rightarrow> map_option (\<lambda>l. (th\<lparr>pc := AcqW_readId\<rparr>, l)) (wlock_lock t l)
     | AcqW_readId \<Rightarrow>
         Some (th\<lparr>pc := (if m_writeThreadId l = t then AcqW_again else AcqW_wait)\<rparr>, wlock_unlock t l)
     | AcqW_again \<Rightarrow> map_option (\<lambda>l. (th\<lparr>pc := AcqW_inc\<rparr>, l)) (wlock_lock t l)
     | AcqW_inc \<Rightarrow>
         Some (end_op (th\<lparr>wHeld := wHeld th + 1\<rparr>),
               wlock_unlock t (l\<lparr>m_numberWriters := m_numberWriters l + 1\<rparr>))
     | AcqW_wait \<Rightarrow> map_option (\<lambda>l. (th\<lparr>pc := AcqW_lock\<rparr>, l)) (wsem_wait l)
     | AcqW_lock \<Rightarrow> map_option (\<lambda>l. (th\<lparr>pc := AcqW_test\<rparr>, l)) (wlock_lock t l)
     | AcqW_test \<Rightarrow>
         (if m_numberReaders l = 0
          then Some (end_op (th\<lparr>wHeld := wHeld th + 1\<rparr>), l\<lparr>m_writeThreadId := t\<rparr>)
          else Some (th\<lparr>pc := AcqW_wait\<rparr>, wlock_unlock t l))
     | AcqR_lock \<Rightarrow> map_option (\<lambda>l. (th\<lparr>pc := AcqR_reset\<rparr>, l)) (wlock_lock t l)
     | AcqR_reset \<Rightarrow>
         Some (th\<lparr>pc := AcqR_inc\<rparr>, if m_numberReaders l = 0 then wsem_timedwait_0 l else l)
     | AcqR_inc \<Rightarrow>
         Some (end_op (th\<lparr>rHeld := rHeld th + 1\<rparr>),
               wlock_unlock t (l\<lparr>m_numberReaders := m_numberReaders l + 1\<rparr>))
     | _ \<Rightarrow> None)"

definition MRSWLock_release :: "nat \<Rightarrow> thread \<Rightarrow> MRSWLock \<Rightarrow> (thread \<times> MRSWLock) option" where
  "MRSWLock_release t th l =
    (case pc th of
       RelW_lock \<Rightarrow> map_option (\<lambda>l. (th\<lparr>pc := RelW_test\<rparr>, l)) (wlock_lock t l)
     | RelW_test \<Rightarrow>
         (if m_numberWriters l > 0
          then Some (th\<lparr>pc := RelW_unlock\<rparr>, l\<lparr>m_numberWriters := m_numberWriters l - 1\<rparr>)
          else Some (th\<lparr>pc := RelW_post\<rparr>, (wlock_unlock t l)\<lparr>m_writeThreadId := 0\<rparr>))
     | RelW_post \<Rightarrow> Some (th\<lparr>pc := RelW_unlock\<rparr>, wsem_post l)
     | RelW_unlock \<Rightarrow> Some (end_op th, wlock_unlock t l)
     | RelR_lock \<Rightarrow> map_option (\<lambda>l. (th\<lparr>pc := RelR_dec\<rparr>, l)) (wlock_lock t l)
     | RelR_dec \<Rightarrow>
         Some (th\<lparr>pc := (if m_numberReaders l - 1 = 0 then RelR_post else RelR_unlock)\<rparr>,
               l\<lparr>m_numberReaders := m_numberReaders l - 1\<rparr>)
     | RelR_post \<Rightarrow> Some (th\<lparr>pc := RelR_unlock\<rparr>, wsem_post l)
     | RelR_unlock \<Rightarrow> Some (end_op th, wlock_unlock t l)
     | _ \<Rightarrow> None)"

definition thread_step :: "nat \<Rightarrow> thread \<Rightarrow> MRSWLock \<Rightarrow> (thread \<times> MRSWLock) option" where
  "thread_step t th l =
    (case MRSWLock_acquire t th l of Some r \<Rightarrow> Some r | None \<Rightarrow> MRSWLock_release t th l)"

text \<open>The calls, with the locks that a caller must hold.\<close>

definition MRSWLock_downgrade :: "mrsw_op list" where
  "MRSWLock_downgrade = [Release False, Acquire True]"

definition MRSWLock_upgrade :: "mrsw_op list" where
  "MRSWLock_upgrade = [Release True, Acquire False]"

definition mrsw_calls :: "mrsw_op list list" where
  "mrsw_calls = [[Acquire False], [Acquire True], [Release False], [Release True],
     MRSWLock_downgrade, MRSWLock_upgrade]"

fun entitled :: "mrsw_op list \<Rightarrow> thread \<Rightarrow> bool" where
  "entitled (Release read # _) th = (0 < (if read then rHeld th else wHeld th))"
| "entitled _ th = True"

record mrsw_sys =
  sLock :: MRSWLock
  threads :: "nat \<Rightarrow> thread"

inductive mrsw_step :: "nat \<Rightarrow> mrsw_sys \<Rightarrow> mrsw_sys \<Rightarrow> bool" for N where
  call: "\<lbrakk> t \<in> {1..N}; pc (threads s t) = Idle; c \<in> set mrsw_calls; entitled c (threads s t) \<rbrakk> \<Longrightarrow>
    mrsw_step N s (s\<lparr>threads := (threads s)(t := start_op (hd c) ((threads s t)\<lparr>todo := tl c\<rparr>))\<rparr>)"
| run: "\<lbrakk> t \<in> {1..N}; thread_step t (threads s t) (sLock s) = Some (th, l) \<rbrakk> \<Longrightarrow>
    mrsw_step N s (s\<lparr>sLock := l, threads := (threads s)(t := th)\<rparr>)"

definition mrsw_init :: "mrsw_sys \<Rightarrow> bool" where
  "mrsw_init s \<longleftrightarrow> Some (sLock s) = snd (MRSWLock_create True True True) \<and>
     (\<forall>t. threads s t = \<lparr>pc = Idle, todo = [], rHeld = 0, wHeld = 0\<rparr>)"

subsection \<open>What a thread holds\<close>

text \<open>The write and read locks that a thread holds or is just releasing, and how often it has locked the
  mutex: once for the write lock, once while it is inside an operation.\<close>

fun releasing :: "bool \<Rightarrow> pc \<Rightarrow> bool" where
  "releasing read RelW_lock = (\<not> read)"
| "releasing read RelW_test = (\<not> read)"
| "releasing read RelR_lock = read"
| "releasing read RelR_dec = read"
| "releasing _ _ = False"

definition writes :: "thread \<Rightarrow> nat" where
  "writes th = wHeld th + of_bool (releasing False (pc th))"

definition reads :: "thread \<Rightarrow> nat" where
  "reads th = rHeld th + of_bool (releasing True (pc th))"

fun outside :: "pc \<Rightarrow> bool" where
  "outside Idle = True"
| "outside AcqW_getId = True"
| "outside AcqW_again = True"
| "outside AcqW_wait = True"
| "outside AcqW_lock = True"
| "outside AcqR_lock = True"
| "outside RelW_lock = True"
| "outside RelR_lock = True"
| "outside _ = False"

definition depth :: "thread \<Rightarrow> nat" where
  "depth th = of_bool (0 < writes th) + of_bool (\<not> outside (pc th))"

definition owned :: "nat \<Rightarrow> MRSWLock \<Rightarrow> nat" where
  "owned t l = (case m_mutex l of Some (u, n) \<Rightarrow> if u = t then n else 0 | None \<Rightarrow> 0)"

definition only_acquires :: "mrsw_op list \<Rightarrow> bool" where
  "only_acquires ops \<longleftrightarrow> (\<forall>op \<in> set ops. \<exists>read. op = Acquire read)"

definition local_ok :: "thread \<Rightarrow> bool" where
  "local_ok th \<longleftrightarrow> only_acquires (todo th) \<and>
     (pc th \<in> {AcqW_again, AcqW_inc} \<longrightarrow> 0 < writes th) \<and>
     (pc th \<in> {AcqW_wait, AcqW_lock, AcqW_test} \<longrightarrow> writes th = 0)"

definition thread_ok :: "nat \<Rightarrow> thread \<Rightarrow> MRSWLock \<Rightarrow> bool" where
  "thread_ok t th l \<longleftrightarrow> local_ok th \<and> owned t l = depth th \<and> (0 < writes th \<longleftrightarrow> m_writeThreadId l = t) \<and>
     (0 < writes th \<longrightarrow> m_numberWriters l = int (writes th) - 1)"

definition lock_ok :: "MRSWLock \<Rightarrow> bool" where
  "lock_ok l \<longleftrightarrow> (\<forall>u n. m_mutex l = Some (u, n) \<longrightarrow> 0 < n) \<and> (m_writeThreadId l = 0 \<longrightarrow> m_numberWriters l = 0)"

text \<open>A thread that will hand on the right to try the write lock: it has taken the token of the semaphore and
  will put one back, or it is the writer, or it is about to become a reader.\<close>

definition has_token :: "thread \<Rightarrow> bool" where
  "has_token th \<longleftrightarrow> pc th \<in> {AcqW_lock, AcqW_test, AcqR_inc, RelW_post, RelR_post} \<or> 0 < writes th"

lemma end_op_fields:
  assumes "only_acquires (todo th)"
  shows "wHeld (end_op th) = wHeld th" "rHeld (end_op th) = rHeld th" "outside (pc (end_op th))"
    "releasing read (pc (end_op th)) = False" "only_acquires (todo (end_op th))"
    "q \<notin> {Idle, AcqW_getId, AcqR_lock} \<Longrightarrow> (pc (end_op th) = q) = False"
proof -
  have "\<exists>q ops. end_op th = th\<lparr>pc := q, todo := ops\<rparr> \<and> q \<in> {Idle, AcqW_getId, AcqR_lock} \<and> only_acquires ops"
  proof (cases "todo th")
    case Nil
    then show ?thesis using assms by (intro exI [of _ Idle] exI [of _ "[]"]) (simp add: end_op_def)
  next
    case (Cons op ops)
    with assms obtain read where "op = Acquire read" "only_acquires ops" by (auto simp: only_acquires_def)
    with Cons show ?thesis
      by (intro exI [of _ "if read then AcqR_lock else AcqW_getId"] exI [of _ ops]) (simp add: end_op_def)
  qed
  then obtain r ops where "end_op th = th\<lparr>pc := r, todo := ops\<rparr>" "r \<in> {Idle, AcqW_getId, AcqR_lock}" "only_acquires ops"
    by blast
  then show "wHeld (end_op th) = wHeld th" "rHeld (end_op th) = rHeld th" "outside (pc (end_op th))"
    "releasing read (pc (end_op th)) = False" "only_acquires (todo (end_op th))"
    "q \<notin> {Idle, AcqW_getId, AcqR_lock} \<Longrightarrow> (pc (end_op th) = q) = False"
    by auto
qed

lemma wlock_lock_owned:
  assumes "wlock_lock t l = Some l'"
  shows "owned u l' = (if u = t then owned t l + 1 else owned u l)" and "lock_ok l \<Longrightarrow> lock_ok l'"
  using assms by (auto simp: wlock_lock_def owned_def lock_ok_def split: option.splits if_splits)

lemma wlock_lock_fields:
  assumes "wlock_lock t l = Some l'"
  shows "m_numberReaders l' = m_numberReaders l" "m_numberWriters l' = m_numberWriters l"
    "m_noLocksEvent l' = m_noLocksEvent l" "m_writeThreadId l' = m_writeThreadId l"
  using assms by (auto simp: wlock_lock_def split: option.splits if_splits)

lemma wlock_unlock_owned:
  "owned u (wlock_unlock t l) = (if u = t then owned t l - 1 else owned u l)" "lock_ok l \<Longrightarrow> lock_ok (wlock_unlock t l)"
  by (auto simp: wlock_unlock_def owned_def lock_ok_def split: option.splits)

lemma wlock_unlock_fields [simp]:
  "m_numberReaders (wlock_unlock t l) = m_numberReaders l" "m_numberWriters (wlock_unlock t l) = m_numberWriters l"
  "m_noLocksEvent (wlock_unlock t l) = m_noLocksEvent l" "m_writeThreadId (wlock_unlock t l) = m_writeThreadId l"
  by (auto simp: wlock_unlock_def split: option.splits)

lemma owned_update [simp]:
  "owned u (l\<lparr>m_numberReaders := r\<rparr>) = owned u l" "owned u (l\<lparr>m_numberWriters := w\<rparr>) = owned u l"
  "owned u (l\<lparr>m_noLocksEvent := e\<rparr>) = owned u l" "owned u (l\<lparr>m_writeThreadId := i\<rparr>) = owned u l"
  by (simp_all add: owned_def)

lemmas sem_defs = wsem_wait_def wsem_timedwait_0_def wsem_post_def

text \<open>The steps of a thread as a relation, for case analysis.\<close>

inductive tstep :: "nat \<Rightarrow> thread \<Rightarrow> MRSWLock \<Rightarrow> thread \<Rightarrow> MRSWLock \<Rightarrow> bool" for t th l where
  mutex_lock: "wlock_lock t l = Some l' \<Longrightarrow>
    (pc th, q) \<in> {(AcqW_getId, AcqW_readId), (AcqW_again, AcqW_inc), (AcqW_lock, AcqW_test), (AcqR_lock, AcqR_reset),
       (RelW_lock, RelW_test), (RelR_lock, RelR_dec)} \<Longrightarrow> tstep t th l (th\<lparr>pc := q\<rparr>) l'"
| read_id: "pc th = AcqW_readId \<Longrightarrow> m_writeThreadId l = t \<Longrightarrow> tstep t th l (th\<lparr>pc := AcqW_again\<rparr>) (wlock_unlock t l)"
| read_other: "pc th = AcqW_readId \<Longrightarrow> m_writeThreadId l \<noteq> t \<Longrightarrow> tstep t th l (th\<lparr>pc := AcqW_wait\<rparr>) (wlock_unlock t l)"
| acq_inc: "pc th = AcqW_inc \<Longrightarrow> tstep t th l (end_op (th\<lparr>wHeld := Suc (wHeld th)\<rparr>))
    (wlock_unlock t (l\<lparr>m_numberWriters := m_numberWriters l + 1\<rparr>))"
| sem_wait: "pc th = AcqW_wait \<Longrightarrow> 0 < m_noLocksEvent l \<Longrightarrow>
    tstep t th l (th\<lparr>pc := AcqW_lock\<rparr>) (l\<lparr>m_noLocksEvent := m_noLocksEvent l - Suc 0\<rparr>)"
| granted: "pc th = AcqW_test \<Longrightarrow> m_numberReaders l = 0 \<Longrightarrow>
    tstep t th l (end_op (th\<lparr>wHeld := Suc (wHeld th)\<rparr>)) (l\<lparr>m_writeThreadId := t\<rparr>)"
| refused: "pc th = AcqW_test \<Longrightarrow> m_numberReaders l \<noteq> 0 \<Longrightarrow> tstep t th l (th\<lparr>pc := AcqW_wait\<rparr>) (wlock_unlock t l)"
| read_first: "pc th = AcqR_reset \<Longrightarrow> m_numberReaders l = 0 \<Longrightarrow>
    tstep t th l (th\<lparr>pc := AcqR_inc\<rparr>) (l\<lparr>m_noLocksEvent := m_noLocksEvent l - Suc 0\<rparr>)"
| read_more: "pc th = AcqR_reset \<Longrightarrow> m_numberReaders l \<noteq> 0 \<Longrightarrow> tstep t th l (th\<lparr>pc := AcqR_inc\<rparr>) l"
| read_inc: "pc th = AcqR_inc \<Longrightarrow> tstep t th l (end_op (th\<lparr>rHeld := Suc (rHeld th)\<rparr>))
    (wlock_unlock t (l\<lparr>m_numberReaders := m_numberReaders l + 1\<rparr>))"
| write_dec: "pc th = RelW_test \<Longrightarrow> 0 < m_numberWriters l \<Longrightarrow>
    tstep t th l (th\<lparr>pc := RelW_unlock\<rparr>) (l\<lparr>m_numberWriters := m_numberWriters l - 1\<rparr>)"
| write_end: "pc th = RelW_test \<Longrightarrow> m_numberWriters l \<le> 0 \<Longrightarrow>
    tstep t th l (th\<lparr>pc := RelW_post\<rparr>) ((wlock_unlock t l)\<lparr>m_writeThreadId := 0\<rparr>)"
| read_last: "pc th = RelR_dec \<Longrightarrow> m_numberReaders l = 1 \<Longrightarrow>
    tstep t th l (th\<lparr>pc := RelR_post\<rparr>) (l\<lparr>m_numberReaders := 0\<rparr>)"
| read_dec: "pc th = RelR_dec \<Longrightarrow> m_numberReaders l \<noteq> 1 \<Longrightarrow>
    tstep t th l (th\<lparr>pc := RelR_unlock\<rparr>) (l\<lparr>m_numberReaders := m_numberReaders l - 1\<rparr>)"
| write_post: "pc th = RelW_post \<Longrightarrow>
    tstep t th l (th\<lparr>pc := RelW_unlock\<rparr>) (l\<lparr>m_noLocksEvent := Suc (m_noLocksEvent l)\<rparr>)"
| read_post: "pc th = RelR_post \<Longrightarrow>
    tstep t th l (th\<lparr>pc := RelR_unlock\<rparr>) (l\<lparr>m_noLocksEvent := Suc (m_noLocksEvent l)\<rparr>)"
| write_unlock: "pc th = RelW_unlock \<Longrightarrow> tstep t th l (end_op th) (wlock_unlock t l)"
| read_unlock: "pc th = RelR_unlock \<Longrightarrow> tstep t th l (end_op th) (wlock_unlock t l)"

lemma thread_step_tstep: "thread_step t th l = Some (th', l') \<Longrightarrow> tstep t th l th' l'"
  by (cases "pc th")
    (auto simp: thread_step_def MRSWLock_acquire_def MRSWLock_release_def sem_defs intro: tstep.intros split: if_splits option.splits)

lemma thread_okD:
  assumes "thread_ok t th l"
  shows "local_ok th" "owned t l = depth th" "0 < writes th \<longleftrightarrow> m_writeThreadId l = t"
    "0 < writes th \<longrightarrow> m_numberWriters l = int (writes th) - 1" "only_acquires (todo th)"
  using assms unfolding thread_ok_def local_ok_def by blast+

lemma tstep_thread_ok:
  assumes "tstep t th l th' l'" and "thread_ok t th l" and "t \<noteq> 0"
    and "pc th = AcqW_test \<Longrightarrow> m_numberWriters l = 0"
  shows "thread_ok t th' l'"
proof -
  note ok = thread_okD [OF assms(2)]
  show ?thesis
    using assms(1)
  proof cases
    case (mutex_lock q)
    note l' = wlock_lock_owned(1) [OF mutex_lock(2), of t] wlock_lock_fields [OF mutex_lock(2)]
    from mutex_lock(3) show ?thesis
      unfolding insert_iff prod.inject empty_iff mutex_lock(1)
      by (elim disjE FalseE conjE)
        (use ok l' in \<open>simp_all add: thread_ok_def local_ok_def depth_def writes_def\<close>)
  qed (use ok assms(3,4) in \<open>simp_all add: thread_ok_def local_ok_def depth_def writes_def wlock_unlock_owned end_op_fields\<close>)
qed

lemma tstep_owned_other:
  assumes "tstep t th l th' l'" and "u \<noteq> t"
  shows "owned u l' = owned u l"
  using assms(1) by cases (use assms(2) in \<open>simp_all add: wlock_lock_owned(1) wlock_unlock_owned(1)\<close>)

lemma tstep_outside:
  assumes "tstep t th l th' l'" and "outside (pc th)"
  shows "m_numberReaders l' = m_numberReaders l" "m_numberWriters l' = m_numberWriters l"
    "m_writeThreadId l' = m_writeThreadId l"
  using assms by (cases rule: tstep.cases; auto simp: wlock_lock_fields)+

lemma tstep_writer:
  assumes "tstep t th l th' l'"
  shows "m_writeThreadId l' \<in> {m_writeThreadId l, t, 0}"
  using assms by cases (auto simp: wlock_lock_fields)

lemma tstep_lock_ok:
  assumes "tstep t th l th' l'" and "lock_ok l" and "thread_ok t th l" and "t \<noteq> 0"
  shows "lock_ok l'"
proof -
  note ok = thread_okD [OF assms(3)]
  show ?thesis
    using assms(1)
  proof cases
    case (mutex_lock q)
    then show ?thesis using assms(2) by (simp add: wlock_lock_owned(2))
  qed (use assms(2,4) ok in \<open>auto simp: lock_ok_def local_ok_def writes_def wlock_unlock_def split: option.splits if_splits\<close>)
qed

lemma tstep_reads:
  assumes "tstep t th l th' l'" and "only_acquires (todo th)"
  shows "m_numberReaders l' = m_numberReaders l + int (reads th') - int (reads th)"
  using assms(1)
proof cases
  case (mutex_lock q)
  then show ?thesis by (auto simp: wlock_lock_fields reads_def)
qed (use assms(2) in \<open>simp_all add: reads_def end_op_fields\<close>)

lemma tstep_token:
  assumes "tstep t th l th' l'" and "thread_ok t th l" and "int (reads th) \<le> m_numberReaders l"
    and "0 < m_numberReaders l \<or> 0 < m_noLocksEvent l \<or> has_token th \<or> A"
  shows "0 < m_numberReaders l' \<or> 0 < m_noLocksEvent l' \<or> has_token th' \<or> A"
proof -
  note ok = thread_okD [OF assms(2)]
  show ?thesis
    using assms(1)
  proof cases
    case (mutex_lock q)
    note l' = wlock_lock_fields [OF mutex_lock(2)]
    from mutex_lock(3) show ?thesis
      unfolding insert_iff prod.inject empty_iff mutex_lock(1)
      by (elim disjE FalseE conjE) (use assms(4) l' in \<open>simp_all add: has_token_def writes_def\<close>)
  qed (use assms(3,4) ok in \<open>simp_all add: local_ok_def has_token_def writes_def reads_def end_op_fields\<close>)
qed

subsection \<open>The invariant\<close>

definition total_reads :: "nat \<Rightarrow> (nat \<Rightarrow> thread) \<Rightarrow> int" where
  "total_reads N ths = (\<Sum>t = 1..N. int (reads (ths t)))"

definition mrsw_inv :: "nat \<Rightarrow> mrsw_sys \<Rightarrow> bool" where
  "mrsw_inv N s \<longleftrightarrow>
     (\<forall>t \<in> {1..N}. thread_ok t (threads s t) (sLock s)) \<and> lock_ok (sLock s) \<and> m_writeThreadId (sLock s) \<le> N \<and>
     (\<forall>u. 0 < owned u (sLock s) \<longrightarrow> u \<in> {1..N}) \<and>
     m_numberReaders (sLock s) = total_reads N (threads s) \<and>
     (\<forall>t \<in> {1..N}. \<forall>u \<in> {1..N}. t \<noteq> u \<and> 0 < writes (threads s t) \<longrightarrow> reads (threads s u) = 0) \<and>
     (0 < m_numberReaders (sLock s) \<or> 0 < m_noLocksEvent (sLock s) \<or> (\<exists>t \<in> {1..N}. has_token (threads s t)))"

lemma mrsw_invD:
  assumes "mrsw_inv N s"
  shows "t \<in> {1..N} \<Longrightarrow> thread_ok t (threads s t) (sLock s)" "lock_ok (sLock s)" "m_writeThreadId (sLock s) \<le> N"
    "m_numberReaders (sLock s) = total_reads N (threads s)"
    "t \<in> {1..N} \<Longrightarrow> u \<in> {1..N} \<Longrightarrow> t \<noteq> u \<Longrightarrow> 0 < writes (threads s t) \<Longrightarrow> reads (threads s u) = 0"
    "0 < m_numberReaders (sLock s) \<or> 0 < m_noLocksEvent (sLock s) \<or> (\<exists>t \<in> {1..N}. has_token (threads s t))"
    "\<forall>u. 0 < owned u (sLock s) \<longrightarrow> u \<in> {1..N}"
  using assms unfolding mrsw_inv_def by blast+

lemma total_reads_update:
  "t \<in> {1..N} \<Longrightarrow> total_reads N (ths(t := th)) = total_reads N ths + int (reads th) - int (reads (ths t))"
  unfolding total_reads_def by (subst (1 2) sum.remove [of _ t]) (auto intro!: sum.cong)

lemma reads_le_total: "t \<in> {1..N} \<Longrightarrow> int (reads (ths t)) \<le> total_reads N ths"
  unfolding total_reads_def by (rule member_le_sum) auto

lemma one_owner: "0 < owned t l \<Longrightarrow> 0 < owned u l \<Longrightarrow> t = u"
  by (auto simp: owned_def split: option.splits if_splits)

lemma only_owner_inside:
  assumes "mrsw_inv N s" and "t \<in> {1..N}" and "u \<in> {1..N}" and "t \<noteq> u" and "\<not> outside (pc (threads s t)) \<or> 0 < writes (threads s t)"
  shows "outside (pc (threads s u))" and "writes (threads s u) = 0"
proof -
  have "0 < owned t (sLock s)"
    using thread_okD(2) [OF mrsw_invD(1) [OF assms(1,2)]] assms(5) by (auto simp: depth_def)
  then have "owned u (sLock s) = 0" using one_owner assms(4) by blast
  then show "outside (pc (threads s u))" and "writes (threads s u) = 0"
    using thread_okD(2) [OF mrsw_invD(1) [OF assms(1,3)]] by (auto simp: depth_def)
qed

lemma no_writer_at_test:
  assumes "mrsw_inv N s" and "t \<in> {1..N}" and "pc (threads s t) = AcqW_test"
  shows "m_numberWriters (sLock s) = 0"
proof -
  have "writes (threads s u) = 0" if "u \<in> {1..N}" for u
  proof (cases "u = t")
    case True
    then show ?thesis using thread_okD(1) [OF mrsw_invD(1) [OF assms(1,2)]] assms(3) by (simp add: local_ok_def)
  next
    case False
    then show ?thesis using only_owner_inside(2) [OF assms(1,2) that] assms(3) by simp
  qed
  then have "m_writeThreadId (sLock s) \<notin> {1..N}"
    using thread_okD(3) [OF mrsw_invD(1) [OF assms(1)]] by (metis less_numeral_extra(3))
  then have "m_writeThreadId (sLock s) = 0" using mrsw_invD(3) [OF assms(1)] by auto
  then show ?thesis using mrsw_invD(2) [OF assms(1)] by (simp add: lock_ok_def)
qed

lemma run_keeps_threads:
  assumes "mrsw_inv N s" and "t \<in> {1..N}" and "tstep t (threads s t) (sLock s) th l" and "u \<in> {1..N}" and "u \<noteq> t"
  shows "thread_ok u (threads s u) l"
proof -
  note ok = thread_okD [OF mrsw_invD(1) [OF assms(1,4)]]
  have o: "owned u l = owned u (sLock s)" by (rule tstep_owned_other [OF assms(3,5)])
  show ?thesis
  proof (cases "outside (pc (threads s t))")
    case True
    then show ?thesis using tstep_outside [OF assms(3)] ok o by (simp add: thread_ok_def)
  next
    case False
    then have "writes (threads s u) = 0" using only_owner_inside(2) [OF assms(1,2,4)] assms(5) by blast
    moreover have "m_writeThreadId l \<noteq> u"
      using tstep_writer [OF assms(3)] ok(3) calculation assms(4,5) by auto
    ultimately show ?thesis using ok o by (simp add: thread_ok_def)
  qed
qed

lemma granted_reads:
  assumes "tstep t th l th' l'" and "thread_ok t th l" and "writes th = 0" and "0 < writes th'"
  shows "m_numberReaders l = 0"
  using assms(1)
proof cases
  case (mutex_lock q)
  from mutex_lock(3) show ?thesis
    unfolding insert_iff prod.inject empty_iff
    by (elim disjE FalseE conjE) (use assms(3,4) mutex_lock(1) in \<open>simp_all add: writes_def\<close>)
qed (use assms(2-4) thread_okD(5) [OF assms(2)] in \<open>simp_all add: thread_ok_def local_ok_def writes_def end_op_fields\<close>)

lemma no_reads:
  assumes "mrsw_inv N s" and "m_numberReaders (sLock s) = 0" and "u \<in> {1..N}"
  shows "reads (threads s u) = 0"
  using reads_le_total [OF assms(3), of "threads s"] mrsw_invD(4) [OF assms(1)] assms(2) by simp

lemma run_keeps_exclusion:
  assumes "mrsw_inv N s" and "t \<in> {1..N}" and "tstep t (threads s t) (sLock s) th l"
    and "v \<in> {1..N}" and "u \<in> {1..N}" and "v \<noteq> u" and "0 < writes (((threads s)(t := th)) v)"
  shows "reads (((threads s)(t := th)) u) = 0"
proof (cases "v = t")
  case True
  have "reads (threads s u) = 0"
  proof (cases "0 < writes (threads s t)")
    case True
    then show ?thesis using mrsw_invD(5) [OF assms(1,2,5)] assms(6) \<open>v = t\<close> by blast
  next
    case False
    with True assms(7) have "m_numberReaders (sLock s) = 0"
      using granted_reads [OF assms(3) mrsw_invD(1) [OF assms(1,2)]] by simp
    then show ?thesis by (rule no_reads [OF assms(1) _ assms(5)])
  qed
  with True assms(6) show ?thesis by simp
next
  case False
  with assms(7) have w: "0 < writes (threads s v)" by simp
  have out: "outside (pc (threads s t))"
    using only_owner_inside(1) [OF assms(1,4,2)] False w by blast
  have "reads th = reads (threads s t)"
    using tstep_reads [OF assms(3) thread_okD(5) [OF mrsw_invD(1) [OF assms(1,2)]]] tstep_outside(1) [OF assms(3) out]
    by simp
  then show ?thesis using mrsw_invD(5) [OF assms(1,4) _ _ w] assms(2,5,6) by auto
qed

lemma run_keeps_token:
  assumes "mrsw_inv N s" and "t \<in> {1..N}" and "tstep t (threads s t) (sLock s) th l"
  shows "0 < m_numberReaders l \<or> 0 < m_noLocksEvent l \<or> (\<exists>u \<in> {1..N}. has_token (((threads s)(t := th)) u))"
proof -
  let ?A = "\<exists>u \<in> {1..N} - {t}. has_token (threads s u)"
  have "0 < m_numberReaders (sLock s) \<or> 0 < m_noLocksEvent (sLock s) \<or> has_token (threads s t) \<or> ?A"
    using mrsw_invD(6) [OF assms(1)] assms(2) by blast
  then have "0 < m_numberReaders l \<or> 0 < m_noLocksEvent l \<or> has_token th \<or> ?A"
    using tstep_token [OF assms(3) mrsw_invD(1) [OF assms(1,2)]] reads_le_total [OF assms(2)]
      mrsw_invD(4) [OF assms(1)] by simp
  then show ?thesis using assms(2) by auto
qed

lemma mrsw_run_inv:
  assumes "mrsw_inv N s" and "t \<in> {1..N}" and "tstep t (threads s t) (sLock s) th l"
  shows "mrsw_inv N (s\<lparr>sLock := l, threads := (threads s)(t := th)\<rparr>)"
proof -
  note ok = mrsw_invD(1) [OF assms(1,2)]
  have "thread_ok t th l"
    using tstep_thread_ok [OF assms(3) ok] no_writer_at_test [OF assms(1,2)] assms(2) by simp
  then have "\<forall>u \<in> {1..N}. thread_ok u (((threads s)(t := th)) u) l"
    using run_keeps_threads [OF assms] by simp
  moreover have "lock_ok l" using tstep_lock_ok [OF assms(3) mrsw_invD(2) [OF assms(1)] ok] assms(2) by simp
  moreover have "m_writeThreadId l \<le> N"
    using tstep_writer [OF assms(3)] mrsw_invD(3) [OF assms(1)] assms(2) by auto
  moreover have "m_numberReaders l = total_reads N ((threads s)(t := th))"
    using tstep_reads [OF assms(3) thread_okD(5) [OF ok]] mrsw_invD(4) [OF assms(1)]
    by (simp add: total_reads_update [OF assms(2)])
  moreover have "\<forall>v \<in> {1..N}. \<forall>u \<in> {1..N}. v \<noteq> u \<and> 0 < writes (((threads s)(t := th)) v) \<longrightarrow>
      reads (((threads s)(t := th)) u) = 0"
    using run_keeps_exclusion [OF assms] by blast
  moreover have "\<forall>u. 0 < owned u l \<longrightarrow> u \<in> {1..N}"
    using mrsw_invD(7) [OF assms(1)] tstep_owned_other [OF assms(3)] assms(2) by metis
  moreover note run_keeps_token [OF assms]
  ultimately show ?thesis unfolding mrsw_inv_def by simp
qed

text \<open>Beginning a call changes nothing that others see.\<close>

lemma call_effect:
  assumes "pc th = Idle" and "c \<in> set mrsw_calls" and "entitled c th"
  shows "writes (start_op (hd c) (th\<lparr>todo := tl c\<rparr>)) = writes th" "reads (start_op (hd c) (th\<lparr>todo := tl c\<rparr>)) = reads th"
    "outside (pc (start_op (hd c) (th\<lparr>todo := tl c\<rparr>)))" "local_ok (start_op (hd c) (th\<lparr>todo := tl c\<rparr>))"
  using assms
  by (auto simp: mrsw_calls_def MRSWLock_downgrade_def MRSWLock_upgrade_def writes_def reads_def local_ok_def only_acquires_def)

lemma mrsw_inv_threads:
  assumes "mrsw_inv N s" and "\<And>u. u \<in> {1..N} \<Longrightarrow> thread_ok u (ths u) (sLock s)"
    and "\<And>u. writes (ths u) = writes (threads s u)" and "\<And>u. reads (ths u) = reads (threads s u)"
    and "\<And>u. has_token (threads s u) \<Longrightarrow> has_token (ths u)"
  shows "mrsw_inv N (s\<lparr>threads := ths\<rparr>)"
proof -
  have "total_reads N ths = total_reads N (threads s)" by (simp only: total_reads_def assms(4))
  moreover have "(\<exists>u \<in> {1..N}. has_token (threads s u)) \<longrightarrow> (\<exists>u \<in> {1..N}. has_token (ths u))" using assms(5) by blast
  ultimately show ?thesis
    using assms(2) mrsw_invD(2-7) [OF assms(1)] unfolding mrsw_inv_def by (auto simp: assms(3,4))
qed

lemma mrsw_call_inv:
  assumes "mrsw_inv N s" and "t \<in> {1..N}" and "pc (threads s t) = Idle" and "c \<in> set mrsw_calls"
    and "entitled c (threads s t)"
  shows "mrsw_inv N (s\<lparr>threads := (threads s)(t := start_op (hd c) ((threads s t)\<lparr>todo := tl c\<rparr>))\<rparr>)"
proof (rule mrsw_inv_threads [OF assms(1)])
  note e = call_effect [OF assms(3-5)]
  have "thread_ok t (start_op (hd c) ((threads s t)\<lparr>todo := tl c\<rparr>)) (sLock s)"
    using thread_okD [OF mrsw_invD(1) [OF assms(1,2)]] e assms(3) by (simp add: thread_ok_def depth_def)
  then show "thread_ok u (((threads s)(t := start_op (hd c) ((threads s t)\<lparr>todo := tl c\<rparr>))) u) (sLock s)"
    if "u \<in> {1..N}" for u using mrsw_invD(1) [OF assms(1) that] by simp
  show "has_token (((threads s)(t := start_op (hd c) ((threads s t)\<lparr>todo := tl c\<rparr>))) u)"
    if "has_token (threads s u)" for u
    using that assms(3) e(1) by (cases "u = t") (auto simp: has_token_def)
qed (use call_effect [OF assms(3-5)] in simp_all)

lemma mrsw_init_inv: "mrsw_init s \<Longrightarrow> mrsw_inv N s"
  by (auto simp: mrsw_init_def mrsw_inv_def MRSWLock_create_def new_lock_def wsem_post_def thread_ok_def local_ok_def
      only_acquires_def depth_def writes_def reads_def owned_def lock_ok_def total_reads_def)

lemma mrsw_step_inv: "mrsw_inv N s \<Longrightarrow> mrsw_step N s s' \<Longrightarrow> mrsw_inv N s'"
  by (erule mrsw_step.cases) (auto intro: mrsw_call_inv mrsw_run_inv thread_step_tstep)

interpretation mrsw: invariant_system mrsw_init "mrsw_step N" "mrsw_inv N" for N
  by unfold_locales (fact mrsw_init_inv, fact mrsw_step_inv)

subsection \<open>Schedules\<close>

text \<open>An executable run: each entry names a thread and the call it begins, or no call for its next step.\<close>

definition mrsw_start :: mrsw_sys where
  "mrsw_start = \<lparr>sLock = wsem_post new_lock, threads = (\<lambda>_. \<lparr>pc = Idle, todo = [], rHeld = 0, wHeld = 0\<rparr>)\<rparr>"

fun mrsw_exec :: "nat \<Rightarrow> (nat \<times> mrsw_op list) list \<Rightarrow> mrsw_sys \<Rightarrow> mrsw_sys option" where
  "mrsw_exec N [] s = Some s"
| "mrsw_exec N ((t, c) # sched) s =
    (if t < 1 \<or> N < t then None
     else if c = [] then
       (case thread_step t (threads s t) (sLock s) of
          None \<Rightarrow> None
        | Some (th, l) \<Rightarrow> mrsw_exec N sched (s\<lparr>sLock := l, threads := (threads s)(t := th)\<rparr>))
     else if pc (threads s t) = Idle \<and> c \<in> set mrsw_calls \<and> entitled c (threads s t) then
       mrsw_exec N sched (s\<lparr>threads := (threads s)(t := start_op (hd c) ((threads s t)\<lparr>todo := tl c\<rparr>))\<rparr>)
     else None)"

lemma mrsw_exec_run:
  "mrsw_exec N sched s = Some s' \<Longrightarrow> (mrsw_step N)\<^sup>*\<^sup>* s s'"
proof (induction N sched s rule: mrsw_exec.induct)
  case (1 N s)
  then show ?case by simp
next
  case (2 N t c sched s)
  let ?th = "threads s t"
  have t: "t \<in> {1..N}" using "2.prems" by (auto split: if_splits)
  show ?case
  proof (cases "c = []")
    case True
    with "2.prems" t obtain th l where "thread_step t ?th (sLock s) = Some (th, l)"
      "mrsw_exec N sched (s\<lparr>sLock := l, threads := (threads s)(t := th)\<rparr>) = Some s'"
      by (auto split: option.splits)
    with "2.IH"(1) True t show ?thesis
      by (auto intro!: converse_rtranclp_into_rtranclp [of "mrsw_step N" s] mrsw_step.run)
  next
    case False
    with "2.prems" t have "pc ?th = Idle" "c \<in> set mrsw_calls" "entitled c ?th"
      "mrsw_exec N sched (s\<lparr>threads := (threads s)(t := start_op (hd c) (?th\<lparr>todo := tl c\<rparr>))\<rparr>) = Some s'"
      by (auto split: if_splits)
    with "2.IH"(2) False t show ?thesis
      by (auto intro!: converse_rtranclp_into_rtranclp [of "mrsw_step N" s] mrsw_step.call)
  qed
qed

lemma mrsw_exec_reachable:
  "mrsw_exec N sched mrsw_start = Some s \<Longrightarrow> reachable mrsw_init (mrsw_step N) s"
  by (rule mrsw.reachable_run [OF mrsw_exec_run])
    (auto intro!: reach_init simp: mrsw_init_def mrsw_start_def MRSWLock_create_def)

subsection \<open>Progress\<close>

lemma inside_can_step: "\<not> outside (pc th) \<Longrightarrow> thread_step t th l \<noteq> None"
  by (cases "pc th") (simp_all add: thread_step_def MRSWLock_acquire_def MRSWLock_release_def)

lemma lock_can_step:
  assumes "m_mutex l = None \<or> 0 < owned t l" and "outside (pc th)" and "pc th \<notin> {Idle, AcqW_wait}"
  shows "thread_step t th l \<noteq> None"
proof -
  have "\<exists>l'. wlock_lock t l = Some l'"
    using assms(1) by (auto simp: wlock_lock_def owned_def split: option.splits if_splits)
  then show ?thesis
    using assms(2,3) by (cases "pc th") (auto simp: thread_step_def MRSWLock_acquire_def MRSWLock_release_def)
qed

lemma wait_can_step: "pc th = AcqW_wait \<Longrightarrow> 0 < m_noLocksEvent l \<Longrightarrow> thread_step t th l \<noteq> None"
  by (simp add: thread_step_def MRSWLock_acquire_def wsem_wait_def)

text \<open>The semaphore is up when nobody holds a lock and every thread is idle or waits for the semaphore.\<close>

lemma semaphore_up:
  assumes "mrsw_inv N s" and "\<forall>t \<in> {1..N}. rHeld (threads s t) = 0 \<and> wHeld (threads s t) = 0"
    and "\<forall>t \<in> {1..N}. pc (threads s t) \<in> {Idle, AcqW_wait}"
  shows "0 < m_noLocksEvent (sLock s)"
proof -
  have "reads (threads s t) = 0 \<and> \<not> has_token (threads s t)" if "t \<in> {1..N}" for t
  proof -
    have "rHeld (threads s t) = 0 \<and> wHeld (threads s t) = 0" "pc (threads s t) \<in> {Idle, AcqW_wait}"
      using assms(2,3) that by blast+
    then show ?thesis by (auto simp: reads_def has_token_def writes_def)
  qed
  then have "total_reads N (threads s) = 0" and "\<not> (\<exists>t \<in> {1..N}. has_token (threads s t))"
    by (auto simp: total_reads_def)
  then show ?thesis using mrsw_invD(4,6) [OF assms(1)] by auto
qed

subsection \<open>Properties\<close>

text \<open>C22: mutual exclusion: in every interleaving of any number of threads that acquire, release, upgrade and
  downgrade the lock, while a thread holds the write lock no other thread holds the write lock or a
  read lock, and the structure names the holder and counts its nested acquisitions.\<close>

theorem mrsw_mutual_exclusion:
  assumes "reachable mrsw_init (mrsw_step N) s" and "t \<in> {1..N}" and "0 < wHeld (threads s t)"
  shows "m_writeThreadId (sLock s) = t \<and>
     (\<forall>u \<in> {1..N}. u \<noteq> t \<longrightarrow> wHeld (threads s u) = 0 \<and> rHeld (threads s u) = 0) \<and>
     (pc (threads s t) = Idle \<longrightarrow> m_numberWriters (sLock s) = int (wHeld (threads s t)) - 1)"
proof -
  have inv: "mrsw_inv N s" by (rule mrsw.reachable_inv [OF assms(1)])
  have w: "0 < writes (threads s t)" using assms(3) by (simp add: writes_def)
  note ok = thread_okD [OF mrsw_invD(1) [OF inv assms(2)]]
  have "wHeld (threads s u) = 0 \<and> rHeld (threads s u) = 0" if "u \<in> {1..N}" "u \<noteq> t" for u
    using only_owner_inside(2) [OF inv assms(2) that(1)] mrsw_invD(5) [OF inv assms(2) that(1)] that(2) w
    by (simp add: writes_def reads_def)
  then show ?thesis using ok(3,4) w by (auto simp: writes_def)
qed

definition demo_sched :: "(nat \<times> mrsw_op list) list" where
  "demo_sched = [(1, [Acquire True]), (1, []), (1, []), (1, []), (2, [Acquire False]), (2, []), (2, []),
     (1, [Release True]), (1, []), (1, []), (1, []), (1, []), (2, []), (2, []), (2, [])]"

lemma demo_sched_run:
  "\<exists>s. mrsw_exec 2 demo_sched mrsw_start = Some s \<and> wHeld (threads s 2) = 1 \<and> pc (threads s 2) = Idle"
  by (simp add: demo_sched_def mrsw_start_def new_lock_def thread_step_def MRSWLock_acquire_def MRSWLock_release_def
      wlock_lock_def wlock_unlock_def wsem_post_def wsem_wait_def wsem_timedwait_0_def mrsw_calls_def end_op_def)

theorem mrsw_mutual_exclusion_witness:
  "\<exists>s. mrsw_exec 2 demo_sched mrsw_start = Some s \<and> m_writeThreadId (sLock s) = 2 \<and>
     wHeld (threads s 1) = 0 \<and> rHeld (threads s 1) = 0 \<and> m_numberWriters (sLock s) = 0"
proof -
  obtain s where s: "mrsw_exec 2 demo_sched mrsw_start = Some s" "wHeld (threads s 2) = 1" "pc (threads s 2) = Idle"
    using demo_sched_run by blast
  show ?thesis
    using mrsw_mutual_exclusion [OF mrsw_exec_reachable [OF s(1)], of 2] s by auto
qed

text \<open>C23: no lost wake-up: in every reachable state in which no thread holds a lock, if some thread is in the
  middle of an operation then some such thread can take its next step: waiting for the semaphore, the
  mutex and the retries of writers never block all threads for good.\<close>

theorem mrsw_no_deadlock:
  assumes "reachable mrsw_init (mrsw_step N) s"
    and "\<forall>t \<in> {1..N}. rHeld (threads s t) = 0 \<and> wHeld (threads s t) = 0"
    and "u \<in> {1..N}" and "pc (threads s u) \<noteq> Idle"
  shows "\<exists>t \<in> {1..N}. pc (threads s t) \<noteq> Idle \<and> thread_step t (threads s t) (sLock s) \<noteq> None"
proof -
  have inv: "mrsw_inv N s" by (rule mrsw.reachable_inv [OF assms(1)])
  have own: "owned t (sLock s) = depth (threads s t)" if "t \<in> {1..N}" for t
    by (rule thread_okD(2) [OF mrsw_invD(1) [OF inv that]])
  show ?thesis
  proof (cases "\<exists>t \<in> {1..N}. 0 < owned t (sLock s)")
    case True
    then obtain t where t: "t \<in> {1..N}" "0 < owned t (sLock s)" by blast
    have "releasing False (pc (threads s t)) \<or> \<not> outside (pc (threads s t))"
      using own [OF t(1)] t(2) assms(2) t(1) by (auto simp: depth_def writes_def)
    then have "thread_step t (threads s t) (sLock s) \<noteq> None" and "pc (threads s t) \<noteq> Idle"
      using inside_can_step [of "threads s t"] lock_can_step [of "sLock s" t "threads s t"] t(2)
      by (cases "pc (threads s t)"; simp)+
    with t(1) show ?thesis by blast
  next
    case False
    show ?thesis
    proof (cases "\<forall>t \<in> {1..N}. pc (threads s t) \<in> {Idle, AcqW_wait}")
      case True
      then show ?thesis using wait_can_step [OF _ semaphore_up [OF inv assms(2) True]] assms(3,4) by blast
    next
      case nowait: False
      then obtain t where t: "t \<in> {1..N}" "pc (threads s t) \<notin> {Idle, AcqW_wait}" by blast
      have "outside (pc (threads s t))" using own [OF t(1)] False t(1) by (auto simp: depth_def)
      moreover have "m_mutex (sLock s) = None"
      proof (cases "m_mutex (sLock s)")
        case (Some un)
        then obtain v n where v: "m_mutex (sLock s) = Some (v, n)" by (cases un) auto
        then have "0 < owned v (sLock s)" using mrsw_invD(2) [OF inv] by (simp add: lock_ok_def owned_def)
        then show ?thesis using mrsw_invD(7) [OF inv] False by blast
      qed
      ultimately show ?thesis using lock_can_step t by blast
    qed
  qed
qed

definition demo_wait :: "(nat \<times> mrsw_op list) list" where
  "demo_wait = [(1, [Acquire False]), (1, []), (1, []), (1, []), (2, [Acquire False]), (2, []), (2, [])]"

lemma demo_wait_run:
  "\<exists>s. mrsw_exec 2 demo_wait mrsw_start = Some s \<and> pc (threads s 2) = AcqW_wait \<and>
     (\<forall>t. rHeld (threads s t) = 0 \<and> wHeld (threads s t) = 0)"
  by (simp add: demo_wait_def mrsw_start_def new_lock_def thread_step_def MRSWLock_acquire_def
      wlock_lock_def wlock_unlock_def wsem_post_def wsem_wait_def mrsw_calls_def)

theorem mrsw_no_deadlock_witness:
  "\<exists>s. mrsw_exec 2 demo_wait mrsw_start = Some s \<and> pc (threads s 2) = AcqW_wait \<and>
     (\<exists>t \<in> {1..2}. pc (threads s t) \<noteq> Idle \<and> thread_step t (threads s t) (sLock s) \<noteq> None)"
proof -
  obtain s where s: "mrsw_exec 2 demo_wait mrsw_start = Some s" "pc (threads s 2) = AcqW_wait"
    "\<forall>t. rHeld (threads s t) = 0 \<and> wHeld (threads s t) = 0"
    using demo_wait_run by blast
  show ?thesis
    using mrsw_no_deadlock [OF mrsw_exec_reachable [OF s(1)], of 2] s by auto
qed

end
