(* ===== verification/WQueue.thy ===== *)
theory WQueue
  imports WList Transition_Spec
begin

text \<open>
  The event queue of \<open>common/c_cpp/src/c/queue.c\<close> at the level of its pointers: a doubly linked list
  between two dummy nodes, a free list of nodes that are allocated in chunks, one iterator, and a
  semaphore that counts the items. Node pointers are those of the list component (the mark of its
  free list is not used here). Following a \<open>NULL\<close> pointer is \<open>None\<close>. The mutex is not modelled: each
  operation runs under it from beginning to end, and callbacks are called after it is released.
\<close>

subsection \<open>Data\<close>

datatype wombatQueueStatus = WOMBAT_QUEUE_OK | WOMBAT_QUEUE_FULL | WOMBAT_QUEUE_NOMEM | WOMBAT_QUEUE_SEM_ERR
  | WOMBAT_QUEUE_MTX_ERR | WOMBAT_QUEUE_INVALID_ARG | WOMBAT_QUEUE_WOULD_BLOCK | WOMBAT_QUEUE_END
  | WOMBAT_QUEUE_TIMEOUT

text \<open>The callback (\<open>None\<close> for \<open>NULL\<close>), the data and the closure of an item.\<close>

record wombatQueueItem =
  mCb :: "nat option"
  mData :: nat
  mClosure :: nat

record wombatQueueImpl =
  mSem :: nat
  mUnblocking :: bool
  mMaxSize :: u32
  mChunkSize :: u32
  mIterator :: ptr
  qNext :: "ptr \<Rightarrow> ptr"
  qPrev :: "ptr \<Rightarrow> ptr"
  qItem :: "ptr \<Rightarrow> wombatQueueItem"
  mFirstFree :: ptr
  mChunks :: "(nat \<times> nat) list"

definition zero_item :: wombatQueueItem where
  "zero_item = \<lparr>mCb = None, mData = 0, mClosure = 0\<rparr>"

definition WOMBAT_QUEUE_MAX_SIZE :: u32 where
  "WOMBAT_QUEUE_MAX_SIZE = 2147483647"

definition WOMBAT_QUEUE_CHUNK_SIZE :: u32 where
  "WOMBAT_QUEUE_CHUNK_SIZE = 64"

text \<open>Writing through a pointer.\<close>

definition qSetNext :: "ptr \<Rightarrow> ptr \<Rightarrow> wombatQueueImpl \<Rightarrow> wombatQueueImpl option" where
  "qSetNext p v q = (if p = Null \<or> p = MinusOne then None else Some (q\<lparr>qNext := (qNext q)(p := v)\<rparr>))"

definition qSetPrev :: "ptr \<Rightarrow> ptr \<Rightarrow> wombatQueueImpl \<Rightarrow> wombatQueueImpl option" where
  "qSetPrev p v q = (if p = Null \<or> p = MinusOne then None else Some (q\<lparr>qPrev := (qPrev q)(p := v)\<rparr>))"

text \<open>What a call that takes an item returns: the status and the item whose data and closure are returned
  and whose callback is called, or that the caller blocks.\<close>

datatype q_result = Returns wombatQueueStatus "wombatQueueItem option" | Blocks

subsection \<open>Creation\<close>

definition wombatQueue_allocate :: "bool \<Rightarrow> wombatQueueImpl option \<times> wombatQueueStatus" where
  "wombatQueue_allocate callocOk =
    (if \<not> callocOk then (None, WOMBAT_QUEUE_NOMEM)
     else (Some \<lparr>mSem = 0, mUnblocking = False, mMaxSize = WOMBAT_QUEUE_MAX_SIZE,
                 mChunkSize = WOMBAT_QUEUE_CHUNK_SIZE, mIterator = Head,
                 qNext = (\<lambda>_. Null)(Head := Tail, Tail := Tail), qPrev = (\<lambda>_. Null)(Head := Head, Tail := Head),
                 qItem = (\<lambda>_. zero_item), mFirstFree = Null, mChunks = []\<rparr>, WOMBAT_QUEUE_OK))"

text \<open>\<open>mem\<close> is the address of the chunk that \<open>calloc\<close> returns, its nodes have consecutive addresses. The
  result of \<open>calloc\<close> is used without a test.\<close>

definition chunk_links :: "nat \<Rightarrow> nat \<Rightarrow> wombatQueueImpl \<Rightarrow> wombatQueueImpl" where
  "chunk_links a n q =
    fold (\<lambda>i q. q\<lparr>qNext := (qNext q)(Elem (a + i) := Elem (a + i + 1)),
                  qPrev := (qPrev q)(Elem (a + i + 1) := Elem (a + i))\<rparr>) [0..<n] q"

definition in_chunk :: "nat \<Rightarrow> nat \<Rightarrow> ptr \<Rightarrow> bool" where
  "in_chunk a n p \<longleftrightarrow> (case p of Elem i \<Rightarrow> a \<le> i \<and> i < a + n | _ \<Rightarrow> False)"

definition wombatQueueImpl_allocChunk ::
  "nat option \<Rightarrow> u32 \<Rightarrow> wombatQueueImpl \<Rightarrow> wombatQueueImpl option" where
  "wombatQueueImpl_allocChunk mem items q =
    (if of_nat (mSem q) + items > mMaxSize q then Some q
     else
       (case mem of
          None \<Rightarrow> None
        | Some a \<Rightarrow>
            let new = in_chunk a (unat items);
                q = q\<lparr>qNext := (\<lambda>p. if new p then Null else qNext q p),
                      qPrev := (\<lambda>p. if new p then Null else qPrev q p),
                      qItem := (\<lambda>p. if new p then zero_item else qItem q p),
                      mChunks := (a, unat items) # mChunks q, mFirstFree := Elem a\<rparr>
            in Some (chunk_links a (unat (items - 1)) q)))"

definition wombatQueue_create ::
  "nat option \<Rightarrow> bool \<Rightarrow> u32 \<Rightarrow> u32 \<Rightarrow> u32 \<Rightarrow> wombatQueueImpl \<Rightarrow> (wombatQueueImpl \<times> wombatQueueStatus) option" where
  "wombatQueue_create mem semOk maxSize initialSize growBySize q =
    do { let q = (if maxSize \<noteq> 0 then q\<lparr>mMaxSize := maxSize\<rparr> else q);
         let q = (if growBySize \<noteq> 0 then q\<lparr>mChunkSize := growBySize\<rparr> else q);
         if \<not> semOk then Some (q, WOMBAT_QUEUE_SEM_ERR)
         else
           do { let q = q\<lparr>mSem := 0\<rparr>;
                let initialSize = (if initialSize = 0 then WOMBAT_QUEUE_CHUNK_SIZE else initialSize);
                q \<leftarrow> wombatQueueImpl_allocChunk mem initialSize q;
                Some (q, if mFirstFree q = Null then WOMBAT_QUEUE_NOMEM else WOMBAT_QUEUE_OK) } }"

text \<open>The chunks that are freed; a failure of \<open>wsem_destroy\<close> is not reported.\<close>

definition wombatQueue_destroy :: "wombatQueueImpl \<Rightarrow> (nat \<times> nat) list \<times> wombatQueueStatus" where
  "wombatQueue_destroy q = (mChunks q, WOMBAT_QUEUE_OK)"

definition wombatQueue_setMaxSize :: "u32 \<Rightarrow> wombatQueueImpl \<Rightarrow> wombatQueueImpl \<times> wombatQueueStatus" where
  "wombatQueue_setMaxSize value q =
    (if value > WOMBAT_QUEUE_MAX_SIZE then (q, WOMBAT_QUEUE_INVALID_ARG)
     else (q\<lparr>mMaxSize := value\<rparr>, WOMBAT_QUEUE_OK))"

definition wombatQueue_getMaxSize :: "wombatQueueImpl \<Rightarrow> u32 \<times> wombatQueueStatus" where
  "wombatQueue_getMaxSize q = (mMaxSize q, WOMBAT_QUEUE_OK)"

definition wombatQueue_getSize :: "wombatQueueImpl \<Rightarrow> nat \<times> wombatQueueStatus" where
  "wombatQueue_getSize q = (mSem q, WOMBAT_QUEUE_OK)"

subsection \<open>Enqueueing and dispatching\<close>

text \<open>The common beginning of the insertions: taking a node from the free list, which is refilled when it is
  empty. \<open>Null\<close> when there is none.\<close>

definition take_free :: "nat option \<Rightarrow> wombatQueueItem \<Rightarrow> wombatQueueImpl \<Rightarrow> (wombatQueueImpl \<times> ptr) option" where
  "take_free mem it q =
    do { q \<leftarrow> (if mFirstFree q = Null then wombatQueueImpl_allocChunk mem (mChunkSize q) q else Some q);
         let item = mFirstFree q;
         if item = Null then Some (q, Null)
         else do { n \<leftarrow> rd (qNext q) item;
                   Some (q\<lparr>mFirstFree := n, qItem := (qItem q)(item := it)\<rparr>, item) } }"

definition wombatQueue_enqueue ::
  "nat option \<Rightarrow> wombatQueueItem \<Rightarrow> wombatQueueImpl \<Rightarrow> (wombatQueueImpl \<times> wombatQueueStatus) option" where
  "wombatQueue_enqueue mem it q =
    do { (q, item) \<leftarrow> take_free mem it q;
         if item = Null then Some (q, WOMBAT_QUEUE_FULL)
         else
           do { q \<leftarrow> qSetNext item Tail q;
                q \<leftarrow> qSetPrev item (qPrev q Tail) q;
                p \<leftarrow> rd (qPrev q) item;
                q \<leftarrow> qSetNext p item q;
                q \<leftarrow> qSetPrev Tail item q;
                Some (q\<lparr>mSem := mSem q + 1\<rparr>, WOMBAT_QUEUE_OK) } }"

definition WQ_REMOVE :: "ptr \<Rightarrow> wombatQueueImpl \<Rightarrow> wombatQueueImpl option" where
  "WQ_REMOVE ele q =
    do { p \<leftarrow> rd (qPrev q) ele;
         n \<leftarrow> rd (qNext q) ele;
         q \<leftarrow> qSetNext p n q;
         n \<leftarrow> rd (qNext q) ele;
         p \<leftarrow> rd (qPrev q) ele;
         q \<leftarrow> qSetPrev n p q;
         q \<leftarrow> qSetNext ele (mFirstFree q) q;
         Some (q\<lparr>mFirstFree := ele\<rparr>) }"

text \<open>\<open>semErr\<close>: waiting fails for another reason than an interrupt.\<close>

definition wombatQueue_dispatchInt ::
  "bool \<Rightarrow> bool \<Rightarrow> wombatQueueImpl \<Rightarrow> (wombatQueueImpl \<times> q_result) option" where
  "wombatQueue_dispatchInt semErr isTimed q =
    (if isTimed \<and> (mSem q = 0 \<or> semErr) then Some (q, Returns WOMBAT_QUEUE_TIMEOUT None)
     else if semErr then Some (q, Returns WOMBAT_QUEUE_SEM_ERR None)
     else if mSem q = 0 then Some (q, Blocks)
     else
       let q = q\<lparr>mSem := mSem q - 1\<rparr>
       in if \<not> isTimed \<and> mUnblocking q then Some (q\<lparr>mUnblocking := False\<rparr>, Returns WOMBAT_QUEUE_OK None)
          else
            let head = qNext q Head
            in if head = Tail then Some (q, Returns WOMBAT_QUEUE_OK None)
               else do { q \<leftarrow> WQ_REMOVE head q; Some (q, Returns WOMBAT_QUEUE_OK (Some (qItem q head))) })"

definition wombatQueue_dispatch :: "bool \<Rightarrow> wombatQueueImpl \<Rightarrow> (wombatQueueImpl \<times> q_result) option" where
  "wombatQueue_dispatch semErr q = wombatQueue_dispatchInt semErr False q"

definition wombatQueue_timedDispatch :: "bool \<Rightarrow> wombatQueueImpl \<Rightarrow> (wombatQueueImpl \<times> q_result) option" where
  "wombatQueue_timedDispatch semErr q = wombatQueue_dispatchInt semErr True q"

definition wombatQueue_poll :: "wombatQueueImpl \<Rightarrow> (wombatQueueImpl \<times> q_result) option" where
  "wombatQueue_poll q =
    (if mSem q = 0 then Some (q, Returns WOMBAT_QUEUE_WOULD_BLOCK None)
     else
       do { let q = q\<lparr>mSem := mSem q - 1\<rparr>;
            let head = qNext q Head;
            q \<leftarrow> WQ_REMOVE head q;
            Some (q, Returns WOMBAT_QUEUE_OK (Some (qItem q head))) })"

definition wombatQueue_unblock :: "wombatQueueImpl \<Rightarrow> wombatQueueImpl \<times> wombatQueueStatus" where
  "wombatQueue_unblock q = (q\<lparr>mUnblocking := True, mSem := mSem q + 1\<rparr>, WOMBAT_QUEUE_OK)"

text \<open>The loop of the code returns in its first round.\<close>

definition wombatQueue_flush :: "wombatQueueImpl \<Rightarrow> (wombatQueueImpl \<times> q_result) option" where
  "wombatQueue_flush q =
    (if mSem q = 0 then Some (q, Returns WOMBAT_QUEUE_OK None)
     else
       do { let q = q\<lparr>mSem := mSem q - 1\<rparr>;
            let head = qNext q Head;
            q \<leftarrow> WQ_REMOVE head q;
            Some (q, Returns WOMBAT_QUEUE_OK (Some (qItem q head))) })"

subsection \<open>The iterator\<close>

definition wombatQueue_next :: "wombatQueueImpl \<Rightarrow> (wombatQueueImpl \<times> q_result) option" where
  "wombatQueue_next q =
    do { n \<leftarrow> rd (qNext q) (mIterator q);
         let q = q\<lparr>mIterator := n\<rparr>;
         if n = Tail then Some (q\<lparr>mIterator := qPrev q n\<rparr>, Returns WOMBAT_QUEUE_END None)
         else if n = Null then None
         else Some (q, Returns WOMBAT_QUEUE_OK (Some (qItem q n))) }"

definition wombatQueue_prev :: "wombatQueueImpl \<Rightarrow> (wombatQueueImpl \<times> q_result) option" where
  "wombatQueue_prev q =
    do { p \<leftarrow> rd (qPrev q) (mIterator q);
         let q = q\<lparr>mIterator := p\<rparr>;
         if p = Head then Some (q\<lparr>mIterator := qNext q p\<rparr>, Returns WOMBAT_QUEUE_END None)
         else if p = Null then None
         else Some (q, Returns WOMBAT_QUEUE_OK (Some (qItem q p))) }"

definition wombatQueue_cur :: "wombatQueueImpl \<Rightarrow> q_result" where
  "wombatQueue_cur q =
    (if mIterator q = Head \<or> mIterator q = Tail then Returns WOMBAT_QUEUE_END None
     else Returns WOMBAT_QUEUE_OK (Some (qItem q (mIterator q))))"

definition wombatQueue_remove :: "wombatQueueImpl \<Rightarrow> (wombatQueueImpl \<times> q_result) option" where
  "wombatQueue_remove q =
    (if mIterator q = Head \<or> mIterator q = Tail then Some (q, Returns WOMBAT_QUEUE_END None)
     else
       do { let tmp = mIterator q;
            n \<leftarrow> rd (qNext q) tmp;
            let q = q\<lparr>mIterator := n\<rparr>;
            p \<leftarrow> rd (qPrev q) tmp;
            q \<leftarrow> qSetNext p n q;
            n \<leftarrow> rd (qNext q) tmp;
            q \<leftarrow> qSetPrev n p q;
            q \<leftarrow> qSetNext tmp (mFirstFree q) q;
            Some (q\<lparr>mFirstFree := tmp\<rparr>, Returns WOMBAT_QUEUE_OK (Some (qItem q tmp))) })"

definition wombatQueue_insertAfter ::
  "nat option \<Rightarrow> wombatQueueItem \<Rightarrow> wombatQueueImpl \<Rightarrow> (wombatQueueImpl \<times> wombatQueueStatus) option" where
  "wombatQueue_insertAfter mem it q =
    do { let q = (if mIterator q = Tail then q\<lparr>mIterator := Head\<rparr> else q);
         (q, item) \<leftarrow> take_free mem it q;
         if item = Null then Some (q, WOMBAT_QUEUE_FULL)
         else
           do { n \<leftarrow> rd (qNext q) (mIterator q);
                q \<leftarrow> qSetNext item n q;
                q \<leftarrow> qSetPrev item (mIterator q) q;
                n \<leftarrow> rd (qNext q) (mIterator q);
                q \<leftarrow> qSetPrev n item q;
                q \<leftarrow> qSetNext (mIterator q) item q;
                Some (q\<lparr>mSem := mSem q + 1\<rparr>, WOMBAT_QUEUE_OK) } }"

definition wombatQueue_insertBefore ::
  "nat option \<Rightarrow> wombatQueueItem \<Rightarrow> wombatQueueImpl \<Rightarrow> (wombatQueueImpl \<times> wombatQueueStatus) option" where
  "wombatQueue_insertBefore mem it q =
    do { let q = (if mIterator q = Head then q\<lparr>mIterator := Tail\<rparr> else q);
         (q, item) \<leftarrow> take_free mem it q;
         if item = Null then Some (q, WOMBAT_QUEUE_FULL)
         else
           do { q \<leftarrow> qSetNext item (mIterator q) q;
                p \<leftarrow> rd (qPrev q) (mIterator q);
                q \<leftarrow> qSetPrev item p q;
                p \<leftarrow> rd (qPrev q) (mIterator q);
                q \<leftarrow> qSetNext p item q;
                q \<leftarrow> qSetPrev (mIterator q) item q;
                Some (q\<lparr>mSem := mSem q + 1\<rparr>, WOMBAT_QUEUE_OK) } }"

text \<open>The callback that is passed is not stored.\<close>

definition wombatQueue_replace :: "wombatQueueItem \<Rightarrow> wombatQueueImpl \<Rightarrow> wombatQueueImpl \<times> wombatQueueStatus" where
  "wombatQueue_replace it q =
    (if mIterator q = Head \<or> mIterator q = Tail then (q, WOMBAT_QUEUE_END)
     else (q\<lparr>qItem := (qItem q)(mIterator q := (qItem q (mIterator q))
              \<lparr>mData := mData it, mClosure := mClosure it\<rparr>)\<rparr>, WOMBAT_QUEUE_OK))"

definition wombatQueue_begin :: "wombatQueueImpl \<Rightarrow> wombatQueueImpl \<times> wombatQueueStatus" where
  "wombatQueue_begin q = (q\<lparr>mIterator := Head\<rparr>, WOMBAT_QUEUE_OK)"

definition wombatQueue_end :: "wombatQueueImpl \<Rightarrow> wombatQueueImpl \<times> wombatQueueStatus" where
  "wombatQueue_end q = (q\<lparr>mIterator := Tail\<rparr>, WOMBAT_QUEUE_OK)"

subsection \<open>The representation relation\<close>

fun free_path :: "(ptr \<Rightarrow> ptr) \<Rightarrow> ptr \<Rightarrow> nat list \<Rightarrow> bool" where
  "free_path nx p [] \<longleftrightarrow> p = Null"
| "free_path nx p (a # as) \<longleftrightarrow> p = Elem a \<and> free_path nx (nx p) as"

lemma chained_frame_all:
  "(\<And>p. p \<in> set ps \<Longrightarrow> nx' p = nx p \<and> pv' p = pv p) \<Longrightarrow> chained nx' pv' ps = chained nx pv ps"
  by (rule chained_frame) (auto dest: in_set_butlastD, metis list.sel(2) list.set_sel(2))

lemma free_path_frame:
  "(\<And>a. a \<in> set as \<Longrightarrow> nx' (Elem a) = nx (Elem a)) \<Longrightarrow> free_path nx' p as = free_path nx p as"
  by (induction as arbitrary: p) auto

lemma free_path_Null: "free_path nx p as \<Longrightarrow> p = Null \<longleftrightarrow> as = []"
  by (cases as) auto

definition q_rep :: "wombatQueueImpl \<Rightarrow> nat list \<Rightarrow> nat list \<Rightarrow> bool" where
  "q_rep q xs fs \<longleftrightarrow> distinct (xs @ fs) \<and> chained (qNext q) (qPrev q) (path xs) \<and>
     free_path (qNext q) (mFirstFree q) fs \<and> qPrev q Head = Head \<and> qNext q Tail = Tail"

lemma q_rep_cong:
  "qNext q' = qNext q \<Longrightarrow> qPrev q' = qPrev q \<Longrightarrow> mFirstFree q' = mFirstFree q \<Longrightarrow> q_rep q' xs fs = q_rep q xs fs"
  by (simp add: q_rep_def)

lemma q_neighbours:
  assumes "q_rep q (us @ vs) fs"
  shows "qNext q (before us) = after vs" and "qPrev q (after vs) = before us"
proof -
  obtain as bs where "path (us @ vs) = as @ before us # after vs # bs" using path_split by blast
  then have "chained (qNext q) (qPrev q) (as @ before us # after vs # bs)" using assms by (simp add: q_rep_def)
  from chained_mid [OF this] show "qNext q (before us) = after vs" and "qPrev q (after vs) = before us" by auto
qed

text \<open>The effect of linking a node that was taken from the free list, and of unlinking one onto it.\<close>

definition q_link :: "ptr \<Rightarrow> ptr \<Rightarrow> ptr \<Rightarrow> wombatQueueImpl \<Rightarrow> wombatQueueImpl" where
  "q_link p e r q = q\<lparr>qNext := (qNext q)(e := r, p := e), qPrev := (qPrev q)(e := p, r := e), mSem := mSem q + 1\<rparr>"

definition q_unlink :: "ptr \<Rightarrow> ptr \<Rightarrow> ptr \<Rightarrow> wombatQueueImpl \<Rightarrow> wombatQueueImpl" where
  "q_unlink p e r q = q\<lparr>qNext := (qNext q)(p := r, e := mFirstFree q), qPrev := (qPrev q)(r := p), mFirstFree := e\<rparr>"

lemma q_rep_link:
  assumes rep: "q_rep q (us @ vs) fs" and e: "e \<notin> set (us @ vs) \<union> set fs"
  shows "q_rep (q_link (before us) (Elem e) (after vs) q) (us @ e # vs) fs"
proof -
  let ?nx = "(qNext q)(Elem e := after vs, before us := Elem e)"
  let ?pv = "(qPrev q)(Elem e := before us, after vs := Elem e)"
  obtain as bs where p: "path (us @ vs) = as @ before us # after vs # bs"
    and p': "path (us @ e # vs) = as @ before us # Elem e # after vs # bs"
    using path_split by blast
  have d: "distinct (us @ vs)" using rep by (auto simp: q_rep_def)
  have "Elem e \<notin> set (path (us @ vs))" using e by (auto simp: path_def)
  then have "chained ?nx ?pv (path (us @ e # vs))"
    using rep distinct_path [OF d] unfolding p p' q_rep_def
    by (intro chained_link) simp_all
  moreover have "free_path ?nx (mFirstFree q) fs = free_path (qNext q) (mFirstFree q) fs"
    using rep e before_cases [of us] by (intro free_path_frame) (auto simp: q_rep_def)
  ultimately show ?thesis
    using rep e before_after_simps(3) [of us, symmetric] before_after_simps(6) [of vs, symmetric]
    by (auto simp: q_rep_def q_link_def)
qed

lemma q_rep_unlink:
  assumes rep: "q_rep q (us @ e # vs) fs"
  shows "q_rep (q_unlink (before us) (Elem e) (after vs) q) (us @ vs) (e # fs)"
proof -
  let ?nx = "(qNext q)(before us := after vs, Elem e := mFirstFree q)" and ?pv = "(qPrev q)(after vs := before us)"
  obtain as bs where p: "path (us @ vs) = as @ before us # after vs # bs"
    and p': "path (us @ e # vs) = as @ before us # Elem e # after vs # bs"
    using path_split by blast
  have d: "distinct ((us @ e # vs) @ fs)" using rep by (simp add: q_rep_def)
  then have "distinct (us @ e # vs)" by auto
  then have "chained ((qNext q)(before us := after vs, Elem e := Null)) ((qPrev q)(after vs := before us, Elem e := Null))
      (path (us @ vs))"
    using rep distinct_path [of "us @ e # vs"] unfolding p p' q_rep_def by (intro chained_unlink) simp_all
  moreover have "p \<noteq> Elem e" if "p \<in> set (path (us @ vs))" for p using that d by (auto simp: path_def)
  ultimately have "chained ?nx ?pv (path (us @ vs))"
    by (subst chained_frame_all [where nx = "(qNext q)(before us := after vs, Elem e := Null)"
          and pv = "(qPrev q)(after vs := before us, Elem e := Null)"]) auto
  moreover have "free_path ?nx (mFirstFree q) fs = free_path (qNext q) (mFirstFree q) fs"
    using d before_cases [of us] by (intro free_path_frame) auto
  ultimately show ?thesis
    using rep before_after_simps(3) [of us, symmetric] before_after_simps(6) [of vs, symmetric]
    by (auto simp: q_rep_def q_unlink_def)
qed

subsection \<open>Chunks\<close>

lemma chunk_links_fields [simp]:
  "mSem (chunk_links a n q) = mSem q" "mUnblocking (chunk_links a n q) = mUnblocking q"
  "mMaxSize (chunk_links a n q) = mMaxSize q" "mChunkSize (chunk_links a n q) = mChunkSize q"
  "mIterator (chunk_links a n q) = mIterator q" "qItem (chunk_links a n q) = qItem q"
  "mFirstFree (chunk_links a n q) = mFirstFree q" "mChunks (chunk_links a n q) = mChunks q"
  by (induction n) (simp_all add: chunk_links_def)

lemma chunk_links_next:
  "qNext (chunk_links a n q) = (\<lambda>p. case p of Elem j \<Rightarrow> if a \<le> j \<and> j < a + n then Elem (j + 1) else qNext q p | _ \<Rightarrow> qNext q p)"
  "qPrev (chunk_links a n q) = (\<lambda>p. case p of Elem j \<Rightarrow> if a < j \<and> j \<le> a + n then Elem (j - 1) else qPrev q p | _ \<Rightarrow> qPrev q p)"
  by (induction n) (auto simp: chunk_links_def fun_eq_iff split: ptr.splits)

lemma free_path_upt:
  assumes "\<And>j. a \<le> j \<Longrightarrow> j < a + n \<Longrightarrow> nx (Elem j) = Elem (j + 1)" and "nx (Elem (a + n)) = Null"
  shows "free_path nx (Elem a) [a..<a + n + 1]"
  using assms
proof (induction n arbitrary: a)
  case 0
  then show ?case by simp
next
  case (Suc n)
  have "free_path nx (Elem (Suc a)) [Suc a..<Suc a + n + 1]" using Suc.prems by (intro Suc.IH) auto
  then show ?case using Suc.prems(1) [of a] by (subst upt_conv_Cons) auto
qed

definition fresh_chunk :: "nat option \<Rightarrow> nat \<Rightarrow> nat list \<Rightarrow> bool" where
  "fresh_chunk mem n xs \<longleftrightarrow> (\<exists>a. mem = Some a \<and> (\<forall>x \<in> set xs. x < a \<or> a + n \<le> x))"

definition chunk_fits :: "u32 \<Rightarrow> wombatQueueImpl \<Rightarrow> bool" where
  "chunk_fits items q \<longleftrightarrow> of_nat (mSem q) + items \<le> mMaxSize q"

lemma allocChunk_rep:
  assumes rep: "q_rep q xs []" and fits: "chunk_fits items q" and "items \<noteq> 0"
    and fresh: "fresh_chunk mem (unat items) xs"
  shows "\<exists>q' fs. wombatQueueImpl_allocChunk mem items q = Some q' \<and> q_rep q' xs fs \<and> length fs = unat items \<and>
     mSem q' = mSem q \<and> mUnblocking q' = mUnblocking q \<and> mMaxSize q' = mMaxSize q \<and> mChunkSize q' = mChunkSize q \<and>
     mIterator q' = mIterator q \<and> (\<forall>a \<in> set xs. qItem q' (Elem a) = qItem q (Elem a)) \<and>
     (\<exists>a. mChunks q' = (a, unat items) # mChunks q \<and> set fs \<subseteq> {a..<a + unat items})"
proof -
  obtain a where a: "mem = Some a" "\<forall>x \<in> set xs. x < a \<or> a + unat items \<le> x"
    using fresh by (auto simp: fresh_chunk_def)
  define n where "n = unat (items - 1)"
  have n: "unat items = n + 1" using assms(3) unat_gt_0 [of items] by (simp add: n_def unat_minus_one)
  define q0 where "q0 = q\<lparr>qNext := (\<lambda>p. if in_chunk a (unat items) p then Null else qNext q p),
      qPrev := (\<lambda>p. if in_chunk a (unat items) p then Null else qPrev q p),
      qItem := (\<lambda>p. if in_chunk a (unat items) p then zero_item else qItem q p),
      mChunks := (a, unat items) # mChunks q, mFirstFree := Elem a\<rparr>"
  define q' where "q' = chunk_links a n q0"
  have eq: "wombatQueueImpl_allocChunk mem items q = Some q'"
    using leD [OF fits [unfolded chunk_fits_def]] a(1)
    by (simp add: wombatQueueImpl_allocChunk_def Let_def q'_def q0_def n_def)
  have nx: "qNext q' p = (case p of Elem j \<Rightarrow> if a \<le> j \<and> j < a + n then Elem (j + 1) else if j = a + n then Null else qNext q p | _ \<Rightarrow> qNext q p)" for p
    using n by (auto simp: q'_def q0_def chunk_links_next in_chunk_def split: ptr.splits)
  have pv: "qPrev q' p = (case p of Elem j \<Rightarrow> if a < j \<and> j \<le> a + n then Elem (j - 1) else if j = a then Null else qPrev q p | _ \<Rightarrow> qPrev q p)" for p
    using n by (auto simp: q'_def q0_def chunk_links_next in_chunk_def split: ptr.splits)
  have out: "qNext q' p = qNext q p \<and> qPrev q' p = qPrev q p" if "p \<in> set (path xs)" for p
    using that a(2) n by (auto simp: nx pv path_def)
  have "chained (qNext q') (qPrev q') (path xs) = chained (qNext q) (qPrev q) (path xs)"
    using out by (intro chained_frame_all) auto
  moreover have "free_path (qNext q') (Elem a) [a..<a + n + 1]" by (rule free_path_upt) (auto simp: nx)
  moreover have "mFirstFree q' = Elem a" by (simp add: q'_def q0_def)
  moreover have "distinct (xs @ [a..<a + n + 1])" using rep a(2) n by (auto simp: q_rep_def)
  ultimately have "q_rep q' xs [a..<a + n + 1]"
    using rep out by (simp add: q_rep_def path_def)
  moreover have "mSem q' = mSem q \<and> mUnblocking q' = mUnblocking q \<and> mMaxSize q' = mMaxSize q \<and> mChunkSize q' = mChunkSize q \<and>
     mIterator q' = mIterator q \<and> (\<forall>a \<in> set xs. qItem q' (Elem a) = qItem q (Elem a)) \<and>
     mChunks q' = (a, unat items) # mChunks q"
    using a(2) by (auto simp: q'_def q0_def in_chunk_def)
  ultimately show ?thesis
    using eq n by (intro exI [of _ q'] exI [of _ "[a..<a + n + 1]"]) auto
qed

subsection \<open>The operations\<close>

lemma take_free_node:
  assumes "q_rep q xs (f # fs)"
  shows "take_free mem it q = Some (q\<lparr>mFirstFree := qNext q (Elem f), qItem := (qItem q)(Elem f := it)\<rparr>, Elem f)"
    and "q_rep (q\<lparr>mFirstFree := qNext q (Elem f), qItem := (qItem q)(Elem f := it)\<rparr>) xs fs"
  using assms by (auto simp: q_rep_def take_free_def Let_def)

text \<open>\<open>calloc\<close> returns memory that overlaps no chunk of the queue.\<close>

definition calloc_ok :: "nat option \<Rightarrow> nat \<Rightarrow> wombatQueueImpl \<Rightarrow> bool" where
  "calloc_ok mem n q \<longleftrightarrow> (\<exists>a. mem = Some a \<and> (\<forall>(b, k) \<in> set (mChunks q). a + n \<le> b \<or> b + k \<le> a))"

definition in_chunks :: "wombatQueueImpl \<Rightarrow> nat list \<Rightarrow> bool" where
  "in_chunks q xs \<longleftrightarrow> (\<forall>x \<in> set xs. \<exists>(b, k) \<in> set (mChunks q). b \<le> x \<and> x < b + k)"

lemma calloc_fresh: "calloc_ok mem n q \<Longrightarrow> in_chunks q xs \<Longrightarrow> fresh_chunk mem n xs"
  unfolding calloc_ok_def in_chunks_def fresh_chunk_def by fastforce

text \<open>Room for one more item: a free node, or a chunk that may be allocated.\<close>

definition has_room :: "wombatQueueImpl \<Rightarrow> bool" where
  "has_room q \<longleftrightarrow> mFirstFree q \<noteq> Null \<or> chunk_fits (mChunkSize q) q"

text \<open>The invariant of a queue that holds the nodes \<open>xs\<close>: the semaphore counts them, all nodes come from the
  chunks, and there are not more nodes than the maximum.\<close>

definition wq_ok :: "wombatQueueImpl \<Rightarrow> nat list \<Rightarrow> nat list \<Rightarrow> bool" where
  "wq_ok q xs fs \<longleftrightarrow> q_rep q xs fs \<and> mSem q = length xs \<and> in_chunks q (xs @ fs) \<and>
     length xs + length fs \<le> unat (mMaxSize q) \<and> mChunkSize q \<noteq> 0 \<and> unat (mChunkSize q) + unat (mMaxSize q) < 2 ^ 32"

text \<open>A node that was taken, in a queue that is otherwise unchanged.\<close>

definition taken ::
  "wombatQueueItem \<Rightarrow> wombatQueueImpl \<Rightarrow> wombatQueueImpl \<Rightarrow> nat list \<Rightarrow> nat \<Rightarrow> nat list \<Rightarrow> bool" where
  "taken it q q' xs e fs \<longleftrightarrow> q_rep q' xs fs \<and> e \<notin> set xs \<union> set fs \<and> qItem q' (Elem e) = it \<and>
     (\<forall>a \<in> set xs. qItem q' (Elem a) = qItem q (Elem a)) \<and> mSem q' = mSem q \<and> mIterator q' = mIterator q \<and>
     mUnblocking q' = mUnblocking q \<and> mMaxSize q' = mMaxSize q \<and> mChunkSize q' = mChunkSize q \<and>
     in_chunks q' (xs @ e # fs) \<and> length xs + length fs + 1 \<le> unat (mMaxSize q)"

lemma take_free_taken:
  assumes "q_rep q xs (f # fs)" and "in_chunks q (xs @ f # fs)" and "length xs + length fs + 1 \<le> unat (mMaxSize q)"
  shows "\<exists>q' e fs'. take_free mem it q = Some (q', Elem e) \<and> taken it q q' xs e fs'"
proof -
  let ?q = "q\<lparr>mFirstFree := qNext q (Elem f), qItem := (qItem q)(Elem f := it)\<rparr>"
  have "f \<notin> set xs \<union> set fs" using assms(1) by (auto simp: q_rep_def)
  then have "taken it q ?q xs f fs"
    using take_free_node(2) [OF assms(1), of it] assms(2,3) by (auto simp: taken_def in_chunks_def)
  then show ?thesis using take_free_node(1) [OF assms(1), of mem it] by blast
qed

lemma chunk_room:
  assumes "wq_ok q xs []" and "chunk_fits (mChunkSize q) q"
  shows "length xs + unat (mChunkSize q) \<le> unat (mMaxSize q)"
proof -
  have "length xs + unat (mChunkSize q) < 2 ^ 32" using assms(1) by (simp add: wq_ok_def)
  then have "unat (of_nat (length xs) + mChunkSize q) = length xs + unat (mChunkSize q)"
    by (simp add: unat_word_ariths unat_of_nat)
  then show ?thesis using assms by (simp add: wq_ok_def chunk_fits_def word_le_nat_alt)
qed

lemma take_free_room:
  assumes "wq_ok q xs fs" and "has_room q" and "calloc_ok mem (unat (mChunkSize q)) q"
  shows "\<exists>q' e fs'. take_free mem it q = Some (q', Elem e) \<and> taken it q q' xs e fs'"
proof (cases fs)
  case (Cons f fs')
  then show ?thesis using assms(1) by (intro take_free_taken) (auto simp: wq_ok_def)
next
  case Nil
  have rep: "q_rep q xs []" "mChunkSize q \<noteq> 0" "in_chunks q xs" using assms(1) Nil by (simp_all add: wq_ok_def)
  have fits: "chunk_fits (mChunkSize q) q" using assms(2) rep(1) by (simp add: has_room_def q_rep_def)
  obtain q1 fs1 where q1: "wombatQueueImpl_allocChunk mem (mChunkSize q) q = Some q1" "q_rep q1 xs fs1"
      "length fs1 = unat (mChunkSize q)" "mSem q1 = mSem q" "mUnblocking q1 = mUnblocking q" "mMaxSize q1 = mMaxSize q"
      "mChunkSize q1 = mChunkSize q" "mIterator q1 = mIterator q" "\<forall>a \<in> set xs. qItem q1 (Elem a) = qItem q (Elem a)"
      "\<exists>a. mChunks q1 = (a, unat (mChunkSize q)) # mChunks q \<and> set fs1 \<subseteq> {a..<a + unat (mChunkSize q)}"
    using allocChunk_rep [OF rep(1) fits rep(2) calloc_fresh [OF assms(3) rep(3)]] by blast
  obtain f fs' where fs1: "fs1 = f # fs'" using q1(3) rep(2) unat_gt_0 [of "mChunkSize q"] by (cases fs1) auto
  have "in_chunks q1 (xs @ f # fs')" using q1(10) rep(3) fs1 by (auto simp: in_chunks_def)
  then obtain q' e fs'' where t: "take_free mem it q1 = Some (q', Elem e)" "taken it q1 q' xs e fs''"
    using take_free_taken [of q1 xs f fs' mem it] chunk_room [of q xs] assms(1) fits q1 fs1 Nil by auto
  have "take_free mem it q = take_free mem it q1"
    using q1(1,2) rep(1) fs1 by (simp add: take_free_def q_rep_def)
  moreover have "taken it q q' xs e fs''" using t(2) q1 by (auto simp: taken_def)
  ultimately show ?thesis using t(1) by metis
qed

lemma take_free_none:
  assumes "\<not> has_room q"
  shows "take_free mem it q = Some (q, Null)"
  using assms by (simp add: has_room_def take_free_def wombatQueueImpl_allocChunk_def chunk_fits_def not_le)

lemma q_set_simps [simp]:
  "p \<noteq> Null \<Longrightarrow> p \<noteq> MinusOne \<Longrightarrow> qSetNext p v q = Some (q\<lparr>qNext := (qNext q)(p := v)\<rparr>)"
  "p \<noteq> Null \<Longrightarrow> p \<noteq> MinusOne \<Longrightarrow> qSetPrev p v q = Some (q\<lparr>qPrev := (qPrev q)(p := v)\<rparr>)"
  by (simp_all add: qSetNext_def qSetPrev_def)

lemma rd_before_after [simp]: "rd f (before us) = Some (f (before us))" "rd f (after vs) = Some (f (after vs))"
  by (simp_all add: rd_def)

lemma enqueue_eq:
  assumes "take_free mem it q = Some (q1, Elem e)" and "q_rep q1 xs fs" and "e \<notin> set xs"
  shows "wombatQueue_enqueue mem it q = Some (q_link (before xs) (Elem e) Tail q1, WOMBAT_QUEUE_OK)"
  using assms(1,3) q_neighbours [of q1 xs "[]" fs] assms(2) before_cases [of xs]
  by (auto simp: wombatQueue_enqueue_def q_link_def)

lemma insertAfter_eq:
  assumes "take_free mem it q = Some (q1, Elem e)" and "q_rep q1 (us @ vs) fs" and "e \<notin> set (us @ vs)"
    and "mIterator q = before us" and "mIterator q1 = before us"
  shows "wombatQueue_insertAfter mem it q = Some (q_link (before us) (Elem e) (after vs) q1, WOMBAT_QUEUE_OK)"
proof -
  have "before us \<noteq> Elem e" using assms(3) before_cases [of us] by auto
  then show ?thesis
    using assms(1,4,5) q_neighbours [OF assms(2)]
    by (simp add: wombatQueue_insertAfter_def q_link_def fun_upd_twist)
qed

lemma insertBefore_eq:
  assumes "take_free mem it q = Some (q1, Elem e)" and "q_rep q1 (us @ vs) fs" and "e \<notin> set (us @ vs)"
    and "mIterator q = after vs" and "mIterator q1 = after vs"
  shows "wombatQueue_insertBefore mem it q = Some (q_link (before us) (Elem e) (after vs) q1, WOMBAT_QUEUE_OK)"
proof -
  have "after vs \<noteq> Elem e" "before us \<noteq> Elem e"
    using assms(3) after_cases [of vs] before_cases [of us] by auto
  then show ?thesis
    using assms(1,4,5) q_neighbours [OF assms(2)]
    by (simp add: wombatQueue_insertBefore_def q_link_def fun_upd_twist)
qed

lemma WQ_REMOVE_eq:
  assumes "q_rep q (us @ e # vs) fs"
  shows "WQ_REMOVE (Elem e) q = Some (q_unlink (before us) (Elem e) (after vs) q)"
proof -
  have d: "distinct (us @ e # vs)" using assms by (auto simp: q_rep_def)
  then have "before us \<noteq> Elem e" "after vs \<noteq> Elem e" using before_cases [of us] after_cases [of vs] by auto
  then show ?thesis
    using q_neighbours [of q us "e # vs" fs] q_neighbours [of q "us @ [e]" vs fs] assms
    by (simp add: WQ_REMOVE_def q_unlink_def fun_upd_twist)
qed

lemma remove_iterator_eq:
  assumes "q_rep q (us @ e # vs) fs" and "mIterator q = Elem e"
  shows "wombatQueue_remove q = Some ((q_unlink (before us) (Elem e) (after vs) q)\<lparr>mIterator := after vs\<rparr>,
     Returns WOMBAT_QUEUE_OK (Some (qItem q (Elem e))))"
proof -
  have d: "distinct (us @ e # vs)" using assms by (auto simp: q_rep_def)
  then have "before us \<noteq> Elem e" "after vs \<noteq> Elem e" using before_cases [of us] after_cases [of vs] by auto
  then show ?thesis
    using q_neighbours [of q us "e # vs" fs] q_neighbours [of q "us @ [e]" vs fs] assms
    by (simp add: wombatQueue_remove_def q_unlink_def fun_upd_twist Let_def)
qed

lemma linked_ok:
  assumes "wq_ok q (us @ vs) fs" and "taken it q q1 (us @ vs) e fs'"
  defines "q' \<equiv> q_link (before us) (Elem e) (after vs) q1"
  shows "wq_ok q' (us @ e # vs) fs'" and "map (\<lambda>a. qItem q' (Elem a)) (us @ e # vs)
      = map (\<lambda>a. qItem q (Elem a)) us @ it # map (\<lambda>a. qItem q (Elem a)) vs"
    and "mIterator q' = mIterator q" and "mUnblocking q' = mUnblocking q"
proof -
  have "q_rep q' (us @ e # vs) fs'"
    using q_rep_link [of q1 us vs fs' e] assms(2) by (simp add: taken_def q'_def)
  then show "wq_ok q' (us @ e # vs) fs'"
    using assms(1,2) by (auto simp: wq_ok_def taken_def q'_def q_link_def in_chunks_def)
  show "map (\<lambda>a. qItem q' (Elem a)) (us @ e # vs) = map (\<lambda>a. qItem q (Elem a)) us @ it # map (\<lambda>a. qItem q (Elem a)) vs"
    and "mIterator q' = mIterator q" and "mUnblocking q' = mUnblocking q"
    using assms(2) by (auto simp: taken_def q'_def q_link_def)
qed

lemma unlinked_ok:
  assumes "wq_ok q (us @ e # vs) fs"
  defines "q' \<equiv> q_unlink (before us) (Elem e) (after vs) q"
  shows "wq_ok (q'\<lparr>mSem := mSem q - 1\<rparr>) (us @ vs) (e # fs)" and "qItem q' = qItem q"
proof -
  have "q_rep q' (us @ vs) (e # fs)" using q_rep_unlink [of q us e vs fs] assms(1) by (simp add: wq_ok_def q'_def)
  then show "wq_ok (q'\<lparr>mSem := mSem q - 1\<rparr>) (us @ vs) (e # fs)"
    using assms(1) by (auto simp: wq_ok_def q'_def q_unlink_def in_chunks_def q_rep_def)
  show "qItem q' = qItem q" by (simp add: q'_def q_unlink_def)
qed

lemma q_unlink_sem: "q_unlink p e r (q\<lparr>mSem := n\<rparr>) = (q_unlink p e r q)\<lparr>mSem := n\<rparr>"
  by (simp add: q_unlink_def)

lemma remove_head:
  assumes "wq_ok q (x # xs) fs"
  shows "\<exists>q'. WQ_REMOVE (qNext q Head) (q\<lparr>mSem := mSem q - 1\<rparr>) = Some q' \<and> qNext q Head = Elem x \<and>
     wq_ok q' xs (x # fs) \<and> qItem q' = qItem q \<and> mUnblocking q' = mUnblocking q \<and> mMaxSize q' = mMaxSize q"
proof -
  let ?q = "q\<lparr>mSem := mSem q - 1\<rparr>"
  have rep: "q_rep ?q ([] @ x # xs) fs" using assms by (simp add: wq_ok_def q_rep_def)
  have h: "qNext q Head = Elem x" using q_neighbours(1) [OF rep] by simp
  have "WQ_REMOVE (Elem x) ?q = Some ((q_unlink Head (Elem x) (after xs) q)\<lparr>mSem := mSem q - 1\<rparr>)"
    using WQ_REMOVE_eq [OF rep] by (simp add: q_unlink_sem)
  then show ?thesis
    using h unlinked_ok [of q "[]" x xs fs] assms by (auto simp: q_unlink_def)
qed

lemma poll_empty: "wq_ok q [] fs \<Longrightarrow> wombatQueue_poll q = Some (q, Returns WOMBAT_QUEUE_WOULD_BLOCK None)"
  by (simp add: wombatQueue_poll_def wq_ok_def)

lemma poll_item:
  assumes "wq_ok q (x # xs) fs"
  shows "\<exists>q'. wombatQueue_poll q = Some (q', Returns WOMBAT_QUEUE_OK (Some (qItem q (Elem x)))) \<and>
     wq_ok q' xs (x # fs) \<and> qItem q' = qItem q \<and> mUnblocking q' = mUnblocking q \<and> mMaxSize q' = mMaxSize q"
  using remove_head [OF assms] assms by (auto simp: wombatQueue_poll_def wq_ok_def Let_def)

text \<open>A dispatch of a queue that is not empty, and that nobody unblocks, does the same as a poll.\<close>

lemma dispatch_poll:
  assumes "wq_ok q (x # xs) fs" and "\<not> mUnblocking q \<or> isTimed"
  shows "wombatQueue_dispatchInt False isTimed q = wombatQueue_poll q"
  using remove_head [OF assms(1)] assms
  by (auto simp: wombatQueue_poll_def wombatQueue_dispatchInt_def wq_ok_def Let_def)

subsection \<open>The queue as a sequence of items\<close>

definition wq_seq :: "wombatQueueImpl \<Rightarrow> wombatQueueItem list \<Rightarrow> bool" where
  "wq_seq q its \<longleftrightarrow> (\<exists>xs fs. wq_ok q xs fs \<and> its = map (\<lambda>a. qItem q (Elem a)) xs)"

definition result_item :: "q_result \<Rightarrow> wombatQueueItem option" where
  "result_item r = (case r of Returns _ it \<Rightarrow> it | Blocks \<Rightarrow> None)"

definition poll_next :: "wombatQueueImpl \<Rightarrow> (wombatQueueImpl \<times> wombatQueueItem option) option" where
  "poll_next q = map_option (\<lambda>(q, r). (q, result_item r)) (wombatQueue_poll q)"

interpretation wq: drain_spec wq_seq poll_next
proof
  fix q
  assume "wq_seq q []"
  then show "poll_next q = Some (q, None)" by (auto simp: wq_seq_def poll_next_def poll_empty result_item_def)
next
  fix q x its
  assume "wq_seq q (x # its)"
  then obtain a xs fs where "wq_ok q (a # xs) fs" "x = qItem q (Elem a)" "its = map (\<lambda>a. qItem q (Elem a)) xs"
    by (auto simp: wq_seq_def Cons_eq_map_conv)
  then show "\<exists>q'. poll_next q = Some (q', Some x) \<and> wq_seq q' its"
    using poll_item [of q a xs fs] by (fastforce simp: wq_seq_def poll_next_def result_item_def)
qed

lemma enqueue_room:
  assumes "wq_ok q xs fs" and "has_room q" and "calloc_ok mem (unat (mChunkSize q)) q"
  shows "\<exists>q' e fs'. wombatQueue_enqueue mem it q = Some (q', WOMBAT_QUEUE_OK) \<and> wq_ok q' (xs @ [e]) fs' \<and>
     map (\<lambda>a. qItem q' (Elem a)) (xs @ [e]) = map (\<lambda>a. qItem q (Elem a)) xs @ [it] \<and> mUnblocking q' = mUnblocking q \<and>
     mMaxSize q' = mMaxSize q"
proof -
  obtain q1 e fs' where t: "take_free mem it q = Some (q1, Elem e)" "taken it q q1 xs e fs'"
    using take_free_room [OF assms] by blast
  have "wombatQueue_enqueue mem it q = Some (q_link (before xs) (Elem e) Tail q1, WOMBAT_QUEUE_OK)"
    using t by (intro enqueue_eq) (auto simp: taken_def)
  moreover have "mMaxSize (q_link (before xs) (Elem e) Tail q1) = mMaxSize q" using t(2) by (simp add: taken_def q_link_def)
  ultimately show ?thesis using linked_ok [of q xs "[]" fs it q1 e fs'] assms(1) t(2) by auto
qed

lemma enqueue_full: "\<not> has_room q \<Longrightarrow> wombatQueue_enqueue mem it q = Some (q, WOMBAT_QUEUE_FULL)"
  by (simp add: wombatQueue_enqueue_def take_free_none)

text \<open>A new queue.\<close>

definition wq_new :: "nat \<Rightarrow> u32 \<Rightarrow> u32 \<Rightarrow> u32 \<Rightarrow> wombatQueueImpl \<Rightarrow> bool" where
  "wq_new a maxSize initialSize growBySize q \<longleftrightarrow>
     wombatQueue_create (Some a) True maxSize initialSize growBySize (the (fst (wombatQueue_allocate True)))
       = Some (q, WOMBAT_QUEUE_OK)"

lemma create_ok:
  assumes "wq_new a maxSize initialSize growBySize q"
    and "maxSize \<noteq> 0" and "initialSize \<noteq> 0" and "growBySize \<noteq> 0" and "unat growBySize + unat maxSize < 2 ^ 32"
  shows "(\<exists>fs. wq_ok q [] fs) \<and> mMaxSize q = maxSize \<and> \<not> mUnblocking q"
proof -
  let ?q = "(the (fst (wombatQueue_allocate True)))\<lparr>mMaxSize := maxSize, mChunkSize := growBySize, mSem := 0\<rparr>"
  have c: "wombatQueueImpl_allocChunk (Some a) initialSize ?q = Some q" "mFirstFree q \<noteq> Null"
    using assms(1-4) by (auto simp: wq_new_def wombatQueue_create_def split: Option.bind_splits if_splits)
  have fits: "chunk_fits initialSize ?q"
  proof (rule ccontr)
    assume "\<not> chunk_fits initialSize ?q"
    then have "q = ?q" using c(1) by (auto simp: wombatQueueImpl_allocChunk_def chunk_fits_def not_le)
    then show False using c(2) by (simp add: wombatQueue_allocate_def)
  qed
  have rep: "q_rep ?q [] []" by (simp add: q_rep_def path_def wombatQueue_allocate_def)
  obtain fs where fs: "q_rep q [] fs" "length fs = unat initialSize" "mSem q = 0" "mUnblocking q = mUnblocking ?q"
      "mMaxSize q = maxSize" "mChunkSize q = growBySize"
      "\<exists>b. mChunks q = (b, unat initialSize) # mChunks ?q \<and> set fs \<subseteq> {b..<b + unat initialSize}"
    using allocChunk_rep [OF rep fits assms(3), of "Some a"] c(1) by (auto simp: fresh_chunk_def)
  have "unat initialSize \<le> unat maxSize" using fits by (simp add: chunk_fits_def word_le_nat_alt)
  then have "wq_ok q [] fs" using fs assms(4,5) by (auto simp: wq_ok_def in_chunks_def)
  then show ?thesis using fs(4,5) by (auto simp: wombatQueue_allocate_def)
qed

subsection \<open>Runs\<close>

text \<open>The life of a queue that is fed by producers and emptied by consumers.\<close>

inductive wq_init :: "wombatQueueImpl \<Rightarrow> bool" where
  "wq_new a maxSize initialSize growBySize q \<Longrightarrow> maxSize \<noteq> 0 \<Longrightarrow> initialSize \<noteq> 0 \<Longrightarrow> growBySize \<noteq> 0 \<Longrightarrow>
     unat growBySize + unat maxSize < 2 ^ 32 \<Longrightarrow> wq_init q"

inductive wq_step :: "wombatQueueImpl \<Rightarrow> wombatQueueImpl \<Rightarrow> bool" where
  enqueue: "calloc_ok mem (unat (mChunkSize q)) q \<Longrightarrow> wombatQueue_enqueue mem it q = Some (q', st) \<Longrightarrow> wq_step q q'"
| poll: "wombatQueue_poll q = Some (q', r) \<Longrightarrow> wq_step q q'"
| dispatch: "wombatQueue_dispatch semErr q = Some (q', r) \<Longrightarrow> wq_step q q'"
| timedDispatch: "wombatQueue_timedDispatch semErr q = Some (q', r) \<Longrightarrow> wq_step q q'"

definition wq_inv :: "wombatQueueImpl \<Rightarrow> bool" where
  "wq_inv q \<longleftrightarrow> (\<exists>xs fs. wq_ok q xs fs) \<and> \<not> mUnblocking q"

lemma poll_inv:
  assumes "wq_inv q"
  shows "\<exists>q' r. wombatQueue_poll q = Some (q', r) \<and> wq_inv q'"
proof -
  obtain xs fs where ok: "wq_ok q xs fs" "\<not> mUnblocking q" using assms by (auto simp: wq_inv_def)
  show ?thesis
  proof (cases xs)
    case Nil
    then show ?thesis using ok poll_empty assms by blast
  next
    case (Cons x xs')
    then show ?thesis using ok poll_item [of q x xs' fs] by (auto simp: wq_inv_def)
  qed
qed

lemma dispatch_inv:
  assumes "wq_inv q"
  shows "\<exists>q' r. wombatQueue_dispatchInt semErr isTimed q = Some (q', r) \<and> wq_inv q'"
proof -
  obtain xs fs where ok: "wq_ok q xs fs" "\<not> mUnblocking q" using assms by (auto simp: wq_inv_def)
  show ?thesis
  proof (cases "semErr \<or> xs = []")
    case True
    then show ?thesis using assms ok by (auto simp: wombatQueue_dispatchInt_def wq_ok_def)
  next
    case False
    then obtain x xs' where "xs = x # xs'" by (cases xs) auto
    then show ?thesis using dispatch_poll [of q x xs' fs isTimed] ok False poll_inv [OF assms] by simp
  qed
qed

lemma enqueue_inv:
  assumes "wq_inv q" and "calloc_ok mem (unat (mChunkSize q)) q"
  shows "\<exists>q' st. wombatQueue_enqueue mem it q = Some (q', st) \<and> wq_inv q'"
proof -
  obtain xs fs where ok: "wq_ok q xs fs" "\<not> mUnblocking q" using assms by (auto simp: wq_inv_def)
  show ?thesis
  proof (cases "has_room q")
    case True
    then show ?thesis using enqueue_room [OF ok(1) True assms(2), of it] ok(2) by (auto simp: wq_inv_def)
  next
    case False
    then show ?thesis using enqueue_full assms(1) by blast
  qed
qed

interpretation wqs: invariant_system wq_init wq_step wq_inv
proof
  show "wq_init q \<Longrightarrow> wq_inv q" for q
    by (erule wq_init.cases) (metis create_ok wq_inv_def)
  show "wq_inv q'" if "wq_inv q" and "wq_step q q'" for q q'
    using that(2)
  proof cases
    case (enqueue mem it st)
    then show ?thesis using enqueue_inv [OF that(1), of mem it] by auto
  next
    case (poll r)
    then show ?thesis using poll_inv [OF that(1)] by auto
  next
    case (dispatch semErr r)
    then show ?thesis using dispatch_inv [OF that(1), of semErr False] by (auto simp: wombatQueue_dispatch_def)
  next
    case (timedDispatch semErr r)
    then show ?thesis using dispatch_inv [OF that(1), of semErr True] by (auto simp: wombatQueue_timedDispatch_def)
  qed
qed

subsection \<open>The iterator\<close>

lemma next_step:
  assumes "q_rep q (us @ vs) fs" and "mIterator q = before us"
  shows "wombatQueue_next q = (case vs of
     [] \<Rightarrow> Some (q\<lparr>mIterator := before us\<rparr>, Returns WOMBAT_QUEUE_END None)
   | v # _ \<Rightarrow> Some (q\<lparr>mIterator := Elem v\<rparr>, Returns WOMBAT_QUEUE_OK (Some (qItem q (Elem v)))))"
  using q_neighbours [OF assms(1)] assms(2) by (cases vs) (auto simp: wombatQueue_next_def)

lemma prev_step:
  assumes "q_rep q (us @ vs) fs" and "mIterator q = after vs"
  shows "wombatQueue_prev q = (if us = []
     then Some (q\<lparr>mIterator := after vs\<rparr>, Returns WOMBAT_QUEUE_END None)
     else Some (q\<lparr>mIterator := Elem (last us)\<rparr>, Returns WOMBAT_QUEUE_OK (Some (qItem q (Elem (last us))))))"
  using q_neighbours [OF assms(1)] assms(2) by (auto simp: wombatQueue_prev_def before_def)

subsection \<open>Properties\<close>

definition demo_item :: wombatQueueItem where
  "demo_item = \<lparr>mCb = Some 1, mData = 7, mClosure = 9\<rparr>"

definition demo_queue :: wombatQueueImpl where
  "demo_queue = \<lparr>mSem = 1, mUnblocking = False, mMaxSize = 4, mChunkSize = 2, mIterator = Elem 10,
     qNext = (\<lambda>_. Null)(Head := Elem 10, Elem 10 := Tail, Tail := Tail),
     qPrev = (\<lambda>_. Null)(Head := Head, Elem 10 := Head, Tail := Elem 10, Elem 11 := Elem 10),
     qItem = (\<lambda>_. zero_item)(Elem 10 := demo_item), mFirstFree = Elem 11, mChunks = [(10, 2)]\<rparr>"

lemma demo_queue_ok: "wq_ok demo_queue [10] [11]"
  by (simp add: wq_ok_def q_rep_def demo_queue_def path_def in_chunks_def)

lemma demo_queue_calloc: "calloc_ok (Some 20) (unat (mChunkSize demo_queue)) demo_queue"
  by (simp add: calloc_ok_def demo_queue_def)

lemma demo_queue_item: "qItem demo_queue (Elem 10) = demo_item" "mIterator demo_queue = Elem 10"
  by (simp_all add: demo_queue_def)

text \<open>Enqueueing puts the item behind all others, keeps the others, and raises the size by one; without
  a free node and without room for a chunk it reports that the queue is full and changes nothing.\<close>

lemma wq_enqueue_refines:
  assumes "wq_ok q xs fs" and "calloc_ok mem (unat (mChunkSize q)) q"
  shows "(has_room q \<longrightarrow> (\<exists>q' e fs'. wombatQueue_enqueue mem it q = Some (q', WOMBAT_QUEUE_OK) \<and> wq_ok q' (xs @ [e]) fs' \<and>
       map (\<lambda>a. qItem q' (Elem a)) (xs @ [e]) = map (\<lambda>a. qItem q (Elem a)) xs @ [it])) \<and>
     (\<not> has_room q \<longrightarrow> wombatQueue_enqueue mem it q = Some (q, WOMBAT_QUEUE_FULL))"
  using enqueue_room [OF assms(1) _ assms(2), of it] enqueue_full [of q mem it] by blast

text \<open>C24: first in, first out: polling a queue until it would block returns its items in the order in which
  they stand in the queue and leaves it empty; a dispatch of a queue that is not empty does the same as
  a poll.\<close>

theorem wq_fifo:
  assumes "wq_seq q its"
  shows "(\<exists>q'. drain_all poll_next q = Some (q', its) \<and> wq_seq q' []) \<and>
     (its \<noteq> [] \<and> \<not> mUnblocking q \<longrightarrow> wombatQueue_dispatch False q = wombatQueue_poll q)"
proof -
  obtain xs fs where ok: "wq_ok q xs fs" "its = map (\<lambda>a. qItem q (Elem a)) xs" using assms by (auto simp: wq_seq_def)
  have "wombatQueue_dispatch False q = wombatQueue_poll q" if ne: "its \<noteq> []" and nu: "\<not> mUnblocking q"
  proof -
    obtain x xs' where "xs = x # xs'" using ne unfolding ok(2) by (cases xs) auto
    then show ?thesis using dispatch_poll [of q x xs' fs False] ok(1) nu by (simp add: wombatQueue_dispatch_def)
  qed
  then show ?thesis using wq.drain_all_total [OF assms] by blast
qed

theorem wq_fifo_witness:
  "\<exists>q'. drain_all poll_next demo_queue = Some (q', [demo_item]) \<and> wq_seq q' []"
proof -
  have "wq_seq demo_queue [demo_item]"
    unfolding wq_seq_def using demo_queue_ok by (intro exI [of _ "[10]"] exI [of _ "[11]"]) (simp add: demo_queue_item)
  then show ?thesis using wq_fifo by blast
qed

text \<open>C25: safety of a queue between producers and consumers: in every state that enqueueing, polling and
  dispatching in any order can reach, the queue holds at most as many items as its maximum, the
  reported size is the number of items, and no operation follows an invalid pointer.\<close>

theorem wq_bounded:
  assumes "reachable wq_init wq_step q"
  shows "\<exists>its. wq_seq q its \<and> fst (wombatQueue_getSize q) = length its \<and> length its \<le> unat (mMaxSize q) \<and>
     wombatQueue_poll q \<noteq> None \<and> wombatQueue_dispatch semErr q \<noteq> None \<and>
     (calloc_ok mem (unat (mChunkSize q)) q \<longrightarrow> wombatQueue_enqueue mem it q \<noteq> None)"
proof -
  have inv: "wq_inv q" by (rule wqs.reachable_inv [OF assms])
  then obtain xs fs where ok: "wq_ok q xs fs" by (auto simp: wq_inv_def)
  then have "wq_seq q (map (\<lambda>a. qItem q (Elem a)) xs)" by (auto simp: wq_seq_def)
  moreover have "mSem q = length xs" "length xs \<le> unat (mMaxSize q)" using ok by (auto simp: wq_ok_def)
  ultimately show ?thesis
    using poll_inv [OF inv] dispatch_inv [OF inv, of semErr False] enqueue_inv [OF inv, of mem it]
    by (intro exI [of _ "map (\<lambda>a. qItem q (Elem a)) xs"]) (auto simp: wombatQueue_getSize_def wombatQueue_dispatch_def)
qed

definition demo_created :: "wombatQueueImpl option" where
  "demo_created = map_option fst (wombatQueue_create (Some 10) True 4 2 2 (the (fst (wombatQueue_allocate True))))"

lemma demo_created_reachable: "\<exists>q. demo_created = Some q \<and> reachable wq_init wq_step q"
proof -
  have "\<exists>q. wombatQueue_create (Some 10) True 4 2 2 (the (fst (wombatQueue_allocate True))) = Some (q, WOMBAT_QUEUE_OK)"
    by (simp add: wombatQueue_create_def wombatQueueImpl_allocChunk_def wombatQueue_allocate_def Let_def)
  then obtain q where "wq_new 10 4 2 2 q" "demo_created = Some q" by (auto simp: wq_new_def demo_created_def)
  then show ?thesis by (auto intro!: reach_init wq_init.intros [of 10 4 2 2])
qed

theorem wq_bounded_witness: "\<exists>q its. demo_created = Some q \<and> wq_seq q its \<and> length its \<le> unat (mMaxSize q)"
  using demo_created_reachable wq_bounded by blast

text \<open>Editing at the iterator: the iterator moves over the items in order and stays on the last one at
  the end; inserting after or before it puts the new item there without moving it.\<close>

lemma wq_iterator_edits:
  assumes "wq_ok q (us @ vs) fs" and "has_room q" and "calloc_ok mem (unat (mChunkSize q)) q"
  shows "(mIterator q = before us \<longrightarrow>
       (\<exists>q' e fs'. wombatQueue_insertAfter mem it q = Some (q', WOMBAT_QUEUE_OK) \<and> wq_ok q' (us @ e # vs) fs' \<and>
          qItem q' (Elem e) = it \<and> mIterator q' = mIterator q) \<and>
       (case vs of [] \<Rightarrow> wombatQueue_next q = Some (q, Returns WOMBAT_QUEUE_END None)
        | v # _ \<Rightarrow> wombatQueue_next q = Some (q\<lparr>mIterator := Elem v\<rparr>, Returns WOMBAT_QUEUE_OK (Some (qItem q (Elem v)))))) \<and>
     (mIterator q = after vs \<longrightarrow>
       (\<exists>q' e fs'. wombatQueue_insertBefore mem it q = Some (q', WOMBAT_QUEUE_OK) \<and> wq_ok q' (us @ e # vs) fs' \<and>
          qItem q' (Elem e) = it \<and> mIterator q' = mIterator q))"
proof -
  obtain q1 e fs' where t: "take_free mem it q = Some (q1, Elem e)" "taken it q q1 (us @ vs) e fs'"
    using take_free_room [OF assms] by blast
  let ?q' = "q_link (before us) (Elem e) (after vs) q1"
  have q1: "q_rep q1 (us @ vs) fs'" "e \<notin> set (us @ vs)" "mIterator q1 = mIterator q"
    using t(2) by (auto simp: taken_def)
  note ok = linked_ok [OF assms(1) t(2)]
  have "qItem ?q' (Elem e) = it" using t(2) by (simp add: taken_def q_link_def)
  moreover have "wombatQueue_insertAfter mem it q = Some (?q', WOMBAT_QUEUE_OK)" if "mIterator q = before us"
    using insertAfter_eq [OF t(1) q1(1,2)] that q1(3) by simp
  moreover have "wombatQueue_insertBefore mem it q = Some (?q', WOMBAT_QUEUE_OK)" if "mIterator q = after vs"
    using insertBefore_eq [OF t(1) q1(1,2)] that q1(3) by simp
  moreover have "mIterator q = before us \<Longrightarrow> (case vs of [] \<Rightarrow> wombatQueue_next q = Some (q, Returns WOMBAT_QUEUE_END None)
        | v # _ \<Rightarrow> wombatQueue_next q = Some (q\<lparr>mIterator := Elem v\<rparr>, Returns WOMBAT_QUEUE_OK (Some (qItem q (Elem v)))))"
    using next_step [of q us vs fs] assms(1) by (cases vs) (auto simp: wq_ok_def)
  ultimately show ?thesis using ok(1,3) by blast
qed

text \<open>Removing the current item does not take it from the count: after the only item of a queue was
  removed through the iterator, a poll does not report that it would block. It unlinks the dummy node at
  the end of the queue and puts it on the free list, from which the next insertion takes it.\<close>

lemma wq_remove_then_poll:
  assumes "wq_ok q [e] fs" and "mIterator q = Elem e"
  shows "\<exists>q1 q2. wombatQueue_remove q = Some (q1, Returns WOMBAT_QUEUE_OK (Some (qItem q (Elem e)))) \<and>
     qNext q1 Head = Tail \<and> fst (wombatQueue_getSize q1) = 1 \<and>
     wombatQueue_poll q1 = Some (q2, Returns WOMBAT_QUEUE_OK (Some (qItem q Tail))) \<and> mFirstFree q2 = Tail"
proof -
  let ?q1 = "(q_unlink Head (Elem e) Tail q)\<lparr>mIterator := Tail\<rparr>"
  have rep: "q_rep q ([] @ e # []) fs" "mSem q = 1" using assms(1) by (simp_all add: wq_ok_def)
  have r: "wombatQueue_remove q = Some (?q1, Returns WOMBAT_QUEUE_OK (Some (qItem q (Elem e))))"
    using remove_iterator_eq [OF rep(1) assms(2)] by simp
  have "qNext ?q1 Head = Tail" "qPrev ?q1 Tail = Head" "qNext ?q1 Tail = Tail"
    using rep(1) by (simp_all add: q_unlink_def q_rep_def)
  then have "\<exists>q2. wombatQueue_poll ?q1 = Some (q2, Returns WOMBAT_QUEUE_OK (Some (qItem q Tail))) \<and> mFirstFree q2 = Tail"
    using rep(2) by (simp add: wombatQueue_poll_def WQ_REMOVE_def q_unlink_def)
  then show ?thesis using r rep(2) \<open>qNext ?q1 Head = Tail\<close> by (auto simp: wombatQueue_getSize_def q_unlink_def)
qed

text \<open>A flush removes only the first item of the queue, the others stay.\<close>

lemma wq_flush_one:
  assumes "wq_ok q (x # xs) fs"
  shows "\<exists>q'. wombatQueue_flush q = Some (q', Returns WOMBAT_QUEUE_OK (Some (qItem q (Elem x)))) \<and> wq_ok q' xs (x # fs)"
  using remove_head [OF assms] assms by (auto simp: wombatQueue_flush_def wq_ok_def Let_def)

end
