(* ===== verification/Subscription.thy ===== *)
theory Subscription
  imports Transition_Spec ListenerMsgCallback
begin

text \<open>
  The life cycle of a subscription (\<open>mama/c_cpp/src/c/subscription.c\<close>): set-up, activation through the
  throttle of the transport, deactivation with the callback of the middleware bridge, destruction and
  deallocation. Pointers that the life cycle only creates, passes on and releases are modelled by whether they
  are set. The functions of other components that are called (publisher, image requests, transport, bridge,
  queue) are given by an environment that says what they return; their calls are recorded as effects. Every
  operation runs under the lock of the subscription and is one step, logging and statistics are left out, and
  the build is the one without entitlements. \<open>None\<close> is an invalid memory access.
\<close>

subsection \<open>The structure\<close>

datatype mamaSubscriptionState =
    MAMA_SUBSCRIPTION_UNKNOWN | MAMA_SUBSCRIPTION_ALLOCATED | MAMA_SUBSCRIPTION_SETUP
  | MAMA_SUBSCRIPTION_ACTIVATING | MAMA_SUBSCRIPTION_ACTIVATED | MAMA_SUBSCRIPTION_DEACTIVATING
  | MAMA_SUBSCRIPTION_DEACTIVATED | MAMA_SUBSCRIPTION_DESTROYING | MAMA_SUBSCRIPTION_DESTROYED
  | MAMA_SUBSCRIPTION_DEALLOCATING | MAMA_SUBSCRIPTION_DEALLOCATED | MAMA_SUBSCRIPTION_REACTIVATING

datatype mamaSubscMsgType =
    MAMA_SUBSC_SUBSCRIBE | MAMA_SUBSC_SNAPSHOT | MAMA_SUBSC_UNSUBSCRIBE | MAMA_SUBSC_RESUBSCRIBE
  | MAMA_SUBSC_REFRESH | MAMA_SUBSC_DDICT_SNAPSHOT | MAMA_SUBSC_WORLDVIEW_RQST | MAMA_SUBSC_DQ_SUBSCRIBER
  | MAMA_SUBSC_DQ_PUBLISHER | MAMA_SUBSC_DQ_NETWORK | MAMA_SUBSC_DQ_UNKNOWN | MAMA_SUBSC_FEATURE_SET_RQST
  | MAMA_SUBSC_DQ_GROUP_SUBSCRIBER

datatype wildCardType = wc_none | wc_transport | wc_wildcard

text \<open>The objects that a subscription owns; \<open>QueueObject\<close> is its share in the count of open objects of its
  queue.\<close>

datatype owned = Publisher | InitialRequest | RecapRequest | MsgCallback | DqStrategy | SubjectTable
  | BridgeSubscription | QueueObject

datatype subsc_effect = StateLog mamaSubscriptionState | Created owned | Destroyed owned
  | MuteBridge | StopWait owned | AddSubscription | RemoveListener | SendInitialRequest | SendSubscribe
  | OnCreate | OnDestroy | Freed

text \<open>The state of the world that belongs to a subscription is kept with it: the create actions of the
  subscription on the throttle queue, the number of bridge subscriptions whose destruction was begun and not
  yet reported, and the effects so far, the latest first.\<close>

record mamaSubscriptionImpl =
  mState :: mamaSubscriptionState
  mType :: subscType
  mServiceLevel :: mamaServiceLevel
  mSubscMsgType :: mamaSubscMsgType
  mWildCardType :: wildCardType
  mRequiresInitial :: bool
  mTransport :: bool
  mQueue :: bool
  mBridgeImpl :: bool
  mSubscBridge :: bool
  mSubscRoot :: "string option"
  mSubscSource :: "string option"
  mUserSymbol :: "string option"
  mSubscSymbol :: "string option"
  mEntitleSubject :: string
  mContextSymbol :: "string option"
  mContextRecap :: bool
  mInitialArrived :: bool
  mExpectingInitial :: bool
  mClosure :: nat
  mOnDestroy :: bool
  mSubscPublisher :: bool
  mInitialRequest :: bool
  mRecapRequest :: bool
  mCallback :: bool
  mDqStrategy :: bool
  mSubjects :: bool
  mRecoverGaps :: bool
  mAcceptMultipleInitials :: bool
  mGroupSizeHint :: int
  mAction :: "nat option"
  throttleQueue :: "nat list"
  bridgeCallbacks :: nat
  effects :: "subsc_effect list"

text \<open>What the other components answer. The throttle executes an action at once when its rate is 0, queues it
  under a handle, or fails. A bridge may report the destruction of its subscription during the call or later.\<close>

datatype throttle_outcome = Executes | Queues nat | Refuses mama_status

record subsc_env =
  eBridgeImpl :: bool
  eMapSymbol :: "string \<Rightarrow> string"
  eGroupSizeHint :: int
  ePublisher :: mama_status
  eInitialRequest :: mama_status
  eRecapRequest :: mama_status
  eCallback :: mama_status
  eDqStrategy :: mama_status
  eThrottle :: throttle_outcome
  eAddSubscription :: mama_status
  eBridgeCreate :: mama_status
  eBridgeIsValid :: bool
  eHasWildcards :: bool
  eSubjectTable :: bool
  eWaiting :: "owned \<Rightarrow> bool"
  eDestroysNow :: bool

record mamaSource =
  srcTransport :: "mama_status \<times> bool"
  srcNamespace :: "mama_status \<times> string option"

definition WOMBAT_SUBJECT_MAX :: nat where "WOMBAT_SUBJECT_MAX = 256"

definition MINIMUM_GROUP_SIZE_HINT :: int where "MINIMUM_GROUP_SIZE_HINT = 100"

definition effect :: "subsc_effect \<Rightarrow> mamaSubscriptionImpl \<Rightarrow> mamaSubscriptionImpl" where
  "effect e s = s\<lparr>effects := e # effects s\<rparr>"

definition mamaSubscriptionImpl_setState :: "mamaSubscriptionState \<Rightarrow> mamaSubscriptionImpl \<Rightarrow> mamaSubscriptionImpl" where
  "mamaSubscriptionImpl_setState state s = effect (StateLog state) (s\<lparr>mState := state\<rparr>)"

definition mamaSubscriptionImpl_invokeDestroyedCallback :: "mamaSubscriptionImpl \<Rightarrow> mamaSubscriptionImpl" where
  "mamaSubscriptionImpl_invokeDestroyedCallback s = (if mOnDestroy s then effect OnDestroy s else s)"

fun mamaSubscription_stringForState :: "mamaSubscriptionState \<Rightarrow> string" where
  "mamaSubscription_stringForState MAMA_SUBSCRIPTION_UNKNOWN = ''MAMA_SUBSCRIPTION_UNKNOWN''"
| "mamaSubscription_stringForState MAMA_SUBSCRIPTION_ALLOCATED = ''MAMA_SUBSCRIPTION_ALLOCATED''"
| "mamaSubscription_stringForState MAMA_SUBSCRIPTION_SETUP = ''MAMA_SUBSCRIPTION_SETUP''"
| "mamaSubscription_stringForState MAMA_SUBSCRIPTION_ACTIVATING = ''MAMA_SUBSCRIPTION_ACTIVATING''"
| "mamaSubscription_stringForState MAMA_SUBSCRIPTION_ACTIVATED = ''MAMA_SUBSCRIPTION_ACTIVATED''"
| "mamaSubscription_stringForState MAMA_SUBSCRIPTION_DEACTIVATING = ''MAMA_SUBSCRIPTION_DEACTIVATING''"
| "mamaSubscription_stringForState MAMA_SUBSCRIPTION_DEACTIVATED = ''MAMA_SUBSCRIPTION_DEACTIVATED''"
| "mamaSubscription_stringForState MAMA_SUBSCRIPTION_REACTIVATING = ''MAMA_SUBSCRIPTION_REACTIVATING''"
| "mamaSubscription_stringForState MAMA_SUBSCRIPTION_DESTROYING = ''MAMA_SUBSCRIPTION_DESTROYING''"
| "mamaSubscription_stringForState MAMA_SUBSCRIPTION_DESTROYED = ''MAMA_SUBSCRIPTION_DESTROYED''"
| "mamaSubscription_stringForState MAMA_SUBSCRIPTION_DEALLOCATING = ''MAMA_SUBSCRIPTION_DEALLOCATING''"
| "mamaSubscription_stringForState MAMA_SUBSCRIPTION_DEALLOCATED = ''MAMA_SUBSCRIPTION_DEALLOCATED''"

definition mamaSubscription_allocate :: "bool \<Rightarrow> mamaSubscriptionImpl option \<times> mama_status" where
  "mamaSubscription_allocate callocOk =
    (if \<not> callocOk then (None, MAMA_STATUS_NOMEM)
     else
       (Some (mamaSubscriptionImpl_setState MAMA_SUBSCRIPTION_ALLOCATED
          \<lparr>mState = MAMA_SUBSCRIPTION_UNKNOWN, mType = MAMA_SUBSC_TYPE_NORMAL, mServiceLevel = MAMA_SERVICE_LEVEL_REAL_TIME,
           mSubscMsgType = MAMA_SUBSC_SUBSCRIBE, mWildCardType = wc_none, mRequiresInitial = True, mTransport = False,
           mQueue = False, mBridgeImpl = False, mSubscBridge = False, mSubscRoot = None, mSubscSource = None,
           mUserSymbol = None, mSubscSymbol = None, mEntitleSubject = [], mContextSymbol = None, mContextRecap = False,
           mInitialArrived = False, mExpectingInitial = False, mClosure = 0, mOnDestroy = False,
           mSubscPublisher = False, mInitialRequest = False, mRecapRequest = False, mCallback = False,
           mDqStrategy = False, mSubjects = False, mRecoverGaps = True, mAcceptMultipleInitials = False,
           mGroupSizeHint = 0, mAction = None, throttleQueue = [], bridgeCallbacks = 0, effects = []\<rparr>),
        MAMA_STATUS_OK))"

subsection \<open>Set-up\<close>

definition setSubscInfo ::
  "subsc_env \<Rightarrow> string option \<Rightarrow> string option \<Rightarrow> string option \<Rightarrow> mamaSubscriptionImpl \<Rightarrow> mamaSubscriptionImpl" where
  "setSubscInfo env root source symbol s =
    (let s = (if root \<noteq> None then s\<lparr>mSubscRoot := root\<rparr> else s);
         s = (if source \<noteq> None then s\<lparr>mSubscSource := source\<rparr> else s)
     in case symbol of
          None \<Rightarrow> s
        | Some sy \<Rightarrow>
            if sy \<noteq> [] then s\<lparr>mUserSymbol := Some sy, mSubscSymbol := Some (eMapSymbol env sy)\<rparr> else s)"

definition clearSubscInfo :: "mamaSubscriptionImpl \<Rightarrow> mamaSubscriptionImpl" where
  "clearSubscInfo s = s\<lparr>mSubscRoot := None, mSubscSource := None, mUserSymbol := None, mSubscSymbol := None\<rparr>"

text \<open>What the switches over the service level and the type decide: the message type that is sent, whether
  several initial values are accepted and gaps are recovered, the root and the symbol; \<open>None\<close> is an invalid
  argument.\<close>

definition service_level_msg_type :: "mamaSubscriptionImpl \<Rightarrow> mamaSubscMsgType option" where
  "service_level_msg_type s =
    (case mServiceLevel s of
       MAMA_SERVICE_LEVEL_REAL_TIME \<Rightarrow> Some MAMA_SUBSC_SUBSCRIBE
     | MAMA_SERVICE_LEVEL_SNAPSHOT \<Rightarrow> if \<not> mRequiresInitial s then None else Some MAMA_SUBSC_SNAPSHOT
     | _ \<Rightarrow> None)"

definition type_settings ::
  "subscType \<Rightarrow> mamaSubscMsgType \<Rightarrow> string \<Rightarrow> (mamaSubscMsgType \<times> bool \<times> bool \<times> string \<times> string) option" where
  "type_settings ty msgType symbol =
    (case ty of
       MAMA_SUBSC_TYPE_NORMAL \<Rightarrow> Some (msgType, False, True, ''_MD'', symbol)
     | MAMA_SUBSC_TYPE_GROUP \<Rightarrow> Some (msgType, True, True, ''_MD'', symbol)
     | MAMA_SUBSC_TYPE_BOOK \<Rightarrow> Some (msgType, False, True, ''_MD'', symbol)
     | MAMA_SUBSC_TYPE_BASIC \<Rightarrow> None
     | MAMA_SUBSC_TYPE_DICTIONARY \<Rightarrow> Some (MAMA_SUBSC_DDICT_SNAPSHOT, False, True, ''_MDDD'', symbol)
     | MAMA_SUBSC_TYPE_SYMBOL_LIST \<Rightarrow> Some (msgType, True, False, ''_MD'', ''SYMBOL_LIST_NORMAL'')
     | MAMA_SUBSC_TYPE_SYMBOL_LIST_NORMAL \<Rightarrow> Some (msgType, True, False, ''_MD'', ''SYMBOL_LIST_NORMAL'')
     | MAMA_SUBSC_TYPE_SYMBOL_LIST_GROUP \<Rightarrow> Some (msgType, True, False, ''_MD'', ''SYMBOL_LIST_GROUP'')
     | MAMA_SUBSC_TYPE_SYMBOL_LIST_BOOK \<Rightarrow> Some (msgType, True, False, ''_MD'', ''SYMBOL_LIST_BOOK''))"

text \<open>The objects are created one after the other; the status of a failure is returned, except for the image
  requests, whose failure returns the status of the publisher, which is OK.\<close>

definition setup_objects :: "subsc_env \<Rightarrow> mamaSubscriptionImpl \<Rightarrow> mamaSubscriptionImpl \<times> mama_status" where
  "setup_objects env s =
    (if ePublisher env \<noteq> MAMA_STATUS_OK then (s, ePublisher env)
     else
       let s = effect (Created Publisher) (s\<lparr>mSubscPublisher := True\<rparr>)
       in if eInitialRequest env \<noteq> MAMA_STATUS_OK then (s, MAMA_STATUS_OK)
       else
         let s = effect (Created InitialRequest) (s\<lparr>mInitialRequest := True\<rparr>)
         in if eRecapRequest env \<noteq> MAMA_STATUS_OK then (s, MAMA_STATUS_OK)
         else
           let s = effect (Created RecapRequest) (s\<lparr>mRecapRequest := True\<rparr>)
           in if eCallback env \<noteq> MAMA_STATUS_OK then (s, eCallback env)
           else
             let s = effect (Created MsgCallback) (s\<lparr>mCallback := True\<rparr>)
             in if eDqStrategy env \<noteq> MAMA_STATUS_OK then (s, eDqStrategy env)
             else
               let s = effect (Created DqStrategy) (s\<lparr>mDqStrategy := True\<rparr>)
               in (mamaSubscriptionImpl_setState MAMA_SUBSCRIPTION_SETUP s, MAMA_STATUS_OK))"

text \<open>Callbacks are given by whether the structure is there and whether it has a function for the
  destruction.\<close>

definition setup_fields ::
  "subsc_env \<Rightarrow> bool option \<Rightarrow> string option \<Rightarrow> nat \<Rightarrow> mamaSubscMsgType \<times> bool \<times> bool \<times> string \<times> string \<Rightarrow>
     mamaSubscriptionImpl \<Rightarrow> mamaSubscriptionImpl" where
  "setup_fields env callbacks source closure settings s =
    (let (msgType, multi, gaps, root, sy) = settings;
         s = s\<lparr>mClosure := closure, mOnDestroy := (case callbacks of None \<Rightarrow> mOnDestroy s | Some b \<Rightarrow> b),
               mRecoverGaps := gaps, mAcceptMultipleInitials := multi, mTransport := True, mQueue := True,
               mSubscMsgType := msgType,
               mGroupSizeHint :=
                 max MINIMUM_GROUP_SIZE_HINT (if mGroupSizeHint s = 0 then eGroupSizeHint env else mGroupSizeHint s)\<rparr>
     in setSubscInfo env (Some root) source (Some sy) s)"

text \<open>A null symbol is copied without a test.\<close>

definition mamaSubscription_setupBasic ::
  "subsc_env \<Rightarrow> bool \<Rightarrow> bool \<Rightarrow> bool option \<Rightarrow> string option \<Rightarrow> string option \<Rightarrow> nat \<Rightarrow> mamaSubscriptionImpl \<Rightarrow>
     (mamaSubscriptionImpl \<times> mama_status) option" where
  "mamaSubscription_setupBasic env transport queue callbacks source symbol closure s =
    (if \<not> transport then Some (s, MAMA_STATUS_INVALID_ARG)
     else if \<not> queue then Some (s, MAMA_STATUS_INVALID_QUEUE)
     else
       do { let s = s\<lparr>mBridgeImpl := eBridgeImpl env\<rparr>;
            if \<not> mBridgeImpl s then Some (s, MAMA_STATUS_NO_BRIDGE_IMPL)
            else
              do { sy \<leftarrow> symbol;
                   let s = s\<lparr>mContextSymbol := Some sy\<rparr>;
                   case service_level_msg_type s of
                     None \<Rightarrow> Some (s, MAMA_STATUS_INVALID_ARG)
                   | Some mt \<Rightarrow>
                       (case type_settings (mType s) mt sy of
                          None \<Rightarrow> Some (s, MAMA_STATUS_INVALID_ARG)
                        | Some settings \<Rightarrow>
                            Some (setup_objects env (setup_fields env callbacks source closure settings s))) } })"

definition setup_allowed :: "mamaSubscriptionImpl \<Rightarrow> bool" where
  "setup_allowed s \<longleftrightarrow> mState s = MAMA_SUBSCRIPTION_ALLOCATED \<or> mState s = MAMA_SUBSCRIPTION_DESTROYED"

definition mamaSubscription_setup ::
  "subsc_env \<Rightarrow> bool \<Rightarrow> bool option \<Rightarrow> mamaSource option \<Rightarrow> string option \<Rightarrow> nat \<Rightarrow> mamaSubscriptionImpl \<Rightarrow>
     (mamaSubscriptionImpl \<times> mama_status) option" where
  "mamaSubscription_setup env queue callbacks source symbol closure s =
    (case source of
       None \<Rightarrow> Some (s, MAMA_STATUS_NULL_ARG)
     | Some src \<Rightarrow>
         if \<not> setup_allowed s then Some (s, MAMA_STATUS_SUBSCRIPTION_INVALID_STATE)
         else if fst (srcTransport src) \<noteq> MAMA_STATUS_OK then Some (s, fst (srcTransport src))
         else if fst (srcNamespace src) \<noteq> MAMA_STATUS_OK then Some (s, fst (srcNamespace src))
         else mamaSubscription_setupBasic env (snd (srcTransport src)) queue callbacks (snd (srcNamespace src)) symbol closure s)"

definition mamaSubscription_setup2 ::
  "subsc_env \<Rightarrow> bool \<Rightarrow> bool \<Rightarrow> bool option \<Rightarrow> string option \<Rightarrow> string option \<Rightarrow> nat \<Rightarrow> mamaSubscriptionImpl \<Rightarrow>
     (mamaSubscriptionImpl \<times> mama_status) option" where
  "mamaSubscription_setup2 env transport queue callbacks source symbol closure s =
    (if \<not> transport \<or> \<not> queue then Some (s, MAMA_STATUS_NULL_ARG)
     else if \<not> setup_allowed s then Some (s, MAMA_STATUS_SUBSCRIPTION_INVALID_STATE)
     else mamaSubscription_setupBasic env transport queue callbacks source symbol closure s)"

definition mamaSubscription_setupBasicWildCard ::
  "subsc_env \<Rightarrow> bool \<Rightarrow> bool \<Rightarrow> bool \<Rightarrow> string option \<Rightarrow> string option \<Rightarrow> nat \<Rightarrow> mamaSubscriptionImpl \<Rightarrow>
     (mamaSubscriptionImpl \<times> mama_status) option" where
  "mamaSubscription_setupBasicWildCard env transport queue hasOnDestroy source symbol closure s =
    mamaSubscription_setupBasic env transport queue None source symbol closure
      (s\<lparr>mWildCardType := (if symbol = None then wc_transport else wc_wildcard), mOnDestroy := hasOnDestroy\<rparr>)"

subsection \<open>Activation\<close>

definition is_snapshot :: "mamaSubscriptionImpl \<Rightarrow> bool" where
  "is_snapshot s \<longleftrightarrow> mSubscMsgType s = MAMA_SUBSC_DDICT_SNAPSHOT \<or> mSubscMsgType s = MAMA_SUBSC_SNAPSHOT"

definition mamaSubscription_requiresSubscribe :: "subsc_env \<Rightarrow> mamaSubscriptionImpl \<Rightarrow> bool" where
  "mamaSubscription_requiresSubscribe env s \<longleftrightarrow>
     mBridgeImpl s \<and> mSubscBridge s \<and> eBridgeIsValid env \<and> \<not> eHasWildcards env"

text \<open>The pointer to an earlier table is overwritten.\<close>

definition configureForMultipleTopics :: "subsc_env \<Rightarrow> mamaSubscriptionImpl \<Rightarrow> mamaSubscriptionImpl" where
  "configureForMultipleTopics env s =
    (if eSubjectTable env then effect (Created SubjectTable) (s\<lparr>mSubjects := True\<rparr>) else s\<lparr>mSubjects := False\<rparr>)"

text \<open>Creating the bridge subscription; the pointer is set when it succeeds.\<close>

definition bridgeMamaSubscriptionCreate :: "subsc_env \<Rightarrow> mamaSubscriptionImpl \<Rightarrow> mamaSubscriptionImpl" where
  "bridgeMamaSubscriptionCreate env s =
    (if eBridgeCreate env = MAMA_STATUS_OK
     then effect (Created BridgeSubscription) (s\<lparr>mSubscBridge := True\<rparr>) else s)"

definition mamaSubscription_initialize :: "subsc_env \<Rightarrow> mamaSubscriptionImpl \<Rightarrow> mamaSubscriptionImpl" where
  "mamaSubscription_initialize env s =
    (let s = (if \<not> is_snapshot s then bridgeMamaSubscriptionCreate env s else s);
         s = (if mRequiresInitial s
              then effect SendInitialRequest (s\<lparr>mExpectingInitial := True, mInitialArrived := False\<rparr>)
              else if mamaSubscription_requiresSubscribe env s then effect SendSubscribe s
              else s);
         s = (if mBridgeImpl s \<and> (eHasWildcards env \<or> mType s = MAMA_SUBSC_TYPE_GROUP)
              then configureForMultipleTopics env s else s)
     in effect (Created QueueObject) s)"

definition entitle_subject :: "mamaSubscriptionImpl \<Rightarrow> string" where
  "entitle_subject s =
    (case (mSubscSource s, mSubscSymbol s) of
       (Some (c # cs), Some (d # ds)) \<Rightarrow> take (WOMBAT_SUBJECT_MAX - 1) (c # cs @ CHR ''.'' # d # ds)
     | (_, Some (d # ds)) \<Rightarrow> take (WOMBAT_SUBJECT_MAX - 1) (d # ds)
     | _ \<Rightarrow> [])"

definition mamaSubscriptionImpl_completeMarketDataInitialisation ::
  "subsc_env \<Rightarrow> mamaSubscriptionImpl \<Rightarrow> mamaSubscriptionImpl \<times> mama_status" where
  "mamaSubscriptionImpl_completeMarketDataInitialisation env s =
    (let s = s\<lparr>mAction := None\<rparr>;
         (s, ret) =
           (if mState s = MAMA_SUBSCRIPTION_ACTIVATING then
              let s = s\<lparr>mEntitleSubject := entitle_subject s\<rparr>;
                  ret = (if \<not> is_snapshot s then eAddSubscription env else MAMA_STATUS_OK);
                  s = (if \<not> is_snapshot s \<and> ret = MAMA_STATUS_OK then effect AddSubscription s else s)
              in if ret = MAMA_STATUS_OK
                 then (mamaSubscriptionImpl_setState MAMA_SUBSCRIPTION_ACTIVATED (mamaSubscription_initialize env s), ret)
                 else (s, ret)
            else (s, MAMA_STATUS_OK))
     in (effect OnCreate s, ret))"

text \<open>The action that is put on the throttle.\<close>

definition createAction :: "subsc_env \<Rightarrow> mamaSubscriptionImpl \<Rightarrow> mamaSubscriptionImpl" where
  "createAction env s = fst (mamaSubscriptionImpl_completeMarketDataInitialisation env s)"

definition mamaTransport_throttleAction :: "subsc_env \<Rightarrow> mamaSubscriptionImpl \<Rightarrow> mamaSubscriptionImpl \<times> mama_status" where
  "mamaTransport_throttleAction env s =
    (case eThrottle env of
       Executes \<Rightarrow> (createAction env s, MAMA_STATUS_OK)
     | Queues h \<Rightarrow> (s\<lparr>mAction := Some h, throttleQueue := throttleQueue s @ [h]\<rparr>, MAMA_STATUS_OK)
     | Refuses status \<Rightarrow> (s, status))"

text \<open>Initialising the data quality context always succeeds and hands the recap request to it.\<close>

definition mamaSubscription_activate_internal :: "subsc_env \<Rightarrow> mamaSubscriptionImpl \<Rightarrow> mamaSubscriptionImpl \<times> mama_status" where
  "mamaSubscription_activate_internal env s =
    (if \<not> mTransport s then (s, MAMA_STATUS_INVALID_ARG)
     else mamaTransport_throttleAction env (s\<lparr>mContextRecap := mRecapRequest s\<rparr>))"

definition mamaSubscription_activate :: "subsc_env \<Rightarrow> mamaSubscriptionImpl \<Rightarrow> mamaSubscriptionImpl \<times> mama_status" where
  "mamaSubscription_activate env s =
    (if mType s = MAMA_SUBSC_TYPE_BASIC then (s, MAMA_STATUS_SUBSCRIPTION_INVALID_TYPE)
     else
       (case mState s of
          MAMA_SUBSCRIPTION_DEACTIVATED \<Rightarrow>
            mamaSubscription_activate_internal env (mamaSubscriptionImpl_setState MAMA_SUBSCRIPTION_ACTIVATING s)
        | MAMA_SUBSCRIPTION_SETUP \<Rightarrow>
            mamaSubscription_activate_internal env (mamaSubscriptionImpl_setState MAMA_SUBSCRIPTION_ACTIVATING s)
        | MAMA_SUBSCRIPTION_ACTIVATED \<Rightarrow> (s, MAMA_STATUS_OK)
        | MAMA_SUBSCRIPTION_ACTIVATING \<Rightarrow> (s, MAMA_STATUS_OK)
        | MAMA_SUBSCRIPTION_REACTIVATING \<Rightarrow> (s, MAMA_STATUS_OK)
        | MAMA_SUBSCRIPTION_DEACTIVATING \<Rightarrow>
            (mamaSubscriptionImpl_setState MAMA_SUBSCRIPTION_REACTIVATING s, MAMA_STATUS_OK)
        | _ \<Rightarrow> (s, MAMA_STATUS_SUBSCRIPTION_INVALID_STATE)))"

definition mamaSubscription_create ::
  "subsc_env \<Rightarrow> bool \<Rightarrow> bool option \<Rightarrow> mamaSource option \<Rightarrow> string option \<Rightarrow> nat \<Rightarrow> mamaSubscriptionImpl \<Rightarrow>
     (mamaSubscriptionImpl \<times> mama_status) option" where
  "mamaSubscription_create env queue callbacks source symbol closure s =
    do { (s, status) \<leftarrow> mamaSubscription_setup env queue callbacks source symbol closure s;
         Some (if status = MAMA_STATUS_OK then mamaSubscription_activate env s else (s, status)) }"

definition mamaSubscription_createSnapshot ::
  "subsc_env \<Rightarrow> bool \<Rightarrow> bool option \<Rightarrow> mamaSource option \<Rightarrow> string option \<Rightarrow> nat \<Rightarrow> mamaSubscriptionImpl \<Rightarrow>
     (mamaSubscriptionImpl \<times> mama_status) option" where
  "mamaSubscription_createSnapshot env queue callbacks source symbol closure s =
    mamaSubscription_create env queue callbacks source symbol closure
      (s\<lparr>mType := MAMA_SUBSC_TYPE_NORMAL, mServiceLevel := MAMA_SERVICE_LEVEL_SNAPSHOT, mRequiresInitial := True\<rparr>)"

subsection \<open>Basic subscriptions\<close>

definition mamaSubscriptionImpl_completeBasicInitialisation ::
  "subsc_env \<Rightarrow> mamaSubscriptionImpl \<Rightarrow> mamaSubscriptionImpl \<times> mama_status" where
  "mamaSubscriptionImpl_completeBasicInitialisation env s =
    (if mState s \<noteq> MAMA_SUBSCRIPTION_ACTIVATING then (s, MAMA_STATUS_SUBSCRIPTION_INVALID_STATE)
     else
       let s = bridgeMamaSubscriptionCreate env s; ret = eBridgeCreate env
       in if ret = MAMA_STATUS_OK
          then (mamaSubscriptionImpl_setState MAMA_SUBSCRIPTION_ACTIVATED (effect (Created QueueObject) s), ret)
          else (s, ret))"

definition mamaSubscriptionImpl_createBasic ::
  "subsc_env \<Rightarrow> bool \<Rightarrow> bool \<Rightarrow> bool option \<Rightarrow> string option \<Rightarrow> nat \<Rightarrow> mamaSubscriptionImpl \<Rightarrow>
     mamaSubscriptionImpl \<times> mama_status" where
  "mamaSubscriptionImpl_createBasic env transport queue callbacks topic closure s =
    (case topic of
       None \<Rightarrow> (s, MAMA_STATUS_INVALID_ARG)
     | Some tp \<Rightarrow>
         if \<not> transport \<or> tp = [] then (s, MAMA_STATUS_INVALID_ARG)
         else if \<not> queue then (s, MAMA_STATUS_INVALID_QUEUE)
         else if \<not> setup_allowed s then (s, MAMA_STATUS_SUBSCRIPTION_INVALID_STATE)
         else
           let s = s\<lparr>mBridgeImpl := eBridgeImpl env\<rparr>
           in if \<not> mBridgeImpl s then (s, MAMA_STATUS_NO_BRIDGE_IMPL)
              else
                let s = s\<lparr>mClosure := closure, mQueue := True, mRequiresInitial := False,
                          mSubscSymbol := Some (eMapSymbol env tp), mTransport := True,
                          mType := MAMA_SUBSC_TYPE_BASIC, mUserSymbol := Some tp,
                          mOnDestroy := (case callbacks of None \<Rightarrow> mOnDestroy s | Some b \<Rightarrow> b)\<rparr>;
                    (s, ret) = mamaSubscriptionImpl_completeBasicInitialisation env
                                 (mamaSubscriptionImpl_setState MAMA_SUBSCRIPTION_ACTIVATING s)
                in (if ret = MAMA_STATUS_OK then effect OnCreate s else s, ret))"

text \<open>The topic of a wild card is made of the source and the symbol, which the buffer sizes limit.\<close>

definition MAMA_MAX_SYMBOL_LEN :: nat where "MAMA_MAX_SYMBOL_LEN = 128"

definition MAMA_MAX_SOURCE_LEN :: nat where "MAMA_MAX_SOURCE_LEN = 64"

definition mamaSubscription_createBasicWildCard ::
  "subsc_env \<Rightarrow> bool \<Rightarrow> bool \<Rightarrow> bool \<Rightarrow> string option \<Rightarrow> string option \<Rightarrow> nat \<Rightarrow> mamaSubscriptionImpl \<Rightarrow>
     (mamaSubscriptionImpl \<times> mama_status) option" where
  "mamaSubscription_createBasicWildCard env transport queue hasOnDestroy source symbol closure s =
    do { buf \<leftarrow> (case (symbol, source) of
                   (Some sy, Some src) \<Rightarrow> Some (take (MAMA_MAX_SYMBOL_LEN + MAMA_MAX_SOURCE_LEN + 1) (src @ CHR ''.'' # sy))
                 | (Some sy, None) \<Rightarrow> Some (take MAMA_MAX_SYMBOL_LEN sy)
                 | (None, Some src) \<Rightarrow> Some (take MAMA_MAX_SOURCE_LEN src)
                 | (None, None) \<Rightarrow> None);
         Some (mamaSubscriptionImpl_createBasic env transport queue None (Some buf) closure
           (s\<lparr>mWildCardType := (if symbol = None then wc_transport else wc_wildcard), mOnDestroy := hasOnDestroy\<rparr>)) }"

subsection \<open>Deactivation and destruction\<close>

text \<open>The recap request is destroyed by the data quality context, which has it from the first activation on.\<close>

definition mamaSubscription_cleanup :: "mamaSubscriptionImpl \<Rightarrow> mamaSubscriptionImpl" where
  "mamaSubscription_cleanup s =
    (let s = s\<lparr>mTransport := False\<rparr>;
         s = (if mDqStrategy s then effect (Destroyed DqStrategy) (s\<lparr>mDqStrategy := False\<rparr>) else s);
         s = (if mSubscPublisher s then effect (Destroyed Publisher) (s\<lparr>mSubscPublisher := False\<rparr>) else s);
         s = (if mInitialRequest s then effect (Destroyed InitialRequest) (s\<lparr>mInitialRequest := False\<rparr>) else s);
         s = (if mCallback s then effect (Destroyed MsgCallback) (s\<lparr>mCallback := False\<rparr>) else s);
         s = (if mSubjects s then effect (Destroyed SubjectTable) (s\<lparr>mSubjects := False\<rparr>) else s);
         s = (if mContextRecap s then effect (Destroyed RecapRequest) (s\<lparr>mContextRecap := False\<rparr>) else s)
     in s\<lparr>mRecapRequest := False, mContextSymbol := None\<rparr>)"

definition mamaSubscriptionImpl_deallocate :: "mamaSubscriptionImpl \<Rightarrow> mamaSubscriptionImpl" where
  "mamaSubscriptionImpl_deallocate s =
    effect Freed (clearSubscInfo (mamaSubscriptionImpl_setState MAMA_SUBSCRIPTION_DEALLOCATED s))"

text \<open>The callback of the bridge. The lock is recursive, so that the activation inside runs.\<close>

definition mamaSubscriptionImpl_onSubscriptionDestroyed :: "subsc_env \<Rightarrow> mamaSubscriptionImpl \<Rightarrow> mamaSubscriptionImpl" where
  "mamaSubscriptionImpl_onSubscriptionDestroyed env s =
    (let s = (if mQueue s then effect (Destroyed QueueObject) s else s)
     in case mState s of
          MAMA_SUBSCRIPTION_DEACTIVATING \<Rightarrow> mamaSubscriptionImpl_setState MAMA_SUBSCRIPTION_DEACTIVATED s
        | MAMA_SUBSCRIPTION_DEALLOCATING \<Rightarrow>
            mamaSubscriptionImpl_deallocate (mamaSubscriptionImpl_invokeDestroyedCallback (mamaSubscription_cleanup s))
        | MAMA_SUBSCRIPTION_DESTROYING \<Rightarrow>
            mamaSubscriptionImpl_invokeDestroyedCallback
              (mamaSubscriptionImpl_setState MAMA_SUBSCRIPTION_DESTROYED (mamaSubscription_cleanup s))
        | MAMA_SUBSCRIPTION_REACTIVATING \<Rightarrow>
            fst (mamaSubscription_activate env (mamaSubscriptionImpl_setState MAMA_SUBSCRIPTION_DEACTIVATED s))
        | _ \<Rightarrow> s)"

text \<open>The bridge reports the destruction of one of its subscriptions.\<close>

definition bridge_reports :: "subsc_env \<Rightarrow> mamaSubscriptionImpl \<Rightarrow> mamaSubscriptionImpl" where
  "bridge_reports env s =
    mamaSubscriptionImpl_onSubscriptionDestroyed env (s\<lparr>bridgeCallbacks := bridgeCallbacks s - 1\<rparr>)"

definition bridgeMamaSubscriptionDestroy :: "subsc_env \<Rightarrow> mamaSubscriptionImpl \<Rightarrow> mamaSubscriptionImpl" where
  "bridgeMamaSubscriptionDestroy env s =
    (let s = effect (Destroyed BridgeSubscription) (s\<lparr>bridgeCallbacks := bridgeCallbacks s + 1\<rparr>)
     in if eDestroysNow env then bridge_reports env s else s)"

definition mamaSubscription_deactivate_internal :: "subsc_env \<Rightarrow> mamaSubscriptionImpl \<Rightarrow> mamaSubscriptionImpl \<times> mama_status" where
  "mamaSubscription_deactivate_internal env s =
    (let s = (if mInitialRequest s \<and> eWaiting env InitialRequest then effect (StopWait InitialRequest) s else s);
         s = (if mRecapRequest s \<and> eWaiting env RecapRequest then effect (StopWait RecapRequest) s else s);
         s = (if mSubscBridge s then effect MuteBridge s else s);
         s = (if \<not> is_snapshot s \<and> mTransport s then effect RemoveListener s else s);
         s = (if mSubscBridge s \<and> mBridgeImpl s
              then (bridgeMamaSubscriptionDestroy env s)\<lparr>mSubscBridge := False\<rparr> else s)
     in (s, MAMA_STATUS_OK))"

text \<open>Taking the action off the throttle needs the throttle of a transport and a queued action.\<close>

definition wombatThrottle_removeAction :: "mamaSubscriptionImpl \<Rightarrow> mamaSubscriptionImpl option" where
  "wombatThrottle_removeAction s =
    (case mAction s of
       Some h \<Rightarrow> if mTransport s \<and> h \<in> set (throttleQueue s) then Some (s\<lparr>throttleQueue := remove1 h (throttleQueue s)\<rparr>) else None
     | None \<Rightarrow> None)"

definition deactivate_basic :: "subsc_env \<Rightarrow> mamaSubscriptionImpl \<Rightarrow> mamaSubscriptionImpl \<times> mama_status" where
  "deactivate_basic env s =
    (case mState s of
       MAMA_SUBSCRIPTION_ACTIVATED \<Rightarrow>
         mamaSubscription_deactivate_internal env (mamaSubscriptionImpl_setState MAMA_SUBSCRIPTION_DEACTIVATING s)
     | MAMA_SUBSCRIPTION_DEACTIVATING \<Rightarrow> (s, MAMA_STATUS_OK)
     | MAMA_SUBSCRIPTION_DEACTIVATED \<Rightarrow> (s, MAMA_STATUS_OK)
     | _ \<Rightarrow> (s, MAMA_STATUS_SUBSCRIPTION_INVALID_STATE))"

definition mamaSubscription_deactivate ::
  "subsc_env \<Rightarrow> mamaSubscriptionImpl \<Rightarrow> (mamaSubscriptionImpl \<times> mama_status) option" where
  "mamaSubscription_deactivate env s =
    (if mType s = MAMA_SUBSC_TYPE_BASIC then Some (deactivate_basic env s)
     else
       (case mState s of
          MAMA_SUBSCRIPTION_ACTIVATING \<Rightarrow>
            do { s \<leftarrow> wombatThrottle_removeAction s;
                 Some (mamaSubscriptionImpl_setState MAMA_SUBSCRIPTION_DEACTIVATED (s\<lparr>mAction := None\<rparr>), MAMA_STATUS_OK) }
        | MAMA_SUBSCRIPTION_REACTIVATING \<Rightarrow>
            Some (mamaSubscriptionImpl_setState MAMA_SUBSCRIPTION_DEACTIVATING s, MAMA_STATUS_SUBSCRIPTION_INVALID_TYPE)
        | MAMA_SUBSCRIPTION_ACTIVATED \<Rightarrow>
            (let (s, ret) = mamaSubscription_deactivate_internal env (mamaSubscriptionImpl_setState MAMA_SUBSCRIPTION_DEACTIVATING s)
             in Some (if is_snapshot s then mamaSubscriptionImpl_setState MAMA_SUBSCRIPTION_DEACTIVATED s else s, ret))
        | MAMA_SUBSCRIPTION_DEACTIVATING \<Rightarrow> Some (s, MAMA_STATUS_OK)
        | MAMA_SUBSCRIPTION_DEACTIVATED \<Rightarrow> Some (s, MAMA_STATUS_OK)
        | _ \<Rightarrow> Some (s, MAMA_STATUS_SUBSCRIPTION_INVALID_STATE)))"

definition destroy_inactive :: "mamaSubscriptionImpl \<Rightarrow> mamaSubscriptionImpl" where
  "destroy_inactive s =
    mamaSubscriptionImpl_invokeDestroyedCallback
      (mamaSubscriptionImpl_setState MAMA_SUBSCRIPTION_DESTROYED (mamaSubscription_cleanup s))"

text \<open>Destroying has two critical sections, the one of deactivating and this one; other threads may act between them (\<open>subsc_step\<close> in theory \<open>SubscMachine\<close> has both as steps of their own).\<close>

definition destroy_section :: "mamaSubscriptionImpl \<Rightarrow> mamaSubscriptionImpl \<times> mama_status" where
  "destroy_section s =
    (case mState s of
       MAMA_SUBSCRIPTION_SETUP \<Rightarrow> (destroy_inactive s, MAMA_STATUS_OK)
     | MAMA_SUBSCRIPTION_DEACTIVATED \<Rightarrow> (destroy_inactive s, MAMA_STATUS_OK)
     | MAMA_SUBSCRIPTION_DEACTIVATING \<Rightarrow> (mamaSubscriptionImpl_setState MAMA_SUBSCRIPTION_DESTROYING s, MAMA_STATUS_OK)
     | MAMA_SUBSCRIPTION_DESTROYING \<Rightarrow> (s, MAMA_STATUS_OK)
     | MAMA_SUBSCRIPTION_DESTROYED \<Rightarrow> (s, MAMA_STATUS_OK)
     | MAMA_SUBSCRIPTION_ALLOCATED \<Rightarrow> (s, MAMA_STATUS_OK)
     | _ \<Rightarrow> (s, MAMA_STATUS_SUBSCRIPTION_INVALID_STATE))"

definition mamaSubscription_destroy ::
  "subsc_env \<Rightarrow> mamaSubscriptionImpl \<Rightarrow> (mamaSubscriptionImpl \<times> mama_status) option" where
  "mamaSubscription_destroy env s = do { (s, _) \<leftarrow> mamaSubscription_deactivate env s; Some (destroy_section s) }"

definition mamaSubscription_deallocate :: "mamaSubscriptionImpl \<Rightarrow> mamaSubscriptionImpl \<times> mama_status" where
  "mamaSubscription_deallocate s =
    (case mState s of
       MAMA_SUBSCRIPTION_DESTROYING \<Rightarrow> (mamaSubscriptionImpl_setState MAMA_SUBSCRIPTION_DEALLOCATING s, MAMA_STATUS_OK)
     | MAMA_SUBSCRIPTION_ALLOCATED \<Rightarrow> (mamaSubscriptionImpl_deallocate s, MAMA_STATUS_OK)
     | MAMA_SUBSCRIPTION_DESTROYED \<Rightarrow> (mamaSubscriptionImpl_deallocate s, MAMA_STATUS_OK)
     | _ \<Rightarrow> (s, MAMA_STATUS_SUBSCRIPTION_INVALID_STATE))"

subsection \<open>Smaller operations\<close>

definition mamaSubscription_getState :: "mamaSubscriptionImpl \<Rightarrow> mamaSubscriptionState \<times> mama_status" where
  "mamaSubscription_getState s = (mState s, MAMA_STATUS_OK)"

definition mamaSubscription_isValid :: "mamaSubscriptionImpl \<Rightarrow> bool" where
  "mamaSubscription_isValid s \<longleftrightarrow> mState s = MAMA_SUBSCRIPTION_ACTIVATED"

definition mamaSubscription_cancel :: "mamaSubscriptionImpl \<Rightarrow> mamaSubscriptionImpl \<times> mama_status" where
  "mamaSubscription_cancel s =
    (if mBridgeImpl s then (effect MuteBridge s, MAMA_STATUS_OK) else (s, MAMA_STATUS_NO_BRIDGE_IMPL))"

definition mamaSubscription_hasWildcards :: "subsc_env \<Rightarrow> mamaSubscriptionImpl \<Rightarrow> bool" where
  "mamaSubscription_hasWildcards env s \<longleftrightarrow> mBridgeImpl s \<and> eHasWildcards env"

definition mamaSubscriptionImpl_clearTransport :: "mamaSubscriptionImpl \<Rightarrow> mamaSubscriptionImpl" where
  "mamaSubscriptionImpl_clearTransport s = s\<lparr>mTransport := False\<rparr>"

definition mamaSubscription_setGroupSizeHint :: "int \<Rightarrow> mamaSubscriptionImpl \<Rightarrow> mamaSubscriptionImpl \<times> mama_status" where
  "mamaSubscription_setGroupSizeHint groupSizeHint s = (s\<lparr>mGroupSizeHint := groupSizeHint\<rparr>, MAMA_STATUS_OK)"

end
