(* ===== verification/SubscMachine.thy ===== *)
theory SubscMachine
  imports Subscription
begin

text \<open>
  The state machine of a subscription: the application, the throttle and the bridge act in any order and the other
  components answer anything; every state that a subscription goes through is reached over one of the edges listed in \<open>subsc_edges\<close>.
\<close>

subsection \<open>All interleavings\<close>

text \<open>An application that uses the subscription, the throttle, which runs queued actions, and the bridge, which
  reports destructions, in any order. \<open>P\<close> says which answers of the other components are possible and \<open>d\<close> whether
  the application gives a function for the destruction. The application changes the type and the service level
  only before set-up, and does not use a deallocated subscription; the throttle and the bridge do not know. A critical section of an operation is one step;
  destroying is the step \<open>deactivate\<close> and later, after any steps of others, the step \<open>destroy_rest\<close>; \<open>destroy\<close> is both without a step of others between
  them.\<close>

inductive subsc_step :: "(subsc_env \<Rightarrow> bool) \<Rightarrow> bool \<Rightarrow> mamaSubscriptionImpl \<Rightarrow> mamaSubscriptionImpl \<Rightarrow> bool" for P d where
  configure: "setup_allowed s \<Longrightarrow>
    subsc_step P d s (s\<lparr>mType := ty, mServiceLevel := lvl, mRequiresInitial := ri, mGroupSizeHint := n\<rparr>)"
| set_up: "P env \<Longrightarrow> mState s \<noteq> MAMA_SUBSCRIPTION_DEALLOCATED \<Longrightarrow>
    mamaSubscription_setup env queue (Some d) source symbol closure s = Some (s', ret) \<Longrightarrow> subsc_step P d s s'"
| set_up2: "P env \<Longrightarrow> mState s \<noteq> MAMA_SUBSCRIPTION_DEALLOCATED \<Longrightarrow>
    mamaSubscription_setup2 env transport queue (Some d) src symbol closure s = Some (s', ret) \<Longrightarrow> subsc_step P d s s'"
| createBasic: "P env \<Longrightarrow> mState s \<noteq> MAMA_SUBSCRIPTION_DEALLOCATED \<Longrightarrow>
    mamaSubscriptionImpl_createBasic env transport queue (Some d) topic closure s = (s', ret) \<Longrightarrow> subsc_step P d s s'"
| activate: "P env \<Longrightarrow> mState s \<noteq> MAMA_SUBSCRIPTION_DEALLOCATED \<Longrightarrow>
    mamaSubscription_activate env s = (s', ret) \<Longrightarrow> subsc_step P d s s'"
| deactivate: "P env \<Longrightarrow> mState s \<noteq> MAMA_SUBSCRIPTION_DEALLOCATED \<Longrightarrow>
    mamaSubscription_deactivate env s = Some (s', ret) \<Longrightarrow> subsc_step P d s s'"
| destroy: "P env \<Longrightarrow> mState s \<noteq> MAMA_SUBSCRIPTION_DEALLOCATED \<Longrightarrow>
    mamaSubscription_destroy env s = Some (s', ret) \<Longrightarrow> subsc_step P d s s'"
| destroy_rest: "mState s \<noteq> MAMA_SUBSCRIPTION_DEALLOCATED \<Longrightarrow>
    destroy_section s = (s', ret) \<Longrightarrow> subsc_step P d s s'"
| deallocate: "mState s \<noteq> MAMA_SUBSCRIPTION_DEALLOCATED \<Longrightarrow>
    mamaSubscription_deallocate s = (s', ret) \<Longrightarrow> subsc_step P d s s'"
| cancel: "mState s \<noteq> MAMA_SUBSCRIPTION_DEALLOCATED \<Longrightarrow>
    mamaSubscription_cancel s = (s', ret) \<Longrightarrow> subsc_step P d s s'"
| throttle: "P env \<Longrightarrow> h \<in> set (throttleQueue s) \<Longrightarrow>
    subsc_step P d s (createAction env (s\<lparr>throttleQueue := remove1 h (throttleQueue s)\<rparr>))"
| reports: "P env \<Longrightarrow> 0 < bridgeCallbacks s \<Longrightarrow> subsc_step P d s (bridge_reports env s)"

definition subsc_init :: "mamaSubscriptionImpl \<Rightarrow> bool" where
  "subsc_init s \<longleftrightarrow> fst (mamaSubscription_allocate True) = Some s"

subsection \<open>The state machine\<close>

text \<open>The header documents the states; the edges are the changes of state that occur in the code.\<close>

definition subsc_edges :: "(mamaSubscriptionState \<times> mamaSubscriptionState) list" where
  "subsc_edges =
    [(MAMA_SUBSCRIPTION_ALLOCATED, MAMA_SUBSCRIPTION_SETUP), (MAMA_SUBSCRIPTION_ALLOCATED, MAMA_SUBSCRIPTION_ACTIVATING),
     (MAMA_SUBSCRIPTION_ALLOCATED, MAMA_SUBSCRIPTION_DEALLOCATED), (MAMA_SUBSCRIPTION_SETUP, MAMA_SUBSCRIPTION_ACTIVATING),
     (MAMA_SUBSCRIPTION_SETUP, MAMA_SUBSCRIPTION_DESTROYED), (MAMA_SUBSCRIPTION_ACTIVATING, MAMA_SUBSCRIPTION_ACTIVATED),
     (MAMA_SUBSCRIPTION_ACTIVATING, MAMA_SUBSCRIPTION_DEACTIVATED), (MAMA_SUBSCRIPTION_ACTIVATED, MAMA_SUBSCRIPTION_DEACTIVATING),
     (MAMA_SUBSCRIPTION_DEACTIVATING, MAMA_SUBSCRIPTION_DEACTIVATED), (MAMA_SUBSCRIPTION_DEACTIVATING, MAMA_SUBSCRIPTION_REACTIVATING),
     (MAMA_SUBSCRIPTION_DEACTIVATING, MAMA_SUBSCRIPTION_DESTROYING), (MAMA_SUBSCRIPTION_REACTIVATING, MAMA_SUBSCRIPTION_DEACTIVATING),
     (MAMA_SUBSCRIPTION_REACTIVATING, MAMA_SUBSCRIPTION_DEACTIVATED), (MAMA_SUBSCRIPTION_DEACTIVATED, MAMA_SUBSCRIPTION_ACTIVATING),
     (MAMA_SUBSCRIPTION_DEACTIVATED, MAMA_SUBSCRIPTION_DESTROYED), (MAMA_SUBSCRIPTION_DESTROYING, MAMA_SUBSCRIPTION_DESTROYED),
     (MAMA_SUBSCRIPTION_DESTROYING, MAMA_SUBSCRIPTION_DEALLOCATING), (MAMA_SUBSCRIPTION_DEALLOCATING, MAMA_SUBSCRIPTION_DEALLOCATED),
     (MAMA_SUBSCRIPTION_DESTROYED, MAMA_SUBSCRIPTION_SETUP), (MAMA_SUBSCRIPTION_DESTROYED, MAMA_SUBSCRIPTION_ACTIVATING),
     (MAMA_SUBSCRIPTION_DESTROYED, MAMA_SUBSCRIPTION_DEALLOCATED)]"

fun logged_state :: "subsc_effect \<Rightarrow> mamaSubscriptionState option" where
  "logged_state (StateLog st) = Some st"
| "logged_state _ = None"

text \<open>The states so far, the latest first, and that they are a path of the state machine.\<close>

definition trace_of :: "subsc_effect list \<Rightarrow> mamaSubscriptionState list" where
  "trace_of es = List.map_filter logged_state es"

abbreviation state_trace :: "mamaSubscriptionImpl \<Rightarrow> mamaSubscriptionState list" where
  "state_trace s \<equiv> trace_of (effects s)"

definition path_ok :: "mamaSubscriptionState \<Rightarrow> mamaSubscriptionState list \<Rightarrow> bool" where
  "path_ok st ts \<longleftrightarrow> ts \<noteq> [] \<and> hd ts = st \<and> last ts = MAMA_SUBSCRIPTION_ALLOCATED \<and>
     successively (\<lambda>new old. (old, new) \<in> set subsc_edges) ts"

abbreviation trace_ok :: "mamaSubscriptionImpl \<Rightarrow> bool" where
  "trace_ok s \<equiv> path_ok (mState s) (state_trace s)"

lemma trace_of_simps [simp]:
  "trace_of [] = []" "trace_of (StateLog st # es) = st # trace_of es"
  "logged_state e = None \<Longrightarrow> trace_of (e # es) = trace_of es"
  by (simp_all add: trace_of_def map_filter_simps)

lemma path_ok_Cons [simp]:
  "path_ok st ts \<Longrightarrow> path_ok st' (st' # ts) \<longleftrightarrow> (st, st') \<in> set subsc_edges"
  "path_ok st ts \<Longrightarrow> path_ok st'' (st'' # st' # ts) \<longleftrightarrow> (st, st') \<in> set subsc_edges \<and> (st', st'') \<in> set subsc_edges"
  by (auto simp: path_ok_def successively_Cons)

lemma effect_fields [simp]:
  "effects (effect e s) = e # effects s" "mState (effect e s) = mState s" "mType (effect e s) = mType s"
  "mSubscMsgType (effect e s) = mSubscMsgType s" "mRequiresInitial (effect e s) = mRequiresInitial s"
  "mTransport (effect e s) = mTransport s" "mQueue (effect e s) = mQueue s" "mBridgeImpl (effect e s) = mBridgeImpl s"
  "mSubscBridge (effect e s) = mSubscBridge s" "mContextRecap (effect e s) = mContextRecap s" "mOnDestroy (effect e s) = mOnDestroy s"
  "mSubscPublisher (effect e s) = mSubscPublisher s" "mInitialRequest (effect e s) = mInitialRequest s"
  "mRecapRequest (effect e s) = mRecapRequest s" "mCallback (effect e s) = mCallback s" "mDqStrategy (effect e s) = mDqStrategy s"
  "mSubjects (effect e s) = mSubjects s" "mAction (effect e s) = mAction s" "throttleQueue (effect e s) = throttleQueue s"
  "bridgeCallbacks (effect e s) = bridgeCallbacks s"
  by (simp_all add: effect_def)

lemma setState_fields [simp]:
  "effects (mamaSubscriptionImpl_setState st s) = StateLog st # effects s" "mState (mamaSubscriptionImpl_setState st s) = st"
  "mType (mamaSubscriptionImpl_setState st s) = mType s" "mSubscMsgType (mamaSubscriptionImpl_setState st s) = mSubscMsgType s"
  "mRequiresInitial (mamaSubscriptionImpl_setState st s) = mRequiresInitial s" "mTransport (mamaSubscriptionImpl_setState st s) = mTransport s"
  "mQueue (mamaSubscriptionImpl_setState st s) = mQueue s" "mBridgeImpl (mamaSubscriptionImpl_setState st s) = mBridgeImpl s"
  "mSubscBridge (mamaSubscriptionImpl_setState st s) = mSubscBridge s" "mContextRecap (mamaSubscriptionImpl_setState st s) = mContextRecap s"
  "mOnDestroy (mamaSubscriptionImpl_setState st s) = mOnDestroy s" "mSubscPublisher (mamaSubscriptionImpl_setState st s) = mSubscPublisher s"
  "mInitialRequest (mamaSubscriptionImpl_setState st s) = mInitialRequest s" "mRecapRequest (mamaSubscriptionImpl_setState st s) = mRecapRequest s"
  "mCallback (mamaSubscriptionImpl_setState st s) = mCallback s" "mDqStrategy (mamaSubscriptionImpl_setState st s) = mDqStrategy s"
  "mSubjects (mamaSubscriptionImpl_setState st s) = mSubjects s" "mAction (mamaSubscriptionImpl_setState st s) = mAction s"
  "throttleQueue (mamaSubscriptionImpl_setState st s) = throttleQueue s" "bridgeCallbacks (mamaSubscriptionImpl_setState st s) = bridgeCallbacks s"
  by (simp_all add: mamaSubscriptionImpl_setState_def)

text \<open>Operations that stay in their state.\<close>

lemma trace_setSubscInfo [simp]:
  "mState (setSubscInfo env root src sy s) = mState s" "effects (setSubscInfo env root src sy s) = effects s"
  by (auto simp: setSubscInfo_def Let_def split: option.splits)

lemma trace_initialize [simp]:
  "mState (mamaSubscription_initialize env s) = mState s" "state_trace (mamaSubscription_initialize env s) = state_trace s"
  by (auto simp: mamaSubscription_initialize_def bridgeMamaSubscriptionCreate_def configureForMultipleTopics_def Let_def)

lemma trace_cleanup [simp]:
  "mState (mamaSubscription_cleanup s) = mState s" "state_trace (mamaSubscription_cleanup s) = state_trace s"
  by (simp_all add: mamaSubscription_cleanup_def Let_def)

lemma trace_callback [simp]:
  "mState (mamaSubscriptionImpl_invokeDestroyedCallback s) = mState s"
  "state_trace (mamaSubscriptionImpl_invokeDestroyedCallback s) = state_trace s"
  by (simp_all add: mamaSubscriptionImpl_invokeDestroyedCallback_def)

lemma trace_deallocate [simp]:
  "mState (mamaSubscriptionImpl_deallocate s) = MAMA_SUBSCRIPTION_DEALLOCATED"
  "state_trace (mamaSubscriptionImpl_deallocate s) = MAMA_SUBSCRIPTION_DEALLOCATED # state_trace s"
  by (simp_all add: mamaSubscriptionImpl_deallocate_def clearSubscInfo_def)

lemma trace_createAction: "trace_ok s \<Longrightarrow> trace_ok (createAction env s)"
  by (auto simp: createAction_def mamaSubscriptionImpl_completeMarketDataInitialisation_def subsc_edges_def Let_def)

lemma trace_activate: "trace_ok s \<Longrightarrow> trace_ok (fst (mamaSubscription_activate env s))"
  by (cases "mState s")
    (auto simp: mamaSubscription_activate_def mamaSubscription_activate_internal_def mamaTransport_throttleAction_def
      subsc_edges_def intro!: trace_createAction split: throttle_outcome.splits)

lemma trace_onDestroyed: "trace_ok s \<Longrightarrow> trace_ok (mamaSubscriptionImpl_onSubscriptionDestroyed env s)"
  by (cases "mState s")
    (auto simp: mamaSubscriptionImpl_onSubscriptionDestroyed_def subsc_edges_def Let_def intro!: trace_activate)

text \<open>A bridge subscription exists only in the active state, and not for snapshots.\<close>

definition bridge_ok :: "mamaSubscriptionImpl \<Rightarrow> bool" where
  "bridge_ok s \<longleftrightarrow> (mSubscBridge s \<longrightarrow> mState s = MAMA_SUBSCRIPTION_ACTIVATED \<and> (mType s = MAMA_SUBSC_TYPE_BASIC \<or> \<not> is_snapshot s))"

lemma setSubscInfo_fields [simp]:
  "mSubscBridge (setSubscInfo env root src sy s) = mSubscBridge s" "mTransport (setSubscInfo env root src sy s) = mTransport s"
  "mQueue (setSubscInfo env root src sy s) = mQueue s" "mBridgeImpl (setSubscInfo env root src sy s) = mBridgeImpl s"
  "mType (setSubscInfo env root src sy s) = mType s" "mSubscMsgType (setSubscInfo env root src sy s) = mSubscMsgType s"
  "mOnDestroy (setSubscInfo env root src sy s) = mOnDestroy s" "mAction (setSubscInfo env root src sy s) = mAction s"
  "throttleQueue (setSubscInfo env root src sy s) = throttleQueue s" "bridgeCallbacks (setSubscInfo env root src sy s) = bridgeCallbacks s"
  by (auto simp: setSubscInfo_def Let_def split: option.splits)

lemma initialize_fields [simp]:
  "mSubscBridge (mamaSubscription_initialize env s) = (mSubscBridge s \<or> \<not> is_snapshot s \<and> eBridgeCreate env = MAMA_STATUS_OK)"
  "mTransport (mamaSubscription_initialize env s) = mTransport s" "mQueue (mamaSubscription_initialize env s) = mQueue s"
  "mBridgeImpl (mamaSubscription_initialize env s) = mBridgeImpl s" "mType (mamaSubscription_initialize env s) = mType s"
  "mSubscMsgType (mamaSubscription_initialize env s) = mSubscMsgType s" "mOnDestroy (mamaSubscription_initialize env s) = mOnDestroy s"
  "mAction (mamaSubscription_initialize env s) = mAction s" "throttleQueue (mamaSubscription_initialize env s) = throttleQueue s"
  "bridgeCallbacks (mamaSubscription_initialize env s) = bridgeCallbacks s"
  by (auto simp: mamaSubscription_initialize_def bridgeMamaSubscriptionCreate_def configureForMultipleTopics_def Let_def)

lemma cleanup_fields [simp]:
  "mSubscBridge (mamaSubscription_cleanup s) = mSubscBridge s" "mTransport (mamaSubscription_cleanup s) = False"
  "mQueue (mamaSubscription_cleanup s) = mQueue s" "mBridgeImpl (mamaSubscription_cleanup s) = mBridgeImpl s"
  "mType (mamaSubscription_cleanup s) = mType s" "mSubscMsgType (mamaSubscription_cleanup s) = mSubscMsgType s"
  "mOnDestroy (mamaSubscription_cleanup s) = mOnDestroy s" "mAction (mamaSubscription_cleanup s) = mAction s"
  "throttleQueue (mamaSubscription_cleanup s) = throttleQueue s" "bridgeCallbacks (mamaSubscription_cleanup s) = bridgeCallbacks s"
  by (simp_all add: mamaSubscription_cleanup_def Let_def)

lemma callback_fields [simp]:
  "mSubscBridge (mamaSubscriptionImpl_invokeDestroyedCallback s) = mSubscBridge s"
  "mTransport (mamaSubscriptionImpl_invokeDestroyedCallback s) = mTransport s"
  "mQueue (mamaSubscriptionImpl_invokeDestroyedCallback s) = mQueue s"
  "mBridgeImpl (mamaSubscriptionImpl_invokeDestroyedCallback s) = mBridgeImpl s"
  "mType (mamaSubscriptionImpl_invokeDestroyedCallback s) = mType s"
  "mSubscMsgType (mamaSubscriptionImpl_invokeDestroyedCallback s) = mSubscMsgType s"
  "mOnDestroy (mamaSubscriptionImpl_invokeDestroyedCallback s) = mOnDestroy s"
  "mAction (mamaSubscriptionImpl_invokeDestroyedCallback s) = mAction s"
  "throttleQueue (mamaSubscriptionImpl_invokeDestroyedCallback s) = throttleQueue s"
  "bridgeCallbacks (mamaSubscriptionImpl_invokeDestroyedCallback s) = bridgeCallbacks s"
  by (simp_all add: mamaSubscriptionImpl_invokeDestroyedCallback_def)

lemma deallocate_fields [simp]:
  "mSubscBridge (mamaSubscriptionImpl_deallocate s) = mSubscBridge s" "mTransport (mamaSubscriptionImpl_deallocate s) = mTransport s"
  "mQueue (mamaSubscriptionImpl_deallocate s) = mQueue s" "mBridgeImpl (mamaSubscriptionImpl_deallocate s) = mBridgeImpl s"
  "mType (mamaSubscriptionImpl_deallocate s) = mType s" "mSubscMsgType (mamaSubscriptionImpl_deallocate s) = mSubscMsgType s"
  "mOnDestroy (mamaSubscriptionImpl_deallocate s) = mOnDestroy s" "mAction (mamaSubscriptionImpl_deallocate s) = mAction s"
  "throttleQueue (mamaSubscriptionImpl_deallocate s) = throttleQueue s" "bridgeCallbacks (mamaSubscriptionImpl_deallocate s) = bridgeCallbacks s"
  by (simp_all add: mamaSubscriptionImpl_deallocate_def clearSubscInfo_def)

lemma is_snapshot_cong: "mSubscMsgType s' = mSubscMsgType s \<Longrightarrow> is_snapshot s' = is_snapshot s"
  by (simp add: is_snapshot_def)

lemmas snapshot_simps [simp] =
  is_snapshot_cong [of "effect e s" s for e s, simplified]
  is_snapshot_cong [of "mamaSubscriptionImpl_setState st s" s for st s, simplified]
  is_snapshot_cong [of "mamaSubscription_initialize env s" s for env s, simplified]
  is_snapshot_cong [of "mamaSubscription_cleanup s" s for s, simplified]
  is_snapshot_cong [of "mamaSubscriptionImpl_invokeDestroyedCallback s" s for s, simplified]
  is_snapshot_cong [of "mamaSubscriptionImpl_deallocate s" s for s, simplified]

text \<open>The deactivation of an active subscription.\<close>

definition deactivating :: "subsc_env \<Rightarrow> mamaSubscriptionImpl \<Rightarrow> mamaSubscriptionImpl" where
  "deactivating env s = fst (mamaSubscription_deactivate_internal env (mamaSubscriptionImpl_setState MAMA_SUBSCRIPTION_DEACTIVATING s))"

lemma deactivate_internal_pair:
  "mamaSubscription_deactivate_internal env s = (fst (mamaSubscription_deactivate_internal env s), MAMA_STATUS_OK)"
  by (simp add: mamaSubscription_deactivate_internal_def Let_def)

definition reports_now :: "subsc_env \<Rightarrow> mamaSubscriptionImpl \<Rightarrow> bool" where
  "reports_now env s \<longleftrightarrow> mSubscBridge s \<and> mBridgeImpl s \<and> eDestroysNow env"

lemma deactivating_fields [simp]:
  "mState (deactivating env s) = (if reports_now env s then MAMA_SUBSCRIPTION_DEACTIVATED else MAMA_SUBSCRIPTION_DEACTIVATING)"
  "state_trace (deactivating env s) =
     (if reports_now env s then [MAMA_SUBSCRIPTION_DEACTIVATED, MAMA_SUBSCRIPTION_DEACTIVATING] else [MAMA_SUBSCRIPTION_DEACTIVATING]) @ state_trace s"
  "mSubscBridge (deactivating env s) = (mSubscBridge s \<and> \<not> mBridgeImpl s)"
  "mTransport (deactivating env s) = mTransport s" "mQueue (deactivating env s) = mQueue s"
  "mBridgeImpl (deactivating env s) = mBridgeImpl s" "mType (deactivating env s) = mType s"
  "mSubscMsgType (deactivating env s) = mSubscMsgType s" "mOnDestroy (deactivating env s) = mOnDestroy s"
  "mAction (deactivating env s) = mAction s" "throttleQueue (deactivating env s) = throttleQueue s"
  "bridgeCallbacks (deactivating env s) = bridgeCallbacks s + of_bool (mSubscBridge s \<and> mBridgeImpl s \<and> \<not> eDestroysNow env)"
  by (simp_all add: deactivating_def mamaSubscription_deactivate_internal_def bridgeMamaSubscriptionDestroy_def
      bridge_reports_def mamaSubscriptionImpl_onSubscriptionDestroyed_def reports_now_def Let_def)

definition is_set_up :: "mamaSubscriptionState \<Rightarrow> bool" where
  "is_set_up st \<longleftrightarrow> st \<notin> {MAMA_SUBSCRIPTION_UNKNOWN, MAMA_SUBSCRIPTION_ALLOCATED, MAMA_SUBSCRIPTION_DESTROYED, MAMA_SUBSCRIPTION_DEALLOCATED}"

definition machine_inv :: "mamaSubscriptionImpl \<Rightarrow> bool" where
  "machine_inv s \<longleftrightarrow> trace_ok s \<and> bridge_ok s \<and> (is_set_up (mState s) \<longrightarrow> mBridgeImpl s)"

lemmas machine_defs = machine_inv_def bridge_ok_def is_set_up_def subsc_edges_def

text \<open>Whether all objects of a set-up can be created.\<close>

definition objects_ok :: "subsc_env \<Rightarrow> bool" where
  "objects_ok env \<longleftrightarrow> (\<forall>st \<in> {ePublisher env, eInitialRequest env, eRecapRequest env, eCallback env, eDqStrategy env}. st = MAMA_STATUS_OK)"

lemma setup_objects_fields [simp]:
  "mState (fst (setup_objects env s)) = (if objects_ok env then MAMA_SUBSCRIPTION_SETUP else mState s)"
  "state_trace (fst (setup_objects env s)) = (if objects_ok env then [MAMA_SUBSCRIPTION_SETUP] else []) @ state_trace s"
  "mSubscBridge (fst (setup_objects env s)) = mSubscBridge s" "mTransport (fst (setup_objects env s)) = mTransport s"
  "mQueue (fst (setup_objects env s)) = mQueue s" "mBridgeImpl (fst (setup_objects env s)) = mBridgeImpl s"
  "mType (fst (setup_objects env s)) = mType s" "mSubscMsgType (fst (setup_objects env s)) = mSubscMsgType s"
  "mOnDestroy (fst (setup_objects env s)) = mOnDestroy s" "mAction (fst (setup_objects env s)) = mAction s"
  "throttleQueue (fst (setup_objects env s)) = throttleQueue s" "bridgeCallbacks (fst (setup_objects env s)) = bridgeCallbacks s"
  by (simp_all add: setup_objects_def objects_ok_def Let_def)

text \<open>A set-up either fails early, leaving all but the fields that it fills in, or creates the objects.\<close>

definition same_life :: "mamaSubscriptionImpl \<Rightarrow> mamaSubscriptionImpl \<Rightarrow> bool" where
  "same_life s s' \<longleftrightarrow> mState s' = mState s \<and> mType s' = mType s \<and> mSubscBridge s' = mSubscBridge s \<and> mAction s' = mAction s \<and>
     throttleQueue s' = throttleQueue s \<and> bridgeCallbacks s' = bridgeCallbacks s \<and> effects s' = effects s \<and>
     mSubscPublisher s' = mSubscPublisher s \<and> mInitialRequest s' = mInitialRequest s \<and> mRecapRequest s' = mRecapRequest s \<and>
     mCallback s' = mCallback s \<and> mDqStrategy s' = mDqStrategy s \<and> mContextRecap s' = mContextRecap s \<and> mSubjects s' = mSubjects s"

lemma setSubscInfo_same [simp]: "same_life s (setSubscInfo env root src sy s') = same_life s s'"
  by (auto simp: setSubscInfo_def same_life_def Let_def split: option.splits)

lemma setup_fields_effects [simp]:
  "same_life s (setup_fields env cbs src c settings s') = same_life s s'"
  "mTransport (setup_fields env cbs src c settings s')" "mQueue (setup_fields env cbs src c settings s')"
  "mBridgeImpl (setup_fields env cbs src c settings s') = mBridgeImpl s'"
  "mOnDestroy (setup_fields env (Some d) src c settings s') = d"
  by (auto simp: setup_fields_def same_life_def setSubscInfo_def Let_def split: prod.splits option.splits)

lemma setupBasic_cases:
  assumes "mamaSubscription_setupBasic env tr q cbs src sy c s = Some (s', ret)"
  obtains "same_life s s'" "mSubscMsgType s' = mSubscMsgType s"
  | s0 where "s' = fst (setup_objects env s0)" "same_life s s0" "mTransport s0" "mQueue s0" "mBridgeImpl s0"
      "mType s \<noteq> MAMA_SUBSC_TYPE_BASIC" "\<And>d. cbs = Some d \<Longrightarrow> mOnDestroy s0 = d"
proof (cases "tr \<and> q \<and> eBridgeImpl env")
  case False
  then have "same_life s s' \<and> mSubscMsgType s' = mSubscMsgType s"
    using assms by (auto simp: mamaSubscription_setupBasic_def same_life_def Let_def split: if_splits)
  then show ?thesis using that(1) by blast
next
  case True
  then obtain y where y: "sy = Some y" using assms by (auto simp: mamaSubscription_setupBasic_def split: bind_splits)
  let ?s = "s\<lparr>mBridgeImpl := True, mContextSymbol := Some y\<rparr>"
  have l: "same_life s ?s" by (simp add: same_life_def)
  show ?thesis
  proof (cases "Option.bind (service_level_msg_type ?s) (\<lambda>mt. type_settings (mType s) mt y)")
    case None
    then have "s' = ?s" using assms True y
      by (auto simp: mamaSubscription_setupBasic_def split: bind_splits option.splits)
    then show ?thesis using l that(1) by simp
  next
    case (Some settings)
    then have "(s', ret) = setup_objects env (setup_fields env cbs src c settings ?s)" "mType s \<noteq> MAMA_SUBSC_TYPE_BASIC"
      using assms True y by (auto simp: mamaSubscription_setupBasic_def type_settings_def split: bind_splits option.splits)
    then show ?thesis using l by (intro that(2) [of "setup_fields env cbs src c settings ?s"]) (auto dest: arg_cong [of _ _ fst])
  qed
qed

lemma machine_setup:
  assumes "machine_inv s" and "setup_allowed s"
    and "mamaSubscription_setupBasic env tr q cbs src sy c s = Some (s', ret)"
  shows "machine_inv s'"
  using assms(3)
proof (cases rule: setupBasic_cases)
  case 1
  then have s0: "mState s' = mState s" "mSubscBridge s' = mSubscBridge s" "effects s' = effects s"
    by (simp_all add: same_life_def)
  then show ?thesis using assms(1,2) by (auto simp: machine_inv_def bridge_ok_def is_set_up_def setup_allowed_def)
next
  case (2 s0)
  then have s0: "mState s0 = mState s" "mSubscBridge s0 = mSubscBridge s" "effects s0 = effects s"
    by (simp_all add: same_life_def)
  have s: "path_ok (mState s) (state_trace s)" "\<not> mSubscBridge s"
    "mState s = MAMA_SUBSCRIPTION_ALLOCATED \<or> mState s = MAMA_SUBSCRIPTION_DESTROYED"
    using assms(1,2) by (auto simp: machine_inv_def bridge_ok_def setup_allowed_def)
  show ?thesis
    using s(3) s(1,2) s0 2(5) unfolding 2(1) by (elim disjE) (simp_all add: machine_defs)
qed

lemma machine_createAction: "machine_inv s \<Longrightarrow> machine_inv (createAction env s)"
  using trace_createAction [of s env]
  by (auto simp: createAction_def mamaSubscriptionImpl_completeMarketDataInitialisation_def machine_inv_def bridge_ok_def is_set_up_def is_snapshot_def Let_def)

lemma machine_activate:
  assumes "machine_inv s" shows "machine_inv (fst (mamaSubscription_activate env s))"
proof -
  have "machine_inv (fst (mamaSubscription_activate_internal env (mamaSubscriptionImpl_setState MAMA_SUBSCRIPTION_ACTIVATING s)))"
    if "mState s = MAMA_SUBSCRIPTION_DEACTIVATED \<or> mState s = MAMA_SUBSCRIPTION_SETUP"
  proof -
    have "machine_inv (mamaSubscriptionImpl_setState MAMA_SUBSCRIPTION_ACTIVATING s)" using assms that by (auto simp: machine_defs)
    then show ?thesis
      by (auto simp: mamaSubscription_activate_internal_def mamaTransport_throttleAction_def
          intro!: machine_createAction split: throttle_outcome.splits) (auto simp: machine_inv_def bridge_ok_def is_snapshot_def)
  qed
  moreover have "machine_inv (mamaSubscriptionImpl_setState MAMA_SUBSCRIPTION_REACTIVATING s)"
    if "mState s = MAMA_SUBSCRIPTION_DEACTIVATING"
    using assms that by (auto simp: machine_defs)
  ultimately show ?thesis using assms by (cases "mState s") (auto simp: mamaSubscription_activate_def)
qed

text \<open>The subscription after the first step of the callback of the bridge.\<close>

definition reported :: "mamaSubscriptionImpl \<Rightarrow> mamaSubscriptionImpl" where
  "reported s =
    (let s = s\<lparr>bridgeCallbacks := bridgeCallbacks s - 1\<rparr> in if mQueue s then effect (Destroyed QueueObject) s else s)"

lemma reported_fields [simp]:
  "mState (reported s) = mState s" "state_trace (reported s) = state_trace s" "mType (reported s) = mType s"
  "mSubscMsgType (reported s) = mSubscMsgType s" "mTransport (reported s) = mTransport s" "mQueue (reported s) = mQueue s"
  "mBridgeImpl (reported s) = mBridgeImpl s" "mSubscBridge (reported s) = mSubscBridge s" "mOnDestroy (reported s) = mOnDestroy s"
  "mAction (reported s) = mAction s" "throttleQueue (reported s) = throttleQueue s" "bridgeCallbacks (reported s) = bridgeCallbacks s - 1"
  by (simp_all add: reported_def Let_def)

lemma bridge_reports_eq:
  "bridge_reports env s =
    (case mState s of
       MAMA_SUBSCRIPTION_DEACTIVATING \<Rightarrow> mamaSubscriptionImpl_setState MAMA_SUBSCRIPTION_DEACTIVATED (reported s)
     | MAMA_SUBSCRIPTION_DEALLOCATING \<Rightarrow>
         mamaSubscriptionImpl_deallocate (mamaSubscriptionImpl_invokeDestroyedCallback (mamaSubscription_cleanup (reported s)))
     | MAMA_SUBSCRIPTION_DESTROYING \<Rightarrow> destroy_inactive (reported s)
     | MAMA_SUBSCRIPTION_REACTIVATING \<Rightarrow>
         fst (mamaSubscription_activate env (mamaSubscriptionImpl_setState MAMA_SUBSCRIPTION_DEACTIVATED (reported s)))
     | _ \<Rightarrow> reported s)"
  by (cases "mState s") (simp_all add: bridge_reports_def mamaSubscriptionImpl_onSubscriptionDestroyed_def reported_def destroy_inactive_def Let_def)

lemma machine_destroy_inactive:
  assumes "machine_inv s" and "mState s \<in> {MAMA_SUBSCRIPTION_SETUP, MAMA_SUBSCRIPTION_DEACTIVATED, MAMA_SUBSCRIPTION_DESTROYING}"
  shows "machine_inv (destroy_inactive s)"
  using assms by (auto simp: destroy_inactive_def machine_defs)

lemma machine_reports:
  assumes "machine_inv s" shows "machine_inv (bridge_reports env s)"
proof -
  have i: "machine_inv (reported s)" using assms by (auto simp: machine_inv_def bridge_ok_def is_snapshot_def)
  have "machine_inv (mamaSubscriptionImpl_setState MAMA_SUBSCRIPTION_DEACTIVATED (reported s))"
    if "mState s = MAMA_SUBSCRIPTION_DEACTIVATING \<or> mState s = MAMA_SUBSCRIPTION_REACTIVATING"
    using assms that by (auto simp: machine_defs)
  moreover have "machine_inv (mamaSubscriptionImpl_deallocate (mamaSubscriptionImpl_invokeDestroyedCallback (mamaSubscription_cleanup (reported s))))"
    if "mState s = MAMA_SUBSCRIPTION_DEALLOCATING"
    using assms that by (auto simp: machine_defs)
  ultimately show ?thesis using i
    by (cases "mState s") (auto simp: bridge_reports_eq intro!: machine_activate machine_destroy_inactive)
qed

lemma deactivate_market:
  assumes "mType s \<noteq> MAMA_SUBSC_TYPE_BASIC" and "mState s = MAMA_SUBSCRIPTION_ACTIVATED"
  shows "mamaSubscription_deactivate env s =
    Some (if is_snapshot s then mamaSubscriptionImpl_setState MAMA_SUBSCRIPTION_DEACTIVATED (deactivating env s) else deactivating env s, MAMA_STATUS_OK)"
proof -
  let ?d = "mamaSubscription_deactivate_internal env (mamaSubscriptionImpl_setState MAMA_SUBSCRIPTION_DEACTIVATING s)"
  have "?d = (deactivating env s, MAMA_STATUS_OK)" by (subst deactivate_internal_pair) (simp add: deactivating_def)
  moreover have "is_snapshot (deactivating env s) = is_snapshot s" by (simp add: is_snapshot_def)
  ultimately show ?thesis using assms by (simp add: mamaSubscription_deactivate_def)
qed

lemma deactivate_active_basic:
  assumes "mType s = MAMA_SUBSC_TYPE_BASIC" and "mState s = MAMA_SUBSCRIPTION_ACTIVATED"
  shows "mamaSubscription_deactivate env s = Some (deactivating env s, MAMA_STATUS_OK)"
  using assms by (simp add: mamaSubscription_deactivate_def deactivate_basic_def deactivating_def) (subst deactivate_internal_pair, simp)

lemma machine_deactivating:
  assumes "machine_inv s" and "mState s = MAMA_SUBSCRIPTION_ACTIVATED"
  shows "machine_inv (deactivating env s)"
  using assms by (auto simp: machine_defs reports_now_def path_ok_def successively_Cons neq_Nil_conv)

lemma machine_deactivate:
  assumes "machine_inv s" and "mamaSubscription_deactivate env s = Some (s', ret)"
  shows "machine_inv s'"
proof (cases "mState s = MAMA_SUBSCRIPTION_ACTIVATED")
  case True
  note d = machine_deactivating [OF assms(1) True, of env]
  have "machine_inv (mamaSubscriptionImpl_setState MAMA_SUBSCRIPTION_DEACTIVATED (deactivating env s))"
    if "is_snapshot s" "mType s \<noteq> MAMA_SUBSC_TYPE_BASIC"
    using d that assms(1) True by (auto simp: machine_inv_def bridge_ok_def is_set_up_def subsc_edges_def is_snapshot_def reports_now_def)
  then show ?thesis
    using assms(2) d True deactivate_market [of s env] deactivate_active_basic [of s env]
    by (cases "mType s = MAMA_SUBSC_TYPE_BASIC") (auto split: if_splits)
next
  case False
  consider (basic) "mType s = MAMA_SUBSC_TYPE_BASIC" | (market) "mType s \<noteq> MAMA_SUBSC_TYPE_BASIC" by blast
  then show ?thesis
  proof cases
    case basic
    then show ?thesis using assms False by (cases "mState s") (simp_all add: mamaSubscription_deactivate_def deactivate_basic_def)
  next
    case market
    show ?thesis
      using assms False market
      by (cases "mState s")
        (auto simp: mamaSubscription_deactivate_def wombatThrottle_removeAction_def machine_defs split: if_splits option.splits)
  qed
qed

lemma machine_section:
  assumes "machine_inv s" shows "machine_inv (fst (destroy_section s))"
proof -
  have "machine_inv (mamaSubscriptionImpl_setState MAMA_SUBSCRIPTION_DESTROYING s)"
    if "mState s = MAMA_SUBSCRIPTION_DEACTIVATING" using assms that by (auto simp: machine_defs)
  then show ?thesis using assms by (cases "mState s") (auto simp: destroy_section_def intro: machine_destroy_inactive)
qed

lemma destroy_parts:
  assumes "mamaSubscription_destroy env s = Some (s', ret)"
  obtains s1 r where "mamaSubscription_deactivate env s = Some (s1, r)" "destroy_section s1 = (s', ret)"
  using assms by (auto simp: mamaSubscription_destroy_def split: bind_splits)

lemma machine_destroy:
  assumes "machine_inv s" and "mamaSubscription_destroy env s = Some (s', ret)"
  shows "machine_inv s'"
  using assms(2) by (rule destroy_parts) (metis assms(1) machine_deactivate machine_section fst_conv)

lemma machine_deallocate: "machine_inv s \<Longrightarrow> machine_inv (fst (mamaSubscription_deallocate s))"
  by (cases "mState s") (auto simp: mamaSubscription_deallocate_def machine_defs)

lemma machine_basic:
  assumes "machine_inv s" shows "machine_inv (fst (mamaSubscriptionImpl_createBasic env tr q cbs tp c s))"
proof -
  have "path_ok (mState s) (state_trace s)" "bridge_ok s" using assms by (simp_all add: machine_inv_def)
  then show ?thesis using assms
    by (auto simp: mamaSubscriptionImpl_createBasic_def mamaSubscriptionImpl_completeBasicInitialisation_def setup_allowed_def
        bridgeMamaSubscriptionCreate_def bridge_ok_def is_set_up_def subsc_edges_def machine_inv_def is_snapshot_def Let_def
        split: option.splits)
qed

lemma machine_configure:
  assumes "machine_inv s" and "setup_allowed s"
  shows "machine_inv (s\<lparr>mType := ty, mServiceLevel := lvl, mRequiresInitial := ri, mGroupSizeHint := n\<rparr>)"
  using assms by (auto simp: machine_inv_def bridge_ok_def setup_allowed_def)

lemma machine_cancel: "machine_inv s \<Longrightarrow> machine_inv (fst (mamaSubscription_cancel s))"
  by (auto simp: mamaSubscription_cancel_def machine_inv_def bridge_ok_def is_snapshot_def)

lemma setups:
  assumes "mamaSubscription_setup env q cbs source sy c s = Some (s', ret)"
  obtains "s' = s" | tr src where "setup_allowed s" "mamaSubscription_setupBasic env tr q cbs src sy c s = Some (s', ret)"
  using assms by (auto simp: mamaSubscription_setup_def split: option.splits if_splits)

lemma setups2:
  assumes "mamaSubscription_setup2 env tr q cbs src sy c s = Some (s', ret)"
  obtains "s' = s" | "setup_allowed s" "mamaSubscription_setupBasic env tr q cbs src sy c s = Some (s', ret)"
  using assms by (auto simp: mamaSubscription_setup2_def split: if_splits)

lemma machine_step:
  assumes "machine_inv s" and "subsc_step P d s s'"
  shows "machine_inv s'"
  using assms(2)
proof cases
  case set_up
  from set_up(3) show ?thesis using assms(1) machine_setup by (cases rule: setups) auto
next
  case set_up2
  from set_up2(3) show ?thesis using assms(1) machine_setup by (cases rule: setups2) auto
next
  case throttle
  have "machine_inv (s\<lparr>throttleQueue := remove1 h (throttleQueue s)\<rparr>)" for h
    using assms(1) by (simp add: machine_inv_def bridge_ok_def is_snapshot_def)
  then show ?thesis using throttle machine_createAction by simp
qed (use assms(1) machine_configure machine_activate machine_deactivate machine_destroy machine_section machine_deallocate machine_basic
      machine_cancel machine_reports in \<open>metis fst_conv\<close>)+

lemma machine_init: "subsc_init s \<Longrightarrow> machine_inv s"
  by (auto simp: subsc_init_def mamaSubscription_allocate_def machine_defs path_ok_def)

interpretation machine: invariant_system subsc_init "subsc_step P d" machine_inv
  by unfold_locales (use machine_init machine_step in blast)+

end
