(* ===== verification/SubscLife.thy ===== *)
theory SubscLife
  imports SubscMachine
begin

text \<open>
  The life of a subscription when the other components do what they are asked to: what is outstanding in which
  state, which objects exist, and that destruction completes; and what the code does not achieve when other
  components fail.
\<close>

subsection \<open>What exists in which state\<close>

text \<open>From here on the other components do what they are asked to do.\<close>

definition good :: "subsc_env \<Rightarrow> bool" where
  "good env \<longleftrightarrow> objects_ok env \<and> eBridgeCreate env = MAMA_STATUS_OK \<and> eAddSubscription env = MAMA_STATUS_OK \<and>
     (\<forall>st. eThrottle env \<noteq> Refuses st)"

definition ending :: "mamaSubscriptionState \<Rightarrow> bool" where
  "ending st \<longleftrightarrow> st \<in> {MAMA_SUBSCRIPTION_DEACTIVATING, MAMA_SUBSCRIPTION_REACTIVATING, MAMA_SUBSCRIPTION_DESTROYING,
     MAMA_SUBSCRIPTION_DEALLOCATING}"

definition queue_ok :: "mamaSubscriptionImpl \<Rightarrow> bool" where
  "queue_ok s \<longleftrightarrow>
    (if mState s = MAMA_SUBSCRIPTION_ACTIVATING then \<exists>h. mAction s = Some h \<and> throttleQueue s = [h]
     else mAction s = None \<and> throttleQueue s = [])"

definition bridged :: "mamaSubscriptionImpl \<Rightarrow> bool" where
  "bridged s \<longleftrightarrow> mType s = MAMA_SUBSC_TYPE_BASIC \<or> \<not> is_snapshot s"

definition core_ok :: "bool \<Rightarrow> mamaSubscriptionImpl \<Rightarrow> bool" where
  "core_ok d s \<longleftrightarrow>
     bridgeCallbacks s = of_bool (ending (mState s)) \<and>
     (mSubscBridge s \<longleftrightarrow> mState s = MAMA_SUBSCRIPTION_ACTIVATED \<and> bridged s) \<and>
     (ending (mState s) \<longrightarrow> bridged s) \<and>
     (is_set_up (mState s) \<longrightarrow> mTransport s \<and> mQueue s \<and> mBridgeImpl s \<and> mOnDestroy s = d) \<and>
     (mState s \<in> {MAMA_SUBSCRIPTION_SETUP, MAMA_SUBSCRIPTION_ACTIVATING, MAMA_SUBSCRIPTION_REACTIVATING} \<longrightarrow>
        mType s \<noteq> MAMA_SUBSC_TYPE_BASIC)"

definition life_ok :: "bool \<Rightarrow> mamaSubscriptionImpl \<Rightarrow> bool" where
  "life_ok d s \<longleftrightarrow> core_ok d s \<and> queue_ok s"

lemmas life_defs = life_ok_def core_ok_def queue_ok_def ending_def is_set_up_def

lemma bridged_simps [simp]:
  "bridged (effect e s) = bridged s" "bridged (mamaSubscriptionImpl_setState st s) = bridged s"
  "bridged (mamaSubscription_cleanup s) = bridged s" "bridged (mamaSubscriptionImpl_invokeDestroyedCallback s) = bridged s"
  "bridged (mamaSubscriptionImpl_deallocate s) = bridged s" "bridged (reported s) = bridged s" "bridged (deactivating env s) = bridged s"
  "bridged (s\<lparr>mAction := a\<rparr>) = bridged s" "bridged (s\<lparr>throttleQueue := q\<rparr>) = bridged s" "bridged (s\<lparr>mContextRecap := c\<rparr>) = bridged s"
  by (simp_all add: bridged_def is_snapshot_def)

lemma bridged_market: "mType s \<noteq> MAMA_SUBSC_TYPE_BASIC \<Longrightarrow> bridged s = (\<not> is_snapshot s)"
  by (simp add: bridged_def)

lemma createAction_fields:
  assumes "good env" and "mState s = MAMA_SUBSCRIPTION_ACTIVATING"
  shows "mState (createAction env s) = MAMA_SUBSCRIPTION_ACTIVATED"
    "state_trace (createAction env s) = MAMA_SUBSCRIPTION_ACTIVATED # state_trace s"
    "mSubscBridge (createAction env s) = (mSubscBridge s \<or> \<not> is_snapshot s)"
    "mTransport (createAction env s) = mTransport s" "mQueue (createAction env s) = mQueue s"
    "mBridgeImpl (createAction env s) = mBridgeImpl s" "mType (createAction env s) = mType s"
    "mSubscMsgType (createAction env s) = mSubscMsgType s" "mOnDestroy (createAction env s) = mOnDestroy s"
    "mAction (createAction env s) = None" "throttleQueue (createAction env s) = throttleQueue s"
    "bridgeCallbacks (createAction env s) = bridgeCallbacks s"
  using assms by (auto simp: createAction_def mamaSubscriptionImpl_completeMarketDataInitialisation_def good_def is_snapshot_def Let_def)

lemma life_createAction:
  assumes "good env" and "core_ok d s" and "mState s = MAMA_SUBSCRIPTION_ACTIVATING" and "throttleQueue s = []"
  shows "life_ok d (createAction env s)"
proof -
  have b: "bridged (createAction env s) = bridged s"
    by (simp add: bridged_def is_snapshot_def createAction_fields [OF assms(1,3)])
  have "mType s \<noteq> MAMA_SUBSC_TYPE_BASIC" using assms(2,3) by (simp add: core_ok_def)
  then show ?thesis
    using assms(2-) by (simp add: life_defs createAction_fields [OF assms(1,3)] b bridged_market)
qed

text \<open>Starting an activation.\<close>

definition activating :: "subsc_env \<Rightarrow> mamaSubscriptionImpl \<Rightarrow> mamaSubscriptionImpl" where
  "activating env s = fst (mamaSubscription_activate_internal env (mamaSubscriptionImpl_setState MAMA_SUBSCRIPTION_ACTIVATING s))"

lemma activating_cases:
  assumes "good env" and "mTransport s"
  obtains h where "activating env s =
      (mamaSubscriptionImpl_setState MAMA_SUBSCRIPTION_ACTIVATING s)\<lparr>mContextRecap := mRecapRequest s, mAction := Some h, throttleQueue := throttleQueue s @ [h]\<rparr>"
  | "activating env s = createAction env ((mamaSubscriptionImpl_setState MAMA_SUBSCRIPTION_ACTIVATING s)\<lparr>mContextRecap := mRecapRequest s\<rparr>)"
proof (cases "eThrottle env")
  case Executes
  then show ?thesis using that(2) assms by (simp add: activating_def mamaSubscription_activate_internal_def mamaTransport_throttleAction_def)
next
  case (Queues h)
  then show ?thesis using that(1) assms by (simp add: activating_def mamaSubscription_activate_internal_def mamaTransport_throttleAction_def)
next
  case (Refuses st)
  then show ?thesis using assms by (simp add: good_def)
qed

lemma life_activating:
  assumes "good env" and "core_ok d s" and "throttleQueue s = []" and "mType s \<noteq> MAMA_SUBSC_TYPE_BASIC"
    and "mState s = MAMA_SUBSCRIPTION_SETUP \<or> mState s = MAMA_SUBSCRIPTION_DEACTIVATED"
  shows "life_ok d (activating env s)"
proof -
  have "mTransport s" using assms(2,5) by (auto simp: core_ok_def is_set_up_def)
  from assms(1) this show ?thesis
  proof (cases rule: activating_cases)
    case (1 h)
    then show ?thesis using assms(5,2-4) by (elim disjE) (simp_all add: life_defs)
  next
    case 2
    have "core_ok d ((mamaSubscriptionImpl_setState MAMA_SUBSCRIPTION_ACTIVATING s)\<lparr>mContextRecap := mRecapRequest s\<rparr>)"
      using assms(5,2-4) by (elim disjE) (simp_all add: life_defs)
    then show ?thesis using assms(3) unfolding 2 by (intro life_createAction [OF assms(1)]) simp_all
  qed
qed

lemma life_activate:
  assumes "good env" and "life_ok d s"
  shows "life_ok d (fst (mamaSubscription_activate env s))"
proof -
  have "life_ok d (activating env s)" if "mState s = MAMA_SUBSCRIPTION_SETUP \<or> mState s = MAMA_SUBSCRIPTION_DEACTIVATED" "mType s \<noteq> MAMA_SUBSC_TYPE_BASIC"
    using assms(2) that by (intro life_activating [OF assms(1)]) (auto simp: life_ok_def queue_ok_def)
  moreover have "life_ok d (mamaSubscriptionImpl_setState MAMA_SUBSCRIPTION_REACTIVATING s)"
    if "mState s = MAMA_SUBSCRIPTION_DEACTIVATING" "mType s \<noteq> MAMA_SUBSC_TYPE_BASIC"
    using assms(2) that by (simp add: life_defs)
  ultimately show ?thesis
    using assms(2) by (cases "mState s") (auto simp: mamaSubscription_activate_def activating_def)
qed

lemma life_destroy_inactive:
  assumes "life_ok d s" and "mState s = MAMA_SUBSCRIPTION_SETUP \<or> mState s = MAMA_SUBSCRIPTION_DEACTIVATED"
  shows "life_ok d (destroy_inactive s)"
  using assms(2,1) by (elim disjE) (simp_all add: destroy_inactive_def life_defs)

lemma life_reports:
  assumes "good env" and "life_ok d s" and "0 < bridgeCallbacks s"
  shows "life_ok d (bridge_reports env s)"
proof -
  have e: "ending (mState s)" using assms(2,3) by (simp add: life_ok_def core_ok_def split: if_splits)
  have d: "life_ok d (mamaSubscriptionImpl_setState MAMA_SUBSCRIPTION_DEACTIVATED (reported s))"
    if "mState s = MAMA_SUBSCRIPTION_DEACTIVATING \<or> mState s = MAMA_SUBSCRIPTION_REACTIVATING"
    using that assms(2) by (elim disjE) (simp_all add: life_defs)
  consider "mState s = MAMA_SUBSCRIPTION_DEACTIVATING" | "mState s = MAMA_SUBSCRIPTION_REACTIVATING"
    | "mState s = MAMA_SUBSCRIPTION_DESTROYING" | "mState s = MAMA_SUBSCRIPTION_DEALLOCATING"
    using e by (auto simp: ending_def)
  then show ?thesis
  proof cases
    case 2
    then show ?thesis using life_activate [OF assms(1) d] by (simp add: bridge_reports_eq)
  qed (use d assms(2) in \<open>simp_all add: bridge_reports_eq life_defs destroy_inactive_def\<close>)
qed

lemma life_deactivating:
  assumes "life_ok d s" and "mState s = MAMA_SUBSCRIPTION_ACTIVATED"
  shows "bridged s \<Longrightarrow> life_ok d (deactivating env s)"
    "\<not> bridged s \<Longrightarrow> life_ok d (mamaSubscriptionImpl_setState MAMA_SUBSCRIPTION_DEACTIVATED (deactivating env s))"
proof -
  have b: "bridged s \<Longrightarrow> reports_now env s = eDestroysNow env" "\<not> bridged s \<Longrightarrow> \<not> mSubscBridge s"
    using assms by (simp_all add: life_defs reports_now_def)
  show "bridged s \<Longrightarrow> life_ok d (deactivating env s)"
    using assms b(1) by (cases "eDestroysNow env") (simp_all add: life_defs)
  show "\<not> bridged s \<Longrightarrow> life_ok d (mamaSubscriptionImpl_setState MAMA_SUBSCRIPTION_DEACTIVATED (deactivating env s))"
    using assms b(2) by (simp add: life_defs)
qed

lemma life_deactivate_active:
  assumes "life_ok d s" and "mState s = MAMA_SUBSCRIPTION_ACTIVATED"
  shows "\<exists>s'. mamaSubscription_deactivate env s = Some (s', MAMA_STATUS_OK) \<and> life_ok d s' \<and>
    mState s' \<in> {MAMA_SUBSCRIPTION_DEACTIVATED, MAMA_SUBSCRIPTION_DEACTIVATING}"
proof (cases "bridged s")
  case True
  then have "mamaSubscription_deactivate env s = Some (deactivating env s, MAMA_STATUS_OK)"
    using assms(2) by (cases "mType s = MAMA_SUBSC_TYPE_BASIC") (simp_all add: bridged_def deactivate_active_basic deactivate_market)
  then show ?thesis using life_deactivating(1) [OF assms True] by simp
next
  case False
  then have "mamaSubscription_deactivate env s =
    Some (mamaSubscriptionImpl_setState MAMA_SUBSCRIPTION_DEACTIVATED (deactivating env s), MAMA_STATUS_OK)"
    using assms(2) by (simp add: bridged_def deactivate_market)
  then show ?thesis using life_deactivating(2) [OF assms False] by simp
qed

text \<open>Deactivation never fails and leaves a subscription that was set up inactive or about to be.\<close>

lemma life_deactivate:
  assumes "life_ok d s"
  obtains s' ret where "mamaSubscription_deactivate env s = Some (s', ret)" "life_ok d s'"
    "is_set_up (mState s) \<Longrightarrow> mState s \<noteq> MAMA_SUBSCRIPTION_DEALLOCATING \<Longrightarrow>
       mState s' \<in> {MAMA_SUBSCRIPTION_SETUP, MAMA_SUBSCRIPTION_DEACTIVATED, MAMA_SUBSCRIPTION_DEACTIVATING, MAMA_SUBSCRIPTION_DESTROYING}"
    "\<not> is_set_up (mState s) \<Longrightarrow> s' = s"
proof -
  note unf = mamaSubscription_deactivate_def deactivate_basic_def
  consider (act) "mState s = MAMA_SUBSCRIPTION_ACTIVATING" | (react) "mState s = MAMA_SUBSCRIPTION_REACTIVATING"
    | (active) "mState s = MAMA_SUBSCRIPTION_ACTIVATED"
    | (other) "mState s \<notin> {MAMA_SUBSCRIPTION_ACTIVATING, MAMA_SUBSCRIPTION_REACTIVATING, MAMA_SUBSCRIPTION_ACTIVATED}" by blast
  then show ?thesis
  proof cases
    case act
    then obtain h where h: "mAction s = Some h" "throttleQueue s = [h]" and t: "mTransport s" "mType s \<noteq> MAMA_SUBSC_TYPE_BASIC"
      using assms by (auto simp: life_ok_def queue_ok_def core_ok_def is_set_up_def)
    let ?s = "mamaSubscriptionImpl_setState MAMA_SUBSCRIPTION_DEACTIVATED (s\<lparr>throttleQueue := [], mAction := None\<rparr>)"
    have "mamaSubscription_deactivate env s = Some (?s, MAMA_STATUS_OK)" using act h t by (simp add: unf wombatThrottle_removeAction_def)
    moreover have "life_ok d ?s" using assms act by (simp add: life_defs)
    ultimately show ?thesis using that act by (simp add: is_set_up_def)
  next
    case react
    then have "mType s \<noteq> MAMA_SUBSC_TYPE_BASIC" using assms by (simp add: life_ok_def core_ok_def)
    then have "mamaSubscription_deactivate env s =
      Some (mamaSubscriptionImpl_setState MAMA_SUBSCRIPTION_DEACTIVATING s, MAMA_STATUS_SUBSCRIPTION_INVALID_TYPE)"
      using react by (simp add: unf)
    moreover have "life_ok d (mamaSubscriptionImpl_setState MAMA_SUBSCRIPTION_DEACTIVATING s)"
      using assms react by (simp add: life_defs)
    ultimately show ?thesis using that react by (simp add: is_set_up_def)
  next
    case active
    then show ?thesis using that life_deactivate_active [OF assms active, of env] by (auto simp: is_set_up_def)
  next
    case other
    then have "\<exists>r. mamaSubscription_deactivate env s = Some (s, r)" by (cases "mState s") (simp_all add: unf)
    then show ?thesis using that assms other by (cases "mState s") (auto simp: is_set_up_def)
  qed
qed

lemma life_section:
  assumes "life_ok d s"
  shows "life_ok d (fst (destroy_section s))"
    and "mState s \<in> {MAMA_SUBSCRIPTION_SETUP, MAMA_SUBSCRIPTION_DEACTIVATED, MAMA_SUBSCRIPTION_DEACTIVATING, MAMA_SUBSCRIPTION_DESTROYING} \<Longrightarrow>
      snd (destroy_section s) = MAMA_STATUS_OK \<and> mState (fst (destroy_section s)) \<in> {MAMA_SUBSCRIPTION_DESTROYED, MAMA_SUBSCRIPTION_DESTROYING}"
proof -
  have i: "life_ok d (destroy_inactive s)" if "mState s = MAMA_SUBSCRIPTION_SETUP \<or> mState s = MAMA_SUBSCRIPTION_DEACTIVATED"
    using assms that by (rule life_destroy_inactive)
  have g: "life_ok d (mamaSubscriptionImpl_setState MAMA_SUBSCRIPTION_DESTROYING s)" if "mState s = MAMA_SUBSCRIPTION_DEACTIVATING"
    using assms that by (simp add: life_defs)
  show "life_ok d (fst (destroy_section s))" using assms i g by (cases "mState s") (auto simp: destroy_section_def)
  have "mState (destroy_inactive s) = MAMA_SUBSCRIPTION_DESTROYED" by (simp add: destroy_inactive_def)
  then show "snd (destroy_section s) = MAMA_STATUS_OK \<and> mState (fst (destroy_section s)) \<in> {MAMA_SUBSCRIPTION_DESTROYED, MAMA_SUBSCRIPTION_DESTROYING}"
    if "mState s \<in> {MAMA_SUBSCRIPTION_SETUP, MAMA_SUBSCRIPTION_DEACTIVATED, MAMA_SUBSCRIPTION_DEACTIVATING, MAMA_SUBSCRIPTION_DESTROYING}"
    using that by (auto simp: destroy_section_def)
qed

lemma life_destroy:
  assumes "life_ok d s"
  obtains s' ret where "mamaSubscription_destroy env s = Some (s', ret)" "life_ok d s'"
    "is_set_up (mState s) \<Longrightarrow> mState s \<noteq> MAMA_SUBSCRIPTION_DEALLOCATING \<Longrightarrow>
       ret = MAMA_STATUS_OK \<and> mState s' \<in> {MAMA_SUBSCRIPTION_DESTROYED, MAMA_SUBSCRIPTION_DESTROYING}"
proof -
  obtain s1 r where s1: "mamaSubscription_deactivate env s = Some (s1, r)" "life_ok d s1"
    and st: "is_set_up (mState s) \<Longrightarrow> mState s \<noteq> MAMA_SUBSCRIPTION_DEALLOCATING \<Longrightarrow>
      mState s1 \<in> {MAMA_SUBSCRIPTION_SETUP, MAMA_SUBSCRIPTION_DEACTIVATED, MAMA_SUBSCRIPTION_DEACTIVATING, MAMA_SUBSCRIPTION_DESTROYING}"
    using life_deactivate [OF assms] by metis
  then show ?thesis using life_section [OF s1(2)] st
    by (intro that [of "fst (destroy_section s1)" "snd (destroy_section s1)"]) (simp_all add: mamaSubscription_destroy_def)
qed

lemma life_idle:
  assumes "life_ok d s" and "setup_allowed s"
  shows "\<not> mSubscBridge s" "mAction s = None" "throttleQueue s = []" "bridgeCallbacks s = 0" "\<not> is_set_up (mState s)"
  using assms unfolding setup_allowed_def by (elim disjE; simp add: life_defs)+

lemma life_same:
  assumes "life_ok d s" and "setup_allowed s" and "same_life s s'"
  shows "life_ok d s'"
proof -
  have "mState s' = mState s" "mSubscBridge s' = mSubscBridge s" "mAction s' = mAction s" "throttleQueue s' = throttleQueue s"
    "bridgeCallbacks s' = bridgeCallbacks s" using assms(3) by (simp_all add: same_life_def)
  then show ?thesis using assms(2) life_idle [OF assms(1,2)] unfolding setup_allowed_def by (elim disjE) (simp_all add: life_defs)
qed

lemma life_setup:
  assumes "good env" and "life_ok d s" and "setup_allowed s"
    and "mamaSubscription_setupBasic env tr q (Some d) src sy c s = Some (s', ret)"
  shows "life_ok d s'"
  using assms(4)
proof (cases rule: setupBasic_cases)
  case 1
  then show ?thesis using life_same [OF assms(2,3)] by simp
next
  case (2 s0)
  then have "mSubscBridge s0 = mSubscBridge s" "mAction s0 = mAction s" "throttleQueue s0 = throttleQueue s"
    "bridgeCallbacks s0 = bridgeCallbacks s" "mType s0 = mType s" by (simp_all add: same_life_def)
  then show ?thesis using 2(3-) life_idle [OF assms(2,3)] assms(1) unfolding 2(1) by (simp add: life_defs good_def)
qed

lemma createBasic_cases:
  assumes "good env" and "mamaSubscriptionImpl_createBasic env tr q (Some d) tp c s = (s', ret)"
  obtains "s' = s" | "setup_allowed s" "same_life s s'"
  | s0 where "s' = effect OnCreate (mamaSubscriptionImpl_setState MAMA_SUBSCRIPTION_ACTIVATED (effect (Created QueueObject)
        (effect (Created BridgeSubscription) ((mamaSubscriptionImpl_setState MAMA_SUBSCRIPTION_ACTIVATING s0)\<lparr>mSubscBridge := True\<rparr>))))"
      "same_life (s\<lparr>mType := MAMA_SUBSC_TYPE_BASIC\<rparr>) s0" "mTransport s0" "mQueue s0" "mBridgeImpl s0" "mOnDestroy s0 = d" "setup_allowed s"
proof (cases "\<exists>t. tp = Some t \<and> tr \<and> t \<noteq> [] \<and> q \<and> setup_allowed s \<and> eBridgeImpl env")
  case False
  then have "s' = s \<or> setup_allowed s \<and> same_life s s'"
    using assms(2) by (auto simp: mamaSubscriptionImpl_createBasic_def same_life_def Let_def split: if_splits option.splits)
  then show ?thesis using that(1,2) by blast
next
  case True
  then obtain t where t: "tp = Some t" "tr" "t \<noteq> []" "q" "setup_allowed s" "eBridgeImpl env" by blast
  let ?s = "s\<lparr>mBridgeImpl := True, mClosure := c, mQueue := True, mRequiresInitial := False, mSubscSymbol := Some (eMapSymbol env t),
      mTransport := True, mType := MAMA_SUBSC_TYPE_BASIC, mUserSymbol := Some t, mOnDestroy := d\<rparr>"
  have "s' = effect OnCreate (mamaSubscriptionImpl_setState MAMA_SUBSCRIPTION_ACTIVATED (effect (Created QueueObject)
        (effect (Created BridgeSubscription) ((mamaSubscriptionImpl_setState MAMA_SUBSCRIPTION_ACTIVATING ?s)\<lparr>mSubscBridge := True\<rparr>))))"
    using assms t by (simp add: mamaSubscriptionImpl_createBasic_def mamaSubscriptionImpl_completeBasicInitialisation_def
        bridgeMamaSubscriptionCreate_def good_def Let_def)
  then show ?thesis using t by (intro that(3) [of ?s]) (simp_all add: same_life_def)
qed

lemma life_basic:
  assumes "good env" and "life_ok d s" and "mamaSubscriptionImpl_createBasic env tr q (Some d) tp c s = (s', ret)"
  shows "life_ok d s'"
  using assms(1,3)
proof (cases rule: createBasic_cases)
  case (3 s0)
  have "mAction s0 = mAction s" "throttleQueue s0 = throttleQueue s"
    "bridgeCallbacks s0 = bridgeCallbacks s" "mType s0 = MAMA_SUBSC_TYPE_BASIC" using 3(2) by (simp_all add: same_life_def)
  then show ?thesis using 3(3-6) life_idle [OF assms(2) 3(7)] unfolding 3(1) by (simp add: life_defs bridged_def)
qed (use assms(2) life_same in auto)

lemma life_deallocate: "life_ok d s \<Longrightarrow> life_ok d (fst (mamaSubscription_deallocate s))"
  by (cases "mState s") (simp_all add: mamaSubscription_deallocate_def life_defs)

lemma life_configure:
  assumes "life_ok d s" and "setup_allowed s"
  shows "life_ok d (s\<lparr>mType := ty, mServiceLevel := lvl, mRequiresInitial := ri, mGroupSizeHint := n\<rparr>)"
  using assms(2) life_idle [OF assms] unfolding setup_allowed_def by (elim disjE) (simp_all add: life_defs)

lemma life_cancel: "life_ok d s \<Longrightarrow> life_ok d (fst (mamaSubscription_cancel s))"
  by (cases "mBridgeImpl s") (simp_all add: mamaSubscription_cancel_def life_ok_def core_ok_def queue_ok_def)

lemma life_step:
  assumes "life_ok d s" and "subsc_step good d s s'"
  shows "life_ok d s'"
  using assms(2)
proof cases
  case set_up
  from set_up(3) show ?thesis using assms(1) life_setup [OF set_up(1)] by (cases rule: setups) auto
next
  case set_up2
  from set_up2(3) show ?thesis using assms(1) life_setup [OF set_up2(1)] by (cases rule: setups2) auto
next
  case (throttle env h)
  have a: "mState s = MAMA_SUBSCRIPTION_ACTIVATING" "throttleQueue s = [h]"
    using assms(1) throttle(3) by (auto simp: life_ok_def queue_ok_def split: if_splits)
  then have "core_ok d (s\<lparr>throttleQueue := remove1 h (throttleQueue s)\<rparr>)"
    using assms(1) by (simp add: life_ok_def core_ok_def)
  then show ?thesis using a unfolding throttle(1) by (intro life_createAction [OF throttle(2)]) simp_all
next
  case deactivate
  then show ?thesis using life_deactivate [OF assms(1)] by (metis option.inject prod.inject)
next
  case destroy
  then show ?thesis using life_destroy [OF assms(1)] by (metis option.inject prod.inject)
next
  case createBasic
  then show ?thesis using life_basic assms(1) by blast
qed (use assms(1) life_configure life_activate life_section(1) life_deallocate life_cancel life_reports in \<open>metis fst_conv\<close>)+

lemma life_init: "subsc_init s \<Longrightarrow> life_ok d s"
  by (auto simp: subsc_init_def mamaSubscription_allocate_def life_defs)

subsection \<open>Which objects exist\<close>

fun has :: "owned \<Rightarrow> mamaSubscriptionImpl \<Rightarrow> bool" where
  "has Publisher s = mSubscPublisher s"
| "has InitialRequest s = mInitialRequest s"
| "has RecapRequest s = mRecapRequest s"
| "has MsgCallback s = mCallback s"
| "has DqStrategy s = mDqStrategy s"
| "has SubjectTable s = mSubjects s"
| "has BridgeSubscription s = mSubscBridge s"
| "has QueueObject s = (mSubscBridge s \<or> 0 < bridgeCallbacks s)"

text \<open>How often an object was created and destroyed, and whether it is there.\<close>

definition objs :: "owned \<Rightarrow> mamaSubscriptionImpl \<Rightarrow> nat \<times> nat \<times> bool" where
  "objs r s = (count_list (effects s) (Created r), count_list (effects s) (Destroyed r), has r s)"

text \<open>The objects that a set-up creates and the clean-up destroys.\<close>

definition main_objects :: "owned set" where
  "main_objects = {Publisher, InitialRequest, MsgCallback, DqStrategy}"

lemma objs_setState [simp]: "objs r (mamaSubscriptionImpl_setState st s) = objs r s"
  by (cases r) (simp_all add: objs_def)

lemma objs_effect [simp]: "e \<noteq> Created r \<Longrightarrow> e \<noteq> Destroyed r \<Longrightarrow> objs r (effect e s) = objs r s"
  by (cases r) (simp_all add: objs_def)

lemma objs_callback [simp]: "objs r (mamaSubscriptionImpl_invokeDestroyedCallback s) = objs r s"
  by (simp add: mamaSubscriptionImpl_invokeDestroyedCallback_def)

lemma objs_deallocate [simp]: "objs r (mamaSubscriptionImpl_deallocate s) = objs r s"
  by (cases r) (simp_all add: mamaSubscriptionImpl_deallocate_def clearSubscInfo_def objs_def)

lemma main_cases: "r \<in> main_objects \<Longrightarrow> (r = Publisher \<Longrightarrow> Q) \<Longrightarrow> (r = InitialRequest \<Longrightarrow> Q) \<Longrightarrow> (r = MsgCallback \<Longrightarrow> Q) \<Longrightarrow>
  (r = DqStrategy \<Longrightarrow> Q) \<Longrightarrow> Q"
  by (auto simp: main_objects_def)

lemma objs_update [simp]:
  assumes "r \<in> main_objects"
  shows "objs r (s\<lparr>mContextRecap := c\<rparr>) = objs r s" "objs r (s\<lparr>mAction := a\<rparr>) = objs r s" "objs r (s\<lparr>throttleQueue := q\<rparr>) = objs r s"
    "objs r (s\<lparr>mSubscBridge := b\<rparr>) = objs r s" "objs r (s\<lparr>mSubjects := b\<rparr>) = objs r s" "objs r (s\<lparr>mEntitleSubject := t\<rparr>) = objs r s"
    "objs r (s\<lparr>bridgeCallbacks := n\<rparr>) = objs r s" "objs r (s\<lparr>mExpectingInitial := b, mInitialArrived := b'\<rparr>) = objs r s"
  using assms by (elim main_cases; simp add: objs_def)+

lemma objs_initialize [simp]:
  assumes "r \<in> main_objects" shows "objs r (mamaSubscription_initialize env s) = objs r s"
proof -
  have n: "r \<noteq> BridgeSubscription" "r \<noteq> SubjectTable" "r \<noteq> QueueObject" using assms by (auto simp: main_objects_def)
  then have "objs r (bridgeMamaSubscriptionCreate env s) = objs r s" "objs r (configureForMultipleTopics env s) = objs r s" for s
    using assms by (simp_all add: bridgeMamaSubscriptionCreate_def configureForMultipleTopics_def)
  then show ?thesis using assms n by (simp add: mamaSubscription_initialize_def Let_def)
qed

lemma objs_reported [simp]: "r \<in> main_objects \<Longrightarrow> objs r (reported s) = objs r s"
  by (auto simp: reported_def main_objects_def Let_def objs_def)

lemma objs_createAction [simp]: "r \<in> main_objects \<Longrightarrow> objs r (createAction env s) = objs r s"
  by (simp add: createAction_def mamaSubscriptionImpl_completeMarketDataInitialisation_def Let_def)

lemma objs_deactivating [simp]:
  assumes "r \<in> main_objects" shows "objs r (deactivating env s) = objs r s"
proof -
  have n: "r \<noteq> BridgeSubscription" using assms by (auto simp: main_objects_def)
  have "objs r (bridge_reports env s) = objs r s" if "mState s = MAMA_SUBSCRIPTION_DEACTIVATING" for s
    using that assms by (simp add: bridge_reports_eq)
  then have "objs r (bridgeMamaSubscriptionDestroy env s) = objs r s" if "mState s = MAMA_SUBSCRIPTION_DEACTIVATING" for s
    using that assms n by (simp add: bridgeMamaSubscriptionDestroy_def Let_def)
  then show ?thesis using assms by (simp add: deactivating_def mamaSubscription_deactivate_internal_def Let_def)
qed

lemma objs_cleanup [simp]:
  assumes "r \<in> main_objects"
  shows "objs r (mamaSubscription_cleanup s) = (fst (objs r s), fst (snd (objs r s)) + of_bool (has r s), False)"
  using assms by (elim main_cases) (simp_all add: objs_def mamaSubscription_cleanup_def Let_def)

lemma objs_setup [simp]:
  assumes "r \<in> main_objects" and "objects_ok env"
  shows "objs r (fst (setup_objects env s)) = (fst (objs r s) + 1, fst (snd (objs r s)), True)"
  using assms by (elim main_cases) (simp_all add: objs_def setup_objects_def objects_ok_def Let_def)

text \<open>The calls of the function for the destruction, and how often the subscription was set up.\<close>

definition ends :: "mamaSubscriptionImpl \<Rightarrow> nat" where
  "ends s = count_list (effects s) OnDestroy"

fun lives :: "mamaSubscriptionState list \<Rightarrow> nat" where
  "lives (b # a # ts) = of_bool (\<not> is_set_up a \<and> is_set_up b) + lives (a # ts)"
| "lives _ = 0"

lemma lives_Cons: "path_ok st ts \<Longrightarrow> lives (b # ts) = of_bool (\<not> is_set_up st \<and> is_set_up b) + lives ts"
  by (cases ts) (auto simp: path_ok_def)

lemma lives_append:
  assumes "ts \<noteq> []" and "is_set_up (hd ts)" and "\<forall>t \<in> set us. is_set_up t"
  shows "lives (us @ ts) = lives ts"
  using assms(3)
proof (induction us)
  case (Cons u us)
  then obtain v vs where "us @ ts = v # vs" "is_set_up v" using assms(1,2) by (cases us; cases ts) auto
  then show ?case using Cons by simp
qed simp

definition account :: "bool \<Rightarrow> mamaSubscriptionImpl \<Rightarrow> bool" where
  "account d s \<longleftrightarrow>
     (\<forall>r \<in> main_objects. fst (objs r s) = fst (snd (objs r s)) + of_bool (has r s) \<and>
        (has r s \<longleftrightarrow> is_set_up (mState s) \<and> mType s \<noteq> MAMA_SUBSC_TYPE_BASIC)) \<and>
     (d \<longrightarrow> ends s + of_bool (is_set_up (mState s)) = lives (state_trace s))"

lemma has_objs: "has r s = snd (snd (objs r s))" by (simp add: objs_def)

text \<open>Moves within a life, the end of a life, and moves outside.\<close>

lemma account_within:
  assumes "machine_inv s" and "account d s" and "is_set_up (mState s)" "is_set_up (mState s')" and "mType s' = mType s"
    and "\<forall>r \<in> main_objects. objs r s' = objs r s" and "ends s' = ends s"
    and "state_trace s' = us @ state_trace s" "\<forall>u \<in> set us. is_set_up u"
  shows "account d s'"
proof -
  have "lives (state_trace s') = lives (state_trace s)"
    using lives_append [of "state_trace s" us] assms(1,3,8,9) by (simp add: machine_inv_def path_ok_def)
  then show ?thesis using assms(2-7) by (simp add: account_def has_objs)
qed

lemma account_end:
  assumes "machine_inv s" and "account d s" and "is_set_up (mState s)" "\<not> is_set_up (mState s')"
    and "\<forall>r \<in> main_objects. objs r s' = objs r (mamaSubscription_cleanup s)" and "ends s' = ends s + of_bool d"
    and "state_trace s' = mState s' # state_trace s"
  shows "account d s'"
proof -
  have "lives (state_trace s') = lives (state_trace s)"
    using lives_Cons [of "mState s" "state_trace s"] assms(1,3,4,7) by (simp add: machine_inv_def)
  then show ?thesis using assms(2-6) by (simp add: account_def has_objs)
qed

lemma account_outside:
  assumes "machine_inv s" and "account d s" and "\<not> is_set_up (mState s)" "\<not> is_set_up (mState s')"
    and "\<forall>r \<in> main_objects. objs r s' = objs r s" and "ends s' = ends s"
    and "state_trace s' = us @ state_trace s" "us = [] \<or> us = [u] \<and> \<not> is_set_up u"
  shows "account d s'"
proof -
  have "lives (state_trace s') = lives (state_trace s)"
    using lives_Cons [of "mState s" "state_trace s"] assms(1,3,7,8) by (auto simp: machine_inv_def)
  then show ?thesis using assms(2-6) by (simp add: account_def has_objs)
qed

lemma account_begin:
  assumes "machine_inv s" and "account d s" and "\<not> is_set_up (mState s)" "is_set_up (mState s')"
    and "\<forall>r \<in> main_objects. objs r s' = (fst (objs r s) + of_bool b, fst (snd (objs r s)), b)" "b = (mType s' \<noteq> MAMA_SUBSC_TYPE_BASIC)"
    and "ends s' = ends s" and "state_trace s' = us @ u # state_trace s" "is_set_up u" "\<forall>u \<in> set us. is_set_up u"
  shows "account d s'"
proof -
  have p: "path_ok (mState s) (state_trace s)" using assms(1) by (simp add: machine_inv_def)
  have "lives (state_trace s') = 1 + lives (state_trace s)"
    using lives_append [of "u # state_trace s" us] assms(10) lives_Cons [OF p, of u] assms(3,8,9) by simp
  moreover have "\<forall>r \<in> main_objects. \<not> has r s \<and> fst (objs r s) = fst (snd (objs r s))" using assms(2,3) by (simp add: account_def)
  ultimately show ?thesis using assms(2-7) by (auto simp: account_def has_objs)
qed

lemma ends_simps [simp]:
  "ends (effect e s) = ends s + of_bool (e = OnDestroy)" "ends (mamaSubscriptionImpl_setState st s) = ends s"
  "ends (mamaSubscriptionImpl_invokeDestroyedCallback s) = ends s + of_bool (mOnDestroy s)"
  "ends (mamaSubscription_cleanup s) = ends s" "ends (mamaSubscriptionImpl_deallocate s) = ends s" "ends (reported s) = ends s"
  by (simp_all add: ends_def mamaSubscriptionImpl_invokeDestroyedCallback_def mamaSubscription_cleanup_def
      mamaSubscriptionImpl_deallocate_def clearSubscInfo_def reported_def Let_def)

lemma ends_update [simp]:
  "ends (s\<lparr>mContextRecap := c\<rparr>) = ends s" "ends (s\<lparr>mAction := a\<rparr>) = ends s" "ends (s\<lparr>throttleQueue := q\<rparr>) = ends s"
  "ends (s\<lparr>mSubscBridge := b\<rparr>) = ends s" "ends (s\<lparr>bridgeCallbacks := n\<rparr>) = ends s"
  by (simp_all add: ends_def)

lemma ends_createAction [simp]: "ends (createAction env s) = ends s"
  by (simp add: ends_def createAction_def mamaSubscriptionImpl_completeMarketDataInitialisation_def mamaSubscription_initialize_def
      bridgeMamaSubscriptionCreate_def configureForMultipleTopics_def Let_def)

lemma ends_deactivating [simp]: "ends (deactivating env s) = ends s"
  by (simp add: ends_def deactivating_def mamaSubscription_deactivate_internal_def bridgeMamaSubscriptionDestroy_def
      bridge_reports_def mamaSubscriptionImpl_onSubscriptionDestroyed_def Let_def)

lemma ends_setup [simp]: "ends (fst (setup_objects env s)) = ends s"
  by (simp add: ends_def setup_objects_def Let_def)

lemma account_createAction:
  assumes "good env" and "machine_inv s" and "account d s" and "mState s = MAMA_SUBSCRIPTION_ACTIVATING"
  shows "account d (createAction env s)"
  using assms(2,3)
  by (rule account_within [where us = "[MAMA_SUBSCRIPTION_ACTIVATED]"])
    (simp_all add: assms(4) createAction_fields [OF assms(1,4)] is_set_up_def)

lemma account_activating:
  assumes "good env" and "machine_inv s" and "account d s" and "mTransport s"
    and "mState s = MAMA_SUBSCRIPTION_SETUP \<or> mState s = MAMA_SUBSCRIPTION_DEACTIVATED"
  shows "account d (activating env s)"
  using assms(1,4)
proof (cases rule: activating_cases)
  case (1 h)
  show ?thesis unfolding 1 using assms(2,3)
    by (rule account_within [where us = "[MAMA_SUBSCRIPTION_ACTIVATING]"]) (use assms(5) in \<open>auto simp: is_set_up_def\<close>)
next
  case 2
  let ?s = "(mamaSubscriptionImpl_setState MAMA_SUBSCRIPTION_ACTIVATING s)\<lparr>mContextRecap := mRecapRequest s\<rparr>"
  show ?thesis unfolding 2 using assms(2,3)
    by (rule account_within [where us = "[MAMA_SUBSCRIPTION_ACTIVATED, MAMA_SUBSCRIPTION_ACTIVATING]"])
      (use assms(5) createAction_fields [OF assms(1), of ?s] in \<open>auto simp: is_set_up_def\<close>)
qed

lemma account_activate:
  assumes "good env" and "machine_inv s" and "account d s" and "life_ok d s"
  shows "account d (fst (mamaSubscription_activate env s))"
proof -
  have "account d (activating env s)" if "mState s = MAMA_SUBSCRIPTION_SETUP \<or> mState s = MAMA_SUBSCRIPTION_DEACTIVATED"
    using account_activating [OF assms(1-3) _ that] assms(4) that by (auto simp: life_ok_def core_ok_def is_set_up_def)
  moreover have "account d (mamaSubscriptionImpl_setState MAMA_SUBSCRIPTION_REACTIVATING s)"
    if "mState s = MAMA_SUBSCRIPTION_DEACTIVATING"
    using assms(2,3) by (rule account_within [where us = "[MAMA_SUBSCRIPTION_REACTIVATING]"]) (simp_all add: that is_set_up_def)
  ultimately show ?thesis
    using assms(3) by (cases "mState s") (simp_all add: mamaSubscription_activate_def activating_def)
qed

lemma account_destroy_inactive:
  assumes "machine_inv s" and "account d s" and "is_set_up (mState s)" and "mOnDestroy s = d"
  shows "account d (destroy_inactive s)"
  using assms(1-3) by (rule account_end) (simp_all add: destroy_inactive_def is_set_up_def assms(4))

text \<open>The whole invariant.\<close>

definition subsc_inv :: "bool \<Rightarrow> mamaSubscriptionImpl \<Rightarrow> bool" where
  "subsc_inv d s \<longleftrightarrow> machine_inv s \<and> life_ok d s \<and> account d s"

lemma ending_set_up: "ending st \<Longrightarrow> is_set_up st"
  by (cases st) (simp_all add: ending_def is_set_up_def)

lemma life_set_up: "life_ok d s \<Longrightarrow> is_set_up (mState s) \<Longrightarrow> mTransport s \<and> mQueue s \<and> mBridgeImpl s \<and> mOnDestroy s = d"
  by (simp add: life_ok_def core_ok_def)

lemma account_reported: "account d (reported s) = account d s"
  by (simp add: account_def has_objs)

lemma account_reports:
  assumes "good env" and "subsc_inv d s" and "0 < bridgeCallbacks s"
  shows "account d (bridge_reports env s)"
proof -
  have m: "machine_inv s" and l: "life_ok d s" and a: "account d s" using assms(2) by (simp_all add: subsc_inv_def)
  have e: "ending (mState s)" using l assms(3) by (simp add: life_ok_def core_ok_def split: if_splits)
  have mr: "machine_inv (reported s)" using m by (simp add: machine_inv_def bridge_ok_def is_snapshot_def)
  have ar: "account d (reported s)" using a by (simp add: account_reported)
  have u: "is_set_up (mState s)" "mOnDestroy s = d" using ending_set_up [OF e] life_set_up [OF l] by simp_all
  have ad: "account d (mamaSubscriptionImpl_setState MAMA_SUBSCRIPTION_DEACTIVATED (reported s))"
    using mr ar by (rule account_within [where us = "[MAMA_SUBSCRIPTION_DEACTIVATED]"]) (use u in \<open>simp_all add: is_set_up_def\<close>)
  consider "mState s = MAMA_SUBSCRIPTION_DEACTIVATING" | "mState s = MAMA_SUBSCRIPTION_REACTIVATING"
    | "mState s = MAMA_SUBSCRIPTION_DESTROYING" | "mState s = MAMA_SUBSCRIPTION_DEALLOCATING"
    using e by (auto simp: ending_def)
  then show ?thesis
  proof cases
    case 2
    have "machine_inv (mamaSubscriptionImpl_setState MAMA_SUBSCRIPTION_DEACTIVATED (reported s))"
      using mr 2 by (auto simp: machine_defs)
    moreover have "life_ok d (mamaSubscriptionImpl_setState MAMA_SUBSCRIPTION_DEACTIVATED (reported s))"
      using l 2 by (simp add: life_defs)
    ultimately show ?thesis using account_activate [OF assms(1) _ ad] 2 by (simp add: bridge_reports_eq)
  next
    case 4
    have "account d (mamaSubscriptionImpl_deallocate (mamaSubscriptionImpl_invokeDestroyedCallback (mamaSubscription_cleanup (reported s))))"
      using mr ar by (rule account_end) (use u in \<open>simp_all add: is_set_up_def\<close>)
    then show ?thesis using 4 by (simp add: bridge_reports_eq)
  qed (use ad u account_destroy_inactive [OF mr ar] in \<open>simp_all add: bridge_reports_eq\<close>)
qed

lemma account_deactivate:
  assumes "subsc_inv d s" and "mamaSubscription_deactivate env s = Some (s', ret)"
  shows "account d s'"
proof -
  have m: "machine_inv s" and l: "life_ok d s" and a: "account d s" using assms(1) by (simp_all add: subsc_inv_def)
  note w = account_within [OF m a]
  note unf = mamaSubscription_deactivate_def deactivate_basic_def wombatThrottle_removeAction_def
  consider (act) "mState s = MAMA_SUBSCRIPTION_ACTIVATING" | (react) "mState s = MAMA_SUBSCRIPTION_REACTIVATING"
    | (active) "mState s = MAMA_SUBSCRIPTION_ACTIVATED"
    | (other) "mState s \<notin> {MAMA_SUBSCRIPTION_ACTIVATING, MAMA_SUBSCRIPTION_REACTIVATING, MAMA_SUBSCRIPTION_ACTIVATED}" by blast
  then show ?thesis
  proof cases
    case act
    then have "s' = s \<or> (\<exists>h. s' = mamaSubscriptionImpl_setState MAMA_SUBSCRIPTION_DEACTIVATED (s\<lparr>throttleQueue := remove1 h (throttleQueue s), mAction := None\<rparr>))"
      using assms(2) by (auto simp: unf split: if_splits option.splits)
    then show ?thesis
      using a act w [where us = "[MAMA_SUBSCRIPTION_DEACTIVATED]"] by (auto simp: is_set_up_def)
  next
    case react
    then have "s' = s \<or> s' = mamaSubscriptionImpl_setState MAMA_SUBSCRIPTION_DEACTIVATING s"
      using assms(2) by (auto simp: unf split: if_splits)
    then show ?thesis
      using a react w [where us = "[MAMA_SUBSCRIPTION_DEACTIVATING]"] by (auto simp: is_set_up_def)
  next
    case active
    have d: "account d (deactivating env s)"
      by (rule w [where us = "if reports_now env s then [MAMA_SUBSCRIPTION_DEACTIVATED, MAMA_SUBSCRIPTION_DEACTIVATING] else [MAMA_SUBSCRIPTION_DEACTIVATING]"])
        (use active in \<open>simp_all add: is_set_up_def\<close>)
    have "account d (mamaSubscriptionImpl_setState MAMA_SUBSCRIPTION_DEACTIVATED (deactivating env s))"
      using machine_deactivating [OF m active] d
      by (rule account_within [where us = "[MAMA_SUBSCRIPTION_DEACTIVATED]"]) (use active in \<open>simp_all add: is_set_up_def\<close>)
    with d show ?thesis
      using assms(2) active deactivate_market [of s env] deactivate_active_basic [of s env]
      by (cases "mType s = MAMA_SUBSC_TYPE_BASIC") (auto split: if_splits)
  next
    case other
    then have "s' = s" using assms(2) by (cases "mState s") (auto simp: unf split: if_splits)
    then show ?thesis using a by simp
  qed
qed

lemma account_section:
  assumes "machine_inv s" and "life_ok d s" and "account d s"
  shows "account d (fst (destroy_section s))"
proof -
  have "account d (destroy_inactive s)" if "mState s = MAMA_SUBSCRIPTION_SETUP \<or> mState s = MAMA_SUBSCRIPTION_DEACTIVATED"
    using that life_set_up [OF assms(2)] by (intro account_destroy_inactive [OF assms(1,3)]) (auto simp: is_set_up_def)
  moreover have "account d (mamaSubscriptionImpl_setState MAMA_SUBSCRIPTION_DESTROYING s)" if "mState s = MAMA_SUBSCRIPTION_DEACTIVATING"
    using assms(1,3) by (rule account_within [where us = "[MAMA_SUBSCRIPTION_DESTROYING]"]) (use that in \<open>simp_all add: is_set_up_def\<close>)
  ultimately show ?thesis using assms(3) by (cases "mState s") (auto simp: destroy_section_def)
qed

lemma account_destroy:
  assumes "subsc_inv d s" and "mamaSubscription_destroy env s = Some (s', ret)"
  shows "account d s'"
proof -
  obtain s1 r where d: "mamaSubscription_deactivate env s = Some (s1, r)" "destroy_section s1 = (s', ret)"
    using assms(2) by (rule destroy_parts)
  have m: "machine_inv s1" using assms(1) d(1) machine_deactivate by (auto simp: subsc_inv_def)
  have l: "life_ok d s1" using assms(1) d(1) life_deactivate [of d s env] by (metis option.inject prod.inject subsc_inv_def)
  show ?thesis using account_section [OF m l account_deactivate [OF assms(1) d(1)]] d(2) by simp
qed

lemma account_setup:
  assumes "good env" and "subsc_inv d s" and "setup_allowed s"
    and "mamaSubscription_setupBasic env tr q (Some d) src sy c s = Some (s', ret)"
  shows "account d s'"
proof -
  have m: "machine_inv s" and a: "account d s" using assms(2) by (simp_all add: subsc_inv_def)
  have n: "\<not> is_set_up (mState s)" using life_idle assms(2,3) by (auto simp: subsc_inv_def)
  have same: "objs r s1 = objs r s \<and> ends s1 = ends s" if "same_life s s1" "r \<in> main_objects" for s1 r
    using that(2,1) by (elim main_cases) (simp_all add: objs_def ends_def same_life_def)
  have e: "same_life s s1 \<Longrightarrow> ends s1 = ends s" for s1 by (simp add: ends_def same_life_def)
  from assms(4) show ?thesis
  proof (cases rule: setupBasic_cases)
    case 1
    then have st: "mState s' = mState s" "state_trace s' = state_trace s" by (simp_all add: same_life_def)
    show ?thesis using m a n
      by (rule account_outside [where us = "[]"]) (use 1 st n same e in \<open>auto\<close>)
  next
    case (2 s0)
    have t: "mType s0 = mType s" "state_trace s0 = state_trace s" using 2(2) by (simp_all add: same_life_def)
    show ?thesis unfolding 2(1) using m a n
      by (rule account_begin [where us = "[]" and u = MAMA_SUBSCRIPTION_SETUP and b = True])
        (use 2 t e same assms(1) in \<open>simp_all add: good_def is_set_up_def\<close>)
  qed
qed

lemma account_basic:
  assumes "good env" and "subsc_inv d s" and "mamaSubscriptionImpl_createBasic env tr q (Some d) tp c s = (s', ret)"
  shows "account d s'"
proof -
  have m: "machine_inv s" and l: "life_ok d s" and a: "account d s" using assms(2) by (simp_all add: subsc_inv_def)
  have same: "objs r s1 = objs r s \<and> ends s1 = ends s" if "same_life (s\<lparr>mType := ty\<rparr>) s1" "r \<in> main_objects" for s1 r ty
    using that(2,1) by (elim main_cases) (simp_all add: objs_def ends_def same_life_def)
  have e: "same_life (s\<lparr>mType := ty\<rparr>) s1 \<Longrightarrow> ends s1 = ends s" for s1 ty by (simp add: ends_def same_life_def)
  from assms(1,3) show ?thesis
  proof (cases rule: createBasic_cases)
    case 2
    have n: "\<not> is_set_up (mState s)" using life_idle [OF l 2(1)] by simp
    have st: "mState s' = mState s" "state_trace s' = state_trace s" using 2 by (simp_all add: same_life_def)
    show ?thesis using m a n
      by (rule account_outside [where us = "[]"]) (use 2 st n same [of "mType s"] e [of "mType s"] in auto)
  next
    case (3 s0)
    have n: "\<not> is_set_up (mState s)" using life_idle [OF l 3(7)] by simp
    have t: "mType s0 = MAMA_SUBSC_TYPE_BASIC" "state_trace s0 = state_trace s" using 3(2) by (simp_all add: same_life_def)
    have f: "objs r s0 = (fst (objs r s), fst (snd (objs r s)), False)" if "r \<in> main_objects" for r
      using same [OF 3(2) that] a n that by (auto simp: account_def has_objs prod_eq_iff)
    show ?thesis unfolding 3(1) using m a n
      by (rule account_begin [where us = "[MAMA_SUBSCRIPTION_ACTIVATED]" and u = MAMA_SUBSCRIPTION_ACTIVATING and b = False])
        (use 3 t f e in \<open>auto simp: is_set_up_def main_objects_def\<close>)
  qed (use a in simp)
qed

lemma account_deallocate:
  assumes "subsc_inv d s" shows "account d (fst (mamaSubscription_deallocate s))"
proof -
  have m: "machine_inv s" and a: "account d s" using assms by (simp_all add: subsc_inv_def)
  have "account d (mamaSubscriptionImpl_deallocate s)" if "setup_allowed s"
    using m a
    by (rule account_outside [where us = "[MAMA_SUBSCRIPTION_DEALLOCATED]" and u = MAMA_SUBSCRIPTION_DEALLOCATED])
      (use that in \<open>auto simp: setup_allowed_def is_set_up_def\<close>)
  moreover have "account d (mamaSubscriptionImpl_setState MAMA_SUBSCRIPTION_DEALLOCATING s)" if "mState s = MAMA_SUBSCRIPTION_DESTROYING"
    using m a by (rule account_within [where us = "[MAMA_SUBSCRIPTION_DEALLOCATING]"]) (use that in \<open>simp_all add: is_set_up_def\<close>)
  ultimately show ?thesis
    using a by (cases "mState s") (simp_all add: mamaSubscription_deallocate_def setup_allowed_def)
qed

lemma account_configure:
  assumes "subsc_inv d s" and "setup_allowed s"
  shows "account d (s\<lparr>mType := ty, mServiceLevel := lvl, mRequiresInitial := ri, mGroupSizeHint := n\<rparr>)" (is "account d ?s")
proof -
  have m: "machine_inv s" and a: "account d s" using assms(1) by (simp_all add: subsc_inv_def)
  have n: "\<not> is_set_up (mState s)" using life_idle assms by (auto simp: subsc_inv_def)
  have "objs r ?s = objs r s" for r by (cases r) (simp_all add: objs_def)
  moreover have "ends ?s = ends s" by (simp add: ends_def)
  ultimately show ?thesis using m a n by (intro account_outside [OF m a n, where us = "[]"]) simp_all
qed

lemma account_cancel: "account d s \<Longrightarrow> account d (fst (mamaSubscription_cancel s))"
  by (simp add: mamaSubscription_cancel_def account_def has_objs)

lemma subsc_inv_step:
  assumes "subsc_inv d s" and "subsc_step good d s s'"
  shows "subsc_inv d s'"
proof -
  have m: "machine_inv s'" and l: "life_ok d s'" using assms machine_step life_step by (auto simp: subsc_inv_def)
  have a: "account d s" "machine_inv s" "life_ok d s" using assms(1) by (simp_all add: subsc_inv_def)
  from assms(2) have "account d s'"
  proof cases
    case set_up
    from set_up(3) show ?thesis using account_setup [OF set_up(1) assms(1)] a by (cases rule: setups) auto
  next
    case set_up2
    from set_up2(3) show ?thesis using account_setup [OF set_up2(1) assms(1)] a by (cases rule: setups2) auto
  next
    case (throttle env h)
    let ?s = "s\<lparr>throttleQueue := remove1 h (throttleQueue s)\<rparr>"
    have "mState s = MAMA_SUBSCRIPTION_ACTIVATING" using a(3) throttle(3) by (auto simp: life_ok_def queue_ok_def split: if_splits)
    moreover have "machine_inv ?s" using a(2) by (simp add: machine_inv_def bridge_ok_def is_snapshot_def)
    moreover have "account d ?s" using a(1) by (simp add: account_def has_objs)
    ultimately show ?thesis unfolding throttle(1) using throttle(2) by (intro account_createAction) simp_all
  qed (use assms(1) a account_basic account_activate account_deactivate account_destroy account_section account_deallocate account_configure account_cancel
        account_reports in \<open>metis fst_conv\<close>)+
  with m l show ?thesis by (simp add: subsc_inv_def)
qed

lemma subsc_inv_init: "subsc_init s \<Longrightarrow> subsc_inv d s"
  using machine_init life_init
  by (auto simp: subsc_inv_def account_def main_objects_def subsc_init_def mamaSubscription_allocate_def objs_def ends_def is_set_up_def)

interpretation subsc: invariant_system subsc_init "subsc_step good d" "subsc_inv d"
  by unfold_locales (use subsc_inv_init subsc_inv_step in blast)+

subsection \<open>Properties\<close>

text \<open>An environment for examples, and a subscription that was made active in it.\<close>

definition demo_answers :: "bool \<Rightarrow> subsc_env" where
  "demo_answers now =
    \<lparr>eBridgeImpl = True, eMapSymbol = (\<lambda>y. y), eGroupSizeHint = 0, ePublisher = MAMA_STATUS_OK, eInitialRequest = MAMA_STATUS_OK,
     eRecapRequest = MAMA_STATUS_OK, eCallback = MAMA_STATUS_OK, eDqStrategy = MAMA_STATUS_OK, eThrottle = Queues 7,
     eAddSubscription = MAMA_STATUS_OK, eBridgeCreate = MAMA_STATUS_OK, eBridgeIsValid = True, eHasWildcards = False,
     eSubjectTable = True, eWaiting = (\<lambda>_. False), eDestroysNow = now\<rparr>"

definition demo_allocated :: mamaSubscriptionImpl where
  "demo_allocated = the (fst (mamaSubscription_allocate True))"

definition demo_setup :: mamaSubscriptionImpl where
  "demo_setup = fst (the (mamaSubscription_setup2 (demo_answers False) True True (Some True) (Some ''SRC'') (Some ''IBM'') 0 demo_allocated))"

definition demo_queued :: mamaSubscriptionImpl where
  "demo_queued = fst (mamaSubscription_activate (demo_answers False) demo_setup)"

definition demo_active :: mamaSubscriptionImpl where
  "demo_active = createAction (demo_answers False) (demo_queued\<lparr>throttleQueue := []\<rparr>)"

lemma demo_good: "good (demo_answers now)"
  by (simp add: good_def objects_ok_def demo_answers_def)

lemma demo_states:
  "mState demo_setup = MAMA_SUBSCRIPTION_SETUP" "mState demo_queued = MAMA_SUBSCRIPTION_ACTIVATING"
  "mState demo_active = MAMA_SUBSCRIPTION_ACTIVATED" "throttleQueue demo_queued = [7]" "is_snapshot demo_active = False"
  by code_simp+

lemma demo_reachable:
  assumes "\<And>now. P (demo_answers now)" shows "reachable subsc_init (subsc_step P True) demo_active"
proof -
  let ?step = "subsc_step P True"
  have s0: "reachable subsc_init ?step demo_allocated"
    by (rule reach_init) (simp add: subsc_init_def demo_allocated_def mamaSubscription_allocate_def)
  have "mamaSubscription_setup2 (demo_answers False) True True (Some True) (Some ''SRC'') (Some ''IBM'') 0 demo_allocated \<noteq> None"
    by code_simp
  then have "?step demo_allocated demo_setup"
    by (intro set_up2 [where P = P and env = "demo_answers False" and ret = "snd (the (mamaSubscription_setup2 (demo_answers False) True True (Some True) (Some ''SRC'') (Some ''IBM'') 0 demo_allocated))"])
      (auto simp: assms demo_setup_def demo_allocated_def mamaSubscription_allocate_def)
  then have s1: "reachable subsc_init ?step demo_setup" using s0 reach_step by metis
  have "?step demo_setup demo_queued"
    by (rule activate [where P = P and env = "demo_answers False" and ret = "snd (mamaSubscription_activate (demo_answers False) demo_setup)"])
      (simp_all add: assms demo_states demo_queued_def)
  then have s2: "reachable subsc_init ?step demo_queued" using s1 reach_step by metis
  have "?step demo_queued demo_active"
    using throttle [of P "demo_answers False" 7 demo_queued True] assms by (simp add: demo_active_def demo_states)
  then show ?thesis using s2 reach_step by metis
qed

text \<open>C10: whatever the other components answer and in whatever order the application, the throttle and the bridge
  act, the states that a subscription goes through are documented ones and each change of state is one of the edges of \<open>subsc_edges\<close>, and a bridge
  subscription exists only while the subscription is active.\<close>

theorem subsc_state_machine:
  assumes "reachable subsc_init (subsc_step (\<lambda>_. True) d) s"
  shows "successively (\<lambda>new old. (old, new) \<in> set subsc_edges) (state_trace s) \<and> hd (state_trace s) = mState s \<and>
    last (state_trace s) = MAMA_SUBSCRIPTION_ALLOCATED \<and> (mSubscBridge s \<longrightarrow> mState s = MAMA_SUBSCRIPTION_ACTIVATED)"
  using machine.reachable_inv [OF assms]
  by (auto simp: machine_inv_def path_ok_def bridge_ok_def)

theorem subsc_state_machine_witness:
  "successively (\<lambda>new old. (old, new) \<in> set subsc_edges) (state_trace demo_active) \<and>
   last (state_trace demo_active) = MAMA_SUBSCRIPTION_ALLOCATED"
  using subsc_state_machine [OF demo_reachable [where P = "\<lambda>_. True"]] by simp

text \<open>C9: when the other components do what they are asked to (\<open>good\<close>), then in every interleaving: a create action waits on
  the throttle exactly while the subscription is activating, the bridge owes one report exactly while it is being
  deactivated, reactivated, destroyed or deallocated, a bridge subscription exists exactly in the active state
  (none for snapshots), nothing is outstanding once the subscription is freed, and neither deactivation nor
  destruction makes an invalid memory access.\<close>

theorem subsc_outstanding:
  assumes "reachable subsc_init (subsc_step good d) s"
  shows "(throttleQueue s \<noteq> [] \<longleftrightarrow> mState s = MAMA_SUBSCRIPTION_ACTIVATING) \<and> length (throttleQueue s) \<le> 1 \<and>
    bridgeCallbacks s = of_bool (mState s \<in> {MAMA_SUBSCRIPTION_DEACTIVATING, MAMA_SUBSCRIPTION_REACTIVATING,
      MAMA_SUBSCRIPTION_DESTROYING, MAMA_SUBSCRIPTION_DEALLOCATING}) \<and>
    (mSubscBridge s \<longleftrightarrow> mState s = MAMA_SUBSCRIPTION_ACTIVATED \<and> (mType s = MAMA_SUBSC_TYPE_BASIC \<or> \<not> is_snapshot s)) \<and>
    (mState s = MAMA_SUBSCRIPTION_DEALLOCATED \<longrightarrow> throttleQueue s = [] \<and> bridgeCallbacks s = 0 \<and> \<not> mSubscBridge s) \<and>
    mamaSubscription_deactivate env s \<noteq> None \<and> mamaSubscription_destroy env s \<noteq> None"
proof -
  have l: "life_ok d s" using subsc.reachable_inv [OF assms] by (simp add: subsc_inv_def)
  have q: "(throttleQueue s \<noteq> [] \<longleftrightarrow> mState s = MAMA_SUBSCRIPTION_ACTIVATING) \<and> length (throttleQueue s) \<le> 1"
    using l by (auto simp: life_ok_def queue_ok_def split: if_splits)
  have b: "bridgeCallbacks s = of_bool (ending (mState s))" "mSubscBridge s \<longleftrightarrow> mState s = MAMA_SUBSCRIPTION_ACTIVATED \<and> bridged s"
    using l by (simp_all add: life_ok_def core_ok_def)
  have "mamaSubscription_deactivate env s \<noteq> None" "mamaSubscription_destroy env s \<noteq> None"
    using life_deactivate [OF l] life_destroy [OF l] by (metis option.distinct(1))+
  then show ?thesis using q b by (auto simp: ending_def bridged_def)
qed

theorem subsc_outstanding_witness:
  "throttleQueue demo_active = [] \<and> bridgeCallbacks demo_active = 0 \<and> mSubscBridge demo_active"
  using subsc_outstanding [OF demo_reachable [where P = good], of "demo_answers False"] by (simp add: demo_states demo_good)

text \<open>C8: destruction completes. The other components do what they are asked to (\<open>good\<close>: the objects of the set-up are created, the bridge creates its
  subscription, the transport registers it and the throttle does not refuse an action; without this a subscription can hang, \<open>subsc_basic_failure_stuck\<close> and
  \<open>subsc_bridge_failure_hangs\<close>), and no other thread acts between the two critical sections of the call. Then destroying a subscription in every reachable state in
  which it is set up, except the state \<open>DEALLOCATING\<close>, is accepted, and once the report of the bridge has come, if one is owed, the
  subscription is destroyed, its publisher, initial request, message callback, data quality strategy and bridge subscription are gone, and the function for
  the destruction, if the application gave one, has been called once for each time the subscription was set up.\<close>

theorem subsc_destroy_completes:
  assumes "reachable subsc_init (subsc_step good d) s" and "is_set_up (mState s)" and "mState s \<noteq> MAMA_SUBSCRIPTION_DEALLOCATING"
    and "good env" and "good env'"
  shows "\<exists>s1 s2. mamaSubscription_destroy env s = Some (s1, MAMA_STATUS_OK) \<and>
    s2 = (if bridgeCallbacks s1 = 0 then s1 else bridge_reports env' s1) \<and>
    mState s2 = MAMA_SUBSCRIPTION_DESTROYED \<and> bridgeCallbacks s2 = 0 \<and> throttleQueue s2 = [] \<and>
    \<not> mSubscPublisher s2 \<and> \<not> mInitialRequest s2 \<and> \<not> mCallback s2 \<and> \<not> mDqStrategy s2 \<and> \<not> mSubscBridge s2 \<and>
    (d \<longrightarrow> ends s2 = lives (state_trace s2))"
proof -
  have i: "subsc_inv d s" using subsc.reachable_inv [OF assms(1)] .
  then obtain s1 where s1: "mamaSubscription_destroy env s = Some (s1, MAMA_STATUS_OK)"
    "mState s1 = MAMA_SUBSCRIPTION_DESTROYED \<or> mState s1 = MAMA_SUBSCRIPTION_DESTROYING"
    using life_destroy [of d s env] assms(2,3) by (metis insertE singletonD subsc_inv_def)
  let ?s2 = "if bridgeCallbacks s1 = 0 then s1 else bridge_reports env' s1"
  have "mState s \<noteq> MAMA_SUBSCRIPTION_DEALLOCATED" using assms(2) by (auto simp: is_set_up_def)
  then have i1: "subsc_inv d s1" using subsc_inv_step [OF i] destroy [where P = good] assms(4) s1(1) by blast
  then have "bridgeCallbacks s1 = of_bool (ending (mState s1))" by (simp add: subsc_inv_def life_ok_def core_ok_def)
  moreover have "subsc_inv d (bridge_reports env' s1)" if "0 < bridgeCallbacks s1"
    using subsc_inv_step [OF i1 reports [where P = good]] assms(5) that by simp
  moreover have "mState (bridge_reports env' s1) = MAMA_SUBSCRIPTION_DESTROYED" if "mState s1 = MAMA_SUBSCRIPTION_DESTROYING"
    using that by (simp add: bridge_reports_eq destroy_inactive_def)
  ultimately have s2: "subsc_inv d ?s2" "mState ?s2 = MAMA_SUBSCRIPTION_DESTROYED" using i1 s1(2) by (auto simp: ending_def)
  have "\<forall>r \<in> main_objects. \<not> has r ?s2" "d \<longrightarrow> ends ?s2 = lives (state_trace ?s2)"
    using s2 by (simp_all add: subsc_inv_def account_def is_set_up_def)
  moreover have "bridgeCallbacks ?s2 = 0 \<and> throttleQueue ?s2 = [] \<and> \<not> mSubscBridge ?s2"
    using s2 by (simp add: subsc_inv_def life_ok_def core_ok_def queue_ok_def ending_def)
  ultimately show ?thesis
    using s1(1) s2(2) by (intro exI [of _ s1] exI [of _ ?s2]) (simp add: main_objects_def)
qed

theorem subsc_destroy_completes_witness:
  "\<exists>s1. mamaSubscription_destroy (demo_answers False) demo_active = Some (s1, MAMA_STATUS_OK) \<and> bridgeCallbacks s1 = 1 \<and>
     mState (bridge_reports (demo_answers False) s1) = MAMA_SUBSCRIPTION_DESTROYED"
proof -
  have "bridgeCallbacks (fst (the (mamaSubscription_destroy (demo_answers False) demo_active))) = 1" by code_simp
  then show ?thesis
    using subsc_destroy_completes [OF demo_reachable [where P = good], of "demo_answers False" "demo_answers False"]
    by (auto simp: demo_good demo_states is_set_up_def)
qed

text \<open>C11: accounting, for four kinds of objects and when the other components do what they are asked to (\<open>good\<close>): in every interleaving, the publisher, the
  initial request, the message callback and the data quality strategy were each destroyed as often as they were created, but for the ones that a set-up market
  data subscription has; and the function for the destruction, if the application gave one, was called once for every life of the subscription that
  is over. The recap request and the share in the open objects of the queue are not among them: they can be lost (\<open>subsc_leaks\<close>).\<close>

theorem subsc_accounting:
  assumes "reachable subsc_init (subsc_step good d) s" and "r \<in> {Publisher, InitialRequest, MsgCallback, DqStrategy}"
  shows "count_list (effects s) (Created r) =
      count_list (effects s) (Destroyed r) + of_bool (is_set_up (mState s) \<and> mType s \<noteq> MAMA_SUBSC_TYPE_BASIC) \<and>
    (d \<longrightarrow> count_list (effects s) OnDestroy + of_bool (is_set_up (mState s)) = lives (state_trace s))"
proof -
  have a: "account d s" using subsc.reachable_inv [OF assms(1)] by (simp add: subsc_inv_def)
  have m: "r \<in> main_objects" using assms(2) by (simp add: main_objects_def)
  have "\<forall>r \<in> main_objects. fst (objs r s) = fst (snd (objs r s)) + of_bool (has r s) \<and>
        (has r s \<longleftrightarrow> is_set_up (mState s) \<and> mType s \<noteq> MAMA_SUBSC_TYPE_BASIC)"
    using a by (simp add: account_def)
  from bspec [OF this m] have "fst (objs r s) = fst (snd (objs r s)) + of_bool (is_set_up (mState s) \<and> mType s \<noteq> MAMA_SUBSC_TYPE_BASIC)"
    by simp
  then show ?thesis using a by (simp add: account_def objs_def ends_def)
qed

theorem subsc_accounting_witness:
  "count_list (effects demo_active) (Created Publisher) = count_list (effects demo_active) (Destroyed Publisher) + 1"
proof -
  have "mType demo_active = MAMA_SUBSC_TYPE_NORMAL" by code_simp
  then show ?thesis
    using subsc_accounting [OF demo_reachable [where P = good], of Publisher] by (simp add: demo_good demo_states is_set_up_def)
qed

text \<open>A basic subscription whose bridge subscription could not be created stays in the activating state for
  good: it can neither be destroyed nor deallocated nor created again.\<close>

lemma subsc_basic_failure_stuck:
  assumes "setup_allowed s" and "eBridgeImpl env" and "eBridgeCreate env = st" and "st \<noteq> MAMA_STATUS_OK" and "tp \<noteq> []"
  shows "\<exists>s'. mamaSubscriptionImpl_createBasic env True True cbs (Some tp) c s = (s', st) \<and> mState s' = MAMA_SUBSCRIPTION_ACTIVATING \<and>
    mamaSubscription_destroy env' s' = Some (s', MAMA_STATUS_SUBSCRIPTION_INVALID_STATE) \<and>
    mamaSubscription_deallocate s' = (s', MAMA_STATUS_SUBSCRIPTION_INVALID_STATE) \<and>
    mamaSubscription_activate env' s' = (s', MAMA_STATUS_SUBSCRIPTION_INVALID_TYPE) \<and>
    mamaSubscriptionImpl_createBasic env' True True cbs (Some tp) c s' = (s', MAMA_STATUS_SUBSCRIPTION_INVALID_STATE)"
  using assms
  by (simp add: mamaSubscriptionImpl_createBasic_def mamaSubscriptionImpl_completeBasicInitialisation_def
      bridgeMamaSubscriptionCreate_def setup_allowed_def mamaSubscription_destroy_def destroy_section_def mamaSubscription_deactivate_def
      deactivate_basic_def mamaSubscription_deallocate_def mamaSubscription_activate_def Let_def)

text \<open>The result of creating the bridge subscription of a market data subscription is not looked at. When it
  fails, the subscription counts as active, its destruction is accepted, and it waits for a report of the bridge
  that no bridge subscription owes: it is never destroyed and the application is never told.\<close>

lemma subsc_bridge_failure_hangs:
  assumes "mState s = MAMA_SUBSCRIPTION_ACTIVATING" and "\<not> is_snapshot s" and "mType s \<noteq> MAMA_SUBSC_TYPE_BASIC" and "\<not> mSubscBridge s"
    and "eAddSubscription env = MAMA_STATUS_OK" and "eBridgeCreate env \<noteq> MAMA_STATUS_OK"
  shows "\<exists>s1 s2. s1 = createAction env s \<and> mState s1 = MAMA_SUBSCRIPTION_ACTIVATED \<and> OnCreate \<in> set (effects s1) \<and>
    mamaSubscription_destroy env' s1 = Some (s2, MAMA_STATUS_OK) \<and> mState s2 = MAMA_SUBSCRIPTION_DESTROYING \<and>
    bridgeCallbacks s2 = bridgeCallbacks s \<and> ends s2 = ends s \<and>
    mamaSubscription_destroy env' s2 = Some (s2, MAMA_STATUS_OK)"
proof -
  let ?s1 = "createAction env s"
  have f: "mState ?s1 = MAMA_SUBSCRIPTION_ACTIVATED" "\<not> mSubscBridge ?s1" "mType ?s1 = mType s" "is_snapshot ?s1 = is_snapshot s"
    "bridgeCallbacks ?s1 = bridgeCallbacks s" "OnCreate \<in> set (effects ?s1)"
    using assms by (simp_all add: createAction_def mamaSubscriptionImpl_completeMarketDataInitialisation_def is_snapshot_def Let_def)
  let ?s2 = "mamaSubscriptionImpl_setState MAMA_SUBSCRIPTION_DESTROYING (deactivating env' ?s1)"
  have "mamaSubscription_deactivate env' ?s1 = Some (deactivating env' ?s1, MAMA_STATUS_OK)"
    using f assms(2,3) by (simp add: deactivate_market)
  then have "mamaSubscription_destroy env' ?s1 = Some (?s2, MAMA_STATUS_OK)"
    using f by (simp add: mamaSubscription_destroy_def destroy_section_def reports_now_def)
  moreover have "mamaSubscription_destroy env' ?s2 = Some (?s2, MAMA_STATUS_OK)"
    using f assms(3) by (simp add: mamaSubscription_destroy_def destroy_section_def mamaSubscription_deactivate_def)
  ultimately show ?thesis using f by (intro exI [of _ ?s1] exI [of _ ?s2]) simp
qed

lemma setup_destroy_effects:
  assumes "mState s = MAMA_SUBSCRIPTION_SETUP" and "mType s \<noteq> MAMA_SUBSC_TYPE_BASIC"
  shows "mamaSubscription_destroy env s = Some (destroy_inactive s, MAMA_STATUS_OK)"
  using assms by (simp add: mamaSubscription_destroy_def destroy_section_def mamaSubscription_deactivate_def)

lemma destroy_inactive_counts:
  "mState (destroy_inactive s) = MAMA_SUBSCRIPTION_DESTROYED" "\<not> mRecapRequest (destroy_inactive s)"
  "count_list (effects (destroy_inactive s)) (Destroyed RecapRequest) =
     count_list (effects s) (Destroyed RecapRequest) + of_bool (mContextRecap s)"
  "count_list (effects (destroy_inactive s)) (Created QueueObject) = count_list (effects s) (Created QueueObject)"
  "count_list (effects (destroy_inactive s)) (Destroyed QueueObject) = count_list (effects s) (Destroyed QueueObject)"
  by (simp_all add: destroy_inactive_def mamaSubscriptionImpl_invokeDestroyedCallback_def mamaSubscription_cleanup_def Let_def)

lemma snapshot_update [simp]:
  "is_snapshot (s\<lparr>mAction := a\<rparr>) = is_snapshot s" "is_snapshot (s\<lparr>mEntitleSubject := e\<rparr>) = is_snapshot s"
  by (simp_all add: is_snapshot_def)

lemma queue_object_counts:
  "count_list (effects (mamaSubscription_initialize env s)) (Created QueueObject) = count_list (effects s) (Created QueueObject) + 1"
  "count_list (effects (mamaSubscription_initialize env s)) (Destroyed QueueObject) = count_list (effects s) (Destroyed QueueObject)"
proof -
  have "count_list (effects (bridgeMamaSubscriptionCreate env s)) (Created QueueObject) = count_list (effects s) (Created QueueObject)"
    "count_list (effects (configureForMultipleTopics env s)) (Created QueueObject) = count_list (effects s) (Created QueueObject)"
    "count_list (effects (bridgeMamaSubscriptionCreate env s)) (Destroyed QueueObject) = count_list (effects s) (Destroyed QueueObject)"
    "count_list (effects (configureForMultipleTopics env s)) (Destroyed QueueObject) = count_list (effects s) (Destroyed QueueObject)" for s
    by (simp_all add: bridgeMamaSubscriptionCreate_def configureForMultipleTopics_def)
  then show "count_list (effects (mamaSubscription_initialize env s)) (Created QueueObject) = count_list (effects s) (Created QueueObject) + 1"
    "count_list (effects (mamaSubscription_initialize env s)) (Destroyed QueueObject) = count_list (effects s) (Destroyed QueueObject)"
    by (simp_all add: mamaSubscription_initialize_def Let_def)
qed

text \<open>What destruction leaves behind: the recap request of a subscription that was set up and never activated is
  dropped without being destroyed, and a snapshot subscription never gives back its share in the open objects
  of its queue, because only the report of the bridge does, and a snapshot has none.\<close>

lemma subsc_leaks:
  "(mState s = MAMA_SUBSCRIPTION_SETUP \<and> mType s \<noteq> MAMA_SUBSC_TYPE_BASIC \<and> \<not> mContextRecap s \<and> mRecapRequest s \<longrightarrow>
      (\<exists>s'. mamaSubscription_destroy env s = Some (s', MAMA_STATUS_OK) \<and> mState s' = MAMA_SUBSCRIPTION_DESTROYED \<and>
        \<not> mRecapRequest s' \<and> count_list (effects s') (Destroyed RecapRequest) = count_list (effects s) (Destroyed RecapRequest))) \<and>
   (mState s = MAMA_SUBSCRIPTION_ACTIVATING \<and> mType s \<noteq> MAMA_SUBSC_TYPE_BASIC \<and> is_snapshot s \<and> \<not> mSubscBridge s \<longrightarrow>
      (\<exists>s'. mamaSubscription_destroy env (createAction env' s) = Some (s', MAMA_STATUS_OK) \<and> mState s' = MAMA_SUBSCRIPTION_DESTROYED \<and>
        count_list (effects s') (Created QueueObject) = count_list (effects s) (Created QueueObject) + 1 \<and>
        count_list (effects s') (Destroyed QueueObject) = count_list (effects s) (Destroyed QueueObject)))"
proof (intro conjI impI)
  assume "mState s = MAMA_SUBSCRIPTION_ACTIVATING \<and> mType s \<noteq> MAMA_SUBSC_TYPE_BASIC \<and> is_snapshot s \<and> \<not> mSubscBridge s"
  then have a: "mState s = MAMA_SUBSCRIPTION_ACTIVATING" "mType s \<noteq> MAMA_SUBSC_TYPE_BASIC" "is_snapshot s" "\<not> mSubscBridge s" by auto
  let ?s1 = "createAction env' s"
  have f: "mState ?s1 = MAMA_SUBSCRIPTION_ACTIVATED" "\<not> mSubscBridge ?s1" "mType ?s1 = mType s" "is_snapshot ?s1"
    "count_list (effects ?s1) (Created QueueObject) = count_list (effects s) (Created QueueObject) + 1"
    "count_list (effects ?s1) (Destroyed QueueObject) = count_list (effects s) (Destroyed QueueObject)"
    using a by (simp_all add: createAction_def mamaSubscriptionImpl_completeMarketDataInitialisation_def queue_object_counts Let_def)
  let ?s2 = "mamaSubscriptionImpl_setState MAMA_SUBSCRIPTION_DEACTIVATED (deactivating env ?s1)"
  have "mamaSubscription_destroy env ?s1 = Some (destroy_inactive ?s2, MAMA_STATUS_OK)"
    using f a(2) by (simp add: mamaSubscription_destroy_def destroy_section_def deactivate_market)
  moreover have "count_list (effects ?s2) (Created QueueObject) = count_list (effects ?s1) (Created QueueObject)"
    "count_list (effects ?s2) (Destroyed QueueObject) = count_list (effects ?s1) (Destroyed QueueObject)"
    using f(2) by (simp_all add: deactivating_def mamaSubscription_deactivate_internal_def Let_def)
  ultimately show "\<exists>s'. mamaSubscription_destroy env ?s1 = Some (s', MAMA_STATUS_OK) \<and> mState s' = MAMA_SUBSCRIPTION_DESTROYED \<and>
        count_list (effects s') (Created QueueObject) = count_list (effects s) (Created QueueObject) + 1 \<and>
        count_list (effects s') (Destroyed QueueObject) = count_list (effects s) (Destroyed QueueObject)"
    using f by (simp add: destroy_inactive_counts)
qed (use setup_destroy_effects destroy_inactive_counts in auto)

end
