(* ===== verification/Doubles.thy ===== *)
theory Doubles
  imports Complex_Main
begin

text \<open>
  The arithmetic of C doubles (IEEE 754 binary64, rounding to nearest, halves to even), as the prices and the date-times use it: a double is the rational number it stands for and
  every operation rounds its exact result by \<open>fl\<close>. A double has 53 significant bits and no bit below \<open>2 powi - 1074\<close>. Not represented: the sign of a zero,
  infinities (a result beyond the largest double keeps its exact exponent) and values that are not numbers.
\<close>

fun bit_length :: "nat \<Rightarrow> nat" where
  "bit_length n = (if n = 0 then 0 else Suc (bit_length (n div 2)))"

declare bit_length.simps [simp del]

definition binade :: "rat \<Rightarrow> int" where
  "binade x =
    (let (n, d) = quotient_of \<bar>x\<bar>; e = int (bit_length (nat n)) - int (bit_length (nat d))
     in if 2 powi e \<le> \<bar>x\<bar> then e else e - 1)"

definition round_even :: "rat \<Rightarrow> int" where
  "round_even x = (let i = \<lfloor>x\<rfloor>; f = x - of_int i in if f < 1 / 2 \<or> f = 1 / 2 \<and> even i then i else i + 1)"

definition ulp_exponent :: "rat \<Rightarrow> int" where
  "ulp_exponent x = max (binade x - 52) (- 1074)"

definition fl :: "rat \<Rightarrow> rat" where
  "fl x = (if x = 0 then 0 else of_int (round_even (x / 2 powi ulp_exponent x)) * 2 powi ulp_exponent x)"

text \<open>The numbers that are doubles.\<close>

definition is_double :: "rat \<Rightarrow> bool" where
  "is_double y \<longleftrightarrow> (\<exists>n z. y = of_int n * 2 powi z \<and> \<bar>n\<bar> \<le> 2 ^ 53 \<and> - 1074 \<le> z)"

subsection \<open>The binade of a number\<close>

lemma bit_length_bounds:
  assumes "0 < n"
  shows "0 < bit_length n" and "2 ^ (bit_length n - 1) \<le> n" and "n < 2 ^ bit_length n"
proof -
  have "0 < bit_length n \<and> 2 ^ (bit_length n - 1) \<le> n \<and> n < 2 ^ bit_length n" using assms
  proof (induction n rule: bit_length.induct)
    case (1 n)
    show ?case
    proof (cases "n = 1")
      case True then show ?thesis by (simp add: bit_length.simps)
    next
      case False
      then have h: "0 < n div 2" "n \<noteq> 0" using 1 by auto
      have b: "0 < bit_length (n div 2)" "2 ^ (bit_length (n div 2) - 1) \<le> n div 2" "n div 2 < 2 ^ bit_length (n div 2)" using 1 h by auto
      then have "2 ^ bit_length (n div 2) \<le> n"
        by (cases "bit_length (n div 2)") auto
      then show ?thesis using b(3) h(2) by (subst (1 2 3) bit_length.simps) auto
    qed
  qed
  then show "0 < bit_length n" and "2 ^ (bit_length n - 1) \<le> n" and "n < 2 ^ bit_length n" by auto
qed

lemma binade_bounds:
  assumes "x \<noteq> 0"
  shows "2 powi binade x \<le> \<bar>x\<bar>" and "\<bar>x\<bar> < 2 powi (binade x + 1)"
proof -
  obtain n d where q: "quotient_of \<bar>x\<bar> = (n, d)" by force
  have d: "0 < d" and x: "\<bar>x\<bar> = of_int n / of_int d" using quotient_of_denom_pos [OF q] quotient_of_div [OF q] by auto
  have n: "0 < n" using x d assms by (metis of_int_0_less_iff zero_less_abs_iff zero_less_divide_iff not_less_iff_gr_or_eq)
  let ?a = "bit_length (nat n)" and ?b = "bit_length (nat d)"
  have N: "0 < ?a" "2 ^ (?a - 1) \<le> nat n" "nat n < 2 ^ ?a" and D: "0 < ?b" "2 ^ (?b - 1) \<le> nat d" "nat d < 2 ^ ?b"
    using bit_length_bounds [of "nat n"] bit_length_bounds [of "nat d"] n d by auto
  have r: "(2 :: rat) ^ (?a - 1) \<le> of_int n" "of_int n < (2 :: rat) ^ ?a" "(2 :: rat) ^ (?b - 1) \<le> of_int d" "of_int d < (2 :: rat) ^ ?b"
    using N D n d by (smt (verit, best) le_nat_iff nat_less_iff of_int_le_iff of_int_less_iff of_int_numeral of_int_power of_nat_numeral of_nat_power)+
  have p: "(2 :: rat) ^ ?a = 2 powi int ?a" "(2 :: rat) ^ ?b = 2 powi int ?b" "(2 :: rat) ^ (?a - 1) = 2 powi (int ?a - 1)" "(2 :: rat) ^ (?b - 1) = 2 powi (int ?b - 1)"
    using N(1) D(1) by (simp_all add: power_int_def nat_diff_distrib)
  have lo: "2 powi (int ?a - int ?b - 1) \<le> \<bar>x\<bar>"
  proof -
    have "2 powi (int ?a - int ?b - 1) = (2 :: rat) powi (int ?a - 1) / 2 powi int ?b" by (simp add: power_int_diff)
    also have "\<dots> \<le> of_int n / of_int d" using r d n unfolding p by (intro frac_le) auto
    finally show ?thesis by (simp add: x)
  qed
  have hi: "\<bar>x\<bar> < 2 powi (int ?a - int ?b + 1)"
  proof -
    have "of_int n / of_int d < (2 :: rat) powi int ?a / 2 powi (int ?b - 1)" using r d n unfolding p by (intro frac_less) auto
    also have "\<dots> = 2 powi (int ?a - int ?b + 1)" by (simp add: power_int_diff power_int_add)
    finally show ?thesis by (simp add: x)
  qed
  show "2 powi binade x \<le> \<bar>x\<bar>" and "\<bar>x\<bar> < 2 powi (binade x + 1)"
    using lo hi by (auto simp: binade_def q Let_def not_le)
qed

subsection \<open>Rounding\<close>

lemma round_even_int [simp]: "round_even (of_int i) = i"
  by (simp add: round_even_def)

lemma round_even_error: "\<bar>of_int (round_even x) - x\<bar> \<le> 1 / 2"
proof -
  have b: "of_int \<lfloor>x\<rfloor> \<le> x" "x < of_int \<lfloor>x\<rfloor> + 1" by linarith+
  have "\<bar>of_int \<lfloor>x\<rfloor> - x\<bar> \<le> 1 / 2" if "x - of_int \<lfloor>x\<rfloor> \<le> 1 / 2" using that b by linarith
  moreover have "\<bar>of_int (\<lfloor>x\<rfloor> + 1) - x\<bar> \<le> 1 / 2" if "\<not> x - of_int \<lfloor>x\<rfloor> < 1 / 2" using that b by simp
  ultimately show ?thesis unfolding round_even_def Let_def by (simp del: of_int_add)
qed

lemma round_even_nearest: "\<bar>of_int (round_even x) - x\<bar> \<le> \<bar>of_int j - x\<bar>"
proof -
  consider "j = round_even x" | "j \<le> round_even x - 1" | "round_even x + 1 \<le> j" by linarith
  then show ?thesis
  proof cases
    case 2
    then have "(of_int j :: rat) \<le> of_int (round_even x) - 1" by (metis of_int_1 of_int_diff of_int_le_iff)
    then show ?thesis using round_even_error [of x] by linarith
  next
    case 3
    then have "(of_int (round_even x) :: rat) + 1 \<le> of_int j" by (metis of_int_1 of_int_add of_int_le_iff)
    then show ?thesis using round_even_error [of x] by linarith
  qed simp
qed

lemma fl_0 [simp]: "fl 0 = 0"
  by (simp add: fl_def)

lemma powi2_mono: "a \<le> b \<Longrightarrow> (2 :: rat) powi a \<le> 2 powi b"
  by (simp add: power_int_increasing)

lemma powi2_whole: "a \<le> b \<Longrightarrow> \<exists>k. (2 :: rat) powi b = of_int k * 2 powi a"
proof -
  assume "a \<le> b"
  then have "(2 :: rat) powi b = 2 powi (b - a) * 2 powi a" by (simp flip: power_int_add)
  moreover have "(2 :: rat) powi (b - a) = of_int (2 ^ nat (b - a))" using \<open>a \<le> b\<close> by (simp add: power_int_def)
  ultimately show ?thesis by metis
qed

lemma fl_scaled: "x \<noteq> 0 \<Longrightarrow> fl x = of_int (round_even (x / 2 powi ulp_exponent x)) * 2 powi ulp_exponent x"
  by (simp add: fl_def)

lemma fl_multiple: "x = of_int i * 2 powi ulp_exponent x \<Longrightarrow> fl x = x"
proof -
  assume x: "x = of_int i * 2 powi ulp_exponent x"
  then have "x / 2 powi ulp_exponent x = of_int i" by (metis nonzero_mult_div_cancel_right power_int_eq_0_iff zero_neq_numeral)
  then show ?thesis using x by (cases "x = 0") (simp_all add: fl_scaled)
qed

lemma fl_nearest_multiple: "\<bar>fl x - x\<bar> \<le> \<bar>of_int j * 2 powi ulp_exponent x - x\<bar>"
proof (cases "x = 0")
  case False
  let ?u = "2 powi ulp_exponent x :: rat"
  have u: "0 < ?u" by simp
  have s: "\<bar>of_int i * ?u - x\<bar> = \<bar>of_int i - x / ?u\<bar> * ?u" for i
  proof -
    have "of_int i * ?u - x = (of_int i - x / ?u) * ?u" using u by (simp add: left_diff_distrib)
    then show ?thesis using u by (simp add: abs_mult)
  qed
  show ?thesis using round_even_nearest [of "x / ?u" j] False u by (simp add: fl_scaled s)
qed simp

lemma fl_error_ulp: "\<bar>fl x - x\<bar> \<le> 2 powi ulp_exponent x / 2"
proof (cases "x = 0")
  case False
  let ?u = "2 powi ulp_exponent x :: rat"
  have u: "0 < ?u" by simp
  have "fl x - x = (of_int (round_even (x / ?u)) - x / ?u) * ?u" using u False by (simp add: fl_scaled left_diff_distrib)
  then have "\<bar>fl x - x\<bar> = \<bar>of_int (round_even (x / ?u)) - x / ?u\<bar> * ?u" using u by (simp add: abs_mult)
  also have "\<dots> \<le> 1 / 2 * ?u" using round_even_error u by (intro mult_right_mono) auto
  finally show ?thesis by simp
qed simp


lemma ulp_small: "x \<noteq> 0 \<Longrightarrow> 2 powi ulp_exponent x \<le> (\<bar>x\<bar> + 1 / 4) / 2 ^ 52"
proof -
  assume "x \<noteq> 0"
  then have b: "2 powi binade x \<le> \<bar>x\<bar>" by (rule binade_bounds)
  have "2 powi (binade x - 52) = 2 powi binade x / (2 :: rat) ^ 52" by (simp add: power_int_diff)
  also have "\<dots> \<le> (\<bar>x\<bar> + 1 / 4) / 2 ^ 52" using b by (intro divide_right_mono) auto
  finally have 1: "2 powi (binade x - 52) \<le> (\<bar>x\<bar> + 1 / 4) / 2 ^ 52" .
  have "(2 :: rat) powi (- 1074) \<le> 2 powi (- 54)" by (rule powi2_mono) simp
  also have "\<dots> = 1 / 4 / 2 ^ 52" by (simp add: power_int_def power_one_over)
  also have "\<dots> \<le> (\<bar>x\<bar> + 1 / 4) / 2 ^ 52" by (intro divide_right_mono) auto
  finally have 2: "(2 :: rat) powi (- 1074) \<le> (\<bar>x\<bar> + 1 / 4) / 2 ^ 52" .
  show ?thesis using 1 2 unfolding ulp_exponent_def max_def by presburger
qed

text \<open>The error of a rounding is a unit in the 53rd place, or a fixed tiny amount.\<close>

lemma fl_error: "\<bar>fl x - x\<bar> \<le> (\<bar>x\<bar> + 1 / 4) / 2 ^ 53"
proof (cases "x = 0")
  case False
  then show ?thesis using fl_error_ulp [of x] ulp_small [of x] by simp
qed simp

text \<open>A double is rounded to itself.\<close>

lemma binade_double: "x = of_int n * 2 powi z \<Longrightarrow> \<bar>n\<bar> < 2 ^ k \<Longrightarrow> x \<noteq> 0 \<Longrightarrow> binade x < int k + z"
proof (rule ccontr)
  assume x: "x = of_int n * 2 powi z" and n: "\<bar>n\<bar> < 2 ^ k" "x \<noteq> 0" and b: "\<not> binade x < int k + z"
  have "\<bar>x\<bar> = of_int \<bar>n\<bar> * 2 powi z" by (simp add: x abs_mult)
  also have "\<dots> < of_int (2 ^ k) * 2 powi z" using n(1) by (intro mult_strict_right_mono) (simp_all only: of_int_less_iff, simp)
  also have "\<dots> = 2 powi (int k + z)" by (simp add: power_int_add)
  also have "\<dots> \<le> 2 powi binade x" using b by (intro powi2_mono) simp
  also have "\<dots> \<le> \<bar>x\<bar>" by (rule binade_bounds) (rule n)
  finally show False by simp
qed

lemma fl_exact_less: "fl x = x" if x: "x = of_int n * 2 powi z" and n: "\<bar>n\<bar> < 2 ^ 53" "- 1074 \<le> z"
proof (cases "x = 0")
  case False
  have "binade x < 53 + z" using binade_double [OF x n(1) False] by simp
  then have "ulp_exponent x \<le> z" using n(2) by (simp add: ulp_exponent_def)
  then obtain k where "(2 :: rat) powi z = of_int k * 2 powi ulp_exponent x" using powi2_whole by blast
  then have "x = of_int (n * k) * 2 powi ulp_exponent x" by (subst x) simp
  then show ?thesis by (rule fl_multiple)
qed simp

lemma fl_double: "is_double x \<Longrightarrow> fl x = x"
proof -
  assume "is_double x"
  then obtain n z where x: "x = of_int n * 2 powi z" "\<bar>n\<bar> \<le> 2 ^ 53" "- 1074 \<le> z" by (auto simp: is_double_def)
  show "fl x = x"
  proof (cases "\<bar>n\<bar> = 2 ^ 53")
    case True
    then obtain s where "n = s * 2 ^ 53" "\<bar>s\<bar> = 1" by (cases "n \<ge> 0") (auto intro: that [of 1] that [of "- 1"])
    then have "x = of_int s * 2 powi (z + 53)" "\<bar>s\<bar> < 2 ^ 53" using x(1) by (simp_all add: power_int_add)
    then show ?thesis using x(3) by (intro fl_exact_less [of x s "z + 53"]) simp_all
  next
    case False
    then show ?thesis using x by (intro fl_exact_less [of x n z]) simp_all
  qed
qed

lemma is_double_int: "\<bar>n\<bar> \<le> 2 ^ 53 \<Longrightarrow> is_double (of_int n)"
  unfolding is_double_def by (intro exI [of _ n] exI [of _ 0]) simp

lemma is_double_dyadic: "\<bar>n\<bar> \<le> 2 ^ 53 \<Longrightarrow> k \<le> 1074 \<Longrightarrow> is_double (of_int n / 2 ^ k)"
  unfolding is_double_def by (intro exI [of _ n] exI [of _ "- int k"]) (simp add: power_int_minus divide_inverse)

lemmas fl_int = fl_double [OF is_double_int]

lemmas fl_dyadic = fl_double [OF is_double_dyadic]

text \<open>A rounding gives a double, and no double is nearer to the exact result.\<close>

lemma fl_is_double: "is_double (fl x)"
proof (cases "x = 0")
  case True then show ?thesis using is_double_int [of 0] by simp
next
  case False
  let ?u = "ulp_exponent x"
  have "\<bar>x\<bar> < 2 powi (53 + ?u)"
  proof (rule less_le_trans)
    show "\<bar>x\<bar> < 2 powi (binade x + 1)" by (rule binade_bounds) (rule False)
    show "(2 :: rat) powi (binade x + 1) \<le> 2 powi (53 + ?u)" by (rule powi2_mono) (simp add: ulp_exponent_def)
  qed
  then have "\<bar>x\<bar> / 2 powi ?u < 2 ^ 53" by (simp add: divide_less_eq power_int_add)
  then have "\<bar>x / 2 powi ?u\<bar> < 2 ^ 53" by simp
  moreover have "\<bar>of_int (round_even (x / 2 powi ?u)) - x / 2 powi ?u\<bar> \<le> 1 / 2" by (rule round_even_error)
  ultimately have "\<bar>of_int (round_even (x / 2 powi ?u))\<bar> < (2 ^ 53 + 1 :: rat)" by linarith
  then have "of_int \<bar>round_even (x / 2 powi ?u)\<bar> < (of_int (2 ^ 53 + 1) :: rat)" by simp
  then have "\<bar>round_even (x / 2 powi ?u)\<bar> < 2 ^ 53 + 1" by (simp only: of_int_less_iff)
  moreover have "- 1074 \<le> ?u" by (simp add: ulp_exponent_def)
  ultimately show ?thesis using False unfolding is_double_def fl_def by (intro exI [of _ "round_even (x / 2 powi ?u)"] exI [of _ ?u]) simp
qed

text \<open>Computing a rounding when the binade is known.\<close>

lemma binade_unique: "binade x = e" if "2 powi e \<le> \<bar>x\<bar>" "\<bar>x\<bar> < 2 powi (e + 1)"
proof -
  have "(0 :: rat) < 2 powi e" by simp
  then have x: "x \<noteq> 0" using that(1) by (metis abs_zero leD)
  have "(2 :: rat) powi binade x < 2 powi (e + 1)" "(2 :: rat) powi e < 2 powi (binade x + 1)" using that binade_bounds [OF x] by linarith+
  then have "\<not> e + 1 \<le> binade x" "\<not> binade x + 1 \<le> e" using powi2_mono [of "e + 1" "binade x"] powi2_mono [of "binade x + 1" e] by linarith+
  then show ?thesis by simp
qed

lemma round_even_eq: "\<bar>x - of_int n\<bar> < 1 / 2 \<Longrightarrow> round_even x = n"
proof -
  assume "\<bar>x - of_int n\<bar> < 1 / 2"
  moreover have "\<bar>of_int (round_even x) - x\<bar> \<le> 1 / 2" by (rule round_even_error)
  ultimately have "\<bar>of_int (round_even x) - of_int n\<bar> < (1 :: rat)" by linarith
  then have "\<bar>round_even x - n\<bar> < 1" by (metis of_int_1 of_int_abs of_int_diff of_int_less_iff)
  then show ?thesis by simp
qed

lemma fl_compute: "fl x = of_int n * 2 powi (e - 52)"
  if "2 powi e \<le> \<bar>x\<bar>" "\<bar>x\<bar> < 2 powi (e + 1)" "- 1022 \<le> e" "\<bar>x / 2 powi (e - 52) - of_int n\<bar> < 1 / 2"
proof -
  have "(0 :: rat) < 2 powi e" by simp
  then have "x \<noteq> 0" using that(1) by (metis abs_zero leD)
  moreover have "ulp_exponent x = e - 52" using binade_unique [OF that(1,2)] that(3) by (simp add: ulp_exponent_def)
  ultimately show ?thesis using round_even_eq [OF that(4)] by (simp add: fl_scaled)
qed

lemma between_nearer: "\<bar>c - x\<bar> \<le> \<bar>y - x\<bar>" if "\<bar>y\<bar> \<le> \<bar>c\<bar>" "\<bar>c\<bar> \<le> \<bar>x\<bar>" "sgn c = sgn x" for c x y :: rat
  using that by (auto simp: sgn_if abs_if split: if_splits)

lemma fl_nearest: "\<bar>fl x - x\<bar> \<le> \<bar>y - x\<bar>" if "is_double y"
proof (cases "x = 0 \<or> (\<exists>j. y = of_int j * 2 powi ulp_exponent x)")
  case True then show ?thesis using fl_nearest_multiple [of x] by auto
next
  case False
  obtain n z where y: "y = of_int n * 2 powi z" "\<bar>n\<bar> \<le> 2 ^ 53" "- 1074 \<le> z" using \<open>is_double y\<close> by (auto simp: is_double_def)
  have z: "z < ulp_exponent x"
  proof (rule ccontr)
    assume "\<not> z < ulp_exponent x"
    then obtain k where "(2 :: rat) powi z = of_int k * 2 powi ulp_exponent x" using powi2_whole [of "ulp_exponent x" z] by auto
    then have "y = of_int (n * k) * 2 powi ulp_exponent x" by (simp add: y(1))
    then show False using False by blast
  qed
  then have u: "ulp_exponent x = binade x - 52" using y(3) by (simp add: ulp_exponent_def split: if_splits)
  let ?c = "sgn x * 2 powi binade x"
  have "\<bar>y\<bar> = of_int \<bar>n\<bar> * 2 powi z" by (simp add: y(1) abs_mult)
  also have "\<dots> \<le> of_int (2 ^ 53) * 2 powi z" using y(2) by (intro mult_right_mono) (simp_all only: of_int_le_iff, simp)
  also have "\<dots> = 2 powi (53 + z)" by (simp add: power_int_add)
  also have "\<dots> \<le> 2 powi binade x" using z u by (intro powi2_mono) simp
  finally have "\<bar>y\<bar> \<le> \<bar>?c\<bar>" using False by (simp add: abs_mult abs_sgn_eq)
  moreover have "\<bar>?c\<bar> \<le> \<bar>x\<bar>" using binade_bounds(1) [of x] False by (simp add: abs_mult abs_sgn_eq)
  ultimately have "\<bar>?c - x\<bar> \<le> \<bar>y - x\<bar>" by (rule between_nearer) (simp add: sgn_mult)
  moreover obtain k where "(2 :: rat) powi binade x = of_int k * 2 powi ulp_exponent x" using powi2_whole [of "ulp_exponent x" "binade x"] u by auto
  then have "?c = of_int ((if 0 < x then 1 else - 1) * k) * 2 powi ulp_exponent x" using False by (auto simp: sgn_if)
  ultimately show ?thesis using fl_nearest_multiple [of x] by (metis order_trans)
qed

subsection \<open>Rounding to an integer\<close>

text \<open>Adding a half and taking the floor, both in doubles, gives an integer that is nearest up to the two rounding errors.\<close>

lemma fl_floor_error: "\<bar>of_int \<lfloor>fl (fl x + 1 / 2)\<rfloor> - x\<bar> \<le> 1 / 2 + (\<bar>x\<bar> + 1) / 2 ^ 52" if "\<bar>x\<bar> \<le> 2 ^ 50"
proof -
  let ?s = "fl (fl x + 1 / 2)"
  have t: "\<bar>fl x - x\<bar> \<le> (\<bar>x\<bar> + 1 / 4) / 2 ^ 53" by (rule fl_error)
  also have "\<dots> \<le> 1" using that by simp
  finally have "\<bar>fl x + 1 / 2\<bar> + 1 / 4 \<le> \<bar>x\<bar> + 7 / 4" by linarith
  then have "(\<bar>fl x + 1 / 2\<bar> + 1 / 4) / 2 ^ 53 \<le> (\<bar>x\<bar> + 7 / 4) / 2 ^ 53" by (rule divide_right_mono) simp
  then have "\<bar>?s - (fl x + 1 / 2)\<bar> \<le> (\<bar>x\<bar> + 7 / 4) / 2 ^ 53" using fl_error [of "fl x + 1 / 2"] by linarith
  moreover have "of_int \<lfloor>?s\<rfloor> \<le> ?s" "?s < of_int \<lfloor>?s\<rfloor> + 1" by linarith+
  ultimately have "\<bar>of_int \<lfloor>?s\<rfloor> - x\<bar> \<le> 1 / 2 + ((\<bar>x\<bar> + 1 / 4) / 2 ^ 53 + (\<bar>x\<bar> + 7 / 4) / 2 ^ 53)" using t by linarith
  also have "(\<bar>x\<bar> + 1 / 4) / 2 ^ 53 + (\<bar>x\<bar> + 7 / 4) / 2 ^ 53 = (\<bar>x\<bar> + 1) / 2 ^ 52" by (simp add: field_simps)
  finally show ?thesis .
qed

text \<open>The double nearest to a quotient, multiplied again, leads back to the integer.\<close>

lemma fl_floor_recovers: "\<lfloor>fl (fl (m * fl (of_int k / m)) + 1 / 2)\<rfloor> = k" if k: "\<bar>k\<bar> \<le> 2 ^ 48" and m: "1 \<le> m" "m \<le> 2 ^ 31"
proof -
  let ?x = "m * fl (of_int k / m)" and ?e = "fl (of_int k / m) - of_int k / m"
  have K: "\<bar>of_int k\<bar> \<le> (2 ^ 48 :: rat)" using k by (metis of_int_abs of_int_le_iff of_int_numeral of_int_power)
  have "\<bar>?e\<bar> \<le> (\<bar>of_int k / m\<bar> + 1 / 4) / 2 ^ 53" by (rule fl_error)
  then have "m * \<bar>?e\<bar> \<le> m * ((\<bar>of_int k / m\<bar> + 1 / 4) / 2 ^ 53)" using m by (intro mult_left_mono) auto
  also have "m * ((\<bar>of_int k / m\<bar> + 1 / 4) / 2 ^ 53) = m * (\<bar>of_int k\<bar> / m + 1 / 4) / 2 ^ 53" using m(1) by simp
  also have "m * (\<bar>of_int k\<bar> / m + 1 / 4) = \<bar>of_int k\<bar> + m / 4" using m(1) by (simp add: distrib_left)
  also have "m * \<bar>?e\<bar> = \<bar>m * ?e\<bar>" using m by (simp add: abs_mult)
  also have "m * ?e = ?x - of_int k" using m by (simp add: right_diff_distrib)
  finally have x: "\<bar>?x - of_int k\<bar> \<le> (\<bar>of_int k\<bar> + m / 4) / 2 ^ 53" .
  then have y: "\<bar>?x - of_int k\<bar> \<le> 1 / 16" using K m(2) by simp
  then have X: "\<bar>?x\<bar> \<le> 2 ^ 48 + 1" using K by linarith
  then have "(\<bar>?x\<bar> + 1) / 2 ^ 52 \<le> 1 / 8" by simp
  moreover have "\<bar>of_int \<lfloor>fl (fl ?x + 1 / 2)\<rfloor> - ?x\<bar> \<le> 1 / 2 + (\<bar>?x\<bar> + 1) / 2 ^ 52"
    using X by (intro fl_floor_error) simp
  ultimately have "\<bar>of_int \<lfloor>fl (fl ?x + 1 / 2)\<rfloor> - of_int k\<bar> < (1 :: rat)" using y by linarith
  then have "\<bar>\<lfloor>fl (fl ?x + 1 / 2)\<rfloor> - k\<bar> < 1" by (metis of_int_1 of_int_abs of_int_diff of_int_less_iff)
  then show ?thesis by simp
qed

end
