(* ===== verification/DateTime.thy ===== *)
theory DateTime
  imports Complex_Main Mama_Prelude Doubles "HOL-Library.Signed_Division"
begin

text \<open>
  Date-time values (\<open>mama/c_cpp/src/c/datetimeimpl.h\<close> and the packed part of \<open>datetime.c\<close>): a 64-bit word with
  32 bits of seconds since the epoch, 20 bits of microseconds, 4 bits of precision and 4 bits of hints, of
  which two say whether the value has a date and a time. A pointer is an optional word, \<open>None\<close> for a null
  pointer. Operations on doubles are rounded (theory \<open>Doubles\<close>), the clock and the offset of a time zone are parameters.
\<close>

subsection \<open>The packed word\<close>

type_synonym mama_time = u64

definition MAMA_TIME_IMPL_MASK_SECONDS :: u64 where "MAMA_TIME_IMPL_MASK_SECONDS = 0xffffffff00000000"
definition MAMA_TIME_IMPL_MASK_MICROSECONDS :: u64 where "MAMA_TIME_IMPL_MASK_MICROSECONDS = 0x00000000000fffff"
definition MAMA_TIME_IMPL_MASK_PRECISION :: u64 where "MAMA_TIME_IMPL_MASK_PRECISION = 0x00000000f0000000"
definition MAMA_TIME_IMPL_MASK_HINT :: u64 where "MAMA_TIME_IMPL_MASK_HINT = 0x000000000f000000"
definition MAMA_TIME_IMPL_BIT_HAS_DATE :: u64 where "MAMA_TIME_IMPL_BIT_HAS_DATE = 0x0000000001000000"
definition MAMA_TIME_IMPL_BIT_HAS_TIME :: u64 where "MAMA_TIME_IMPL_BIT_HAS_TIME = 0x0000000002000000"
definition MAMA_TIME_IMPL_MASK_TIME_ONLY :: u64 where "MAMA_TIME_IMPL_MASK_TIME_ONLY = 0xffffffff000fffff"

definition mamaDateTimeImpl_getSeconds :: "u64 \<Rightarrow> u32" where
  "mamaDateTimeImpl_getSeconds t = ucast (drop_bit 32 (t AND MAMA_TIME_IMPL_MASK_SECONDS))"

definition mamaDateTimeImpl_getMicroSeconds :: "u64 \<Rightarrow> u32" where
  "mamaDateTimeImpl_getMicroSeconds t = ucast (t AND MAMA_TIME_IMPL_MASK_MICROSECONDS)"

definition mamaDateTimeImpl_getPrecision :: "u64 \<Rightarrow> u32" where
  "mamaDateTimeImpl_getPrecision t = ucast (drop_bit 28 (t AND MAMA_TIME_IMPL_MASK_PRECISION))"

definition mamaDateTimeImpl_getHint :: "u64 \<Rightarrow> u32" where
  "mamaDateTimeImpl_getHint t = ucast (drop_bit 24 (t AND MAMA_TIME_IMPL_MASK_HINT))"

definition mamaDateTimeImpl_getHasDate :: "u64 \<Rightarrow> u8" where
  "mamaDateTimeImpl_getHasDate t = ucast (drop_bit 24 (t AND MAMA_TIME_IMPL_BIT_HAS_DATE))"

definition mamaDateTimeImpl_getHasTime :: "u64 \<Rightarrow> u8" where
  "mamaDateTimeImpl_getHasTime t = ucast (drop_bit 24 (t AND MAMA_TIME_IMPL_BIT_HAS_TIME))"

definition mamaDateTimeImpl_getTimeOnly :: "u64 \<Rightarrow> u64" where
  "mamaDateTimeImpl_getTimeOnly t = t AND MAMA_TIME_IMPL_MASK_TIME_ONLY"

definition mamaDateTimeImpl_setSeconds :: "u64 \<Rightarrow> u64 \<Rightarrow> u64" where
  "mamaDateTimeImpl_setSeconds s t = (t AND NOT MAMA_TIME_IMPL_MASK_SECONDS) OR push_bit 32 s"

definition mamaDateTimeImpl_setMicroSeconds :: "u64 \<Rightarrow> u64 \<Rightarrow> u64" where
  "mamaDateTimeImpl_setMicroSeconds us t = (t AND NOT MAMA_TIME_IMPL_MASK_MICROSECONDS) OR us"

definition mamaDateTimeImpl_setPrecision :: "u64 \<Rightarrow> u64 \<Rightarrow> u64" where
  "mamaDateTimeImpl_setPrecision p t = (t AND NOT MAMA_TIME_IMPL_MASK_PRECISION) OR push_bit 28 p"

definition mamaDateTimeImpl_setHint :: "u64 \<Rightarrow> u64 \<Rightarrow> u64" where
  "mamaDateTimeImpl_setHint p t = (t AND NOT MAMA_TIME_IMPL_MASK_HINT) OR push_bit 24 p"

definition mamaDateTimeImpl_setHasDate :: "u64 \<Rightarrow> u64" where
  "mamaDateTimeImpl_setHasDate t = t OR MAMA_TIME_IMPL_BIT_HAS_DATE"

definition mamaDateTimeImpl_setHasTime :: "u64 \<Rightarrow> u64" where
  "mamaDateTimeImpl_setHasTime t = t OR MAMA_TIME_IMPL_BIT_HAS_TIME"

lemma mask_bits:
  "bit MAMA_TIME_IMPL_MASK_SECONDS i \<longleftrightarrow> 32 \<le> i \<and> i < 64"
  "bit MAMA_TIME_IMPL_MASK_MICROSECONDS i \<longleftrightarrow> i < 20"
  "bit MAMA_TIME_IMPL_MASK_PRECISION i \<longleftrightarrow> 28 \<le> i \<and> i < 32"
  "bit MAMA_TIME_IMPL_MASK_HINT i \<longleftrightarrow> 24 \<le> i \<and> i < 28"
  "bit MAMA_TIME_IMPL_BIT_HAS_DATE i \<longleftrightarrow> i = 24"
  "bit MAMA_TIME_IMPL_BIT_HAS_TIME i \<longleftrightarrow> i = 25"
  "bit MAMA_TIME_IMPL_MASK_TIME_ONLY i \<longleftrightarrow> i < 20 \<or> 32 \<le> i \<and> i < 64"
proof -
  have m: "MAMA_TIME_IMPL_MASK_SECONDS = push_bit 32 (mask 32)" "MAMA_TIME_IMPL_MASK_MICROSECONDS = mask 20"
    "MAMA_TIME_IMPL_MASK_PRECISION = push_bit 28 (mask 4)" "MAMA_TIME_IMPL_MASK_HINT = push_bit 24 (mask 4)"
    "MAMA_TIME_IMPL_BIT_HAS_DATE = push_bit 24 1" "MAMA_TIME_IMPL_BIT_HAS_TIME = push_bit 25 1"
    "MAMA_TIME_IMPL_MASK_TIME_ONLY = push_bit 32 (mask 32) OR mask 20"
    by (simp_all add: MAMA_TIME_IMPL_MASK_SECONDS_def MAMA_TIME_IMPL_MASK_MICROSECONDS_def MAMA_TIME_IMPL_MASK_PRECISION_def
        MAMA_TIME_IMPL_MASK_HINT_def MAMA_TIME_IMPL_BIT_HAS_DATE_def MAMA_TIME_IMPL_BIT_HAS_TIME_def
        MAMA_TIME_IMPL_MASK_TIME_ONLY_def mask_eq_exp_minus_1 push_bit_eq_mult)
  show "bit MAMA_TIME_IMPL_MASK_SECONDS i \<longleftrightarrow> 32 \<le> i \<and> i < 64" unfolding m by (auto simp: bit_simps)
  show "bit MAMA_TIME_IMPL_MASK_MICROSECONDS i \<longleftrightarrow> i < 20" unfolding m by (auto simp: bit_simps)
  show "bit MAMA_TIME_IMPL_MASK_PRECISION i \<longleftrightarrow> 28 \<le> i \<and> i < 32" unfolding m by (auto simp: bit_simps)
  show "bit MAMA_TIME_IMPL_MASK_HINT i \<longleftrightarrow> 24 \<le> i \<and> i < 28" unfolding m by (auto simp: bit_simps)
  show "bit MAMA_TIME_IMPL_BIT_HAS_DATE i \<longleftrightarrow> i = 24" unfolding m by (simp only: bit_push_bit_iff) (auto simp: bit_1_iff)
  show "bit MAMA_TIME_IMPL_BIT_HAS_TIME i \<longleftrightarrow> i = 25" unfolding m by (simp only: bit_push_bit_iff) (auto simp: bit_1_iff)
  show "bit MAMA_TIME_IMPL_MASK_TIME_ONLY i \<longleftrightarrow> i < 20 \<or> 32 \<le> i \<and> i < 64" unfolding m by (auto simp: bit_simps)
qed

text \<open>Values that fit a field.\<close>

lemma fits_bits:
  assumes "(w :: u64) < 2 ^ n" and "n < 64" and "bit w i"
  shows "i < n"
proof (rule ccontr)
  assume "\<not> i < n"
  then have "(2 :: nat) ^ n \<le> 2 ^ i" by (simp add: power_increasing)
  moreover have "unat w < 2 ^ n" using assms(1,2) by (simp add: word_less_nat_alt unat_2p)
  ultimately have "unat w < 2 ^ i" by linarith
  then have "unat w div 2 ^ i = 0" by simp
  moreover have "bit (unat w) i" using assms(3) by (simp add: bit_unsigned_iff)
  ultimately show False by (simp add: bit_iff_odd)
qed

lemmas micro_bits = fits_bits [of _ 20, simplified]
lemmas nibble_bits = fits_bits [of _ 4, simplified]

text \<open>Reading a field after writing a field, for values that fit.\<close>

lemmas impl_defs = mamaDateTimeImpl_getSeconds_def mamaDateTimeImpl_getMicroSeconds_def mamaDateTimeImpl_getPrecision_def
  mamaDateTimeImpl_getHint_def mamaDateTimeImpl_getHasDate_def mamaDateTimeImpl_getHasTime_def mamaDateTimeImpl_getTimeOnly_def
  mamaDateTimeImpl_setSeconds_def mamaDateTimeImpl_setMicroSeconds_def mamaDateTimeImpl_setPrecision_def
  mamaDateTimeImpl_setHint_def mamaDateTimeImpl_setHasDate_def mamaDateTimeImpl_setHasTime_def

lemma getSeconds_set [simp]:
  "mamaDateTimeImpl_getSeconds (mamaDateTimeImpl_setSeconds s t) = ucast s"
  "us < 0x100000 \<Longrightarrow> mamaDateTimeImpl_getSeconds (mamaDateTimeImpl_setMicroSeconds us t) = mamaDateTimeImpl_getSeconds t"
  "p < 16 \<Longrightarrow> mamaDateTimeImpl_getSeconds (mamaDateTimeImpl_setPrecision p t) = mamaDateTimeImpl_getSeconds t"
  "p < 16 \<Longrightarrow> mamaDateTimeImpl_getSeconds (mamaDateTimeImpl_setHint p t) = mamaDateTimeImpl_getSeconds t"
  "mamaDateTimeImpl_getSeconds (mamaDateTimeImpl_setHasDate t) = mamaDateTimeImpl_getSeconds t"
  "mamaDateTimeImpl_getSeconds (mamaDateTimeImpl_setHasTime t) = mamaDateTimeImpl_getSeconds t"
  by (rule bit_word_eqI; auto simp: impl_defs bit_simps mask_bits dest: micro_bits nibble_bits)+

lemma getMicroSeconds_set [simp]:
  "mamaDateTimeImpl_getMicroSeconds (mamaDateTimeImpl_setSeconds s t) = mamaDateTimeImpl_getMicroSeconds t"
  "us < 0x100000 \<Longrightarrow> mamaDateTimeImpl_getMicroSeconds (mamaDateTimeImpl_setMicroSeconds us t) = ucast us"
  "mamaDateTimeImpl_getMicroSeconds (mamaDateTimeImpl_setPrecision p t) = mamaDateTimeImpl_getMicroSeconds t"
  "mamaDateTimeImpl_getMicroSeconds (mamaDateTimeImpl_setHint p t) = mamaDateTimeImpl_getMicroSeconds t"
  "mamaDateTimeImpl_getMicroSeconds (mamaDateTimeImpl_setHasDate t) = mamaDateTimeImpl_getMicroSeconds t"
  "mamaDateTimeImpl_getMicroSeconds (mamaDateTimeImpl_setHasTime t) = mamaDateTimeImpl_getMicroSeconds t"
  by (rule bit_word_eqI; auto simp: impl_defs bit_simps mask_bits dest: micro_bits nibble_bits)+

lemma getPrecision_set [simp]:
  "mamaDateTimeImpl_getPrecision (mamaDateTimeImpl_setSeconds s t) = mamaDateTimeImpl_getPrecision t"
  "us < 0x100000 \<Longrightarrow> mamaDateTimeImpl_getPrecision (mamaDateTimeImpl_setMicroSeconds us t) = mamaDateTimeImpl_getPrecision t"
  "p < 16 \<Longrightarrow> mamaDateTimeImpl_getPrecision (mamaDateTimeImpl_setPrecision p t) = ucast p"
  "p < 16 \<Longrightarrow> mamaDateTimeImpl_getPrecision (mamaDateTimeImpl_setHint p t) = mamaDateTimeImpl_getPrecision t"
  "mamaDateTimeImpl_getPrecision (mamaDateTimeImpl_setHasDate t) = mamaDateTimeImpl_getPrecision t"
  "mamaDateTimeImpl_getPrecision (mamaDateTimeImpl_setHasTime t) = mamaDateTimeImpl_getPrecision t"
  by (rule bit_word_eqI; auto simp: impl_defs bit_simps mask_bits dest: micro_bits nibble_bits)+

lemma getHint_set [simp]:
  "mamaDateTimeImpl_getHint (mamaDateTimeImpl_setSeconds s t) = mamaDateTimeImpl_getHint t"
  "us < 0x100000 \<Longrightarrow> mamaDateTimeImpl_getHint (mamaDateTimeImpl_setMicroSeconds us t) = mamaDateTimeImpl_getHint t"
  "mamaDateTimeImpl_getHint (mamaDateTimeImpl_setPrecision p t) = mamaDateTimeImpl_getHint t"
  "p < 16 \<Longrightarrow> mamaDateTimeImpl_getHint (mamaDateTimeImpl_setHint p t) = ucast p"
  by (rule bit_word_eqI; auto simp: impl_defs bit_simps mask_bits dest: micro_bits nibble_bits)+

definition hasDate :: "u64 \<Rightarrow> bool" where "hasDate t \<longleftrightarrow> bit t 24"

definition hasTime :: "u64 \<Rightarrow> bool" where "hasTime t \<longleftrightarrow> bit t 25"

lemma has_set [simp]:
  "hasDate (mamaDateTimeImpl_setSeconds s t) = hasDate t" "hasTime (mamaDateTimeImpl_setSeconds s t) = hasTime t"
  "us < 0x100000 \<Longrightarrow> hasDate (mamaDateTimeImpl_setMicroSeconds us t) = hasDate t"
  "us < 0x100000 \<Longrightarrow> hasTime (mamaDateTimeImpl_setMicroSeconds us t) = hasTime t"
  "hasDate (mamaDateTimeImpl_setPrecision p t) = hasDate t" "hasTime (mamaDateTimeImpl_setPrecision p t) = hasTime t"
  "hasDate (mamaDateTimeImpl_setHint p t) = bit p 0" "hasTime (mamaDateTimeImpl_setHint p t) = bit p 1"
  "hasDate (mamaDateTimeImpl_setHasDate t)" "hasTime (mamaDateTimeImpl_setHasDate t) = hasTime t"
  "hasDate (mamaDateTimeImpl_setHasTime t) = hasDate t" "hasTime (mamaDateTimeImpl_setHasTime t)"
  by (auto simp: hasDate_def hasTime_def impl_defs bit_simps mask_bits dest: micro_bits)

lemma has_bits:
  "mamaDateTimeImpl_getHasDate t = of_bool (hasDate t)" "mamaDateTimeImpl_getHasTime t = (if hasTime t then 2 else 0)"
proof -
  show "mamaDateTimeImpl_getHasDate t = of_bool (hasDate t)"
    by (rule bit_word_eqI) (auto simp: hasDate_def impl_defs bit_simps mask_bits)
  have two: "(if hasTime t then 2 else 0 :: u8) = push_bit 1 (of_bool (hasTime t))" by simp
  show "mamaDateTimeImpl_getHasTime t = (if hasTime t then 2 else 0)"
    unfolding two
  proof (rule bit_word_eqI)
    fix n :: nat
    assume n: "n < LENGTH(8)"
    have "n - 1 = 0 \<and> 1 \<le> n \<longleftrightarrow> n = 1" by arith
    then show "bit (mamaDateTimeImpl_getHasTime t) n = bit (push_bit 1 (of_bool (hasTime t)) :: u8) n"
      using n by (cases "n = 1") (auto simp only: hasTime_def impl_defs bit_push_bit_iff bit_of_bool_iff bit_unsigned_iff bit_drop_bit_eq o_def
          bit_and_iff mask_bits, simp_all)
  qed
qed

text \<open>A word is determined by its fields and the four bits that no field has.\<close>

lemma word_of_fields:
  assumes "mamaDateTimeImpl_getSeconds t = mamaDateTimeImpl_getSeconds u" and "mamaDateTimeImpl_getMicroSeconds t = mamaDateTimeImpl_getMicroSeconds u"
    and "mamaDateTimeImpl_getPrecision t = mamaDateTimeImpl_getPrecision u" and "mamaDateTimeImpl_getHint t = mamaDateTimeImpl_getHint u"
    and "\<forall>i. 20 \<le> i \<and> i < 24 \<longrightarrow> bit t i = bit u i"
  shows "t = u"
proof (rule bit_word_eqI)
  fix i :: nat
  assume "i < LENGTH(64)"
  then consider "i < 20" | "20 \<le> i" "i < 24" | "24 \<le> i" "i < 28" | "28 \<le> i" "i < 32" | "32 \<le> i" "i < 64" by fastforce
  then show "bit t i = bit u i"
  proof cases
    case 1
    then show ?thesis using arg_cong [OF assms(2), of "\<lambda>w. bit w i"] by (simp add: impl_defs bit_simps mask_bits)
  next
    case 2
    then show ?thesis using assms(5) by blast
  next
    case 3
    then show ?thesis using arg_cong [OF assms(4), of "\<lambda>w. bit w (i - 24)"] by (auto simp: impl_defs bit_simps mask_bits)
  next
    case 4
    then show ?thesis using arg_cong [OF assms(3), of "\<lambda>w. bit w (i - 28)"] by (auto simp: impl_defs bit_simps mask_bits)
  next
    case 5
    then show ?thesis using arg_cong [OF assms(1), of "\<lambda>w. bit w (i - 32)"] by (auto simp: impl_defs bit_simps mask_bits)
  qed
qed

subsection \<open>Creation, comparison and setting\<close>

definition SECONDS_IN_A_DAY :: "'a::len word" where "SECONDS_IN_A_DAY = 24 * 60 * 60"

text \<open>Operations on a value behind a pointer.\<close>

definition on_dt :: "(u64 \<Rightarrow> u64) \<Rightarrow> u64 option \<Rightarrow> u64 option \<times> mama_status" where
  "on_dt f dateTime = (case dateTime of None \<Rightarrow> (None, MAMA_STATUS_INVALID_ARG) | Some t \<Rightarrow> (Some (f t), MAMA_STATUS_OK))"

definition from_dt :: "(u64 \<Rightarrow> 'a) \<Rightarrow> u64 option \<Rightarrow> 'a option \<times> mama_status" where
  "from_dt f dateTime = (case dateTime of None \<Rightarrow> (None, MAMA_STATUS_INVALID_ARG) | Some t \<Rightarrow> (Some (f t), MAMA_STATUS_OK))"

definition mamaDateTimeImpl_clear :: u64 where "mamaDateTimeImpl_clear = 0"

definition mamaDateTime_create :: "bool \<Rightarrow> u64 option \<times> mama_status" where
  "mamaDateTime_create mallocOk =
    (if \<not> mallocOk then (None, MAMA_STATUS_NOMEM) else (Some mamaDateTimeImpl_clear, MAMA_STATUS_OK))"

definition mamaDateTime_destroy :: "u64 option \<Rightarrow> mama_status" where
  "mamaDateTime_destroy dateTime = (if dateTime = None then MAMA_STATUS_INVALID_ARG else MAMA_STATUS_OK)"

definition mamaDateTime_clear :: "u64 option \<Rightarrow> u64 option \<times> mama_status" where
  "mamaDateTime_clear = on_dt (\<lambda>_. mamaDateTimeImpl_clear)"

definition mamaDateTimeImpl_clearDate :: "u64 \<Rightarrow> u64" where
  "mamaDateTimeImpl_clearDate t =
    (let t = mamaDateTimeImpl_setSeconds (ucast (mamaDateTimeImpl_getSeconds t mod SECONDS_IN_A_DAY)) t
     in t AND NOT MAMA_TIME_IMPL_BIT_HAS_DATE)"

definition mamaDateTimeImpl_clearTime :: "u64 \<Rightarrow> u64" where
  "mamaDateTimeImpl_clearTime t =
    (let t = mamaDateTimeImpl_setSeconds (ucast (mamaDateTimeImpl_getSeconds t div SECONDS_IN_A_DAY * SECONDS_IN_A_DAY)) t;
         t = mamaDateTimeImpl_setMicroSeconds 0 t
     in t AND NOT MAMA_TIME_IMPL_BIT_HAS_TIME)"

definition mamaDateTime_clearDate :: "u64 option \<Rightarrow> u64 option \<times> mama_status" where
  "mamaDateTime_clearDate = on_dt mamaDateTimeImpl_clearDate"

definition mamaDateTime_clearTime :: "u64 option \<Rightarrow> u64 option \<times> mama_status" where
  "mamaDateTime_clearTime = on_dt mamaDateTimeImpl_clearTime"

definition mamaDateTime_copy :: "u64 option \<Rightarrow> u64 option \<Rightarrow> u64 option \<times> mama_status" where
  "mamaDateTime_copy dest src =
    (if src = None \<or> dest = None then (dest, MAMA_STATUS_INVALID_ARG) else (src, MAMA_STATUS_OK))"

definition mamaDateTime_empty :: "u64 option \<Rightarrow> bool" where
  "mamaDateTime_empty dateTime \<longleftrightarrow> (case dateTime of None \<Rightarrow> True | Some t \<Rightarrow> t = 0)"

text \<open>Equal pointers are only told from equal values when one of them is null.\<close>

definition mamaDateTime_equal :: "u64 option \<Rightarrow> u64 option \<Rightarrow> bool" where
  "mamaDateTime_equal lhs rhs \<longleftrightarrow> lhs = rhs"

definition mamaDateTime_compare :: "u64 option \<Rightarrow> u64 option \<Rightarrow> int" where
  "mamaDateTime_compare lhs rhs =
    (case (lhs, rhs) of
       (Some l, Some r) \<Rightarrow>
         (let lhsTimeOnly = mamaDateTimeImpl_getTimeOnly l; rhsTimeOnly = mamaDateTimeImpl_getTimeOnly r
          in if lhsTimeOnly > rhsTimeOnly then 1 else if lhsTimeOnly = rhsTimeOnly then 0 else -1)
     | _ \<Rightarrow> 0)"

definition mark_date :: "bool \<Rightarrow> u64 \<Rightarrow> u64" where
  "mark_date b t = (if b then mamaDateTimeImpl_setHasDate t else t)"

definition mamaDateTime_setEpochTime :: "u64 option \<Rightarrow> u32 \<Rightarrow> u32 \<Rightarrow> u32 \<Rightarrow> u64 option \<times> mama_status" where
  "mamaDateTime_setEpochTime dateTime seconds microseconds precision =
    on_dt (\<lambda>_. let t = mamaDateTimeImpl_clear;
                   t = mamaDateTimeImpl_setSeconds (ucast seconds) t;
                   t = mamaDateTimeImpl_setMicroSeconds (ucast microseconds) t;
                   t = mamaDateTimeImpl_setPrecision (ucast precision) t;
                   t = mamaDateTimeImpl_setHasTime t
               in mark_date (seconds > SECONDS_IN_A_DAY) t) dateTime"

text \<open>Setting the fields of a value that was counted in fractions of a second.\<close>

definition set_counted :: "u64 \<Rightarrow> u64 \<Rightarrow> u64 \<Rightarrow> u64" where
  "set_counted seconds microseconds precision =
    (let t = mamaDateTimeImpl_clear;
         t = mamaDateTimeImpl_setSeconds seconds t;
         t = mamaDateTimeImpl_setMicroSeconds microseconds t;
         t = mamaDateTimeImpl_setHasTime t;
         t = mark_date (seconds > SECONDS_IN_A_DAY) t
     in mamaDateTimeImpl_setPrecision (if microseconds > 0 then precision else 0) t)"

text \<open>A double is converted to an integer by dropping its fraction; the seconds are converted as they are, not
  the ones that were rounded.\<close>

definition c_trunc :: "rat \<Rightarrow> int" where
  "c_trunc x = (if x < 0 then - \<lfloor>- x\<rfloor> else \<lfloor>x\<rfloor>)"

definition mamaDateTime_setEpochTimeF64 :: "u64 option \<Rightarrow> rat \<Rightarrow> u64 option \<times> mama_status" where
  "mamaDateTime_setEpochTimeF64 dateTime seconds =
    on_dt (\<lambda>_. let wholeSeconds = \<lfloor>fl (seconds + fl (1 / 10000000))\<rfloor>;
                   microseconds = word_of_int (c_trunc (fl (1000000 * fl (seconds - of_int wholeSeconds))));
                   t = mamaDateTimeImpl_setSeconds (word_of_int (c_trunc seconds)) mamaDateTimeImpl_clear;
                   t = mamaDateTimeImpl_setMicroSeconds microseconds t;
                   t = mamaDateTimeImpl_setHasTime t;
                   t = mark_date (seconds > 86400) t
               in mamaDateTimeImpl_setPrecision (if microseconds > 0 then 6 else 0) t) dateTime"

definition mamaDateTime_setEpochTimeMilliseconds :: "u64 option \<Rightarrow> u64 \<Rightarrow> u64 option \<times> mama_status" where
  "mamaDateTime_setEpochTimeMilliseconds dateTime milliseconds =
    on_dt (\<lambda>_. set_counted (milliseconds div 1000) (milliseconds mod 1000 * 1000) 3) dateTime"

definition mamaDateTime_setEpochTimeMicroseconds :: "u64 option \<Rightarrow> u64 \<Rightarrow> u64 option \<times> mama_status" where
  "mamaDateTime_setEpochTimeMicroseconds dateTime microseconds =
    on_dt (\<lambda>_. set_counted (microseconds div 1000000) (microseconds mod 1000000) 6) dateTime"

definition mamaDateTime_setWithHints :: "u64 option \<Rightarrow> u32 \<Rightarrow> u32 \<Rightarrow> u32 \<Rightarrow> u8 \<Rightarrow> u64 option \<times> mama_status" where
  "mamaDateTime_setWithHints dateTime seconds microseconds precision hints =
    on_dt (\<lambda>_. let t = mamaDateTimeImpl_clear;
                   t = mamaDateTimeImpl_setSeconds (ucast seconds) t;
                   t = mamaDateTimeImpl_setMicroSeconds (ucast microseconds) t;
                   t = mamaDateTimeImpl_setPrecision (ucast precision) t;
                   t = mamaDateTimeImpl_setHasTime t;
                   t = mamaDateTimeImpl_setHint (ucast hints) t
               in mark_date (seconds > SECONDS_IN_A_DAY) t) dateTime"

definition mamaDateTime_setPrecision :: "u64 option \<Rightarrow> u32 \<Rightarrow> u64 option \<times> mama_status" where
  "mamaDateTime_setPrecision dateTime precision = on_dt (mamaDateTimeImpl_setPrecision (ucast precision)) dateTime"

text \<open>The clock is the result of \<open>gettimeofday\<close>, \<open>None\<close> when it fails. The value is cleared before.\<close>

definition mamaDateTime_setToNow :: "(u64 \<times> u64) option \<Rightarrow> u64 option \<Rightarrow> u64 option \<times> mama_status" where
  "mamaDateTime_setToNow now dateTime =
    (case dateTime of
       None \<Rightarrow> (None, MAMA_STATUS_INVALID_ARG)
     | Some _ \<Rightarrow>
         (case now of
            None \<Rightarrow> (Some mamaDateTimeImpl_clear, MAMA_STATUS_SYSTEM_ERROR)
          | Some (sec, usec) \<Rightarrow>
              let t = mamaDateTimeImpl_setSeconds sec mamaDateTimeImpl_clear;
                  t = mamaDateTimeImpl_setMicroSeconds usec t;
                  t = mamaDateTimeImpl_setPrecision 6 t;
                  t = mamaDateTimeImpl_setHasDate t
              in (Some (mamaDateTimeImpl_setHasTime t), MAMA_STATUS_OK)))"

text \<open>A time zone is its offset in seconds.\<close>

definition mamaDateTime_setToMidnightToday :: "u32 \<Rightarrow> u32 option \<Rightarrow> u64 option \<Rightarrow> u64 option \<times> mama_status" where
  "mamaDateTime_setToMidnightToday clock tz =
    on_dt (\<lambda>_. let secondsSinceEpoch = (case tz of None \<Rightarrow> clock | Some offset \<Rightarrow> clock + offset);
                   tmpSeconds = secondsSinceEpoch div SECONDS_IN_A_DAY * SECONDS_IN_A_DAY;
                   t = mamaDateTimeImpl_setSeconds (ucast tmpSeconds) mamaDateTimeImpl_clear;
                   t = mamaDateTimeImpl_setMicroSeconds 0 t;
                   t = mamaDateTimeImpl_setPrecision 0 t;
                   t = mamaDateTimeImpl_setHasDate t
               in mamaDateTimeImpl_setHasTime t)"

subsection \<open>Times and dates of a day\<close>

definition day_of :: "u32 \<Rightarrow> u32" where
  "day_of seconds = seconds div SECONDS_IN_A_DAY * SECONDS_IN_A_DAY"

definition time_of :: "u32 \<Rightarrow> u32" where
  "time_of seconds = seconds mod SECONDS_IN_A_DAY"

text \<open>The sum is kept in a signed 32-bit variable, which is extended when it is stored.\<close>

definition mamaDateTime_setTimeWithPrecisionAndTz ::
  "u64 option \<Rightarrow> u32 \<Rightarrow> u32 \<Rightarrow> u32 \<Rightarrow> u32 \<Rightarrow> u32 \<Rightarrow> u32 option \<Rightarrow> u64 option \<times> mama_status" where
  "mamaDateTime_setTimeWithPrecisionAndTz dateTime hour minute second microsecond precision tz =
    on_dt (\<lambda>t. let tmpSeconds = day_of (mamaDateTimeImpl_getSeconds t);
                   tmpSeconds = tmpSeconds + (second + 60 * (minute + 60 * hour));
                   tmpSeconds = (case tz of None \<Rightarrow> tmpSeconds | Some offset \<Rightarrow> tmpSeconds - offset);
                   t = mamaDateTimeImpl_setSeconds (scast tmpSeconds) t;
                   t = mamaDateTimeImpl_setMicroSeconds (ucast microsecond) t;
                   t = mamaDateTimeImpl_setPrecision (ucast precision) t
               in mamaDateTimeImpl_setHasTime t) dateTime"

definition MAMA_DATE_TIME_PREC_UNKNOWN :: u32 where "MAMA_DATE_TIME_PREC_UNKNOWN = 15"

definition mamaDateTime_setTime :: "u64 option \<Rightarrow> u32 \<Rightarrow> u32 \<Rightarrow> u32 \<Rightarrow> u32 \<Rightarrow> u64 option \<times> mama_status" where
  "mamaDateTime_setTime dateTime hour minute second microsecond =
    mamaDateTime_setTimeWithPrecisionAndTz dateTime hour minute second microsecond MAMA_DATE_TIME_PREC_UNKNOWN None"

definition mamaDateTime_copyTime :: "u64 option \<Rightarrow> u64 option \<Rightarrow> u64 option \<times> mama_status" where
  "mamaDateTime_copyTime dest src =
    (case src of
       None \<Rightarrow> (dest, MAMA_STATUS_INVALID_ARG)
     | Some u \<Rightarrow>
         on_dt (\<lambda>t. let tmpSeconds = day_of (mamaDateTimeImpl_getSeconds t) + time_of (mamaDateTimeImpl_getSeconds u);
                        t = mamaDateTimeImpl_setSeconds (ucast tmpSeconds) t;
                        t = mamaDateTimeImpl_setMicroSeconds (ucast (mamaDateTimeImpl_getMicroSeconds u)) t
                    in mamaDateTimeImpl_setHasTime t) dest)"

definition mamaDateTime_copyDate :: "u64 option \<Rightarrow> u64 option \<Rightarrow> u64 option \<times> mama_status" where
  "mamaDateTime_copyDate dest src =
    (case src of
       None \<Rightarrow> (dest, MAMA_STATUS_INVALID_ARG)
     | Some u \<Rightarrow>
         on_dt (\<lambda>t. let tmpSeconds = time_of (mamaDateTimeImpl_getSeconds t) + day_of (mamaDateTimeImpl_getSeconds u);
                        t = mamaDateTimeImpl_setSeconds (ucast tmpSeconds) t
                    in mamaDateTimeImpl_setHasDate t) dest)"

definition mamaDateTime_hasTime :: "u64 option \<Rightarrow> u8 option \<times> mama_status" where
  "mamaDateTime_hasTime = from_dt mamaDateTimeImpl_getHasTime"

definition mamaDateTime_hasDate :: "u64 option \<Rightarrow> u8 option \<times> mama_status" where
  "mamaDateTime_hasDate = from_dt mamaDateTimeImpl_getHasDate"

definition mamaDateTime_addTodayToDateTime :: "(u64 \<times> u64) option \<Rightarrow> u64 \<Rightarrow> u64 \<times> mama_status" where
  "mamaDateTime_addTodayToDateTime now destination =
    (case now of
       None \<Rightarrow> (destination, MAMA_STATUS_SYSTEM_ERROR)
     | Some (sec, usec) \<Rightarrow>
         let time = mamaDateTimeImpl_setSeconds sec mamaDateTimeImpl_clear;
             tmpSeconds = time_of (mamaDateTimeImpl_getSeconds destination) + day_of (mamaDateTimeImpl_getSeconds time);
             t = mamaDateTimeImpl_setSeconds (ucast tmpSeconds) destination
         in (mamaDateTimeImpl_setHasDate t, MAMA_STATUS_OK))"

subsection \<open>Arithmetic\<close>

definition addWholeSeconds :: "u32 \<Rightarrow> u64 \<Rightarrow> u64" where
  "addWholeSeconds addSeconds t =
    (if addSeconds \<noteq> 0 then
       let seconds = mamaDateTimeImpl_getSeconds t;
           t = t AND NOT MAMA_TIME_IMPL_MASK_SECONDS;
           t = mamaDateTimeImpl_setSeconds (ucast (seconds + addSeconds)) t
       in mamaDateTimeImpl_setHasTime t
     else t)"

definition mamaDateTime_addWholeSeconds :: "u64 option \<Rightarrow> u32 \<Rightarrow> u64 option \<times> mama_status" where
  "mamaDateTime_addWholeSeconds dateTime addSeconds = on_dt (addWholeSeconds addSeconds) dateTime"

text \<open>The amount is a signed 64-bit integer, and so is its sum with the microseconds; an overflow is not defined (\<open>None\<close>). Division of signed integers
  rounds towards 0, and the quotient is passed as a 32-bit integer.\<close>

definition i64_sum :: "int \<Rightarrow> int \<Rightarrow> int option" where
  "i64_sum a b = (if - (2 ^ 63) \<le> a + b \<and> a + b < 2 ^ 63 then Some (a + b) else None)"

definition addMicroseconds :: "u64 \<Rightarrow> u64 \<Rightarrow> u64 option" where
  "addMicroseconds amount t =
    (if amount \<noteq> 0 then
       do { add \<leftarrow> i64_sum (sint amount) (uint (mamaDateTimeImpl_getMicroSeconds t));
            let (t, add) =
              (if add \<ge> 1000000 then (addWholeSeconds (word_of_int (add sdiv 1000000)) t, add smod 1000000)
               else if add < 0 then
                 (let t = (if add \<ge> -1000000 then addWholeSeconds (-1) t
                           else addWholeSeconds (word_of_int (add sdiv 1000000 - 1)) t);
                      add = add smod 1000000
                  in (t, if add < 0 then add + 1000000 else add))
               else (t, add));
            let t = t AND NOT MAMA_TIME_IMPL_MASK_MICROSECONDS;
            let t = mamaDateTimeImpl_setMicroSeconds (word_of_int add) t;
            Some (mamaDateTimeImpl_setHasTime t) }
     else Some t)"

definition on_dt_opt :: "(u64 \<Rightarrow> u64 option) \<Rightarrow> u64 option \<Rightarrow> (u64 option \<times> mama_status) option" where
  "on_dt_opt f dateTime =
    (case dateTime of None \<Rightarrow> Some (None, MAMA_STATUS_INVALID_ARG) | Some t \<Rightarrow> do { t \<leftarrow> f t; Some (Some t, MAMA_STATUS_OK) })"

definition mamaDateTime_addMicroseconds :: "u64 option \<Rightarrow> u64 \<Rightarrow> (u64 option \<times> mama_status) option" where
  "mamaDateTime_addMicroseconds dateTime add = on_dt_opt (addMicroseconds add) dateTime"

text \<open>The conversions of a double to a 32-bit signed and to a 64-bit unsigned integer; out of range they are not defined.\<close>

definition double_to_i32 :: "rat \<Rightarrow> u32 option" where
  "double_to_i32 x = (let i = c_trunc x in if - (2 ^ 31) \<le> i \<and> i < 2 ^ 31 then Some (word_of_int i) else None)"

definition double_to_u64 :: "rat \<Rightarrow> u64 option" where
  "double_to_u64 x = (let i = c_trunc x in if 0 \<le> i \<and> i < 2 ^ 64 then Some (word_of_int i) else None)"

definition mamaDateTime_addSeconds :: "u64 option \<Rightarrow> rat \<Rightarrow> (u64 option \<times> mama_status) option" where
  "mamaDateTime_addSeconds dateTime add =
    on_dt_opt (\<lambda>t. if add \<noteq> 0 then
                  do { let wholeSeconds = of_int \<lfloor>fl (add + fl (1 / 10000000))\<rfloor>;
                       microseconds \<leftarrow> double_to_u64 (fl (1000000 * fl (add - wholeSeconds)));
                       whole \<leftarrow> double_to_i32 wholeSeconds;
                       let t = addWholeSeconds whole t;
                       t \<leftarrow> addMicroseconds microseconds t;
                       Some (mamaDateTimeImpl_setHasTime t) }
                else Some t) dateTime"

subsection \<open>Reading\<close>

definition with_offset :: "u32 option \<Rightarrow> 'a::len word \<Rightarrow> 'a word" where
  "with_offset tz x = (case tz of None \<Rightarrow> x | Some offset \<Rightarrow> x + scast offset)"

definition mamaDateTime_getEpochTimeWithTz :: "u64 option \<Rightarrow> u32 option \<Rightarrow> (u32 \<times> u32 \<times> u32) option \<times> mama_status" where
  "mamaDateTime_getEpochTimeWithTz dateTime tz =
    from_dt (\<lambda>t. (with_offset tz (mamaDateTimeImpl_getSeconds t), mamaDateTimeImpl_getMicroSeconds t, mamaDateTimeImpl_getPrecision t)) dateTime"

definition mamaDateTime_getEpochTimeMicrosecondsWithTz :: "u64 option \<Rightarrow> u32 option \<Rightarrow> u64 option \<times> mama_status" where
  "mamaDateTime_getEpochTimeMicrosecondsWithTz dateTime tz =
    from_dt (\<lambda>t. 1000000 * with_offset tz (ucast (mamaDateTimeImpl_getSeconds t)) + ucast (mamaDateTimeImpl_getMicroSeconds t)) dateTime"

definition mamaDateTime_getEpochTimeMillisecondsWithTz :: "u64 option \<Rightarrow> u32 option \<Rightarrow> u64 option \<times> mama_status" where
  "mamaDateTime_getEpochTimeMillisecondsWithTz dateTime tz =
    from_dt (\<lambda>t. 1000 * with_offset tz (ucast (mamaDateTimeImpl_getSeconds t)) + ucast (mamaDateTimeImpl_getMicroSeconds t div 1000)) dateTime"

definition mamaDateTime_getEpochTimeSecondsWithTz :: "u64 option \<Rightarrow> u32 option \<Rightarrow> rat option \<times> mama_status" where
  "mamaDateTime_getEpochTimeSecondsWithTz dateTime tz =
    from_dt (\<lambda>t. fl (of_nat (unat (with_offset tz (mamaDateTimeImpl_getSeconds t))) + fl (of_nat (unat (mamaDateTimeImpl_getMicroSeconds t)) / 1000000))) dateTime"

definition mamaDateTime_getEpochTimeSecondsWithCheck ::
  "(u64 \<times> u64) option \<Rightarrow> u64 option \<Rightarrow> u64 option \<times> rat option \<times> mama_status" where
  "mamaDateTime_getEpochTimeSecondsWithCheck now dateTime =
    (case dateTime of
       None \<Rightarrow> (None, None, MAMA_STATUS_NULL_ARG)
     | Some t \<Rightarrow>
         if mamaDateTimeImpl_getHasDate t = 0 then
           let (t, ret) = mamaDateTime_addTodayToDateTime now t
           in if ret = MAMA_STATUS_OK then (Some t, mamaDateTime_getEpochTimeSecondsWithTz (Some t) None) else (Some t, None, ret)
         else (Some t, mamaDateTime_getEpochTimeSecondsWithTz (Some t) None))"

definition mamaDateTime_getWithHints :: "u64 option \<Rightarrow> (u32 \<times> u32 \<times> u32 \<times> u32) option \<times> mama_status" where
  "mamaDateTime_getWithHints =
    from_dt (\<lambda>t. (mamaDateTimeImpl_getSeconds t, mamaDateTimeImpl_getMicroSeconds t, mamaDateTimeImpl_getPrecision t, mamaDateTimeImpl_getHint t))"

text \<open>The offset is added to the microseconds.\<close>

definition mamaDateTime_getStructTimeValWithTz :: "u64 option \<Rightarrow> u32 option \<Rightarrow> (u64 \<times> u64) option \<times> mama_status" where
  "mamaDateTime_getStructTimeValWithTz dateTime tz =
    from_dt (\<lambda>t. (ucast (mamaDateTimeImpl_getSeconds t), with_offset tz (ucast (mamaDateTimeImpl_getMicroSeconds t)))) dateTime"

definition mamaDateTime_getMicrosecond :: "u64 option \<Rightarrow> u32 option \<times> mama_status" where
  "mamaDateTime_getMicrosecond = from_dt mamaDateTimeImpl_getMicroSeconds"

definition both_dt :: "(u64 \<Rightarrow> u64 \<Rightarrow> 'a) \<Rightarrow> u64 option \<Rightarrow> u64 option \<Rightarrow> 'a option \<times> mama_status" where
  "both_dt f t1 t0 = (case (t1, t0) of (Some a, Some b) \<Rightarrow> (Some (f a b), MAMA_STATUS_OK) | _ \<Rightarrow> (None, MAMA_STATUS_INVALID_ARG))"

definition seconds_diff :: "u32 \<Rightarrow> u32 \<Rightarrow> u32 \<Rightarrow> u32 \<Rightarrow> rat" where
  "seconds_diff s1 u1 s0 u0 = fl ((of_nat (unat s1) - of_nat (unat s0)) + fl ((of_nat (unat u1) - of_nat (unat u0)) / 1000000))"

definition mamaDateTime_diffSeconds :: "u64 option \<Rightarrow> u64 option \<Rightarrow> rat option \<times> mama_status" where
  "mamaDateTime_diffSeconds =
    both_dt (\<lambda>a b. seconds_diff (mamaDateTimeImpl_getSeconds a) (mamaDateTimeImpl_getMicroSeconds a)
                     (mamaDateTimeImpl_getSeconds b) (mamaDateTimeImpl_getMicroSeconds b))"

definition mamaDateTime_diffSecondsSameDay :: "u64 option \<Rightarrow> u64 option \<Rightarrow> rat option \<times> mama_status" where
  "mamaDateTime_diffSecondsSameDay =
    both_dt (\<lambda>a b. seconds_diff (time_of (mamaDateTimeImpl_getSeconds a)) (mamaDateTimeImpl_getMicroSeconds a)
                     (time_of (mamaDateTimeImpl_getSeconds b)) (mamaDateTimeImpl_getMicroSeconds b))"

definition mamaDateTime_diffMicroseconds :: "u64 option \<Rightarrow> u64 option \<Rightarrow> int option \<times> mama_status" where
  "mamaDateTime_diffMicroseconds t1 t0 =
    (case (fst (mamaDateTime_getEpochTimeMicrosecondsWithTz t1 None), fst (mamaDateTime_getEpochTimeMicrosecondsWithTz t0 None)) of
       (Some a, Some b) \<Rightarrow> (Some (sint a - sint b), MAMA_STATUS_OK)
     | _ \<Rightarrow> (None, MAMA_STATUS_INVALID_ARG))"

subsection \<open>Valid values\<close>

definition dt_ok :: "u64 \<Rightarrow> bool" where
  "dt_ok t \<longleftrightarrow> mamaDateTimeImpl_getMicroSeconds t < 1000000 \<and> (\<forall>i \<in> {20..<24}. \<not> bit t i)"

definition all_ok :: "u64 option \<Rightarrow> bool" where
  "all_ok dateTime \<longleftrightarrow> (case dateTime of None \<Rightarrow> True | Some t \<Rightarrow> dt_ok t)"

definition epoch_us :: "u64 \<Rightarrow> int" where
  "epoch_us t = uint (mamaDateTimeImpl_getSeconds t) * 1000000 + uint (mamaDateTimeImpl_getMicroSeconds t)"

lemma gap_set:
  assumes "i \<in> {20..<24}"
  shows "bit (mamaDateTimeImpl_setSeconds s t) i = bit t i" "us < 0x100000 \<Longrightarrow> bit (mamaDateTimeImpl_setMicroSeconds us t) i = bit t i"
    "bit (mamaDateTimeImpl_setPrecision p t) i = bit t i" "bit (mamaDateTimeImpl_setHint p t) i = bit t i"
    "bit (mamaDateTimeImpl_setHasDate t) i = bit t i" "bit (mamaDateTimeImpl_setHasTime t) i = bit t i"
  using assms by (auto simp: impl_defs bit_simps mask_bits dest: micro_bits)

lemma uint_up [simp]: "uint (ucast (x :: u32) :: u64) = uint x"
  using uint_lt2p [of x] by (simp add: unsigned_ucast_eq take_bit_int_eq_self_iff)

lemma uint_down: "uint (ucast (x :: u64) :: u32) = uint x mod 2 ^ 32"
  by (simp add: unsigned_ucast_eq take_bit_eq_mod)

lemma down_up [simp]: "(ucast (ucast (x :: u32) :: u64) :: u32) = x" "(ucast (scast (x :: u32) :: u64) :: u32) = x"
  by (rule bit_word_eqI; auto simp: bit_simps)+

lemma ucast_less_micro: "(us :: u64) < 1000000 \<Longrightarrow> (ucast us :: u32) < 1000000"
  by (simp add: word_less_def uint_down)

lemma ucast_up_less [simp]:
  "(ucast (us :: u32) :: u64) < 0x100000 \<longleftrightarrow> us < 0x100000" "(ucast (us :: u32) :: u64) < 1000000 \<longleftrightarrow> us < 1000000"
  "(ucast (us :: u32) :: u64) < 16 \<longleftrightarrow> us < 16"
  by (simp_all add: word_less_def)

lemma dt_ok_set [simp]:
  "dt_ok (mamaDateTimeImpl_setSeconds s t) = dt_ok t"
  "us < 1000000 \<Longrightarrow> dt_ok t \<Longrightarrow> dt_ok (mamaDateTimeImpl_setMicroSeconds us t)"
  "dt_ok (mamaDateTimeImpl_setPrecision p t) = dt_ok t" "dt_ok (mamaDateTimeImpl_setHint p t) = dt_ok t"
  "dt_ok (mamaDateTimeImpl_setHasDate t) = dt_ok t" "dt_ok (mamaDateTimeImpl_setHasTime t) = dt_ok t"
proof -
  show "dt_ok (mamaDateTimeImpl_setMicroSeconds us t)" if "us < 1000000" "dt_ok t"
  proof -
    have "us < 0x100000" using that(1) by (rule less_trans) simp
    then show ?thesis using that by (simp add: dt_ok_def gap_set ucast_less_micro)
  qed
qed (simp_all add: dt_ok_def gap_set)

lemma dt_ok_micro: "dt_ok t \<Longrightarrow> mamaDateTimeImpl_getMicroSeconds t < 1000000"
  by (simp add: dt_ok_def)

lemma dt_ok_0 [simp]: "dt_ok 0"
  by (simp add: dt_ok_def impl_defs)

lemma has_0 [simp]: "\<not> hasDate 0" "\<not> hasTime 0"
  by (simp_all add: hasDate_def hasTime_def)

lemma getSeconds_0 [simp]: "mamaDateTimeImpl_getSeconds 0 = 0" "mamaDateTimeImpl_getMicroSeconds 0 = 0"
  by (simp_all add: impl_defs)

lemma and_not_keeps [simp]:
  "mamaDateTimeImpl_getSeconds (t AND NOT MAMA_TIME_IMPL_BIT_HAS_DATE) = mamaDateTimeImpl_getSeconds t"
  "mamaDateTimeImpl_getSeconds (t AND NOT MAMA_TIME_IMPL_BIT_HAS_TIME) = mamaDateTimeImpl_getSeconds t"
  "mamaDateTimeImpl_getMicroSeconds (t AND NOT MAMA_TIME_IMPL_BIT_HAS_DATE) = mamaDateTimeImpl_getMicroSeconds t"
  "mamaDateTimeImpl_getMicroSeconds (t AND NOT MAMA_TIME_IMPL_BIT_HAS_TIME) = mamaDateTimeImpl_getMicroSeconds t"
  "mamaDateTimeImpl_getMicroSeconds (t AND NOT MAMA_TIME_IMPL_MASK_SECONDS) = mamaDateTimeImpl_getMicroSeconds t"
  "mamaDateTimeImpl_getSeconds (t AND NOT MAMA_TIME_IMPL_MASK_MICROSECONDS) = mamaDateTimeImpl_getSeconds t"
  "mamaDateTimeImpl_getMicroSeconds (t AND NOT MAMA_TIME_IMPL_MASK_MICROSECONDS) = 0"
  by (rule bit_word_eqI; auto simp: impl_defs bit_simps mask_bits)+

lemma dt_ok_and_not [simp]:
  "dt_ok (t AND NOT MAMA_TIME_IMPL_BIT_HAS_DATE) = dt_ok t" "dt_ok (t AND NOT MAMA_TIME_IMPL_BIT_HAS_TIME) = dt_ok t"
  "dt_ok (t AND NOT MAMA_TIME_IMPL_MASK_SECONDS) = dt_ok t" "dt_ok t \<Longrightarrow> dt_ok (t AND NOT MAMA_TIME_IMPL_MASK_MICROSECONDS)"
  by (auto simp: dt_ok_def bit_simps mask_bits)

lemma and_not_set [simp]:
  "mamaDateTimeImpl_setSeconds s (t AND NOT MAMA_TIME_IMPL_MASK_SECONDS) = mamaDateTimeImpl_setSeconds s t"
  "mamaDateTimeImpl_setMicroSeconds s (t AND NOT MAMA_TIME_IMPL_MASK_MICROSECONDS) = mamaDateTimeImpl_setMicroSeconds s t"
  by (simp_all add: impl_defs ac_simps)

lemma million_fits [simp]: "(us :: u64) < 1000000 \<Longrightarrow> us < 0x100000" "(us' :: u32) < 1000000 \<Longrightarrow> us' < 0x100000"
  by (simp_all add: word_less_def)

lemma dt_ok_mark_date [simp]: "dt_ok (mark_date b t) = dt_ok t"
  by (simp add: mark_date_def)

lemma dt_ok_set_counted: "us < 1000000 \<Longrightarrow> dt_ok (set_counted s us p)"
  by (simp add: set_counted_def mamaDateTimeImpl_clear_def)

lemma dt_ok_addWholeSeconds [simp]: "dt_ok (addWholeSeconds a t) = dt_ok t"
  by (simp add: addWholeSeconds_def)

lemma smod_negative:
  assumes "(m :: int) < 0"
  shows "(if m smod 1000000 < 0 then m smod 1000000 + 1000000 else m smod 1000000) = m mod 1000000"
  using assms pos_mod_bound [of 1000000 m] by (simp add: signed_modulo_int_def zmod_zminus1_eq_if)

lemma sdiv_million: "add < 0 \<Longrightarrow> (add :: int) sdiv 1000000 = - ((- add) div 1000000)"
  by (simp add: signed_divide_int_def)

lemma sdiv_million_pos: "0 \<le> add \<Longrightarrow> (add :: int) sdiv 1000000 = add div 1000000" "0 \<le> add \<Longrightarrow> (add :: int) smod 1000000 = add mod 1000000"
  by (cases "add = 0"; simp add: signed_divide_int_def signed_modulo_int_def)+

text \<open>Adding microseconds: the seconds that are carried and the microseconds that stay.\<close>

definition carried :: "int \<Rightarrow> int" where
  "carried add = add div 1000000 - (if add < -1000000 \<and> 1000000 dvd add then 1 else 0)"

lemma addWholeSeconds_0 [simp]: "addWholeSeconds 0 t = t"
  by (simp add: addWholeSeconds_def)

lemma addMicroseconds_carried:
  assumes "add \<noteq> 0" and "sint add + uint (mamaDateTimeImpl_getMicroSeconds t) < 2 ^ 63"
  shows "addMicroseconds add t =
    Some (mamaDateTimeImpl_setHasTime (mamaDateTimeImpl_setMicroSeconds (word_of_int ((sint add + uint (mamaDateTimeImpl_getMicroSeconds t)) mod 1000000))
      (addWholeSeconds (word_of_int (carried (sint add + uint (mamaDateTimeImpl_getMicroSeconds t)))) t)))"
proof -
  define m where "m = sint add + uint (mamaDateTimeImpl_getMicroSeconds t)"
  have "- (2 ^ 63) \<le> sint add" using sint_ge [of add] by simp
  then have "- (2 ^ 63) \<le> m" unfolding m_def by (rule order_trans) simp
  then have s: "i64_sum (sint add) (uint (mamaDateTimeImpl_getMicroSeconds t)) = Some m" using assms(2) by (simp add: i64_sum_def m_def)
  note run = addMicroseconds_def Let_def s m_def [symmetric]
  consider "m \<ge> 1000000" | "m < 0" "m \<ge> -1000000" | "m < -1000000" | "0 \<le> m" "m < 1000000" by linarith
  then show ?thesis
  proof cases
    case 1
    then show ?thesis using assms(1) by (simp add: run carried_def sdiv_million_pos)
  next
    case 2
    then have "m div 1000000 = -1" by (intro int_div_pos_eq [of _ _ _ "m + 1000000"]) auto
    moreover have "(if m smod 1000000 < 0 then m smod 1000000 + 1000000 else m smod 1000000) = m mod 1000000"
      using 2 by (simp add: smod_negative)
    ultimately show ?thesis using assms(1) 2 by (simp add: run carried_def)
  next
    case 3
    have "m sdiv 1000000 - 1 = carried m"
      using 3 by (simp add: sdiv_million carried_def zdiv_zminus1_eq_if dvd_eq_mod_eq_0)
    moreover have "(if m smod 1000000 < 0 then m smod 1000000 + 1000000 else m smod 1000000) = m mod 1000000"
      using 3 by (simp add: smod_negative)
    ultimately show ?thesis using assms(1) 3 by (simp add: run)
  next
    case 4
    then show ?thesis using assms(1) by (simp add: run carried_def)
  qed
qed

lemma addMicroseconds_overflow:
  "2 ^ 63 \<le> sint add + uint (mamaDateTimeImpl_getMicroSeconds t) \<Longrightarrow> addMicroseconds add t = None" if "mamaDateTimeImpl_getMicroSeconds t < 1000000"
  using that by (auto simp: addMicroseconds_def i64_sum_def word_less_def)

lemma million_word:
  fixes m :: int
  shows "(word_of_int (m mod 1000000) :: u64) < 1000000" "uint (word_of_int (m mod 1000000) :: u64) = m mod 1000000"
proof -
  have "0 \<le> m mod 1000000" "m mod 1000000 < 1000000" by simp_all
  then show u: "uint (word_of_int (m mod 1000000) :: u64) = m mod 1000000"
    by (simp add: unsigned_of_int take_bit_int_eq_self_iff del: pos_mod_bound pos_mod_sign)
  show "(word_of_int (m mod 1000000) :: u64) < 1000000"
    by (simp add: word_less_def u)
qed

lemma dt_ok_addMicroseconds: "dt_ok t \<Longrightarrow> addMicroseconds a t = Some u \<Longrightarrow> dt_ok u"
proof (cases "a \<noteq> 0 \<and> sint a + uint (mamaDateTimeImpl_getMicroSeconds t) < 2 ^ 63")
  case True
  then show "dt_ok t \<Longrightarrow> addMicroseconds a t = Some u \<Longrightarrow> dt_ok u" by (auto simp: addMicroseconds_carried million_word)
next
  case False
  then show "dt_ok t \<Longrightarrow> addMicroseconds a t = Some u \<Longrightarrow> dt_ok u" by (auto simp: addMicroseconds_def i64_sum_def split: if_splits)
qed

lemma addWholeSeconds_effect [simp]:
  "mamaDateTimeImpl_getSeconds (addWholeSeconds a t) = mamaDateTimeImpl_getSeconds t + a"
  "mamaDateTimeImpl_getMicroSeconds (addWholeSeconds a t) = mamaDateTimeImpl_getMicroSeconds t"
  "hasDate (addWholeSeconds a t) = hasDate t"
  by (simp_all add: addWholeSeconds_def)

lemma epoch_us_range: "dt_ok t \<Longrightarrow> 0 \<le> epoch_us t \<and> epoch_us t < 2 ^ 32 * 1000000"
  using uint_lt2p [of "mamaDateTimeImpl_getSeconds t"]
  by (simp add: dt_ok_def epoch_us_def word_less_def)

lemma mod_mult_split: "(0 :: int) < d \<Longrightarrow> 0 < n \<Longrightarrow> x mod (n * d) = (x div d) mod n * d + x mod d"
  by (simp add: mult.commute [of n d] zmod_zmult2_eq)

lemma epoch_us_addMicroseconds:
  assumes "dt_ok t" and "addMicroseconds w t = Some u"
  defines "m \<equiv> uint (mamaDateTimeImpl_getMicroSeconds t)" and "a \<equiv> sint w"
  shows "epoch_us u = (epoch_us t + a - (if m + a < -1000000 \<and> 1000000 dvd m + a then 1000000 else 0)) mod (2 ^ 32 * 1000000)"
proof (cases "w = 0")
  case True
  have "0 \<le> m" by (simp add: m_def)
  with True assms(2) epoch_us_range [OF assms(1)] show ?thesis by (simp add: addMicroseconds_def a_def)
next
  case False
  define x where "x = a + m"
  let ?s = "uint (mamaDateTimeImpl_getSeconds t)"
  let ?late = "if x < -1000000 \<and> 1000000 dvd x then 1 else 0"
  have "sint w + uint (mamaDateTimeImpl_getMicroSeconds t) < 2 ^ 63"
    using assms(1,2) addMicroseconds_overflow [of t w] by (auto simp: dt_ok_def not_less [symmetric])
  from addMicroseconds_carried [OF False this] assms(2)
  have "epoch_us u = (?s + carried x) mod 2 ^ 32 * 1000000 + x mod 1000000"
    by (auto simp: epoch_us_def million_word m_def [symmetric] a_def [symmetric] x_def [symmetric] uint_word_ariths uint_down
        unsigned_of_int take_bit_eq_mod mod_simps)
  also have "?s + carried x = (x + (?s - ?late) * 1000000) div 1000000"
    by (simp add: carried_def)
  also have "x mod 1000000 = (x + (?s - ?late) * 1000000) mod 1000000" by simp
  also have "(x + (?s - ?late) * 1000000) div 1000000 mod 2 ^ 32 * 1000000 + (x + (?s - ?late) * 1000000) mod 1000000 =
      (x + (?s - ?late) * 1000000) mod (2 ^ 32 * 1000000)"
    by (rule mod_mult_split [symmetric]) simp_all
  also have "x + (?s - ?late) * 1000000 = epoch_us t + a - (if m + a < -1000000 \<and> 1000000 dvd m + a then 1000000 else 0)"
    by (simp add: epoch_us_def x_def m_def add.commute algebra_simps)
  finally show ?thesis .
qed

text \<open>Reading the time of a value as one number.\<close>

lemma getTimeOnly_number:
  "uint (mamaDateTimeImpl_getTimeOnly t) = uint (mamaDateTimeImpl_getSeconds t) * 2 ^ 32 + uint (mamaDateTimeImpl_getMicroSeconds t)"
proof -
  let ?s = "push_bit 32 (ucast (mamaDateTimeImpl_getSeconds t)) :: u64" and ?m = "ucast (mamaDateTimeImpl_getMicroSeconds t) :: u64"
  have "mamaDateTimeImpl_getTimeOnly t = ?s OR ?m"
    by (rule bit_word_eqI) (auto simp: impl_defs bit_simps mask_bits)
  also have "\<dots> = ?s + ?m"
    by (rule disjunctive_add [symmetric]) (auto simp: impl_defs bit_simps mask_bits)
  finally have "mamaDateTimeImpl_getTimeOnly t = ?s + ?m" .
  moreover have "uint ?s = uint (mamaDateTimeImpl_getSeconds t) * 2 ^ 32"
    using uint_lt2p [of "mamaDateTimeImpl_getSeconds t"]
    by (simp add: push_bit_eq_mult uint_word_ariths)
  moreover have "uint (mamaDateTimeImpl_getSeconds t) * 2 ^ 32 + uint (mamaDateTimeImpl_getMicroSeconds t) < 2 ^ 64"
    using uint_lt2p [of "mamaDateTimeImpl_getSeconds t"] uint_lt2p [of "mamaDateTimeImpl_getMicroSeconds t"] by simp
  ultimately show ?thesis by (simp add: uint_word_ariths)
qed

lemma number_less:
  fixes s r m n :: int
  assumes "0 \<le> m" "m < d" "0 \<le> n" "n < d" "d \<le> D"
  shows "s * D + m < r * D + n \<longleftrightarrow> s < r \<or> s = r \<and> m < n"
proof -
  have "s * D + m < r * D + n" if "s < r"
  proof -
    have "(s + 1) * D \<le> r * D" using that assms by (intro mult_right_mono) auto
    then show ?thesis using assms by (simp add: algebra_simps)
  qed
  moreover have "r * D + n < s * D + m" if "r < s"
  proof -
    have "(r + 1) * D \<le> s * D" using that assms by (intro mult_right_mono) auto
    then show ?thesis using assms by (simp add: algebra_simps)
  qed
  ultimately show ?thesis by (cases s r rule: linorder_cases) auto
qed

lemma number_eq:
  fixes s r m n :: int
  assumes "0 \<le> m" "m < d" "0 \<le> n" "n < d" "d \<le> D"
  shows "s * D + m = r * D + n \<longleftrightarrow> s = r \<and> m = n"
  using number_less [of m d n D s r] number_less [of n d m D r s] assms by (cases s r rule: linorder_cases) auto

lemma getEpochTimeMicroseconds_number:
  assumes "dt_ok t"
  shows "uint (1000000 * ucast (mamaDateTimeImpl_getSeconds t) + ucast (mamaDateTimeImpl_getMicroSeconds t) :: u64) = epoch_us t"
    "sint (1000000 * ucast (mamaDateTimeImpl_getSeconds t) + ucast (mamaDateTimeImpl_getMicroSeconds t) :: u64) = epoch_us t"
proof -
  let ?w = "1000000 * ucast (mamaDateTimeImpl_getSeconds t) + ucast (mamaDateTimeImpl_getMicroSeconds t) :: u64"
  have r: "0 \<le> epoch_us t" "epoch_us t < 2 ^ 32 * 1000000" using epoch_us_range [OF assms] by auto
  have "uint ?w = epoch_us t mod 2 ^ 64"
    by (simp add: uint_word_ariths epoch_us_def mod_simps mult.commute)
  then show u: "uint ?w = epoch_us t" using r by simp
  have "sint ?w = signed_take_bit 63 (uint ?w)" by (simp add: sint_uint)
  then show "sint ?w = epoch_us t"
    using r by (simp add: u signed_take_bit_int_eq_self)
qed

lemma set_counted_effect:
  assumes "us < 1000000" and "p < 16"
  shows "mamaDateTimeImpl_getSeconds (set_counted s us p) = ucast s" "mamaDateTimeImpl_getMicroSeconds (set_counted s us p) = ucast us"
    "hasTime (set_counted s us p)" "hasDate (set_counted s us p) \<longleftrightarrow> s > SECONDS_IN_A_DAY"
    "epoch_us (set_counted s us p) = uint s mod 2 ^ 32 * 1000000 + uint us"
proof -
  show *: "mamaDateTimeImpl_getSeconds (set_counted s us p) = ucast s" "mamaDateTimeImpl_getMicroSeconds (set_counted s us p) = ucast us"
    using assms by (simp_all add: set_counted_def Let_def mark_date_def)
  show "hasTime (set_counted s us p)" "hasDate (set_counted s us p) \<longleftrightarrow> s > SECONDS_IN_A_DAY"
    using assms by (simp_all add: set_counted_def Let_def mark_date_def mamaDateTimeImpl_clear_def)
  show "epoch_us (set_counted s us p) = uint s mod 2 ^ 32 * 1000000 + uint us"
    using assms(1) by (simp add: epoch_us_def * uint_down word_less_def)
qed

subsection \<open>Properties\<close>

text \<open>C34: these operations keep a date-time well formed (fewer than a million microseconds and no bit outside the fields), when the microseconds that they are
  given are below a million (otherwise fields overrun, \<open>dt_fields_overrun\<close>): creating, clearing (all, the date, the time), copying (all, the date, the time),
  setting from seconds and microseconds, from milliseconds, from microseconds, with hints, to now, to midnight, a time of the day with precision and time zone, the
  precision, adding whole seconds, microseconds or seconds, where these sums are defined, and adding today's date when seconds are read. Nothing is required of the precision, the hints, the amounts
  added, the time zone and the clock's seconds. Setting from a double, from broken-down dates and from text is not among them.\<close>

theorem dt_operations_ok:
  assumes "all_ok d" and "all_ok d'" and "us < 1000000" and "usec < 1000000"
  shows "all_ok (fst (mamaDateTime_create b)) \<and> all_ok (fst (mamaDateTime_clear d)) \<and> all_ok (fst (mamaDateTime_clearDate d)) \<and>
    all_ok (fst (mamaDateTime_clearTime d)) \<and> all_ok (fst (mamaDateTime_copy d d')) \<and> all_ok (fst (mamaDateTime_setEpochTime d s us p)) \<and>
    all_ok (fst (mamaDateTime_setEpochTimeMilliseconds d n)) \<and> all_ok (fst (mamaDateTime_setEpochTimeMicroseconds d n)) \<and>
    all_ok (fst (mamaDateTime_setWithHints d s us p h)) \<and> all_ok (fst (mamaDateTime_setPrecision d p)) \<and>
    all_ok (fst (mamaDateTime_setToNow (Some (sec, usec)) d)) \<and> all_ok (fst (mamaDateTime_setToNow None d)) \<and>
    all_ok (fst (mamaDateTime_setToMidnightToday s tz d)) \<and>
    all_ok (fst (mamaDateTime_setTimeWithPrecisionAndTz d hour minute second us p tz)) \<and> all_ok (fst (mamaDateTime_copyTime d d')) \<and>
    all_ok (fst (mamaDateTime_copyDate d d')) \<and> all_ok (fst (mamaDateTime_addWholeSeconds d s)) \<and>
    (\<forall>r. mamaDateTime_addMicroseconds d a = Some r \<longrightarrow> all_ok (fst r)) \<and> (\<forall>r. mamaDateTime_addSeconds d x = Some r \<longrightarrow> all_ok (fst r)) \<and>
    all_ok (fst (mamaDateTime_getEpochTimeSecondsWithCheck now d))"
proof (intro conjI)
  have m: "n mod 1000000 < (1000000 :: u64)" "n mod 1000 * 1000 < (1000000 :: u64)" for n
  proof -
    show "n mod 1000000 < (1000000 :: u64)" by (rule word_mod_less_divisor) simp
    have "uint (n mod 1000) < 1000" by (simp add: uint_mod)
    then show "n mod 1000 * 1000 < (1000000 :: u64)" by (simp add: word_less_def uint_word_ariths)
  qed
  note defs = all_ok_def on_dt_def mamaDateTimeImpl_clear_def Let_def assms(3,4)
  show "all_ok (fst (mamaDateTime_create b))" by (simp add: mamaDateTime_create_def defs)
  show "all_ok (fst (mamaDateTime_clear d))" by (simp add: mamaDateTime_clear_def defs split: option.splits)
  show "all_ok (fst (mamaDateTime_clearDate d))"
    using assms(1) by (simp add: mamaDateTime_clearDate_def mamaDateTimeImpl_clearDate_def defs split: option.splits)
  show "all_ok (fst (mamaDateTime_clearTime d))"
    using assms(1) by (simp add: mamaDateTime_clearTime_def mamaDateTimeImpl_clearTime_def defs split: option.splits)
  show "all_ok (fst (mamaDateTime_copy d d'))" using assms(1,2) by (simp add: mamaDateTime_copy_def)
  show "all_ok (fst (mamaDateTime_setEpochTime d s us p))" by (simp add: mamaDateTime_setEpochTime_def defs split: option.splits)
  show "all_ok (fst (mamaDateTime_setEpochTimeMilliseconds d n))" "all_ok (fst (mamaDateTime_setEpochTimeMicroseconds d n))"
    by (simp_all add: mamaDateTime_setEpochTimeMilliseconds_def mamaDateTime_setEpochTimeMicroseconds_def all_ok_def on_dt_def dt_ok_set_counted m
        split: option.splits)
  show "all_ok (fst (mamaDateTime_setWithHints d s us p h))" by (simp add: mamaDateTime_setWithHints_def defs split: option.splits)
  show "all_ok (fst (mamaDateTime_setPrecision d p))"
    using assms(1) by (simp add: mamaDateTime_setPrecision_def defs split: option.splits)
  show "all_ok (fst (mamaDateTime_setToNow (Some (sec, usec)) d))" "all_ok (fst (mamaDateTime_setToNow None d))"
    by (simp_all add: mamaDateTime_setToNow_def defs split: option.splits)
  show "all_ok (fst (mamaDateTime_setToMidnightToday s tz d))"
    by (simp add: mamaDateTime_setToMidnightToday_def defs split: option.splits)
  show "all_ok (fst (mamaDateTime_setTimeWithPrecisionAndTz d hour minute second us p tz))"
    using assms(1) by (auto simp: mamaDateTime_setTimeWithPrecisionAndTz_def defs split: option.splits)
  show "all_ok (fst (mamaDateTime_copyTime d d'))" "all_ok (fst (mamaDateTime_copyDate d d'))"
    using assms(1,2) by (auto simp: mamaDateTime_copyTime_def mamaDateTime_copyDate_def defs dt_ok_micro split: option.splits)
  show "all_ok (fst (mamaDateTime_addWholeSeconds d s))" using assms(1) by (auto simp: mamaDateTime_addWholeSeconds_def defs split: option.splits)
  show "\<forall>r. mamaDateTime_addMicroseconds d a = Some r \<longrightarrow> all_ok (fst r)" "\<forall>r. mamaDateTime_addSeconds d x = Some r \<longrightarrow> all_ok (fst r)"
    using assms(1) by (auto simp: mamaDateTime_addMicroseconds_def mamaDateTime_addSeconds_def on_dt_opt_def defs bind_eq_Some_conv
        dest: dt_ok_addMicroseconds [rotated] split: option.splits if_splits)
  show "all_ok (fst (mamaDateTime_getEpochTimeSecondsWithCheck now d))"
    using assms(1) by (auto simp: mamaDateTime_getEpochTimeSecondsWithCheck_def mamaDateTime_addTodayToDateTime_def defs split: option.splits)
qed

lemma demo_times: "dt_ok 0x500000002f0f423f" "dt_ok 0x500000000a000000" "epoch_us 0x500000000a000000 = 1342177280000000"
  "mamaDateTimeImpl_getMicroSeconds 0x500000000a000000 = 0"
  by code_simp+

theorem dt_operations_ok_witness:
  "(\<exists>r. mamaDateTime_addMicroseconds (Some 0x500000002f0f423f) 1 = Some r \<and> all_ok (fst r)) \<and>
   all_ok (fst (mamaDateTime_setTimeWithPrecisionAndTz (Some 0x500000002f0f423f) 23 59 59 999999 6 (Some (- 3600))))"
proof -
  have "mamaDateTime_addMicroseconds (Some 0x500000002f0f423f) 1 \<noteq> None" by code_simp
  then show ?thesis
    using dt_operations_ok [where d = "Some 0x500000002f0f423f" and d' = None and us = 999999 and usec = 0 and a = 1 and hour = 23
      and minute = 59 and second = 59 and p = 6 and tz = "Some (- 3600)"] demo_times
    by (auto simp: all_ok_def)
qed

text \<open>C32: adding a signed 64-bit number of microseconds, when its sum with the microseconds of the value is below \<open>2 ^ 63\<close>, is addition of integers
  on the time since the epoch, modulo \<open>2 ^ 32\<close> seconds, with one
  exception: when the microseconds of the value and the amount add up to a multiple of a second below minus one second, the result is
  one second too early. The date mark is kept, and a time is present whenever something was added. When the sum is not below \<open>2 ^ 63\<close>, it overflows, which
  is not defined.\<close>

theorem dt_addMicroseconds:
  assumes "dt_ok t"
  shows "let m = uint (mamaDateTimeImpl_getMicroSeconds t); late = (m + sint a < -1000000 \<and> 1000000 dvd m + sint a) in
    if m + sint a < 2 ^ 63
    then \<exists>u. mamaDateTime_addMicroseconds (Some t) a = Some (Some u, MAMA_STATUS_OK) \<and>
      epoch_us u = (epoch_us t + sint a - (if late then 1000000 else 0)) mod (2 ^ 32 * 1000000) \<and>
      hasDate u = hasDate t \<and> (hasTime u \<longleftrightarrow> a \<noteq> 0 \<or> hasTime t)
    else mamaDateTime_addMicroseconds (Some t) a = None"
proof (cases "sint a + uint (mamaDateTimeImpl_getMicroSeconds t) < 2 ^ 63")
  case True
  then obtain u where u: "addMicroseconds a t = Some u" using addMicroseconds_carried [of a t] by (cases "a = 0") (auto simp: addMicroseconds_def)
  moreover have "hasDate u = hasDate t \<and> (hasTime u \<longleftrightarrow> a \<noteq> 0 \<or> hasTime t)"
    using u addMicroseconds_carried [of a t] True by (cases "a = 0") (auto simp: addMicroseconds_def million_word)
  ultimately show ?thesis using epoch_us_addMicroseconds [OF assms u] True
    by (simp add: mamaDateTime_addMicroseconds_def on_dt_opt_def Let_def add.commute)
next
  case False
  then show ?thesis using assms addMicroseconds_overflow [of t a]
    by (simp add: mamaDateTime_addMicroseconds_def on_dt_opt_def Let_def add.commute dt_ok_def)
qed

theorem dt_addMicroseconds_witness:
  "\<exists>u. mamaDateTime_addMicroseconds (Some 0x500000000a000000) (- 3000000) = Some (Some u, MAMA_STATUS_OK) \<and> epoch_us u = 1342177280000000 - 4000000"
  using dt_addMicroseconds [OF demo_times(2), of "- 3000000"] by (auto simp: Let_def demo_times)

text \<open>Comparing two well formed values agrees with the difference of their times in microseconds, whose sign it returns, and
  with the difference in seconds, a double, up to the errors of rounding; dates, times and precisions that are or are not present have no influence. A null pointer
  compares as equal, and has no difference.\<close>

lemma rat_word_nonneg: "0 \<le> (of_nat (unat (x :: u32)) :: rat)"
  by (rule of_nat_0_le_iff)

lemma rat_word_le: "of_nat (unat (x :: u32)) \<le> (2 ^ 32 :: rat)"
proof -
  have "unat x \<le> 2 ^ 32" using unsigned_less [where w = x and ?'a = nat] by simp
  then show ?thesis by (metis of_nat_le_iff of_nat_numeral of_nat_power)
qed

lemma rat_micro_le: "(x :: u32) < 1000000 \<Longrightarrow> of_nat (unat x) \<le> (1000000 :: rat)"
proof -
  assume "x < 1000000"
  then have "unat x \<le> 1000000" by (simp add: word_less_nat_alt)
  then show "of_nat (unat x) \<le> (1000000 :: rat)" by (metis of_nat_le_iff of_nat_numeral)
qed

lemma micro_ratio: "\<bar>(a - b) / 1000000\<bar> \<le> 1" if "0 \<le> a" "a \<le> 1000000" "0 \<le> b" "b \<le> 1000000" for a b :: rat
  using that by (simp add: abs_le_iff)

lemma seconds_error: "\<bar>fl (s + fl b) - (s + b)\<bar> \<le> 1 / 2 ^ 20" if "\<bar>s\<bar> \<le> 2 ^ 32" "\<bar>b\<bar> \<le> 1"
proof -
  have "\<bar>fl b - b\<bar> \<le> (\<bar>b\<bar> + 1 / 4) / 2 ^ 53" by (rule fl_error)
  also have "\<dots> \<le> 1 / 2 ^ 22" using that(2) by simp
  finally have b: "\<bar>fl b - b\<bar> \<le> 1 / 2 ^ 22" .
  have "\<bar>fl (s + fl b) - (s + fl b)\<bar> \<le> (\<bar>s + fl b\<bar> + 1 / 4) / 2 ^ 53" by (rule fl_error)
  moreover have "\<bar>fl b - b\<bar> \<le> 1" using b by simp
  then have "\<bar>s + fl b\<bar> + 1 / 4 \<le> 2 ^ 32 + 3" using that by linarith
  then have "(\<bar>s + fl b\<bar> + 1 / 4) / 2 ^ 53 \<le> (2 ^ 32 + 3) / 2 ^ 53" by (rule divide_right_mono) simp
  ultimately have "\<bar>fl (s + fl b) - (s + fl b)\<bar> \<le> (2 ^ 32 + 3) / 2 ^ 53" by linarith
  then have "\<bar>fl (s + fl b) - (s + fl b)\<bar> \<le> 1 / 2 ^ 20 - 1 / 2 ^ 22" by simp
  then show ?thesis using b by linarith
qed

lemma dt_compare:
  assumes "dt_ok t" and "dt_ok u"
  shows "mamaDateTime_diffMicroseconds (Some t) (Some u) = (Some (epoch_us t - epoch_us u), MAMA_STATUS_OK) \<and>
    mamaDateTime_compare (Some t) (Some u) = sgn (epoch_us t - epoch_us u) \<and>
    (\<exists>x. mamaDateTime_diffSeconds (Some t) (Some u) = (Some x, MAMA_STATUS_OK) \<and> \<bar>x - of_int (epoch_us t - epoch_us u) / 1000000\<bar> \<le> 1 / 2 ^ 20) \<and>
    mamaDateTime_compare None d = 0 \<and> mamaDateTime_compare d None = 0 \<and>
    mamaDateTime_diffMicroseconds None d = (None, MAMA_STATUS_INVALID_ARG) \<and> mamaDateTime_diffMicroseconds d None = (None, MAMA_STATUS_INVALID_ARG)"
proof (intro conjI)
  show "mamaDateTime_diffMicroseconds (Some t) (Some u) = (Some (epoch_us t - epoch_us u), MAMA_STATUS_OK)"
    using assms by (simp add: mamaDateTime_diffMicroseconds_def mamaDateTime_getEpochTimeMicrosecondsWithTz_def from_dt_def with_offset_def
        getEpochTimeMicroseconds_number)
  have "uint (mamaDateTimeImpl_getMicroSeconds t) < 1000000" "uint (mamaDateTimeImpl_getMicroSeconds u) < 1000000"
    using assms by (simp_all add: dt_ok_def word_less_def)
  note b = this and n = number_less [of _ 1000000 _ 4294967296] number_less [of _ 1000000 _ 1000000] number_eq [of _ 1000000 _ 4294967296]
    number_eq [of _ 1000000 _ 1000000]
  show "mamaDateTime_compare (Some t) (Some u) = sgn (epoch_us t - epoch_us u)"
    using b by (auto simp: mamaDateTime_compare_def word_less_def word_uint_eq_iff getTimeOnly_number epoch_us_def sgn_if Let_def n)
  let ?s = "of_nat (unat (mamaDateTimeImpl_getSeconds t)) - of_nat (unat (mamaDateTimeImpl_getSeconds u)) :: rat"
  let ?b = "(of_nat (unat (mamaDateTimeImpl_getMicroSeconds t)) - of_nat (unat (mamaDateTimeImpl_getMicroSeconds u))) / 1000000 :: rat"
  have e: "of_int (epoch_us t - epoch_us u) / 1000000 = ?s + ?b" by (simp add: epoch_us_def divide_simps)
  have "\<bar>fl (?s + fl ?b) - (?s + ?b)\<bar> \<le> 1 / 2 ^ 20"
  proof (rule seconds_error)
    show "\<bar>?s\<bar> \<le> 2 ^ 32" using rat_word_le [of "mamaDateTimeImpl_getSeconds t"] rat_word_le [of "mamaDateTimeImpl_getSeconds u"]
      rat_word_nonneg [of "mamaDateTimeImpl_getSeconds t"] rat_word_nonneg [of "mamaDateTimeImpl_getSeconds u"] by linarith
    show "\<bar>?b\<bar> \<le> 1" by (intro micro_ratio rat_micro_le rat_word_nonneg dt_ok_micro assms)
  qed
  then show "\<exists>x. mamaDateTime_diffSeconds (Some t) (Some u) = (Some x, MAMA_STATUS_OK) \<and> \<bar>x - of_int (epoch_us t - epoch_us u) / 1000000\<bar> \<le> 1 / 2 ^ 20"
    unfolding e mamaDateTime_diffSeconds_def both_dt_def seconds_diff_def by (simp only: option.case prod.case) blast
qed (simp_all add: mamaDateTime_compare_def mamaDateTime_diffMicroseconds_def mamaDateTime_getEpochTimeMicrosecondsWithTz_def from_dt_def split: option.splits)

text \<open>What is set from a count of microseconds, milliseconds or from seconds and microseconds is read back: exactly while
  the seconds fit 32 bits (and modulo \<open>2 ^ 32\<close> seconds beyond), the precision included, with a time always marked as present
  and a date when there are more seconds than a day has.\<close>

lemma dt_epoch_roundtrip:
  assumes "us < 1000000" and "p < 16"
  shows "(\<exists>t v. mamaDateTime_setEpochTimeMicroseconds (Some d) n = (Some t, MAMA_STATUS_OK) \<and>
        mamaDateTime_getEpochTimeMicrosecondsWithTz (Some t) None = (Some v, MAMA_STATUS_OK) \<and> uint v = uint n mod (2 ^ 32 * 1000000) \<and>
        hasTime t \<and> (hasDate t \<longleftrightarrow> n div 1000000 > SECONDS_IN_A_DAY)) \<and>
    (\<exists>t v. mamaDateTime_setEpochTimeMilliseconds (Some d) n = (Some t, MAMA_STATUS_OK) \<and>
        mamaDateTime_getEpochTimeMicrosecondsWithTz (Some t) None = (Some v, MAMA_STATUS_OK) \<and> uint v = 1000 * (uint n mod (2 ^ 32 * 1000)) \<and>
        hasTime t \<and> (hasDate t \<longleftrightarrow> n div 1000 > SECONDS_IN_A_DAY)) \<and>
    (\<exists>t. mamaDateTime_setEpochTime (Some d) s us p = (Some t, MAMA_STATUS_OK) \<and>
        mamaDateTime_getEpochTimeWithTz (Some t) None = (Some (s, us, p), MAMA_STATUS_OK) \<and>
        hasTime t \<and> (hasDate t \<longleftrightarrow> s > SECONDS_IN_A_DAY))"
proof (intro conjI)
  have m: "n mod 1000000 < (1000000 :: u64)" by (rule word_mod_less_divisor) simp
  note c = set_counted_effect [OF m, of 6 "n div 1000000"]
  have "uint n mod (2 ^ 32 * 1000000) = uint n div 1000000 mod 2 ^ 32 * 1000000 + uint n mod 1000000"
    by (rule mod_mult_split) simp_all
  with c getEpochTimeMicroseconds_number(1) [OF dt_ok_set_counted [OF m, of "n div 1000000" 6]]
  show "\<exists>t v. mamaDateTime_setEpochTimeMicroseconds (Some d) n = (Some t, MAMA_STATUS_OK) \<and>
        mamaDateTime_getEpochTimeMicrosecondsWithTz (Some t) None = (Some v, MAMA_STATUS_OK) \<and> uint v = uint n mod (2 ^ 32 * 1000000) \<and>
        hasTime t \<and> (hasDate t \<longleftrightarrow> n div 1000000 > SECONDS_IN_A_DAY)"
    by (simp add: mamaDateTime_setEpochTimeMicroseconds_def mamaDateTime_getEpochTimeMicrosecondsWithTz_def on_dt_def from_dt_def with_offset_def
        uint_div uint_mod)
  have "uint (n mod 1000) < 1000" "0 \<le> uint (n mod 1000)" by (simp_all add: uint_mod)
  then have k: "uint (n mod 1000 * 1000) = uint n mod 1000 * 1000" by (simp add: uint_word_ariths uint_mod)
  then have m': "n mod 1000 * 1000 < (1000000 :: u64)" by (simp add: word_less_def)
  note c' = set_counted_effect [OF m', of 3 "n div 1000"]
  have "uint n mod (2 ^ 32 * 1000) = uint n div 1000 mod 2 ^ 32 * 1000 + uint n mod 1000"
    by (rule mod_mult_split) simp_all
  with c' k getEpochTimeMicroseconds_number(1) [OF dt_ok_set_counted [OF m', of "n div 1000" 3]]
  show "\<exists>t v. mamaDateTime_setEpochTimeMilliseconds (Some d) n = (Some t, MAMA_STATUS_OK) \<and>
        mamaDateTime_getEpochTimeMicrosecondsWithTz (Some t) None = (Some v, MAMA_STATUS_OK) \<and> uint v = 1000 * (uint n mod (2 ^ 32 * 1000)) \<and>
        hasTime t \<and> (hasDate t \<longleftrightarrow> n div 1000 > SECONDS_IN_A_DAY)"
    by (simp add: mamaDateTime_setEpochTimeMilliseconds_def mamaDateTime_getEpochTimeMicrosecondsWithTz_def on_dt_def from_dt_def with_offset_def
        uint_div uint_mod)
  show "\<exists>t. mamaDateTime_setEpochTime (Some d) s us p = (Some t, MAMA_STATUS_OK) \<and>
        mamaDateTime_getEpochTimeWithTz (Some t) None = (Some (s, us, p), MAMA_STATUS_OK) \<and>
        hasTime t \<and> (hasDate t \<longleftrightarrow> s > SECONDS_IN_A_DAY)"
    using assms by (simp add: mamaDateTime_setEpochTime_def mamaDateTime_getEpochTimeWithTz_def on_dt_def from_dt_def with_offset_def Let_def
        mark_date_def mamaDateTimeImpl_clear_def)
qed

text \<open>Microseconds that do not fit their 20 bits run into the other fields: the microseconds read back are the lowest 20
  bits, bit 24 marks a date as present, and with hints the time mark that was just set is overwritten by the hints, so that a value
  set without hints has neither a date nor a time.\<close>

lemma dt_fields_overrun:
  "(\<exists>t. mamaDateTime_setEpochTime (Some d) s us p = (Some t, MAMA_STATUS_OK) \<and> mamaDateTimeImpl_getMicroSeconds t = us AND mask 20 \<and>
      (hasDate t \<longleftrightarrow> s > SECONDS_IN_A_DAY \<or> bit us 24)) \<and>
   (\<exists>t. mamaDateTime_setWithHints (Some d) s us p h = (Some t, MAMA_STATUS_OK) \<and> (hasTime t \<longleftrightarrow> bit h 1) \<and>
      (hasDate t \<longleftrightarrow> s > SECONDS_IN_A_DAY \<or> bit h 0))"
proof
  have m: "mamaDateTimeImpl_getMicroSeconds (mamaDateTimeImpl_setMicroSeconds (ucast us) t) = us AND mask 20" for t
    by (rule bit_word_eqI) (auto simp: impl_defs bit_simps mask_bits)
  have d: "hasDate (mamaDateTimeImpl_setMicroSeconds (ucast us) t) \<longleftrightarrow> hasDate t \<or> bit us 24" for t
    by (auto simp: hasDate_def impl_defs bit_simps mask_bits)
  show "\<exists>t. mamaDateTime_setEpochTime (Some d) s us p = (Some t, MAMA_STATUS_OK) \<and> mamaDateTimeImpl_getMicroSeconds t = us AND mask 20 \<and>
      (hasDate t \<longleftrightarrow> s > SECONDS_IN_A_DAY \<or> bit us 24)"
    by (simp add: mamaDateTime_setEpochTime_def on_dt_def Let_def mark_date_def mamaDateTimeImpl_clear_def m d)
  have "bit (ucast h :: u64) 0 = bit h 0" "bit (ucast h :: u64) 1 = bit h 1" by (simp_all only: bit_ucast_iff) simp_all
  then show "\<exists>t. mamaDateTime_setWithHints (Some d) s us p h = (Some t, MAMA_STATUS_OK) \<and> (hasTime t \<longleftrightarrow> bit h 1) \<and>
      (hasDate t \<longleftrightarrow> s > SECONDS_IN_A_DAY \<or> bit h 0)"
    by (simp add: mamaDateTime_setWithHints_def on_dt_def Let_def mark_date_def)
qed

end
