(* ===== verification/Calendar.thy ===== *)
theory Calendar
  imports DateTime
begin

text \<open>
  The calendar part of \<open>mama/c_cpp/src/c/datetime.c\<close>: \<open>makeTime\<close> and \<open>utcTm\<close> on top of \<open>timegm\<close> and
  \<open>gmtime_r\<close> of the C library, and the operations that set and read the fields of a date. The library functions are
  modelled by the Gregorian calendar: \<open>timegm\<close> with the closed formula that POSIX gives for the seconds since the
  epoch, \<open>gmtime_r\<close> by counting years and months down.
\<close>

subsection \<open>The C library\<close>

record tm =
  tm_sec :: int
  tm_min :: int
  tm_hour :: int
  tm_mday :: int
  tm_mon :: int
  tm_year :: int
  tm_wday :: int

definition leap_year :: "int \<Rightarrow> bool" where
  "leap_year y \<longleftrightarrow> 4 dvd y \<and> (\<not> 100 dvd y \<or> 400 dvd y)"

definition year_days :: "int \<Rightarrow> nat" where
  "year_days y = (if leap_year y then 366 else 365)"

definition month_lengths :: "int \<Rightarrow> nat list" where
  "month_lengths y = [31, if leap_year y then 29 else 28, 31, 30, 31, 30, 31, 31, 30, 31, 30, 31]"

definition days_before :: "int \<Rightarrow> int" where
  "days_before y = 365 * (y - 1970) + (y - 1969) div 4 - (y - 1901) div 100 + (y - 1601) div 400"

definition timegm :: "tm \<Rightarrow> int" where
  "timegm t =
    (let y = tm_year t + 1900 + tm_mon t div 12;
         days = days_before y + int (sum_list (take (nat (tm_mon t mod 12)) (month_lengths y))) + tm_mday t - 1
     in days * 86400 + tm_hour t * 3600 + tm_min t * 60 + tm_sec t)"

function gm_year :: "int \<Rightarrow> nat \<Rightarrow> int \<times> nat" where
  "gm_year y d = (if d < year_days y then (y, d) else gm_year (y + 1) (d - year_days y))"
  by pat_completeness auto
termination
  by (relation "measure snd") (auto simp: year_days_def)

declare gm_year.simps [simp del]

fun gm_month :: "nat \<Rightarrow> nat \<Rightarrow> nat list \<Rightarrow> nat \<times> nat" where
  "gm_month m d [] = (m, d)"
| "gm_month m d (l # ls) = (if d < l then (m, d) else gm_month (Suc m) (d - l) ls)"

definition gmtime_r :: "nat \<Rightarrow> tm" where
  "gmtime_r s =
    (let (y, yday) = gm_year 1970 (s div 86400); (mon, mday) = gm_month 0 yday (month_lengths y); r = s mod 86400
     in \<lparr>tm_sec = int (r mod 60), tm_min = int (r div 60 mod 60), tm_hour = int (r div 3600), tm_mday = int mday + 1,
         tm_mon = int mon, tm_year = y - 1900, tm_wday = int ((s div 86400 + 4) mod 7)\<rparr>)"

subsection \<open>Setting and reading\<close>

definition makeTime :: "int \<Rightarrow> int \<Rightarrow> int \<Rightarrow> int \<Rightarrow> int \<Rightarrow> int \<Rightarrow> u64" where
  "makeTime year mon day hour minute second =
    word_of_int (timegm \<lparr>tm_sec = second, tm_min = minute, tm_hour = hour, tm_mday = (if day > 0 then day else 1),
      tm_mon = (if mon > 0 then mon - 1 else 0), tm_year = (if year > 1970 then year - 1900 else 70), tm_wday = 0\<rparr>)"

definition utcTm :: "u32 \<Rightarrow> tm" where
  "utcTm secSinceEpoch = gmtime_r (unat secSinceEpoch)"

definition mamaDateTime_setDate :: "u64 option \<Rightarrow> u32 \<Rightarrow> u32 \<Rightarrow> u32 \<Rightarrow> u64 option \<times> mama_status" where
  "mamaDateTime_setDate dateTime year month day =
    on_dt (\<lambda>t. let tmpSeconds = mamaDateTimeImpl_getSeconds t mod SECONDS_IN_A_DAY;
                   tmpSeconds = ucast (ucast tmpSeconds + makeTime (sint year) (sint month) (sint day) 0 0 0) :: u32;
                   t = mamaDateTimeImpl_setSeconds (ucast tmpSeconds) t
               in mamaDateTimeImpl_setHasDate t) dateTime"

definition mamaDateTime_setWithPrecisionAndTz ::
  "u64 option \<Rightarrow> u32 \<Rightarrow> u32 \<Rightarrow> u32 \<Rightarrow> u32 \<Rightarrow> u32 \<Rightarrow> u32 \<Rightarrow> u32 \<Rightarrow> u32 \<Rightarrow> u32 option \<Rightarrow> u64 option \<times> mama_status" where
  "mamaDateTime_setWithPrecisionAndTz dateTime year month day hour minute second microsecond precision tz =
    (let (dateTime, status) = mamaDateTime_clear dateTime
     in if status \<noteq> MAMA_STATUS_OK then (dateTime, status)
        else let (dateTime, status) = mamaDateTime_setDate dateTime year month day
             in if status \<noteq> MAMA_STATUS_OK then (dateTime, status)
                else let (dateTime, status) = mamaDateTime_setTimeWithPrecisionAndTz dateTime hour minute second microsecond precision tz
                     in if status \<noteq> MAMA_STATUS_OK then (dateTime, status) else (dateTime, MAMA_STATUS_OK))"

definition mamaDateTime_getStructTmWithTz :: "u64 option \<Rightarrow> u32 option \<Rightarrow> tm option \<times> mama_status" where
  "mamaDateTime_getStructTmWithTz dateTime tz =
    from_dt (\<lambda>t. utcTm (case tz of None \<Rightarrow> mamaDateTimeImpl_getSeconds t | Some offset \<Rightarrow> mamaDateTimeImpl_getSeconds t + offset)) dateTime"

definition mamaDateTime_getStructTm :: "u64 option \<Rightarrow> tm option \<times> mama_status" where
  "mamaDateTime_getStructTm dateTime = mamaDateTime_getStructTmWithTz dateTime None"

definition get_tm :: "(tm \<Rightarrow> int) \<Rightarrow> u64 option \<Rightarrow> u32 option \<times> mama_status" where
  "get_tm field dateTime = (let (stm, status) = mamaDateTime_getStructTm dateTime
     in (case stm of Some stm \<Rightarrow> (Some (word_of_int (field stm)), status) | None \<Rightarrow> (None, status)))"

definition mamaDateTime_getYear :: "u64 option \<Rightarrow> u32 option \<times> mama_status" where
  "mamaDateTime_getYear = get_tm (\<lambda>stm. tm_year stm + 1900)"

definition mamaDateTime_getMonth :: "u64 option \<Rightarrow> u32 option \<times> mama_status" where
  "mamaDateTime_getMonth = get_tm (\<lambda>stm. tm_mon stm + 1)"

definition mamaDateTime_getDay :: "u64 option \<Rightarrow> u32 option \<times> mama_status" where
  "mamaDateTime_getDay = get_tm tm_mday"

definition mamaDateTime_getHour :: "u64 option \<Rightarrow> u32 option \<times> mama_status" where
  "mamaDateTime_getHour = get_tm tm_hour"

definition mamaDateTime_getMinute :: "u64 option \<Rightarrow> u32 option \<times> mama_status" where
  "mamaDateTime_getMinute = get_tm tm_min"

definition mamaDateTime_getSecond :: "u64 option \<Rightarrow> u32 option \<times> mama_status" where
  "mamaDateTime_getSecond = get_tm tm_sec"

definition mamaDateTime_getDayOfWeek :: "u64 option \<Rightarrow> u32 option \<times> mama_status" where
  "mamaDateTime_getDayOfWeek = get_tm tm_wday"

subsection \<open>Counting days\<close>

lemma div_succ:
  fixes k n :: int
  assumes "0 < n"
  shows "(k + 1) div n = k div n + (if n dvd k + 1 then 1 else 0)"
proof (cases "n dvd k + 1")
  case True
  then obtain q where q: "k + 1 = n * q" by blast
  then have "k div n = q - 1" using assms by (intro int_div_pos_eq [of _ _ _ "n - 1"]) (auto simp: algebra_simps)
  with q True assms show ?thesis by simp
next
  case False
  define r where "r = (k + 1) mod n"
  have "r \<noteq> 0" using False by (simp add: r_def dvd_eq_mod_eq_0)
  then have r: "0 < r" "r < n" using pos_mod_sign [OF assms, of "k + 1"] pos_mod_bound [OF assms, of "k + 1"] by (auto simp: r_def)
  have "k = n * ((k + 1) div n) + (r - 1)" unfolding r_def using mult_div_mod_eq [of n "k + 1"] by linarith
  then have "k div n = (k + 1) div n" using r by (intro int_div_pos_eq [of _ _ _ "r - 1"]) auto
  with False show ?thesis by simp
qed

lemma dvd_shift: "n dvd y - n * k \<longleftrightarrow> n dvd (y :: int)"
  using dvd_add_left_iff [of n "n * k" "y - n * k"] by simp

lemma days_before_succ: "days_before (y + 1) = days_before y + int (year_days y)"
proof -
  have a: "(y - 1968) div 4 = (y - 1969) div 4 + (if 4 dvd y then 1 else 0)"
    using div_succ [of 4 "y - 1969"] dvd_shift [of 4 y 492] by simp
  have b: "(y - 1900) div 100 = (y - 1901) div 100 + (if 100 dvd y then 1 else 0)"
    using div_succ [of 100 "y - 1901"] dvd_shift [of 100 y 19] by simp
  have c: "(y - 1600) div 400 = (y - 1601) div 400 + (if 400 dvd y then 1 else 0)"
    using div_succ [of 400 "y - 1601"] dvd_shift [of 400 y 4] by simp
  have d: "100 dvd y \<Longrightarrow> 4 dvd y" "400 dvd y \<Longrightarrow> 100 dvd y"
    using dvd_trans [of 4 100 y] dvd_trans [of 100 400 y] by simp_all
  define q r s where q: "q = (y - 1969) div 4" and r: "r = (y - 1901) div 100" and s: "s = (y - 1601) div 400"
  have "days_before (y + 1) = 365 * (y - 1969) + (y - 1968) div 4 - (y - 1900) div 100 + (y - 1600) div 400"
    by (simp add: days_before_def)
  moreover have "days_before y = 365 * (y - 1970) + q - r + s" by (simp add: days_before_def q r s)
  ultimately show ?thesis
    unfolding a b c year_days_def leap_year_def q [symmetric] r [symmetric] s [symmetric] using d by (cases "4 dvd y"; cases "100 dvd y") auto
qed

lemma days_before_1970 [simp]: "days_before 1970 = 0"
  by (simp add: days_before_def)

lemma gm_year_sound:
  "gm_year y d = (y', d') \<Longrightarrow> y \<le> y' \<and> d' < year_days y' \<and> days_before y' + int d' = days_before y + int d"
proof (induction y d rule: gm_year.induct)
  case (1 y d)
  show ?case
  proof (cases "d < year_days y")
    case True
    with "1.prems" show ?thesis by (simp add: gm_year.simps [of y d])
  next
    case False
    with "1.prems" have "gm_year (y + 1) (d - year_days y) = (y', d')" by (simp add: gm_year.simps [of y d])
    from "1.IH" [OF False this] False show ?thesis by (auto simp: days_before_succ)
  qed
qed

lemma days_before_mono: "y < y' \<Longrightarrow> days_before y + int (year_days y) \<le> days_before y'"
proof (induction "nat (y' - y)" arbitrary: y)
  case 0
  then show ?case by simp
next
  case (Suc n)
  show ?case
  proof (cases "y + 1 = y'")
    case True
    then show ?thesis by (simp add: days_before_succ [symmetric])
  next
    case False
    then have "days_before (y + 1) + int (year_days (y + 1)) \<le> days_before y'" using Suc by auto
    then show ?thesis by (simp add: days_before_succ)
  qed
qed

lemma gm_year_complete:
  assumes "1970 \<le> y" and "d < year_days y"
  shows "gm_year 1970 (nat (days_before y + int d)) = (y, d)"
proof -
  obtain y' d' where g: "gm_year 1970 (nat (days_before y + int d)) = (y', d')" by (cases "gm_year 1970 (nat (days_before y + int d))")
  have "0 \<le> days_before y"
    using days_before_mono [of 1970 y] assms(1) by (cases "y = 1970") auto
  with gm_year_sound [OF g] have s: "1970 \<le> y'" "d' < year_days y'" "days_before y' + int d' = days_before y + int d" by simp_all
  have "y' = y"
    using days_before_mono [of y y'] days_before_mono [of y' y] s(2,3) assms(2) by (cases y y' rule: linorder_cases) auto
  with g s show ?thesis by simp
qed

lemma gm_month_sound:
  "gm_month m d ls = (m', d') \<Longrightarrow> d < sum_list ls \<Longrightarrow>
    \<exists>i. m' = m + i \<and> i < length ls \<and> d' < ls ! i \<and> d = sum_list (take i ls) + d'"
proof (induction m d ls rule: gm_month.induct)
  case (2 m d l ls)
  show ?case
  proof (cases "d < l")
    case True
    with "2.prems" show ?thesis by (intro exI [of _ 0]) auto
  next
    case False
    with "2.prems" have "d - l < sum_list ls" "gm_month (Suc m) (d - l) ls = (m', d')" by auto
    with "2.IH" [OF False] obtain i where "m' = Suc m + i \<and> i < length ls \<and> d' < ls ! i \<and> d - l = sum_list (take i ls) + d'"
      by auto
    with False show ?thesis by (intro exI [of _ "Suc i"]) auto
  qed
qed simp

lemma gm_month_complete:
  "i < length ls \<Longrightarrow> d < ls ! i \<Longrightarrow> gm_month m (sum_list (take i ls) + d) ls = (m + i, d)"
proof (induction ls arbitrary: m i)
  case (Cons l ls)
  then show ?case by (cases i) auto
qed simp

lemma month_lengths_sum: "sum_list (month_lengths y) = year_days y" "length (month_lengths y) = 12"
  by (simp_all add: month_lengths_def year_days_def)

text \<open>Broken-down times of the calendar.\<close>

definition valid_tm :: "tm \<Rightarrow> bool" where
  "valid_tm t \<longleftrightarrow> 70 \<le> tm_year t \<and> 0 \<le> tm_mon t \<and> tm_mon t < 12 \<and> 1 \<le> tm_mday t \<and>
    tm_mday t \<le> int (month_lengths (tm_year t + 1900) ! nat (tm_mon t)) \<and>
    0 \<le> tm_hour t \<and> tm_hour t < 24 \<and> 0 \<le> tm_min t \<and> tm_min t < 60 \<and> 0 \<le> tm_sec t \<and> tm_sec t < 60"

lemma clock_split: "int (r div 3600) * 3600 + int (r div 60 mod 60) * 60 + int (r mod 60) = int r"
proof -
  have "r = 60 * (r div 60) + r mod 60" "r div 60 = 60 * (r div 60 div 60) + r div 60 mod 60" by simp_all
  moreover have "r div 60 div 60 = r div 3600" by (simp add: div_mult2_eq [symmetric])
  ultimately show ?thesis by linarith
qed

lemma clock_fields:
  assumes "int r = h * 3600 + m * 60 + s" "0 \<le> h" "0 \<le> m" "m < 60" "0 \<le> s" "s < 60"
  shows "int (r mod 60) = s \<and> int (r div 60 mod 60) = m \<and> int (r div 3600) = h"
proof -
  have "int r div 60 = h * 60 + m" "int r mod 60 = s"
    using assms by (intro int_div_pos_eq [of _ _ _ s] int_mod_pos_eq [of _ _ "h * 60 + m"]; simp)+
  moreover from this have "int r div 60 mod 60 = m" using assms by simp
  moreover have "int r div 3600 = h" using assms by (intro int_div_pos_eq [of _ _ _ "m * 60 + s"]) auto
  ultimately show ?thesis by (simp add: zmod_int zdiv_int)
qed

lemma gmtime_r_sound: "valid_tm (gmtime_r s) \<and> timegm (gmtime_r s) = int s"
proof -
  obtain y yday where y: "gm_year 1970 (s div 86400) = (y, yday)" by (cases "gm_year 1970 (s div 86400)")
  obtain mon mday where m: "gm_month 0 yday (month_lengths y) = (mon, mday)" by (cases "gm_month 0 yday (month_lengths y)")
  note ys = gm_year_sound [OF y]
  have ms: "mon < 12" "mday < month_lengths y ! mon" "yday = sum_list (take mon (month_lengths y)) + mday"
    using gm_month_sound [OF m] ys by (auto simp: month_lengths_sum)
  define r where "r = s mod 86400"
  have r: "r < 86400" by (simp add: r_def)
  have g: "gmtime_r s = \<lparr>tm_sec = int (r mod 60), tm_min = int (r div 60 mod 60), tm_hour = int (r div 3600), tm_mday = int mday + 1,
      tm_mon = int mon, tm_year = y - 1900, tm_wday = int ((s div 86400 + 4) mod 7)\<rparr>"
    by (simp add: gmtime_r_def y m r_def Let_def)
  have "r div 3600 < 24" using r by (simp add: less_mult_imp_div_less)
  moreover have "r div 60 mod 60 < 60" "r mod 60 < 60" by simp_all
  ultimately have "valid_tm (gmtime_r s)" using ys ms by (simp add: g valid_tm_def)
  moreover have "timegm (gmtime_r s) = (days_before y + int yday) * 86400 + int r"
    using ms clock_split [of r] by (simp add: g timegm_def Let_def)
  moreover have "days_before y + int yday = int (s div 86400)" using ys by simp
  moreover have "int (s div 86400) * 86400 + int r = int s"
    using div_mult_mod_eq [of s 86400] unfolding r_def by (metis of_nat_add of_nat_mult of_nat_numeral)
  ultimately show ?thesis by simp
qed

lemma gmtime_r_complete:
  assumes "valid_tm t"
  shows "0 \<le> timegm t" and "gmtime_r (nat (timegm t)) = t\<lparr>tm_wday := (timegm t div 86400 + 4) mod 7\<rparr>"
proof -
  define y where "y = tm_year t + 1900"
  define mon where "mon = nat (tm_mon t)"
  define mday where "mday = nat (tm_mday t - 1)"
  define r where "r = nat (tm_hour t * 3600 + tm_min t * 60 + tm_sec t)"
  define yday where "yday = sum_list (take mon (month_lengths y)) + mday"
  define days where "days = nat (days_before y + int yday)"
  have y: "1970 \<le> y" and mon: "mon < 12" "tm_mon t = int mon" and mday: "mday < month_lengths y ! mon" "tm_mday t = int mday + 1"
    using assms by (auto simp: valid_tm_def y_def mon_def mday_def)
  have r: "r < 86400" "int r = tm_hour t * 3600 + tm_min t * 60 + tm_sec t" using assms by (auto simp: valid_tm_def r_def)
  have gm: "gm_month 0 yday (month_lengths y) = (mon, mday)"
    unfolding yday_def using mon(1) mday(1) gm_month_complete [of mon "month_lengths y" mday 0] by (simp add: month_lengths_sum)
  have "sum_list (take (Suc mon) (month_lengths y)) \<le> sum_list (month_lengths y)"
    by (metis append_take_drop_id sum_list_append le_add1)
  then have yl: "yday < year_days y"
    using mon(1) mday(1) by (simp add: yday_def month_lengths_sum take_Suc_conv_app_nth)
  have "0 \<le> days_before y" using days_before_mono [of 1970 y] y by (cases "y = 1970") auto
  then have days: "int days = days_before y + int yday" by (simp add: days_def)
  have t: "timegm t = int days * 86400 + int r"
    unfolding days r(2) by (simp add: timegm_def Let_def y_def [symmetric] mon mday yday_def)
  then show "0 \<le> timegm t" by simp
  have n: "nat (timegm t) = days * 86400 + r" unfolding t by (simp add: nat_add_distrib nat_mult_distrib)
  have dm: "(days * 86400 + r) div 86400 = days" "(days * 86400 + r) mod 86400 = r" using r(1) by simp_all
  have "gm_year 1970 days = (y, yday)" unfolding days_def by (rule gm_year_complete [OF y yl])
  then have g: "gmtime_r (nat (timegm t)) = \<lparr>tm_sec = int (r mod 60), tm_min = int (r div 60 mod 60), tm_hour = int (r div 3600), tm_mday = int mday + 1,
      tm_mon = int mon, tm_year = y - 1900, tm_wday = int ((days + 4) mod 7)\<rparr>"
    unfolding n gmtime_r_def dm by (simp add: gm)
  have c: "int (r mod 60) = tm_sec t \<and> int (r div 60 mod 60) = tm_min t \<and> int (r div 3600) = tm_hour t"
    using clock_fields [of r "tm_hour t" "tm_min t" "tm_sec t"] r(2) assms by (simp add: valid_tm_def)
  have w: "int ((days + 4) mod 7) = (timegm t div 86400 + 4) mod 7"
    using r(1) by (simp add: t zmod_int)
  show "gmtime_r (nat (timegm t)) = t\<lparr>tm_wday := (timegm t div 86400 + 4) mod 7\<rparr>"
    unfolding g using c w mon mday y_def by (cases t) simp
qed

subsection \<open>The operations\<close>

lemma makeTime_timegm:
  assumes "valid_tm t"
  shows "makeTime (tm_year t + 1900) (tm_mon t + 1) (tm_mday t) (tm_hour t) (tm_min t) (tm_sec t) = word_of_int (timegm t)"
proof -
  have "timegm (t\<lparr>tm_wday := w\<rparr>) = timegm t" for w by (simp add: timegm_def)
  moreover have "tm_year t + 1900 \<le> 1970 \<Longrightarrow> tm_year t = 70" using assms by (simp add: valid_tm_def)
  ultimately show ?thesis using assms
    by (cases t) (auto simp: makeTime_def valid_tm_def timegm_def Let_def)
qed

text \<open>Dates before 2106 fit the 32 bits of the seconds.\<close>

lemma timegm_bound:
  assumes "valid_tm t" and "tm_year t \<le> 205"
  shows "0 \<le> timegm t" "timegm t < 2 ^ 32"
proof -
  show p: "0 \<le> timegm t" using gmtime_r_complete(1) [OF assms(1)] .
  define s where "s = nat (timegm t)"
  have g: "gmtime_r s = t\<lparr>tm_wday := (timegm t div 86400 + 4) mod 7\<rparr>" unfolding s_def using gmtime_r_complete(2) [OF assms(1)] .
  obtain y yday where y: "gm_year 1970 (s div 86400) = (y, yday)" by (cases "gm_year 1970 (s div 86400)")
  have "tm_year (gmtime_r s) = y - 1900" by (simp add: gmtime_r_def y Let_def split: prod.splits)
  then have "y \<le> 2105" using assms(2) by (simp add: g)
  then have "days_before y + int (year_days y) \<le> days_before 2106"
    by (intro days_before_mono) simp
  moreover have "days_before 2106 = 49673" by (simp add: days_before_def)
  ultimately have "int (s div 86400) < 49673" using gm_year_sound [OF y] by simp
  then have "s div 86400 < 49673" by simp
  then have "s < 49673 * 86400" by (simp add: div_less_iff_less_mult)
  then show "timegm t < 2 ^ 32" unfolding s_def using p by simp
qed

lemma uint_small: "0 \<le> x \<Longrightarrow> x < 2 ^ 32 \<Longrightarrow> uint (word_of_int x :: u32) = x"
  by (simp add: unsigned_of_int take_bit_int_eq_self_iff)

lemma time_of_day:
  fixes D :: int
  assumes "0 \<le> D" "D * 86400 + r < 2 ^ 32" "0 \<le> r" "r < 86400"
  shows "day_of (word_of_int (D * 86400)) + word_of_int r = word_of_int (D * 86400 + r)"
    "uint (word_of_int (D * 86400 + r) :: u32) = D * 86400 + r"
proof -
  show "uint (word_of_int (D * 86400 + r) :: u32) = D * 86400 + r"
    using assms by (intro uint_small) auto
  have u: "uint (word_of_int (D * 86400) :: u32) = D * 86400"
    using assms by (intro uint_small) auto
  have "day_of (word_of_int (D * 86400)) = word_of_int (D * 86400)"
  proof -
    have "uint (word_of_int (D * 86400) div SECONDS_IN_A_DAY :: u32) = D" unfolding uint_div u by (simp add: SECONDS_IN_A_DAY_def)
    then have "(word_of_int (D * 86400) div SECONDS_IN_A_DAY :: u32) = word_of_int D" by (metis word_of_int_uint)
    then show ?thesis by (simp add: day_of_def SECONDS_IN_A_DAY_def)
  qed
  then show "day_of (word_of_int (D * 86400)) + word_of_int r = word_of_int (D * 86400 + r)" by simp
qed

definition tm_of :: "u32 \<Rightarrow> u32 \<Rightarrow> u32 \<Rightarrow> u32 \<Rightarrow> u32 \<Rightarrow> u32 \<Rightarrow> tm" where
  "tm_of year month day hour minute second = \<lparr>tm_sec = uint second, tm_min = uint minute, tm_hour = uint hour, tm_mday = uint day,
     tm_mon = uint month - 1, tm_year = uint year - 1900, tm_wday = 0\<rparr>"

lemma tm_of_fields:
  "tm_sec (tm_of y mo d h mi s) = uint s" "tm_min (tm_of y mo d h mi s) = uint mi" "tm_hour (tm_of y mo d h mi s) = uint h"
  "tm_mday (tm_of y mo d h mi s) = uint d" "tm_mon (tm_of y mo d h mi s) = uint mo - 1" "tm_year (tm_of y mo d h mi s) = uint y - 1900"
  by (simp_all add: tm_of_def)

lemma sint_small: "uint (w :: u32) < 2 ^ 31 \<Longrightarrow> sint w = uint w"
  using signed_take_bit_int_eq_self [of 31 "uint w"] by (simp add: sint_uint order_trans [of _ 0])

lemma valid_mday:
  assumes "valid_tm t"
  shows "tm_mday t \<le> 31"
proof -
  have "month_lengths (tm_year t + 1900) ! nat (tm_mon t) \<in> set (month_lengths (tm_year t + 1900))"
    using assms by (intro nth_mem) (auto simp: valid_tm_def month_lengths_sum)
  moreover have "\<forall>l \<in> set (month_lengths (tm_year t + 1900)). l \<le> 31" by (simp add: month_lengths_def)
  ultimately have "month_lengths (tm_year t + 1900) ! nat (tm_mon t) \<le> 31" by blast
  then show ?thesis using assms by (simp add: valid_tm_def)
qed

lemma timegm_midnight:
  "timegm t = timegm (t\<lparr>tm_hour := 0, tm_min := 0, tm_sec := 0\<rparr>) + (tm_hour t * 3600 + tm_min t * 60 + tm_sec t)"
  "\<exists>D. timegm (t\<lparr>tm_hour := 0, tm_min := 0, tm_sec := 0\<rparr>) = D * 86400"
proof -
  show "timegm t = timegm (t\<lparr>tm_hour := 0, tm_min := 0, tm_sec := 0\<rparr>) + (tm_hour t * 3600 + tm_min t * 60 + tm_sec t)"
    by (simp add: timegm_def Let_def)
  show "\<exists>D. timegm (t\<lparr>tm_hour := 0, tm_min := 0, tm_sec := 0\<rparr>) = D * 86400"
    by (rule exI [of _ "days_before (tm_year t + 1900 + tm_mon t div 12) + int (sum_list (take (nat (tm_mon t mod 12))
          (month_lengths (tm_year t + 1900 + tm_mon t div 12)))) + tm_mday t - 1"]) (simp add: timegm_def Let_def)
qed

lemma down_of_int: "(ucast (word_of_int x :: u64) :: u32) = word_of_int x"
  by (simp add: unsigned_of_int word_of_int_eq_iff)

lemma setWithPrecisionAndTz_seconds:
  fixes year month day hour minute second :: u32
  defines "T \<equiv> tm_of year month day hour minute second"
  assumes "valid_tm T" and "tm_year T \<le> 205" and "us < 1000000" and "p < 16"
  shows "\<exists>t. mamaDateTime_setWithPrecisionAndTz (Some d) year month day hour minute second us p None = (Some t, MAMA_STATUS_OK) \<and>
     mamaDateTimeImpl_getSeconds t = word_of_int (timegm T) \<and> mamaDateTimeImpl_getMicroSeconds t = us \<and>
     mamaDateTimeImpl_getPrecision t = p \<and> hasDate t \<and> hasTime t"
proof -
  let ?M = "T\<lparr>tm_hour := 0, tm_min := 0, tm_sec := 0\<rparr>" and ?r = "tm_hour T * 3600 + tm_min T * 60 + tm_sec T"
  obtain D where D: "timegm ?M = D * 86400" using timegm_midnight(2) by blast
  have M: "valid_tm ?M" "tm_year ?M \<le> 205" using assms(2,3) by (simp_all add: valid_tm_def)
  have b: "0 \<le> D * 86400" "D * 86400 + ?r < 2 ^ 32"
    using timegm_bound(1) [OF M] timegm_bound(2) [OF assms(2,3)] timegm_midnight(1) [of T] D by simp_all
  have r: "0 \<le> ?r" "?r < 86400" using assms(2) by (auto simp: valid_tm_def)
  have "sint year = tm_year T + 1900" "sint month = tm_mon T + 1" "sint day = tm_mday T"
  proof -
    have "tm_mday T \<le> 31" using valid_mday [OF assms(2)] .
    then show "sint year = tm_year T + 1900" "sint month = tm_mon T + 1" "sint day = tm_mday T"
      using assms(2,3) by (auto simp: T_def tm_of_def valid_tm_def intro!: sint_small)
  qed
  moreover define dw where "dw = (word_of_int (D * 86400) :: u64)"
  ultimately have k: "makeTime (sint year) (sint month) (sint day) 0 0 0 = dw"
    using makeTime_timegm [OF M(1)] D by simp
  have u: "ucast dw = (word_of_int (D * 86400) :: u32)"
    unfolding dw_def by (rule down_of_int)
  have s: "second + 60 * (minute + 60 * hour) = word_of_int ?r"
    by (simp add: T_def tm_of_def algebra_simps)
  have w: "word_of_int (timegm T) = day_of (ucast dw) + (second + 60 * (minute + 60 * hour))"
    unfolding u s using time_of_day(1) [of D ?r] b r D timegm_midnight(1) [of T] by simp
  show ?thesis
    using assms(4,5)
    by (simp add: mamaDateTime_setWithPrecisionAndTz_def mamaDateTime_clear_def mamaDateTime_setDate_def mamaDateTime_setTimeWithPrecisionAndTz_def
        on_dt_def Let_def mamaDateTimeImpl_clear_def k w)
qed

lemma utcTm_timegm:
  assumes "valid_tm t" and "tm_year t \<le> 205"
  shows "utcTm (word_of_int (timegm t)) = t\<lparr>tm_wday := (timegm t div 86400 + 4) mod 7\<rparr>"
proof -
  have "uint (word_of_int (timegm t) :: u32) = timegm t" using timegm_bound [OF assms] by (intro uint_small) auto
  then have "unat (word_of_int (timegm t) :: u32) = nat (timegm t)" by (metis nat_uint_eq)
  then show ?thesis using gmtime_r_complete(2) [OF assms(1)] by (simp add: utcTm_def)
qed

lemma makeTime_utcTm:
  "makeTime (tm_year (utcTm s) + 1900) (tm_mon (utcTm s) + 1) (tm_mday (utcTm s)) (tm_hour (utcTm s)) (tm_min (utcTm s)) (tm_sec (utcTm s)) = ucast s"
  using makeTime_timegm [of "utcTm s"] gmtime_r_sound [of "unat s"]
  by (simp add: utcTm_def)

text \<open>The calendar round trip: a date from 1970 to 2105 and a time of day that are set together are read back field by field, with the
  microseconds and the precision that were given, both marked as present, and the day of the week follows from the days since the epoch.
  Conversely, breaking any number of seconds down and composing the fields again gives the same number.\<close>

lemma cal_roundtrip:
  fixes year month day hour minute second :: u32
  assumes "1970 \<le> year" "year \<le> 2105" and "1 \<le> month" "month \<le> 12" and "1 \<le> day" "unat day \<le> month_lengths (uint year) ! (unat month - 1)"
    and "hour < 24" and "minute < 60" and "second < 60" and "us < 1000000" and "p < 16"
  shows "(\<exists>t. mamaDateTime_setWithPrecisionAndTz (Some d) year month day hour minute second us p None = (Some t, MAMA_STATUS_OK) \<and>
       mamaDateTime_getYear (Some t) = (Some year, MAMA_STATUS_OK) \<and> mamaDateTime_getMonth (Some t) = (Some month, MAMA_STATUS_OK) \<and>
       mamaDateTime_getDay (Some t) = (Some day, MAMA_STATUS_OK) \<and> mamaDateTime_getHour (Some t) = (Some hour, MAMA_STATUS_OK) \<and>
       mamaDateTime_getMinute (Some t) = (Some minute, MAMA_STATUS_OK) \<and> mamaDateTime_getSecond (Some t) = (Some second, MAMA_STATUS_OK) \<and>
       mamaDateTime_getMicrosecond (Some t) = (Some us, MAMA_STATUS_OK) \<and> mamaDateTimeImpl_getPrecision t = p \<and> hasDate t \<and> hasTime t) \<and>
    makeTime (tm_year (utcTm s) + 1900) (tm_mon (utcTm s) + 1) (tm_mday (utcTm s)) (tm_hour (utcTm s)) (tm_min (utcTm s)) (tm_sec (utcTm s)) = ucast s"
proof -
  let ?T = "tm_of year month day hour minute second"
  have "nat (uint month - 1) = unat month - 1" by (simp add: nat_diff_distrib' nat_uint_eq)
  moreover have "uint day \<le> int (month_lengths (uint year) ! (unat month - 1))" using assms(6) by (metis int_nat_eq nat_uint_eq of_nat_le_iff uint_nat)
  ultimately have T: "valid_tm ?T" "tm_year ?T \<le> 205"
    using assms by (simp_all add: valid_tm_def tm_of_def word_le_def word_less_def)
  from setWithPrecisionAndTz_seconds [OF this assms(10,11), of d] obtain t where
    t: "mamaDateTime_setWithPrecisionAndTz (Some d) year month day hour minute second us p None = (Some t, MAMA_STATUS_OK)"
    "mamaDateTimeImpl_getSeconds t = word_of_int (timegm ?T)" "mamaDateTimeImpl_getMicroSeconds t = us"
    "mamaDateTimeImpl_getPrecision t = p" "hasDate t" "hasTime t" by blast
  note get = get_tm_def mamaDateTime_getStructTm_def mamaDateTime_getStructTmWithTz_def from_dt_def t utcTm_timegm [OF T]
  show ?thesis
    by (intro conjI exI [of _ t] t makeTime_utcTm)
      (simp_all add: mamaDateTime_getYear_def mamaDateTime_getMonth_def mamaDateTime_getDay_def mamaDateTime_getHour_def
        mamaDateTime_getMinute_def mamaDateTime_getSecond_def mamaDateTime_getMicrosecond_def get tm_of_fields)
qed

end
