(* ===== verification/DateTimeText.thy ===== *)
theory DateTimeText
  imports Calendar CString
begin

text \<open>
  Texts of date-times (\<open>mama/c_cpp/src/c/datetime.c\<close> and \<open>mamaStrUtils.c\<close>): \<open>setFromString\<close>, \<open>getAsString\<close> and its
  variants, and formatting with a format string. The functions of the C library that the code calls (\<open>strftime\<close>,
  \<open>snprintf\<close>, \<open>strchr\<close>, \<open>strtoul\<close>) are modelled for the formats that it uses.
\<close>

subsection \<open>Reading a text\<close>

fun subseconds :: "u64 \<Rightarrow> nat \<Rightarrow> string \<Rightarrow> u64 \<times> nat" where
  "subseconds microsecs i [] = (microsecs, i)"
| "subseconds microsecs i (ch # s) =
    (case digit_val 10 ch of
       None \<Rightarrow> (microsecs, i)
     | Some d \<Rightarrow> subseconds (10 * microsecs + of_nat d) (Suc i) s)"

fun scale :: "u64 \<Rightarrow> nat \<Rightarrow> u64" where
  "scale microsecs 0 = microsecs"
| "scale microsecs (Suc n) = scale (microsecs * 10) n"

text \<open>Year, month and day, and whether a date is there.\<close>

definition parse_date :: "string \<Rightarrow> u64 \<times> u64 \<times> u64 \<times> bool" where
  "parse_date str =
    (let slash = strchr str (CHR ''/'');
         slash1 = (case slash of Some s \<Rightarrow> Some s | None \<Rightarrow> strchr str (CHR ''-''));
         slash2 = (case slash of Some s \<Rightarrow> strchr (tl s) (CHR ''/'')
                   | None \<Rightarrow> (case slash1 of Some s \<Rightarrow> strchr (tl s) (CHR ''-'') | None \<Rightarrow> None))
     in (case (slash1, slash2) of
           (Some s1, Some s2) \<Rightarrow> (strtoul str, strtoul (tl s1), strtoul (tl s2), True)
         | (Some s1, None) \<Rightarrow> (0, strtoul str, strtoul (tl s1), True)
         | (None, _) \<Rightarrow> (0, 0, 0, False)))"

text \<open>Hour, minute, second, microseconds and precision, and whether a time is there.\<close>

definition parse_time :: "string \<Rightarrow> u64 \<times> u64 \<times> u64 \<times> u64 \<times> nat \<times> bool" where
  "parse_time str =
    (let strtime = (case strchr str (CHR '' '') of Some s \<Rightarrow> tl s | None \<Rightarrow> str)
     in (case strchr strtime (CHR '':'') of
           None \<Rightarrow> (0, 0, 0, 0, 0, False)
         | Some colon1 \<Rightarrow>
             (case strchr (tl colon1) (CHR '':'') of
                None \<Rightarrow> (strtoul strtime, strtoul (tl colon1), 0, 0, 0, True)
              | Some colon2 \<Rightarrow>
                  (case strchr (tl colon2) (CHR ''.'') of
                     None \<Rightarrow> (strtoul strtime, strtoul (tl colon1), strtoul (tl colon2), 0, 0, True)
                   | Some dot \<Rightarrow>
                       let (microsecs, i) = subseconds 0 0 (tl dot)
                       in (strtoul strtime, strtoul (tl colon1), strtoul (tl colon2), scale microsecs (6 - i), i, True)))))"

text \<open>An \<open>unsigned long\<close> that is passed as an \<open>int\<close>.\<close>

definition as_int :: "u64 \<Rightarrow> int" where
  "as_int w = sint (ucast w :: u32)"

definition mamaDateTime_setFromStringWithTz :: "u64 option \<Rightarrow> string option \<Rightarrow> u32 option \<Rightarrow> u64 option \<times> mama_status" where
  "mamaDateTime_setFromStringWithTz dateTime str tz =
    (case dateTime of
       None \<Rightarrow> (None, MAMA_STATUS_INVALID_ARG)
     | Some _ \<Rightarrow>
         (case str of
            None \<Rightarrow> mamaDateTime_clear dateTime
          | Some str \<Rightarrow>
              let (year, month, day, date) = parse_date str;
                  (hour, minute, second, microsecs, precision, time) = parse_time str;
                  t = mamaDateTimeImpl_clear;
                  t = (if date then mamaDateTimeImpl_setHasDate t else t);
                  t = (if time then mamaDateTimeImpl_setHasTime t else t);
                  epochSeconds = makeTime (as_int year) (as_int month) (as_int day) (as_int hour) (as_int minute) (as_int second);
                  epochSeconds = (case tz of None \<Rightarrow> epochSeconds | Some offset \<Rightarrow> epochSeconds - scast offset);
                  t = mamaDateTimeImpl_setPrecision (of_nat precision) t;
                  t = mamaDateTimeImpl_setSeconds epochSeconds t
              in (Some (mamaDateTimeImpl_setMicroSeconds microsecs t), MAMA_STATUS_OK)))"

definition mamaDateTime_setFromString :: "u64 option \<Rightarrow> string option \<Rightarrow> u64 option \<times> mama_status" where
  "mamaDateTime_setFromString dateTime str = mamaDateTime_setFromStringWithTz dateTime str None"

subsection \<open>Printing a text\<close>

text \<open>What \<open>strftime\<close> prints for the three formats.\<close>

definition date_text :: "tm \<Rightarrow> string" where
  "date_text t = print_nat 10 (nat (tm_year t + 1900)) @ ''-'' @ print_padded 2 (nat (tm_mon t + 1)) @ ''-'' @ print_padded 2 (nat (tm_mday t))"

definition time_text :: "tm \<Rightarrow> string" where
  "time_text t = print_padded 2 (nat (tm_hour t)) @ '':'' @ print_padded 2 (nat (tm_min t)) @ '':'' @ print_padded 2 (nat (tm_sec t))"

text \<open>
  The buffer while it is filled: the characters before the pointer, those from the pointer on (\<open>None\<close> when
  \<open>strftime\<close> did not have the space and has left them unspecified), and the bytes left.
\<close>

type_synonym filling = "string \<times> string option \<times> nat"

definition strftime :: "string \<Rightarrow> filling \<Rightarrow> filling" where
  "strftime text = (\<lambda>(front, cur, left). if length text < left then (front @ text, Some [], left - length text) else (front, None, left))"

definition snprintf :: "string \<Rightarrow> filling \<Rightarrow> filling" where
  "snprintf text = (\<lambda>(front, cur, left). (front, if left = 0 then cur else Some (take (left - 1) text), left))"

definition contents :: "filling \<Rightarrow> string option" where
  "contents = (\<lambda>(front, cur, left). case cur of None \<Rightarrow> None | Some s \<Rightarrow> Some (front @ s))"

text \<open>The digits after the dot.\<close>

fun drop_digits :: "u32 \<Rightarrow> nat \<Rightarrow> u32" where
  "drop_digits n 0 = n"
| "drop_digits n (Suc i) = drop_digits (n div 10) i"

definition used_precision :: "u64 \<Rightarrow> nat" where
  "used_precision t =
    (let precision = mamaDateTimeImpl_getPrecision t in if precision = MAMA_DATE_TIME_PREC_UNKNOWN then 3 else unat precision)"

definition subsecond_text :: "nat \<Rightarrow> nat \<Rightarrow> u64 \<Rightarrow> string" where
  "subsecond_text precision width t =
    CHR ''.'' # print_padded width (unat (drop_digits (mamaDateTimeImpl_getMicroSeconds t) (6 - precision)))"

text \<open>A buffer of no bytes is written to all the same, which is a memory error (\<open>None\<close>); otherwise the inner \<open>None\<close> is a
  buffer whose contents are not specified.\<close>

definition mamaDateTime_getAsString :: "u64 option \<Rightarrow> nat \<Rightarrow> (string option \<times> mama_status) option" where
  "mamaDateTime_getAsString dateTime bufMaxLen =
    (case dateTime of
       None \<Rightarrow> Some (None, MAMA_STATUS_INVALID_ARG)
     | Some t \<Rightarrow>
         if bufMaxLen = 0 then None
         else
           let tmValue = utcTm (mamaDateTimeImpl_getSeconds t);
               buf = ([], Some [], bufMaxLen);
               hasTime = (mamaDateTimeImpl_getHasTime t \<noteq> 0);
               buf = (if mamaDateTimeImpl_getHasDate t \<noteq> 0
                      then strftime (if hasTime then date_text tmValue @ '' '' else date_text tmValue) buf else buf);
               buf = (if hasTime
                      then let (front, cur, left) = strftime (time_text tmValue) buf;
                               precision = used_precision t
                           in if precision > 0
                              then snprintf (subsecond_text precision (if precision \<ge> left then left - 1 else precision) t) (front, cur, left)
                              else (front, cur, left)
                      else buf)
           in Some (contents buf, MAMA_STATUS_OK))"

definition mamaDateTime_getTimeAsString :: "u64 option \<Rightarrow> nat \<Rightarrow> (string option \<times> mama_status) option" where
  "mamaDateTime_getTimeAsString dateTime bufMaxLen =
    (case dateTime of
       None \<Rightarrow> Some (None, MAMA_STATUS_INVALID_ARG)
     | Some t \<Rightarrow>
         if bufMaxLen = 0 then None
         else
           let tmValue = utcTm (mamaDateTimeImpl_getSeconds t);
               buf = ([], Some [], bufMaxLen);
               buf = (if mamaDateTimeImpl_getHasTime t \<noteq> 0
                      then let buf = strftime (time_text tmValue) buf;
                               precision = used_precision t
                           in if precision > 0 then snprintf (subsecond_text precision precision t) buf else buf
                      else buf)
           in Some (contents buf, MAMA_STATUS_OK))"

definition mamaDateTime_getDateAsString :: "u64 option \<Rightarrow> nat \<Rightarrow> (string option \<times> mama_status) option" where
  "mamaDateTime_getDateAsString dateTime bufMaxLen =
    (case dateTime of
       None \<Rightarrow> Some (None, MAMA_STATUS_INVALID_ARG)
     | Some t \<Rightarrow>
         if bufMaxLen = 0 then None
         else
           let tmValue = utcTm (mamaDateTimeImpl_getSeconds t);
               buf = ([], Some [], bufMaxLen);
               buf = (if mamaDateTimeImpl_getHasDate t \<noteq> 0 then strftime (date_text tmValue) buf else buf)
           in Some (contents buf, MAMA_STATUS_OK))"

subsection \<open>Reading what was printed\<close>

lemma digit_sep: "\<forall>c \<in> set s. isdigit c \<Longrightarrow> d \<in> {CHR '' '', CHR ''/'', CHR ''-'', CHR '':'', CHR ''.''} \<Longrightarrow> d \<notin> set s"
  using isdigit_chars by blast

lemma sep_not_digit: "d \<in> {CHR '' '', CHR ''/'', CHR ''-'', CHR '':'', CHR ''.''} \<Longrightarrow> \<not> isdigit d"
  using isdigit_chars by blast

lemma print_nat_padded: "print_nat 10 n = print_padded 0 n"
  by (simp add: print_padded_def)

lemmas padded_sep = digit_sep [OF print_padded_digits(1)]

lemma parse_date_text:
  assumes "CHR ''/'' \<notin> set rest" "\<not> (rest \<noteq> [] \<and> isdigit (hd rest))" "y < 2 ^ 64" "m < 2 ^ 64" "d < 2 ^ 64"
  shows "parse_date (print_nat 10 y @ CHR ''-'' # print_padded 2 m @ CHR ''-'' # print_padded 2 d @ rest) = (of_nat y, of_nat m, of_nat d, True)"
proof -
  let ?s = "print_nat 10 y @ CHR ''-'' # print_padded 2 m @ CHR ''-'' # print_padded 2 d @ rest"
  have "strchr ?s (CHR ''/'') = None"
    using assms(1) padded_sep [of "CHR ''/''"] by (intro strchr_none) (simp add: print_nat_padded)
  moreover have "strchr ?s (CHR ''-'') = Some (CHR ''-'' # print_padded 2 m @ CHR ''-'' # print_padded 2 d @ rest)"
    unfolding print_nat_padded using padded_sep by (intro strchr_first) simp
  moreover have "strchr (print_padded 2 m @ CHR ''-'' # print_padded 2 d @ rest) (CHR ''-'') = Some (CHR ''-'' # print_padded 2 d @ rest)"
    using padded_sep by (intro strchr_first) simp
  moreover have "strtoul ?s = of_nat y" unfolding print_nat_padded using assms(3) sep_not_digit by (intro strtoul_padded) simp_all
  moreover have "strtoul (print_padded 2 m @ CHR ''-'' # print_padded 2 d @ rest) = of_nat m"
    using assms(4) sep_not_digit by (intro strtoul_padded) simp_all
  moreover have "strtoul (print_padded 2 d @ rest) = of_nat d"
    using assms(2,5) by (intro strtoul_padded) auto
  ultimately show ?thesis by (simp add: parse_date_def)
qed

lemma parse_no_date: "CHR ''/'' \<notin> set s \<Longrightarrow> CHR ''-'' \<notin> set s \<Longrightarrow> parse_date s = (0, 0, 0, False)"
  by (simp add: parse_date_def strchr_none)

lemma subseconds_scan:
  assumes "\<forall>c \<in> set f. isdigit c"
  shows "subseconds (of_nat a) i f = (of_nat (fst (scan_digits 10 a f)), i + length f)"
  using assms
proof (induction f arbitrary: a i)
  case (Cons c f)
  then obtain d where d: "digit_val 10 c = Some d" by (auto simp: isdigit_def)
  have "10 * of_nat a + of_nat d = (of_nat (a * 10 + d) :: u64)" by simp
  with d Cons show ?case by (simp del: of_nat_add of_nat_mult)
qed simp

lemma subseconds_padded: "subseconds 0 0 (print_padded w n) = (of_nat n, length (print_padded w n))"
  using subseconds_scan [OF print_padded_digits(1), of 0 0 w n] scan_padded [of "[]" w n] by simp

lemma parse_time_text:
  assumes "strchr str (CHR '' '') = Some (CHR '' '' # s) \<or> strchr str (CHR '' '') = None \<and> str = s"
    and s: "s = print_padded 2 h @ CHR '':'' # print_padded 2 m @ CHR '':'' # print_padded 2 sec @ rest"
    and "h < 2 ^ 64" "m < 2 ^ 64" "sec < 2 ^ 64"
  shows "rest = [] \<Longrightarrow> parse_time str = (of_nat h, of_nat m, of_nat sec, 0, 0, True)"
    and "rest = CHR ''.'' # f \<Longrightarrow> parse_time str = (of_nat h, of_nat m, of_nat sec,
      scale (fst (subseconds 0 0 f)) (6 - snd (subseconds 0 0 f)), snd (subseconds 0 0 f), True)"
proof -
  have t: "(case strchr str (CHR '' '') of Some s \<Rightarrow> tl s | None \<Rightarrow> str) = s" using assms(1) by auto
  have c1: "strchr s (CHR '':'') = Some (CHR '':'' # print_padded 2 m @ CHR '':'' # print_padded 2 sec @ rest)"
    unfolding s using padded_sep by (intro strchr_first) simp
  have c2: "strchr (print_padded 2 m @ CHR '':'' # print_padded 2 sec @ rest) (CHR '':'') = Some (CHR '':'' # print_padded 2 sec @ rest)"
    using padded_sep by (intro strchr_first) simp
  have n: "strtoul s = of_nat h" "strtoul (print_padded 2 m @ CHR '':'' # print_padded 2 sec @ rest) = of_nat m"
    unfolding s using assms(3,4) sep_not_digit by (intro strtoul_padded; simp)+
  show "parse_time str = (of_nat h, of_nat m, of_nat sec, 0, 0, True)" if "rest = []"
  proof -
    have "strchr (print_padded 2 sec @ rest) (CHR ''.'') = None" using that padded_sep by (intro strchr_none) simp
    moreover have "strtoul (print_padded 2 sec @ rest) = of_nat sec" using that assms(5) by (intro strtoul_padded) simp_all
    ultimately show ?thesis by (simp add: parse_time_def t c1 c2 n)
  qed
  show "parse_time str = (of_nat h, of_nat m, of_nat sec, scale (fst (subseconds 0 0 f)) (6 - snd (subseconds 0 0 f)), snd (subseconds 0 0 f), True)"
    if "rest = CHR ''.'' # f"
  proof -
    have "strchr (print_padded 2 sec @ rest) (CHR ''.'') = Some rest"
      unfolding that using padded_sep by (intro strchr_first) simp
    moreover have "strtoul (print_padded 2 sec @ rest) = of_nat sec"
      unfolding that using assms(5) sep_not_digit by (intro strtoul_padded) simp_all
    moreover have "tl rest = f" using that by simp
    ultimately show ?thesis by (simp add: parse_time_def t c1 c2 n split: prod.splits)
  qed
qed

lemma unat_drop_digits: "unat (drop_digits n i) = unat n div 10 ^ i"
  by (induction n i rule: drop_digits.induct) (simp_all add: unat_div div_mult2_eq)

lemma scale_power: "scale (of_nat x) k = of_nat (x * 10 ^ k)"
proof (induction k arbitrary: x)
  case (Suc k)
  have "of_nat x * 10 = (of_nat (x * 10) :: u64)" by simp
  with Suc [of "x * 10"] show ?case by (simp del: of_nat_mult add: ac_simps)
qed simp

text \<open>Values whose text determines them: the parts that are not marked as present have their least values, and no digit is
  lost by the precision.\<close>

definition printable :: "u64 \<Rightarrow> bool" where
  "printable t \<longleftrightarrow> dt_ok t \<and> mamaDateTimeImpl_getPrecision t \<le> 6 \<and> mamaDateTimeImpl_getHint t = of_bool (hasDate t) + 2 * of_bool (hasTime t) \<and>
    10 ^ (6 - unat (mamaDateTimeImpl_getPrecision t)) dvd unat (mamaDateTimeImpl_getMicroSeconds t) \<and>
    (hasDate t \<or> unat (mamaDateTimeImpl_getSeconds t) < 86400) \<and>
    (hasTime t \<or> 86400 dvd unat (mamaDateTimeImpl_getSeconds t) \<and> mamaDateTimeImpl_getMicroSeconds t = 0 \<and> mamaDateTimeImpl_getPrecision t = 0)"

definition fraction_text :: "u64 \<Rightarrow> string" where
  "fraction_text t =
    (let p = unat (mamaDateTimeImpl_getPrecision t)
     in if p > 0 then CHR ''.'' # print_padded p (unat (mamaDateTimeImpl_getMicroSeconds t) div 10 ^ (6 - p)) else [])"

definition full_text :: "u64 \<Rightarrow> string" where
  "full_text t =
    (let u = utcTm (mamaDateTimeImpl_getSeconds t)
     in (if hasDate t then date_text u else []) @ (if hasDate t \<and> hasTime t then '' '' else []) @
        (if hasTime t then time_text u @ fraction_text t else []))"

lemma utcTm_valid: "valid_tm (utcTm s)" "tm_year (utcTm s) \<le> 206"
proof -
  show "valid_tm (utcTm s)" using gmtime_r_sound by (simp add: utcTm_def)
  obtain y yday where y: "gm_year 1970 (unat s div 86400) = (y, yday)" by (cases "gm_year 1970 (unat s div 86400)")
  have "tm_year (utcTm s) = y - 1900" by (simp add: utcTm_def gmtime_r_def y Let_def split: prod.splits)
  moreover have "\<not> 2106 < y"
  proof
    assume "2106 < y"
    then have "days_before 2106 + int (year_days 2106) \<le> days_before y" by (rule days_before_mono)
    moreover have "days_before 2106 = 49673" "year_days 2106 = 365" by (simp_all add: days_before_def year_days_def leap_year_def)
    moreover have "unat s div 86400 \<le> 49710" 
    proof -
      have "unat s < 2 ^ 32" by (rule order.strict_trans2 [OF unsigned_less]) simp
      then have "unat s \<le> 4294967295" by simp
      from div_le_mono [OF this, of 86400] show ?thesis by simp
    qed
    ultimately show False using gm_year_sound [OF y] by simp
  qed
  ultimately show "tm_year (utcTm s) \<le> 206" by simp
qed

lemma text_lengths:
  "length (date_text (utcTm s)) = 10" "length (time_text (utcTm s)) = 8"
proof -
  let ?u = "utcTm s"
  have "nat (tm_year ?u + 1900) < 10 ^ 4" "nat (tm_mon ?u + 1) < 10 ^ 2" "nat (tm_hour ?u) < 10 ^ 2" "nat (tm_min ?u) < 10 ^ 2" "nat (tm_sec ?u) < 10 ^ 2"
    using utcTm_valid [of s] by (auto simp: valid_tm_def)
  moreover have "nat (tm_mday ?u) < 10 ^ 2"
    using utcTm_valid [of s] valid_mday [of ?u] by simp
  moreover have "length (print_nat 10 n) = 4" if "n < 10 ^ 4" "1000 \<le> n" for n
    using that by (simp add: print_nat.simps [of 10 n] print_nat.simps [of 10 "n div 10"] print_nat.simps [of 10 "n div 10 div 10"]
        print_nat.simps [of 10 "n div 10 div 10 div 10"]) linarith
  moreover have "1000 \<le> nat (tm_year ?u + 1900)" using utcTm_valid [of s] by (simp add: valid_tm_def le_nat_iff)
  ultimately show "length (date_text (utcTm s)) = 10" "length (time_text (utcTm s)) = 8"
    by (simp_all add: date_text_def time_text_def print_padded_length)
qed

lemma used_precision_small: "mamaDateTimeImpl_getPrecision t \<le> 6 \<Longrightarrow> used_precision t = unat (mamaDateTimeImpl_getPrecision t)"
  by (auto simp: used_precision_def MAMA_DATE_TIME_PREC_UNKNOWN_def Let_def)

lemma fraction_padded:
  fixes t defines "p \<equiv> unat (mamaDateTimeImpl_getPrecision t)"
  assumes "printable t" and "0 < p"
  shows "length (print_padded p (unat (mamaDateTimeImpl_getMicroSeconds t) div 10 ^ (6 - p))) = p"
proof (rule print_padded_length)
  have "unat (mamaDateTimeImpl_getMicroSeconds t) < 1000000" "p \<le> 6"
    using assms(2) by (simp_all add: printable_def dt_ok_def word_less_nat_alt word_le_nat_alt p_def)
  then have "unat (mamaDateTimeImpl_getMicroSeconds t) < 10 ^ p * 10 ^ (6 - p)" by (simp add: power_add [symmetric])
  then show "unat (mamaDateTimeImpl_getMicroSeconds t) div 10 ^ (6 - p) < 10 ^ p" by (simp add: less_mult_imp_div_less)
qed (rule assms(3))

lemma fraction_length: "unat (mamaDateTimeImpl_getPrecision t) \<le> 6 \<Longrightarrow> printable t \<Longrightarrow> length (fraction_text t) \<le> 7"
  using fraction_padded [of t] by (simp add: fraction_text_def Let_def)

lemma getAsString_text:
  assumes "printable t" and "27 \<le> n"
  shows "mamaDateTime_getAsString (Some t) n = Some (Some (full_text t), MAMA_STATUS_OK)"
proof -
  let ?p = "unat (mamaDateTimeImpl_getPrecision t)" and ?u = "utcTm (mamaDateTimeImpl_getSeconds t)"
  have p: "used_precision t = ?p" "?p \<le> 6" using assms(1) by (simp_all add: printable_def used_precision_small word_le_nat_alt)
  have f: "subsecond_text ?p ?p t = fraction_text t" "length (fraction_text t) = Suc ?p" if "0 < ?p"
    using that fraction_padded [OF assms(1)] by (simp_all add: subsecond_text_def fraction_text_def unat_drop_digits Let_def)
  have e: "fraction_text t = []" if "?p = 0" using that by (simp add: fraction_text_def Let_def)
  have b: "(mamaDateTimeImpl_getHasTime t \<noteq> 0) = hasTime t" "(mamaDateTimeImpl_getHasDate t \<noteq> 0) = hasDate t" by (simp_all add: has_bits)
  note l = text_lengths [of "mamaDateTimeImpl_getSeconds t"]
  have "\<not> n - 19 \<le> ?p" "8 < n - 11" "\<not> n - 8 \<le> ?p" using assms(2) p(2) by linarith+
  then show ?thesis
    using assms(2) p f e l
    by (cases "hasTime t"; cases "hasDate t"; cases "?p = 0")
      (simp_all add: mamaDateTime_getAsString_def b full_text_def strftime_def snprintf_def contents_def Let_def)
qed

lemma full_text_no_slash: "CHR ''/'' \<notin> set (full_text t)"
  using padded_sep [of "CHR ''/''"]
  by (auto simp: full_text_def date_text_def time_text_def fraction_text_def Let_def print_nat_padded)

lemma parse_full_date:
  fixes t defines "u \<equiv> utcTm (mamaDateTimeImpl_getSeconds t)"
  shows "parse_date (full_text t) = (if hasDate t then (of_nat (nat (tm_year u + 1900)), of_nat (nat (tm_mon u + 1)), of_nat (nat (tm_mday u)), True)
    else (0, 0, 0, False))"
proof (cases "hasDate t")
  case True
  define rest where "rest = (if hasTime t then CHR '' '' # time_text u @ fraction_text t else [])"
  have f: "full_text t = print_nat 10 (nat (tm_year u + 1900)) @ CHR ''-'' # print_padded 2 (nat (tm_mon u + 1)) @ CHR ''-'' #
      print_padded 2 (nat (tm_mday u)) @ rest"
    using True by (simp add: full_text_def Let_def u_def [symmetric] date_text_def rest_def)
  have "CHR ''/'' \<notin> set rest" using full_text_no_slash [of t] unfolding f by simp
  moreover have "\<not> (rest \<noteq> [] \<and> isdigit (hd rest))" using sep_not_digit by (simp add: rest_def)
  moreover have "nat (tm_year u + 1900) < 2 ^ 64" "nat (tm_mon u + 1) < 2 ^ 64" "nat (tm_mday u) < 2 ^ 64"
    using utcTm_valid [of "mamaDateTimeImpl_getSeconds t"] valid_mday [OF utcTm_valid(1), of "mamaDateTimeImpl_getSeconds t"]
    by (auto simp: valid_tm_def u_def)
  ultimately show ?thesis unfolding f using parse_date_text True by simp
next
  case False
  then have "CHR ''-'' \<notin> set (full_text t)"
    using padded_sep [of "CHR ''-''"] by (auto simp: full_text_def time_text_def fraction_text_def Let_def)
  with False full_text_no_slash [of t] show ?thesis by (simp add: parse_no_date)
qed

lemma parse_full_time:
  fixes t defines "u \<equiv> utcTm (mamaDateTimeImpl_getSeconds t)"
  assumes "printable t"
  shows "parse_time (full_text t) = (if hasTime t then (of_nat (nat (tm_hour u)), of_nat (nat (tm_min u)), of_nat (nat (tm_sec u)),
      ucast (mamaDateTimeImpl_getMicroSeconds t), unat (mamaDateTimeImpl_getPrecision t), True) else (0, 0, 0, 0, 0, False))"
proof (cases "hasTime t")
  case True
  let ?p = "unat (mamaDateTimeImpl_getPrecision t)" and ?us = "unat (mamaDateTimeImpl_getMicroSeconds t)"
  define s where "s = time_text u @ fraction_text t"
  define front where "front = (if hasDate t then date_text u else [])"
  have f: "full_text t = front @ (if hasDate t then '' '' else []) @ s"
    using True by (simp add: full_text_def Let_def u_def [symmetric] s_def front_def)
  have no: "CHR '' '' \<notin> set front" "CHR '' '' \<notin> set s"
    using padded_sep [of "CHR '' ''"] by (auto simp: front_def s_def date_text_def time_text_def fraction_text_def Let_def print_nat_padded)
  have sp: "strchr (full_text t) (CHR '' '') = Some (CHR '' '' # s) \<or> strchr (full_text t) (CHR '' '') = None \<and> full_text t = s"
    unfolding f using no strchr_first [of "CHR '' ''" front s] strchr_none [of "CHR '' ''" s] by (cases "hasDate t") (simp_all add: front_def)
  have st: "s = print_padded 2 (nat (tm_hour u)) @ CHR '':'' # print_padded 2 (nat (tm_min u)) @ CHR '':'' # print_padded 2 (nat (tm_sec u)) @ fraction_text t"
    by (simp add: s_def time_text_def)
  have b: "nat (tm_hour u) < 2 ^ 64" "nat (tm_min u) < 2 ^ 64" "nat (tm_sec u) < 2 ^ 64"
    using utcTm_valid [of "mamaDateTimeImpl_getSeconds t"] by (auto simp: valid_tm_def u_def)
  have dv: "10 ^ (6 - ?p) dvd ?us" using assms(2) by (simp add: printable_def)
  have lt: "?us < 1000000" using assms(2) by (simp add: printable_def dt_ok_def word_less_nat_alt)
  have us: "of_nat ?us = (ucast (mamaDateTimeImpl_getMicroSeconds t) :: u64)" by simp
  show ?thesis
  proof (cases "?p = 0")
    case p0: True
    then have "1000000 dvd ?us" using dv by simp
    then have "?us = 0" using lt by (metis dvd_imp_le gr0I not_le)
    moreover have "fraction_text t = []" using p0 by (simp add: fraction_text_def Let_def)
    ultimately show ?thesis using parse_time_text(1) [OF sp st b] True p0 us by simp
  next
    case False
    let ?f = "print_padded ?p (?us div 10 ^ (6 - ?p))"
    have fr: "fraction_text t = CHR ''.'' # ?f" using False by (simp add: fraction_text_def Let_def)
    have l: "length ?f = ?p" using False fraction_padded [OF assms(2)] by simp
    have ss: "subseconds 0 0 ?f = (of_nat (?us div 10 ^ (6 - ?p)), ?p)" using subseconds_padded [of ?p "?us div 10 ^ (6 - ?p)"] l by simp
    have sc: "scale (of_nat (?us div 10 ^ (6 - ?p))) (6 - ?p) = ucast (mamaDateTimeImpl_getMicroSeconds t)"
      unfolding scale_power dvd_div_mult_self [OF dv] us ..
    show ?thesis using parse_time_text(2) [OF sp st b fr] True by (simp add: ss sc del: of_nat_div)
  qed
next
  case False
  have "CHR '' '' \<notin> set (full_text t)" "CHR '':'' \<notin> set (full_text t)"
    using False padded_sep by (auto simp: full_text_def date_text_def Let_def print_nat_padded)
  with False show ?thesis by (simp add: parse_time_def strchr_none)
qed

lemma as_int_of_nat: "n < 2 ^ 31 \<Longrightarrow> as_int (of_nat n) = int n"
proof -
  assume n: "n < 2 ^ 31"
  have "(ucast (of_nat n :: u64) :: u32) = of_nat n" using down_of_int [of "int n"] by simp
  moreover have "uint (of_nat n :: u32) = int n" using uint_small [of "int n"] n by simp
  ultimately show ?thesis using n sint_small [of "of_nat n"] by (simp add: as_int_def)
qed

lemma as_int_nat: "0 \<le> x \<Longrightarrow> x < 2 ^ 31 \<Longrightarrow> as_int (of_nat (nat x)) = x"
  using as_int_of_nat [of "nat x"] by simp

lemma as_int_0 [simp]: "as_int 0 = 0"
  by (simp add: as_int_def)

lemma utcTm_first_day: "unat s < 86400 \<Longrightarrow> tm_year (utcTm s) = 70 \<and> tm_mon (utcTm s) = 0 \<and> tm_mday (utcTm s) = 1"
  by (simp add: utcTm_def gmtime_r_def gm_year.simps year_days_def month_lengths_def Let_def)

lemma utcTm_midnight: "86400 dvd unat s \<Longrightarrow> tm_hour (utcTm s) = 0 \<and> tm_min (utcTm s) = 0 \<and> tm_sec (utcTm s) = 0"
  by (simp add: utcTm_def gmtime_r_def Let_def dvd_eq_mod_eq_0 split: prod.splits)

lemma makeTime_printable:
  fixes t defines "u \<equiv> utcTm (mamaDateTimeImpl_getSeconds t)"
  assumes "printable t"
  shows "makeTime (if hasDate t then tm_year u + 1900 else 0) (if hasDate t then tm_mon u + 1 else 0) (if hasDate t then tm_mday u else 0)
    (if hasTime t then tm_hour u else 0) (if hasTime t then tm_min u else 0) (if hasTime t then tm_sec u else 0) =
    ucast (mamaDateTimeImpl_getSeconds t)"
proof -
  have "makeTime 0 0 0 h m s = makeTime 1970 1 1 h m s" for h m s by (simp add: makeTime_def)
  moreover have "\<not> hasDate t \<Longrightarrow> tm_year u = 70 \<and> tm_mon u = 0 \<and> tm_mday u = 1"
    using assms(2) utcTm_first_day by (auto simp: printable_def u_def)
  moreover have "\<not> hasTime t \<Longrightarrow> tm_hour u = 0 \<and> tm_min u = 0 \<and> tm_sec u = 0"
    using assms(2) utcTm_midnight by (auto simp: printable_def u_def)
  ultimately show ?thesis
    using makeTime_utcTm [of "mamaDateTimeImpl_getSeconds t"] by (cases "hasDate t"; cases "hasTime t") (simp_all add: u_def [symmetric])
qed

lemma hint_marks:
  "mamaDateTimeImpl_getHint (if b then mamaDateTimeImpl_setHasTime (if a then mamaDateTimeImpl_setHasDate 0 else 0) else if a then mamaDateTimeImpl_setHasDate 0 else 0) =
    of_bool a + 2 * of_bool b"
  by (cases a; cases b) (simp_all add: impl_defs MAMA_TIME_IMPL_MASK_HINT_def MAMA_TIME_IMPL_BIT_HAS_DATE_def MAMA_TIME_IMPL_BIT_HAS_TIME_def)

lemma string_roundtrip:
  assumes "printable t"
  shows "mamaDateTime_setFromString (Some d) (Some (full_text t)) = (Some t, MAMA_STATUS_OK)"
proof -
  let ?u = "utcTm (mamaDateTimeImpl_getSeconds t)" and ?w = "if hasTime t then mamaDateTimeImpl_setHasTime (if hasDate t then mamaDateTimeImpl_setHasDate 0 else 0)
    else if hasDate t then mamaDateTimeImpl_setHasDate 0 else 0"
  let ?us = "ucast (mamaDateTimeImpl_getMicroSeconds t) :: u64" and ?p = "of_nat (unat (mamaDateTimeImpl_getPrecision t)) :: u64"
  let ?r = "mamaDateTimeImpl_setMicroSeconds ?us (mamaDateTimeImpl_setSeconds (ucast (mamaDateTimeImpl_getSeconds t)) (mamaDateTimeImpl_setPrecision ?p ?w))"
  have n: "as_int (of_nat (nat (tm_year ?u + 1900))) = tm_year ?u + 1900" "as_int (of_nat (nat (tm_mon ?u + 1))) = tm_mon ?u + 1"
    "as_int (of_nat (nat (tm_mday ?u))) = tm_mday ?u" "as_int (of_nat (nat (tm_hour ?u))) = tm_hour ?u"
    "as_int (of_nat (nat (tm_min ?u))) = tm_min ?u" "as_int (of_nat (nat (tm_sec ?u))) = tm_sec ?u"
    using utcTm_valid [of "mamaDateTimeImpl_getSeconds t"] valid_mday [OF utcTm_valid(1), of "mamaDateTimeImpl_getSeconds t"]
    by (intro as_int_nat; simp add: valid_tm_def)+
  have m: "mamaDateTimeImpl_getMicroSeconds t < 1000000" "mamaDateTimeImpl_getPrecision t \<le> 6" and ok: "dt_ok t"
    and h: "mamaDateTimeImpl_getHint t = of_bool (hasDate t) + 2 * of_bool (hasTime t)"
    and z: "\<not> hasTime t \<Longrightarrow> mamaDateTimeImpl_getMicroSeconds t = 0 \<and> mamaDateTimeImpl_getPrecision t = 0"
    using assms by (auto simp: printable_def dt_ok_def)
  have p: "?p < 16" using m(2) by (simp add: word_le_def word_less_def)
  have "mamaDateTime_setFromString (Some d) (Some (full_text t)) = (Some ?r, MAMA_STATUS_OK)"
    using makeTime_printable [OF assms] n z
    by (cases "hasDate t"; cases "hasTime t")
      (simp_all add: mamaDateTime_setFromString_def mamaDateTime_setFromStringWithTz_def parse_full_date parse_full_time [OF assms]
        Let_def mamaDateTimeImpl_clear_def)
  moreover have "?r = t"
  proof (rule word_of_fields)
    show "mamaDateTimeImpl_getSeconds ?r = mamaDateTimeImpl_getSeconds t" "mamaDateTimeImpl_getMicroSeconds ?r = mamaDateTimeImpl_getMicroSeconds t"
      using m by simp_all
    show "mamaDateTimeImpl_getPrecision ?r = mamaDateTimeImpl_getPrecision t" using m p by simp
    show "mamaDateTimeImpl_getHint ?r = mamaDateTimeImpl_getHint t" using m by (simp add: h hint_marks)
    have "dt_ok ?r" using m by simp
    then show "\<forall>i. 20 \<le> i \<and> i < 24 \<longrightarrow> bit ?r i = bit t i" using ok by (auto simp: dt_ok_def)
  qed
  ultimately show ?thesis by simp
qed

text \<open>C30: the text round trip: a date-time that is printed into a buffer of at least 27 bytes and read back is the same 64-bit word,
  whether it has a date, a time or both, provided that it is well formed, has a precision of at most six digits beyond which
  its microseconds are 0, no other hints, and nothing in the parts that are not marked as present.\<close>

theorem dt_string_roundtrip:
  assumes "printable t" and "27 \<le> n"
  shows "\<exists>s. mamaDateTime_getAsString (Some t) n = Some (Some s, MAMA_STATUS_OK) \<and> length s < n \<and>
    mamaDateTime_setFromString (Some d) (Some s) = (Some t, MAMA_STATUS_OK)"
proof -
  have "length (full_text t) \<le> 26"
  proof -
    have "unat (mamaDateTimeImpl_getPrecision t) \<le> 6" using assms(1) by (simp add: printable_def word_le_nat_alt)
    then have "length (fraction_text t) \<le> 7" using assms(1) by (rule fraction_length)
    then show ?thesis by (simp add: full_text_def Let_def text_lengths)
  qed
  then show ?thesis using getAsString_text [OF assms] string_roundtrip [OF assms(1), of d] assms(2) by auto
qed

theorem dt_string_roundtrip_witness:
  "\<exists>s. mamaDateTime_getAsString (Some 0x4f4d643f6301e240) 32 = Some (Some s, MAMA_STATUS_OK) \<and> length s < 32 \<and>
    mamaDateTime_setFromString (Some 7) (Some s) = (Some 0x4f4d643f6301e240, MAMA_STATUS_OK)"
proof -
  have "mamaDateTimeImpl_getPrecision 0x4f4d643f6301e240 = 6" "mamaDateTimeImpl_getHint 0x4f4d643f6301e240 = 3" "dt_ok 0x4f4d643f6301e240"
    "hasDate 0x4f4d643f6301e240" "hasTime 0x4f4d643f6301e240" by code_simp+
  then have "printable 0x4f4d643f6301e240" by (simp add: printable_def)
  from dt_string_roundtrip [OF this, of 32 7] show ?thesis by simp
qed

end
