(* ===== verification/DateTimeFormat.thy ===== *)
theory DateTimeFormat
  imports DateTimeText
begin

text \<open>
  Formatting of date-times: \<open>mamaDateTime_getAsFormattedStringWithTz\<close> of \<open>mama/c_cpp/src/c/datetime.c\<close> and the bounded
  printing functions of \<open>mamaStrUtils.c\<close>. The result buffer is the list of the characters written so far, whose length is
  \<open>resLen\<close>; writing at or beyond \<open>maxLen\<close> is a memory error (\<open>None\<close>).
\<close>

subsection \<open>Bounded printing\<close>

definition printChar :: "nat \<Rightarrow> char \<Rightarrow> string \<Rightarrow> string" where
  "printChar maxLen c result = (if length result < maxLen then result @ [c] else result)"

definition printDigit :: "nat \<Rightarrow> u32 \<Rightarrow> string \<Rightarrow> string" where
  "printDigit maxLen digit result = (if length result < maxLen then result @ [char_of (unat digit + 48)] else result)"

fun printString :: "nat \<Rightarrow> string \<Rightarrow> string \<Rightarrow> string" where
  "printString maxLen [] result = result"
| "printString maxLen (c # str) result = (if length result < maxLen then printString maxLen str (result @ [c]) else result)"

text \<open>A raw write into the buffer.\<close>

definition put :: "nat \<Rightarrow> char \<Rightarrow> string \<Rightarrow> string option" where
  "put maxLen c result = (if length result < maxLen then Some (result @ [c]) else None)"

definition print2 :: "nat \<Rightarrow> u32 \<Rightarrow> string \<Rightarrow> string" where
  "print2 maxLen x result = printDigit maxLen (x mod 10) (printDigit maxLen (x div 10) result)"

definition print4 :: "nat \<Rightarrow> u32 \<Rightarrow> string \<Rightarrow> string" where
  "print4 maxLen year result =
    (let result = printDigit maxLen (year div 1000) result; year = year mod 1000;
         result = printDigit maxLen (year div 100) result; year = year mod 100;
         result = printDigit maxLen (year div 10) result; year = year mod 10
     in printDigit maxLen year result)"

text \<open>The precisions are numbers of digits; minutes and days have other codes.\<close>

definition printSubseconds :: "nat \<Rightarrow> u32 \<Rightarrow> u32 \<Rightarrow> string \<Rightarrow> string" where
  "printSubseconds maxLen precision microsecs result =
    (let precision = (if precision = MAMA_DATE_TIME_PREC_UNKNOWN then 3 else precision)
     in if precision = 6 then
          (let result = printDigit maxLen (microsecs div 100000) result; microsecs = microsecs mod 100000;
               result = printDigit maxLen (microsecs div 10000) result; microsecs = microsecs mod 10000;
               result = printDigit maxLen (microsecs div 1000) result; microsecs = microsecs mod 1000;
               result = printDigit maxLen (microsecs div 100) result; microsecs = microsecs mod 100;
               result = printDigit maxLen (microsecs div 10) result; microsecs = microsecs mod 10
           in printDigit maxLen microsecs result)
        else if precision = 3 then
          (let microsecs = microsecs div 1000;
               result = printDigit maxLen (microsecs div 100) result; microsecs = microsecs mod 100;
               result = printDigit maxLen (microsecs div 10) result; microsecs = microsecs mod 10
           in printDigit maxLen microsecs result)
        else if precision = 2 then
          (let microsecs = microsecs div 100;
               result = printDigit maxLen (microsecs div 10) result; microsecs = microsecs mod 10
           in printDigit maxLen microsecs result)
        else if precision = 1 then printDigit maxLen (microsecs div 10) result
        else result)"

subsection \<open>Format directives\<close>

definition gMonthsAbbrev :: "string list" where
  "gMonthsAbbrev = [''Jan'', ''Feb'', ''Mar'', ''Apr'', ''May'', ''Jun'', ''Jul'', ''Aug'', ''Sep'', ''Oct'', ''Nov'', ''Dec'']"

definition gMonthsAbbrevAllCap :: "string list" where
  "gMonthsAbbrevAllCap = [''JAN'', ''FEB'', ''MAR'', ''APR'', ''MAY'', ''JUN'', ''JUL'', ''AUG'', ''SEP'', ''OCT'', ''NOV'', ''DEC'']"

definition gMonthsFull :: "string list" where
  "gMonthsFull = [''January'', ''February'', ''March'', ''April'', ''May'', ''June'', ''July'', ''August'', ''September'', ''October'',
     ''November'', ''December'']"

text \<open>Each group of directives returns \<open>None\<close> for a character that is not one of its directives.\<close>

definition date_directive :: "tm \<Rightarrow> u64 \<Rightarrow> nat \<Rightarrow> char \<Rightarrow> string \<Rightarrow> string option" where
  "date_directive tmTime t maxLen c result =
    (let has = (mamaDateTimeImpl_getHasDate t \<noteq> 0); year = word_of_int (tm_year tmTime + 1900); month = word_of_int (tm_mon tmTime + 1);
         mday = word_of_int (tm_mday tmTime)
     in if c = CHR ''Y'' then
          Some (if \<not> has then printString maxLen ''    '' result else print4 maxLen year result)
        else if c = CHR ''y'' then
          Some (if \<not> has then printString maxLen ''  '' result else print2 maxLen (word_of_int (tm_year tmTime smod 100)) result)
        else if c = CHR ''m'' then
          Some (if \<not> has then printString maxLen ''  '' result else print2 maxLen month result)
        else if c = CHR ''d'' then
          Some (if \<not> has then printString maxLen ''  '' result else print2 maxLen mday result)
        else if c = CHR ''F'' then
          Some (if \<not> has then printString maxLen ''    -  -  '' result
                else print2 maxLen mday (printChar maxLen (CHR ''-'') (print2 maxLen month (printChar maxLen (CHR ''-'') (print4 maxLen year result)))))
        else if c = CHR ''D'' then
          Some (if \<not> has then printString maxLen ''    -  -  '' result
                else print2 maxLen (word_of_int (tm_year tmTime))
                  (printChar maxLen (CHR ''/'') (print2 maxLen mday (printChar maxLen (CHR ''/'') (print2 maxLen month result)))))
        else None)"

definition time_directive :: "tm \<Rightarrow> u64 \<Rightarrow> nat \<Rightarrow> char \<Rightarrow> string \<Rightarrow> string option" where
  "time_directive tmTime t maxLen c result =
    (let has = (mamaDateTimeImpl_getHasTime t \<noteq> 0); hour = word_of_int (tm_hour tmTime); minute = word_of_int (tm_min tmTime);
         second = word_of_int (tm_sec tmTime)
     in if c = CHR ''T'' then
          Some (if \<not> has then printString maxLen ''  :  :  '' result
                else print2 maxLen second (printChar maxLen (CHR '':'') (print2 maxLen minute (printChar maxLen (CHR '':'') (print2 maxLen hour result)))))
        else if c = CHR ''H'' then
          Some (if \<not> has then printString maxLen ''  '' result else print2 maxLen hour result)
        else if c = CHR ''M'' then
          Some (if \<not> has then printString maxLen ''  '' result else print2 maxLen minute result)
        else if c = CHR ''S'' then
          Some (if \<not> has then printString maxLen ''  '' result else print2 maxLen second result)
        else None)"

definition subsecond_directive :: "u64 \<Rightarrow> nat \<Rightarrow> char \<Rightarrow> string \<Rightarrow> string option" where
  "subsecond_directive t maxLen c result =
    (let has = (mamaDateTimeImpl_getHasTime t \<noteq> 0); us = mamaDateTimeImpl_getMicroSeconds t; precision = mamaDateTimeImpl_getPrecision t
     in if c = CHR '':'' then
          Some (if \<not> has then printString maxLen ''   '' result else printSubseconds maxLen 3 us result)
        else if c = CHR '';'' then
          Some (if has \<and> us > 0 then printSubseconds maxLen 3 us (printChar maxLen (CHR ''.'') result) else result)
        else if c = CHR ''.'' then
          Some (if \<not> has then printString maxLen ''   '' result else printSubseconds maxLen precision us result)
        else if c = CHR '','' then
          Some (if has \<and> us > 0 then printSubseconds maxLen precision us (printChar maxLen (CHR ''.'') result) else result)
        else None)"

definition month_directive :: "tm \<Rightarrow> u64 \<Rightarrow> nat \<Rightarrow> char \<Rightarrow> string \<Rightarrow> string option" where
  "month_directive tmTime t maxLen c result =
    (let has = (mamaDateTimeImpl_getHasDate t \<noteq> 0)
     in if c = CHR ''B'' then
          Some (if \<not> has then printString maxLen ''     '' result else printString maxLen (gMonthsFull ! nat (tm_mon tmTime)) result)
        else if c = CHR ''b'' then
          Some (if \<not> has then printString maxLen ''   '' result else printString maxLen (gMonthsAbbrev ! nat (tm_mon tmTime)) result)
        else if c = CHR ''h'' then
          Some (if \<not> has then printString maxLen ''   '' result else printString maxLen (gMonthsAbbrevAllCap ! nat (tm_mon tmTime)) result)
        else None)"

definition directive :: "tm \<Rightarrow> u64 \<Rightarrow> nat \<Rightarrow> char \<Rightarrow> string \<Rightarrow> string option" where
  "directive tmTime t maxLen c result =
    (case date_directive tmTime t maxLen c result of
       Some r \<Rightarrow> Some r
     | None \<Rightarrow>
         (case time_directive tmTime t maxLen c result of
            Some r \<Rightarrow> Some r
          | None \<Rightarrow>
              (case subsecond_directive t maxLen c result of
                 Some r \<Rightarrow> Some r
               | None \<Rightarrow> month_directive tmTime t maxLen c result)))"

text \<open>The loop over the format. A single % at its end is printed twice, because the case falls through.\<close>

fun format_loop :: "tm \<Rightarrow> u64 \<Rightarrow> nat \<Rightarrow> string \<Rightarrow> string \<Rightarrow> string option" where
  "format_loop tmTime t maxLen [] result = Some result"
| "format_loop tmTime t maxLen [c] result =
    (if length result \<ge> maxLen then Some result
     else if c \<noteq> CHR ''%'' then put maxLen c result
     else put maxLen c result \<bind> put maxLen c)"
| "format_loop tmTime t maxLen (c # d # fmt) result =
    (if length result \<ge> maxLen then Some result
     else if c \<noteq> CHR ''%'' then put maxLen c result \<bind> format_loop tmTime t maxLen (d # fmt)
     else (case directive tmTime t maxLen d result of
             Some r \<Rightarrow> format_loop tmTime t maxLen fmt r
           | None \<Rightarrow> put maxLen c result \<bind> format_loop tmTime t maxLen (d # fmt)))"

text \<open>The terminator is put at the end, or over the last byte of the buffer.\<close>

definition terminate :: "nat \<Rightarrow> string \<Rightarrow> string option" where
  "terminate maxLen result =
    (if length result < maxLen then Some result else if maxLen = 0 then None else Some (take (maxLen - 1) result))"

definition mamaDateTime_getAsFormattedStringWithTz ::
  "u64 option \<Rightarrow> nat \<Rightarrow> string \<Rightarrow> u32 option \<Rightarrow> (string option \<times> mama_status) option" where
  "mamaDateTime_getAsFormattedStringWithTz dateTime maxLen fmt tz =
    (case dateTime of
       None \<Rightarrow> Some (None, MAMA_STATUS_INVALID_ARG)
     | Some t \<Rightarrow>
         let offset = (case tz of None \<Rightarrow> 0 | Some offset \<Rightarrow> offset);
             tmTime = (if offset \<noteq> 0 then utcTm (mamaDateTimeImpl_getSeconds (addWholeSeconds offset t))
                       else utcTm (mamaDateTimeImpl_getSeconds t))
         in do { result \<leftarrow> format_loop tmTime t maxLen fmt [];
                 result \<leftarrow> terminate maxLen result;
                 Some (Some result, MAMA_STATUS_OK) })"

subsection \<open>What a format means\<close>

text \<open>The text of a format without a bound.\<close>

definition digit_char :: "u32 \<Rightarrow> char" where
  "digit_char digit = char_of (unat digit + 48)"

definition two :: "u32 \<Rightarrow> string" where
  "two x = [digit_char (x div 10), digit_char (x mod 10)]"

definition four :: "u32 \<Rightarrow> string" where
  "four x = [digit_char (x div 1000), digit_char (x mod 1000 div 100), digit_char (x mod 1000 mod 100 div 10), digit_char (x mod 1000 mod 100 mod 10)]"

definition subsecond_spec :: "u32 \<Rightarrow> u32 \<Rightarrow> string" where
  "subsecond_spec precision us =
    (if precision = 6 then
       [digit_char (us div 100000), digit_char (us mod 100000 div 10000), digit_char (us mod 100000 mod 10000 div 1000),
        digit_char (us mod 100000 mod 10000 mod 1000 div 100), digit_char (us mod 100000 mod 10000 mod 1000 mod 100 div 10),
        digit_char (us mod 100000 mod 10000 mod 1000 mod 100 mod 10)]
     else if precision = 3 \<or> precision = MAMA_DATE_TIME_PREC_UNKNOWN then
       [digit_char (us div 1000 div 100), digit_char (us div 1000 mod 100 div 10), digit_char (us div 1000 mod 100 mod 10)]
     else if precision = 2 then two (us div 100)
     else if precision = 1 then [digit_char (us div 10)]
     else [])"

definition date_spec :: "tm \<Rightarrow> bool \<Rightarrow> char \<Rightarrow> string option" where
  "date_spec u has c =
    (let year = word_of_int (tm_year u + 1900); month = word_of_int (tm_mon u + 1); mday = word_of_int (tm_mday u)
     in if c = CHR ''Y'' then Some (if has then four year else ''    '')
        else if c = CHR ''y'' then Some (if has then two (word_of_int (tm_year u smod 100)) else ''  '')
        else if c = CHR ''m'' then Some (if has then two month else ''  '')
        else if c = CHR ''d'' then Some (if has then two mday else ''  '')
        else if c = CHR ''F'' then Some (if has then four year @ ''-'' @ two month @ ''-'' @ two mday else ''    -  -  '')
        else if c = CHR ''D'' then Some (if has then two month @ ''/'' @ two mday @ ''/'' @ two (word_of_int (tm_year u)) else ''    -  -  '')
        else None)"

definition month_spec :: "tm \<Rightarrow> bool \<Rightarrow> char \<Rightarrow> string option" where
  "month_spec u has c =
    (if c = CHR ''B'' then Some (if has then gMonthsFull ! nat (tm_mon u) else ''     '')
     else if c = CHR ''b'' then Some (if has then gMonthsAbbrev ! nat (tm_mon u) else ''   '')
     else if c = CHR ''h'' then Some (if has then gMonthsAbbrevAllCap ! nat (tm_mon u) else ''   '')
     else None)"

definition time_spec :: "tm \<Rightarrow> bool \<Rightarrow> char \<Rightarrow> string option" where
  "time_spec u has c =
    (let hour = word_of_int (tm_hour u); minute = word_of_int (tm_min u); second = word_of_int (tm_sec u)
     in if c = CHR ''T'' then Some (if has then two hour @ '':'' @ two minute @ '':'' @ two second else ''  :  :  '')
        else if c = CHR ''H'' then Some (if has then two hour else ''  '')
        else if c = CHR ''M'' then Some (if has then two minute else ''  '')
        else if c = CHR ''S'' then Some (if has then two second else ''  '')
        else None)"

definition fraction_spec :: "bool \<Rightarrow> u32 \<Rightarrow> u32 \<Rightarrow> char \<Rightarrow> string option" where
  "fraction_spec has precision us c =
    (if c = CHR '':'' then Some (if has then subsecond_spec 3 us else ''   '')
     else if c = CHR '';'' then Some (if has \<and> us > 0 then CHR ''.'' # subsecond_spec 3 us else [])
     else if c = CHR ''.'' then Some (if has then subsecond_spec precision us else ''   '')
     else if c = CHR '','' then Some (if has \<and> us > 0 then CHR ''.'' # subsecond_spec precision us else [])
     else None)"

definition directive_spec :: "tm \<Rightarrow> u64 \<Rightarrow> char \<Rightarrow> string option" where
  "directive_spec u t c =
    (case date_spec u (hasDate t) c of
       Some s \<Rightarrow> Some s
     | None \<Rightarrow>
         (case time_spec u (hasTime t) c of
            Some s \<Rightarrow> Some s
          | None \<Rightarrow>
              (case fraction_spec (hasTime t) (mamaDateTimeImpl_getPrecision t) (mamaDateTimeImpl_getMicroSeconds t) c of
                 Some s \<Rightarrow> Some s
               | None \<Rightarrow> month_spec u (hasDate t) c)))"

fun format_spec :: "tm \<Rightarrow> u64 \<Rightarrow> string \<Rightarrow> string" where
  "format_spec u t [] = []"
| "format_spec u t [c] = (if c = CHR ''%'' then [c, c] else [c])"
| "format_spec u t (c # d # fmt) =
    (if c \<noteq> CHR ''%'' then c # format_spec u t (d # fmt)
     else (case directive_spec u t d of Some s \<Rightarrow> s @ format_spec u t fmt | None \<Rightarrow> c # format_spec u t (d # fmt)))"

subsection \<open>Truncation\<close>

text \<open>On a buffer that holds what fits of a text, printing more leaves what fits of the longer text.\<close>

lemma printChar_take: "printChar m c (take m r) = take m (r @ [c])"
  by (cases "length r < m") (simp_all add: printChar_def)

lemma printDigit_take: "printDigit m d (take m r) = take m (r @ [digit_char d])"
  by (cases "length r < m") (simp_all add: printDigit_def digit_char_def)

lemma printString_take: "printString m s (take m r) = take m (r @ s)"
proof (induction s arbitrary: r)
  case (Cons c s)
  show ?case
  proof (cases "length r < m")
    case True
    then have "take m (r @ [c]) = r @ [c]" by simp
    with Cons [of "r @ [c]"] True show ?thesis by simp
  qed simp
qed simp

lemma print2_take: "print2 m x (take m r) = take m (r @ two x)"
  by (simp only: print2_def two_def printDigit_take append_assoc append.simps)

lemma print4_take: "print4 m x (take m r) = take m (r @ four x)"
  by (simp only: print4_def four_def Let_def printDigit_take append_assoc append.simps)

lemma printSubseconds_take: "printSubseconds m p us (take m r) = take m (r @ subsecond_spec p us)"
proof -
  note simps = printSubseconds_def subsecond_spec_def two_def Let_def printDigit_take append_assoc append.simps if_True if_False simp_thms append_Nil2
  have n: "(15 :: u32) \<noteq> 6" "(15 :: u32) \<noteq> 3" "(3 :: u32) \<noteq> 6" by simp_all
  consider "p = 15" | "p = 6" | "p = 3" | "p = 2" | "p = 1" | "p \<notin> {15, 6, 3, 2, 1}" by auto
  then show ?thesis
    unfolding MAMA_DATE_TIME_PREC_UNKNOWN_def
    by cases (simp_all add: simps MAMA_DATE_TIME_PREC_UNKNOWN_def del: take_append)
qed

lemmas take_simps = printChar_take printString_take print2_take print4_take printSubseconds_take append_assoc append.simps

lemma has_marks: "(mamaDateTimeImpl_getHasTime t \<noteq> 0) = hasTime t" "(mamaDateTimeImpl_getHasDate t \<noteq> 0) = hasDate t"
  by (simp_all add: has_bits)

lemma date_directive_take: "date_directive u t m c (take m r) = map_option (\<lambda>s. take m (r @ s)) (date_spec u (hasDate t) c)"
  by (cases "hasDate t") (simp_all add: date_directive_def date_spec_def has_marks take_simps Let_def del: take_append)

lemma time_directive_take: "time_directive u t m c (take m r) = map_option (\<lambda>s. take m (r @ s)) (time_spec u (hasTime t) c)"
  by (cases "hasTime t") (simp_all add: time_directive_def time_spec_def has_marks take_simps Let_def del: take_append)

lemma subsecond_directive_take:
  "subsecond_directive t m c (take m r) =
    map_option (\<lambda>s. take m (r @ s)) (fraction_spec (hasTime t) (mamaDateTimeImpl_getPrecision t) (mamaDateTimeImpl_getMicroSeconds t) c)"
  by (cases "hasTime t") (simp_all add: subsecond_directive_def fraction_spec_def has_marks take_simps Let_def del: take_append)

lemma month_directive_take: "month_directive u t m c (take m r) = map_option (\<lambda>s. take m (r @ s)) (month_spec u (hasDate t) c)"
  by (cases "hasDate t") (simp_all add: month_directive_def month_spec_def has_marks take_simps Let_def del: take_append)

lemma directive_take: "directive u t m c (take m r) = map_option (\<lambda>s. take m (r @ s)) (directive_spec u t c)"
  by (simp add: directive_def directive_spec_def date_directive_take time_directive_take subsecond_directive_take month_directive_take
      del: take_append split: option.split)

lemma put_take: "length r < m \<Longrightarrow> put m c (take m r) = Some (take m (r @ [c]))"
  by (simp add: put_def)

lemma format_loop_take:
  "fmt = [] \<or> last fmt \<noteq> CHR ''%'' \<Longrightarrow> format_loop u t m fmt (take m r) = Some (take m (r @ format_spec u t fmt))"
proof (induction u t fmt arbitrary: r rule: format_spec.induct)
  case (1 u t)
  then show ?case by simp
next
  case (2 u t c)
  then show ?case by (cases "length r < m") (simp_all add: put_def)
next
  case (3 u t c d fmt)
  show ?case
  proof (cases "length r < m")
    case True
    show ?thesis
    proof (cases "c = CHR ''%'' \<and> directive_spec u t d \<noteq> None")
      case ds: True
      then obtain s where s: "directive_spec u t d = Some s" by blast
      have "fmt = [] \<or> last fmt \<noteq> CHR ''%''" using "3.prems" by (cases fmt) simp_all
      with "3.IH"(3) [OF _ s this, of "r @ s"] ds True s directive_take [of u t m d r] show ?thesis by (simp del: take_append)
    next
      case False
      have "last (d # fmt) \<noteq> CHR ''%''" using "3.prems" by simp
      then have "format_loop u t m (d # fmt) (take m (r @ [c])) = Some (take m ((r @ [c]) @ format_spec u t (d # fmt)))"
        using "3.IH"(1) [of "r @ [c]"] "3.IH"(2) [of "r @ [c]"] False by blast
      with False True directive_take [of u t m d r] put_take [OF True, of c] show ?thesis
        by (auto simp del: take_append format_spec.simps(2))
    qed
  qed simp
qed

text \<open>The broken-down time that is formatted.\<close>

definition local_tm :: "u64 \<Rightarrow> u32 option \<Rightarrow> tm" where
  "local_tm t tz = utcTm (mamaDateTimeImpl_getSeconds t + (case tz of None \<Rightarrow> 0 | Some offset \<Rightarrow> offset))"

lemma format_result:
  "mamaDateTime_getAsFormattedStringWithTz (Some t) m fmt tz =
    do { result \<leftarrow> format_loop (local_tm t tz) t m fmt []; result \<leftarrow> terminate m result; Some (Some result, MAMA_STATUS_OK) }"
  by (auto simp: mamaDateTime_getAsFormattedStringWithTz_def local_tm_def Let_def split: option.splits)

lemma format_truncated:
  assumes "0 < m" and "fmt = [] \<or> last fmt \<noteq> CHR ''%''"
  shows "mamaDateTime_getAsFormattedStringWithTz (Some t) m fmt tz =
    Some (Some (take (m - 1) (format_spec (local_tm t tz) t fmt)), MAMA_STATUS_OK)"
proof -
  have "terminate m (take m s) = Some (take (m - 1) s)" for s
    using assms(1) by (auto simp: terminate_def min_def)
  with format_loop_take [OF assms(2), of "local_tm t tz" t m "[]"] show ?thesis by (simp add: format_result)
qed

text \<open>Two directives print characters that are not digits: \<open>%D\<close> takes the years since 1900 for a number of two digits, and
  centiseconds and deciseconds are computed with the wrong divisors.\<close>

lemma format_D_2012:
  assumes "hasDate t" and "tm_year u = 112"
  shows "format_spec u t ''%D'' = two (word_of_int (tm_mon u + 1)) @ ''/'' @ two (word_of_int (tm_mday u)) @ ''/'' @ [digit_char 11, digit_char 2]"
  using assms by (simp add: directive_spec_def date_spec_def Let_def) (simp add: two_def)

lemma subseconds_not_digits: "subsecond_spec 2 123456 = [digit_char 123, digit_char 4]" "subsecond_spec 1 123456 = [digit_char 12345]"
  by (simp_all add: subsecond_spec_def two_def MAMA_DATE_TIME_PREC_UNKNOWN_def)

subsection \<open>Properties\<close>

text \<open>C31: formatting into a buffer of at least one byte never writes outside of it, whatever the format and the value, unless the format
  ends in a percent sign; the result is the text that the format denotes (the function \<open>format_spec\<close>, which knows no buffers), cut
  off after one byte less than the buffer has. A format that is a single percent sign writes behind a buffer of one byte.\<close>

theorem dt_format_truncates:
  assumes "0 < maxLen" and "fmt = [] \<or> last fmt \<noteq> CHR ''%''"
  shows "mamaDateTime_getAsFormattedStringWithTz (Some t) maxLen fmt tz =
      Some (Some (take (maxLen - 1) (format_spec (local_tm t tz) t fmt)), MAMA_STATUS_OK) \<and>
    mamaDateTime_getAsFormattedStringWithTz (Some t) 1 ''%'' tz = None"
  using format_truncated [OF assms] by (simp add: format_result put_def)

theorem dt_format_truncates_witness:
  "mamaDateTime_getAsFormattedStringWithTz (Some 0x0000e1006201e240) 8 ''%H:%M%,'' None = Some (Some ''16:00.1'', MAMA_STATUS_OK)"
proof -
  have u: "local_tm 0x0000e1006201e240 None = \<lparr>tm_sec = 0, tm_min = 0, tm_hour = 16, tm_mday = 1, tm_mon = 0, tm_year = 70, tm_wday = 4\<rparr>"
    by (simp add: local_tm_def utcTm_def gmtime_r_def gm_year.simps year_days_def month_lengths_def impl_defs MAMA_TIME_IMPL_MASK_SECONDS_def)
  have "format_spec (local_tm 0x0000e1006201e240 None) 0x0000e1006201e240 ''%H:%M%,'' = ''16:00.123456''"
    unfolding u by code_simp
  then show ?thesis using dt_format_truncates [of 8 "''%H:%M%,''" "0x0000e1006201e240" None] by simp
qed

end
