(* ===== verification/StrUtils.thy ===== *)
theory StrUtils
  imports CString Complex_Main
begin

text \<open>
  The string utilities of \<open>common/c_cpp/src/c/strutils.c\<close>: printing numbers into buffers, bounded copies and growing strings. A
  buffer is the list of the bytes of the memory object it lies in, and a pointer an offset into it; a write outside of the object is
  \<open>None\<close>. The byte 0 is \<open>NUL\<close>. Lengths are natural numbers where the code only compares them, and 64-bit words where it subtracts. Doubles
  are exact rationals.
\<close>

subsection \<open>Memory\<close>

definition NUL :: char where "NUL = CHR 0x00"

definition store :: "char list \<Rightarrow> nat \<Rightarrow> char list \<Rightarrow> char list option" where
  "store buf i cs = (if cs = [] \<or> i + length cs \<le> length buf then Some (take i buf @ cs @ drop (i + length cs) buf) else None)"

text \<open>The string that begins at an offset.\<close>

definition c_string :: "char list \<Rightarrow> nat \<Rightarrow> string" where
  "c_string buf i = takeWhile (\<lambda>c. c \<noteq> NUL) (drop i buf)"

text \<open>\<open>snprintf\<close> of a text: at most \<open>maxLen - 1\<close> characters and the terminator; the result is the length of the whole text.\<close>

definition snprintf :: "char list \<Rightarrow> nat \<Rightarrow> nat \<Rightarrow> string \<Rightarrow> (char list \<times> int) option" where
  "snprintf buf off maxLen s =
    do { buf \<leftarrow> (if maxLen = 0 then Some buf else store buf off (take (maxLen - 1) s @ [NUL]));
         Some (buf, int (length s)) }"

text \<open>The first bytes of a string constant.\<close>

definition wmMemCpy :: "char list \<Rightarrow> nat \<Rightarrow> string \<Rightarrow> nat \<Rightarrow> char list option" where
  "wmMemCpy buf off src n = store buf off (take n (src @ [NUL]))"

subsection \<open>Printing integers\<close>

definition gIntegerStrings :: "string list" where
  "gIntegerStrings = map (print_nat 10) [0..<101]"

definition gLeadingZeroIntegerStrings :: "string list" where
  "gLeadingZeroIntegerStrings = map (print_padded 2) [0..<101]"

text \<open>The loop that pads with zeros: the buffer, the position behind them and their number.\<close>

function pad_loop :: "char list \<Rightarrow> nat \<Rightarrow> nat \<Rightarrow> nat \<Rightarrow> nat \<Rightarrow> (char list \<times> nat \<times> nat) option" where
  "pad_loop buf off extra minWidth k =
    (if minWidth > k then
       do { buf \<leftarrow> store buf off ''0'';
            pad_loop buf (off + 1) (extra + 1) (minWidth - 1) k }
     else Some (buf, off, extra))"
  by pat_completeness auto
termination
  by (relation "measure (\<lambda>(buf, off, extra, minWidth, k). minWidth - k)") auto

declare pad_loop.simps [simp del]

text \<open>The case for numbers of seven and more digits, which does not know the length of those with nine and more.\<close>

definition print_long :: "char list \<Rightarrow> nat \<Rightarrow> nat \<Rightarrow> nat \<Rightarrow> nat \<Rightarrow> (char list \<times> int) option" where
  "print_long buf off maxLen v minWidth =
    (let size = (if v < 10000000 then 7 else if v < 100000000 then 8 else 0)
     in if maxLen > size then
          do { (buf, off, extra) \<leftarrow> pad_loop buf off 0 minWidth size;
               (buf, n) \<leftarrow> snprintf buf off maxLen (print_nat 10 v);
               Some (buf, int extra + n) }
        else snprintf buf off maxLen (print_nat 10 v))"

definition wmFastPrintU64 :: "char list \<Rightarrow> nat \<Rightarrow> nat \<Rightarrow> u64 \<Rightarrow> nat \<Rightarrow> (char list \<times> int) option" where
  "wmFastPrintU64 buf off maxLen value minWidth =
    (let v = unat value in
     if maxLen = 0 \<or> minWidth \<ge> maxLen then Some (buf, - 1)
     else if maxLen = 1 then do { buf \<leftarrow> store buf off [NUL]; Some (buf, 0) }
     else if v = 0 then
       do { (buf, off, extra) \<leftarrow> pad_loop buf off 0 minWidth 1;
            buf \<leftarrow> store buf off ''0'';
            buf \<leftarrow> store buf (off + 1) [NUL];
            Some (buf, int extra + 1) }
     else if v < 10 \<and> maxLen > 1 then
       do { (buf, off, extra) \<leftarrow> pad_loop buf off 0 minWidth 1;
            buf \<leftarrow> wmMemCpy buf off (gIntegerStrings ! v) 2;
            Some (buf, int extra + 1) }
     else if v < 100 \<and> maxLen > 2 then
       do { (buf, off, extra) \<leftarrow> pad_loop buf off 0 minWidth 2;
            buf \<leftarrow> wmMemCpy buf off (gIntegerStrings ! v) 3;
            Some (buf, int extra + 2) }
     else if v < 1000 \<and> maxLen > 3 then
       do { (buf, off, extra) \<leftarrow> pad_loop buf off 0 minWidth 3;
            buf \<leftarrow> store buf off [digits ! (v div 100)];
            buf \<leftarrow> wmMemCpy buf (off + 1) (gLeadingZeroIntegerStrings ! (v mod 100)) 3;
            Some (buf, int extra + 3) }
     else if v < 10000 \<and> maxLen > 4 then
       do { (buf, off, extra) \<leftarrow> pad_loop buf off 0 minWidth 4;
            buf \<leftarrow> wmMemCpy buf off (gLeadingZeroIntegerStrings ! (v div 100)) 2;
            buf \<leftarrow> wmMemCpy buf (off + 2) (gLeadingZeroIntegerStrings ! (v mod 100)) 3;
            Some (buf, int extra + 4) }
     else if v < 100000 \<and> maxLen > 5 then
       do { let leading = v div 10000;
            let residual = v - leading * 10000;
            (buf, off, extra) \<leftarrow> pad_loop buf off 0 minWidth 5;
            buf \<leftarrow> wmMemCpy buf off (gIntegerStrings ! leading) 2;
            buf \<leftarrow> wmMemCpy buf (off + 1) (gLeadingZeroIntegerStrings ! (residual div 100)) 2;
            buf \<leftarrow> wmMemCpy buf (off + 3) (gLeadingZeroIntegerStrings ! (residual mod 100)) 3;
            Some (buf, int extra + 5) }
     else if v < 1000000 \<and> maxLen > 6 then
       do { let leading = v div 10000;
            let residual = v - leading * 10000;
            (buf, off, extra) \<leftarrow> pad_loop buf off 0 minWidth 6;
            buf \<leftarrow> wmMemCpy buf off (gLeadingZeroIntegerStrings ! leading) 2;
            buf \<leftarrow> wmMemCpy buf (off + 2) (gLeadingZeroIntegerStrings ! (residual div 100)) 2;
            buf \<leftarrow> wmMemCpy buf (off + 4) (gLeadingZeroIntegerStrings ! (residual mod 100)) 3;
            Some (buf, int extra + 6) }
     else print_long buf off maxLen v minWidth)"

text \<open>The type of the argument is \<open>unsigned long\<close>, which has 64 bits.\<close>

definition wmFastPrintU32 :: "char list \<Rightarrow> nat \<Rightarrow> nat \<Rightarrow> u64 \<Rightarrow> nat \<Rightarrow> (char list \<times> int) option" where
  "wmFastPrintU32 = wmFastPrintU64"

text \<open>Negating the least number overflows.\<close>

definition wmFastPrintI64 :: "char list \<Rightarrow> nat \<Rightarrow> nat \<Rightarrow> int \<Rightarrow> nat \<Rightarrow> (char list \<times> int) option" where
  "wmFastPrintI64 buf off maxLen value minWidth =
    (if value < 0 then
       (if maxLen > 1 then
          do { buf \<leftarrow> store buf off ''-'';
               (buf, n) \<leftarrow> (if value = - (2 ^ 63) then None else wmFastPrintU64 buf (off + 1) maxLen (word_of_int (- value)) minWidth);
               Some (buf, n + 1) }
        else Some (buf, - 1))
     else wmFastPrintU64 buf off maxLen (word_of_int value) minWidth)"

definition wmFastPrintI32 :: "char list \<Rightarrow> nat \<Rightarrow> nat \<Rightarrow> int \<Rightarrow> nat \<Rightarrow> (char list \<times> int) option" where
  "wmFastPrintI32 = wmFastPrintI64"

subsection \<open>Printing floating point numbers\<close>

definition multiplier :: "nat \<Rightarrow> rat" where
  "multiplier places = (if places = 0 then 100 else 10 ^ places)"

text \<open>The loop that replaces trailing zeros by terminators; the position is that of the first digit.\<close>

fun strip_loop :: "char list \<Rightarrow> nat \<Rightarrow> nat \<Rightarrow> (char list \<times> nat) option" where
  "strip_loop buf off 0 = None"
| "strip_loop buf off (Suc bytes) =
    (if off + bytes \<ge> length buf then None
     else if buf ! (off + bytes) = CHR ''0'' then do { buf \<leftarrow> store buf (off + bytes) [NUL]; strip_loop buf off bytes }
     else Some (buf, Suc bytes))"

text \<open>The decimals: the value is what is left of the number, \<open>maxlen\<close> the room.\<close>

definition print_decimals :: "char list \<Rightarrow> nat \<Rightarrow> u64 \<Rightarrow> rat \<Rightarrow> nat \<Rightarrow> (char list \<times> nat \<times> u64 \<times> int) option" where
  "print_decimals buf off maxlen posValue places =
    (let x = posValue * multiplier places;
         d = \<lfloor>x\<rfloor>;
         d = (if x - of_int d > 9 / 10 then d + 1 else d)
     in if \<lfloor>x\<rfloor> \<ge> 2 ^ 63 then None
        else if d > 0 then
          do { buf \<leftarrow> store buf off ''.'';
               (buf, bytes) \<leftarrow> wmFastPrintU64 buf (off + 1) (unat (maxlen - 1)) (word_of_int d) places;
               if bytes < 0 then Some (buf, off + 1, maxlen - 1, bytes)
               else do { (buf, n) \<leftarrow> strip_loop buf (off + 1) (nat bytes);
                         Some (buf, off + 1 + n, maxlen - 1 - of_nat n, 0) } }
        else Some (buf, off, maxlen, 0))"

definition wmFastPrintF64 :: "char list \<Rightarrow> nat \<Rightarrow> u64 \<Rightarrow> rat \<Rightarrow> nat \<Rightarrow> (char list \<times> int) option" where
  "wmFastPrintF64 buf off actualMaxLen value places =
    do { buf \<leftarrow> store buf off [NUL];
         let posValue = \<bar>value\<bar>;
         (buf, pos, maxlen) \<leftarrow> (if value < 0 then do { buf \<leftarrow> store buf off ''-''; Some (buf, off + 1, actualMaxLen - 1) } else Some (buf, off, actualMaxLen));
         let integral = \<lfloor>posValue\<rfloor>;
         (buf, bytes) \<leftarrow> (if integral \<ge> 2 ^ 63 then None else if maxlen > 1 then wmFastPrintI64 buf pos (unat maxlen) integral 0 else Some (buf, 0));
         if bytes < 0 then Some (buf, bytes)
         else
           do { let pos = pos + nat bytes;
                let maxlen = maxlen - word_of_int bytes;
                (buf, pos, maxlen, err) \<leftarrow> (if maxlen > 2 then print_decimals buf pos maxlen (posValue - of_int integral) places else Some (buf, pos, maxlen, 0));
                if err < 0 then Some (buf, err)
                else do { buf \<leftarrow> store buf (pos + unat (maxlen - 1)) [NUL];
                          Some (buf, sint (ucast (actualMaxLen - maxlen) :: i32)) } } }"

definition wmFastPrintF32 :: "char list \<Rightarrow> nat \<Rightarrow> u64 \<Rightarrow> rat \<Rightarrow> nat \<Rightarrow> (char list \<times> int) option" where
  "wmFastPrintF32 = wmFastPrintF64"

text \<open>A failure moves the position back by one and increases the room by one.\<close>

definition wmFastPrintAndShiftF64 :: "char list \<Rightarrow> nat \<Rightarrow> u64 \<Rightarrow> rat \<Rightarrow> nat \<Rightarrow> (char list \<times> int \<times> u64 \<times> int) option" where
  "wmFastPrintAndShiftF64 buf off maxLen value places =
    do { (buf, bytes) \<leftarrow> wmFastPrintF64 buf off maxLen value places;
         Some (buf, int off + bytes, maxLen - word_of_int bytes, bytes) }"

subsection \<open>Copying and growing\<close>

definition wmStrSizeCpy :: "char list \<Rightarrow> nat \<Rightarrow> string \<Rightarrow> nat \<Rightarrow> (char list \<times> nat) option" where
  "wmStrSizeCpy dst off src siz =
    (if length src < siz then do { dst \<leftarrow> store dst off (src @ [NUL]); Some (dst, length src) }
     else if siz = 0 then None
     else do { dst \<leftarrow> wmMemCpy dst off src (siz - 1); dst \<leftarrow> store dst (off + (siz - 1)) [NUL]; Some (dst, siz - 1) })"

fun copy_loop :: "char list \<Rightarrow> nat \<Rightarrow> nat \<Rightarrow> string \<Rightarrow> (char list \<times> nat \<times> nat) option" where
  "copy_loop buf off maxLen [] = Some (buf, off, 0)"
| "copy_loop buf off 0 (c # cs) = Some (buf, off, 0)"
| "copy_loop buf off (Suc n) (c # cs) =
    do { buf \<leftarrow> store buf off [c]; (buf, off, bytes) \<leftarrow> copy_loop buf (off + 1) n cs; Some (buf, off, bytes + 1) }"

text \<open>The buffer, the shifted position, the rest of the room and the number of bytes.\<close>

definition wmFastCopyAndShiftStr :: "char list \<Rightarrow> nat \<Rightarrow> nat \<Rightarrow> string \<Rightarrow> (char list \<times> nat \<times> nat \<times> nat) option" where
  "wmFastCopyAndShiftStr buf off maxLen value =
    do { (buf, off, bytes) \<leftarrow> copy_loop buf off maxLen value;
         buf \<leftarrow> store buf off [NUL];
         Some (buf, off, maxLen - bytes, bytes) }"

definition wmFastCopyAndShiftChar :: "char list \<Rightarrow> nat \<Rightarrow> nat \<Rightarrow> char \<Rightarrow> (char list \<times> nat \<times> nat \<times> nat) option" where
  "wmFastCopyAndShiftChar buf off maxLen value =
    (if value = NUL \<or> maxLen = 0 then Some (buf, off, maxLen, 0)
     else do { buf \<leftarrow> store buf off [value]; buf \<leftarrow> store buf (off + 1) [NUL]; Some (buf, off + 1, maxLen - 1, 1) })"

definition tolower :: "char \<Rightarrow> char" where
  "tolower c = (if 65 \<le> (of_char c :: nat) \<and> (of_char c :: nat) \<le> 90 then char_of ((of_char c :: nat) + 32) else c)"

definition toLowerCase :: "string \<Rightarrow> string" where
  "toLowerCase s = map tolower s"

text \<open>The text is what \<open>vsnprintf\<close> prints; \<open>mem\<close> says which sizes can be allocated. A size that is no positive \<open>int\<close> any more ends
  the loop as an undefined overflow.\<close>

partial_function (option) printf_loop :: "(int \<Rightarrow> bool) \<Rightarrow> string \<Rightarrow> int \<Rightarrow> string option option" where
  "printf_loop mem text bufferSize =
    (if int (length text) < bufferSize then Some (Some text)
     else if bufferSize * 2 \<ge> 2 ^ 31 then None
     else if mem (bufferSize * 2) then printf_loop mem text (bufferSize * 2) else Some None)"

definition printfAlloc :: "(int \<Rightarrow> bool) \<Rightarrow> string option \<Rightarrow> string option option" where
  "printfAlloc mem fmt =
    (case fmt of None \<Rightarrow> Some None | Some text \<Rightarrow> if mem 100 then printf_loop mem text 100 else Some None)"

text \<open>A growing string: its memory, with the terminator in it.\<close>

definition strcatAlloc :: "(nat \<Rightarrow> bool) \<Rightarrow> char list option \<Rightarrow> string option \<Rightarrow> (int \<times> char list option) option" where
  "strcatAlloc mem s ct =
    (case ct of
       None \<Rightarrow> Some (0, s)
     | Some ct \<Rightarrow>
         (case (case s of None \<Rightarrow> if mem 100 then Some (replicate 100 NUL) else None | Some b \<Rightarrow> Some b) of
            None \<Rightarrow> Some (1, None)
          | Some b \<Rightarrow>
              let len = length (c_string b 0);
                  currentBlocks = (len + 1) div 100 + 1;
                  requiredBlocks = (len + length ct + 1) div 100 + 1
              in if requiredBlocks > currentBlocks \<and> \<not> mem (requiredBlocks * 100) then Some (1, Some b)
                 else let b = (if requiredBlocks > currentBlocks then take (requiredBlocks * 100) b @ replicate (requiredBlocks * 100 - length b) NUL else b)
                      in do { b \<leftarrow> store b len (ct @ [NUL]); Some (0, Some b) }))"

definition strlenEx :: "string option \<Rightarrow> nat" where
  "strlenEx s = (case s of None \<Rightarrow> 0 | Some s \<Rightarrow> length s)"

definition strtobool :: "string option \<Rightarrow> bool" where
  "strtobool s =
    (case s of
       None \<Rightarrow> False
     | Some s \<Rightarrow>
         if length s = 0 then False
         else if length s = 1 then s ! 0 \<in> {CHR ''1'', CHR ''y'', CHR ''Y'', CHR ''t'', CHR ''T''}
         else s \<in> {''true'', ''True'', ''TRUE'', ''yes'', ''Yes'', ''YES''})"

subsection \<open>Stores\<close>

lemma store_store: "store buf off cs \<bind> (\<lambda>b. store b (off + length cs) ds) = store buf off (cs @ ds)"
  by (auto simp: store_def add.assoc add.commute [of "length ds"])

lemma store_then:
  "store buf off cs \<bind> (\<lambda>b. store b (off + length cs) ds \<bind> f) = store buf off (cs @ ds) \<bind> f"
  using store_store [of buf off cs ds] by (metis Option.bind_assoc)

lemma store_fits: "off + length cs \<le> length buf \<Longrightarrow> store buf off cs = Some (take off buf @ cs @ drop (off + length cs) buf)"
  by (simp add: store_def)

lemma c_string_store:
  assumes "store buf off (s @ [NUL]) = Some b" and "NUL \<notin> set s"
  shows "c_string b off = s"
proof -
  have "off \<le> length buf" "b = take off buf @ (s @ [NUL]) @ drop (off + length (s @ [NUL])) buf"
    using assms(1) by (auto simp: store_def split: if_splits)
  moreover have "takeWhile (\<lambda>c. c \<noteq> NUL) (s @ NUL # r) = s" for r using assms(2) by (induction s) auto
  ultimately show ?thesis by (simp add: c_string_def)
qed

lemma pad_loop_run:
  "pad_loop buf off extra mw k = store buf off (replicate (mw - k) (CHR ''0'')) \<bind> (\<lambda>b. Some (b, off + (mw - k), extra + (mw - k)))"
proof (induction "mw - k" arbitrary: buf off extra mw)
  case 0
  then show ?case by (cases "off \<le> length buf") (auto simp: pad_loop.simps [of _ _ _ mw] store_def)
next
  case (Suc n)
  then have n: "n = mw - 1 - k" "mw > k" "mw - k = Suc n" by auto
  have ih: "pad_loop b p e (mw - 1) k = store b p (replicate n (CHR ''0'')) \<bind> (\<lambda>b. Some (b, p + n, e + n))" for b p e
    using Suc(1) [OF n(1)] by (simp only: n(1) [symmetric])
  have "pad_loop buf off extra mw k = store buf off ''0'' \<bind> (\<lambda>b. store b (off + 1) (replicate n (CHR ''0'')) \<bind> (\<lambda>b. Some (b, off + 1 + n, extra + 1 + n)))"
    by (subst pad_loop.simps) (simp only: n(2) ih if_True)
  also have "\<dots> = store buf off (''0'' @ replicate n (CHR ''0'')) \<bind> (\<lambda>b. Some (b, off + 1 + n, extra + 1 + n))"
    using store_then [of buf off "''0''" "replicate n (CHR ''0'')"] by simp
  finally show ?case using n(3) by simp
qed

subsection \<open>Digits\<close>

lemma print_nat_step: "10 \<le> n \<Longrightarrow> print_nat 10 n = print_nat 10 (n div 10) @ [digits ! (n mod 10)]"
  by (simp add: print_nat.simps [of 10 n])

lemma print_nat_digit: "n < 10 \<Longrightarrow> print_nat 10 n = [digits ! n]"
  by (simp add: print_nat.simps [of 10 n])

lemma print_padded_2:
  assumes "n < 100"
  shows "print_padded 2 n = [digits ! (n div 10), digits ! (n mod 10)]"
proof (cases "n < 10")
  case True
  then show ?thesis by (simp add: print_padded_def print_nat_digit) (simp add: digits_def)
next
  case False
  with assms have "n div 10 < 10" by simp
  then show ?thesis using False by (simp add: print_padded_def print_nat_step print_nat_digit)
qed

lemma print_nat_two:
  assumes "100 \<le> n"
  shows "print_nat 10 n = print_nat 10 (n div 100) @ print_padded 2 (n mod 100)"
proof -
  have d: "n div 10 div 10 = n div 100" "(n mod 100) div 10 = (n div 10) mod 10" "(n mod 100) mod 10 = n mod 10"
    by (simp_all add: div_mult2_eq [symmetric] mod_mult2_eq [of n 10 10, simplified])
  have "print_nat 10 n = print_nat 10 (n div 10 div 10) @ [digits ! (n div 10 mod 10)] @ [digits ! (n mod 10)]"
    using assms by (simp add: print_nat_step [of n] print_nat_step [of "n div 10"])
  then show ?thesis by (simp add: print_padded_2 d)
qed

lemma print_nat_length:
  assumes "10 ^ k \<le> n" and "n < 10 ^ (k + 1)"
  shows "length (print_nat 10 n) = k + 1"
  using assms
proof (induction k arbitrary: n)
  case 0
  then show ?case by (simp add: print_nat_digit)
next
  case (Suc k)
  have "10 ^ k \<le> n div 10" "n div 10 < 10 ^ (k + 1)" using Suc.prems by (auto simp: less_eq_div_iff_mult_less_eq div_less_iff_less_mult)
  moreover have "10 \<le> n" using Suc.prems(1) by (auto intro: order_trans [of _ "10 * 10 ^ k"])
  ultimately show ?case using Suc.IH [of "n div 10"] by (simp add: print_nat_step)
qed

lemma table_strings: "v < 100 \<Longrightarrow> gIntegerStrings ! v = print_nat 10 v" "v < 100 \<Longrightarrow> gLeadingZeroIntegerStrings ! v = print_padded 2 v"
  by (simp_all add: gIntegerStrings_def gLeadingZeroIntegerStrings_def)

lemma NUL_digits: "NUL \<notin> set (print_nat 10 n)" "NUL \<notin> set (print_padded w n)"
proof -
  have "\<not> isdigit NUL" by (simp add: NUL_def isdigit_def digit_val_def)
  then show "NUL \<notin> set (print_padded w n)" for w using print_padded_digits(1) [of w n] by auto
  from this [of 0] show "NUL \<notin> set (print_nat 10 n)" by (simp add: print_padded_def)
qed

subsection \<open>Properties\<close>

text \<open>Numbers of \<open>k + 1\<close> digits, padded.\<close>

lemma padded_digits:
  assumes "10 ^ k \<le> n" and "n < 10 ^ (k + 1)"
  shows "print_padded w n = replicate (w - (k + 1)) (CHR ''0'') @ print_nat 10 n" and "length (print_padded w n) = max w (k + 1)"
  using print_nat_length [OF assms] by (simp_all add: print_padded_def)

text \<open>The cases of the code: padding and then the pieces of the number.\<close>

lemma pad_then_store:
  assumes "length (print_nat 10 v) = k" and "mw < maxLen" and "k < maxLen" and "c = int k"
  shows "pad_loop buf off 0 mw k \<bind> (\<lambda>(b, p, e). store b p (print_nat 10 v @ [NUL]) \<bind> (\<lambda>b. Some (b, int e + c))) =
     store buf off (take (maxLen - 1) (print_padded mw v) @ [NUL]) \<bind> (\<lambda>b. Some (b, int (length (print_padded mw v))))"
proof -
  have p: "print_padded mw v = replicate (mw - k) (CHR ''0'') @ print_nat 10 v" by (simp add: print_padded_def assms(1))
  have "length (print_padded mw v) < maxLen" using assms(1-3) by (simp add: p)
  then have t: "take (maxLen - 1) (print_padded mw v) = print_padded mw v" by simp
  show ?thesis
    unfolding t unfolding p
    using store_then [of buf off "replicate (mw - k) (CHR ''0'')" "print_nat 10 v @ [NUL]"] by (simp add: pad_loop_run assms(1,4))
qed

lemma piece_1: "v < 10 \<Longrightarrow> wmMemCpy b p (gIntegerStrings ! v) 2 = store b p (print_nat 10 v @ [NUL])"
  by (simp add: wmMemCpy_def table_strings print_nat_digit numeral_2_eq_2)

lemma piece_2: "10 \<le> v \<Longrightarrow> v < 100 \<Longrightarrow> wmMemCpy b p (gIntegerStrings ! v) 3 = store b p (print_nat 10 v @ [NUL])"
  using print_nat_length [of 1 v] by (simp add: wmMemCpy_def table_strings)

lemma piece_zeros: "n < 100 \<Longrightarrow> wmMemCpy b p (gLeadingZeroIntegerStrings ! n) 3 = store b p (print_padded 2 n @ [NUL])"
    "n < 100 \<Longrightarrow> wmMemCpy b p (gLeadingZeroIntegerStrings ! n) 2 = store b p (print_padded 2 n)"
  by (simp_all add: wmMemCpy_def table_strings print_padded_2)

lemma residual_digits:
  fixes v :: nat
  shows "v - v div 10000 * 10000 = v mod 10000" "v mod 10000 div 100 = v div 100 mod 100" "v mod 10000 mod 100 = v mod 100" "v div 100 div 100 = v div 10000"
  by (simp_all add: minus_div_mult_eq_mod div_mult2_eq [symmetric] mod_mult2_eq [of v 100 100, simplified])

lemma piece_3:
  assumes "100 \<le> v" and "v < 1000"
  shows "store b p [digits ! (v div 100)] \<bind> (\<lambda>b. wmMemCpy b (p + 1) (gLeadingZeroIntegerStrings ! (v mod 100)) 3 \<bind> g) = store b p (print_nat 10 v @ [NUL]) \<bind> g"
proof -
  have "v div 100 < 10" using assms(2) by simp
  then show ?thesis
    using store_then [of b p "[digits ! (v div 100)]" "print_padded 2 (v mod 100) @ [NUL]" g] assms(1)
    by (simp add: piece_zeros print_nat_two [of v] print_nat_digit)
qed

lemma piece_4:
  assumes "1000 \<le> v" and "v < 10000"
  shows "wmMemCpy b p (gLeadingZeroIntegerStrings ! (v div 100)) 2 \<bind> (\<lambda>b. wmMemCpy b (p + 2) (gLeadingZeroIntegerStrings ! (v mod 100)) 3 \<bind> g) =
     store b p (print_nat 10 v @ [NUL]) \<bind> g"
proof -
  have d: "v div 100 < 100" "10 \<le> v div 100" using assms by auto
  have l: "length (print_padded 2 (v div 100)) = 2" "print_padded 2 (v div 100) = print_nat 10 (v div 100)"
    using d print_nat_length [of 1 "v div 100"] by (simp_all add: print_padded_2) (simp add: print_padded_def flip: print_padded_2)
  show ?thesis
    using store_then [of b p "print_padded 2 (v div 100)" "print_padded 2 (v mod 100) @ [NUL]" g] assms(1) d l
    by (simp add: piece_zeros print_nat_two [of v])
qed

text \<open>A terminator that the next piece overwrites.\<close>

lemma store_over:
  assumes "ds \<noteq> []" and "length ds \<le> length es"
  shows "store b p (cs @ ds) \<bind> (\<lambda>b. store b (p + length cs) es \<bind> g) = store b p (cs @ es) \<bind> g"
proof -
  have "store b p (cs @ ds) \<bind> (\<lambda>b. store b (p + length cs) es) = store b p (cs @ es)"
    using assms by (auto simp: store_def add.assoc add.commute [of "length es"])
  then show ?thesis by (metis Option.bind_assoc)
qed

lemma five_digits:
  assumes "10000 \<le> v"
  shows "print_nat 10 v = print_nat 10 (v div 10000) @ print_padded 2 (v div 100 mod 100) @ print_padded 2 (v mod 100)"
proof -
  have "100 \<le> v div 100" using assms by simp
  then show ?thesis using assms by (simp add: print_nat_two [of v] print_nat_two [of "v div 100"] residual_digits(4))
qed

lemma piece_5:
  assumes "10000 \<le> v" and "v < 100000"
  shows "wmMemCpy b p (gIntegerStrings ! (v div 10000)) 2 \<bind> (\<lambda>b. wmMemCpy b (p + 1) (gLeadingZeroIntegerStrings ! (v div 100 mod 100)) 2 \<bind>
     (\<lambda>b. wmMemCpy b (p + 3) (gLeadingZeroIntegerStrings ! (v mod 100)) 3 \<bind> g)) = store b p (print_nat 10 v @ [NUL]) \<bind> g"
proof -
  let ?d = "[digits ! (v div 10000)]" and ?h = "print_padded 2 (v div 100 mod 100)" and ?l = "print_padded 2 (v mod 100) @ [NUL]"
  have d: "v div 10000 < 10" using assms(2) by simp
  have h: "length ?h = 2" by (simp add: print_padded_2)
  have "store b p (?d @ [NUL]) \<bind> (\<lambda>b. store b (p + length ?d) ?h \<bind> (\<lambda>b. store b (p + 3) ?l \<bind> g)) = store b p (?d @ ?h) \<bind> (\<lambda>b. store b (p + length (?d @ ?h)) ?l \<bind> g)"
    using store_over [of "[NUL]" ?h b p ?d] h by (simp add: numeral_3_eq_3)
  also have "\<dots> = store b p (print_nat 10 v @ [NUL]) \<bind> g" unfolding store_then five_digits [OF assms(1)] using d by (simp add: print_nat_digit)
  finally show ?thesis using d by (simp add: piece_1 piece_zeros print_nat_digit)
qed

lemma piece_6:
  assumes "100000 \<le> v" and "v < 1000000"
  shows "wmMemCpy b p (gLeadingZeroIntegerStrings ! (v div 10000)) 2 \<bind> (\<lambda>b. wmMemCpy b (p + 2) (gLeadingZeroIntegerStrings ! (v div 100 mod 100)) 2 \<bind>
     (\<lambda>b. wmMemCpy b (p + 4) (gLeadingZeroIntegerStrings ! (v mod 100)) 3 \<bind> g)) = store b p (print_nat 10 v @ [NUL]) \<bind> g"
proof -
  let ?d = "print_padded 2 (v div 10000)" and ?h = "print_padded 2 (v div 100 mod 100)" and ?l = "print_padded 2 (v mod 100) @ [NUL]"
  have d: "v div 10000 < 100" "10 \<le> v div 10000" using assms by auto
  have h: "length ?h = 2" "length ?d = 2" using d by (simp_all add: print_padded_2)
  have e: "?d = print_nat 10 (v div 10000)" using d print_nat_length [of 1 "v div 10000"] by (simp add: print_padded_def)
  have "store b p ?d \<bind> (\<lambda>b. store b (p + 2) ?h \<bind> (\<lambda>b. store b (p + 4) ?l \<bind> g)) = store b p (?d @ ?h) \<bind> (\<lambda>b. store b (p + length (?d @ ?h)) ?l \<bind> g)"
    using store_then [of b p ?d ?h] h by simp
  also have "\<dots> = store b p (print_nat 10 v @ [NUL]) \<bind> g" unfolding store_then using five_digits [of v] assms(1) by (simp add: e)
  finally show ?thesis using d by (simp add: piece_zeros)
qed

text \<open>Numbers from seven digits on, when they are not padded or have at most eight digits.\<close>

lemma print_long_run:
  assumes "v < 100000000 \<or> mw = 0" and "1000000 \<le> v \<or> maxLen \<le> length (print_nat 10 v)" and "2 \<le> maxLen" and "mw < maxLen" and "0 < v"
  shows "print_long buf off maxLen v mw = store buf off (take (maxLen - 1) (print_padded mw v) @ [NUL]) \<bind> (\<lambda>b. Some (b, int (length (print_padded mw v))))"
proof -
  let ?size = "if v < 10000000 then 7 else if v < 100000000 then 8 else 0 :: nat"
  have short: "print_padded mw v = print_nat 10 v" if "mw \<le> length (print_nat 10 v)" using that by (simp add: print_padded_def)
  show ?thesis
  proof (cases "maxLen > ?size \<and> v < 100000000")
    case True
    have "length (print_nat 10 v) \<le> ?size" using print_length [of ?size v 10] True by auto
    then have v: "1000000 \<le> v" using assms(2) True by linarith
    have k: "length (print_nat 10 v) = ?size" using print_nat_length [of 6 v] print_nat_length [of 7 v] v True by (auto split: if_splits)
    have "length (print_nat 10 v) \<le> maxLen - 1" using k True by linarith
    then have t: "take (maxLen - 1) (print_nat 10 v) = print_nat 10 v" by simp
    have "print_long buf off maxLen v mw = pad_loop buf off 0 mw ?size \<bind> (\<lambda>(b, p, e). store b p (print_nat 10 v @ [NUL]) \<bind> (\<lambda>b. Some (b, int e + int ?size)))"
      using True assms(3) t k by (simp add: print_long_def snprintf_def split_beta)
    then show ?thesis using pad_then_store [OF k assms(4) _ refl] True by simp
  next
    case False
    have "mw \<le> length (print_nat 10 v)"
    proof (cases "v < 100000000")
      case True
      have "?size \<le> length (print_nat 10 v) \<or> maxLen \<le> length (print_nat 10 v)"
        using assms(2) print_nat_length [of 6 v] print_nat_length [of 7 v] True by auto
      then show ?thesis using assms(4) False True by linarith
    qed (use assms(1) in simp)
    moreover have "pad_loop buf off 0 0 0 = Some (buf, off, 0)" by (simp add: pad_loop.simps)
    then have "print_long buf off maxLen v mw = snprintf buf off maxLen (print_nat 10 v)"
      using False assms(1,3) by (auto simp: print_long_def Let_def split_beta)
    ultimately show ?thesis using assms(3) by (simp add: short snprintf_def)
  qed
qed

lemma fast_print_run:
  assumes "unat value < 100000000 \<or> minWidth = 0" and "2 \<le> maxLen" and "minWidth < maxLen"
  shows "wmFastPrintU64 buf off maxLen value minWidth = snprintf buf off maxLen (print_padded minWidth (unat value))"
proof -
  define v where "v = unat value"
  define k where "k = length (print_nat 10 v)"
  define P where "P = store buf off (take (maxLen - 1) (print_padded minWidth v) @ [NUL]) \<bind> (\<lambda>b. Some (b, int (length (print_padded minWidth v))))"
  have ke: "length (print_nat 10 v) = i + 1" if "10 ^ i \<le> v" "v < 10 ^ (i + 1)" for i using print_nat_length [OF that] .
  have 0: "store b p ''0'' \<bind> (\<lambda>b. store b (p + 1) [NUL] \<bind> g) = store b p (print_nat 10 0 @ [NUL]) \<bind> g" for b p g
    using store_then [of b p "''0''" "[NUL]" g] by (simp add: print_nat_digit) (simp add: digits_def)
  consider "v = 0" | "1 \<le> v \<and> v < 10" | "10 \<le> v \<and> v < 100" | "100 \<le> v \<and> v < 1000" | "1000 \<le> v \<and> v < 10000" | "10000 \<le> v \<and> v < 100000"
    | "100000 \<le> v \<and> v < 1000000" | "1000000 \<le> v" by linarith
  then have "wmFastPrintU64 buf off maxLen value minWidth = P"
  proof cases
    case 1
    then show ?thesis using assms(2,3) pad_then_store [of 0 1 minWidth maxLen 1 buf off]
      by (simp add: wmFastPrintU64_def P_def v_def [symmetric] 0 [simplified] print_nat_digit)
  next
    case 2
    then show ?thesis using assms(2,3) ke [of 0] pad_then_store [of v 1 minWidth maxLen 1 buf off]
      by (simp add: wmFastPrintU64_def P_def v_def [symmetric] piece_1)
  next
    case 3
    then show ?thesis
      using assms ke [of 1] pad_then_store [of v 2 minWidth maxLen 2 buf off] print_long_run [of v minWidth maxLen buf off]
      by (cases "maxLen > 2") (simp_all add: wmFastPrintU64_def P_def v_def [symmetric] piece_2)
  next
    case 4
    then show ?thesis
      using assms ke [of 2] pad_then_store [of v 3 minWidth maxLen 3 buf off] print_long_run [of v minWidth maxLen buf off]
      by (cases "maxLen > 3") (simp_all add: wmFastPrintU64_def P_def v_def [symmetric] piece_3 [simplified])
  next
    case 5
    then show ?thesis
      using assms ke [of 3] pad_then_store [of v 4 minWidth maxLen 4 buf off] print_long_run [of v minWidth maxLen buf off]
      by (cases "maxLen > 4") (simp_all add: wmFastPrintU64_def P_def v_def [symmetric] piece_4 [simplified])
  next
    case 6
    then show ?thesis
      using assms ke [of 4] pad_then_store [of v 5 minWidth maxLen 5 buf off] print_long_run [of v minWidth maxLen buf off]
      by (cases "maxLen > 5") (simp_all add: wmFastPrintU64_def P_def v_def [symmetric] piece_5 [simplified] residual_digits)
  next
    case 7
    then show ?thesis
      using assms ke [of 5] pad_then_store [of v 6 minWidth maxLen 6 buf off] print_long_run [of v minWidth maxLen buf off]
      by (cases "maxLen > 6") (simp_all add: wmFastPrintU64_def P_def v_def [symmetric] piece_6 [simplified] residual_digits)
  next
    case 8
    then show ?thesis
      using assms print_long_run [of v minWidth maxLen buf off] by (simp add: wmFastPrintU64_def P_def v_def [symmetric])
  qed
  then show ?thesis using assms(2) by (simp add: P_def snprintf_def v_def [symmetric])
qed

text \<open>C33: the fast printer of integers is equivalent to \<open>snprintf\<close> with a minimal width and leading zeros, including the cut at the end of the
  buffer and the length that is returned, for all numbers below 100 million, and for all numbers when no width is asked for.\<close>

theorem fast_print_is_snprintf:
  assumes "unat value < 100000000 \<or> minWidth = 0" and "2 \<le> maxLen" and "minWidth < maxLen"
  shows "wmFastPrintU64 buf off maxLen value minWidth = snprintf buf off maxLen (print_padded minWidth (unat value))"
  using assms by (rule fast_print_run)

theorem fast_print_is_snprintf_witness:
  "wmFastPrintU64 (replicate 9 (CHR ''x'')) 1 6 42 4 = Some (''x0042'' @ [NUL] @ ''xxx'', 4)"
proof -
  have "unat (42 :: u64) = 42" by simp
  moreover have "print_padded 4 42 = ''0042''" by (simp add: print_padded_def print_nat_step print_nat_digit digits_def numeral_2_eq_2)
  moreover have "snprintf (replicate 9 (CHR ''x'')) 1 6 ''0042'' = Some (''x0042'' @ [NUL] @ ''xxx'', 4)" by code_simp
  ultimately show ?thesis using fast_print_is_snprintf [of 42 4 6 "replicate 9 (CHR ''x'')" 1] by simp
qed

text \<open>C38: when the fast printers write outside of a buffer that has exactly the size they are told. A number from 100 million on, with a minimal width, is preceded
  by as many zeros as its minimal width, whatever its length, and then printed with the size of the whole buffer: the printer writes outside exactly when the zeros,
  the digits and the end of the string do not fit. For a negative number without a minimal width the sign is not taken into account: the printer
  writes outside exactly when the sign, the digits and the end of the string do not fit. (The text would be cut off there, as \<open>snprintf\<close> does.)\<close>

theorem fast_print_overrun:
  assumes "length buf = maxLen" and "0 < minWidth" and "minWidth < maxLen" and "100000000 \<le> unat value"
    and "- (2 ^ 63) < i" and "i < 0" and "2 \<le> maxLen"
  shows "(wmFastPrintU64 buf 0 maxLen value minWidth = None \<longleftrightarrow> maxLen \<le> minWidth + length (print_nat 10 (unat value))) \<and>
    (wmFastPrintI64 buf 0 maxLen i 0 = None \<longleftrightarrow> maxLen \<le> 1 + length (print_nat 10 (nat (- i))))"
proof
  let ?t = "print_nat 10 (unat value)"
  have "wmFastPrintU64 buf 0 maxLen value minWidth = print_long buf 0 maxLen (unat value) minWidth"
    using assms(3,4,7) by (simp add: wmFastPrintU64_def)
  also have "\<dots> = store buf 0 (replicate minWidth (CHR ''0'') @ take (maxLen - 1) ?t @ [NUL]) \<bind> (\<lambda>b. Some (b, int minWidth + int (length ?t)))"
    using assms(3,4) store_then [of buf 0 "replicate minWidth (CHR ''0'')" "take (maxLen - 1) ?t @ [NUL]"]
    by (simp add: print_long_def snprintf_def pad_loop_run)
  finally show "wmFastPrintU64 buf 0 maxLen value minWidth = None \<longleftrightarrow> maxLen \<le> minWidth + length ?t"
    using assms(1-3) by (auto simp: store_def min_def bind_eq_None_conv)
next
  let ?p = "word_of_int (- i) :: u64" and ?b = "CHR ''-'' # drop 1 buf"
  have "- i < 2 ^ 64" using assms(5) by simp
  then have "unat ?p = nat (- i)" using assms(6) by (simp only: unat_eq_nat_uint uint_word_of_int_eq) (simp add: take_bit_int_eq_self)
  moreover have "wmFastPrintU64 ?b 1 maxLen ?p 0 = snprintf ?b 1 maxLen (print_padded 0 (unat ?p))"
    using assms(7) by (intro fast_print_run) auto
  moreover have "store buf 0 ''-'' = Some ?b" using assms(1,7) by (simp add: store_def)
  ultimately show "wmFastPrintI64 buf 0 maxLen i 0 = None \<longleftrightarrow> maxLen \<le> 1 + length (print_nat 10 (nat (- i)))"
    using assms(1,5-7) by (simp add: wmFastPrintI64_def snprintf_def print_padded_def) (auto simp: store_def min_def)
qed

theorem fast_print_overrun_witness:
  "wmFastPrintU64 (replicate 10 (CHR ''x'')) 0 10 123456789 4 = None \<and> wmFastPrintI64 (replicate 10 (CHR ''x'')) 0 10 (- 123456789) 0 = None"
proof -
  have "unat (123456789 :: u64) = 123456789" by simp
  moreover have "length (print_nat 10 123456789) = 9" using print_nat_length [of 8 123456789] by simp
  ultimately show ?thesis using fast_print_overrun [of "replicate 10 (CHR ''x'')" 10 4 123456789 "- 123456789"] by simp
qed

text \<open>The copy loop writes its terminator behind a buffer that the text fills.\<close>

lemma copy_loop_run:
  "copy_loop buf off maxLen v = store buf off (take maxLen v) \<bind> (\<lambda>b. Some (b, off + min maxLen (length v), min maxLen (length v)))"
proof (induction buf off maxLen v rule: copy_loop.induct)
  case (3 buf off n c cs)
  have "copy_loop buf off (Suc n) (c # cs) =
      store buf off [c] \<bind> (\<lambda>b. store b (off + 1) (take n cs) \<bind> (\<lambda>b. Some (b, off + 1 + min n (length cs), min n (length cs) + 1)))"
    using 3 by (cases "store buf off [c]") (simp_all add: Option.bind_assoc)
  then show ?case using store_then [of buf off "[c]" "take n cs"] by simp
qed (simp_all add: store_def)

lemma copy_overrun: "length buf = maxLen \<Longrightarrow> maxLen \<le> length value \<Longrightarrow> wmFastCopyAndShiftStr buf 0 maxLen value = None"
  by (simp add: wmFastCopyAndShiftStr_def copy_loop_run store_def)

text \<open>Bounded copying keeps within the size, and cuts the text.\<close>

lemma wmStrSizeCpy_run:
  assumes "0 < siz" and "off + siz \<le> length dst" and "NUL \<notin> set src"
  obtains b where "wmStrSizeCpy dst off src siz = Some (b, min (length src) (siz - 1))" and "c_string b off = take (siz - 1) src"
proof -
  have "\<exists>b. store dst off (take (siz - 1) src @ [NUL]) = Some b" using assms(1,2) by (simp add: store_def)
  then obtain b where b: "store dst off (take (siz - 1) src @ [NUL]) = Some b" ..
  have "wmStrSizeCpy dst off src siz = Some (b, min (length src) (siz - 1))"
  proof (cases "length src < siz")
    case True
    then show ?thesis using b by (simp add: wmStrSizeCpy_def)
  next
    case False
    then show ?thesis using assms(1) b store_store [of dst off "take (siz - 1) src" "[NUL]"] store_then [of dst off "take (siz - 1) src" "[NUL]"]
      by (simp add: wmStrSizeCpy_def wmMemCpy_def)
  qed
  moreover have "c_string b off = take (siz - 1) src" using c_string_store [OF b] assms(3) by (meson in_set_takeD)
  ultimately show ?thesis by (rule that)
qed

text \<open>The memory of a growing string has the blocks that the next call assumes.\<close>

definition grown :: "char list option \<Rightarrow> string \<Rightarrow> bool" where
  "grown s t \<longleftrightarrow> (case s of None \<Rightarrow> t = [] | Some b \<Rightarrow> NUL \<in> set b \<and> c_string b 0 = t \<and> ((length t + 1) div 100 + 1) * 100 \<le> length b)"

lemma grown_append:
  assumes "grown (Some b) t" and "NUL \<notin> set ct" and "mem = (\<lambda>n. True)"
  shows "\<exists>b'. strcatAlloc mem (Some b) (Some ct) = Some (0, Some b') \<and> grown (Some b') (t @ ct)"
proof -
  let ?r = "(length t + length ct + 1) div 100 + 1" and ?c = "(length t + 1) div 100 + 1"
  define b1 where "b1 = (if ?r > ?c then take (?r * 100) b @ replicate (?r * 100 - length b) NUL else b)"
  have t: "c_string b 0 = t" "?c * 100 \<le> length b" "NUL \<in> set b" using assms(1) by (simp_all add: grown_def)
  then have tb: "t = takeWhile (\<lambda>c. c \<noteq> NUL) b" by (simp add: c_string_def)
  have d: "m < (m div 100 + 1) * 100" for m :: nat using dividend_less_times_div [of 100 m] by simp
  have c: "length t + 1 < ?c * 100" "length t + length ct + 1 < ?r * 100" using d by blast+
  have "take (length t) b = t" using tb by (metis takeWhile_eq_take take_take min.idem)
  moreover have "length t \<le> ?r * 100" using c(2) by linarith
  moreover have "length t \<le> length b" using c(1) t(2) by linarith
  ultimately have pre: "take (length t) b1 = t" by (simp add: b1_def min_def)
  have "?r * 100 \<le> length b1" using t(2) by (auto simp: b1_def)
  then have fits: "length t + (length ct + 1) \<le> length b1" using c(2) by linarith
  then have st: "store b1 (length t) (ct @ [NUL]) = Some (t @ ct @ [NUL] @ drop (length t + (length ct + 1)) b1)" by (simp add: store_def pre)
  let ?b = "t @ ct @ [NUL] @ drop (length t + (length ct + 1)) b1"
  have "NUL \<notin> set t" unfolding tb by (metis (mono_tags) set_takeWhileD)
  then have "takeWhile (\<lambda>c. c \<noteq> NUL) ((t @ ct) @ NUL # drop (length t + (length ct + 1)) b1) = t @ ct"
    using assms(2) by (subst takeWhile_append2) auto
  moreover have "length ?b = length b1" using fits by simp
  ultimately have "grown (Some ?b) (t @ ct)" using \<open>?r * 100 \<le> length b1\<close> by (simp add: grown_def c_string_def)
  moreover have "strcatAlloc mem (Some b) (Some ct) = store b1 (length t) (ct @ [NUL]) \<bind> (\<lambda>b. Some (0, Some b))"
    by (simp only: strcatAlloc_def option.case t(1) assms(3) Let_def b1_def simp_thms if_False)
  then have "strcatAlloc mem (Some b) (Some ct) = Some (0, Some ?b)" by (simp add: st)
  ultimately show ?thesis by blast
qed

text \<open>Any number of concatenations gives the concatenation of the texts, and never writes outside of the memory.\<close>

lemma grown_new: "mem = (\<lambda>n. True) \<Longrightarrow> strcatAlloc mem None (Some ct) = strcatAlloc mem (Some (replicate 100 NUL)) (Some ct)"
  "grown (Some (replicate 100 NUL)) []"
proof -
  show "mem = (\<lambda>n. True) \<Longrightarrow> strcatAlloc mem None (Some ct) = strcatAlloc mem (Some (replicate 100 NUL)) (Some ct)" by (simp add: strcatAlloc_def)
  have "takeWhile (\<lambda>c. c \<noteq> NUL) (replicate 100 NUL) = []" by (simp add: takeWhile_eq_Nil_iff)
  then show "grown (Some (replicate 100 NUL)) []" by (simp add: grown_def c_string_def)
qed

fun strcat_all :: "char list option \<Rightarrow> string list \<Rightarrow> char list option option" where
  "strcat_all s [] = Some s"
| "strcat_all s (ct # cts) = do { (r, s) \<leftarrow> strcatAlloc (\<lambda>n. True) s (Some ct); strcat_all s cts }"

lemma strcat_all_run:
  assumes "grown s t" and "\<forall>ct \<in> set cts. NUL \<notin> set ct"
  shows "\<exists>s'. strcat_all s cts = Some s' \<and> grown s' (t @ concat cts)"
  using assms
proof (induction cts arbitrary: s t)
  case (Cons ct cts)
  have n: "NUL \<notin> set ct" using Cons.prems(2) by simp
  have "\<exists>b'. strcatAlloc (\<lambda>n. True) s (Some ct) = Some (0, Some b') \<and> grown (Some b') (t @ ct)"
  proof (cases s)
    case None
    then show ?thesis using grown_append [OF grown_new(2) n refl] grown_new(1) [OF refl] Cons.prems(1) by (simp add: grown_def)
  next
    case (Some b)
    then show ?thesis using grown_append [OF _ n refl] Cons.prems(1) by simp
  qed
  then obtain b' where "strcatAlloc (\<lambda>n. True) s (Some ct) = Some (0, Some b')" "grown (Some b') (t @ ct)" by blast
  with Cons.IH [of "Some b'" "t @ ct"] Cons.prems(2) show ?case by simp
qed simp

text \<open>Allocating a text of less than \<open>2 ^ 30\<close> characters returns it, if there is memory.\<close>

lemma printf_loop_run:
  assumes "\<forall>k. mem k" and "int (length t) < 2 ^ 30" and "0 < n0"
  shows "printf_loop mem t n0 = Some (Some t)"
  using assms(3)
proof (induction "nat (2 ^ 30 - n0)" arbitrary: n0 rule: less_induct)
  case less
  show ?case
  proof (cases "int (length t) < n0")
    case True
    then show ?thesis by (simp add: printf_loop.simps)
  next
    case False
    with assms(2) less.prems have "nat (2 ^ 30 - n0 * 2) < nat (2 ^ 30 - n0)" "n0 * 2 < 2 ^ 31" by auto
    with less.hyps [of "n0 * 2"] less.prems False assms(1) show ?thesis by (subst printf_loop.simps) simp
  qed
qed

lemma printfAlloc_run: "\<forall>n. mem n \<Longrightarrow> int (length t) < 2 ^ 30 \<Longrightarrow> printfAlloc mem (Some t) = Some (Some t)"
  by (simp add: printfAlloc_def printf_loop_run)

text \<open>Rounding up the decimals is not carried over to the integral part: \<open>0.9999\<close> with two places gives \<open>0.1\<close>.\<close>

lemma decimals_carry_lost:
  "map_option (\<lambda>(b, n). (c_string b 0, n)) (wmFastPrintF64 (replicate 12 NUL) 0 12 (9999 / 10000) 2) = Some (''0.1'', 3)"
  by code_simp

end
