(* ===== verification/MsgQualifier.thy ===== *)
theory MsgQualifier
  imports StrUtils
begin

text \<open>
  Message qualifiers, \<open>msgqualifier.c\<close>: five flags in a 16-bit word, and their text. A qualifier handle is an optional word; the operations
  return the status and the changed qualifier. The text is assembled in a buffer of 200 bytes on the stack (whose bytes other than the first are
  not initialised: the argument \<open>junk\<close>) and copied to the buffer of the caller; \<open>None\<close> is a write outside of one of the two.
\<close>

unbundle bit_operations_syntax

definition MAMA_MSG_QUAL_MAX_STR_LEN :: nat where "MAMA_MSG_QUAL_MAX_STR_LEN = 100"

definition MAMA_MSG_QUAL_POSSIBLY_DUPLICATE :: u16 where "MAMA_MSG_QUAL_POSSIBLY_DUPLICATE = 0x1"

definition MAMA_MSG_QUAL_DEFINITELY_DUPLICATE :: u16 where "MAMA_MSG_QUAL_DEFINITELY_DUPLICATE = 0x2"

definition MAMA_MSG_QUAL_POSSIBLY_DELAYED :: u16 where "MAMA_MSG_QUAL_POSSIBLY_DELAYED = 0x4"

definition MAMA_MSG_QUAL_DEFINITELY_DELAYED :: u16 where "MAMA_MSG_QUAL_DEFINITELY_DELAYED = 0x8"

definition MAMA_MSG_QUAL_OUT_OF_SEQUENCE :: u16 where "MAMA_MSG_QUAL_OUT_OF_SEQUENCE = 0x10"

lemmas qual_masks = MAMA_MSG_QUAL_POSSIBLY_DUPLICATE_def MAMA_MSG_QUAL_DEFINITELY_DUPLICATE_def MAMA_MSG_QUAL_POSSIBLY_DELAYED_def
  MAMA_MSG_QUAL_DEFINITELY_DELAYED_def MAMA_MSG_QUAL_OUT_OF_SEQUENCE_def

record mamaMsgQualImpl =
  qualValue :: u16

subsection \<open>Operations on the flags\<close>

definition mamaMsgQual_create :: "bool \<Rightarrow> mama_status \<times> mamaMsgQualImpl option" where
  "mamaMsgQual_create calloc = (if calloc then (MAMA_STATUS_OK, Some \<lparr>qualValue = 0\<rparr>) else (MAMA_STATUS_NOMEM, None))"

text \<open>An operation that changes a qualifier.\<close>

definition on_qual :: "(mamaMsgQualImpl \<Rightarrow> mamaMsgQualImpl) \<Rightarrow> mamaMsgQualImpl option \<Rightarrow> mama_status \<times> mamaMsgQualImpl option" where
  "on_qual f msgQual = (case msgQual of None \<Rightarrow> (MAMA_STATUS_NULL_ARG, None) | Some self \<Rightarrow> (MAMA_STATUS_OK, Some (f self)))"

definition mamaMsgQual_destroy :: "mamaMsgQualImpl option \<Rightarrow> mama_status" where
  "mamaMsgQual_destroy msgQual = (if msgQual = None then MAMA_STATUS_NULL_ARG else MAMA_STATUS_OK)"

definition mamaMsgQual_clear :: "mamaMsgQualImpl option \<Rightarrow> mama_status \<times> mamaMsgQualImpl option" where
  "mamaMsgQual_clear = on_qual (\<lambda>self. self\<lparr>qualValue := 0\<rparr>)"

definition mamaMsgQual_copy :: "mamaMsgQualImpl option \<Rightarrow> mamaMsgQualImpl option \<Rightarrow> mama_status \<times> mamaMsgQualImpl option" where
  "mamaMsgQual_copy dest src =
    (case src of None \<Rightarrow> (MAMA_STATUS_NULL_ARG, dest) | Some src \<Rightarrow> on_qual (\<lambda>dest. dest\<lparr>qualValue := qualValue src\<rparr>) dest)"

text \<open>The comparison returns 5, the code of \<open>MAMA_STATUS_NULL_ARG\<close>, when an argument is null.\<close>

definition mamaMsgQual_equal :: "mamaMsgQualImpl option \<Rightarrow> mamaMsgQualImpl option \<Rightarrow> int" where
  "mamaMsgQual_equal lhs rhs =
    (case (lhs, rhs) of
       (Some lhs, Some rhs) \<Rightarrow> if qualValue lhs = qualValue rhs then 1 else 0
     | _ \<Rightarrow> 5)"

definition mamaMsgQual_setValue :: "mamaMsgQualImpl option \<Rightarrow> u16 \<Rightarrow> mama_status \<times> mamaMsgQualImpl option" where
  "mamaMsgQual_setValue msgQual v = on_qual (\<lambda>self. self\<lparr>qualValue := v\<rparr>) msgQual"

definition set_flag :: "u16 \<Rightarrow> mamaMsgQualImpl option \<Rightarrow> int \<Rightarrow> mama_status \<times> mamaMsgQualImpl option" where
  "set_flag flag msgQual state =
    on_qual (\<lambda>self. if state = 0 then self\<lparr>qualValue := qualValue self AND NOT flag\<rparr> else self\<lparr>qualValue := qualValue self OR flag\<rparr>) msgQual"

definition mamaMsgQual_setIsDefinitelyDuplicate :: "mamaMsgQualImpl option \<Rightarrow> int \<Rightarrow> mama_status \<times> mamaMsgQualImpl option" where
  "mamaMsgQual_setIsDefinitelyDuplicate = set_flag MAMA_MSG_QUAL_DEFINITELY_DUPLICATE"

definition mamaMsgQual_setIsPossiblyDuplicate :: "mamaMsgQualImpl option \<Rightarrow> int \<Rightarrow> mama_status \<times> mamaMsgQualImpl option" where
  "mamaMsgQual_setIsPossiblyDuplicate = set_flag MAMA_MSG_QUAL_POSSIBLY_DUPLICATE"

definition mamaMsgQual_setIsDefinitelyDelayed :: "mamaMsgQualImpl option \<Rightarrow> int \<Rightarrow> mama_status \<times> mamaMsgQualImpl option" where
  "mamaMsgQual_setIsDefinitelyDelayed = set_flag MAMA_MSG_QUAL_DEFINITELY_DELAYED"

definition mamaMsgQual_setIsPossiblyDelayed :: "mamaMsgQualImpl option \<Rightarrow> int \<Rightarrow> mama_status \<times> mamaMsgQualImpl option" where
  "mamaMsgQual_setIsPossiblyDelayed = set_flag MAMA_MSG_QUAL_POSSIBLY_DELAYED"

definition mamaMsgQual_setIsOutOfSequence :: "mamaMsgQualImpl option \<Rightarrow> int \<Rightarrow> mama_status \<times> mamaMsgQualImpl option" where
  "mamaMsgQual_setIsOutOfSequence = set_flag MAMA_MSG_QUAL_OUT_OF_SEQUENCE"

definition get_flag :: "u16 \<Rightarrow> mamaMsgQualImpl option \<Rightarrow> mama_status + int" where
  "get_flag flag msgQual = (case msgQual of None \<Rightarrow> Inl MAMA_STATUS_NULL_ARG | Some self \<Rightarrow> Inr (uint (qualValue self AND flag)))"

definition mamaMsgQual_getIsDefinitelyDuplicate :: "mamaMsgQualImpl option \<Rightarrow> mama_status + int" where
  "mamaMsgQual_getIsDefinitelyDuplicate = get_flag MAMA_MSG_QUAL_DEFINITELY_DUPLICATE"

definition mamaMsgQual_getIsPossiblyDuplicate :: "mamaMsgQualImpl option \<Rightarrow> mama_status + int" where
  "mamaMsgQual_getIsPossiblyDuplicate = get_flag MAMA_MSG_QUAL_POSSIBLY_DUPLICATE"

definition mamaMsgQual_getIsDefinitelyDelayed :: "mamaMsgQualImpl option \<Rightarrow> mama_status + int" where
  "mamaMsgQual_getIsDefinitelyDelayed = get_flag MAMA_MSG_QUAL_DEFINITELY_DELAYED"

definition mamaMsgQual_getIsPossiblyDelayed :: "mamaMsgQualImpl option \<Rightarrow> mama_status + int" where
  "mamaMsgQual_getIsPossiblyDelayed = get_flag MAMA_MSG_QUAL_POSSIBLY_DELAYED"

definition mamaMsgQual_getIsOutOfSequence :: "mamaMsgQualImpl option \<Rightarrow> mama_status + int" where
  "mamaMsgQual_getIsOutOfSequence = get_flag MAMA_MSG_QUAL_OUT_OF_SEQUENCE"

definition mamaMsgQual_getValue :: "mamaMsgQualImpl option \<Rightarrow> mama_status + u16" where
  "mamaMsgQual_getValue msgQual = (case msgQual of None \<Rightarrow> Inl MAMA_STATUS_NULL_ARG | Some self \<Rightarrow> Inr (qualValue self))"

subsection \<open>The text\<close>

definition strcat :: "char list \<Rightarrow> string \<Rightarrow> char list option" where
  "strcat buf s = store buf (length (c_string buf 0)) (s @ [NUL])"

definition add_token :: "u16 \<Rightarrow> string \<Rightarrow> u16 \<Rightarrow> string \<Rightarrow> char list \<Rightarrow> char list option" where
  "add_token v delim flag token tmpBuf =
    (if v AND flag \<noteq> 0 then do { tmpBuf \<leftarrow> strcat tmpBuf token; strcat tmpBuf delim } else Some tmpBuf)"

definition mamaMsgQual_valueToString :: "char list \<Rightarrow> u16 \<Rightarrow> string option \<Rightarrow> char list option \<Rightarrow> nat \<Rightarrow> (mama_status \<times> char list option) option" where
  "mamaMsgQual_valueToString junk v delimiter buf bufMaxLen =
    (let tmpBuf = NUL # take (2 * MAMA_MSG_QUAL_MAX_STR_LEN - 1) junk in
     case buf of
       None \<Rightarrow> Some (MAMA_STATUS_NULL_ARG, None)
     | Some buf \<Rightarrow>
         do { let delim = (case delimiter of None \<Rightarrow> '' : '' | Some d \<Rightarrow> d);
              tmpBuf \<leftarrow> add_token v delim MAMA_MSG_QUAL_DEFINITELY_DUPLICATE ''Definately Duplicate'' tmpBuf;
              tmpBuf \<leftarrow> add_token v delim MAMA_MSG_QUAL_POSSIBLY_DUPLICATE ''Possibly duplicate'' tmpBuf;
              tmpBuf \<leftarrow> add_token v delim MAMA_MSG_QUAL_DEFINITELY_DELAYED ''Definately delayed'' tmpBuf;
              tmpBuf \<leftarrow> add_token v delim MAMA_MSG_QUAL_POSSIBLY_DELAYED ''Possibly delayed'' tmpBuf;
              tmpBuf \<leftarrow> add_token v delim MAMA_MSG_QUAL_OUT_OF_SEQUENCE ''Out of sequence'' tmpBuf;
              let tmpSize = (of_nat (length (c_string tmpBuf 0)) - of_nat (length delim) :: u64);
              tmpBuf \<leftarrow> store tmpBuf (unat tmpSize) [NUL];
              (status, tmpBuf) \<leftarrow>
                (if unat tmpSize \<ge> bufMaxLen then do { tmpBuf \<leftarrow> store tmpBuf bufMaxLen [NUL]; Some (MAMA_STATUS_NOMEM, tmpBuf) }
                 else Some (MAMA_STATUS_OK, tmpBuf));
              buf \<leftarrow> store buf 0 (c_string tmpBuf 0 @ [NUL]);
              Some (status, Some buf) })"

definition mamaMsgQual_getAsString :: "char list \<Rightarrow> mamaMsgQualImpl option \<Rightarrow> string option \<Rightarrow> char list option \<Rightarrow> nat \<Rightarrow> (mama_status \<times> char list option) option" where
  "mamaMsgQual_getAsString junk msgQual delimiter buf bufMaxLen =
    (case (mamaMsgQual_getValue msgQual, buf) of
       (Inr v, Some buf) \<Rightarrow> mamaMsgQual_valueToString junk v delimiter (Some buf) bufMaxLen
     | _ \<Rightarrow> Some (MAMA_STATUS_NULL_ARG, buf))"

subsection \<open>Texts in buffers\<close>

text \<open>A buffer that holds a string.\<close>

definition holds :: "char list \<Rightarrow> string \<Rightarrow> bool" where
  "holds b t \<longleftrightarrow> NUL \<notin> set t \<and> take (length t + 1) b = t @ [NUL]"

lemma holds_c_string: "holds b t \<Longrightarrow> c_string b 0 = t"
proof -
  assume h: "holds b t"
  then have "b = t @ NUL # drop (length t + 1) b" by (metis append.assoc append_Cons append_Nil append_take_drop_id holds_def)
  then have "takeWhile (\<lambda>c. c \<noteq> NUL) b = takeWhile (\<lambda>c. c \<noteq> NUL) (t @ NUL # drop (length t + 1) b)" by simp
  also have "\<dots> = t" using h by (subst takeWhile_append2) (auto simp: holds_def)
  finally show "c_string b 0 = t" by (simp add: c_string_def)
qed

lemma holds_length: "holds b t \<Longrightarrow> length t < length b"
  by (metis Suc_eq_plus1 holds_def length_append_singleton length_take lessI min.strict_boundedE)

lemma holds_store:
  assumes "holds b t" and "n \<le> length t" and "NUL \<notin> set s" and "n + length s < length b"
  shows "\<exists>b'. store b n (s @ [NUL]) = Some b' \<and> holds b' (take n t @ s) \<and> length b' = length b"
proof -
  have "take n b = take n t" using assms(1,2) by (metis holds_def le_SucI min.absorb1 Suc_eq_plus1 take_append take_take diff_is_0_eq take0 append_Nil2)
  moreover have "NUL \<notin> set (take n t)" using assms(1) by (meson holds_def in_set_takeD)
  ultimately show ?thesis using assms(2-4) by (auto simp: store_def holds_def min_def)
qed

lemma strcat_run: "holds b t \<Longrightarrow> NUL \<notin> set s \<Longrightarrow> length t + length s < length b \<Longrightarrow> \<exists>b'. strcat b s = Some b' \<and> holds b' (t @ s) \<and> length b' = length b"
  using holds_store [of b t "length t" s] by (simp add: strcat_def holds_c_string)

lemma add_token_run:
  assumes "holds b t" and "NUL \<notin> set token" and "NUL \<notin> set delim" and "length t + length token + length delim < length b"
  shows "\<exists>b'. add_token v delim flag token b = Some b' \<and> holds b' (t @ (if v AND flag \<noteq> 0 then token @ delim else [])) \<and> length b' = length b"
proof (cases "v AND flag = 0")
  case False
  obtain b1 where "strcat b token = Some b1" "holds b1 (t @ token)" "length b1 = length b" using strcat_run [OF assms(1,2)] assms(4) by auto
  with strcat_run [of b1 "t @ token" delim] assms(3,4) False show ?thesis by (auto simp: add_token_def)
qed (simp add: add_token_def assms(1))

text \<open>The names of the flags of a word, and their text.\<close>

definition flag_names :: "u16 \<Rightarrow> string list" where
  "flag_names v = map snd (filter (\<lambda>(flag, name). v AND flag \<noteq> 0)
     [(MAMA_MSG_QUAL_DEFINITELY_DUPLICATE, ''Definately Duplicate''), (MAMA_MSG_QUAL_POSSIBLY_DUPLICATE, ''Possibly duplicate''),
      (MAMA_MSG_QUAL_DEFINITELY_DELAYED, ''Definately delayed''), (MAMA_MSG_QUAL_POSSIBLY_DELAYED, ''Possibly delayed''),
      (MAMA_MSG_QUAL_OUT_OF_SEQUENCE, ''Out of sequence'')])"

fun join :: "string \<Rightarrow> string list \<Rightarrow> string" where
  "join d [] = []"
| "join d [x] = x"
| "join d (x # y # zs) = x @ d @ join d (y # zs)"

lemma join_delimited: "xs \<noteq> [] \<Longrightarrow> concat (map (\<lambda>x. x @ d) xs) = join d xs @ d"
  by (induction d xs rule: join.induct) auto

definition delim_of :: "string option \<Rightarrow> string" where
  "delim_of delimiter = (case delimiter of None \<Rightarrow> '' : '' | Some d \<Rightarrow> d)"

text \<open>The part that collects the tokens.\<close>

definition tokens :: "char list \<Rightarrow> u16 \<Rightarrow> string \<Rightarrow> char list option" where
  "tokens junk v delim =
    do { b \<leftarrow> add_token v delim MAMA_MSG_QUAL_DEFINITELY_DUPLICATE ''Definately Duplicate'' (NUL # take (2 * MAMA_MSG_QUAL_MAX_STR_LEN - 1) junk);
         b \<leftarrow> add_token v delim MAMA_MSG_QUAL_POSSIBLY_DUPLICATE ''Possibly duplicate'' b;
         b \<leftarrow> add_token v delim MAMA_MSG_QUAL_DEFINITELY_DELAYED ''Definately delayed'' b;
         b \<leftarrow> add_token v delim MAMA_MSG_QUAL_POSSIBLY_DELAYED ''Possibly delayed'' b;
         add_token v delim MAMA_MSG_QUAL_OUT_OF_SEQUENCE ''Out of sequence'' b }"

lemma NUL_texts:
  "NUL \<notin> set ''Definately Duplicate''" "NUL \<notin> set ''Possibly duplicate''" "NUL \<notin> set ''Definately delayed''" "NUL \<notin> set ''Possibly delayed''"
  "NUL \<notin> set ''Out of sequence''" "NUL \<notin> set '' : ''"
  by (simp_all add: NUL_def)

lemma tokens_run:
  assumes "199 \<le> length junk" and "NUL \<notin> set d" and "length d \<le> 22"
  shows "\<exists>b. tokens junk v d = Some b \<and> holds b (concat (map (\<lambda>x. x @ d) (flag_names v))) \<and> length b = 200"
proof -
  define u where "u m x = (if v AND m \<noteq> 0 then x @ d else [])" for m and x :: string
  have u: "length (u m x) \<le> length x + length d" for m x by (simp add: u_def)
  let ?b = "NUL # take (2 * MAMA_MSG_QUAL_MAX_STR_LEN - 1) junk"
  have step: "\<exists>b'. add_token v d m x b = Some b' \<and> holds b' (t @ u m x) \<and> length b' = 200"
    if "holds b t" "length b = 200" "NUL \<notin> set x" "length t + length x \<le> 177" for b t m x
    using add_token_run [OF that(1,3) assms(2), of v m] that(2,4) assms(3) by (simp add: u_def)
  let ?m1 = MAMA_MSG_QUAL_DEFINITELY_DUPLICATE and ?m2 = MAMA_MSG_QUAL_POSSIBLY_DUPLICATE and ?m3 = MAMA_MSG_QUAL_DEFINITELY_DELAYED
    and ?m4 = MAMA_MSG_QUAL_POSSIBLY_DELAYED and ?m5 = MAMA_MSG_QUAL_OUT_OF_SEQUENCE
  let ?t1 = "u ?m1 ''Definately Duplicate''" and ?t2 = "u ?m2 ''Possibly duplicate''" and ?t3 = "u ?m3 ''Definately delayed''"
    and ?t4 = "u ?m4 ''Possibly delayed''" and ?t5 = "u ?m5 ''Out of sequence''"
  have l: "length ?t1 \<le> 42" "length ?t2 \<le> 40" "length ?t3 \<le> 40" "length ?t4 \<le> 38"
    using u [of ?m1 "''Definately Duplicate''"] u [of ?m2 "''Possibly duplicate''"] u [of ?m3 "''Definately delayed''"] u [of ?m4 "''Possibly delayed''"] assms(3) by simp_all
  have "holds ?b []" "length ?b = 200" using assms(1) by (simp_all add: holds_def MAMA_MSG_QUAL_MAX_STR_LEN_def)
  from step [OF this NUL_texts(1), of ?m1] obtain b1 where 1: "add_token v d ?m1 ''Definately Duplicate'' ?b = Some b1" "holds b1 ?t1" "length b1 = 200" by auto
  from step [OF 1(2,3) NUL_texts(2), of ?m2] l obtain b2 where 2: "add_token v d ?m2 ''Possibly duplicate'' b1 = Some b2" "holds b2 (?t1 @ ?t2)" "length b2 = 200" by auto
  from step [OF 2(2,3) NUL_texts(3), of ?m3] l obtain b3 where 3: "add_token v d ?m3 ''Definately delayed'' b2 = Some b3" "holds b3 (?t1 @ ?t2 @ ?t3)" "length b3 = 200" by auto
  from step [OF 3(2,3) NUL_texts(4), of ?m4] l obtain b4 where 4: "add_token v d ?m4 ''Possibly delayed'' b3 = Some b4" "holds b4 (?t1 @ ?t2 @ ?t3 @ ?t4)" "length b4 = 200" by auto
  from step [OF 4(2,3) NUL_texts(5), of ?m5] l obtain b5 where 5: "add_token v d ?m5 ''Out of sequence'' b4 = Some b5" "holds b5 (?t1 @ ?t2 @ ?t3 @ ?t4 @ ?t5)" "length b5 = 200" by auto
  have "concat (map (\<lambda>x. x @ d) (flag_names v)) = ?t1 @ ?t2 @ ?t3 @ ?t4 @ ?t5" by (simp add: flag_names_def u_def)
  with 1 2 3 4 5 show ?thesis by (simp add: tokens_def)
qed

text \<open>Conversion to a text with at least one flag: the names, with the delimiter between them, are copied up to \<open>bufMaxLen\<close>
  characters, the terminator comes behind them.\<close>

lemma valueToString_run:
  assumes "199 \<le> length junk" and "NUL \<notin> set (delim_of delimiter)" and "length (delim_of delimiter) \<le> 22" and "flag_names v \<noteq> []"
    and T: "T = join (delim_of delimiter) (flag_names v)"
  shows "mamaMsgQual_valueToString junk v delimiter (Some buf) n =
    store buf 0 (take n T @ [NUL]) \<bind> (\<lambda>b. Some (if length T < n then MAMA_STATUS_OK else MAMA_STATUS_NOMEM, Some b))"
proof -
  let ?d = "delim_of delimiter"
  obtain b where b: "tokens junk v ?d = Some b" "holds b (T @ ?d)" "length b = 200"
    using tokens_run [OF assms(1-3), of v] join_delimited [OF assms(4)] T by auto
  have len: "length T + length ?d < 200" using holds_length [OF b(2)] b(3) by simp
  have sz: "unat (of_nat (length (c_string b 0)) - of_nat (length ?d) :: u64) = length T"
    using len by (simp add: holds_c_string [OF b(2)] unat_of_nat)
  obtain b1 where b1: "store b (length T) [NUL] = Some b1" "holds b1 T" "length b1 = 200"
    using holds_store [OF b(2), of "length T" "[]"] b(3) len by auto
  have b2: "\<exists>b2. store b1 n [NUL] = Some b2 \<and> holds b2 (take n T)" if "n \<le> length T"
    using holds_store [OF b1(2) that, of "[]"] b1(3) len that by auto
  have "mamaMsgQual_valueToString junk v delimiter (Some buf) n = tokens junk v ?d \<bind> (\<lambda>tmpBuf.
      let tmpSize = (of_nat (length (c_string tmpBuf 0)) - of_nat (length ?d) :: u64)
      in store tmpBuf (unat tmpSize) [NUL] \<bind> (\<lambda>tmpBuf.
         (if unat tmpSize \<ge> n then do { tmpBuf \<leftarrow> store tmpBuf n [NUL]; Some (MAMA_STATUS_NOMEM, tmpBuf) } else Some (MAMA_STATUS_OK, tmpBuf)) \<bind> (\<lambda>(status, tmpBuf).
         store buf 0 (c_string tmpBuf 0 @ [NUL]) \<bind> (\<lambda>b. Some (status, Some b)))))"
    by (simp add: mamaMsgQual_valueToString_def tokens_def delim_of_def Let_def Option.bind_assoc)
  then show ?thesis using b1 b2 holds_c_string by (cases "length T < n") (auto simp: b(1) sz)
qed

lemma join_NUL: "NUL \<in> set (join d xs) \<Longrightarrow> NUL \<in> set d \<or> (\<exists>x \<in> set xs. NUL \<in> set x)"
  by (induction d xs rule: join.induct) auto

lemma flag_names_NUL: "x \<in> set (flag_names v) \<Longrightarrow> NUL \<notin> set x"
  by (auto simp: flag_names_def NUL_def split: if_splits)

text \<open>Without any flag the length of the text becomes negative.\<close>

lemma valueToString_empty:
  assumes "199 \<le> length junk" and "NUL \<notin> set (delim_of delimiter)" and "length (delim_of delimiter) \<le> 22" and "delim_of delimiter \<noteq> []" and "flag_names v = []"
  shows "mamaMsgQual_valueToString junk v delimiter (Some buf) n = None"
proof -
  let ?d = "delim_of delimiter" and ?b = "NUL # take (2 * MAMA_MSG_QUAL_MAX_STR_LEN - 1) junk"
  have "add_token v e m x b = Some b" if "m \<in> {MAMA_MSG_QUAL_DEFINITELY_DUPLICATE, MAMA_MSG_QUAL_POSSIBLY_DUPLICATE, MAMA_MSG_QUAL_DEFINITELY_DELAYED,
      MAMA_MSG_QUAL_POSSIBLY_DELAYED, MAMA_MSG_QUAL_OUT_OF_SEQUENCE}" for e m x b
    using that assms(5) by (auto simp: add_token_def flag_names_def split: if_splits)
  moreover have "c_string ?b 0 = []" by (simp add: c_string_def)
  moreover have "store ?b (unat (- of_nat (length ?d) :: u64)) [NUL] = None"
  proof -
    define k where "k = length ?d"
    have k: "0 < k" "k \<le> 22" using assms(3,4) by (simp_all add: k_def)
    then have "of_nat (2 ^ 64 - k) = (of_nat (2 ^ 64) - of_nat k :: u64)" by (intro of_nat_diff) simp
    also have "(of_nat (2 ^ 64) :: u64) = 0" by simp
    finally have "unat (- of_nat k :: u64) = unat (of_nat (2 ^ 64 - k) :: u64)" by simp
    also have "\<dots> = 2 ^ 64 - k" using k by (simp only: unat_of_nat) simp
    finally show ?thesis using k assms(1) by (simp add: store_def k_def MAMA_MSG_QUAL_MAX_STR_LEN_def)
  qed
  ultimately show ?thesis by (simp add: mamaMsgQual_valueToString_def delim_of_def Let_def split: option.splits)
qed

text \<open>C37: the text of a message qualifier with at least one flag is the list of the names of its flags with the delimiter between them, cut to the
  size of the buffer, and the status tells whether it has been cut. The buffer needs a byte more than the size that is passed: a text that
  has to be cut is written behind a buffer of that size. Without any flag the index of the terminator wraps around and the write is outside of the
  temporary buffer.\<close>

theorem qual_text:
  assumes "199 \<le> length junk" and "NUL \<notin> set (delim_of delimiter)" and "length (delim_of delimiter) \<le> 22" and "delim_of delimiter \<noteq> []"
    and "T = join (delim_of delimiter) (flag_names v)"
  shows "(flag_names v \<noteq> [] \<longrightarrow> min (length T) n < length buf \<longrightarrow>
      (\<exists>b. mamaMsgQual_valueToString junk v delimiter (Some buf) n = Some (if length T < n then MAMA_STATUS_OK else MAMA_STATUS_NOMEM, Some b) \<and> c_string b 0 = take n T)) \<and>
    (flag_names v \<noteq> [] \<longrightarrow> length buf = n \<longrightarrow> n \<le> length T \<longrightarrow> mamaMsgQual_valueToString junk v delimiter (Some buf) n = None) \<and>
    (flag_names v = [] \<longrightarrow> mamaMsgQual_valueToString junk v delimiter (Some buf) n = None)"
proof (intro conjI impI)
  assume f: "flag_names v \<noteq> []" and "min (length T) n < length buf"
  then obtain b where b: "store buf 0 (take n T @ [NUL]) = Some b" by (auto simp: store_def min_def split: if_splits)
  have "NUL \<notin> set T" using join_NUL [of "delim_of delimiter" "flag_names v"] assms(2,5) flag_names_NUL by blast
  then have "c_string b 0 = take n T" using c_string_store [OF b] by (meson in_set_takeD)
  then show "\<exists>b. mamaMsgQual_valueToString junk v delimiter (Some buf) n = Some (if length T < n then MAMA_STATUS_OK else MAMA_STATUS_NOMEM, Some b) \<and> c_string b 0 = take n T"
    using valueToString_run [OF assms(1-3) f assms(5)] b by simp
next
  assume "flag_names v \<noteq> []" "length buf = n" "n \<le> length T"
  then show "mamaMsgQual_valueToString junk v delimiter (Some buf) n = None"
    using valueToString_run [OF assms(1-3) _ assms(5)] by (simp add: store_def)
next
  assume "flag_names v = []"
  then show "mamaMsgQual_valueToString junk v delimiter (Some buf) n = None" by (rule valueToString_empty [OF assms(1-4)])
qed

theorem qual_text_witness:
  "\<exists>b. mamaMsgQual_valueToString (replicate 199 (CHR ''x'')) 5 (Some ''/'') (Some (replicate 20 (CHR ''x''))) 19 = Some (MAMA_STATUS_NOMEM, Some b) \<and>
     c_string b 0 = ''Possibly duplicate/''"
proof -
  have "flag_names 5 = [''Possibly duplicate'', ''Possibly delayed'']" by code_simp
  then show ?thesis
    using qual_text [of "replicate 199 (CHR ''x'')" "Some ''/''" "join ''/'' (flag_names 5)" 5 19 "replicate 20 (CHR ''x'')"]
    by (simp add: delim_of_def NUL_def)
qed

text \<open>The flags are independent: setting or clearing one of them is seen by its own getter only.\<close>

lemma qual_flags_independent:
  assumes "i < 16" and "j < 16"
  shows "get_flag (2 ^ j) (snd (set_flag (2 ^ i) (Some q) state)) = (if i = j then Inr (if state = 0 then 0 else 2 ^ i) else get_flag (2 ^ j) (Some q))"
proof -
  have "(w AND NOT (2 ^ i)) AND 2 ^ j = (if i = j then 0 else w AND 2 ^ j)" "(w OR 2 ^ i) AND 2 ^ j = (if i = j then 2 ^ i else w AND 2 ^ j)" for w :: u16
    using assms by (auto intro!: bit_eqI simp: bit_simps)
  moreover have "uint (2 ^ i :: u16) = 2 ^ i" using assms(1) by (auto intro!: bit_eqI simp: bit_simps bit_uint_iff)
  ultimately show ?thesis by (auto simp: get_flag_def set_flag_def on_qual_def)
qed

end
