(* ===== verification/DestroyHandle.thy ===== *)
theory DestroyHandle
  imports Mama_Prelude Transition_Spec
begin

text \<open>
  Destroy handles, \<open>common/c_cpp/src/c/destroyHandle.c\<close>: a counter of the callbacks that still may use an object, which outlives the object. The
  lock is recursive: it has an owner and a depth. A freed handle is \<open>None\<close>; an operation on it is an invalid access, an operation of a thread
  that waits for a lock which is not released any more does not return, and both are the result \<open>None\<close>. A null handle, for which the operations do nothing, is not passed. The pointer to the owner is represented by
  whether it is returned.
\<close>

record wDestroyHandle =
  m_destroyed :: bool
  m_lock :: "(nat \<times> nat) option"
  m_numberReferences :: int

type_synonym handle = "wDestroyHandle option"

definition wlock_lock :: "nat \<Rightarrow> wDestroyHandle \<Rightarrow> wDestroyHandle option" where
  "wlock_lock t h =
    (case m_lock h of
       None \<Rightarrow> Some (h\<lparr>m_lock := Some (t, 1)\<rparr>)
     | Some (o', n) \<Rightarrow> if o' = t then Some (h\<lparr>m_lock := Some (t, n + 1)\<rparr>) else None)"

definition wlock_unlock :: "wDestroyHandle \<Rightarrow> wDestroyHandle" where
  "wlock_unlock h = (case m_lock h of None \<Rightarrow> h | Some (o', n) \<Rightarrow> h\<lparr>m_lock := if n \<le> 1 then None else Some (o', n - 1)\<rparr>)"

definition destroyHandle_create :: "bool \<Rightarrow> handle" where
  "destroyHandle_create calloc = (if calloc then Some \<lparr>m_destroyed = False, m_lock = None, m_numberReferences = 0\<rparr> else None)"

definition destroyHandle_freeHandle :: "wDestroyHandle \<Rightarrow> handle" where
  "destroyHandle_freeHandle h = None"

text \<open>The argument \<open>t\<close> is the thread that calls.\<close>

definition destroyHandle_destroyOwner :: "nat \<Rightarrow> handle \<Rightarrow> handle option" where
  "destroyHandle_destroyOwner t handle =
    do { h \<leftarrow> handle;
         h \<leftarrow> wlock_lock t h;
         Some (if m_numberReferences h = 0 then destroyHandle_freeHandle h else Some (wlock_unlock (h\<lparr>m_destroyed := True\<rparr>))) }"

definition destroyHandle_incrementRefCount :: "nat \<Rightarrow> handle \<Rightarrow> handle option" where
  "destroyHandle_incrementRefCount t handle =
    do { h \<leftarrow> handle;
         h \<leftarrow> wlock_lock t h;
         Some (Some (wlock_unlock (h\<lparr>m_numberReferences := m_numberReferences h + 1\<rparr>))) }"

text \<open>The Boolean says whether the owner is returned. While references to a destroyed owner remain, the lock is kept.\<close>

definition destroyHandle_removeReference :: "nat \<Rightarrow> handle \<Rightarrow> (handle \<times> bool) option" where
  "destroyHandle_removeReference t handle =
    do { h \<leftarrow> handle;
         h \<leftarrow> wlock_lock t h;
         let h = h\<lparr>m_numberReferences := m_numberReferences h - 1\<rparr>;
         Some (if \<not> m_destroyed h then (Some (wlock_unlock h), True)
               else if m_numberReferences h = 0 then (destroyHandle_freeHandle h, False)
               else (Some h, False)) }"

subsection \<open>Life time\<close>

datatype handle_op = Increment nat | Remove nat | DestroyOwner nat

text \<open>The state: the handle and what the removals have returned.\<close>

fun handle_step :: "handle_op \<Rightarrow> handle \<times> bool list \<Rightarrow> (handle \<times> bool list) option" where
  "handle_step (Increment t) (h, rs) = do { h \<leftarrow> destroyHandle_incrementRefCount t h; Some (h, rs) }"
| "handle_step (Remove t) (h, rs) = do { (h, r) \<leftarrow> destroyHandle_removeReference t h; Some (h, rs @ [r]) }"
| "handle_step (DestroyOwner t) (h, rs) = do { h \<leftarrow> destroyHandle_destroyOwner t h; Some (h, rs) }"

text \<open>The contract: the number of references, whether the owner lives, and the results. The handle lives as long as one of them does.\<close>

type_synonym lifetime = "nat \<times> bool \<times> bool list"

fun life_step :: "handle_op \<Rightarrow> lifetime \<Rightarrow> lifetime" where
  "life_step (Increment t) (n, alive, rs) = (n + 1, alive, rs)"
| "life_step (Remove t) (n, alive, rs) = (n - 1, alive, rs @ [alive])"
| "life_step (DestroyOwner t) (n, alive, rs) = (n, False, rs)"

text \<open>References are taken while the owner lives, only existing ones are removed, and the owner is destroyed once. Because of
  the lock that is kept, after that only one thread \<open>\<tau>\<close> may remove references.\<close>

fun life_valid :: "nat \<Rightarrow> handle_op \<Rightarrow> lifetime \<Rightarrow> bool" where
  "life_valid \<tau> (Increment t) (n, alive, rs) = alive"
| "life_valid \<tau> (Remove t) (n, alive, rs) = (0 < n \<and> (alive \<or> t = \<tau>))"
| "life_valid \<tau> (DestroyOwner t) (n, alive, rs) = alive"

fun life_of :: "handle \<times> bool list \<Rightarrow> lifetime" where
  "life_of (None, rs) = (0, False, rs)"
| "life_of (Some h, rs) = (nat (m_numberReferences h), \<not> m_destroyed h, rs)"

definition handle_inv :: "nat \<Rightarrow> handle \<times> bool list \<Rightarrow> bool" where
  "handle_inv \<tau> s =
    (case fst s of
       None \<Rightarrow> True
     | Some h \<Rightarrow> 0 \<le> m_numberReferences h \<and> (if m_destroyed h then 0 < m_numberReferences h \<and> (case m_lock h of None \<Rightarrow> True | Some (t, n) \<Rightarrow> t = \<tau>) else m_lock h = None))"

lemma handle_simulates:
  assumes "handle_inv \<tau> s" and "life_valid \<tau> p (life_of s)"
  shows "\<exists>s'. handle_step p s = Some s' \<and> handle_inv \<tau> s' \<and> life_of s' = life_step p (life_of s)"
proof -
  obtain h rs where s: "s = (Some h, rs)" using assms(2) by (cases s; cases "fst s"; cases p) auto
  show ?thesis
  proof (cases p)
    case (Increment t)
    then show ?thesis using assms by (auto simp: s handle_inv_def destroyHandle_incrementRefCount_def wlock_lock_def wlock_unlock_def nat_add_distrib)
  next
    case (Remove t)
    then show ?thesis using assms
      by (auto simp: s handle_inv_def destroyHandle_removeReference_def wlock_lock_def wlock_unlock_def destroyHandle_freeHandle_def Let_def nat_diff_distrib split: option.splits if_splits)
  next
    case (DestroyOwner t)
    then show ?thesis using assms by (auto simp: s handle_inv_def destroyHandle_destroyOwner_def wlock_lock_def wlock_unlock_def destroyHandle_freeHandle_def)
  qed
qed

interpretation dh: simulation_spec "handle_inv \<tau>" life_of handle_step life_step "life_valid \<tau>" for \<tau>
  by unfold_locales (rule handle_simulates)

text \<open>The contract without the restriction to a thread, as the header documents it, and the threads that remove references of a destroyed owner, in order.\<close>

fun contract :: "handle_op \<Rightarrow> lifetime \<Rightarrow> bool" where
  "contract (Increment t) (n, alive, rs) = alive"
| "contract (Remove t) (n, alive, rs) = (0 < n)"
| "contract (DestroyOwner t) (n, alive, rs) = alive"

fun late :: "bool \<Rightarrow> handle_op list \<Rightarrow> nat list" where
  "late alive [] = []"
| "late alive (Increment t # ps) = late alive ps"
| "late alive (Remove t # ps) = (if alive then [] else [t]) @ late alive ps"
| "late alive (DestroyOwner t # ps) = late False ps"

lemma contract_one_thread:
  "allowed contract life_step ps (n, alive, rs) \<Longrightarrow> set (late alive ps) \<subseteq> {\<tau>} \<Longrightarrow> allowed (life_valid \<tau>) life_step ps (n, alive, rs)"
proof (induction ps arbitrary: n alive rs)
  case (Cons p ps) then show ?case by (cases p) (auto split: if_splits)
qed simp

lemma contract_over: "allowed contract life_step ps (0, False, rs) \<Longrightarrow> ps = []"
proof (cases ps)
  case (Cons p qs) then show "allowed contract life_step ps (0, False, rs) \<Longrightarrow> ps = []" by (cases p) simp_all
qed simp

text \<open>Once a thread keeps the lock, the first removal of another thread blocks.\<close>

lemma late_blocked:
  assumes "allowed contract life_step ps (nat (m_numberReferences h), False, rs)" and "m_destroyed h" and "m_lock h = Some (t, k)" and "0 < m_numberReferences h"
    and "\<not> set (late False ps) \<subseteq> {t}"
  shows "run_ops handle_step ps (Some h, rs) = None"
  using assms
proof (induction ps arbitrary: h rs k)
  case (Cons p ps)
  then obtain t' where p: "p = Remove t'" by (cases p) auto
  show ?case
  proof (cases "t' = t \<and> m_numberReferences h \<noteq> 1")
    case True
    let ?h = "h\<lparr>m_lock := Some (t, k + 1), m_numberReferences := m_numberReferences h - 1\<rparr>"
    have "run_ops handle_step ps (Some ?h, rs @ [False]) = None" using Cons.prems p True by (intro Cons.IH) (auto simp: nat_diff_distrib)
    then show ?thesis using True Cons.prems(2-4) by (simp add: p destroyHandle_removeReference_def wlock_lock_def Let_def)
  next
    case False
    moreover have "ps = []" if "m_numberReferences h = 1" using that Cons.prems(1) contract_over by (auto simp: p)
    ultimately show ?thesis using Cons.prems(3,5) by (auto simp: p destroyHandle_removeReference_def wlock_lock_def)
  qed
qed simp

lemma late_two_threads:
  assumes "allowed contract life_step ps (nat (m_numberReferences h), False, rs)" and "m_destroyed h" and "m_lock h = None" and "0 < m_numberReferences h"
    and "\<nexists>\<tau>. set (late False ps) \<subseteq> {\<tau>}"
  shows "run_ops handle_step ps (Some h, rs) = None"
proof (cases ps)
  case Nil then show ?thesis using assms(5) by simp
next
  case (Cons p qs)
  then obtain t where p: "p = Remove t" using assms(1) by (cases p) auto
  have qs: "qs \<noteq> []" using assms(5) Cons p by auto
  have one: "m_numberReferences h \<noteq> 1" using assms(1) qs contract_over by (auto simp: Cons p)
  let ?h = "h\<lparr>m_lock := Some (t, 1), m_numberReferences := m_numberReferences h - 1\<rparr>"
  have "run_ops handle_step qs (Some ?h, rs @ [False]) = None"
    using assms one by (intro late_blocked [of _ _ _ t 1]) (auto simp: Cons p nat_diff_distrib)
  then show ?thesis using one assms(2-4) by (simp add: Cons p destroyHandle_removeReference_def wlock_lock_def Let_def)
qed

lemma handle_two_threads:
  assumes "allowed contract life_step ps (nat (m_numberReferences h), True, rs)" and "\<not> m_destroyed h" and "m_lock h = None" and "0 \<le> m_numberReferences h"
    and "\<nexists>\<tau>. set (late True ps) \<subseteq> {\<tau>}"
  shows "run_ops handle_step ps (Some h, rs) = None"
  using assms
proof (induction ps arbitrary: h rs)
  case (Cons p ps)
  show ?case
  proof (cases p)
    case (Increment t)
    let ?h = "h\<lparr>m_numberReferences := m_numberReferences h + 1, m_lock := None\<rparr>"
    have "run_ops handle_step ps (Some ?h, rs) = None" using Cons.prems Increment by (intro Cons.IH) (auto simp: nat_add_distrib)
    then show ?thesis using Cons.prems(3) by (simp add: Increment destroyHandle_incrementRefCount_def wlock_lock_def wlock_unlock_def)
  next
    case (Remove t)
    let ?h = "h\<lparr>m_numberReferences := m_numberReferences h - 1, m_lock := None\<rparr>"
    have "run_ops handle_step ps (Some ?h, rs @ [True]) = None" using Cons.prems Remove by (intro Cons.IH) (auto simp: nat_diff_distrib)
    then show ?thesis using Cons.prems(2,3) by (simp add: Remove destroyHandle_removeReference_def wlock_lock_def wlock_unlock_def Let_def)
  next
    case (DestroyOwner t)
    have "ps \<noteq> []" using Cons.prems(5) DestroyOwner by auto
    then have r: "m_numberReferences h \<noteq> 0" using Cons.prems(1) contract_over by (auto simp: DestroyOwner)
    let ?h = "h\<lparr>m_destroyed := True, m_lock := None\<rparr>"
    have "run_ops handle_step ps (Some ?h, rs) = None" using Cons.prems r DestroyOwner by (intro late_two_threads) auto
    then show ?thesis using Cons.prems(3) r by (simp add: DestroyOwner destroyHandle_destroyOwner_def wlock_lock_def wlock_unlock_def)
  qed
qed simp

lemma handle_one_thread:
  assumes "allowed (life_valid \<tau>) life_step ps (0, True, [])" and "fold life_step ps (0, True, []) = (n, alive, rs)"
  shows "\<exists>h. run_ops handle_step ps (destroyHandle_create True, []) = Some (h, rs) \<and> (h = None \<longleftrightarrow> n = 0 \<and> \<not> alive)"
proof -
  let ?s = "(destroyHandle_create True, []) :: handle \<times> bool list"
  have i: "handle_inv \<tau> ?s" "life_of ?s = (0, True, [])" by (simp_all add: destroyHandle_create_def handle_inv_def)
  then obtain h rs' where r: "run_ops handle_step ps ?s = Some (h, rs')" "handle_inv \<tau> (h, rs')" "life_of (h, rs') = (n, alive, rs)"
    using dh.run_simulates [OF i(1), of ps] assms by (metis prod.collapse)
  then show ?thesis by (cases h) (auto simp: handle_inv_def)
qed

text \<open>C29: a destroy handle refines its documented contract exactly for the sequences of operations in which, after the owner has been destroyed, only one thread
  removes references. The contract: references are taken while the owner lives, only existing references are removed, the owner is destroyed once. If the
  removals after the destruction are all by one thread, no operation accesses freed memory or blocks, a removal returns the owner exactly while it lives, and the
  handle is freed exactly when the owner and all references are gone. If they are by two or more threads, which the contract allows, one of them blocks for ever,
  because the lock is kept.\<close>

theorem handle_lifetime:
  assumes "allowed contract life_step ps (0, True, [])" and "fold life_step ps (0, True, []) = (n, alive, rs)"
  shows "if \<exists>\<tau>. set (late True ps) \<subseteq> {\<tau>}
    then \<exists>h. run_ops handle_step ps (destroyHandle_create True, []) = Some (h, rs) \<and> (h = None \<longleftrightarrow> n = 0 \<and> \<not> alive)
    else run_ops handle_step ps (destroyHandle_create True, []) = None"
proof -
  have "run_ops handle_step ps (destroyHandle_create True, []) = None" if "\<nexists>\<tau>. set (late True ps) \<subseteq> {\<tau>}"
    using that assms(1) handle_two_threads [of ps "\<lparr>m_destroyed = False, m_lock = None, m_numberReferences = 0\<rparr>" "[]"] by (simp add: destroyHandle_create_def)
  then show ?thesis using handle_one_thread [OF contract_one_thread [OF assms(1)] assms(2)] by auto
qed

theorem handle_lifetime_witness:
  "(\<exists>h. run_ops handle_step [Increment 1, Increment 2, Remove 1, DestroyOwner 3, Remove 2] (destroyHandle_create True, []) = Some (h, [True, False]) \<and> h = None) \<and>
   run_ops handle_step [Increment 1, Increment 2, DestroyOwner 3, Remove 2, Remove 1] (destroyHandle_create True, []) = None"
proof -
  have "\<exists>\<tau>. {2 :: nat} \<subseteq> {\<tau>}" "\<nexists>\<tau>. {2, 1 :: nat} \<subseteq> {\<tau>}" by auto
  then show ?thesis
    using handle_lifetime [of "[Increment 1, Increment 2, Remove 1, DestroyOwner 3, Remove 2]" 0 False "[True, False]"]
      handle_lifetime [of "[Increment 1, Increment 2, DestroyOwner 3, Remove 2, Remove 1]" 0 False "[False, False]"] by simp
qed

text \<open>The lock is kept by the thread that removes a reference but not the last one of a destroyed owner: another thread blocks for ever.\<close>

lemma handle_lock_kept:
  assumes "m_destroyed h" and "m_lock h = None" and "1 < m_numberReferences h" and "t \<noteq> t'"
  shows "\<exists>h'. destroyHandle_removeReference t (Some h) = Some (Some h', False) \<and> m_lock h' = Some (t, 1) \<and> destroyHandle_removeReference t' (Some h') = None"
  using assms by (auto simp: destroyHandle_removeReference_def wlock_lock_def Let_def)

end
