(* ===== verification/ImageRequest.thy ===== *)
theory ImageRequest
  imports DestroyHandle Complex_Main
begin

text \<open>
  Requests of initial values and recaps, \<open>imagerequest.c\<close>: a request is sent, through the throttle or directly, and repeated when its reply timer
  ticks. The state holds the request (\<open>None\<close> when it has been freed), the destroy handle that its callbacks use, what it reads of its
  subscription, the reply timers that exist, the actions of the request that wait in the throttle, and the calls to other components
  in their order. Messages, timers and actions are numbers. What the other components answer is an environment; the throttle
  either executes an action when it is dispatched (a rate of zero) or keeps it. \<open>None\<close> is an access to freed memory.
  Statistics are left out, and memory for list elements is available. The reference counting of the handle is that of one thread.
\<close>

datatype ir_effect =
    SendFromInbox nat | ForwardMsg nat | EndOfInitials | OnError mama_status | DeactivateSubsc | CancelSubsc | SetLastError bool
  | CreateInbox | DestroyInbox | FreeMsg nat

record imageReqImpl =
  mReplyTimer :: "nat option"
  mWaitingForResponse :: bool
  mImageCount :: int
  mP2PListener :: bool
  mReplyTimeout :: rat
  mRetries :: int
  mRequestMsg :: "nat option"
  mReqCount :: int
  mPendingActions :: "nat list"
  mIsRecapRequest :: bool
  mReplyTimerStart :: rat

record ir_state =
  ireq :: "imageReqImpl option"
  mResponse :: handle
  initialCount :: int
  expectingInitial :: bool
  expectingUpdates :: bool
  subscActivated :: bool
  timers :: "nat list"
  throttled :: "nat list"
  fresh :: nat
  calls :: "ir_effect list"

record ir_env =
  clock :: rat
  clockStatus :: mama_status
  queueStatus :: mama_status
  timerStatus :: mama_status
  inboxStatus :: mama_status
  executes :: bool
  hasTransport :: bool

definition call :: "ir_effect \<Rightarrow> ir_state \<Rightarrow> ir_state" where
  "call e s = s\<lparr>calls := calls s @ [e]\<rparr>"

definition addRef :: "ir_state \<Rightarrow> ir_state option" where
  "addRef s = do { h \<leftarrow> destroyHandle_incrementRefCount 0 (mResponse s); Some (s\<lparr>mResponse := h\<rparr>) }"

definition removeRef :: "ir_state \<Rightarrow> (ir_state \<times> bool) option" where
  "removeRef s = do { (h, owner) \<leftarrow> destroyHandle_removeReference 0 (mResponse s); Some (s\<lparr>mResponse := h\<rparr>, owner) }"

definition setReq :: "(imageReqImpl \<Rightarrow> imageReqImpl) \<Rightarrow> ir_state \<Rightarrow> ir_state" where
  "setReq f s = s\<lparr>ireq := map_option f (ireq s)\<rparr>"

subsection \<open>The reply timer\<close>

text \<open>\<open>mamaTimer_destroy\<close> succeeds for a timer that exists.\<close>

definition imageRequestImpl_checkDestroyReplyTimer :: "ir_env \<Rightarrow> ir_state \<Rightarrow> (ir_state \<times> mama_status) option" where
  "imageRequestImpl_checkDestroyReplyTimer e s =
    do { r \<leftarrow> ireq s;
         (case mReplyTimer r of
            None \<Rightarrow> Some (s, MAMA_STATUS_OK)
          | Some timer \<Rightarrow>
              if clockStatus e \<noteq> MAMA_STATUS_OK then Some (s, clockStatus e)
              else if clock e - mReplyTimerStart r + 1 / 10 < mReplyTimeout r then
                do { let s = setReq (\<lambda>r. r\<lparr>mReplyTimer := None\<rparr>) (s\<lparr>timers := removeAll timer (timers s)\<rparr>);
                     (s, owner) \<leftarrow> removeRef s;
                     Some (s, MAMA_STATUS_OK) }
              else Some (s, MAMA_STATUS_OK)) }"

definition imageRequestImpl_startReplyTimer :: "ir_env \<Rightarrow> ir_state \<Rightarrow> (ir_state \<times> mama_status) option" where
  "imageRequestImpl_startReplyTimer e s =
    do { r \<leftarrow> ireq s;
         if mReplyTimer r \<noteq> None then Some (s, MAMA_STATUS_INVALID_ARG)
         else if queueStatus e \<noteq> MAMA_STATUS_OK then Some (s, queueStatus e)
         else if clockStatus e \<noteq> MAMA_STATUS_OK then Some (s, clockStatus e)
         else
           do { s \<leftarrow> addRef (setReq (\<lambda>r. r\<lparr>mReplyTimerStart := clock e\<rparr>) s);
                if timerStatus e \<noteq> MAMA_STATUS_OK then Some (s, timerStatus e)
                else Some (setReq (\<lambda>r. r\<lparr>mReplyTimer := Some (fresh s)\<rparr>) (s\<lparr>timers := timers s @ [fresh s], fresh := fresh s + 1\<rparr>), MAMA_STATUS_OK) } }"

subsection \<open>Sending and stopping\<close>

text \<open>The action that the throttle executes; a message that is null says that the request has been stopped.\<close>

definition requestAction :: "ir_env \<Rightarrow> nat option \<Rightarrow> ir_state \<Rightarrow> ir_state option" where
  "requestAction e action s =
    do { r \<leftarrow> ireq s;
         let s = (case action of None \<Rightarrow> s | Some a \<Rightarrow> setReq (\<lambda>r. r\<lparr>mPendingActions := remove1 a (mPendingActions r)\<rparr>) s);
         (case mRequestMsg r of
            None \<Rightarrow> Some s
          | Some msg \<Rightarrow>
              do { (s, status) \<leftarrow> imageRequestImpl_startReplyTimer e s;
                   Some (call (SendFromInbox msg) s) }) }"

definition throttleDispatch :: "ir_env \<Rightarrow> bool \<Rightarrow> nat \<Rightarrow> ir_state \<Rightarrow> ir_state option" where
  "throttleDispatch e immediate action s =
    (if executes e then requestAction e (Some action) s
     else Some (s\<lparr>throttled := if immediate then action # throttled s else throttled s @ [action]\<rparr>))"

text \<open>An element is allocated in the list of pending actions and its action dispatched.\<close>

definition dispatchRequest :: "ir_env \<Rightarrow> bool \<Rightarrow> ir_state \<Rightarrow> ir_state option" where
  "dispatchRequest e immediate s =
    throttleDispatch e immediate (fresh s) (setReq (\<lambda>r. r\<lparr>mPendingActions := mPendingActions r @ [fresh s]\<rparr>) (s\<lparr>fresh := fresh s + 1\<rparr>))"

text \<open>\<open>wombatThrottle_removeMessagesFromList\<close>: the nodes of the list of actions are removed from the queue of the throttle, and stay in the list. A
  node that is not in the queue any more has been freed.\<close>

fun removeMessagesFromList :: "nat list \<Rightarrow> nat list \<Rightarrow> nat list option" where
  "removeMessagesFromList [] q = Some q"
| "removeMessagesFromList (a # as) q = (if a \<in> set q then removeMessagesFromList as (remove1 a q) else None)"

definition imageRequest_stopWaitForResponse :: "ir_env \<Rightarrow> ir_state \<Rightarrow> ir_state option" where
  "imageRequest_stopWaitForResponse e s =
    do { (s, status) \<leftarrow> imageRequestImpl_checkDestroyReplyTimer e s;
         r \<leftarrow> ireq s;
         s \<leftarrow> (if mPendingActions r \<noteq> [] then do { q \<leftarrow> removeMessagesFromList (mPendingActions r) (throttled s); Some (s\<lparr>throttled := q\<rparr>) } else Some s);
         let s = setReq (\<lambda>r. r\<lparr>mWaitingForResponse := False, mIsRecapRequest := False, mP2PListener := False, mRequestMsg := None\<rparr>) (s\<lparr>expectingInitial := False\<rparr>);
         let s = (if mP2PListener r then call DestroyInbox s else s);
         Some (case mRequestMsg r of None \<Rightarrow> s | Some msg \<Rightarrow> call (FreeMsg msg) s) }"

definition imageRequest_sendRequest :: "ir_env \<Rightarrow> nat \<Rightarrow> rat \<Rightarrow> int \<Rightarrow> bool \<Rightarrow> bool \<Rightarrow> ir_state \<Rightarrow> (ir_state \<times> mama_status) option" where
  "imageRequest_sendRequest e msg timeout retries throttle isRecapRequest s =
    do { r \<leftarrow> ireq s;
         let s = setReq (\<lambda>r. r\<lparr>mReplyTimeout := timeout, mRetries := retries, mIsRecapRequest := isRecapRequest, mWaitingForResponse := True,
             mReqCount := 0, mRequestMsg := Some msg, mImageCount := 0\<rparr>) (s\<lparr>initialCount := 0\<rparr>);
         let s = (if \<not> mP2PListener r then call CreateInbox (setReq (\<lambda>r. r\<lparr>mP2PListener := inboxStatus e = MAMA_STATUS_OK\<rparr>) s) else s);
         s \<leftarrow> addRef s;
         s \<leftarrow> (if throttle then dispatchRequest e isRecapRequest s else requestAction e None s);
         Some (s, MAMA_STATUS_OK) }"

definition imageRequest_isWaitingForResponse :: "ir_state \<Rightarrow> bool option" where
  "imageRequest_isWaitingForResponse s = map_option mWaitingForResponse (ireq s)"

definition imageRequest_isRecapRequest :: "ir_state \<Rightarrow> bool option" where
  "imageRequest_isRecapRequest s = map_option mIsRecapRequest (ireq s)"

definition imageRequest_cancelRequest :: "ir_env \<Rightarrow> ir_state \<Rightarrow> ir_state option" where
  "imageRequest_cancelRequest e s =
    do { waiting \<leftarrow> imageRequest_isWaitingForResponse s;
         if waiting then imageRequest_stopWaitForResponse e s else Some s }"

subsection \<open>Callbacks\<close>

definition processInitials :: "ir_env \<Rightarrow> ir_state \<Rightarrow> ir_state option" where
  "processInitials e s =
    do { r \<leftarrow> ireq s;
         s \<leftarrow> imageRequest_stopWaitForResponse e s;
         Some (if mIsRecapRequest r then s
               else call EndOfInitials (if expectingUpdates s then s else call DeactivateSubsc s)) }"

definition processRetry :: "ir_env \<Rightarrow> ir_state \<Rightarrow> ir_state option" where
  "processRetry e s =
    do { r \<leftarrow> ireq s;
         if \<not> mWaitingForResponse r then Some s
         else do { s \<leftarrow> dispatchRequest e True s;
                   (s, status) \<leftarrow> imageRequestImpl_startReplyTimer e s;
                   Some s } }"

definition processFailure :: "ir_env \<Rightarrow> ir_state \<Rightarrow> ir_state option" where
  "processFailure e s =
    do { r \<leftarrow> ireq s;
         let isRecap = mIsRecapRequest r;
         s \<leftarrow> imageRequest_stopWaitForResponse e (if isRecap then s else call CancelSubsc s);
         (s, owner) \<leftarrow> removeRef (if isRecap then s else call DeactivateSubsc s);
         Some (call (OnError MAMA_STATUS_TIMEOUT) (call (SetLastError isRecap) s)) }"

definition imageRequestImpl_processTimeout :: "ir_env \<Rightarrow> ir_state \<Rightarrow> ir_state option" where
  "imageRequestImpl_processTimeout e s =
    do { r \<leftarrow> ireq s;
         if \<not> mP2PListener r then Some s
         else if (if mIsRecapRequest r then mImageCount r > 0 else initialCount s > 0) then processInitials e s
         else
           do { let s = setReq (\<lambda>r. r\<lparr>mReqCount := mReqCount r + 1\<rparr>) s;
                if mReqCount r < mRetries r then processRetry e s else processFailure e s } }"

text \<open>The timer that ticks is destroyed; the request is not touched when its owner is gone.\<close>

definition imageRequestImpl_onReplyTimeout :: "ir_env \<Rightarrow> nat \<Rightarrow> ir_state \<Rightarrow> ir_state option" where
  "imageRequestImpl_onReplyTimeout e timer s =
    do { (s, owner) \<leftarrow> removeRef (s\<lparr>timers := removeAll timer (timers s)\<rparr>);
         if owner then imageRequestImpl_processTimeout e (setReq (\<lambda>r. r\<lparr>mReplyTimer := None\<rparr>) s) else Some s }"

definition imageRequestImpl_onInitialMessage :: "nat \<Rightarrow> ir_state \<Rightarrow> ir_state option" where
  "imageRequestImpl_onInitialMessage msg s =
    do { (s, owner) \<leftarrow> removeRef s;
         Some (if owner \<and> subscActivated s then call (ForwardMsg msg) s else s) }"

subsection \<open>Creation and destruction\<close>

definition MAMA_DEFAULT_TIMEOUT :: rat where "MAMA_DEFAULT_TIMEOUT = 30"

definition MAMA_DEFAULT_RETRIES :: int where "MAMA_DEFAULT_RETRIES = 2"

text \<open>Failing allocations, by the number of those that succeed; the request is returned, when the pointer to it has been stored, together
  with the status. When the inbox cannot be created the request is freed although the pointer to it has been stored, and its handle leaks.\<close>

definition imageRequest_create :: "ir_env \<Rightarrow> nat \<Rightarrow> ir_state \<Rightarrow> ir_state \<times> mama_status" where
  "imageRequest_create e allocs s =
    (if allocs < 2 then (s\<lparr>ireq := None\<rparr>, MAMA_STATUS_NOMEM)
     else
       (let r = \<lparr>mReplyTimer = None, mWaitingForResponse = False, mImageCount = 0, mP2PListener = False, mReplyTimeout = MAMA_DEFAULT_TIMEOUT,
             mRetries = MAMA_DEFAULT_RETRIES, mRequestMsg = None, mReqCount = 0, mPendingActions = [], mIsRecapRequest = False, mReplyTimerStart = 0\<rparr>;
            h = destroyHandle_create (allocs > 2);
            s = s\<lparr>ireq := Some r, mResponse := h\<rparr>
        in if h = None then (s, MAMA_STATUS_NOMEM)
           else if inboxStatus e \<noteq> MAMA_STATUS_OK then (s\<lparr>ireq := None\<rparr>, inboxStatus e)
           else (call CreateInbox (setReq (\<lambda>r. r\<lparr>mP2PListener := True\<rparr>) s), MAMA_STATUS_OK)))"

definition imageRequest_destroy :: "ir_env \<Rightarrow> ir_state \<Rightarrow> ir_state option" where
  "imageRequest_destroy e s =
    do { r \<leftarrow> ireq s;
         s \<leftarrow> (if hasTransport e \<and> mWaitingForResponse r then imageRequest_stopWaitForResponse e s else Some s);
         h \<leftarrow> destroyHandle_destroyOwner 0 (mResponse s);
         r \<leftarrow> ireq s;
         let s = s\<lparr>mResponse := h, ireq := None\<rparr>;
         let s = (if mP2PListener r then call DestroyInbox s else s);
         Some (case mRequestMsg r of None \<Rightarrow> s | Some msg \<Rightarrow> call (FreeMsg msg) s) }"

subsection \<open>A request without a reply\<close>

text \<open>The throttle executes what it has queued, and one round: the reply timer ticks, then the throttle executes its actions.\<close>

fun runActions :: "ir_env \<Rightarrow> nat list \<Rightarrow> ir_state \<Rightarrow> ir_state option" where
  "runActions e [] s = Some s"
| "runActions e (a # as) s = do { s \<leftarrow> requestAction e (Some a) s; runActions e as s }"

definition throttleRun :: "ir_env \<Rightarrow> ir_state \<Rightarrow> ir_state option" where
  "throttleRun e s = runActions e (throttled s) (s\<lparr>throttled := []\<rparr>)"

definition reply_round :: "ir_env \<Rightarrow> ir_state \<Rightarrow> ir_state option" where
  "reply_round e s = do { r \<leftarrow> ireq s; t \<leftarrow> mReplyTimer r; s \<leftarrow> imageRequestImpl_onReplyTimeout e t s; throttleRun e s }"

fun reply_rounds :: "ir_env list \<Rightarrow> ir_state \<Rightarrow> ir_state option" where
  "reply_rounds [] s = Some s"
| "reply_rounds (e # es) s = do { s \<leftarrow> reply_round e s; reply_rounds es s }"

definition working :: "ir_env \<Rightarrow> bool" where
  "working e \<longleftrightarrow> clockStatus e = MAMA_STATUS_OK \<and> queueStatus e = MAMA_STATUS_OK \<and> timerStatus e = MAMA_STATUS_OK \<and> inboxStatus e = MAMA_STATUS_OK"

text \<open>A live handle with a number of references.\<close>

definition live :: "int \<Rightarrow> wDestroyHandle" where
  "live n = \<lparr>m_destroyed = False, m_lock = None, m_numberReferences = n\<rparr>"

lemma live_ops:
  "destroyHandle_incrementRefCount 0 (Some (live n)) = Some (Some (live (n + 1)))"
  "destroyHandle_removeReference 0 (Some (live n)) = Some (Some (live (n - 1)), True)"
  by (simp_all add: live_def destroyHandle_incrementRefCount_def destroyHandle_removeReference_def wlock_lock_def wlock_unlock_def)

text \<open>An idle request, and one that waits for a reply with its timer running after \<open>k\<close> repetitions. Two of the references are
  those of the reply and of the timer.\<close>

definition idle :: "int \<Rightarrow> ir_state \<Rightarrow> bool" where
  "idle n s \<longleftrightarrow> mResponse s = Some (live n) \<and> timers s = [] \<and> throttled s = [] \<and>
    (\<exists>r. ireq s = Some r \<and> mReplyTimer r = None \<and> mPendingActions r = [])"

definition awaits :: "nat \<Rightarrow> bool \<Rightarrow> int \<Rightarrow> int \<Rightarrow> int \<Rightarrow> ir_state \<Rightarrow> bool" where
  "awaits m recap retries k n s \<longleftrightarrow> mResponse s = Some (live (2 + n)) \<and> throttled s = [] \<and> initialCount s = 0 \<and>
    (\<exists>r t. ireq s = Some r \<and> mReplyTimer r = Some t \<and> timers s = [t] \<and> mWaitingForResponse r \<and> mImageCount r = 0 \<and> mP2PListener r \<and>
       mRetries r = retries \<and> mRequestMsg r = Some m \<and> mReqCount r = k \<and> mPendingActions r = [] \<and> mIsRecapRequest r = recap)"

lemmas ir_defs = call_def addRef_def removeRef_def setReq_def live_ops working_def Let_def

lemma send_awaits:
  assumes "idle n s" and "working e"
  shows "\<exists>s1 s2. imageRequest_sendRequest e m timeout retries throttle recap s = Some (s1, MAMA_STATUS_OK) \<and> throttleRun e s1 = Some s2 \<and>
    awaits m recap retries 0 n s2 \<and>
    calls s2 = calls s @ (if mP2PListener (the (ireq s)) then [] else [CreateInbox]) @ [SendFromInbox m]"
  using assms
  by (cases "executes e"; cases throttle)
    (auto simp: idle_def awaits_def imageRequest_sendRequest_def dispatchRequest_def throttleDispatch_def requestAction_def imageRequestImpl_startReplyTimer_def throttleRun_def ir_defs)

lemma retry_awaits:
  assumes "awaits m recap retries k n s" and "working e" and "k < retries"
  shows "\<exists>s'. reply_round e s = Some s' \<and> awaits m recap retries (k + 1) n s' \<and> calls s' = calls s @ [SendFromInbox m]"
  using assms
  by (cases "executes e")
    (auto simp: awaits_def reply_round_def imageRequestImpl_onReplyTimeout_def imageRequestImpl_processTimeout_def processRetry_def dispatchRequest_def
      throttleDispatch_def requestAction_def imageRequestImpl_startReplyTimer_def throttleRun_def ir_defs)

definition failure_calls :: "nat \<Rightarrow> bool \<Rightarrow> ir_effect list" where
  "failure_calls m recap = (if recap then [DestroyInbox, FreeMsg m] else [CancelSubsc, DestroyInbox, FreeMsg m, DeactivateSubsc]) @ [SetLastError recap, OnError MAMA_STATUS_TIMEOUT]"

lemma failure_idle:
  assumes "awaits m recap retries k n s" and "working e" and "retries \<le> k"
  shows "\<exists>s'. reply_round e s = Some s' \<and> idle n s' \<and> imageRequest_isWaitingForResponse s' = Some False \<and> calls s' = calls s @ failure_calls m recap"
  using assms
  by (auto simp: awaits_def idle_def reply_round_def imageRequestImpl_onReplyTimeout_def imageRequestImpl_processTimeout_def processFailure_def failure_calls_def
      imageRequest_stopWaitForResponse_def imageRequestImpl_checkDestroyReplyTimer_def throttleRun_def imageRequest_isWaitingForResponse_def ir_defs)

lemma rounds_run:
  assumes "awaits m recap retries k n s" and "length es = nat (retries - k) + 1" and "\<forall>e \<in> set es. working e"
  shows "\<exists>s'. reply_rounds es s = Some s' \<and> idle n s' \<and> imageRequest_isWaitingForResponse s' = Some False \<and>
    calls s' = calls s @ replicate (nat (retries - k)) (SendFromInbox m) @ failure_calls m recap"
  using assms
proof (induction es arbitrary: k s)
  case (Cons e es)
  show ?case
  proof (cases "k < retries")
    case True
    then obtain s1 where s1: "reply_round e s = Some s1" "awaits m recap retries (k + 1) n s1" "calls s1 = calls s @ [SendFromInbox m]"
      using retry_awaits [OF Cons.prems(1)] Cons.prems(3) by auto
    have k: "nat (retries - k) = Suc (nat (retries - (k + 1)))" using True by simp
    then have "length es = nat (retries - (k + 1)) + 1" using Cons.prems(2) by simp
    from Cons.IH [OF s1(2) this] Cons.prems(3) s1 k show ?thesis by auto
  next
    case False
    then have "es = []" "retries \<le> k" using Cons.prems(2) by simp_all
    moreover obtain s' where "reply_round e s = Some s'" "idle n s'" "imageRequest_isWaitingForResponse s' = Some False" "calls s' = calls s @ failure_calls m recap"
      using failure_idle [OF Cons.prems(1)] Cons.prems(3) calculation(2) by auto
    ultimately show ?thesis by simp
  qed
qed simp

text \<open>C26: a request to which nobody replies is sent exactly once more than its retries, whether its actions wait in the throttle or not, and then
  reported by exactly one timeout error; a subscription that waits for its initial value is cancelled and deactivated before that. After that
  the request is idle with all references given back, and can be used again.\<close>

theorem ir_no_reply:
  assumes "idle n s" and "working e" and "\<forall>e \<in> set es. working e" and "0 \<le> retries" and "length es = nat retries + 1"
  shows "\<exists>s1 s2 s3. imageRequest_sendRequest e m timeout retries throttle recap s = Some (s1, MAMA_STATUS_OK) \<and>
    throttleRun e s1 = Some s2 \<and> reply_rounds es s2 = Some s3 \<and> idle n s3 \<and> imageRequest_isWaitingForResponse s3 = Some False \<and>
    calls s3 = calls s @ (if mP2PListener (the (ireq s)) then [] else [CreateInbox]) @ replicate (nat retries + 1) (SendFromInbox m) @ failure_calls m recap"
proof -
  obtain s1 s2 where s: "imageRequest_sendRequest e m timeout retries throttle recap s = Some (s1, MAMA_STATUS_OK)" "throttleRun e s1 = Some s2"
    "awaits m recap retries 0 n s2" "calls s2 = calls s @ (if mP2PListener (the (ireq s)) then [] else [CreateInbox]) @ [SendFromInbox m]"
    using send_awaits [OF assms(1,2)] by blast
  from rounds_run [OF s(3) _ assms(3)] assms(5) obtain s3 where "reply_rounds es s2 = Some s3" "idle n s3" "imageRequest_isWaitingForResponse s3 = Some False"
    "calls s3 = calls s2 @ replicate (nat retries) (SendFromInbox m) @ failure_calls m recap" by auto
  with s show ?thesis by simp
qed

definition ir_good :: "bool \<Rightarrow> ir_env" where
  "ir_good ex = \<lparr>clock = 0, clockStatus = MAMA_STATUS_OK, queueStatus = MAMA_STATUS_OK, timerStatus = MAMA_STATUS_OK, inboxStatus = MAMA_STATUS_OK, executes = ex, hasTransport = True\<rparr>"

definition ir_new :: ir_state where
  "ir_new = fst (imageRequest_create (ir_good True) 4 \<lparr>ireq = None, mResponse = None, initialCount = 0, expectingInitial = True, expectingUpdates = True, subscActivated = True,
     timers = [], throttled = [], fresh = 0, calls = []\<rparr>)"

lemma ir_new_idle: "idle 0 ir_new" "mP2PListener (the (ireq ir_new))" "calls ir_new = [CreateInbox]"
  by (simp_all add: ir_new_def imageRequest_create_def destroyHandle_create_def ir_good_def idle_def live_def ir_defs)

theorem ir_no_reply_witness:
  "\<exists>s1 s2 s3. imageRequest_sendRequest (ir_good False) 7 1 1 True True ir_new = Some (s1, MAMA_STATUS_OK) \<and>
    throttleRun (ir_good False) s1 = Some s2 \<and> reply_rounds [ir_good True, ir_good False] s2 = Some s3 \<and>
    calls s3 = [CreateInbox, SendFromInbox 7, SendFromInbox 7, DestroyInbox, FreeMsg 7, SetLastError True, OnError MAMA_STATUS_TIMEOUT]"
  using ir_no_reply [OF ir_new_idle(1), of "ir_good False" "[ir_good True, ir_good False]" 1 7 1 True True]
  by (simp add: ir_good_def working_def ir_new_idle failure_calls_def numeral_2_eq_2) blast

text \<open>When an initial value has arrived, the timer that ticks completes the request: the end of the initial values is reported, no error.\<close>

lemma ir_initials:
  assumes "awaits m False retries k n (s\<lparr>initialCount := 0\<rparr>)" and "0 < initialCount s" and "working e"
  shows "\<exists>s'. reply_round e s = Some s' \<and> imageRequest_isWaitingForResponse s' = Some False \<and>
    calls s' = calls s @ [DestroyInbox, FreeMsg m] @ (if expectingUpdates s then [] else [DeactivateSubsc]) @ [EndOfInitials]"
  using assms
  by (auto simp: awaits_def reply_round_def imageRequestImpl_onReplyTimeout_def imageRequestImpl_processTimeout_def processInitials_def
      imageRequest_stopWaitForResponse_def imageRequestImpl_checkDestroyReplyTimer_def throttleRun_def imageRequest_isWaitingForResponse_def ir_defs)

subsection \<open>Destruction\<close>

text \<open>C36: a request that is destroyed before its timer has elapsed leaves a handle for one reply: this reply is ignored and frees the handle. A request that
  has been repeated can have several replies, and the next one uses the freed handle.\<close>

theorem ir_late_replies:
  assumes "awaits m recap retries k 0 s" and "clockStatus e = MAMA_STATUS_OK" and "hasTransport e"
    and "\<forall>r. ireq s = Some r \<longrightarrow> clock e - mReplyTimerStart r + 1 / 10 < mReplyTimeout r"
  shows "\<exists>s1 s2. imageRequest_destroy e s = Some s1 \<and> timers s1 = [] \<and> imageRequestImpl_onInitialMessage a s1 = Some s2 \<and>
    calls s2 = calls s1 \<and> mResponse s2 = None \<and> imageRequestImpl_onInitialMessage b s2 = None"
  using assms
  by (auto simp: awaits_def imageRequest_destroy_def imageRequest_stopWaitForResponse_def imageRequestImpl_checkDestroyReplyTimer_def imageRequestImpl_onInitialMessage_def
      destroyHandle_destroyOwner_def destroyHandle_removeReference_def destroyHandle_freeHandle_def live_def wlock_lock_def wlock_unlock_def call_def removeRef_def setReq_def Let_def)

theorem ir_late_replies_witness:
  "\<exists>s s1 s2. imageRequest_sendRequest (ir_good True) 7 1 1 False False ir_new = Some (s, MAMA_STATUS_OK) \<and> imageRequest_destroy (ir_good True) s = Some s1 \<and>
     imageRequestImpl_onInitialMessage 8 s1 = Some s2 \<and> imageRequestImpl_onInitialMessage 9 s2 = None"
proof -
  have g: "working (ir_good True)" by (simp add: working_def ir_good_def)
  obtain s where s: "imageRequest_sendRequest (ir_good True) 7 1 1 False False ir_new = Some (s, MAMA_STATUS_OK)" "throttled s = []"
      "\<forall>r. ireq s = Some r \<longrightarrow> mReplyTimerStart r = 0 \<and> mReplyTimeout r = 1"
    by (simp add: imageRequest_sendRequest_def requestAction_def imageRequestImpl_startReplyTimer_def ir_new_def imageRequest_create_def destroyHandle_create_def
      destroyHandle_incrementRefCount_def wlock_lock_def wlock_unlock_def ir_good_def ir_defs)
  have "throttleRun (ir_good True) s = Some (s\<lparr>throttled := []\<rparr>)" by (simp add: throttleRun_def s(2))
  moreover have "s\<lparr>throttled := []\<rparr> = s" using s(2) by simp
  ultimately have "awaits 7 False 1 0 0 s" using send_awaits [OF ir_new_idle(1) g, of 7 1 1 False False] s(1) by auto
  then show ?thesis using ir_late_replies [of 7 False 1 0 s "ir_good True" 8 9] s by (auto simp: ir_good_def)
qed

text \<open>A request that is stopped while its action waits in the throttle keeps the reference of its reply, and the action stays in the list of pending ones.\<close>

lemma ir_stop_throttled:
  assumes "idle n s" and "working e" and "\<not> executes e"
  shows "\<exists>s1 s2 r. imageRequest_sendRequest e m timeout retries True recap s = Some (s1, MAMA_STATUS_OK) \<and> imageRequest_stopWaitForResponse e s1 = Some s2 \<and> mResponse s2 = Some (live (n + 1)) \<and> timers s2 = [] \<and> throttled s2 = [] \<and>
    ireq s2 = Some r \<and> mPendingActions r = [fresh s] \<and> mReplyTimer r = None"
  using assms
  by (auto simp: idle_def imageRequest_sendRequest_def dispatchRequest_def throttleDispatch_def imageRequest_stopWaitForResponse_def imageRequestImpl_checkDestroyReplyTimer_def ir_defs)

text \<open>The next stop of such a request removes the freed action from the throttle once more.\<close>

lemma ir_stop_again:
  assumes "ireq s = Some r" and "mPendingActions r = a # as" and "a \<notin> set (throttled s)" and "mReplyTimer r = None"
  shows "imageRequest_stopWaitForResponse e s = None"
  using assms by (simp add: imageRequest_stopWaitForResponse_def imageRequestImpl_checkDestroyReplyTimer_def)

text \<open>When the timer cannot be created its reference is not given back.\<close>

lemma ir_timer_failure:
  assumes "idle n s" and "clockStatus e = MAMA_STATUS_OK" and "queueStatus e = MAMA_STATUS_OK" and "timerStatus e \<noteq> MAMA_STATUS_OK"
  shows "\<exists>s1. imageRequestImpl_startReplyTimer e s = Some (s1, timerStatus e) \<and> mResponse s1 = Some (live (n + 1)) \<and> timers s1 = []"
  using assms by (auto simp: idle_def imageRequestImpl_startReplyTimer_def ir_defs)

end
