(* ===== verification/RefreshTransport.thy ===== *)
theory RefreshTransport
  imports Mama_Prelude Transition_Spec Complex_Main
begin

text \<open>
  Refreshing subscriptions, \<open>refreshtransport.c\<close>: a timer walks over the subscriptions of a transport and sends a refresh message for those that are
  due, in the order of two lists: that of the new subscriptions, which are spread over the interval at random, and the main list.
  The lists are the sequences that \<open>list.c\<close> implements; a handle is the number of its subscription. The clock is read many times in one
  walk: its readings are a function of their number. Doubles are exact rationals. \<open>None\<close> is an element that is in no list, or a walk that does not end.
\<close>

record SubscriptionInfo =
  infoHandle :: nat
  mNextRefreshTime :: int
  mIsInMainList :: bool

text \<open>A timer: whether it exists, for the pointer that is kept. The last two components are the refresh messages and the recap requests that have been sent.\<close>

record refreshTransportImpl =
  mRefreshTimer :: "bool option"
  mStaleRecapTimer :: "bool option"
  mStaleRecapTimeout :: int
  mListeners :: "SubscriptionInfo list"
  mNewListeners :: "SubscriptionInfo list"
  refreshes :: "nat list"
  recaps :: "nat list"

definition REFRESH_GRANULARITY :: rat where "REFRESH_GRANULARITY = 1399 / 100"

definition MAMA_REFRESHINTERVALMIN :: rat where "MAMA_REFRESHINTERVALMIN = 5"

definition MAMA_REFRESHINTERVALRAND :: rat where "MAMA_REFRESHINTERVALRAND = 55"

text \<open>The conversion of a double to an integer truncates.\<close>

definition trunc :: "rat \<Rightarrow> int" where
  "trunc x = (if x < 0 then \<lceil>x\<rceil> else \<lfloor>x\<rfloor>)"

text \<open>\<open>time (NULL) + MAMA_REFRESHINTERVALRAND * 60\<close>.\<close>

definition next_refresh :: "int \<Rightarrow> int" where
  "next_refresh now = trunc (of_int now + MAMA_REFRESHINTERVALRAND * 60)"

subsection \<open>Creation, timers and destruction\<close>

definition refreshTransport_startRefreshTimer :: "bool \<Rightarrow> refreshTransportImpl \<Rightarrow> refreshTransportImpl" where
  "refreshTransport_startRefreshTimer ok rt = (if mRefreshTimer rt \<noteq> None \<or> \<not> ok then rt else rt\<lparr>mRefreshTimer := Some True\<rparr>)"

definition refreshTransport_startStaleRecapTimer :: "bool \<Rightarrow> refreshTransportImpl \<Rightarrow> refreshTransportImpl" where
  "refreshTransport_startStaleRecapTimer ok rt =
    (if mStaleRecapTimer rt \<noteq> None then rt
     else if mStaleRecapTimeout rt = 0 then rt
     else if ok then rt\<lparr>mStaleRecapTimer := Some True\<rparr>
     else rt)"

text \<open>\<open>mem\<close> and \<open>timerOk\<close> say whether memory and the timer can be had; the property is the value that \<open>atoi\<close> gives.\<close>

definition refreshTransport_create :: "bool \<Rightarrow> bool \<Rightarrow> int option \<Rightarrow> SubscriptionInfo list \<Rightarrow> refreshTransportImpl option \<times> mama_status" where
  "refreshTransport_create mem timerOk propstring listeners =
    (if \<not> mem then (None, MAMA_STATUS_NOMEM)
     else (Some (refreshTransport_startRefreshTimer timerOk
        \<lparr>mRefreshTimer = None, mStaleRecapTimer = None, mStaleRecapTimeout = (case propstring of None \<Rightarrow> 0 | Some t \<Rightarrow> t),
         mListeners = listeners, mNewListeners = [], refreshes = [], recaps = []\<rparr>), MAMA_STATUS_OK))"

text \<open>The walk over all listeners that asks the doubtful ones for a recap.\<close>

definition refreshTransport_iterateListeners :: "(SubscriptionInfo \<Rightarrow> 'a \<Rightarrow> 'a) \<Rightarrow> refreshTransportImpl \<Rightarrow> 'a \<Rightarrow> 'a" where
  "refreshTransport_iterateListeners cb rt closure = fold cb (mNewListeners rt) (fold cb (mListeners rt) closure)"

definition checkQualityIterator :: "(nat \<Rightarrow> bool) \<Rightarrow> SubscriptionInfo \<Rightarrow> nat list \<Rightarrow> nat list" where
  "checkQualityIterator maybeStale info rs = (if maybeStale (infoHandle info) then rs @ [infoHandle info] else rs)"

text \<open>The timer is destroyed, but the pointer to it is kept.\<close>

definition refreshTransportImpl_staleRecapTimerCallback :: "(nat \<Rightarrow> bool) \<Rightarrow> refreshTransportImpl \<Rightarrow> refreshTransportImpl" where
  "refreshTransportImpl_staleRecapTimerCallback maybeStale rt =
    rt\<lparr>recaps := refreshTransport_iterateListeners (checkQualityIterator maybeStale) rt (recaps rt), mStaleRecapTimer := Some False\<rparr>"

text \<open>What is left of the timers when the transport has been freed.\<close>

definition refreshTransport_destroy :: "refreshTransportImpl \<Rightarrow> bool option \<times> bool option" where
  "refreshTransport_destroy rt = (None, mStaleRecapTimer rt)"

subsection \<open>Adding and removing\<close>

definition refreshTransport_addSubscription :: "int \<Rightarrow> nat \<Rightarrow> refreshTransportImpl \<Rightarrow> refreshTransportImpl" where
  "refreshTransport_addSubscription now h rt =
    rt\<lparr>mNewListeners := mNewListeners rt @ [\<lparr>infoHandle = h, mNextRefreshTime = next_refresh now, mIsInMainList = False\<rparr>]\<rparr>"

definition find_info :: "nat \<Rightarrow> refreshTransportImpl \<Rightarrow> SubscriptionInfo option" where
  "find_info h rt = find (\<lambda>i. infoHandle i = h) (mListeners rt @ mNewListeners rt)"

definition refreshTransport_removeListener :: "nat \<Rightarrow> refreshTransportImpl \<Rightarrow> refreshTransportImpl option" where
  "refreshTransport_removeListener h rt =
    do { info \<leftarrow> find_info h rt;
         Some (if mIsInMainList info then rt\<lparr>mListeners := filter (\<lambda>i. infoHandle i \<noteq> h) (mListeners rt)\<rparr>
               else rt\<lparr>mNewListeners := filter (\<lambda>i. infoHandle i \<noteq> h) (mNewListeners rt)\<rparr>) }"

definition refreshTransport_resetRefreshForListener :: "int \<Rightarrow> nat \<Rightarrow> refreshTransportImpl \<Rightarrow> refreshTransportImpl option" where
  "refreshTransport_resetRefreshForListener now h rt =
    do { info \<leftarrow> find_info h rt;
         rt \<leftarrow> refreshTransport_removeListener h rt;
         Some (rt\<lparr>mListeners := mListeners rt @ [info\<lparr>mIsInMainList := True, mNextRefreshTime := next_refresh now - 1\<rparr>]\<rparr>) }"

definition refreshTransport_numListeners :: "refreshTransportImpl \<Rightarrow> nat" where
  "refreshTransport_numListeners rt = length (mNewListeners rt) + length (mListeners rt)"

subsection \<open>The walk\<close>

text \<open>The loop over the new listeners: the index of the next reading of the clock, the number sent, the lists of moved and of remaining ones.\<close>

fun new_loop :: "(nat \<Rightarrow> int) \<Rightarrow> int \<Rightarrow> int \<Rightarrow> int \<Rightarrow> nat \<Rightarrow> int \<Rightarrow> SubscriptionInfo list \<Rightarrow> nat \<times> SubscriptionInfo list \<times> SubscriptionInfo list" where
  "new_loop tm curTime dontRefreshBefore maxMessages k sent [] = (k, [], [])"
| "new_loop tm curTime dontRefreshBefore maxMessages k sent (cur # rest) =
    (if of_int (mNextRefreshTime cur) > of_int curTime + REFRESH_GRANULARITY \<and> (mNextRefreshTime cur > dontRefreshBefore \<or> sent > maxMessages)
     then (k, [], cur # rest)
     else (case new_loop tm curTime dontRefreshBefore maxMessages (k + 1) (sent + 1) rest of
             (k', moved, rest) \<Rightarrow> (k', cur\<lparr>mNextRefreshTime := next_refresh (tm k), mIsInMainList := True\<rparr> # moved, rest)))"

text \<open>The quota of an interval; \<open>rnd\<close> is the random number between 0 and 1.\<close>

definition max_messages :: "rat \<Rightarrow> int \<Rightarrow> SubscriptionInfo list \<Rightarrow> int" where
  "max_messages rnd curTime infos =
    (let intervals = trunc (of_int (mNextRefreshTime (last infos) - curTime) / REFRESH_GRANULARITY);
         intervals = (if intervals = 0 then 1 else intervals);
         messagesPerInterval = trunc (of_int (int (length infos)) / of_int intervals)
     in trunc (2 * (1 + rnd * of_int messagesPerInterval)))"

definition refreshTransportImpl_processNewSubscriptions :: "(nat \<Rightarrow> int) \<Rightarrow> nat \<Rightarrow> rat \<Rightarrow> refreshTransportImpl \<Rightarrow> nat \<times> refreshTransportImpl" where
  "refreshTransportImpl_processNewSubscriptions tm k rnd rt =
    (let curTime = tm k;
         dontRefreshBefore = trunc (of_int curTime + (MAMA_REFRESHINTERVALRAND - MAMA_REFRESHINTERVALMIN) * 60)
     in if mNewListeners rt = [] \<or> mNextRefreshTime (hd (mNewListeners rt)) > dontRefreshBefore then (k + 1, rt)
        else (case new_loop tm curTime dontRefreshBefore (max_messages rnd curTime (mNewListeners rt)) (k + 1) 0 (mNewListeners rt) of
                (k, moved, rest) \<Rightarrow>
                  (k, rt\<lparr>mListeners := mListeners rt @ moved, mNewListeners := rest, refreshes := refreshes rt @ map infoHandle moved\<rparr>)))"

text \<open>The loop over the main list, which moves the listeners that are due to its end.\<close>

partial_function (option) refresh_loop ::
  "(nat \<Rightarrow> int) \<Rightarrow> int \<Rightarrow> nat \<Rightarrow> SubscriptionInfo list \<Rightarrow> (SubscriptionInfo list \<times> nat list) option" where
  "refresh_loop tm refreshUntil k infos =
    (case infos of
       [] \<Rightarrow> Some ([], [])
     | cur # rest \<Rightarrow>
         if mNextRefreshTime cur > refreshUntil then Some (infos, [])
         else do { (infos, sent) \<leftarrow> refresh_loop tm refreshUntil (k + 1) (rest @ [cur\<lparr>mNextRefreshTime := next_refresh (tm k)\<rparr>]);
                   Some (infos, infoHandle cur # sent) })"

definition refreshTransportImpl_doRefresh :: "(nat \<Rightarrow> int) \<Rightarrow> rat \<Rightarrow> refreshTransportImpl \<Rightarrow> refreshTransportImpl option" where
  "refreshTransportImpl_doRefresh tm rnd rt =
    (let refreshUntil = trunc (of_int (tm 0) + REFRESH_GRANULARITY);
         (k, rt) = refreshTransportImpl_processNewSubscriptions tm 1 rnd rt
     in do { (infos, sent) \<leftarrow> refresh_loop tm refreshUntil k (mListeners rt);
             Some (rt\<lparr>mListeners := infos, refreshes := refreshes rt @ sent\<rparr>) })"

definition refreshTransportImpl_timerCallback :: "(nat \<Rightarrow> int) \<Rightarrow> rat \<Rightarrow> refreshTransportImpl \<Rightarrow> refreshTransportImpl option" where
  "refreshTransportImpl_timerCallback tm rnd rt = refreshTransportImpl_doRefresh tm rnd rt"

subsection \<open>What a walk does\<close>

text \<open>Times that are not negative are truncated downwards.\<close>

lemma next_refresh_eq: "0 \<le> now \<Longrightarrow> next_refresh now = 3300 + now"
  by (simp add: next_refresh_def trunc_def MAMA_REFRESHINTERVALRAND_def)

lemma refresh_until_eq: "0 \<le> now \<Longrightarrow> trunc (of_int now + REFRESH_GRANULARITY) = now + 13"
  by (simp add: trunc_def REFRESH_GRANULARITY_def floor_eq_iff)

lemma dont_refresh_eq: "0 \<le> now \<Longrightarrow> trunc (of_int now + (MAMA_REFRESHINTERVALRAND - MAMA_REFRESHINTERVALMIN) * 60) = now + 3000"
  by (simp add: trunc_def MAMA_REFRESHINTERVALRAND_def MAMA_REFRESHINTERVALMIN_def)

fun renewed :: "(nat \<Rightarrow> int) \<Rightarrow> nat \<Rightarrow> SubscriptionInfo list \<Rightarrow> SubscriptionInfo list" where
  "renewed tm k [] = []"
| "renewed tm k (i # is) = i\<lparr>mNextRefreshTime := next_refresh (tm k)\<rparr> # renewed tm (k + 1) is"

lemma refresh_loop_run:
  assumes "\<forall>k. until < next_refresh (tm k)" and "\<forall>i \<in> set ds. until < mNextRefreshTime i"
  shows "refresh_loop tm until k (xs @ ds) =
    Some (dropWhile (\<lambda>i. mNextRefreshTime i \<le> until) xs @ ds @ renewed tm k (takeWhile (\<lambda>i. mNextRefreshTime i \<le> until) xs),
          map infoHandle (takeWhile (\<lambda>i. mNextRefreshTime i \<le> until) xs))"
  using assms(2)
proof (induction xs arbitrary: k ds)
  case Nil
  then show ?case by (cases ds) (simp_all add: refresh_loop.simps)
next
  case (Cons x xs)
  let ?x = "x\<lparr>mNextRefreshTime := next_refresh (tm k)\<rparr>"
  have "\<forall>i \<in> set (ds @ [?x]). until < mNextRefreshTime i" using Cons.prems assms(1) by simp
  from Cons.IH [OF this] show ?case by (subst refresh_loop.simps) simp
qed

lemma renewed_fields [simp]:
  "map infoHandle (renewed tm k is) = map infoHandle is" "map mIsInMainList (renewed tm k is) = map mIsInMainList is" "length (renewed tm k is) = length is"
  by (induction "is" arbitrary: k) simp_all

lemma renewed_time: "i \<in> set (renewed tm k is) \<Longrightarrow> \<exists>j. k \<le> j \<and> j < k + length is \<and> mNextRefreshTime i = next_refresh (tm j)"
proof (induction "is" arbitrary: k)
  case (Cons x "is")
  show ?case
  proof (cases "i \<in> set (renewed tm (k + 1) is)")
    case True
    then obtain j where "k + 1 \<le> j" "j < k + 1 + length is" "mNextRefreshTime i = next_refresh (tm j)" using Cons.IH by blast
    then show ?thesis by (intro exI [of _ j]) simp
  qed (use Cons.prems in auto)
qed simp

lemma renewed_flags: "(\<forall>i \<in> set (renewed tm k is). mIsInMainList i) \<longleftrightarrow> (\<forall>i \<in> set is. mIsInMainList i)"
  by (induction "is" arbitrary: k) simp_all

text \<open>The order of the main list is kept up to one second.\<close>

definition slack :: "SubscriptionInfo list \<Rightarrow> bool" where
  "slack is = sorted_wrt (\<lambda>a b. mNextRefreshTime a \<le> mNextRefreshTime b + 1) is"

lemma renewed_slack:
  assumes "mono tm" and "\<forall>k. 0 \<le> tm k"
  shows "slack (renewed tm k is)"
proof (induction "is" arbitrary: k)
  case (Cons i "is")
  have "next_refresh (tm k) \<le> mNextRefreshTime j + 1" if j: "j \<in> set (renewed tm (k + 1) is)" for j
  proof -
    obtain l where "l \<ge> k + 1" "mNextRefreshTime j = next_refresh (tm l)" using renewed_time [OF j] by blast
    then show ?thesis using assms(2) monoD [OF assms(1), of k l] by (simp add: next_refresh_eq)
  qed
  then show ?case using Cons.IH [of "k + 1"] by (simp add: slack_def)
qed (simp add: slack_def)

lemma slack_append: "slack (is @ js) \<longleftrightarrow> slack is \<and> slack js \<and> (\<forall>i \<in> set is. \<forall>j \<in> set js. mNextRefreshTime i \<le> mNextRefreshTime j + 1)"
  by (simp add: slack_def sorted_wrt_append)

lemma slack_drop:
  assumes "slack is" and "i \<in> set (dropWhile (\<lambda>i. mNextRefreshTime i \<le> until) is)"
  shows "until \<le> mNextRefreshTime i"
proof -
  obtain y ys where y: "dropWhile (\<lambda>i. mNextRefreshTime i \<le> until) is = y # ys" using assms(2) by (cases "dropWhile (\<lambda>i. mNextRefreshTime i \<le> until) is") auto
  then have "until < mNextRefreshTime y" by (metis hd_dropWhile linorder_not_le list.distinct(1) list.sel(1))
  moreover have "slack (y # ys)" using assms(1) y by (metis slack_append takeWhile_dropWhile_id)
  ultimately show ?thesis using assms(2) y by (auto simp: slack_def)
qed

text \<open>The loop over the new listeners moves a prefix; what remains is not due for 14 seconds.\<close>

definition in_main :: "SubscriptionInfo \<Rightarrow> SubscriptionInfo" where
  "in_main i = i\<lparr>mIsInMainList := True\<rparr>"

lemma in_main_fields [simp]: "infoHandle \<circ> in_main = infoHandle" "infoHandle (in_main i) = infoHandle i" "mNextRefreshTime (in_main i) = mNextRefreshTime i" "mIsInMainList (in_main i)"
  by (simp_all add: in_main_def comp_def)

lemma new_loop_run:
  assumes "new_loop tm cur dont mx k sent xs = (k', moved, rest)"
  shows "\<exists>ys. xs = ys @ rest \<and> moved = map in_main (renewed tm k ys) \<and> k' = k + length ys \<and> (rest = [] \<or> cur + 14 \<le> mNextRefreshTime (hd rest))"
  using assms
proof (induction tm cur dont mx k sent xs arbitrary: k' moved rest rule: new_loop.induct)
  case (2 tm cur dont mx k sent x xs)
  show ?case
  proof (cases "of_int (mNextRefreshTime x) > of_int cur + REFRESH_GRANULARITY \<and> (mNextRefreshTime x > dont \<or> sent > mx)")
    case True
    then have "(of_int (cur + 13) :: rat) < of_int (mNextRefreshTime x)" by (simp add: REFRESH_GRANULARITY_def)
    then show ?thesis using True 2(2) by (auto simp: of_int_less_iff)
  next
    case False
    obtain k1 m1 r1 where l: "new_loop tm cur dont mx (k + 1) (sent + 1) xs = (k1, m1, r1)" by (metis prod_cases3)
    from 2(1) [OF False l] obtain ys where "xs = ys @ r1" "m1 = map in_main (renewed tm (k + 1) ys)" "k1 = k + 1 + length ys"
      "r1 = [] \<or> cur + 14 \<le> mNextRefreshTime (hd r1)" by blast
    moreover have "k' = k1" "rest = r1" "moved = x\<lparr>mNextRefreshTime := next_refresh (tm k), mIsInMainList := True\<rparr> # m1" using 2(2) False l by auto
    ultimately show ?thesis by (intro exI [of _ "x # ys"]) (simp add: in_main_def)
  qed
qed simp

lemma processNew_run:
  assumes "0 \<le> tm k" and "refreshTransportImpl_processNewSubscriptions tm k rnd rt = (k', rt')"
  shows "\<exists>ys rest l. mNewListeners rt = ys @ rest \<and> k < k' \<and> l \<ge> k \<and> l + length ys \<le> k' \<and>
    rt' = rt\<lparr>mListeners := mListeners rt @ map in_main (renewed tm l ys), mNewListeners := rest, refreshes := refreshes rt @ map infoHandle ys\<rparr> \<and>
    (rest = [] \<or> tm k + 14 \<le> mNextRefreshTime (hd rest))"
proof (cases "mNewListeners rt = [] \<or> mNextRefreshTime (hd (mNewListeners rt)) > tm k + 3000")
  case True
  then have "k' = k + 1" "rt' = rt"
    using assms(2) unfolding refreshTransportImpl_processNewSubscriptions_def Let_def dont_refresh_eq [OF assms(1)] by auto
  with True show ?thesis by (intro exI [of _ "[]"] exI [of _ "mNewListeners rt"] exI [of _ k]) auto
next
  case False
  let ?mx = "max_messages rnd (tm k) (mNewListeners rt)"
  obtain k1 moved rest where l: "new_loop tm (tm k) (tm k + 3000) ?mx (k + 1) 0 (mNewListeners rt) = (k1, moved, rest)" by (metis prod_cases3)
  have r: "k' = k1" "rt' = rt\<lparr>mListeners := mListeners rt @ moved, mNewListeners := rest, refreshes := refreshes rt @ map infoHandle moved\<rparr>"
    using False assms(2) l unfolding refreshTransportImpl_processNewSubscriptions_def Let_def dont_refresh_eq [OF assms(1)] by auto
  obtain ys where "mNewListeners rt = ys @ rest" "moved = map in_main (renewed tm (k + 1) ys)" "k1 = k + 1 + length ys"
    "rest = [] \<or> tm k + 14 \<le> mNextRefreshTime (hd rest)" using new_loop_run [OF l] by blast
  then have "mNewListeners rt = ys @ rest \<and> k < k' \<and> k + 1 \<ge> k \<and> k + 1 + length ys \<le> k' \<and>
      rt' = rt\<lparr>mListeners := mListeners rt @ map in_main (renewed tm (k + 1) ys), mNewListeners := rest, refreshes := refreshes rt @ map infoHandle ys\<rparr> \<and>
      (rest = [] \<or> tm k + 14 \<le> mNextRefreshTime (hd rest))" using r by simp
  then show ?thesis by blast
qed

subsection \<open>Subscriptions are refreshed in time\<close>

text \<open>The transport with the time of the last event and that of the last walk. Walks begin, and end, at most 14 seconds after
  the last one has begun; the clock does not go back.\<close>

type_synonym rt_state = "refreshTransportImpl \<times> int \<times> int"

definition handles :: "refreshTransportImpl \<Rightarrow> nat list" where
  "handles rt = map infoHandle (mListeners rt @ mNewListeners rt)"

inductive rt_step :: "rt_state \<Rightarrow> rt_state \<Rightarrow> bool" where
  rt_add: "now \<le> t \<Longrightarrow> t \<le> walk + 14 \<Longrightarrow> h \<notin> set (handles rt) \<Longrightarrow> rt_step (rt, now, walk) (refreshTransport_addSubscription t h rt, t, walk)"
| rt_reset: "now \<le> t \<Longrightarrow> t \<le> walk + 14 \<Longrightarrow> refreshTransport_resetRefreshForListener t h rt = Some rt' \<Longrightarrow> rt_step (rt, now, walk) (rt', t, walk)"
| rt_remove: "refreshTransport_removeListener h rt = Some rt' \<Longrightarrow> rt_step (rt, now, walk) (rt', now, walk)"
| rt_walk: "now \<le> tm 0 \<Longrightarrow> tm 0 \<le> walk + 14 \<Longrightarrow> mono tm \<Longrightarrow> \<forall>k. tm k \<le> t \<Longrightarrow> t \<le> tm 0 + 14 \<Longrightarrow>
    refreshTransportImpl_timerCallback tm rnd rt = Some rt' \<Longrightarrow> rt_step (rt, now, walk) (rt', t, tm 0)"

definition rt_init :: "rt_state \<Rightarrow> bool" where
  "rt_init s \<longleftrightarrow> (\<exists>timerOk prop now. 0 \<le> now \<and> s = (the (fst (refreshTransport_create True timerOk prop [])), now, now))"

definition rt_inv :: "rt_state \<Rightarrow> bool" where
  "rt_inv s = (case s of (rt, now, walk) \<Rightarrow>
     0 \<le> walk \<and> walk \<le> now \<and> now \<le> walk + 14 \<and> slack (mListeners rt) \<and> sorted (map mNextRefreshTime (mNewListeners rt)) \<and> distinct (handles rt) \<and>
     (\<forall>i \<in> set (mListeners rt). mIsInMainList i) \<and> (\<forall>i \<in> set (mNewListeners rt). \<not> mIsInMainList i) \<and>
     (\<forall>i \<in> set (mListeners rt @ mNewListeners rt). walk + 13 \<le> mNextRefreshTime i \<and> mNextRefreshTime i \<le> 3300 + now))"

lemma rt_inv_times: "rt_inv (rt, now, walk) \<Longrightarrow> i \<in> set (mListeners rt @ mNewListeners rt) \<Longrightarrow> walk + 13 \<le> mNextRefreshTime i \<and> mNextRefreshTime i \<le> 3300 + now"
  by (simp add: rt_inv_def)

lemma rt_inv_later: "rt_inv (rt, now, walk) \<Longrightarrow> now \<le> t \<Longrightarrow> t \<le> walk + 14 \<Longrightarrow> rt_inv (rt, t, walk)"
  by (auto simp: rt_inv_def intro: order_trans)

lemma rt_inv_add: "rt_inv (rt, t, walk) \<Longrightarrow> h \<notin> set (handles rt) \<Longrightarrow> rt_inv (refreshTransport_addSubscription t h rt, t, walk)"
  by (auto simp: rt_inv_def refreshTransport_addSubscription_def next_refresh_eq handles_def sorted_append)

lemma slack_filter: "slack is \<Longrightarrow> slack (filter p is)"
  by (simp add: slack_def sorted_wrt_filter)

lemma find_info_in:
  assumes "rt_inv (rt, now, walk)" and "find_info h rt = Some i"
  shows "infoHandle i = h" "mIsInMainList i \<longleftrightarrow> i \<in> set (mListeners rt)" "i \<in> set (mListeners rt @ mNewListeners rt)"
proof -
  show "infoHandle i = h" "i \<in> set (mListeners rt @ mNewListeners rt)"
    using assms(2) by (auto simp: find_info_def find_Some_iff) (metis in_set_conv_nth length_append nth_mem set_append UnE)
  then show "mIsInMainList i \<longleftrightarrow> i \<in> set (mListeners rt)" using assms(1) by (auto simp: rt_inv_def)
qed

lemma rt_inv_remove:
  assumes "rt_inv (rt, now, walk)" and "refreshTransport_removeListener h rt = Some rt'"
  shows "rt_inv (rt', now, walk)" "h \<notin> set (handles rt')"
proof -
  obtain i where i: "find_info h rt = Some i" using assms(2) by (auto simp: refreshTransport_removeListener_def bind_eq_Some_conv)
  have rt': "rt' = (if i \<in> set (mListeners rt) then rt\<lparr>mListeners := filter (\<lambda>i. infoHandle i \<noteq> h) (mListeners rt)\<rparr>
      else rt\<lparr>mNewListeners := filter (\<lambda>i. infoHandle i \<noteq> h) (mNewListeners rt)\<rparr>)"
    using assms(2) i find_info_in(2) [OF assms(1) i] by (simp add: refreshTransport_removeListener_def)
  then show "rt_inv (rt', now, walk)" using assms(1)
    by (auto simp: rt_inv_def handles_def slack_filter sorted_filter distinct_map_filter dest: set_mp [OF filter_is_subset])
  have "distinct (handles rt)" using assms(1) by (simp add: rt_inv_def)
  then show "h \<notin> set (handles rt')" using rt' find_info_in(1,3) [OF assms(1) i] by (auto simp: handles_def split: if_splits)
qed

lemma rt_inv_reset:
  assumes "rt_inv (rt, now, walk)" and "refreshTransport_resetRefreshForListener now h rt = Some rt'"
  shows "rt_inv (rt', now, walk)"
proof -
  obtain i rt1 where i: "find_info h rt = Some i" "refreshTransport_removeListener h rt = Some rt1"
      and rt': "rt' = rt1\<lparr>mListeners := mListeners rt1 @ [i\<lparr>mIsInMainList := True, mNextRefreshTime := next_refresh now - 1\<rparr>]\<rparr>"
    using assms(2) by (auto simp: refreshTransport_resetRefreshForListener_def bind_eq_Some_conv)
  have "rt_inv (rt1, now, walk)" "h \<notin> set (handles rt1)" using rt_inv_remove [OF assms(1) i(2)] by simp_all
  then show ?thesis using rt' find_info_in(1) [OF assms(1) i(1)] by (auto simp: rt_inv_def handles_def slack_append next_refresh_eq) (auto simp: slack_def)
qed

text \<open>A walk: it ends, and the subscriptions that remain have been renewed or are not due before 13 seconds after its begin.\<close>

lemma sorted_hd_le: "sorted (map f xs) \<Longrightarrow> x \<in> set xs \<Longrightarrow> c \<le> f (hd xs) \<Longrightarrow> c \<le> f x" for f :: "'a \<Rightarrow> int"
  by (cases xs) (auto intro: order_trans)

lemma slack_main: "slack (map in_main is) = slack is"
  by (simp add: slack_def sorted_wrt_map)

lemma renewed_at:
  assumes "\<forall>k. 0 \<le> tm k" and "i \<in> set (renewed tm n is)"
  shows "\<exists>j. n \<le> j \<and> j < n + length is \<and> mNextRefreshTime i = 3300 + tm j"
  using renewed_time [OF assms(2)] assms(1) by (auto simp: next_refresh_eq)

text \<open>The order of the main list when renewed listeners are appended, and after the walk over it.\<close>

lemma walk_append:
  assumes "mono tm" and "\<forall>k. 0 \<le> tm k" and "slack is" and "\<forall>i \<in> set is. mNextRefreshTime i \<le> 3300 + tm n"
  shows "slack (is @ renewed tm n js)" "i \<in> set (is @ renewed tm n js) \<Longrightarrow> mNextRefreshTime i \<le> 3300 + tm (n + length js)"
proof -
  have j: "\<exists>m \<ge> n. m \<le> n + length js \<and> mNextRefreshTime j = 3300 + tm m" if "j \<in> set (renewed tm n js)" for j
    using renewed_at [OF assms(2) that] by (metis less_imp_le)
  have "mNextRefreshTime i \<le> mNextRefreshTime j + 1" if i: "i \<in> set is" and r: "j \<in> set (renewed tm n js)" for i j
  proof -
    obtain m where "n \<le> m" "mNextRefreshTime j = 3300 + tm m" using j [OF r] by blast
    then show ?thesis using monoD [OF assms(1), of n m] assms(4) i by force
  qed
  then show "slack (is @ renewed tm n js)" using assms(3) renewed_slack [OF assms(1,2)] by (simp add: slack_append)
  assume "i \<in> set (is @ renewed tm n js)"
  then consider "i \<in> set is" | "i \<in> set (renewed tm n js)" by auto
  then show "mNextRefreshTime i \<le> 3300 + tm (n + length js)"
  proof cases
    case 1
    then show ?thesis using assms(4) monoD [OF assms(1), of n "n + length js"] by force
  next
    case 2
    then obtain m where "m \<le> n + length js" "mNextRefreshTime i = 3300 + tm m" using j by blast
    then show ?thesis using monoD [OF assms(1), of m "n + length js"] by simp
  qed
qed

lemma walk_main:
  assumes "mono tm" and "\<forall>k. 0 \<le> tm k" and "slack is" and "\<forall>i \<in> set is. mNextRefreshTime i \<le> 3300 + tm k"
    and L: "L = dropWhile (\<lambda>i. mNextRefreshTime i \<le> tm 0 + 13) is @ renewed tm k (takeWhile (\<lambda>i. mNextRefreshTime i \<le> tm 0 + 13) is)"
  shows "slack L" "i \<in> set L \<Longrightarrow> tm 0 + 13 \<le> mNextRefreshTime i" "i \<in> set L \<Longrightarrow> \<exists>n. mNextRefreshTime i \<le> 3300 + tm n"
proof -
  let ?D = "\<lambda>i. mNextRefreshTime i \<le> tm 0 + 13"
  have d: "slack (dropWhile ?D is)" using assms(3) by (metis slack_append takeWhile_dropWhile_id)
  have b: "\<forall>i \<in> set (dropWhile ?D is). mNextRefreshTime i \<le> 3300 + tm k" using assms(4) by (meson set_dropWhileD)
  show "slack L" unfolding L by (rule walk_append(1) [OF assms(1,2) d b])
  assume i: "i \<in> set L"
  then show "\<exists>n. mNextRefreshTime i \<le> 3300 + tm n" unfolding L using walk_append(2) [OF assms(1,2) d b] by blast
  from i consider "i \<in> set (dropWhile ?D is)" | "i \<in> set (renewed tm k (takeWhile ?D is))" by (auto simp: L)
  then show "tm 0 + 13 \<le> mNextRefreshTime i"
  proof cases
    case 2
    then obtain j where "mNextRefreshTime i = 3300 + tm j" using renewed_at [OF assms(2)] by blast
    then show ?thesis using monoD [OF assms(1), of 0 j] by simp
  qed (rule slack_drop [OF assms(3)])
qed

lemma in_main_renewed: "map in_main (renewed tm k is) = renewed tm k (map in_main is)"
  by (induction "is" arbitrary: k) (simp_all add: in_main_def)

lemma walk_run:
  assumes "mono tm" and "\<forall>k. 0 \<le> tm k"
  obtains ys rest l k M where "mNewListeners rt = ys @ rest" "l + length ys \<le> k" "M = mListeners rt @ renewed tm l (map in_main ys)"
    "rest = [] \<or> tm 0 + 14 \<le> mNextRefreshTime (hd rest)"
    "refreshTransportImpl_timerCallback tm rnd rt = Some (rt\<lparr>mListeners := dropWhile (\<lambda>i. mNextRefreshTime i \<le> tm 0 + 13) M @
       renewed tm k (takeWhile (\<lambda>i. mNextRefreshTime i \<le> tm 0 + 13) M),
       mNewListeners := rest, refreshes := refreshes rt @ map infoHandle ys @ map infoHandle (takeWhile (\<lambda>i. mNextRefreshTime i \<le> tm 0 + 13) M)\<rparr>)"
proof -
  obtain k rt1 where p: "refreshTransportImpl_processNewSubscriptions tm 1 rnd rt = (k, rt1)" by fastforce
  from processNew_run [OF _ p] assms(2) obtain ys rest l where q: "mNewListeners rt = ys @ rest" "l + length ys \<le> k"
    "rt1 = rt\<lparr>mListeners := mListeners rt @ renewed tm l (map in_main ys), mNewListeners := rest, refreshes := refreshes rt @ map infoHandle ys\<rparr>"
    "rest = [] \<or> tm 1 + 14 \<le> mNextRefreshTime (hd rest)" unfolding in_main_renewed by blast
  have m: "tm 0 \<le> tm k" for k using monoD [OF assms(1), of 0 k] by simp
  have "tm 0 + 13 < next_refresh (tm j)" for j using m [of j] assms(2) by (simp add: next_refresh_eq)
  then have "refresh_loop tm (tm 0 + 13) k M = Some (dropWhile (\<lambda>i. mNextRefreshTime i \<le> tm 0 + 13) M @ renewed tm k (takeWhile (\<lambda>i. mNextRefreshTime i \<le> tm 0 + 13) M),
      map infoHandle (takeWhile (\<lambda>i. mNextRefreshTime i \<le> tm 0 + 13) M))" for M
    using refresh_loop_run [of "tm 0 + 13" tm "[]" k M] by simp
  then have "refreshTransportImpl_timerCallback tm rnd rt = Some (rt\<lparr>mListeners := dropWhile (\<lambda>i. mNextRefreshTime i \<le> tm 0 + 13) (mListeners rt @ renewed tm l (map in_main ys)) @
       renewed tm k (takeWhile (\<lambda>i. mNextRefreshTime i \<le> tm 0 + 13) (mListeners rt @ renewed tm l (map in_main ys))),
       mNewListeners := rest, refreshes := refreshes rt @ map infoHandle ys @ map infoHandle (takeWhile (\<lambda>i. mNextRefreshTime i \<le> tm 0 + 13) (mListeners rt @ renewed tm l (map in_main ys)))\<rparr>)"
    using assms(2) by (simp add: refreshTransportImpl_timerCallback_def refreshTransportImpl_doRefresh_def p [simplified] refresh_until_eq q(3))
  moreover have "rest = [] \<or> tm 0 + 14 \<le> mNextRefreshTime (hd rest)" using q(4) m [of 1] by linarith
  ultimately show ?thesis using that [OF q(1,2) refl] by blast
qed

lemma rt_inv_walk:
  assumes "rt_inv (rt, now, walk)" and "now \<le> tm 0" and "mono tm" and "\<forall>k. tm k \<le> t" and "t \<le> tm 0 + 14"
  shows "\<exists>rt'. refreshTransportImpl_timerCallback tm rnd rt = Some rt' \<and> rt_inv (rt', t, tm 0)"
proof -
  let ?D = "\<lambda>i. mNextRefreshTime i \<le> tm 0 + 13"
  have m: "tm 0 \<le> tm k" for k using monoD [OF assms(3), of 0 k] by simp
  have "0 \<le> tm 0" using assms(1,2) by (simp add: rt_inv_def)
  then have nn: "\<forall>k. 0 \<le> tm k" using m order_trans by blast
  obtain ys rest l k M where q: "mNewListeners rt = ys @ rest" "l + length ys \<le> k" "M = mListeners rt @ renewed tm l (map in_main ys)"
    "rest = [] \<or> tm 0 + 14 \<le> mNextRefreshTime (hd rest)" and r: "refreshTransportImpl_timerCallback tm rnd rt =
      Some (rt\<lparr>mListeners := dropWhile ?D M @ renewed tm k (takeWhile ?D M), mNewListeners := rest, refreshes := refreshes rt @ map infoHandle ys @ map infoHandle (takeWhile ?D M)\<rparr>)"
    using walk_run [OF assms(3) nn, of rt rnd] by blast
  define L where "L = dropWhile ?D M @ renewed tm k (takeWhile ?D M)"
  have inv: "slack (mListeners rt)" "\<forall>i \<in> set (mListeners rt). mNextRefreshTime i \<le> 3300 + tm l"
    using assms(1,2) rt_inv_times [OF assms(1)] m [of l] by (auto simp: rt_inv_def) (meson UnI1 add_left_mono order_trans)
  have M: "slack M" "\<forall>i \<in> set M. mNextRefreshTime i \<le> 3300 + tm k"
    using walk_append(1) [OF assms(3) nn inv] walk_append(2) [OF assms(3) nn inv, where js = "map in_main ys"] monoD [OF assms(3) q(2)] unfolding q(3) by (blast, force)
  note main = walk_main [OF assms(3) nn M L_def]
  have "distinct (map infoHandle (takeWhile ?D M @ dropWhile ?D M) @ map infoHandle rest)"
    using assms(1) q(1) by (simp only: takeWhile_dropWhile_id) (auto simp: rt_inv_def handles_def q(3))
  then have dist: "distinct (map infoHandle L @ map infoHandle rest)" unfolding L_def map_append renewed_fields(1) by (auto simp only: distinct_append set_append)
  have rest: "tm 0 + 13 \<le> mNextRefreshTime i \<and> mNextRefreshTime i \<le> 3300 + t" if i: "i \<in> set rest" for i
  proof
    have "sorted (map mNextRefreshTime rest)" using assms(1) q(1) by (simp add: rt_inv_def sorted_append)
    then show "tm 0 + 13 \<le> mNextRefreshTime i" using sorted_hd_le [OF _ i, of mNextRefreshTime "tm 0 + 14"] q(4) i by force
    have "mNextRefreshTime i \<le> 3300 + now" using rt_inv_times [OF assms(1), of i] i q(1) by simp
    then show "mNextRefreshTime i \<le> 3300 + t" using assms(2) spec [OF assms(4), of 0] by linarith
  qed
  have L: "tm 0 + 13 \<le> mNextRefreshTime i \<and> mNextRefreshTime i \<le> 3300 + t" if i: "i \<in> set L" for i
    using main(2) [OF i] main(3) [OF i] assms(4) by (meson add_left_mono order_trans)
  have "\<forall>i \<in> set M. mIsInMainList i" using assms(1) renewed_flags [of tm l "map in_main ys"] by (auto simp: rt_inv_def q(3))
  then have "\<forall>i \<in> set L. mIsInMainList i" using renewed_flags [of tm k "takeWhile ?D M"] by (auto simp: L_def dest: set_takeWhileD set_dropWhileD)
  then have "rt_inv (rt\<lparr>mListeners := L, mNewListeners := rest, refreshes := rs\<rparr>, t, tm 0)" for rs
    using assms(1,4,5) \<open>0 \<le> tm 0\<close> main(1) dist rest L q(1) by (auto simp: rt_inv_def handles_def sorted_append)
  then show ?thesis using r by (simp add: L_def)
qed

lemma create_lists: "mListeners (the (fst (refreshTransport_create True ok p []))) = []" "mNewListeners (the (fst (refreshTransport_create True ok p []))) = []"
  by (simp_all add: refreshTransport_create_def refreshTransport_startRefreshTimer_def)

interpretation rts: invariant_system rt_init rt_step rt_inv
proof
  show "rt_inv s" if "rt_init s" for s
    using that by (auto simp: rt_init_def rt_inv_def create_lists handles_def slack_def)
  show "rt_inv s'" if "rt_inv s" and "rt_step s s'" for s s'
    using that(2,1)
  proof cases
    case (rt_walk now tm walk t rnd rt rt')
    then show ?thesis using that(1) rt_inv_walk [of rt now walk tm t rnd] by auto
  qed (use that(1) in \<open>auto intro: rt_inv_add rt_inv_later rt_inv_reset rt_inv_remove\<close>)
qed

text \<open>C27: subscriptions are refreshed in time: whatever subscriptions are added, reset and removed, when the timer starts a walk at most 14 seconds after the
  last one and the clock does not go back, then every walk ends, and no subscription is ever more than a second behind the time of its next
  refresh, which is at most 55 minutes ahead.\<close>

theorem rt_in_time:
  assumes "reachable rt_init rt_step (rt, now, walk)"
  shows "(\<forall>i \<in> set (mListeners rt @ mNewListeners rt). now \<le> mNextRefreshTime i + 1 \<and> mNextRefreshTime i \<le> now + 55 * 60) \<and> distinct (handles rt) \<and>
    (\<forall>tm t rnd. now \<le> tm 0 \<and> tm 0 \<le> walk + 14 \<and> mono tm \<and> (\<forall>k. tm k \<le> t) \<and> t \<le> tm 0 + 14 \<longrightarrow>
      (\<exists>rt'. refreshTransportImpl_timerCallback tm rnd rt = Some rt' \<and> rt_step (rt, now, walk) (rt', t, tm 0)))"
proof -
  have inv: "rt_inv (rt, now, walk)" using rts.reachable_inv [OF assms] .
  have "now \<le> walk + 14" using inv by (simp add: rt_inv_def)
  then have "now \<le> mNextRefreshTime i + 1 \<and> mNextRefreshTime i \<le> now + 55 * 60" if i: "i \<in> set (mListeners rt @ mNewListeners rt)" for i
    using rt_inv_times [OF inv i] by linarith
  moreover have "distinct (handles rt)" using inv by (simp add: rt_inv_def)
  ultimately show ?thesis using rt_inv_walk [OF inv] rt_step.rt_walk by meson
qed

theorem rt_in_time_witness:
  "\<exists>rt'. refreshTransportImpl_timerCallback (\<lambda>k. 1014) 0 (refreshTransport_addSubscription 1005 7 (the (fst (refreshTransport_create True True None [])))) = Some rt'"
proof -
  let ?rt = "the (fst (refreshTransport_create True True None []))"
  have "reachable rt_init rt_step (?rt, 1000, 1000)" by (rule reach_init) (force simp: rt_init_def)
  then have "reachable rt_init rt_step (refreshTransport_addSubscription 1005 7 ?rt, 1005, 1000)"
    by (rule reach_step) (rule rt_add, simp_all add: handles_def create_lists)
  note walks = conjunct2 [OF conjunct2 [OF rt_in_time [OF this]]]
  show ?thesis using spec [OF spec [OF spec [OF walks, of "\<lambda>k. 1014"], of 1014], of 0] by (auto simp: mono_def)
qed

text \<open>The recap timer for doubtful subscriptions runs once: the pointer to the destroyed timer keeps it from being started again. A
  timer that runs is not destroyed with the transport.\<close>

lemma rt_recap_once: "refreshTransport_startStaleRecapTimer ok (refreshTransportImpl_staleRecapTimerCallback st rt) = refreshTransportImpl_staleRecapTimerCallback st rt"
  by (simp add: refreshTransport_startStaleRecapTimer_def refreshTransportImpl_staleRecapTimerCallback_def)

lemma rt_recap_timer_left:
  "mStaleRecapTimer rt = None \<Longrightarrow> mStaleRecapTimeout rt \<noteq> 0 \<Longrightarrow> refreshTransport_destroy (refreshTransport_startStaleRecapTimer True rt) = (None, Some True)"
  by (simp add: refreshTransport_destroy_def refreshTransport_startStaleRecapTimer_def)

text \<open>The callback asks exactly the doubtful subscriptions for a recap, those of the main list first.\<close>

lemma rt_recaps:
  "recaps (refreshTransportImpl_staleRecapTimerCallback st rt) = recaps rt @ filter st (handles rt)"
proof -
  have "fold (checkQualityIterator st) is rs = rs @ filter st (map infoHandle is)" for "is" rs
    by (induction "is" arbitrary: rs) (simp_all add: checkQualityIterator_def)
  then show ?thesis by (simp add: refreshTransportImpl_staleRecapTimerCallback_def refreshTransport_iterateListeners_def handles_def)
qed

end
