(* ===== verification/Price.thy ===== *)
theory Price
  imports StrUtils Doubles
begin

text \<open>
  Prices, \<open>price.c\<close>, \<open>priceimpl.c\<close> and \<open>priceimpl.h\<close>: a value and a byte of hints, five bits of which are the precision. Values are
  doubles: every operation on them is rounded by \<open>fl\<close> (theory \<open>Doubles\<close>). A price that may be null is an option; an operation returns the status and the changed price. \<open>None\<close> in the printing functions is a conversion that
  is not defined in C, or a write outside of the buffer.
\<close>

unbundle bit_operations_syntax

type_synonym price_hints = "8 word"

record mama_price_t =
  mValue :: rat
  mHints :: price_hints

definition MAMA_PRICE_IMPL_HINT_PREC_MASK :: price_hints where "MAMA_PRICE_IMPL_HINT_PREC_MASK = 0x1f"

definition MAMA_PRICE_IMPL_HINT_VALID_PRICE :: price_hints where "MAMA_PRICE_IMPL_HINT_VALID_PRICE = 0x20"

definition MAMA_PRICE_PREC_INT :: price_hints where "MAMA_PRICE_PREC_INT = 16"

definition MAMA_PRICE_PREC_UNKNOWN :: price_hints where "MAMA_PRICE_PREC_UNKNOWN = 0"

definition MAMA_PRICE_EPSILON :: rat where "MAMA_PRICE_EPSILON = fl (1 / 100000000000)"

subsection \<open>Operations\<close>

definition mamaPriceImpl_getPrecision :: "mama_price_t \<Rightarrow> price_hints" where
  "mamaPriceImpl_getPrecision price = mHints price AND MAMA_PRICE_IMPL_HINT_PREC_MASK"

definition mamaPrice_create :: "bool \<Rightarrow> mama_status \<times> mama_price_t option" where
  "mamaPrice_create malloc = (if malloc then (MAMA_STATUS_OK, Some \<lparr>mValue = 0, mHints = MAMA_PRICE_PREC_UNKNOWN\<rparr>) else (MAMA_STATUS_NOMEM, None))"

definition on_price :: "(mama_price_t \<Rightarrow> mama_price_t) \<Rightarrow> mama_price_t option \<Rightarrow> mama_status \<times> mama_price_t option" where
  "on_price f price = (case price of None \<Rightarrow> (MAMA_STATUS_INVALID_ARG, None) | Some p \<Rightarrow> (MAMA_STATUS_OK, Some (f p)))"

definition from_price :: "(mama_price_t \<Rightarrow> 'a) \<Rightarrow> mama_price_t option \<Rightarrow> mama_status + 'a" where
  "from_price f price = (case price of None \<Rightarrow> Inl MAMA_STATUS_INVALID_ARG | Some p \<Rightarrow> Inr (f p))"

definition mamaPrice_destroy :: "mama_price_t option \<Rightarrow> mama_status" where
  "mamaPrice_destroy price = (if price = None then MAMA_STATUS_INVALID_ARG else MAMA_STATUS_OK)"

definition mamaPrice_clear :: "mama_price_t option \<Rightarrow> mama_status \<times> mama_price_t option" where
  "mamaPrice_clear = on_price (\<lambda>p. p\<lparr>mValue := 0, mHints := MAMA_PRICE_PREC_UNKNOWN\<rparr>)"

definition mamaPrice_copy :: "mama_price_t option \<Rightarrow> mama_price_t option \<Rightarrow> mama_status \<times> mama_price_t option" where
  "mamaPrice_copy dest src = (case src of None \<Rightarrow> (MAMA_STATUS_INVALID_ARG, dest) | Some s \<Rightarrow> on_price (\<lambda>p. p\<lparr>mValue := mValue s, mHints := mHints s\<rparr>) dest)"

definition mamaPrice_add :: "mama_price_t option \<Rightarrow> mama_price_t option \<Rightarrow> mama_status \<times> mama_price_t option" where
  "mamaPrice_add dest rhs = (case rhs of None \<Rightarrow> (MAMA_STATUS_INVALID_ARG, dest) | Some r \<Rightarrow> on_price (\<lambda>p. p\<lparr>mValue := fl (mValue p + mValue r)\<rparr>) dest)"

definition mamaPrice_subtract :: "mama_price_t option \<Rightarrow> mama_price_t option \<Rightarrow> mama_status \<times> mama_price_t option" where
  "mamaPrice_subtract dest rhs = (case rhs of None \<Rightarrow> (MAMA_STATUS_INVALID_ARG, dest) | Some r \<Rightarrow> on_price (\<lambda>p. p\<lparr>mValue := fl (mValue p - mValue r)\<rparr>) dest)"

text \<open>Two null prices are equal, as are a price and itself.\<close>

definition mamaPrice_equal :: "mama_price_t option \<Rightarrow> mama_price_t option \<Rightarrow> bool" where
  "mamaPrice_equal lhs rhs =
    (case (lhs, rhs) of (None, None) \<Rightarrow> True | (Some l, Some r) \<Rightarrow> mValue l = mValue r | _ \<Rightarrow> False)"

definition mamaPrice_compare :: "mama_price_t \<Rightarrow> mama_price_t \<Rightarrow> rat" where
  "mamaPrice_compare lhs rhs = fl (mValue lhs - mValue rhs)"

definition set_valid :: "bool \<Rightarrow> mama_price_t \<Rightarrow> mama_price_t" where
  "set_valid valid p = p\<lparr>mHints := if valid then mHints p OR MAMA_PRICE_IMPL_HINT_VALID_PRICE else mHints p AND NOT MAMA_PRICE_IMPL_HINT_VALID_PRICE\<rparr>"

definition mamaPrice_setIsValidPrice :: "mama_price_t option \<Rightarrow> bool \<Rightarrow> mama_status \<times> mama_price_t option" where
  "mamaPrice_setIsValidPrice price valid = on_price (set_valid valid) price"

definition mamaPrice_setValue :: "mama_price_t option \<Rightarrow> rat \<Rightarrow> mama_status \<times> mama_price_t option" where
  "mamaPrice_setValue price v = on_price (\<lambda>p. set_valid True (p\<lparr>mValue := v\<rparr>)) price"

definition mamaPrice_setPrecision :: "mama_price_t option \<Rightarrow> price_hints \<Rightarrow> mama_status \<times> mama_price_t option" where
  "mamaPrice_setPrecision price precision = on_price (\<lambda>p. p\<lparr>mHints := mHints p AND NOT MAMA_PRICE_IMPL_HINT_PREC_MASK OR precision\<rparr>) price"

definition mamaPrice_setHints :: "mama_price_t option \<Rightarrow> price_hints \<Rightarrow> mama_status \<times> mama_price_t option" where
  "mamaPrice_setHints price hints = on_price (\<lambda>p. p\<lparr>mHints := hints\<rparr>) price"

definition mamaPrice_setWithHints :: "mama_price_t option \<Rightarrow> rat \<Rightarrow> price_hints \<Rightarrow> mama_status \<times> mama_price_t option" where
  "mamaPrice_setWithHints price v hints = on_price (\<lambda>p. p\<lparr>mValue := v, mHints := hints\<rparr>) price"

definition mamaPrice_setFromString :: "mama_price_t option \<Rightarrow> string \<Rightarrow> mama_status \<times> mama_price_t option" where
  "mamaPrice_setFromString price s = (MAMA_STATUS_NOT_IMPLEMENTED, price)"

definition mamaPrice_getValue :: "mama_price_t option \<Rightarrow> mama_status + rat" where
  "mamaPrice_getValue = from_price mValue"

definition mamaPrice_getPrecision :: "mama_price_t option \<Rightarrow> mama_status + price_hints" where
  "mamaPrice_getPrecision = from_price (\<lambda>p. mHints p AND MAMA_PRICE_IMPL_HINT_PREC_MASK)"

definition mamaPrice_getIsValidPrice :: "mama_price_t option \<Rightarrow> mama_status + price_hints" where
  "mamaPrice_getIsValidPrice = from_price (\<lambda>p. mHints p AND MAMA_PRICE_IMPL_HINT_VALID_PRICE)"

definition mamaPrice_getHints :: "mama_price_t option \<Rightarrow> mama_status + price_hints" where
  "mamaPrice_getHints = from_price mHints"

definition mamaPrice_getWithHints :: "mama_price_t option \<Rightarrow> mama_status + rat \<times> price_hints" where
  "mamaPrice_getWithHints = from_price (\<lambda>p. (mValue p, mHints p AND MAMA_PRICE_IMPL_HINT_PREC_MASK))"

definition mamaPrice_negate :: "mama_price_t option \<Rightarrow> mama_status \<times> mama_price_t option" where
  "mamaPrice_negate = on_price (\<lambda>p. p\<lparr>mValue := - mValue p\<rparr>)"

definition mamaPrice_isZero :: "mama_price_t option \<Rightarrow> mama_status + bool" where
  "mamaPrice_isZero = from_price (\<lambda>p. mValue p < MAMA_PRICE_EPSILON \<and> mValue p > - MAMA_PRICE_EPSILON)"

text \<open>The loop that computes the power of ten in an \<open>int\<close>; an overflow is undefined.\<close>

fun int_power10 :: "nat \<Rightarrow> int \<Rightarrow> int option" where
  "int_power10 0 mult = Some mult"
| "int_power10 (Suc i) mult = (if mult * 10 < 2 ^ 31 then int_power10 i (mult * 10) else None)"

definition mamaPrice_getRoundedValue :: "mama_price_t option \<Rightarrow> price_hints \<Rightarrow> (mama_status + rat) option" where
  "mamaPrice_getRoundedValue price precision =
    (case price of
       None \<Rightarrow> Some (Inl MAMA_STATUS_INVALID_ARG)
     | Some p \<Rightarrow>
         (let hints = (if precision \<noteq> 0 then precision else mamaPriceImpl_getPrecision p)
          in if hints \<le> 10 \<and> hints > 0 then
               do { mult \<leftarrow> int_power10 (unat hints) 1;
                    Some (Inr (fl (of_int \<lfloor>fl (fl (of_int mult * mValue p) + 1 / 2)\<rfloor> / of_int mult))) }
             else Some (Inr (mValue p))))"

definition mamaPrice_decimals2Precision :: "int \<Rightarrow> price_hints" where
  "mamaPrice_decimals2Precision places =
    (if places = 0 then MAMA_PRICE_PREC_INT else if places > 0 \<and> places \<le> 10 then word_of_int places else MAMA_PRICE_PREC_UNKNOWN)"

definition mamaPrice_denom2Precision :: "int \<Rightarrow> price_hints" where
  "mamaPrice_denom2Precision denominator =
    (if denominator = 1 then MAMA_PRICE_PREC_INT else if denominator = 2 then 17 else if denominator = 4 then 18 else if denominator = 8 then 19
     else if denominator = 16 then 20 else if denominator = 32 then 21 else if denominator = 64 then 22 else if denominator = 128 then 23
     else if denominator = 256 then 24 else if denominator = 512 then 25 else MAMA_PRICE_PREC_UNKNOWN)"

definition mamaPrice_precision2Decimals :: "price_hints \<Rightarrow> int" where
  "mamaPrice_precision2Decimals precision = (if uint precision < 0 \<or> uint precision > 10 then 10 else uint precision)"

definition mamaPrice_precision2Denom :: "price_hints \<Rightarrow> int" where
  "mamaPrice_precision2Denom precision =
    (if precision = MAMA_PRICE_PREC_INT then 1 else if precision = 17 then 2 else if precision = 18 then 4 else if precision = 19 then 8
     else if precision = 20 then 16 else if precision = 21 then 32 else if precision = 22 then 64 else if precision = 23 then 128
     else if precision = 24 then 256 else if precision = 25 then 512 else 0)"

subsection \<open>Printing\<close>

definition mamaPriceImpl_isDecimal :: "price_hints \<Rightarrow> bool" where
  "mamaPriceImpl_isDecimal precision \<longleftrightarrow> precision \<ge> 1 \<and> precision \<le> 10"

definition mamaPriceImpl_isInteger :: "price_hints \<Rightarrow> bool" where
  "mamaPriceImpl_isInteger precision \<longleftrightarrow> precision = MAMA_PRICE_PREC_INT"

definition mamaPriceImpl_isFraction :: "price_hints \<Rightarrow> bool" where
  "mamaPriceImpl_isFraction precision \<longleftrightarrow> precision \<ge> 17 \<and> precision \<le> 25"

definition mamaPriceImpl_getFractDenom :: "price_hints \<Rightarrow> int" where
  "mamaPriceImpl_getFractDenom precision = 2 ^ unat (precision AND 0xf)"

text \<open>The conversion of a double to a signed integer of a width.\<close>

definition to_int :: "nat \<Rightarrow> rat \<Rightarrow> int option" where
  "to_int w x = (let i = (if x < 0 then \<lceil>x\<rceil> else \<lfloor>x\<rfloor>) in if - (2 ^ (w - 1)) \<le> i \<and> i < 2 ^ (w - 1) then Some i else None)"

text \<open>The format \<open>%.*f\<close> rounds to the nearest number with the given places, halves to even.\<close>

definition fixed_text :: "nat \<Rightarrow> rat \<Rightarrow> string" where
  "fixed_text places x =
    (let k = nat (round_even (\<bar>x\<bar> * 10 ^ places))
     in (if x < 0 then ''-'' else []) @ print_nat 10 (k div 10 ^ places) @ (if places = 0 then [] else ''.'' @ print_padded places (k mod 10 ^ places)))"

text \<open>The format \<open>%02d\<close>.\<close>

definition print_02d :: "int \<Rightarrow> string" where
  "print_02d i = (if i < 0 then print_int i else print_padded 2 (nat i))"

definition put_text :: "char list \<Rightarrow> nat \<Rightarrow> string \<Rightarrow> char list option" where
  "put_text buf bufMaxLen s = map_option fst (snprintf buf 0 bufMaxLen s)"

definition mamaPriceImpl_getAsStringDecimal :: "rat \<Rightarrow> nat \<Rightarrow> char list \<Rightarrow> nat \<Rightarrow> char list option" where
  "mamaPriceImpl_getAsStringDecimal v decimals buf bufMaxLen = put_text buf bufMaxLen (fixed_text decimals v)"

definition mamaPriceImpl_getAsStringInteger :: "rat \<Rightarrow> char list \<Rightarrow> nat \<Rightarrow> char list option" where
  "mamaPriceImpl_getAsStringInteger v buf bufMaxLen = do { i \<leftarrow> to_int 64 v; put_text buf bufMaxLen (print_int i) }"

definition mamaPriceImpl_getAsStringFraction :: "rat \<Rightarrow> int \<Rightarrow> char list \<Rightarrow> nat \<Rightarrow> char list option" where
  "mamaPriceImpl_getAsStringFraction v denom buf bufMaxLen =
    do { integer \<leftarrow> to_int 64 v;
         let fraction = fl (v - fl (of_int integer));
         numer \<leftarrow> to_int 64 (fl (of_int denom * fraction));
         put_text buf bufMaxLen
           (if numer = 0 then print_int integer
            else if integer = 0 then print_int numer @ ''/'' @ print_int denom
            else print_int integer @ '' '' @ print_int (if integer < 0 then - numer else numer) @ ''/'' @ print_int denom) }"

definition spec_fraction_text :: "rat \<Rightarrow> int \<Rightarrow> bool \<Rightarrow> string option" where
  "spec_fraction_text v denom1 zeroPart =
    do { integer \<leftarrow> to_int 32 v;
         let fraction1 = fl (v - of_int integer);
         numer1 \<leftarrow> to_int 32 (fl (of_int denom1 * fraction1));
         let fraction2 = fl (fraction1 - fl (of_int numer1 / of_int denom1));
         numer2 \<leftarrow> to_int 32 (fl (fl (10 * of_int denom1) * fraction2));
         Some (if v < 0 then ''-'' @ print_int (- integer) @ [CHR 0x27] @ print_02d (- numer1) @ (if zeroPart \<and> numer2 = 0 then [] else print_int (- numer2))
               else print_int integer @ [CHR 0x27] @ print_02d numer1 @ (if zeroPart \<and> numer2 = 0 then [] else print_int numer2)) }"

text \<open>The second denominator is not used by the code.\<close>

definition mamaPriceImpl_getAsStringSpecFraction :: "rat \<Rightarrow> int \<Rightarrow> int \<Rightarrow> bool \<Rightarrow> char list \<Rightarrow> nat \<Rightarrow> char list option" where
  "mamaPriceImpl_getAsStringSpecFraction v denom1 denom2 zeroPart buf bufMaxLen = do { s \<leftarrow> spec_fraction_text v denom1 zeroPart; put_text buf bufMaxLen s }"

definition mamaPriceImpl_getAsString :: "mama_price_t \<Rightarrow> char list \<Rightarrow> nat \<Rightarrow> char list option" where
  "mamaPriceImpl_getAsString price buf bufMaxLen =
    (let v = mValue price; precision = mamaPriceImpl_getPrecision price in
     if mamaPriceImpl_isDecimal precision then mamaPriceImpl_getAsStringDecimal v (unat precision) buf bufMaxLen
     else if mamaPriceImpl_isInteger precision then mamaPriceImpl_getAsStringInteger v buf bufMaxLen
     else if mamaPriceImpl_isFraction precision then mamaPriceImpl_getAsStringFraction v (mamaPriceImpl_getFractDenom precision) buf bufMaxLen
     else if precision = 26 then mamaPriceImpl_getAsStringSpecFraction v 32 1 True buf bufMaxLen
     else if precision = 27 then mamaPriceImpl_getAsStringSpecFraction v 32 2 True buf bufMaxLen
     else if precision = 28 then mamaPriceImpl_getAsStringSpecFraction v 32 4 False buf bufMaxLen
     else if precision = 29 then mamaPriceImpl_getAsStringSpecFraction v 64 1 True buf bufMaxLen
     else if precision = 30 then mamaPriceImpl_getAsStringSpecFraction v 64 2 False buf bufMaxLen
     else put_text buf bufMaxLen (fixed_text 6 v))"

definition mamaPrice_getAsString :: "mama_price_t option \<Rightarrow> char list option \<Rightarrow> nat \<Rightarrow> (mama_status \<times> char list option) option" where
  "mamaPrice_getAsString price buf bufMaxLen =
    (case (price, buf) of
       (Some p, Some b) \<Rightarrow> do { b \<leftarrow> mamaPriceImpl_getAsString p b bufMaxLen; Some (MAMA_STATUS_OK, Some b) }
     | _ \<Rightarrow> Some (MAMA_STATUS_INVALID_ARG, buf))"

subsection \<open>Rounding\<close>

lemma int_power10_run: "int_power10 n m = (if n = 0 \<or> m * 10 ^ n < 2 ^ 31 then Some (m * 10 ^ n) else None)" if "0 < m"
  using that
proof (induction n arbitrary: m)
  case (Suc n)
  have "m * 1 \<le> m * 10 ^ n" using Suc.prems by (intro mult_left_mono) auto
  then have "m * 10 < 2 ^ 31" if "m * 10 ^ Suc n < 2 ^ 31" using that by simp
  moreover have "m * 10 ^ Suc n = m * 10 * 10 ^ n" by simp
  ultimately show ?case using Suc.IH [of "m * 10"] Suc.prems by (cases "m * 10 < 2 ^ 31"; cases n) (auto simp del: power_Suc)
qed simp

lemma rounded_run:
  assumes "0 < precision" and "precision \<le> 9"
  shows "mamaPrice_getRoundedValue (Some p) precision =
      Some (Inr (fl (of_int \<lfloor>fl (fl (10 ^ unat precision * mValue p) + 1 / 2)\<rfloor> / 10 ^ unat precision)))"
    and "(10 :: rat) ^ unat precision \<le> 2 ^ 31"
proof -
  have u: "unat precision \<le> 9" using assms by unat_arith
  then have "(10 :: int) ^ unat precision \<le> 10 ^ 9" "(10 :: rat) ^ unat precision \<le> 10 ^ 9" by (intro power_increasing; simp)+
  then have "int_power10 (unat precision) 1 = Some (10 ^ unat precision)" and m: "(10 :: rat) ^ unat precision \<le> 2 ^ 31" by (simp_all add: int_power10_run)
  moreover have "precision \<noteq> 0" using assms(1) by (simp add: word_neq_0_conv)
  moreover have "precision \<le> 10" using assms(2) by unat_arith
  ultimately show "mamaPrice_getRoundedValue (Some p) precision =
      Some (Inr (fl (of_int \<lfloor>fl (fl (10 ^ unat precision * mValue p) + 1 / 2)\<rfloor> / 10 ^ unat precision)))"
    using assms(1) by (simp add: mamaPrice_getRoundedValue_def Let_def)
  show "(10 :: rat) ^ unat precision \<le> 2 ^ 31" by (rule m)
qed

lemma rounded_ten: "mamaPrice_getRoundedValue (Some p) 10 = None"
proof -
  have "int_power10 10 1 = None" by code_simp
  then show ?thesis by (simp add: mamaPrice_getRoundedValue_def)
qed

lemma price_quoted_kept:
  assumes "0 < precision" and "precision \<le> 9" and "\<bar>k\<bar> \<le> 2 ^ 48"
  shows "mamaPrice_getRoundedValue (Some (p\<lparr>mValue := fl (of_int k / 10 ^ unat precision)\<rparr>)) precision = Some (Inr (fl (of_int k / 10 ^ unat precision)))"
  using rounded_run [OF assms(1,2)] fl_floor_recovers [OF assms(3), of "10 ^ unat precision"] by simp

text \<open>C39: rounding a price to up to nine decimal places, in doubles, when the price has at most \<open>2 ^ 47\<close> units of the last place: the result is the double
  nearest to a number with these places, the number of units differs from the exact product of the price and the power of ten by at most a half and the two
  rounding errors of product and sum, and rounding the result again changes nothing. A price that is the double nearest to a number with these places (of at most
  \<open>2 ^ 48\<close> units) is left as it is. For ten places, the last precision with a decimal name, the multiplier overflows.\<close>

theorem price_rounding:
  assumes "0 < precision" and "precision \<le> 9" and "\<bar>10 ^ unat precision * mValue p\<bar> \<le> 2 ^ 47"
  shows "(\<exists>k :: int. mamaPrice_getRoundedValue (Some p) precision = Some (Inr (fl (of_int k / 10 ^ unat precision))) \<and>
      \<bar>of_int k - 10 ^ unat precision * mValue p\<bar> \<le> 1 / 2 + (\<bar>10 ^ unat precision * mValue p\<bar> + 1) / 2 ^ 52 \<and>
      mamaPrice_getRoundedValue (Some (p\<lparr>mValue := fl (of_int k / 10 ^ unat precision)\<rparr>)) precision = Some (Inr (fl (of_int k / 10 ^ unat precision)))) \<and>
    (\<forall>j :: int. \<bar>j\<bar> \<le> 2 ^ 48 \<longrightarrow>
      mamaPrice_getRoundedValue (Some (p\<lparr>mValue := fl (of_int j / 10 ^ unat precision)\<rparr>)) precision = Some (Inr (fl (of_int j / 10 ^ unat precision)))) \<and>
    mamaPrice_getRoundedValue (Some p) 10 = None"
proof (intro conjI exI allI impI)
  let ?x = "10 ^ unat precision * mValue p" and ?k = "\<lfloor>fl (fl (10 ^ unat precision * mValue p) + 1 / 2)\<rfloor>"
  show "mamaPrice_getRoundedValue (Some p) precision = Some (Inr (fl (of_int ?k / 10 ^ unat precision)))" by (rule rounded_run) (rule assms)+
  show e: "\<bar>of_int ?k - ?x\<bar> \<le> 1 / 2 + (\<bar>?x\<bar> + 1) / 2 ^ 52" using assms(3) by (intro fl_floor_error) simp
  have "\<bar>of_int ?k\<bar> \<le> \<bar>?x\<bar> + \<bar>of_int ?k - ?x\<bar>" by linarith
  moreover have "(\<bar>?x\<bar> + 1) / 2 ^ 52 \<le> 1" using assms(3) by simp
  ultimately have "\<bar>of_int ?k\<bar> \<le> (2 ^ 47 + 3 / 2 :: rat)" using e assms(3) by linarith
  also have "\<dots> \<le> 2 ^ 48" by simp
  finally have "\<bar>?k\<bar> \<le> 2 ^ 48" by (metis of_int_abs of_int_le_iff of_int_numeral of_int_power)
  then show "mamaPrice_getRoundedValue (Some (p\<lparr>mValue := fl (of_int ?k / 10 ^ unat precision)\<rparr>)) precision = Some (Inr (fl (of_int ?k / 10 ^ unat precision)))"
    by (rule price_quoted_kept [OF assms(1,2)])
qed (rule price_quoted_kept [OF assms(1,2)], assumption, rule rounded_ten)

theorem price_rounding_witness:
  "\<exists>k :: int. mamaPrice_getRoundedValue (Some \<lparr>mValue = fl (1257 / 1000), mHints = 0\<rparr>) 2 = Some (Inr (fl (of_int k / 100))) \<and>
    \<bar>of_int k - 100 * fl (1257 / 1000)\<bar> \<le> 1 / 2 + (\<bar>100 * fl (1257 / 1000)\<bar> + 1) / 2 ^ 52"
proof -
  have "\<bar>fl (1257 / 1000) - 1257 / 1000\<bar> \<le> 1" using fl_error [of "1257 / 1000"] by simp
  then have "\<bar>100 * fl (1257 / 1000)\<bar> \<le> 1000" by linarith
  also have "(1000 :: rat) \<le> 2 ^ 47" by simp
  finally have "\<bar>100 * fl (1257 / 1000)\<bar> \<le> 2 ^ 47" .
  then show ?thesis using price_rounding [of 2 "\<lparr>mValue = fl (1257 / 1000), mHints = 0\<rparr>"] by simp blast
qed

text \<open>Near a tie the error shows: the double for 2.675 is below 2.675, and its nearest number with two places is 2.67; the code rounds it to 2.68.\<close>

lemma price_rounding_tie:
  "fl (2675 / 1000) < 2675 / 1000"
  "mamaPrice_getRoundedValue (Some \<lparr>mValue = fl (2675 / 1000), mHints = 0\<rparr>) 2 = Some (Inr (fl (268 / 100)))"
proof -
  have v: "fl (2675 / 1000) = 6023564501608038 / 2 ^ 51" by (subst fl_compute [of 1 _ 6023564501608038]) (simp_all add: power_int_def power_one_over)
  then show "fl (2675 / 1000) < 2675 / 1000" by simp
  have "fl (100 * fl (2675 / 1000)) = 535 / 2" unfolding v by (subst fl_compute [of 8 _ 4705909766881280]) (simp_all add: power_int_def power_one_over)
  then have "fl (fl (100 * fl (2675 / 1000)) + 1 / 2) = of_int 268" using fl_int [of 268] by (simp only:) simp
  then have "\<lfloor>fl (fl (10 ^ unat (2 :: price_hints) * fl (2675 / 1000)) + 1 / 2)\<rfloor> = 268" by simp
  then show "mamaPrice_getRoundedValue (Some \<lparr>mValue = fl (2675 / 1000), mHints = 0\<rparr>) 2 = Some (Inr (fl (268 / 100)))"
    using rounded_run(1) [of 2 "\<lparr>mValue = fl (2675 / 1000), mHints = 0\<rparr>"] by simp
qed

subsection \<open>Ticks\<close>

lemma to_int_nat: "n < 2 ^ (w - 1) \<Longrightarrow> to_int w (of_nat n + x) = Some (int n)" if "0 \<le> x" "x < 1"
proof -
  assume n: "n < 2 ^ (w - 1)"
  have "\<not> (of_nat n + x :: rat) < 0" using that(1) by (simp add: add_nonneg_nonneg)
  moreover have "\<lfloor>of_nat n + x\<rfloor> = int n" using that by (simp add: floor_eq_iff)
  moreover have "int n < 2 ^ (w - 1)" using n by (metis of_nat_less_iff of_nat_numeral of_nat_power)
  moreover have "- (2 ^ (w - 1)) \<le> int n" by (rule order_trans [of _ 0]) simp_all
  ultimately show ?thesis by (simp add: to_int_def Let_def)
qed

text \<open>The values that occur in a tick price are doubles, so that none of the operations rounds.\<close>

lemma tick_exact:
  assumes "n < 2 ^ a" "q < 2 ^ b" "a \<le> 6" "b \<le> 3"
  shows "fl ((of_nat n + of_nat q / 2 ^ b) / 2 ^ a) = (of_nat n + of_nat q / 2 ^ b) / 2 ^ a" (is ?t1)
    and "fl (of_nat n + of_nat q / 2 ^ b) = of_nat n + of_nat q / 2 ^ b" (is ?t2)
    and "fl (of_nat n / 2 ^ a) = of_nat n / 2 ^ a" (is ?t3)
    and "fl (of_nat q / 2 ^ b / 2 ^ a) = of_nat q / 2 ^ b / 2 ^ a" (is ?t4)
    and "fl (10 * 2 ^ a) = 10 * 2 ^ a" (is ?t5)
    and "fl (10 * (of_nat q / 2 ^ b)) = 10 * (of_nat q / 2 ^ b)" (is ?t6)
proof -
  have a: "(2 :: nat) ^ a \<le> 2 ^ 6" and b: "(2 :: nat) ^ b \<le> 2 ^ 3" using assms(3,4) by (intro power_increasing; simp)+
  then have n: "n < 64" "q < 8" using assms(1,2) by simp_all
  have p: "n * 2 ^ b \<le> 64 * 8" using n b by (intro mult_mono) auto
  have dy: "fl (of_nat k / 2 ^ c) = of_nat k / 2 ^ c" if "k \<le> 1000" "c \<le> 9" for k c using fl_dyadic [of "int k" c] that by simp
  have s: "of_nat n + of_nat q / 2 ^ b = (of_nat (n * 2 ^ b + q) :: rat) / 2 ^ b" by (simp add: add_divide_distrib)
  show ?t1 unfolding s using dy [of "n * 2 ^ b + q" "b + a"] p n assms(3,4) by (simp add: power_add)
  show ?t2 unfolding s using dy [of "n * 2 ^ b + q" b] p n assms(4) by simp
  show ?t3 using dy [of n a] n assms(3) by simp
  show ?t4 using dy [of q "b + a"] n assms(3,4) by (simp add: power_add)
  show ?t5 using dy [of "10 * 2 ^ a" 0] a by simp
  show ?t6 using dy [of "10 * q" b] n assms(4) by simp
qed

text \<open>A price of \<open>i\<close> points, \<open>n\<close> parts and \<open>q / d\<close> of a part is printed as these three numbers, the last one as a digit, when the parts are halves up to 64ths of
  a point and \<open>d\<close> is 1, 2, 4 or 8.\<close>

lemma price_tick_text:
  assumes "i < 2 ^ 31" and "n < denom" and denom: "denom = 2 ^ a" "a \<le> 6" and "q < d" and d: "d = 2 ^ b" "b \<le> 3"
    and v: "v = of_nat i + (of_nat n + of_nat q / of_nat d) / of_nat denom"
  shows "spec_fraction_text v (int denom) zeroPart =
    Some (print_nat 10 i @ [CHR 0x27] @ print_padded 2 n @ (if zeroPart \<and> 10 * q div d = 0 then [] else print_nat 10 (10 * q div d)))"
proof -
  let ?r = "of_nat q / of_nat d :: rat" and ?k = "10 * q div d"
  have D: "0 < d" "0 < denom" using assms(2,5) by auto
  have "(2 :: nat) ^ a \<le> 2 ^ 6" using denom(2) by (intro power_increasing) auto
  then have n: "n < 64" using assms(2) denom(1) by simp
  have r: "0 \<le> ?r" "?r < 1" using assms(5) D by simp_all
  have "of_nat n + ?r < of_nat denom"
  proof -
    have "(of_nat n :: rat) + 1 \<le> of_nat denom" using assms(2) by (metis Suc_leI of_nat_Suc of_nat_le_iff add.commute)
    then show ?thesis using r(2) by linarith
  qed
  then have f: "0 \<le> (of_nat n + ?r) / of_nat denom" "(of_nat n + ?r) / of_nat denom < 1" using r(1) D by (simp_all add: divide_less_eq)
  have "(2 :: rat) ^ a = of_nat denom" "(2 :: rat) ^ b = of_nat d" using denom(1) d(1) by simp_all
  note t = tick_exact [of n a q b, folded denom(1) d(1), OF assms(2,5) denom(2) d(2), unfolded this]
  have 1: "to_int 32 v = Some (int i)" unfolding v using to_int_nat [OF f, of i 32] assms(1) by simp
  have f1: "fl (v - of_int (int i)) = (of_nat n + ?r) / of_nat denom" using t(1) by (simp add: v)
  have "of_int (int denom) * ((of_nat n + ?r) / of_nat denom) = of_nat n + ?r" using D by simp
  then have 2: "to_int 32 (fl (of_int (int denom) * ((of_nat n + ?r) / of_nat denom))) = Some (int n)"
    using to_int_nat [OF r, of n 32] n t(2) by simp
  have "(of_nat n + ?r) / of_nat denom - of_nat n / of_nat denom = ?r / of_nat denom" by (simp add: add_divide_distrib)
  then have f2: "fl ((of_nat n + ?r) / of_nat denom - fl (of_int (int n) / of_int (int denom))) = ?r / of_nat denom" using t(3,4) by simp
  have "10 * of_nat denom * (?r / of_nat denom) = 10 * ?r" using D by simp
  then have f3: "fl (fl (10 * of_int (int denom)) * (?r / of_nat denom)) = 10 * ?r" using t(5,6) by simp
  have "10 * ?r = of_nat ?k + of_nat (10 * q mod d) / of_nat d" using D(1) by (simp add: field_simps flip: of_nat_mult of_nat_add)
  moreover have "of_nat (10 * q mod d) / of_nat d < (1 :: rat)" using D(1) by simp
  moreover have "?k < 10" using assms(5) by (simp add: less_mult_imp_div_less mult.commute)
  ultimately have 3: "to_int 32 (10 * ?r) = Some (int ?k)" using to_int_nat [of "of_nat (10 * q mod d) / of_nat d" ?k 32] by simp
  have "0 \<le> v" unfolding v using f(1) by (intro add_nonneg_nonneg) simp_all
  then show ?thesis using 3 unfolding spec_fraction_text_def Let_def 1 bind.bind_lunit f1 2 f2 f3
    by (simp add: not_less print_int_def print_02d_def)
qed

text \<open>Precisions and places or denominators correspond, except for no places at all, which comes back as ten.\<close>

lemma price_precision_roundtrip:
  "places \<in> {1..10} \<Longrightarrow> mamaPrice_precision2Decimals (mamaPrice_decimals2Precision places) = places"
  "mamaPrice_precision2Decimals (mamaPrice_decimals2Precision 0) = 10"
  "denom \<in> {1, 2, 4, 8, 16, 32, 64, 128, 256, 512} \<Longrightarrow> mamaPrice_precision2Denom (mamaPrice_denom2Precision denom) = denom"
proof -
  assume "places \<in> {1..10}"
  moreover from this have "uint (word_of_int places :: price_hints) = places" by (simp only: uint_word_of_int_eq) (simp add: take_bit_int_eq_self)
  ultimately show "mamaPrice_precision2Decimals (mamaPrice_decimals2Precision places) = places"
    by (simp add: mamaPrice_precision2Decimals_def mamaPrice_decimals2Precision_def)
next
  show "mamaPrice_precision2Decimals (mamaPrice_decimals2Precision 0) = 10"
    by (simp add: mamaPrice_precision2Decimals_def mamaPrice_decimals2Precision_def MAMA_PRICE_PREC_INT_def)
next
  assume "denom \<in> {1, 2, 4, 8, 16, 32, 64, 128, 256, 512}"
  then show "mamaPrice_precision2Denom (mamaPrice_denom2Precision denom) = denom"
    by (auto simp: mamaPrice_precision2Denom_def mamaPrice_denom2Precision_def MAMA_PRICE_PREC_INT_def)
qed

end
