(* ===== verification/MamaStrings.thy ===== *)
theory MamaStrings
  imports MamaMsg
begin

text \<open>
  The names of statuses, message statuses, message types and qualities: \<open>status.c\<close>, \<open>msgstatus.c\<close>, \<open>msgtype.c\<close> and \<open>quality.c\<close>.
\<close>

fun mamaStatus_stringForStatus :: "mama_status \<Rightarrow> string" where
  "mamaStatus_stringForStatus MAMA_STATUS_OK = ''STATUS_OK''"
| "mamaStatus_stringForStatus MAMA_STATUS_NOMEM = ''STATUS_NOMEM''"
| "mamaStatus_stringForStatus MAMA_STATUS_PLATFORM = ''STATUS_PLATFORM''"
| "mamaStatus_stringForStatus MAMA_STATUS_SYSTEM_ERROR = ''STATUS_SYSTEM_ERROR''"
| "mamaStatus_stringForStatus MAMA_STATUS_INVALID_ARG = ''STATUS_INVALID_ARG''"
| "mamaStatus_stringForStatus MAMA_STATUS_NULL_ARG = ''STATUS_NULL_ARG''"
| "mamaStatus_stringForStatus MAMA_STATUS_NOT_FOUND = ''STATUS_NOT_FOUND''"
| "mamaStatus_stringForStatus MAMA_STATUS_TIMER_FAILURE = ''STATUS_TIMER_FAILURE''"
| "mamaStatus_stringForStatus MAMA_STATUS_IP_NOT_FOUND = ''STATUS_IP_NOT_FOUND''"
| "mamaStatus_stringForStatus MAMA_STATUS_TIMEOUT = ''STATUS_TIMEOUT''"
| "mamaStatus_stringForStatus MAMA_STATUS_NOT_ENTITLED = ''STATUS_NOT_ENTITLED''"
| "mamaStatus_stringForStatus MAMA_STATUS_PROPERTY_TOO_LONG = ''PROPERTY_TOO_LONG''"
| "mamaStatus_stringForStatus MAMA_STATUS_MD_NOT_OPENED = ''MD_NOT_OPENED''"
| "mamaStatus_stringForStatus MAMA_STATUS_PUB_SUB_NOT_OPENED = ''PUB_SUB_NOT_OPENED''"
| "mamaStatus_stringForStatus MAMA_STATUS_ENTITLEMENTS_NOT_ENABLED = ''ENTITLEMENTS_NOT_ENABLED''"
| "mamaStatus_stringForStatus MAMA_STATUS_BAD_TRANSPORT_TYPE = ''BAD_TRANSPORT_TYPE''"
| "mamaStatus_stringForStatus MAMA_STATUS_UNSUPPORTED_IO_TYPE = ''UNSUPPORTED_IO_TYPE''"
| "mamaStatus_stringForStatus MAMA_STATUS_TOO_MANY_DISPATCHERS = ''TOO_MANY_DISPATCHERS''"
| "mamaStatus_stringForStatus MAMA_STATUS_NOT_IMPLEMENTED = ''NOT_IMPLEMENTED''"
| "mamaStatus_stringForStatus MAMA_STATUS_WRONG_FIELD_TYPE = ''WRONG_FIELD_TYPE''"
| "mamaStatus_stringForStatus MAMA_STATUS_BAD_SYMBOL = ''BAD_SYMBOL''"
| "mamaStatus_stringForStatus MAMA_STATUS_IO_ERROR = ''IO_ERROR''"
| "mamaStatus_stringForStatus MAMA_STATUS_NOT_INSTALLED = ''NOT_INSTALLED''"
| "mamaStatus_stringForStatus MAMA_STATUS_CONFLATE_ERROR = ''CONFLATE_ERROR''"
| "mamaStatus_stringForStatus MAMA_STATUS_QUEUE_FULL = ''QUEUE_FULL''"
| "mamaStatus_stringForStatus MAMA_STATUS_QUEUE_END = ''QUEUE_END''"
| "mamaStatus_stringForStatus MAMA_STATUS_NO_BRIDGE_IMPL = ''NO_BRIDGE_IMPL''"
| "mamaStatus_stringForStatus MAMA_STATUS_INVALID_QUEUE = ''INVALID_QUEUE''"
| "mamaStatus_stringForStatus MAMA_STATUS_NOT_MODIFIABLE = ''NOT_MODIFIABLE''"
| "mamaStatus_stringForStatus MAMA_STATUS_DELETE = ''STATUS_DELETE''"
| "mamaStatus_stringForStatus MAMA_STATUS_NOT_PERMISSIONED = ''MAMA_STATUS_NOT_PERMISSIONED''"
| "mamaStatus_stringForStatus MAMA_STATUS_SUBSCRIPTION_INVALID_STATE = ''MAMA_STATUS_SUBSCRIPTION_INVALID_STATE''"
| "mamaStatus_stringForStatus MAMA_STATUS_QUEUE_OPEN_OBJECTS = ''MAMA_STATUS_QUEUE_OPEN_OBJECTS''"
| "mamaStatus_stringForStatus MAMA_STATUS_SUBSCRIPTION_INVALID_TYPE = ''MAMA_STATUS_SUBSCRIPTION_INVALID_TYPE''"
| "mamaStatus_stringForStatus MAMA_STATUS_SUBSCRIPTION_GAP = ''MAMA_STATUS_SUBSCRIPTION_GAP''"
| "mamaStatus_stringForStatus MAMA_STATUS_NOT_INITIALISED = ''MAMA_STATUS_NOT_INITIALISED''"
| "mamaStatus_stringForStatus MAMA_STATUS_NO_SUBSCRIBERS = ''MAMA_STATUS_NO_SUBSCRIBERS''"
| "mamaStatus_stringForStatus MAMA_STATUS_EXPIRED = ''MAMA_STATUS_EXPIRED''"
| "mamaStatus_stringForStatus MAMA_STATUS_BANDWIDTH_EXCEEDED = ''MAMA_STATUS_BANDWIDTH_EXCEEDED''"

fun mamaMsgStatus_stringForStatus :: "mamaMsgStatus \<Rightarrow> string" where
  "mamaMsgStatus_stringForStatus MAMA_MSG_STATUS_OK = ''OK''"
| "mamaMsgStatus_stringForStatus MAMA_MSG_STATUS_LINE_DOWN = ''LINE_DOWN''"
| "mamaMsgStatus_stringForStatus MAMA_MSG_STATUS_NO_SUBSCRIBERS = ''NO_SUBSCRIBERS''"
| "mamaMsgStatus_stringForStatus MAMA_MSG_STATUS_BAD_SYMBOL = ''BAD_SYMBOL''"
| "mamaMsgStatus_stringForStatus MAMA_MSG_STATUS_EXPIRED = ''EXPIRED''"
| "mamaMsgStatus_stringForStatus MAMA_MSG_STATUS_TIMEOUT = ''TIMEOUT''"
| "mamaMsgStatus_stringForStatus MAMA_MSG_STATUS_MISC = ''MISC''"
| "mamaMsgStatus_stringForStatus MAMA_MSG_STATUS_STALE = ''STALE''"
| "mamaMsgStatus_stringForStatus MAMA_MSG_STATUS_PLATFORM_STATUS = ''PLATFORM_SPECIFIC_STATUS''"
| "mamaMsgStatus_stringForStatus MAMA_MSG_STATUS_NOT_ENTITLED = ''NOT_ENTITLED''"
| "mamaMsgStatus_stringForStatus MAMA_MSG_STATUS_NOT_FOUND = ''NOT_FOUND''"
| "mamaMsgStatus_stringForStatus MAMA_MSG_STATUS_POSSIBLY_STALE = ''POSSIBLY_STALE''"
| "mamaMsgStatus_stringForStatus MAMA_MSG_STATUS_NOT_PERMISSIONED = ''NOT_PERMISSIONED''"
| "mamaMsgStatus_stringForStatus MAMA_MSG_STATUS_TOPIC_CHANGE = ''TOPIC_CHANGE''"
| "mamaMsgStatus_stringForStatus MAMA_MSG_STATUS_BANDWIDTH_EXCEEDED = ''BANDWIDTH_EXCEEDED''"
| "mamaMsgStatus_stringForStatus MAMA_MSG_STATUS_DUPLICATE = ''DUPLICATE''"
| "mamaMsgStatus_stringForStatus MAMA_MSG_STATUS_UNKNOWN = ''UNKNOWN''"
| "mamaMsgStatus_stringForStatus (MAMA_MSG_STATUS_OTHER i) = ''error''"

fun mamaMsgType_stringForType :: "mamaMsgType \<Rightarrow> string" where
  "mamaMsgType_stringForType MAMA_MSG_TYPE_UPDATE = ''UPDATE''"
| "mamaMsgType_stringForType MAMA_MSG_TYPE_INITIAL = ''INITIAL''"
| "mamaMsgType_stringForType MAMA_MSG_TYPE_CANCEL = ''CANCEL''"
| "mamaMsgType_stringForType MAMA_MSG_TYPE_ERROR = ''ERROR''"
| "mamaMsgType_stringForType MAMA_MSG_TYPE_CORRECTION = ''CORRECTION''"
| "mamaMsgType_stringForType MAMA_MSG_TYPE_CLOSING = ''CLOSING''"
| "mamaMsgType_stringForType MAMA_MSG_TYPE_RECAP = ''RECAP''"
| "mamaMsgType_stringForType MAMA_MSG_TYPE_DELETE = ''DELETE''"
| "mamaMsgType_stringForType MAMA_MSG_TYPE_EXPIRE = ''EXPIRE''"
| "mamaMsgType_stringForType MAMA_MSG_TYPE_SNAPSHOT = ''SNAPSHOT''"
| "mamaMsgType_stringForType MAMA_MSG_TYPE_PREOPENING = ''PREOPENING''"
| "mamaMsgType_stringForType MAMA_MSG_TYPE_QUOTE = ''QUOTE''"
| "mamaMsgType_stringForType MAMA_MSG_TYPE_TRADE = ''TRADE''"
| "mamaMsgType_stringForType MAMA_MSG_TYPE_ORDER = ''ORDER''"
| "mamaMsgType_stringForType MAMA_MSG_TYPE_BOOK_INITIAL = ''BOOK_INITIAL''"
| "mamaMsgType_stringForType MAMA_MSG_TYPE_BOOK_UPDATE = ''BOOK_UPDATE''"
| "mamaMsgType_stringForType MAMA_MSG_TYPE_BOOK_CLEAR = ''BOOK_CLEAR''"
| "mamaMsgType_stringForType MAMA_MSG_TYPE_BOOK_RECAP = ''BOOK_RECAP''"
| "mamaMsgType_stringForType MAMA_MSG_TYPE_BOOK_SNAPSHOT = ''BOOK_SNAPSHOT''"
| "mamaMsgType_stringForType MAMA_MSG_TYPE_NOT_PERMISSIONED = ''NOT_PERMISSIONED''"
| "mamaMsgType_stringForType MAMA_MSG_TYPE_NOT_FOUND = ''NOT_FOUND''"
| "mamaMsgType_stringForType MAMA_MSG_TYPE_END_OF_INITIALS = ''END_OF_INITIALS''"
| "mamaMsgType_stringForType MAMA_MSG_TYPE_WOMBAT_REQUEST = ''WOMBAT_REQUEST''"
| "mamaMsgType_stringForType MAMA_MSG_TYPE_WOMBAT_CALC = ''WOMBAT_CALC''"
| "mamaMsgType_stringForType MAMA_MSG_TYPE_SEC_STATUS = ''SECURITY_STATUS''"
| "mamaMsgType_stringForType MAMA_MSG_TYPE_DDICT_SNAPSHOT = ''DDICT_SNAPSHOT''"
| "mamaMsgType_stringForType MAMA_MSG_TYPE_MISC = ''MISC''"
| "mamaMsgType_stringForType MAMA_MSG_TYPE_TIBRV = ''TIBRV''"
| "mamaMsgType_stringForType MAMA_MSG_TYPE_FEATURE_SET = ''FEATURE_SET''"
| "mamaMsgType_stringForType MAMA_MSG_TYPE_SYNC_REQUEST = ''SYNC_REQUEST''"
| "mamaMsgType_stringForType MAMA_MSG_TYPE_REFRESH = ''REFRESH''"
| "mamaMsgType_stringForType MAMA_MSG_TYPE_WORLD_VIEW = ''WORLD_VIEW''"
| "mamaMsgType_stringForType MAMA_MSG_TYPE_NEWS_QUERY = ''NEWS_QUERY''"
| "mamaMsgType_stringForType MAMA_MSG_TYPE_NULL = ''NULL''"
| "mamaMsgType_stringForType MAMA_MSG_TYPE_ENTITLEMENTS_REFRESH = ''ENTITLEMENTS_REFRESH''"
| "mamaMsgType_stringForType MAMA_MSG_TYPE_UNKNOWN = ''UNKNOWN''"
| "mamaMsgType_stringForType (MAMA_MSG_TYPE_OTHER i) = ''error''"

fun mamaQuality_convertToString :: "mamaQuality \<Rightarrow> string" where
  "mamaQuality_convertToString MAMA_QUALITY_OK = ''OK''"
| "mamaQuality_convertToString MAMA_QUALITY_MAYBE_STALE = ''MAYBE_STALE''"
| "mamaQuality_convertToString MAMA_QUALITY_STALE = ''STALE''"
| "mamaQuality_convertToString MAMA_QUALITY_PARTIAL_STALE = ''PARTIAL_STALE''"
| "mamaQuality_convertToString MAMA_QUALITY_FORCED_STALE = ''UNKNOWN''"
| "mamaQuality_convertToString MAMA_QUALITY_DUPLICATE = ''DUPLICATE''"
| "mamaQuality_convertToString MAMA_QUALITY_UNKNOWN = ''UNKNOWN''"

definition mamaQuality_convertFromString :: "string \<Rightarrow> mamaQuality" where
  "mamaQuality_convertFromString s =
    (if s = ''OK'' \<or> s = ''ok'' then MAMA_QUALITY_OK
     else if s = ''STALE'' \<or> s = ''stale'' then MAMA_QUALITY_STALE
     else if s = ''MAYBE_STALE'' \<or> s = ''maybe_stale'' then MAMA_QUALITY_MAYBE_STALE
     else if s = ''PARTIAL_STALE'' \<or> s = ''partial_stale'' then MAMA_QUALITY_PARTIAL_STALE
     else if s = ''DUPLICATE'' \<or> s = ''duplicate'' then MAMA_QUALITY_DUPLICATE
     else MAMA_QUALITY_UNKNOWN)"

text \<open>A quality is read back from its name, except that a forced stale one becomes unknown.\<close>

lemma quality_roundtrip:
  "mamaQuality_convertFromString (mamaQuality_convertToString q) = (if q = MAMA_QUALITY_FORCED_STALE then MAMA_QUALITY_UNKNOWN else q)"
  by (cases q) (simp_all add: mamaQuality_convertFromString_def)

text \<open>The names of statuses tell them apart.\<close>

definition all_statuses :: "mama_status list" where
  "all_statuses =
   [MAMA_STATUS_OK, MAMA_STATUS_NOMEM, MAMA_STATUS_PLATFORM, MAMA_STATUS_SYSTEM_ERROR,
    MAMA_STATUS_INVALID_ARG, MAMA_STATUS_NULL_ARG, MAMA_STATUS_NOT_FOUND, MAMA_STATUS_TIMER_FAILURE,
    MAMA_STATUS_IP_NOT_FOUND, MAMA_STATUS_TIMEOUT, MAMA_STATUS_NOT_ENTITLED, MAMA_STATUS_PROPERTY_TOO_LONG,
    MAMA_STATUS_MD_NOT_OPENED, MAMA_STATUS_PUB_SUB_NOT_OPENED, MAMA_STATUS_ENTITLEMENTS_NOT_ENABLED, MAMA_STATUS_BAD_TRANSPORT_TYPE,
    MAMA_STATUS_UNSUPPORTED_IO_TYPE, MAMA_STATUS_TOO_MANY_DISPATCHERS, MAMA_STATUS_NOT_IMPLEMENTED, MAMA_STATUS_WRONG_FIELD_TYPE,
    MAMA_STATUS_BAD_SYMBOL, MAMA_STATUS_IO_ERROR, MAMA_STATUS_NOT_INSTALLED, MAMA_STATUS_CONFLATE_ERROR,
    MAMA_STATUS_QUEUE_FULL, MAMA_STATUS_QUEUE_END, MAMA_STATUS_NO_BRIDGE_IMPL, MAMA_STATUS_INVALID_QUEUE,
    MAMA_STATUS_NOT_MODIFIABLE, MAMA_STATUS_DELETE, MAMA_STATUS_NOT_PERMISSIONED, MAMA_STATUS_SUBSCRIPTION_INVALID_STATE,
    MAMA_STATUS_QUEUE_OPEN_OBJECTS, MAMA_STATUS_SUBSCRIPTION_INVALID_TYPE, MAMA_STATUS_SUBSCRIPTION_GAP, MAMA_STATUS_NOT_INITIALISED,
    MAMA_STATUS_NO_SUBSCRIBERS, MAMA_STATUS_EXPIRED, MAMA_STATUS_BANDWIDTH_EXCEEDED]"

lemma status_strings_distinct: "inj mamaStatus_stringForStatus"
proof -
  have "distinct (map mamaStatus_stringForStatus all_statuses)" by code_simp
  then have "inj_on mamaStatus_stringForStatus (set all_statuses)" by (simp add: distinct_map)
  moreover have "s \<in> set all_statuses" for s by (cases s) (simp_all add: all_statuses_def)
  ultimately show ?thesis by (metis (full_types) injI inj_onD)
qed

end
