(* ===== verification/SymbolList.thy ===== *)
theory SymbolList
  imports Subscription
begin

text \<open>
  Symbol lists, \<open>symbollist.c\<close> and \<open>symbollistmember.c\<close>: a list of members, each with a symbol, a source and a transport, and handlers that are called when members are
  added and removed. The list is the sequence that \<open>list.c\<close> implements, the memory of the members a map from addresses, which are
  numbers as closures and transports are; the calls of the handlers are recorded. A list or member that may be null is an
  option, the result \<open>None\<close> of an operation an invalid access: of a freed member, or of a null string. There is one symbol
  list, so that the pointer of a member to its list says whether it has been set.
\<close>

record mamaSymbolListMemberImpl =
  memberClosure :: "nat option"
  mySource :: "string option"
  mySymbol :: "string option"
  mySymbolList :: bool
  myTransport :: "nat option"

datatype symbol_event = AddCb nat "nat option" | RemoveCb nat "nat option"

record mamaSymbolListImpl =
  myAddCb :: bool
  myClosure :: "nat option"
  myMembers :: "nat list"
  myRemoveCb :: bool
  memberHeap :: "nat \<rightharpoonup> mamaSymbolListMemberImpl"
  symbolEvents :: "symbol_event list"

definition symbol_event :: "symbol_event \<Rightarrow> mamaSymbolListImpl \<Rightarrow> mamaSymbolListImpl" where
  "symbol_event e l = l\<lparr>symbolEvents := symbolEvents l @ [e]\<rparr>"

subsection \<open>Members\<close>

text \<open>\<open>mem\<close> is the address that the allocation gives. Elements of the list are taken from and given back to its free list.\<close>

definition mamaSymbolList_allocateMember :: "nat option \<Rightarrow> mamaSymbolListImpl \<Rightarrow> nat option" where
  "mamaSymbolList_allocateMember mem l = mem"

definition mamaSymbolListMember_allocate :: "nat option \<Rightarrow> mamaSymbolListImpl \<Rightarrow> mama_status \<times> mamaSymbolListImpl" where
  "mamaSymbolListMember_allocate mem l =
    (case mamaSymbolList_allocateMember mem l of
       None \<Rightarrow> (MAMA_STATUS_NOMEM, l)
     | Some m \<Rightarrow> (MAMA_STATUS_OK, l\<lparr>memberHeap := (memberHeap l)(m \<mapsto>
         \<lparr>memberClosure = None, mySource = None, mySymbol = None, mySymbolList = True, myTransport = None\<rparr>)\<rparr>))"

text \<open>\<open>list_free_element\<close> does not free an element that is in the list.\<close>

definition mamaSymbolList_deallocateMember :: "nat option \<Rightarrow> mamaSymbolListImpl \<Rightarrow> mama_status \<times> mamaSymbolListImpl" where
  "mamaSymbolList_deallocateMember member l =
    (case member of
       None \<Rightarrow> (MAMA_STATUS_NULL_ARG, l)
     | Some m \<Rightarrow> (MAMA_STATUS_OK, if m \<in> set (myMembers l) then l else l\<lparr>memberHeap := (memberHeap l)(m := None)\<rparr>))"

definition mamaSymbolListMember_deallocate :: "nat option \<Rightarrow> mamaSymbolListImpl \<Rightarrow> (mama_status \<times> mamaSymbolListImpl) option" where
  "mamaSymbolListMember_deallocate member l =
    (case member of
       None \<Rightarrow> Some (MAMA_STATUS_NULL_ARG, l)
     | Some m \<Rightarrow> do { impl \<leftarrow> memberHeap l m;
                      Some (if mySymbolList impl then mamaSymbolList_deallocateMember (Some m) l else (MAMA_STATUS_NULL_ARG, l)) })"

text \<open>Reading and writing a member.\<close>

definition get_member :: "(mamaSymbolListMemberImpl \<Rightarrow> 'a) \<Rightarrow> nat option \<Rightarrow> mamaSymbolListImpl \<Rightarrow> (mama_status + 'a) option" where
  "get_member f member l = (case member of None \<Rightarrow> Some (Inl MAMA_STATUS_NULL_ARG) | Some m \<Rightarrow> map_option (\<lambda>impl. Inr (f impl)) (memberHeap l m))"

definition set_member :: "(mamaSymbolListMemberImpl \<Rightarrow> mamaSymbolListMemberImpl) \<Rightarrow> nat option \<Rightarrow> mamaSymbolListImpl \<Rightarrow> (mama_status \<times> mamaSymbolListImpl) option" where
  "set_member f member l =
    (case member of
       None \<Rightarrow> Some (MAMA_STATUS_NULL_ARG, l)
     | Some m \<Rightarrow> do { impl \<leftarrow> memberHeap l m; Some (MAMA_STATUS_OK, l\<lparr>memberHeap := (memberHeap l)(m \<mapsto> f impl)\<rparr>) })"

definition mamaSymbolListMember_getClosure :: "nat option \<Rightarrow> mamaSymbolListImpl \<Rightarrow> (mama_status + nat option) option" where
  "mamaSymbolListMember_getClosure = get_member memberClosure"

definition mamaSymbolListMember_getSource :: "nat option \<Rightarrow> mamaSymbolListImpl \<Rightarrow> (mama_status + string option) option" where
  "mamaSymbolListMember_getSource = get_member mySource"

definition mamaSymbolListMember_getSymbol :: "nat option \<Rightarrow> mamaSymbolListImpl \<Rightarrow> (mama_status + string option) option" where
  "mamaSymbolListMember_getSymbol = get_member mySymbol"

definition mamaSymbolListMember_getSymbolList :: "nat option \<Rightarrow> mamaSymbolListImpl \<Rightarrow> (mama_status + bool) option" where
  "mamaSymbolListMember_getSymbolList = get_member mySymbolList"

definition mamaSymbolListMember_getTransport :: "nat option \<Rightarrow> mamaSymbolListImpl \<Rightarrow> (mama_status + nat option) option" where
  "mamaSymbolListMember_getTransport = get_member myTransport"

definition mamaSymbolListMember_setClosure :: "nat option \<Rightarrow> nat option \<Rightarrow> mamaSymbolListImpl \<Rightarrow> (mama_status \<times> mamaSymbolListImpl) option" where
  "mamaSymbolListMember_setClosure member c = set_member (\<lambda>impl. impl\<lparr>memberClosure := c\<rparr>) member"

text \<open>\<open>dup\<close> says whether \<open>strdup\<close> succeeds; the old string is gone in any case.\<close>

definition mamaSymbolListMember_setSource :: "bool \<Rightarrow> nat option \<Rightarrow> string option \<Rightarrow> mamaSymbolListImpl \<Rightarrow> (mama_status \<times> mamaSymbolListImpl) option" where
  "mamaSymbolListMember_setSource dup member source l =
    (case source of
       None \<Rightarrow> Some (MAMA_STATUS_NULL_ARG, l)
     | Some s \<Rightarrow>
         do { (status, l) \<leftarrow> set_member (\<lambda>impl. impl\<lparr>mySource := if dup then Some s else None\<rparr>) member l;
              Some (if status = MAMA_STATUS_OK \<and> \<not> dup then MAMA_STATUS_NOMEM else status, l) })"

definition mamaSymbolListMember_setSymbol :: "bool \<Rightarrow> nat option \<Rightarrow> string option \<Rightarrow> mamaSymbolListImpl \<Rightarrow> (mama_status \<times> mamaSymbolListImpl) option" where
  "mamaSymbolListMember_setSymbol dup member symbol l =
    (case symbol of
       None \<Rightarrow> Some (MAMA_STATUS_NULL_ARG, l)
     | Some s \<Rightarrow>
         do { (status, l) \<leftarrow> set_member (\<lambda>impl. impl\<lparr>mySymbol := if dup then Some s else None\<rparr>) member l;
              Some (if status = MAMA_STATUS_OK \<and> \<not> dup then MAMA_STATUS_NOMEM else status, l) })"

definition mamaSymbolListMember_setSymbolList :: "nat option \<Rightarrow> bool \<Rightarrow> mamaSymbolListImpl \<Rightarrow> (mama_status \<times> mamaSymbolListImpl) option" where
  "mamaSymbolListMember_setSymbolList member b = set_member (\<lambda>impl. impl\<lparr>mySymbolList := b\<rparr>) member"

definition mamaSymbolListMember_setTransport :: "nat option \<Rightarrow> nat option \<Rightarrow> mamaSymbolListImpl \<Rightarrow> (mama_status \<times> mamaSymbolListImpl) option" where
  "mamaSymbolListMember_setTransport member t = set_member (\<lambda>impl. impl\<lparr>myTransport := t\<rparr>) member"

subsection \<open>Lists\<close>

definition mamaSymbolList_allocate :: "bool \<Rightarrow> mama_status \<times> mamaSymbolListImpl option" where
  "mamaSymbolList_allocate calloc =
    (if calloc then (MAMA_STATUS_OK, Some \<lparr>myAddCb = False, myClosure = None, myMembers = [], myRemoveCb = False, memberHeap = Map.empty, symbolEvents = []\<rparr>)
     else (MAMA_STATUS_NOMEM, None))"

definition mamaSymbolList_addMember :: "nat option \<Rightarrow> mamaSymbolListImpl \<Rightarrow> mama_status \<times> mamaSymbolListImpl" where
  "mamaSymbolList_addMember member l =
    (case member of
       None \<Rightarrow> (MAMA_STATUS_NULL_ARG, l)
     | Some m \<Rightarrow>
         (let l = l\<lparr>myMembers := myMembers l @ [m]\<rparr>
          in (MAMA_STATUS_OK, if myAddCb l then symbol_event (AddCb m (myClosure l)) l else l)))"

text \<open>\<open>strncmp\<close> compares up to a number of characters; a null string is an invalid access.\<close>

definition strncmp_equal :: "string option \<Rightarrow> string option \<Rightarrow> nat \<Rightarrow> bool option" where
  "strncmp_equal s t n = do { s \<leftarrow> s; t \<leftarrow> t; Some (take n s = take n t) }"

text \<open>The loop of the search, over the members that the iterator still has to visit. The symbol of a member is read but not compared.\<close>

fun find_loop :: "mamaSymbolListImpl \<Rightarrow> string option \<Rightarrow> nat option \<Rightarrow> nat list \<Rightarrow> nat option option" where
  "find_loop l source transport [] = Some None"
| "find_loop l source transport (m # ms) =
    do { impl \<leftarrow> memberHeap l m;
         b \<leftarrow> strncmp_equal source (mySource impl) MAMA_MAX_SOURCE_LEN;
         if b \<and> transport = myTransport impl then Some (Some m) else find_loop l source transport ms }"

definition mamaSymbolList_findMember :: "string option \<Rightarrow> string option \<Rightarrow> nat option \<Rightarrow> mamaSymbolListImpl \<Rightarrow> (mama_status \<times> nat option) option" where
  "mamaSymbolList_findMember symbol source transport l =
    do { r \<leftarrow> find_loop l source transport (myMembers l);
         Some (if r = None then MAMA_STATUS_INVALID_ARG else MAMA_STATUS_OK, r) }"

definition mamaSymbolList_removeMemberByRef :: "nat option \<Rightarrow> mamaSymbolListImpl \<Rightarrow> (mama_status \<times> mamaSymbolListImpl) option" where
  "mamaSymbolList_removeMemberByRef member l =
    (case member of
       None \<Rightarrow> Some (MAMA_STATUS_NULL_ARG, l)
     | Some m \<Rightarrow>
         (let l = l\<lparr>myMembers := remove1 m (myMembers l)\<rparr>;
              l = (if myRemoveCb l then symbol_event (RemoveCb m (myClosure l)) l else l)
          in mamaSymbolListMember_deallocate (Some m) l))"

text \<open>The last component is the pointer that is returned, to a member that has been freed.\<close>

definition mamaSymbolList_removeMember :: "string option \<Rightarrow> string option \<Rightarrow> nat option \<Rightarrow> mamaSymbolListImpl \<Rightarrow> (mama_status \<times> mamaSymbolListImpl \<times> nat option) option" where
  "mamaSymbolList_removeMember symbol source transport l =
    do { (ret, localMember) \<leftarrow> mamaSymbolList_findMember symbol source transport l;
         if ret = MAMA_STATUS_OK then
           do { (ret, l) \<leftarrow> mamaSymbolList_removeMemberByRef localMember l; Some (ret, l, localMember) }
         else Some (ret, l, localMember) }"

definition mamaSymbolListImpl_removeMember :: "nat \<Rightarrow> mamaSymbolListImpl \<Rightarrow> mamaSymbolListImpl option" where
  "mamaSymbolListImpl_removeMember m l = map_option snd (mamaSymbolList_removeMemberByRef (Some m) l)"

text \<open>\<open>list_for_each\<close> visits the elements of the list at its begin, also when the callback removes the one that is visited.\<close>

fun for_members :: "(nat \<Rightarrow> 'a \<Rightarrow> 'a option) \<Rightarrow> nat list \<Rightarrow> 'a \<Rightarrow> 'a option" where
  "for_members cb [] a = Some a"
| "for_members cb (m # ms) a = do { a \<leftarrow> cb m a; for_members cb ms a }"

definition mamaSymbolList_clear :: "bool \<Rightarrow> mamaSymbolListImpl \<Rightarrow> (mama_status \<times> mamaSymbolListImpl) option" where
  "mamaSymbolList_clear membersToo l =
    do { l \<leftarrow> (if membersToo then for_members mamaSymbolListImpl_removeMember (myMembers l) l else Some l);
         Some (MAMA_STATUS_OK, l) }"

text \<open>What is left in memory when the list has been freed: the strings of the members that were in the list.\<close>

definition mamaSymbolList_deallocate :: "mamaSymbolListImpl \<Rightarrow> (mama_status \<times> string option list) option" where
  "mamaSymbolList_deallocate l =
    do { (ret, l) \<leftarrow> mamaSymbolList_clear False l;
         Some (ret, concat (map (\<lambda>m. case memberHeap l m of None \<Rightarrow> [] | Some impl \<Rightarrow> [mySource impl, mySymbol impl]) (myMembers l))) }"

definition mamaSymbolList_deallocateWithMembers :: "mamaSymbolListImpl \<Rightarrow> (mama_status \<times> string option list) option" where
  "mamaSymbolList_deallocateWithMembers l = mamaSymbolList_deallocate l"

definition mamaSymbolList_getClosure :: "mamaSymbolListImpl option \<Rightarrow> mama_status + nat option" where
  "mamaSymbolList_getClosure l = (case l of None \<Rightarrow> Inl MAMA_STATUS_NULL_ARG | Some l \<Rightarrow> Inr (myClosure l))"

definition mamaSymbolList_getSize :: "mamaSymbolListImpl option \<Rightarrow> mama_status + nat" where
  "mamaSymbolList_getSize l = (case l of None \<Rightarrow> Inl MAMA_STATUS_NULL_ARG | Some l \<Rightarrow> Inr (length (myMembers l)))"

text \<open>The member function and the completion function of the application act on a state of its own.\<close>

definition mamaSymbolList_iterate :: "(nat \<Rightarrow> 'a \<Rightarrow> 'a) option \<Rightarrow> ('a \<Rightarrow> 'a) option \<Rightarrow> mamaSymbolListImpl \<Rightarrow> 'a \<Rightarrow> mama_status \<times> 'a" where
  "mamaSymbolList_iterate memberFunc completeFunc l a =
    (case memberFunc of
       None \<Rightarrow> (MAMA_STATUS_NULL_ARG, a)
     | Some f \<Rightarrow> (MAMA_STATUS_OK, (case completeFunc of None \<Rightarrow> id | Some g \<Rightarrow> g) (fold f (myMembers l) a)))"

definition mamaSymbolList_setAddSymbolHandler :: "bool \<Rightarrow> mamaSymbolListImpl option \<Rightarrow> mama_status \<times> mamaSymbolListImpl option" where
  "mamaSymbolList_setAddSymbolHandler cb l = (case l of None \<Rightarrow> (MAMA_STATUS_NULL_ARG, None) | Some l \<Rightarrow> (MAMA_STATUS_OK, Some (l\<lparr>myAddCb := cb\<rparr>)))"

definition mamaSymbolList_setRemoveSymbolHandler :: "bool \<Rightarrow> mamaSymbolListImpl option \<Rightarrow> mama_status \<times> mamaSymbolListImpl option" where
  "mamaSymbolList_setRemoveSymbolHandler cb l = (case l of None \<Rightarrow> (MAMA_STATUS_NULL_ARG, None) | Some l \<Rightarrow> (MAMA_STATUS_OK, Some (l\<lparr>myRemoveCb := cb\<rparr>)))"

definition mamaSymbolList_setClosure :: "nat option \<Rightarrow> mamaSymbolListImpl option \<Rightarrow> mama_status \<times> mamaSymbolListImpl option" where
  "mamaSymbolList_setClosure c l = (case l of None \<Rightarrow> (MAMA_STATUS_NULL_ARG, None) | Some l \<Rightarrow> (MAMA_STATUS_OK, Some (l\<lparr>myClosure := c\<rparr>)))"

subsection \<open>Well-formed lists\<close>

text \<open>The members are distinct, in memory, have a source and belong to the list.\<close>

definition symbols_wf :: "mamaSymbolListImpl \<Rightarrow> bool" where
  "symbols_wf l \<longleftrightarrow> distinct (myMembers l) \<and> (\<forall>m \<in> set (myMembers l). \<exists>impl. memberHeap l m = Some impl \<and> mySource impl \<noteq> None \<and> mySymbolList impl)"

definition matches :: "mamaSymbolListImpl \<Rightarrow> string \<Rightarrow> nat option \<Rightarrow> nat \<Rightarrow> bool" where
  "matches l source transport m \<longleftrightarrow> (\<exists>impl s. memberHeap l m = Some impl \<and> mySource impl = Some s \<and> take 64 s = take 64 source \<and> myTransport impl = transport)"

lemma find_loop_run:
  assumes "\<forall>m \<in> set ms. \<exists>impl. memberHeap l m = Some impl \<and> mySource impl \<noteq> None"
  shows "find_loop l (Some source) transport ms = Some (find (matches l source transport) ms)"
  using assms
proof (induction ms)
  case (Cons m ms)
  then obtain impl s where "memberHeap l m = Some impl" "mySource impl = Some s" by auto
  with Cons show ?case by (auto simp: strncmp_equal_def matches_def MAMA_MAX_SOURCE_LEN_def)
qed simp

lemma remove_ref_run:
  assumes "symbols_wf l" and "m \<in> set (myMembers l)"
  shows "mamaSymbolList_removeMemberByRef (Some m) l =
    Some (MAMA_STATUS_OK, l\<lparr>myMembers := remove1 m (myMembers l), memberHeap := (memberHeap l)(m := None),
      symbolEvents := symbolEvents l @ (if myRemoveCb l then [RemoveCb m (myClosure l)] else [])\<rparr>)"
proof -
  obtain impl where i: "memberHeap l m = Some impl" "mySymbolList impl" using assms by (auto simp: symbols_wf_def)
  have "m \<notin> set (remove1 m (myMembers l))" using assms by (simp add: symbols_wf_def)
  with i show ?thesis
    by (simp add: mamaSymbolList_removeMemberByRef_def mamaSymbolListMember_deallocate_def mamaSymbolList_deallocateMember_def symbol_event_def Let_def)
qed

lemma remove_ref_wf:
  "symbols_wf l \<Longrightarrow> m \<in> set (myMembers l) \<Longrightarrow> symbols_wf (l\<lparr>myMembers := remove1 m (myMembers l), memberHeap := (memberHeap l)(m := None), symbolEvents := ev\<rparr>)"
  by (auto simp: symbols_wf_def set_remove1_eq)

text \<open>C35: removing a member by its symbol, source and transport removes the first member with this source and transport, whatever its symbol is: with
  two symbols of the same source, the removal of the second one frees the first one and calls the handler for it. The status says that the
  removal succeeded, and the pointer that is returned is that of the freed member.\<close>

theorem remove_ignores_symbol:
  assumes "symbols_wf l" and "find (matches l source transport) (myMembers l) = Some m"
  shows "\<exists>l'. mamaSymbolList_removeMember symbol (Some source) transport l = Some (MAMA_STATUS_OK, l', Some m) \<and> symbols_wf l' \<and>
    myMembers l' = remove1 m (myMembers l) \<and> memberHeap l' = (memberHeap l)(m := None) \<and>
    symbolEvents l' = symbolEvents l @ (if myRemoveCb l then [RemoveCb m (myClosure l)] else [])"
proof -
  have m: "m \<in> set (myMembers l)" using assms(2) by (auto simp: find_Some_iff)
  have "\<forall>m \<in> set (myMembers l). \<exists>impl. memberHeap l m = Some impl \<and> mySource impl \<noteq> None" using assms(1) by (auto simp: symbols_wf_def)
  from find_loop_run [OF this] have "mamaSymbolList_findMember symbol (Some source) transport l = Some (MAMA_STATUS_OK, Some m)"
    by (simp add: mamaSymbolList_findMember_def assms(2))
  then show ?thesis using remove_ref_run [OF assms(1) m] remove_ref_wf [OF assms(1) m] by (simp add: mamaSymbolList_removeMember_def)
qed

definition two_symbols :: mamaSymbolListImpl where
  "two_symbols = \<lparr>myAddCb = False, myClosure = None, myMembers = [1, 2], myRemoveCb = True,
     memberHeap = [1 \<mapsto> \<lparr>memberClosure = None, mySource = Some ''SRC'', mySymbol = Some ''IBM'', mySymbolList = True, myTransport = Some 7\<rparr>,
       2 \<mapsto> \<lparr>memberClosure = None, mySource = Some ''SRC'', mySymbol = Some ''MSFT'', mySymbolList = True, myTransport = Some 7\<rparr>],
     symbolEvents = []\<rparr>"

theorem remove_ignores_symbol_witness:
  "\<exists>l'. mamaSymbolList_removeMember (Some ''MSFT'') (Some ''SRC'') (Some 7) two_symbols = Some (MAMA_STATUS_OK, l', Some 1) \<and>
     myMembers l' = [2] \<and> symbolEvents l' = [RemoveCb 1 None]"
proof -
  have "symbols_wf two_symbols" by (simp add: symbols_wf_def two_symbols_def)
  moreover have "find (matches two_symbols ''SRC'' (Some 7)) (myMembers two_symbols) = Some 1" by (simp add: two_symbols_def matches_def)
  ultimately obtain l' where "mamaSymbolList_removeMember (Some ''MSFT'') (Some ''SRC'') (Some 7) two_symbols = Some (MAMA_STATUS_OK, l', Some 1)"
      "myMembers l' = remove1 1 (myMembers two_symbols)"
      "symbolEvents l' = symbolEvents two_symbols @ (if myRemoveCb two_symbols then [RemoveCb 1 (myClosure two_symbols)] else [])"
    using remove_ignores_symbol [of two_symbols "''SRC''" "Some 7" 1 "Some ''MSFT''"] by blast
  then show ?thesis by (simp add: two_symbols_def)
qed

text \<open>Clearing a list with its members frees them all and calls the handler for each of them in their order.\<close>

lemma clear_loop:
  assumes "symbols_wf l" and "myMembers l = ms"
  shows "for_members mamaSymbolListImpl_removeMember ms l = Some (l\<lparr>myMembers := [], memberHeap := memberHeap l |` (- set ms),
      symbolEvents := symbolEvents l @ (if myRemoveCb l then map (\<lambda>m. RemoveCb m (myClosure l)) ms else [])\<rparr>)"
  using assms
proof (induction ms arbitrary: l)
  case Nil
  then show ?case by (simp add: restrict_map_def)
next
  case (Cons m ms)
  define ev where "ev = symbolEvents l @ (if myRemoveCb l then [RemoveCb m (myClosure l)] else [])"
  let ?l = "l\<lparr>myMembers := remove1 m (myMembers l), memberHeap := (memberHeap l)(m := None), symbolEvents := ev\<rparr>"
  have m: "m \<in> set (myMembers l)" and r: "remove1 m (myMembers l) = ms" using Cons.prems(2) by simp_all
  have h: "memberHeap ?l |` (- set ms) = memberHeap l |` (- set (m # ms))" by (auto simp: restrict_map_def fun_eq_iff)
  have f: "for_members mamaSymbolListImpl_removeMember ms ?l = Some (?l\<lparr>myMembers := [], memberHeap := memberHeap ?l |` (- set ms),
      symbolEvents := symbolEvents ?l @ (if myRemoveCb ?l then map (\<lambda>m. RemoveCb m (myClosure ?l)) ms else [])\<rparr>)"
    by (rule Cons.IH [OF remove_ref_wf [OF Cons.prems(1) m]]) (simp add: r)
  have g: "mamaSymbolListImpl_removeMember m l = Some ?l"
    using remove_ref_run [OF Cons.prems(1) m] by (simp add: mamaSymbolListImpl_removeMember_def ev_def)
  show ?case unfolding for_members.simps g Option.bind.simps(2) f h by (simp add: ev_def)
qed

lemma clear_members:
  "symbols_wf l \<Longrightarrow> mamaSymbolList_clear True l = Some (MAMA_STATUS_OK, l\<lparr>myMembers := [], memberHeap := memberHeap l |` (- set (myMembers l)),
      symbolEvents := symbolEvents l @ (if myRemoveCb l then map (\<lambda>m. RemoveCb m (myClosure l)) (myMembers l) else [])\<rparr>)"
  by (simp add: mamaSymbolList_clear_def clear_loop)

text \<open>Freeing a list, also with its members, keeps the strings of the members and does not call the handler.\<close>

lemma deallocate_leaks:
  assumes "symbols_wf l" and "m \<in> set (myMembers l)" and "memberHeap l m = Some impl"
  shows "\<exists>ss. mamaSymbolList_deallocateWithMembers l = Some (MAMA_STATUS_OK, ss) \<and> mySource impl \<in> set ss \<and> mySymbol impl \<in> set ss"
  using assms by (auto simp: mamaSymbolList_deallocateWithMembers_def mamaSymbolList_deallocate_def mamaSymbolList_clear_def intro!: bexI [of _ m])

end
