(* ===== verification/Property.thy ===== *)
theory Property
  imports WTable StrUtils
begin

text \<open>
  Properties, \<open>common/c_cpp/src/c/property.c\<close>, on top of the hash table: names with values, which are strings in memory. The memory of
  values is a map from addresses, and the table holds addresses, so that freeing a value and sharing values between two objects can
  be expressed; the memory of names is not modelled. \<open>None\<close> is an invalid access. Failing allocations are
  arguments; the environment is a function. Loading files and scanning strings with the generated scanner are not modelled.
\<close>

record properties =
  mTable :: "nat wtable"
  mKeys :: "string option list"
  mNumKeys :: nat

type_synonym value_heap = "nat \<rightharpoonup> string"

definition KEY_BLOCK_SIZE :: nat where "KEY_BLOCK_SIZE = 64"

subsection \<open>Environment variables\<close>

text \<open>\<open>strstr (value, "$(")\<close>: what is before and behind the first occurrence.\<close>

fun split_env :: "string \<Rightarrow> (string \<times> string) option" where
  "split_env (a # b # s) =
    (if a = CHR ''$'' \<and> b = CHR ''('' then Some ([], s) else map_option (\<lambda>(pre, r). (a # pre, r)) (split_env (b # s)))"
| "split_env s = None"

definition propertiesImpl_ReplaceEnvironmentVariable :: "bool \<Rightarrow> (string \<Rightarrow> string option) \<Rightarrow> string option \<Rightarrow> string option option" where
  "propertiesImpl_ReplaceEnvironmentVariable mem getenv v =
    (case v of
       None \<Rightarrow> Some None
     | Some v \<Rightarrow>
         (case split_env v of
            None \<Rightarrow> Some None
          | Some (pre, variable) \<Rightarrow>
              (let name = takeWhile (\<lambda>c. c \<noteq> CHR '')'') variable; envEnd = dropWhile (\<lambda>c. c \<noteq> CHR '')'') variable
               in if envEnd = [] then Some None
                  else (case getenv name of
                          None \<Rightarrow> Some None
                        | Some e \<Rightarrow>
                            if \<not> mem then Some None
                            else let newStringLength = length v - length name + length e - 2; s = pre @ e @ tl envEnd
                                 in if length s + 1 \<le> newStringLength then Some (Some s) else None))))"

subsection \<open>Objects\<close>

definition properties_Create :: "bool \<Rightarrow> bool \<Rightarrow> bool \<Rightarrow> properties option option" where
  "properties_Create mem mem1 mem2 =
    (if \<not> mem then Some None
     else do { t \<leftarrow> wtable_create mem1 mem2 (Some '''') 10;
               (case t of None \<Rightarrow> None | Some t \<Rightarrow> Some (Some \<lparr>mTable = t, mKeys = [], mNumKeys = 0\<rparr>)) })"

text \<open>The array of names grows by blocks; a store behind its end, or into the null pointer that a failing allocation leaves, is invalid.\<close>

definition propertiesImpl_AddKey :: "bool \<Rightarrow> string option \<Rightarrow> properties \<Rightarrow> (bool \<times> properties) option" where
  "propertiesImpl_AddKey mem name p =
    (let blocks = mNumKeys p div KEY_BLOCK_SIZE + 1;
         allocSize = blocks * KEY_BLOCK_SIZE;
         grows = (mNumKeys p mod KEY_BLOCK_SIZE = 0);
         p' = (if \<not> grows then p
               else if \<not> mem then p\<lparr>mKeys := []\<rparr>
               else if blocks = 1 then p\<lparr>mKeys := replicate allocSize None\<rparr>
               else p\<lparr>mKeys := take allocSize (mKeys p) @ replicate (allocSize - length (mKeys p)) None\<rparr>)
     in if grows \<and> \<not> mem \<and> blocks \<noteq> 1 then Some (False, p')
        else if mNumKeys p < length (mKeys p') then Some (True, p'\<lparr>mKeys := (mKeys p')[mNumKeys p := name], mNumKeys := mNumKeys p + 1\<rparr>)
        else None)"

definition free_value :: "nat \<Rightarrow> value_heap \<Rightarrow> value_heap option" where
  "free_value a h = (if h a = None then None else Some (h(a := None)))"

definition propertiesImpl_AddProperty :: "bool \<Rightarrow> bool \<Rightarrow> string option \<Rightarrow> nat option \<Rightarrow> value_heap \<times> properties \<Rightarrow> (int \<times> value_heap \<times> properties) option" where
  "propertiesImpl_AddProperty memKey memInsert name v s =
    (case s of (h, p) \<Rightarrow>
       do { let data = wtable_lookup (Some (mTable p)) name;
            (ok, p) \<leftarrow> (if data = None then propertiesImpl_AddKey memKey name p else Some (True, p));
            if \<not> ok then Some (0, h, p)
            else (case wtable_insert memInsert (Some (mTable p)) name v of
                    (ret, t) \<Rightarrow>
                      if ret = - 1 then Some (0, h, p)
                      else do { h \<leftarrow> (case data of None \<Rightarrow> Some h | Some a \<Rightarrow> if ret = 0 then free_value a h else Some h);
                                Some (1, h, p\<lparr>mTable := the t\<rparr>) }) })"

text \<open>The copies of the name and of the value: whether \<open>strdup\<close> succeeds for the name, and the address for the value.\<close>

definition properties_setProperty ::
  "(string \<Rightarrow> string option) \<Rightarrow> bool \<Rightarrow> nat option \<Rightarrow> bool \<Rightarrow> bool \<Rightarrow> string option \<Rightarrow> string option \<Rightarrow> value_heap \<times> properties \<Rightarrow> (int \<times> value_heap \<times> properties) option" where
  "properties_setProperty getenv dupName dupValue memKey memInsert name v s =
    (case (name, v) of
       (Some name, Some v) \<Rightarrow>
         do { r \<leftarrow> propertiesImpl_ReplaceEnvironmentVariable (dupValue \<noteq> None) getenv (Some v);
              let text = (case r of None \<Rightarrow> v | Some w \<Rightarrow> w);
              let h = (case dupValue of None \<Rightarrow> fst s | Some a \<Rightarrow> (fst s)(a \<mapsto> text));
              propertiesImpl_AddProperty memKey memInsert (if dupName then Some name else None) dupValue (h, snd s) }
     | _ \<Rightarrow> Some (0, s))"

text \<open>The pointer that is returned, and what it points to.\<close>

definition properties_Get :: "string option \<Rightarrow> properties option \<Rightarrow> nat option" where
  "properties_Get name p =
    (case (name, p) of
       (Some n, Some p) \<Rightarrow> if n = [] then None else wtable_lookup (Some (mTable p)) (Some n)
     | _ \<Rightarrow> None)"

definition properties_GetPropertyValueAsBoolean :: "string \<Rightarrow> bool" where
  "properties_GetPropertyValueAsBoolean v \<longleftrightarrow> v \<in> {''1'', ''y'', ''Y'', ''yes'', ''YES'', ''true'', ''TRUE'', ''t'', ''T''}"

definition properties_copy :: "nat option \<Rightarrow> string \<Rightarrow> nat wtable \<Rightarrow> nat wtable" where
  "properties_copy data key to = the (snd (wtable_insert True (Some to) (Some key) data))"

definition properties_Merge :: "properties option \<Rightarrow> properties option \<Rightarrow> properties option" where
  "properties_Merge to from =
    (case (to, from) of
       (Some to, Some from) \<Rightarrow> Some (to\<lparr>mTable := wtable_for_each (Some (mTable from)) properties_copy (mTable to)\<rparr>)
     | _ \<Rightarrow> to)"

definition properties_ForEach :: "(string \<Rightarrow> nat option \<Rightarrow> 'a \<Rightarrow> 'a) \<Rightarrow> properties \<Rightarrow> 'a \<Rightarrow> 'a" where
  "properties_ForEach cb p closure = wtable_for_each (Some (mTable p)) (\<lambda>data key. cb key data) closure"

fun free_values :: "nat option list \<Rightarrow> value_heap \<Rightarrow> value_heap option" where
  "free_values [] h = Some h"
| "free_values (d # ds) h = do { h \<leftarrow> (case d of None \<Rightarrow> Some h | Some a \<Rightarrow> free_value a h); free_values ds h }"

definition properties_Free :: "value_heap \<times> properties \<Rightarrow> value_heap option" where
  "properties_Free s = (case s of (h, p) \<Rightarrow> free_values (fst (wtable_free_all (mTable p))) h)"

definition properties_FreeEx2 :: "value_heap \<times> properties \<Rightarrow> value_heap option" where
  "properties_FreeEx2 s = Some (fst s)"

subsection \<open>Escapes\<close>

fun escape_loop :: "char list \<Rightarrow> char list \<Rightarrow> nat \<Rightarrow> string \<Rightarrow> (char list \<times> nat) option" where
  "escape_loop chars retStr retIdx [] = Some (retStr, retIdx)"
| "escape_loop chars retStr retIdx (c # cs) =
    do { (retStr, retIdx) \<leftarrow> (if c \<in> set chars then do { retStr \<leftarrow> store retStr retIdx [CHR 0x5C]; Some (retStr, retIdx + 1) } else Some (retStr, retIdx));
         retStr \<leftarrow> store retStr retIdx [c];
         escape_loop chars retStr (retIdx + 1) cs }"

text \<open>The length of the string is taken before the test for null. \<open>junk\<close> are the bytes that \<open>malloc\<close> returns.\<close>

definition properties_AddEscapes :: "bool \<Rightarrow> char list \<Rightarrow> string option \<Rightarrow> char list \<Rightarrow> nat \<Rightarrow> string option option" where
  "properties_AddEscapes mem junk src chars num =
    (case src of
       None \<Rightarrow> None
     | Some s \<Rightarrow>
         (let matches = length (filter (\<lambda>c. c \<in> set (take num chars)) s) in
          if \<not> mem then Some None
          else if matches = 0 then Some (Some s)
          else do { (retStr, retIdx) \<leftarrow> escape_loop (take num chars) (take (length s + matches + 1) junk) 0 s;
                    retStr \<leftarrow> store retStr retIdx [NUL];
                    Some (Some (c_string retStr 0)) }))"

text \<open>What escaping is meant to be, and reading it back.\<close>

fun escaped :: "char list \<Rightarrow> string \<Rightarrow> string" where
  "escaped chars [] = []"
| "escaped chars (c # cs) = (if c \<in> set chars then [CHR 0x5C, c] else [c]) @ escaped chars cs"

fun unescape :: "string \<Rightarrow> string" where
  "unescape [] = []"
| "unescape [c] = [c]"
| "unescape (c # d # cs) = (if c = CHR 0x5C then d # unescape cs else c # unescape (d # cs))"

lemma escaped_length: "length (escaped chars s) = length s + length (filter (\<lambda>c. c \<in> set chars) s)"
  by (induction s) auto

lemma escape_loop_run: "escape_loop chars buf i s = store buf i (escaped chars s) \<bind> (\<lambda>b. Some (b, i + length (escaped chars s)))"
proof (induction s arbitrary: buf i)
  case Nil
  then show ?case by (simp add: store_def)
next
  case (Cons c s)
  let ?e = "if c \<in> set chars then [CHR 0x5C, c] else [c]"
  have "escape_loop chars buf i (c # s) = store buf i ?e \<bind> (\<lambda>b. escape_loop chars b (i + length ?e) s)"
    using store_then [of buf i "[CHR 0x5C]" "[c]" "\<lambda>b. escape_loop chars b (i + 2) s"] by (auto simp: Option.bind_assoc)
  also have "\<dots> = store buf i (?e @ escaped chars s) \<bind> (\<lambda>b. Some (b, i + length ?e + length (escaped chars s)))"
    unfolding Cons.IH using store_then [of buf i ?e "escaped chars s"] by blast
  finally show ?case by (simp add: add.assoc)
qed

text \<open>Escaping fits the memory that is allocated for it, and reading back gives the string, if the backslash is escaped too.\<close>

lemma escapes_roundtrip:
  assumes "length s + length (filter (\<lambda>c. c \<in> set (take num chars)) s) < length junk" and "NUL \<notin> set s"
  shows "properties_AddEscapes True junk (Some s) chars num = Some (Some (escaped (take num chars) s))"
    and "CHR 0x5C \<in> set cs \<Longrightarrow> unescape (escaped cs s) = s"
proof -
  let ?cs = "take num chars"
  let ?n = "length s + length (filter (\<lambda>c. c \<in> set ?cs) s)"
  have n: "NUL \<notin> set (escaped ?cs s)" using assms(2) by (induction s) (auto simp: NUL_def)
  have e: "escaped ?cs s = s" if "filter (\<lambda>c. c \<in> set ?cs) s = []" using that by (induction s) (auto split: if_splits)
  let ?b = "take (?n + 1) junk"
  have "length (escaped ?cs s @ [NUL]) \<le> length ?b" using assms(1) by (simp add: escaped_length)
  then obtain b where b: "store ?b 0 (escaped ?cs s @ [NUL]) = Some b" by (simp add: store_def)
  then have "escape_loop ?cs ?b 0 s \<bind> (\<lambda>(r, i). store r i [NUL]) = Some b"
    using store_then [of ?b 0 "escaped ?cs s" "[NUL]" Some] by (simp add: escape_loop_run Option.bind_assoc)
  then show "properties_AddEscapes True junk (Some s) chars num = Some (Some (escaped ?cs s))"
    using c_string_store [OF b n] e by (auto simp: properties_AddEscapes_def Let_def bind_eq_Some_conv filter_empty_conv)
  show "unescape (escaped cs s) = s" if "CHR 0x5C \<in> set cs"
  proof (induction s)
    case (Cons c s)
    have "unescape (c # t) = c # unescape t" if "c \<noteq> CHR 0x5C" for t using that by (cases t) simp_all
    moreover have "c \<in> set cs \<or> c \<noteq> CHR 0x5C" using \<open>CHR 0x5C \<in> set cs\<close> by blast
    ultimately show ?case using Cons by auto
  qed simp
qed

subsection \<open>Setting and getting\<close>

text \<open>The replacement of a variable fits its memory exactly, and replaces the first variable.\<close>

lemma split_env_Some: "split_env v = Some (pre, r) \<Longrightarrow> v = pre @ ''$('' @ r"
  by (induction v arbitrary: pre r rule: split_env.induct) (auto split: if_splits)

lemma replace_env_run:
  "\<exists>r. propertiesImpl_ReplaceEnvironmentVariable mem getenv v = Some r"
proof -
  have "length (pre @ e @ tl (dropWhile p r)) + 1 \<le> length v - length (takeWhile p r) + length e - 2"
    if s: "split_env v = Some (pre, r)" "dropWhile p r \<noteq> []" for v pre r e and p :: "char \<Rightarrow> bool"
  proof -
    have "length r = length (takeWhile p r) + length (dropWhile p r)" by (metis length_append takeWhile_dropWhile_id)
    moreover have "length v = length pre + 2 + length r" using split_env_Some [OF s(1)] by simp
    moreover have "0 < length (dropWhile p r)" using s(2) by simp
    ultimately show ?thesis by simp
  qed
  then show ?thesis by (auto simp: propertiesImpl_ReplaceEnvironmentVariable_def Let_def split: option.splits)
qed

text \<open>What the replacement is meant to be: the text \<open>v\<close> has a first occurrence of \<open>$(\<close>, behind \<open>pre\<close>, the name of the variable runs up to the next closing
  parenthesis, and \<open>post\<close> is the rest; if the variable has a value, it takes the place of the variable, and otherwise the text is kept.\<close>

definition first_variable :: "string \<Rightarrow> string \<Rightarrow> string \<Rightarrow> string \<Rightarrow> bool" where
  "first_variable v pre name post \<longleftrightarrow> v = pre @ ''$('' @ name @ '')'' @ post \<and> CHR '')'' \<notin> set name \<and>
     (\<forall>q r. v = q @ ''$('' @ r \<longrightarrow> length pre \<le> length q)"

definition env_replaced :: "(string \<Rightarrow> string option) \<Rightarrow> string \<Rightarrow> string \<Rightarrow> bool" where
  "env_replaced getenv v w \<longleftrightarrow>
     (\<exists>pre name post e. first_variable v pre name post \<and> getenv name = Some e \<and> w = pre @ e @ post) \<or>
     (\<forall>pre name post. first_variable v pre name post \<longrightarrow> getenv name = None) \<and> w = v"

lemma split_env_first: "split_env v = Some (pre, r) \<Longrightarrow> v = q @ ''$('' @ r' \<Longrightarrow> length pre \<le> length q"
proof (induction v arbitrary: pre r q rule: split_env.induct)
  case (1 a b s)
  show ?case
  proof (cases "a = CHR ''$'' \<and> b = CHR ''(''")
    case False
    with 1(3) obtain q' where q: "q = a # q'" "b # s = q' @ ''$('' @ r'" by (cases q) auto
    obtain pre' where "split_env (b # s) = Some (pre', r)" "pre = a # pre'" using 1(2) False by (auto split: if_splits)
    then show ?thesis using 1(1) [OF False _ q(2)] q(1) by simp
  qed (use 1 in simp)
qed simp_all

lemma split_env_None: "split_env v = None \<Longrightarrow> v \<noteq> q @ ''$('' @ r"
proof (induction v arbitrary: q rule: split_env.induct)
  case (1 a b s)
  then have "\<not> (a = CHR ''$'' \<and> b = CHR ''('')" "split_env (b # s) = None" by (auto split: if_splits)
  then show ?case using 1(1) by (cases q) auto
qed (auto simp: append_eq_Cons_conv)

lemma first_variable_split: "first_variable v pre name post \<longleftrightarrow> split_env v = Some (pre, name @ '')'' @ post) \<and> CHR '')'' \<notin> set name"
proof
  assume f: "first_variable v pre name post"
  then have v: "v = pre @ ''$('' @ name @ '')'' @ post" by (simp add: first_variable_def)
  then obtain pre' r where p: "split_env v = Some (pre', r)" using split_env_None by fastforce
  note v' = split_env_Some [OF p]
  have "length pre \<le> length pre'" using f v' unfolding first_variable_def by blast
  then have "length pre = length pre'" using split_env_first [OF p v] by simp
  then show "split_env v = Some (pre, name @ '')'' @ post) \<and> CHR '')'' \<notin> set name" using f p v v' by (simp add: first_variable_def)
next
  assume "split_env v = Some (pre, name @ '')'' @ post) \<and> CHR '')'' \<notin> set name"
  then show "first_variable v pre name post" using split_env_Some split_env_first unfolding first_variable_def by blast
qed

lemma replace_env_spec:
  assumes "propertiesImpl_ReplaceEnvironmentVariable True getenv (Some v) = Some r"
  shows "env_replaced getenv v w \<longleftrightarrow> w = (case r of None \<Rightarrow> v | Some w \<Rightarrow> w)"
proof (cases "\<exists>pre name post. first_variable v pre name post")
  case True
  then obtain pre name post where f: "first_variable v pre name post" by blast
  then have s: "split_env v = Some (pre, name @ '')'' @ post)" "CHR '')'' \<notin> set name" by (simp_all add: first_variable_split)
  have w: "takeWhile (\<lambda>c. c \<noteq> CHR '')'') (x @ '')'' @ y) = x" "dropWhile (\<lambda>c. c \<noteq> CHR '')'') (x @ '')'' @ y) = '')'' @ y" if "CHR '')'' \<notin> set x" for x y
    using that by (induction x) auto
  have u: "pre' = pre \<and> name' = name \<and> post' = post" if "first_variable v pre' name' post'" for pre' name' post'
  proof -
    have "name' @ '')'' @ post' = name @ '')'' @ post" "CHR '')'' \<notin> set name'" "pre' = pre" using that s by (auto simp: first_variable_split)
    then show ?thesis using w [OF s(2), of post] w [of name' post'] by simp
  qed
  have "r = map_option (\<lambda>e. pre @ e @ post) (getenv name)" using assms s(1) w [OF s(2), of post]
    by (auto simp: propertiesImpl_ReplaceEnvironmentVariable_def Let_def split: option.splits if_splits)
  moreover have "env_replaced getenv v w \<longleftrightarrow> w = (case getenv name of None \<Rightarrow> v | Some e \<Rightarrow> pre @ e @ post)"
  proof -
    have "first_variable v x y z \<longleftrightarrow> x = pre \<and> y = name \<and> z = post" for x y z using f u [of x y z] by auto
    then show ?thesis unfolding env_replaced_def by (cases "getenv name") simp_all
  qed
  ultimately show ?thesis by (cases "getenv name") simp_all
next
  case False
  then have "env_replaced getenv v w \<longleftrightarrow> w = v" by (auto simp: env_replaced_def)
  moreover have "r = None"
  proof (cases "split_env v")
    case None then show ?thesis using assms by (simp add: propertiesImpl_ReplaceEnvironmentVariable_def)
  next
    case (Some q)
    obtain pre rest where q: "q = (pre, rest)" by force
    have "dropWhile (\<lambda>c. c \<noteq> CHR '')'') rest = []"
    proof (rule ccontr)
      assume d: "dropWhile (\<lambda>c. c \<noteq> CHR '')'') rest \<noteq> []"
      let ?n = "takeWhile (\<lambda>c. c \<noteq> CHR '')'') rest"
      have "rest = ?n @ '')'' @ tl (dropWhile (\<lambda>c. c \<noteq> CHR '')'') rest)" using d hd_dropWhile [OF d] by (metis append_Cons append_Nil hd_Cons_tl takeWhile_dropWhile_id)
      moreover have "CHR '')'' \<notin> set ?n" by (auto dest: set_takeWhileD)
      ultimately show False using False Some unfolding q first_variable_split by metis
    qed
    then show ?thesis using assms Some q by (simp add: propertiesImpl_ReplaceEnvironmentVariable_def)
  qed
  ultimately show ?thesis by simp
qed

text \<open>The contents of an object, and its invariant: every name has a value in memory of its own, and the names are in the array, which ends in whole blocks.\<close>

definition contents :: "value_heap \<times> properties \<Rightarrow> string \<rightharpoonup> string" where
  "contents s k = (case s of (h, p) \<Rightarrow> do { a \<leftarrow> wtable_lookup (Some (mTable p)) (Some k); h a })"

definition props_inv :: "value_heap \<times> properties \<Rightarrow> bool" where
  "props_inv s = (case s of (h, p) \<Rightarrow>
     wt_inv (mTable p) \<and> (\<forall>k d. wt_map (mTable p) k = Some d \<longrightarrow> (case d of None \<Rightarrow> False | Some a \<Rightarrow> h a \<noteq> None)) \<and>
     (\<forall>k k' a. wt_map (mTable p) k = Some (Some a) \<and> wt_map (mTable p) k' = Some (Some a) \<longrightarrow> k = k') \<and>
     length (mKeys p) = (mNumKeys p + 63) div 64 * 64 \<and> distinct (take (mNumKeys p) (mKeys p)) \<and>
     set (take (mNumKeys p) (mKeys p)) = Some ` dom (wt_map (mTable p)))"

lemma contents_map: "contents (h, p) k = (case wt_map (mTable p) k of Some (Some a) \<Rightarrow> h a | _ \<Rightarrow> None)"
  by (auto simp: contents_def wtable_lookup_map split: option.splits)

text \<open>A new name is added to the array.\<close>

lemma add_key_run:
  assumes "length (mKeys p) = (mNumKeys p + 63) div 64 * 64"
  shows "\<exists>p'. propertiesImpl_AddKey True name p = Some (True, p') \<and> mTable p' = mTable p \<and> mNumKeys p' = mNumKeys p + 1 \<and>
    length (mKeys p') = (mNumKeys p' + 63) div 64 * 64 \<and> take (mNumKeys p') (mKeys p') = take (mNumKeys p) (mKeys p) @ [name]"
proof -
  define n where "n = mNumKeys p"
  define ks where "ks = (if n mod 64 = 0 then take ((n div 64 + 1) * 64) (mKeys p) @ replicate ((n div 64 + 1) * 64 - length (mKeys p)) None else mKeys p)"
  have len: "length ks = (n div 64 + 1) * 64"
  proof (cases "n mod 64 = 0")
    case True
    then have "length (mKeys p) = n div 64 * 64" using assms by (auto simp: n_def [symmetric] elim!: dvdE)
    then show ?thesis using True by (simp add: ks_def)
  next
    case False
    have "(64 * q + r + 63) div 64 = q + 1" if r: "0 < r" "r < 64" for q r :: nat
    proof -
      have "64 * q + r + 63 = 64 * (q + 1) + (r - 1)" using r by simp
      then show ?thesis using r by (simp only: div_mult_self4)
    qed
    from this [of "n mod 64" "n div 64"] have "(n + 63) div 64 = n div 64 + 1" using False by simp
    then show ?thesis using False assms by (simp add: ks_def n_def [symmetric])
  qed
  have tk: "take n ks = take n (mKeys p)"
  proof (cases "n mod 64 = 0")
    case True
    then have l: "length (mKeys p) = n" using assms by (auto simp: n_def [symmetric] elim!: dvdE)
    have "take ((n div 64 + 1) * 64) (mKeys p) = mKeys p" using l by simp
    then show ?thesis using True l by (simp add: ks_def)
  qed (simp add: ks_def)
  have lt: "n < length ks" unfolding len using dividend_less_times_div [of 64 n] by simp
  have "propertiesImpl_AddKey True name p = Some (True, p\<lparr>mKeys := ks[n := name], mNumKeys := n + 1\<rparr>)"
  proof (cases "n div 64 = 0 \<and> n mod 64 = 0")
    case True
    then have "n = 0" "mKeys p = []" using assms by (auto simp: n_def [symmetric])
    then show ?thesis by (simp add: propertiesImpl_AddKey_def ks_def KEY_BLOCK_SIZE_def n_def [symmetric])
  next
    case False
    then show ?thesis using lt by (auto simp: propertiesImpl_AddKey_def ks_def KEY_BLOCK_SIZE_def Let_def n_def [symmetric])
  qed
  moreover have "take (n + 1) (ks[n := name]) = take n (mKeys p) @ [name]" using lt tk by (simp add: take_Suc_conv_app_nth)
  moreover have "(n + 1 + 63) div 64 * 64 = (n div 64 + 1) * 64" by simp
  ultimately show ?thesis using len by (simp add: n_def [symmetric])
qed

text \<open>Adding a value at a fresh address.\<close>

lemma add_property_run:
  assumes inv: "props_inv (h, p)" and a: "h a = None"
  shows "\<exists>h' p'. propertiesImpl_AddProperty True True (Some n) (Some a) (h(a \<mapsto> w), p) = Some (1, h', p') \<and> props_inv (h', p') \<and>
    contents (h', p') = (contents (h, p))(n \<mapsto> w) \<and>
    h' = (case wtable_lookup (Some (mTable p)) (Some n) of None \<Rightarrow> h(a \<mapsto> w) | Some b \<Rightarrow> (h(a \<mapsto> w))(b := None))"
proof (cases "wt_map (mTable p) n")
  case None
  let ?t = "wt_put (mTable p) n (Some a)"
  have wt: "wt_inv (mTable p)" using inv by (simp add: props_inv_def)
  obtain p1 where p1: "propertiesImpl_AddKey True (Some n) p = Some (True, p1)" "mTable p1 = mTable p" "mNumKeys p1 = mNumKeys p + 1"
      "length (mKeys p1) = (mNumKeys p1 + 63) div 64 * 64" "take (mNumKeys p1) (mKeys p1) = take (mNumKeys p) (mKeys p) @ [Some n]"
    using add_key_run [of p "Some n"] inv by (auto simp: props_inv_def)
  have "n \<notin> dom (wt_map (mTable p))" using None by (simp add: domIff)
  then have r: "propertiesImpl_AddProperty True True (Some n) (Some a) (h(a \<mapsto> w), p) = Some (1, h(a \<mapsto> w), p1\<lparr>mTable := ?t\<rparr>)"
    by (simp add: propertiesImpl_AddProperty_def wtable_lookup_map None p1(1,2) wtable_insert_Some)
  have fresh: "wt_map (mTable p) k \<noteq> Some (Some a)" for k using inv a by (fastforce simp: props_inv_def)
  have "props_inv (h(a \<mapsto> w), p1\<lparr>mTable := ?t\<rparr>)"
    using inv None fresh p1(4,5) by (auto simp: props_inv_def wt.tmap_put wt.inv_put split: option.splits)
  moreover have "contents (h(a \<mapsto> w), p1\<lparr>mTable := ?t\<rparr>) = (contents (h, p))(n \<mapsto> w)"
    using fresh by (rule_tac ext) (auto simp: contents_map wt.tmap_put [OF wt] split: option.splits)
  ultimately show ?thesis using r by (simp add: wtable_lookup_map None)
next
  case (Some d)
  let ?t = "wt_put (mTable p) n (Some a)"
  have wt: "wt_inv (mTable p)" using inv by (simp add: props_inv_def)
  have "case d of None \<Rightarrow> False | Some a \<Rightarrow> h a \<noteq> None" using inv Some by (simp add: props_inv_def)
  then obtain b w' where b: "d = Some b" "h b = Some w'" by (auto split: option.splits)
  have ab: "a \<noteq> b" using a b(2) by auto
  have dm: "n \<in> dom (wt_map (mTable p))" using Some by (simp add: domIff)
  have r: "propertiesImpl_AddProperty True True (Some n) (Some a) (h(a \<mapsto> w), p) = Some (1, (h(a \<mapsto> w))(b := None), p\<lparr>mTable := ?t\<rparr>)"
    using b ab dm by (simp add: propertiesImpl_AddProperty_def wtable_lookup_map Some wtable_insert_Some free_value_def)
  have fresh: "wt_map (mTable p) k \<noteq> Some (Some a)" for k using inv a by (fastforce simp: props_inv_def)
  have other: "k = n" if "wt_map (mTable p) k = Some (Some b)" for k using that inv Some b(1) unfolding props_inv_def by blast
  have "props_inv ((h(a \<mapsto> w))(b := None), p\<lparr>mTable := ?t\<rparr>)" using inv fresh other ab dm by (auto simp: props_inv_def wt.tmap_put wt.inv_put insert_absorb split: option.splits)
  moreover have "contents ((h(a \<mapsto> w))(b := None), p\<lparr>mTable := ?t\<rparr>) = (contents (h, p))(n \<mapsto> w)"
    using fresh other ab by (rule_tac ext) (auto simp: contents_map wt.tmap_put [OF wt] split: option.splits)
  ultimately show ?thesis using r by (simp add: wtable_lookup_map Some b(1))
qed

text \<open>C28: setting a property refines the update of a map, when the allocations succeed: the call succeeds without invalid accesses, the name gets the value with
  its first environment variable replaced (only the first one, and only if it has a value: \<open>env_replaced\<close>), all other names keep their values, and the invariant is
  kept. Of the memory of values exactly this has changed: the new value is at the new address, and the value that the name had before, if any, is freed. Getting
  the property returns a pointer to its value.\<close>

theorem set_property_refines:
  assumes "props_inv (h, p)" and "h a = None" and "n \<noteq> []"
  shows "\<exists>h' p' w. properties_setProperty getenv True (Some a) True True (Some n) (Some v) (h, p) = Some (1, h', p') \<and> props_inv (h', p') \<and>
    env_replaced getenv v w \<and> contents (h', p') = (contents (h, p))(n \<mapsto> w) \<and> properties_Get (Some n) (Some p') = Some a \<and>
    h' = (case properties_Get (Some n) (Some p) of None \<Rightarrow> h(a \<mapsto> w) | Some old \<Rightarrow> (h(a \<mapsto> w))(old := None)) \<and> h' a = Some w"
proof -
  obtain r where r: "propertiesImpl_ReplaceEnvironmentVariable True getenv (Some v) = Some r" using replace_env_run by blast
  define w where "w = (case r of None \<Rightarrow> v | Some w \<Rightarrow> w)"
  have e: "env_replaced getenv v w" using replace_env_spec [OF r] by (simp add: w_def)
  from add_property_run [OF assms(1,2), of n w] obtain h' p' where
    s: "propertiesImpl_AddProperty True True (Some n) (Some a) (h(a \<mapsto> w), p) = Some (1, h', p')" "props_inv (h', p')"
      "contents (h', p') = (contents (h, p))(n \<mapsto> w)"
      "h' = (case properties_Get (Some n) (Some p) of None \<Rightarrow> h(a \<mapsto> w) | Some old \<Rightarrow> (h(a \<mapsto> w))(old := None))"
    using assms(3) unfolding properties_Get_def by auto
  have i: "properties_Get (Some n) (Some p') = Some a"
    using s(1) assms(1,3) by (auto simp: propertiesImpl_AddProperty_def properties_Get_def bind_eq_Some_conv wtable_insert_Some wtable_lookup_map
      wt.tmap_put props_inv_def propertiesImpl_AddKey_def Let_def split: if_splits option.splits)
  moreover have "h' a = Some w" using i s(3) assms(3) by (simp add: properties_Get_def contents_def fun_eq_iff) (metis (no_types, lifting) bind.bind_lunit)
  moreover have "properties_setProperty getenv True (Some a) True True (Some n) (Some v) (h, p) = Some (1, h', p')"
    using s(1) r unfolding properties_setProperty_def w_def by simp
  ultimately show ?thesis using s(2-4) e by blast
qed

lemma create_inv: "\<exists>p. properties_Create True True True = Some (Some p) \<and> props_inv (Map.empty, p) \<and> contents (Map.empty, p) = Map.empty"
proof -
  obtain t :: "nat wtable" where "wtable_create True True (Some '''') 10 = Some (Some t)" "wt_inv t" "wt_map t = Map.empty" using wtable_create_wf [of 10] by auto
  then show ?thesis by (intro exI [of _ "\<lparr>mTable = t, mKeys = [], mNumKeys = 0\<rparr>"]) (simp add: properties_Create_def props_inv_def contents_def fun_eq_iff)
qed

theorem set_property_refines_witness:
  "\<exists>p h' p'. properties_Create True True True = Some (Some p) \<and>
     properties_setProperty (\<lambda>x. Some ''abc'') True (Some 5) True True (Some ''k'') (Some ''x$(V)y'') (Map.empty, p) = Some (1, h', p') \<and>
     contents (h', p') ''k'' = Some ''xabcy''"
proof -
  obtain p where p: "properties_Create True True True = Some (Some p)" "props_inv (Map.empty, p)" using create_inv by blast
  have "propertiesImpl_ReplaceEnvironmentVariable True (\<lambda>x. Some ''abc'') (Some ''x$(V)y'') = Some (Some ''xabcy'')"
    by (simp add: propertiesImpl_ReplaceEnvironmentVariable_def)
  then have "env_replaced (\<lambda>x. Some ''abc'') ''x$(V)y'' w \<longleftrightarrow> w = ''xabcy''" for w by (simp add: replace_env_spec)
  then show ?thesis using p set_property_refines [of Map.empty p 5 "''k''" "\<lambda>x. Some ''abc''" "''x$(V)y''"] by auto
qed

subsection \<open>Merging\<close>

text \<open>Merging gives the properties of both objects, those of the second one override.\<close>

lemma merge_map:
  assumes "wt_inv (mTable to)" and "wt_inv (mTable from)"
  obtains p where "properties_Merge (Some to) (Some from) = Some p" "wt_inv (mTable p)" "wt_map (mTable p) = wt_map (mTable to) ++ wt_map (mTable from)"
proof -
  have "wt_inv (fold (\<lambda>(k, d). properties_copy d k) es t) \<and> wt_map (fold (\<lambda>(k, d). properties_copy d k) es t) = wt_map t ++ map_of (rev es)"
    if "wt_inv t" for es and t :: "nat wtable" using that
  proof (induction es arbitrary: t)
    case (Cons e es)
    obtain k d where e: "e = (k, d)" by (cases e)
    have "properties_copy d k t = wt_put t k d" by (simp add: properties_copy_def wtable_insert_Some)
    then show ?case using Cons.IH [OF wt.inv_put [OF Cons.prems]] by (simp add: e wt.tmap_put [OF Cons.prems] map_add_def fun_eq_iff split: option.splits)
  qed simp
  from this [OF assms(1), of "wt_entries (mTable from)"]
  have "wt_inv (fold (\<lambda>(k, d). properties_copy d k) (wt_entries (mTable from)) (mTable to))"
    "wt_map (fold (\<lambda>(k, d). properties_copy d k) (wt_entries (mTable from)) (mTable to)) = wt_map (mTable to) ++ map_of (rev (wt_entries (mTable from)))" by simp_all
  moreover have "map_of (rev (wt_entries (mTable from))) = wt_map (mTable from)"
    using wt.tmap_entries [OF assms(2)] wt.distinct_entries [OF assms(2)] by (metis distinct_rev map_of_inject_set rev_map set_rev)
  ultimately show ?thesis using that by (simp add: properties_Merge_def wtable_for_each_entries [OF assms(2)])
qed

text \<open>The values are shared after that: setting a property of the merged object frees the value that the other object still has.\<close>

lemma merge_shares:
  assumes "wt_inv (mTable to)" and "props_inv (h, from)" and "wt_map (mTable from) n = Some (Some b)" and "h a = None" and "n \<noteq> []"
    and "properties_Merge (Some to) (Some from) = Some p"
    and "propertiesImpl_AddProperty True True (Some n) (Some a) (h(a \<mapsto> w), p) = Some (1, h', p')"
  shows "properties_Get (Some n) (Some from) = Some b \<and> h' b = None"
proof -
  have wt: "wt_inv (mTable from)" using assms(2) by (simp add: props_inv_def)
  have "case Some b of None \<Rightarrow> False | Some a \<Rightarrow> h a \<noteq> None" using assms(2,3) unfolding props_inv_def by blast
  then have b: "h b \<noteq> None" "a \<noteq> b" using assms(4) by auto
  obtain q where "properties_Merge (Some to) (Some from) = Some q" "wt_map (mTable q) = wt_map (mTable to) ++ wt_map (mTable from)" using merge_map [OF assms(1) wt] by blast
  then have m: "wt_map (mTable p) n = Some (Some b)" using assms(3,6) by simp
  then have "n \<in> dom (wt_map (mTable p))" by blast
  then have "h' b = None" using assms(7) m b by (auto simp: propertiesImpl_AddProperty_def wtable_lookup_map wtable_insert_Some free_value_def split: if_splits)
  then show ?thesis using assms(3,5) by (simp add: properties_Get_def wtable_lookup_map)
qed

end
