(* ===== verification/DqPublisher.thy ===== *)
theory DqPublisher
  imports MamaMsg DateTimeFormat
begin

text \<open>
  The publisher of \<open>mama/c_cpp/src/c/dqpublisher.c\<close>, which puts sequence numbers, statuses, sender ids and send times on
  the messages it sends. Whether the payload of a message accepts an update is the business of the payload bridge: the
  parameter \<open>payload\<close> says for each kind of update and message whether it succeeds; an update that fails leaves the message as
  it is, since the code ignores most of these results. The temporary copy that \<open>mamaMsg_getTempCopy\<close> returns (the message itself
  when it may be modified) is a parameter as well, \<open>None\<close> when no copy could be made; the three calls of a send return the
  same copy. The clock is the result of \<open>gettimeofday\<close>.
\<close>

subsection \<open>Messages to be published\<close>

datatype senderIdType = MAMA_FIELD_TYPE_U16 | MAMA_FIELD_TYPE_U32 | MAMA_FIELD_TYPE_U64 | MAMA_FIELD_TYPE_NONE

datatype sendTime = SendTimeI64 u64 | SendTimeString string | SendTimeTime u64 | SendTimeOther

text \<open>The type of the sender id field matters when \<open>fSenderId\<close> is there; \<open>MAMA_FIELD_TYPE_NONE\<close> stands for all types that the
  code does not support.\<close>

record pubMsg =
  wire :: mamaMsg
  fSenderIdType :: senderIdType
  fSendTime :: "sendTime option"

datatype payload_op = UpdateStatusU8 | UpdateStatusI16 | UpdateSeqNum | UpdateSenderId | AddSenderId | UpdateSendTime | AddSendTime

type_synonym payload = "payload_op \<Rightarrow> pubMsg \<Rightarrow> bool"

definition attempt :: "payload \<Rightarrow> payload_op \<Rightarrow> (pubMsg \<Rightarrow> pubMsg) \<Rightarrow> pubMsg \<Rightarrow> pubMsg" where
  "attempt payload p f m = (if payload p m then f m else m)"

definition upd_wire :: "(mamaMsg \<Rightarrow> mamaMsg) \<Rightarrow> pubMsg \<Rightarrow> pubMsg" where
  "upd_wire f m = m\<lparr>wire := f (wire m)\<rparr>"

subsection \<open>The publisher\<close>

record mamaDQPublisherImpl =
  pubPublisher :: bool
  pubStatus :: mamaMsgStatus
  pubSenderId :: u64
  pubSeqNum :: u32
  pubClosure :: "nat option"
  pubCache :: "nat option"
  pubSendTime :: "u64 option"
  pubSendTimeFormat :: string

definition MAX_DATE_STR :: nat where "MAX_DATE_STR = 50"

definition mamaDQPublisher_allocate :: "bool \<Rightarrow> u64 \<Rightarrow> mamaDQPublisherImpl option \<times> mama_status" where
  "mamaDQPublisher_allocate callocOk self =
    (if \<not> callocOk then (None, MAMA_STATUS_NOMEM)
     else (Some \<lparr>pubPublisher = False, pubStatus = MAMA_MSG_STATUS_OK, pubSenderId = self, pubSeqNum = 1, pubClosure = None,
       pubCache = None, pubSendTime = None, pubSendTimeFormat = ''%T%;''\<rparr>, MAMA_STATUS_OK))"

definition mamaDQPublisher_create :: "mama_status \<Rightarrow> mamaDQPublisherImpl \<Rightarrow> mamaDQPublisherImpl \<times> mama_status" where
  "mamaDQPublisher_create status pub = (pub\<lparr>pubPublisher := (status = MAMA_STATUS_OK)\<rparr>, status)"

definition mamaDQPublisher_setStatus :: "mamaMsgStatus \<Rightarrow> mamaDQPublisherImpl \<Rightarrow> mamaDQPublisherImpl" where
  "mamaDQPublisher_setStatus status pub = pub\<lparr>pubStatus := status\<rparr>"

definition mamaDQPublisher_setSenderId :: "u64 \<Rightarrow> mamaDQPublisherImpl \<Rightarrow> mamaDQPublisherImpl" where
  "mamaDQPublisher_setSenderId senderid pub = pub\<lparr>pubSenderId := senderid\<rparr>"

definition mamaDQPublisher_setSeqNum :: "u32 \<Rightarrow> mamaDQPublisherImpl \<Rightarrow> mamaDQPublisherImpl" where
  "mamaDQPublisher_setSeqNum num pub = pub\<lparr>pubSeqNum := num\<rparr>"

definition mamaDQPublisher_setCache :: "nat option \<Rightarrow> mamaDQPublisherImpl \<Rightarrow> mamaDQPublisherImpl" where
  "mamaDQPublisher_setCache cache pub = pub\<lparr>pubCache := cache\<rparr>"

definition mamaDQPublisher_getCache :: "mamaDQPublisherImpl \<Rightarrow> nat option" where
  "mamaDQPublisher_getCache pub = pubCache pub"

definition mamaDQPublisher_setClosure :: "nat option \<Rightarrow> mamaDQPublisherImpl \<Rightarrow> mamaDQPublisherImpl" where
  "mamaDQPublisher_setClosure closure pub = pub\<lparr>pubClosure := closure\<rparr>"

definition mamaDQPublisher_getClosure :: "mamaDQPublisherImpl \<Rightarrow> nat option" where
  "mamaDQPublisher_getClosure pub = pubClosure pub"

text \<open>Creating the date-time may fail for lack of memory, and then there is none.\<close>

definition mamaDQPublisher_enableSendTime :: "bool \<Rightarrow> bool \<Rightarrow> mamaDQPublisherImpl \<Rightarrow> mamaDQPublisherImpl" where
  "mamaDQPublisher_enableSendTime mallocOk enable pub =
    (if enable then (if pubSendTime pub = None then pub\<lparr>pubSendTime := fst (mamaDateTime_create mallocOk)\<rparr> else pub)
     else pub\<lparr>pubSendTime := None\<rparr>)"

subsection \<open>Sending\<close>

definition updateSenderId :: "payload \<Rightarrow> mamaDQPublisherImpl \<Rightarrow> pubMsg \<Rightarrow> pubMsg" where
  "updateSenderId payload pub m =
    (let i = pubSenderId pub
     in if fSenderId (wire m) \<noteq> None then
          (case fSenderIdType m of
             MAMA_FIELD_TYPE_U16 \<Rightarrow> attempt payload UpdateSenderId (upd_wire (\<lambda>w. w\<lparr>fSenderId := Some (ucast (ucast i :: u16))\<rparr>)) m
           | MAMA_FIELD_TYPE_U32 \<Rightarrow> attempt payload UpdateSenderId (upd_wire (\<lambda>w. w\<lparr>fSenderId := Some (ucast (ucast i :: u32))\<rparr>)) m
           | MAMA_FIELD_TYPE_U64 \<Rightarrow> attempt payload UpdateSenderId (upd_wire (\<lambda>w. w\<lparr>fSenderId := Some i\<rparr>)) m
           | MAMA_FIELD_TYPE_NONE \<Rightarrow> m)
        else attempt payload AddSenderId (\<lambda>m. upd_wire (\<lambda>w. w\<lparr>fSenderId := Some i\<rparr>) (m\<lparr>fSenderIdType := MAMA_FIELD_TYPE_U64\<rparr>)) m)"

text \<open>The time is set before it is put into the message; formatting it is the only operation that could write outside of its buffer.\<close>

definition stamp :: "payload \<Rightarrow> mamaDQPublisherImpl \<Rightarrow> pubMsg \<Rightarrow> pubMsg option" where
  "stamp payload pub m =
    (case pubSendTime pub of
       None \<Rightarrow> Some m
     | Some t \<Rightarrow>
         (case fSendTime m of
            Some (SendTimeI64 _) \<Rightarrow>
              Some (attempt payload UpdateSendTime
                (\<lambda>m. m\<lparr>fSendTime := map_option SendTimeI64 (fst (mamaDateTime_getEpochTimeMillisecondsWithTz (Some t) None))\<rparr>) m)
          | Some (SendTimeString _) \<Rightarrow>
              do { (s, st) \<leftarrow> mamaDateTime_getAsFormattedStringWithTz (Some t) MAX_DATE_STR (pubSendTimeFormat pub) (Some 0);
                   Some (attempt payload UpdateSendTime (\<lambda>m. m\<lparr>fSendTime := map_option SendTimeString s\<rparr>) m) }
          | Some (SendTimeTime _) \<Rightarrow> Some (attempt payload UpdateSendTime (\<lambda>m. m\<lparr>fSendTime := Some (SendTimeTime t)\<rparr>) m)
          | Some SendTimeOther \<Rightarrow> Some m
          | None \<Rightarrow> Some (attempt payload AddSendTime (\<lambda>m. m\<lparr>fSendTime := Some (SendTimeTime t)\<rparr>) m)))"

definition updateSendTime :: "payload \<Rightarrow> (u64 \<times> u64) option \<Rightarrow> mamaDQPublisherImpl \<Rightarrow> pubMsg \<Rightarrow> (mamaDQPublisherImpl \<times> pubMsg) option" where
  "updateSendTime payload now pub m =
    do { let pub = pub\<lparr>pubSendTime := fst (mamaDateTime_setToNow now (pubSendTime pub))\<rparr>;
         m \<leftarrow> stamp payload pub m;
         Some (pub, m) }"

text \<open>The status is written as an 8-bit or, if that fails, as a 16-bit number.\<close>

definition updateMsgStatus :: "payload \<Rightarrow> mamaDQPublisherImpl \<Rightarrow> pubMsg \<Rightarrow> pubMsg" where
  "updateMsgStatus payload pub m =
    (let set_status = upd_wire (\<lambda>w. w\<lparr>fMsgStatus := Some (pubStatus pub)\<rparr>)
     in if payload UpdateStatusU8 m then set_status m else attempt payload UpdateStatusI16 set_status m)"

definition updateSeqNum :: "payload \<Rightarrow> mamaDQPublisherImpl \<Rightarrow> pubMsg \<Rightarrow> pubMsg" where
  "updateSeqNum payload pub m = attempt payload UpdateSeqNum (upd_wire (\<lambda>w. w\<lparr>fSeqNum := Some (ucast (pubSeqNum pub))\<rparr>)) m"

text \<open>The effect of the message type on the sequence number and the status.\<close>

definition number_by_type :: "payload \<Rightarrow> mamaDQPublisherImpl \<Rightarrow> pubMsg \<Rightarrow> mamaDQPublisherImpl \<times> pubMsg" where
  "number_by_type payload pub m =
    (case mamaMsgType_typeForMsg (wire m) of
       MAMA_MSG_TYPE_REFRESH \<Rightarrow> (pub, m)
     | MAMA_MSG_TYPE_SYNC_REQUEST \<Rightarrow> (pub, m)
     | MAMA_MSG_TYPE_MISC \<Rightarrow> (pub, m)
     | MAMA_MSG_TYPE_NOT_PERMISSIONED \<Rightarrow> (pub, m)
     | MAMA_MSG_TYPE_NOT_FOUND \<Rightarrow> (pub, m)
     | MAMA_MSG_TYPE_INITIAL \<Rightarrow> (pub, updateMsgStatus payload pub m)
     | MAMA_MSG_TYPE_BOOK_INITIAL \<Rightarrow> (pub, updateMsgStatus payload pub m)
     | MAMA_MSG_TYPE_RECAP \<Rightarrow> (pub, updateMsgStatus payload pub m)
     | MAMA_MSG_TYPE_BOOK_RECAP \<Rightarrow> (pub, updateMsgStatus payload pub m)
     | _ \<Rightarrow> (pub\<lparr>pubSeqNum := pubSeqNum pub + 1\<rparr>, updateMsgStatus payload pub m))"

text \<open>Sending returns the publisher and the message that goes to \<open>mamaPublisher_send\<close>. Without a copy the type is unknown, so that the
  sequence number advances, and the message is sent as it is.\<close>

definition mamaDQPublisher_send ::
  "payload \<Rightarrow> (u64 \<times> u64) option \<Rightarrow> pubMsg option \<Rightarrow> pubMsg \<Rightarrow> mamaDQPublisherImpl \<Rightarrow> (mamaDQPublisherImpl \<times> pubMsg) option" where
  "mamaDQPublisher_send payload now copy msg pub =
    (case copy of
       None \<Rightarrow>
         let pub = (if pubSeqNum pub \<noteq> 0 then pub\<lparr>pubSeqNum := pubSeqNum pub + 1\<rparr> else pub);
             pub = pub\<lparr>pubSendTime := (case pubSendTime pub of None \<Rightarrow> None | Some t \<Rightarrow> fst (mamaDateTime_setToNow now (Some t)))\<rparr>
         in Some (pub, msg)
     | Some m \<Rightarrow>
         if pubSeqNum pub = 0 \<and> pubSenderId pub = 0 \<and> pubSendTime pub = None then Some (pub, msg)
         else
           do { let (pub, m) = (if pubSeqNum pub \<noteq> 0
                  then let (pub, m) = number_by_type payload pub m in (pub, updateSeqNum payload pub m) else (pub, m));
                let m = (if pubSenderId pub \<noteq> 0 then updateSenderId payload pub m else m);
                if pubSendTime pub \<noteq> None then updateSendTime payload now pub m else Some (pub, m) })"

definition mamaDQPublisher_sendReply ::
  "payload \<Rightarrow> (u64 \<times> u64) option \<Rightarrow> pubMsg \<Rightarrow> mamaDQPublisherImpl \<Rightarrow> (mamaDQPublisherImpl \<times> pubMsg) option" where
  "mamaDQPublisher_sendReply payload now reply pub =
    do { let m = (if pubSenderId pub \<noteq> 0 then updateSenderId payload pub reply else reply);
         let m = (if pubSeqNum pub \<noteq> 0 then updateMsgStatus payload pub (updateSeqNum payload pub m) else m);
         if pubSendTime pub \<noteq> None then updateSendTime payload now pub m else Some (pub, m) }"

definition mamaDQPublisher_sendReplyWithHandle ::
  "payload \<Rightarrow> (u64 \<times> u64) option \<Rightarrow> pubMsg \<Rightarrow> mamaDQPublisherImpl \<Rightarrow> (mamaDQPublisherImpl \<times> pubMsg) option" where
  "mamaDQPublisher_sendReplyWithHandle = mamaDQPublisher_sendReply"

text \<open>The resources that are released: the publisher, and the date-time.\<close>

definition mamaDQPublisher_destroy :: "mamaDQPublisherImpl \<Rightarrow> bool \<times> u64 option" where
  "mamaDQPublisher_destroy pub = (pubPublisher pub, pubSendTime pub)"

subsection \<open>What is sent\<close>

text \<open>The types whose messages advance the sequence number, and those that carry the status.\<close>

definition counted :: "mamaMsgType \<Rightarrow> bool" where
  "counted t \<longleftrightarrow> t \<notin> {MAMA_MSG_TYPE_REFRESH, MAMA_MSG_TYPE_SYNC_REQUEST, MAMA_MSG_TYPE_MISC, MAMA_MSG_TYPE_NOT_PERMISSIONED, MAMA_MSG_TYPE_NOT_FOUND,
     MAMA_MSG_TYPE_INITIAL, MAMA_MSG_TYPE_BOOK_INITIAL, MAMA_MSG_TYPE_RECAP, MAMA_MSG_TYPE_BOOK_RECAP}"

definition is_image :: "mamaMsgType \<Rightarrow> bool" where
  "is_image t \<longleftrightarrow> t \<in> {MAMA_MSG_TYPE_INITIAL, MAMA_MSG_TYPE_BOOK_INITIAL, MAMA_MSG_TYPE_RECAP, MAMA_MSG_TYPE_BOOK_RECAP}"

definition sent_id :: "mamaDQPublisherImpl \<Rightarrow> pubMsg \<Rightarrow> u64 option" where
  "sent_id pub m =
    (if fSenderId (wire m) = None then Some (pubSenderId pub)
     else case fSenderIdType m of
       MAMA_FIELD_TYPE_U16 \<Rightarrow> Some (ucast (ucast (pubSenderId pub) :: u16))
     | MAMA_FIELD_TYPE_U32 \<Rightarrow> Some (ucast (ucast (pubSenderId pub) :: u32))
     | MAMA_FIELD_TYPE_U64 \<Rightarrow> Some (pubSenderId pub)
     | MAMA_FIELD_TYPE_NONE \<Rightarrow> fSenderId (wire m))"

definition accepts :: "payload \<Rightarrow> bool" where
  "accepts payload \<longleftrightarrow> (\<forall>p m. payload p m)"

lemma number_by_type_simps:
  "counted (mamaMsgType_typeForMsg (wire m)) \<Longrightarrow>
    number_by_type payload pub m = (pub\<lparr>pubSeqNum := pubSeqNum pub + 1\<rparr>, updateMsgStatus payload pub m)"
  "is_image (mamaMsgType_typeForMsg (wire m)) \<Longrightarrow> number_by_type payload pub m = (pub, updateMsgStatus payload pub m)"
  "\<not> counted (mamaMsgType_typeForMsg (wire m)) \<Longrightarrow> \<not> is_image (mamaMsgType_typeForMsg (wire m)) \<Longrightarrow> number_by_type payload pub m = (pub, m)"
  by (auto simp: number_by_type_def counted_def is_image_def split: mamaMsgType.splits)

lemma stamp_total:
  assumes "pubSendTimeFormat pub = ''%T%;''"
  obtains m' where "stamp payload pub m = Some m'" and "wire m' = wire m" and "fSenderIdType m' = fSenderIdType m"
proof -
  have f: "mamaDateTime_getAsFormattedStringWithTz (Some t) MAX_DATE_STR ''%T%;'' (Some 0) =
      Some (Some (take 49 (format_spec (local_tm t (Some 0)) t ''%T%;'')), MAMA_STATUS_OK)" for t
    using format_truncated [of 50 "''%T%;''" t "Some 0"] by (simp add: MAX_DATE_STR_def)
  have "\<exists>m'. stamp payload pub m = Some m' \<and> wire m' = wire m \<and> fSenderIdType m' = fSenderIdType m"
    by (auto simp: stamp_def assms f attempt_def split: option.split sendTime.split)
  then show ?thesis using that by blast
qed

lemma updateSendTime_effect:
  assumes "pubSendTimeFormat pub = ''%T%;''"
  obtains m' where "updateSendTime payload now pub m = Some (pub\<lparr>pubSendTime := fst (mamaDateTime_setToNow now (pubSendTime pub))\<rparr>, m')"
    and "wire m' = wire m"
proof -
  let ?pub = "pub\<lparr>pubSendTime := fst (mamaDateTime_setToNow now (pubSendTime pub))\<rparr>"
  obtain m' where "stamp payload ?pub m = Some m'" "wire m' = wire m" using stamp_total [of ?pub payload m] assms by auto
  with that show ?thesis by (simp add: updateSendTime_def Let_def)
qed

lemma updateMsgStatus_wire: "accepts payload \<Longrightarrow> updateMsgStatus payload pub m = upd_wire (\<lambda>w. w\<lparr>fMsgStatus := Some (pubStatus pub)\<rparr>) m"
  by (simp add: updateMsgStatus_def accepts_def Let_def)

lemma updateSeqNum_wire: "accepts payload \<Longrightarrow> updateSeqNum payload pub m = upd_wire (\<lambda>w. w\<lparr>fSeqNum := Some (ucast (pubSeqNum pub))\<rparr>) m"
  by (simp add: updateSeqNum_def accepts_def attempt_def)

lemma updateSenderId_wire: "accepts payload \<Longrightarrow> wire (updateSenderId payload pub m) = (wire m)\<lparr>fSenderId := sent_id pub m\<rparr>"
  by (auto simp: updateSenderId_def sent_id_def accepts_def attempt_def upd_wire_def Let_def split: senderIdType.split)

lemma send_effect:
  fixes m :: pubMsg and pub :: mamaDQPublisherImpl
  assumes "accepts payload" and "pubSendTimeFormat pub = ''%T%;''" and "pubSeqNum pub \<noteq> 0"
  defines "t \<equiv> mamaMsgType_typeForMsg (wire m)"
  defines "n \<equiv> (if counted t then pubSeqNum pub + 1 else pubSeqNum pub)"
  obtains pub' m' where "mamaDQPublisher_send payload now (Some m) msg pub = Some (pub', m')"
    and "pubSeqNum pub' = n" and "pubSenderId pub' = pubSenderId pub" and "pubStatus pub' = pubStatus pub"
    and "pubSendTimeFormat pub' = pubSendTimeFormat pub"
    and "wire m' = (wire m)\<lparr>fSeqNum := Some (ucast n), fMsgStatus := (if counted t \<or> is_image t then Some (pubStatus pub) else fMsgStatus (wire m)),
       fSenderId := (if pubSenderId pub \<noteq> 0 then sent_id pub m else fSenderId (wire m))\<rparr>"
proof -
  let ?r = "number_by_type payload pub m"
  let ?p = "fst ?r"
  let ?m1 = "updateSeqNum payload ?p (snd ?r)"
  let ?m2 = "if pubSenderId ?p \<noteq> 0 then updateSenderId payload ?p ?m1 else ?m1"
  have r: "?r = (pub\<lparr>pubSeqNum := n\<rparr>, if counted t \<or> is_image t then upd_wire (\<lambda>w. w\<lparr>fMsgStatus := Some (pubStatus pub)\<rparr>) m else m)"
    using number_by_type_simps [of m payload pub] updateMsgStatus_wire [OF assms(1), of pub m]
    by (auto simp: t_def n_def counted_def is_image_def)
  have i: "sent_id (pub\<lparr>pubSeqNum := n\<rparr>) m' = sent_id pub m" if "fSenderId (wire m') = fSenderId (wire m)" "fSenderIdType m' = fSenderIdType m" for m'
    using that by (simp add: sent_id_def split: senderIdType.split)
  have w: "wire ?m2 = (wire m)\<lparr>fSeqNum := Some (ucast n), fMsgStatus := (if counted t \<or> is_image t then Some (pubStatus pub) else fMsgStatus (wire m)),
       fSenderId := (if pubSenderId pub \<noteq> 0 then sent_id pub m else fSenderId (wire m))\<rparr>"
    unfolding r using i by (simp add: updateSeqNum_wire [OF assms(1)] updateSenderId_wire [OF assms(1)]) (simp add: upd_wire_def)
  have f: "pubSendTimeFormat ?p = ''%T%;''" using assms(2) by (simp add: r)
  have send: "mamaDQPublisher_send payload now (Some m) msg pub = (if pubSendTime ?p \<noteq> None then updateSendTime payload now ?p ?m2 else Some (?p, ?m2))"
    using assms(3) by (simp add: mamaDQPublisher_send_def Let_def split_beta)
  obtain m' where u: "updateSendTime payload now ?p ?m2 = Some (?p\<lparr>pubSendTime := fst (mamaDateTime_setToNow now (pubSendTime ?p))\<rparr>, m')"
    "wire m' = wire ?m2" using updateSendTime_effect [OF f] by metis
  show ?thesis
  proof (cases "pubSendTime ?p = None")
    case True
    with send w show ?thesis by (intro that [of ?p ?m2]) (simp_all add: r)
  next
    case False
    with send u w show ?thesis by (intro that [of "?p\<lparr>pubSendTime := fst (mamaDateTime_setToNow now (pubSendTime ?p))\<rparr>" m']) (simp_all add: r)
  qed
qed

end
