(* ===== verification/DqStream.thy ===== *)
theory DqStream
  imports DqPublisher ListenerMsgCallback
begin

text \<open>
  From the publisher to the application: the messages that a publisher of \<open>dqpublisher.c\<close> sends, processed by the message
  callback of a subscription (\<open>listenermsgcallback.c\<close>) with its data quality strategy (\<open>dqstrategy.c\<close>). The transport between them
  keeps the order and may lose messages.
\<close>

subsection \<open>Runs\<close>

text \<open>Sending a list of messages, each of which may be modified.\<close>

fun publish_all ::
  "payload \<Rightarrow> (u64 \<times> u64) option \<Rightarrow> pubMsg list \<Rightarrow> mamaDQPublisherImpl \<Rightarrow> (mamaDQPublisherImpl \<times> mamaMsg list) option" where
  "publish_all payload now [] pub = Some (pub, [])"
| "publish_all payload now (m # ms) pub =
    do { (pub, m') \<leftarrow> mamaDQPublisher_send payload now (Some m) m pub;
         (pub, ws) \<leftarrow> publish_all payload now ms pub;
         Some (pub, wire m' # ws) }"

fun receive_all :: "i32 \<times> i32 \<Rightarrow> bool \<Rightarrow> mamaMsg list \<Rightarrow> listenerSystem \<Rightarrow> listenerSystem option" where
  "receive_all junk ok [] s = Some s"
| "receive_all junk ok (w # ws) s = listenerMsgCallback_processMsg junk ok w s \<bind> receive_all junk ok ws"

text \<open>The messages that reached the application, and the events that say that something is wrong.\<close>

fun delivered :: "sub_event list \<Rightarrow> mamaMsg list" where
  "delivered [] = []"
| "delivered (e # es) = (case e of OnMsg m \<Rightarrow> m # delivered es | _ \<Rightarrow> delivered es)"

definition alarm :: "sub_event \<Rightarrow> bool" where
  "alarm e \<longleftrightarrow> (case e of OnGap \<Rightarrow> True | OnRecapRequest \<Rightarrow> True | SendRecapRequest _ \<Rightarrow> True | OnError _ \<Rightarrow> True | OnQuality _ \<Rightarrow> True | _ \<Rightarrow> False)"

definition in_step :: "mamaDQPublisherImpl \<Rightarrow> listenerSystem \<Rightarrow> bool" where
  "in_step pub s \<longleftrightarrow> mSeqNum (dqCtx s) = pubSeqNum pub \<and> mDQState (dqCtx s) = DQ_STATE_OK \<and> mSenderId (dqCtx s) \<in> {0, pubSenderId pub} \<and>
     cache_ok (dqCtx s) \<and> mRecoverGaps s \<and> hasDqStrategy s \<and> (mExpectingInitial s \<longrightarrow> mInitialArrived s)"

text \<open>A publisher that numbers its messages and has set no other status, and messages it can mark with its sender id.\<close>

definition pub_ready :: "mamaDQPublisherImpl \<Rightarrow> bool" where
  "pub_ready pub \<longleftrightarrow> pubSeqNum pub \<noteq> 0 \<and> pubSenderId pub \<noteq> 0 \<and> pubStatus pub = MAMA_MSG_STATUS_OK \<and> pubSendTimeFormat pub = ''%T%;''"

definition plain_update :: "pubMsg \<Rightarrow> bool" where
  "plain_update m \<longleftrightarrow> fMsgType (wire m) \<in> {Some MAMA_MSG_TYPE_UPDATE, Some MAMA_MSG_TYPE_QUOTE, Some MAMA_MSG_TYPE_TRADE} \<and>
     fConflateCount (wire m) \<in> {None, Some 1} \<and> (fSenderId (wire m) = None \<or> fSenderIdType m = MAMA_FIELD_TYPE_U64)"

subsection \<open>What an update in sequence leaves alone\<close>

definition same_config :: "'a dqSystem_scheme \<Rightarrow> 'a dqSystem_scheme \<Rightarrow> bool" where
  "same_config s u \<longleftrightarrow> dqSystem.more u = dqSystem.more s \<and> mDqStrategyScheme u = mDqStrategyScheme s \<and> hasOnGap u = hasOnGap s \<and>
     hasOnQuality u = hasOnQuality s \<and> hasOnRecapRequest u = hasOnRecapRequest s \<and> mSubscType u = mSubscType s \<and>
     mPreRecapCacheEnabled u = mPreRecapCacheEnabled s \<and> mPreInitialScheme u = mPreInitialScheme s"

lemma same_config_refl [simp]: "same_config s s"
  by (simp add: same_config_def)

lemma same_config_trans: "same_config s u \<Longrightarrow> same_config u v \<Longrightarrow> same_config s v"
  by (simp add: same_config_def)

lemma same_config_steps:
  "same_config s (upd_ctx f s)" "same_config s (emit es s)" "same_config s (s\<lparr>dqCtx := ctx\<rparr>)" "same_config s (s\<lparr>mTryToFillGap := b\<rparr>)"
  "same_config s (mamaSubscription_unsetAllPossiblyStale s)" "same_config s (resetDqState s)"
  by (simp_all add: same_config_def upd_ctx_def emit_def mamaSubscription_unsetAllPossiblyStale_def resetDqState_def Let_def)

lemma listener_fields:
  assumes "same_config (s :: listenerSystem) u"
  shows "mRecoverGaps u = mRecoverGaps s" "hasDqStrategy u = hasDqStrategy s" "mExpectingInitial u = mExpectingInitial s"
    "mInitialArrived u = mInitialArrived s" "mPreRecapCacheEnabled u = mPreRecapCacheEnabled s"
  using assms by (cases s; cases u; simp add: same_config_def)+

lemma clear_cache_frame:
  assumes "cache_ok (dqCtx s)"
  obtains u where "clear_cache s = Some u" and "same_config s u" and "cache_ok (dqCtx u)" and "mTryToFillGap u = mTryToFillGap s"
proof (cases "mCache (dqCtx s)")
  case None
  then have "clear_cache s = Some (emit [] (s\<lparr>dqCtx := dqCtx s\<rparr>))" by (simp add: clear_cache_def dqContext_clearCache_def)
  with assms that show ?thesis by (auto simp: emit_def)
next
  case (Some c)
  let ?ctx = "(dqCtx s)\<lparr>mCache := Some (replicate (mCacheSize (dqCtx s)) None), mCurCacheIdx := 0\<rparr>"
  have l: "length c = mCacheSize (dqCtx s)" "mCurCacheIdx (dqCtx s) < mCacheSize (dqCtx s)" using assms Some by (auto simp: cache_ok_def)
  have "clear_cache s = Some (emit (map DestroyMsg (map the (filter (\<lambda>x. x \<noteq> None) c))) (s\<lparr>dqCtx := ?ctx\<rparr>))"
    using clearCache_run [OF Some l(1), of False] by (simp add: clear_cache_def)
  moreover have "cache_ok ?ctx" using l by (simp add: cache_ok_def)
  ultimately show ?thesis
    by (intro that [of "emit (map DestroyMsg (map the (filter (\<lambda>x. x \<noteq> None) c))) (s\<lparr>dqCtx := ?ctx\<rparr>)"]) (simp_all add: same_config_def emit_def)
qed

lemma check_update_frame:
  assumes "check_update seqNum ctxSeqNum st cnt msg s = Some (m', u)"
    and "seqNum = ctxSeqNum + ucast cnt" and "mStatus msg = MAMA_MSG_STATUS_OK" and "cache_ok (dqCtx s)"
  shows "same_config s u \<and> cache_ok (dqCtx u) \<and> \<not> mTryToFillGap u"
proof -
  define v where "v = (if mTryToFillGap s then clear_cache (s\<lparr>mTryToFillGap := False\<rparr>) else Some s)"
  have "cache_ok (dqCtx (s\<lparr>mTryToFillGap := False\<rparr>))" using assms(4) by simp
  then obtain w where w: "v = Some w" "same_config s w" "cache_ok (dqCtx w)" "\<not> mTryToFillGap w"
  proof (cases "mTryToFillGap s")
    case True
    obtain w where "clear_cache (s\<lparr>mTryToFillGap := False\<rparr>) = Some w" "same_config (s\<lparr>mTryToFillGap := False\<rparr>) w" "cache_ok (dqCtx w)"
      "\<not> mTryToFillGap w"
      using clear_cache_frame [of "s\<lparr>mTryToFillGap := False\<rparr>"] assms(4) by auto
    with True that show ?thesis by (auto simp: v_def intro: same_config_trans same_config_steps)
  next
    case False
    with that [of s] assms(4) show ?thesis by (simp add: v_def)
  qed
  have g: "st \<noteq> DQ_STATE_WAITING_FOR_RECAP \<or> st \<noteq> DQ_STATE_WAITING_FOR_RECAP_AFTER_FT" by auto
  have "u = upd_ctx (\<lambda>ctx. ctx\<lparr>mSeqNum := seqNum\<rparr>) (resetDqState (mamaSubscription_unsetAllPossiblyStale w))"
    using assms(1-3) g w(1) by (simp add: check_update_def v_def [symmetric] mamaMsgStatus_statusForMsg_def)
  moreover have "mTryToFillGap (resetDqState x) = mTryToFillGap x" for x :: "'a dqSystem_scheme" by (simp add: resetDqState_def Let_def)
  moreover have "cache_ok (dqCtx (upd_ctx (\<lambda>ctx. ctx\<lparr>mSeqNum := seqNum\<rparr>) (resetDqState (mamaSubscription_unsetAllPossiblyStale w))))"
    using w(3) by (simp add: cache_ok_def split: option.splits)
  ultimately show ?thesis
    using w(2,4) by (simp add: same_config_trans [OF w(2)] same_config_trans [OF _ same_config_steps(1)] same_config_trans [OF _ same_config_steps(6)]
      same_config_steps)
qed

subsection \<open>One message\<close>

lemma delivered_append [simp]: "delivered (xs @ ys) = delivered xs @ delivered ys"
  by (induction xs) (simp_all split: sub_event.split)

lemma delivered_none: "\<forall>e \<in> set es. is_stat e \<or> quiet e \<Longrightarrow> delivered es = [] \<and> (\<forall>e \<in> set es. \<not> alarm e)"
  by (induction es) (auto simp: is_stat_def quiet_def alarm_def split: sub_event.splits)

text \<open>The next message of the stream is delivered, and leaves the subscription in step with the publisher.\<close>

definition from_pub :: "mamaDQPublisherImpl \<Rightarrow> mamaMsg \<Rightarrow> bool" where
  "from_pub pub w \<longleftrightarrow> fMsgType w \<in> {Some MAMA_MSG_TYPE_UPDATE, Some MAMA_MSG_TYPE_QUOTE, Some MAMA_MSG_TYPE_TRADE} \<and>
     fMsgStatus w = Some MAMA_MSG_STATUS_OK \<and> fSenderId w = Some (pubSenderId pub) \<and> fConflateCount w \<in> {None, Some 1} \<and>
     mamaMsg_getSeqNum w = pubSeqNum pub"

lemma same_config_stats: "same_config s (increment_stats st s)"
  by (simp add: increment_stats_def same_config_steps)

lemma conflate_one: "fConflateCount w \<in> {None, Some 1} \<Longrightarrow> conflate_count t w = 1"
  by (auto simp: conflate_count_def)

lemma receive_next:
  assumes "in_step pub s" and "from_pub pub' w" and "pubSeqNum pub' = pubSeqNum pub + 1" and "pubSenderId pub' = pubSenderId pub"
  obtains s' es where "listenerMsgCallback_processMsg junk ok w s = Some s'" and "in_step pub' s'"
    and "trace s' = trace s @ es @ [OnMsg (w\<lparr>mStatus := MAMA_MSG_STATUS_OK\<rparr>)]" and "\<forall>e \<in> set es. is_stat e \<or> quiet e"
    and "\<not> mTryToFillGap s'" and "same_config s s'"
proof -
  let ?w = "w\<lparr>mStatus := MAMA_MSG_STATUS_OK\<rparr>" and ?s = "increment_stats MamaStatNumMessages s"
  obtain t where t: "fMsgType w = Some t" "t \<in> {MAMA_MSG_TYPE_UPDATE, MAMA_MSG_TYPE_QUOTE, MAMA_MSG_TYPE_TRADE}"
    using assms(2) by (auto simp: from_pub_def)
  obtain e1 where e1: "trace ?s = trace s @ e1" "\<forall>e \<in> set e1. is_stat e" by (rule increment_stats_trace)
  have n: "mamaMsg_getSeqNum ?w = pubSeqNum pub'" and c: "conflate_count t ?w = 1"
    using assms(2) conflate_one by (auto simp: from_pub_def mamaMsg_getSeqNum_def)
  have upd: "is_update t" using t(2) by (auto simp: is_update_def)
  have snd: "same_sender ?w ?s" "cache_ok (dqCtx ?s)" "in_sequence ?w t ?s"
    using assms n c by (auto simp: same_sender_def in_step_def from_pub_def in_sequence_def)
  obtain s' e2 where s': "dqStrategy_checkSeqNum ?w t ?s = Some (?w, s')" "mSeqNum (dqCtx s') = pubSeqNum pub'" "mDQState (dqCtx s') = DQ_STATE_OK"
    "mSenderId (dqCtx s') = mSenderId (dqCtx s)" "\<not> mDoNotForward (dqCtx s')" "trace s' = trace s @ e1 @ e2" "\<forall>e \<in> set e2. quiet e"
    using in_sequence_run [OF snd(1) upd snd(3) _ snd(2)] n e1(1) assms(1) by (auto simp: in_step_def)
  have "cache_ok (dqCtx (upd_ctx (\<lambda>ctx. ctx\<lparr>mDoNotForward := False\<rparr>) ?s))" using snd(2) by (simp add: cache_ok_def split: option.splits)
  with s'(1) have f: "same_config (upd_ctx (\<lambda>ctx. ctx\<lparr>mDoNotForward := False\<rparr>) ?s) s' \<and> cache_ok (dqCtx s') \<and> \<not> mTryToFillGap s'"
    using n c assms(1,3)
    by (intro check_update_frame [where seqNum = "pubSeqNum pub'" and ctxSeqNum = "pubSeqNum pub" and cnt = 1 and msg = ?w and m' = ?w and st = DQ_STATE_OK])
      (simp_all add: checkSeqNum_update [OF snd(1) upd] in_step_def)
  then have sc: "same_config s (emit [OnMsg ?w] s')"
    by (meson same_config_stats same_config_steps same_config_trans)
  have "\<not> held_back t s" using assms(1) by (auto simp: held_back_def in_step_def dqStrategy_getDqState_def)
  then have "listenerMsgCallback_processMsg junk ok w s = Some (emit [OnMsg ?w] s')"
    using s'(1,5) assms(1,2) t
    by (simp add: process_update [OF t] from_pub_def check_and_forward_def mamaSubscription_checkSeqNum_def mamaSubscription_forwardMsg_def in_step_def)
  moreover have "in_step pub' (emit [OnMsg ?w] s')"
    using assms(1,4) s'(2-4) f listener_fields [OF sc] by (auto simp: in_step_def)
  ultimately show ?thesis using s'(6,7) e1(2) f sc by (intro that [of "emit [OnMsg ?w] s'" "e1 @ e2"]) auto
qed

text \<open>What a publisher that is ready sends for a plain update.\<close>

lemma send_plain:
  assumes "accepts payload" and "pub_ready pub" and "plain_update m"
  obtains pub' m' where "mamaDQPublisher_send payload now (Some m) m pub = Some (pub', m')" and "from_pub pub' (wire m')"
    and "pubSeqNum pub' = pubSeqNum pub + 1" and "pubSenderId pub' = pubSenderId pub"
    and "pubSeqNum pub' \<noteq> 0 \<longrightarrow> pub_ready pub'"
proof -
  have t: "counted (mamaMsgType_typeForMsg (wire m))"
    using assms(3) by (auto simp: plain_update_def mamaMsgType_typeForMsg_def counted_def)
  have i: "sent_id pub m = Some (pubSenderId pub)" using assms(3) by (auto simp: plain_update_def sent_id_def)
  have n: "(ucast (ucast (k :: u32) :: u64) :: u32) = k" for k by simp
  from send_effect [where payload = payload and pub = pub and m = m and msg = m and now = now] assms(1,2)
  obtain pub' m' where p: "mamaDQPublisher_send payload now (Some m) m pub = Some (pub', m')" "pubSeqNum pub' = pubSeqNum pub + 1"
    "pubSenderId pub' = pubSenderId pub" "pubStatus pub' = pubStatus pub" "pubSendTimeFormat pub' = pubSendTimeFormat pub"
    "wire m' = (wire m)\<lparr>fSeqNum := Some (ucast (pubSeqNum pub + 1)), fMsgStatus := Some MAMA_MSG_STATUS_OK, fSenderId := Some (pubSenderId pub)\<rparr>"
    by (auto simp: pub_ready_def t i)
  show ?thesis
    using p assms(2,3) by (intro that [of pub' m']) (auto simp: from_pub_def plain_update_def mamaMsg_getSeqNum_def pub_ready_def)
qed

subsection \<open>The stream\<close>

lemma pub_next: "n < 2 ^ 32 - 1 \<Longrightarrow> unat (k :: u32) = n \<Longrightarrow> unat (k + 1) = n + 1"
  by (simp add: unat_word_ariths)

lemma stream_run:
  assumes "accepts payload" and "pub_ready pub" and "\<forall>m \<in> set ms. plain_update m" and "unat (pubSeqNum pub) + length ms < 2 ^ 32" and "in_step pub s"
  shows "\<exists>pub' ws s' es. publish_all payload now ms pub = Some (pub', ws) \<and> receive_all junk ok ws s = Some s' \<and> in_step pub' s' \<and> pub_ready pub' \<and>
     unat (pubSeqNum pub') = unat (pubSeqNum pub) + length ms \<and> pubSenderId pub' = pubSenderId pub \<and> length ws = length ms \<and>
     trace s' = trace s @ es \<and> delivered es = map (\<lambda>w. w\<lparr>mStatus := MAMA_MSG_STATUS_OK\<rparr>) ws \<and> (\<forall>e \<in> set es. \<not> alarm e) \<and>
     same_config s s' \<and> (\<not> mTryToFillGap s \<longrightarrow> \<not> mTryToFillGap s')"
  using assms(2-5)
proof (induction ms arbitrary: pub s)
  case Nil
  then show ?case by simp
next
  case (Cons m ms)
  obtain pub1 m' where p: "mamaDQPublisher_send payload now (Some m) m pub = Some (pub1, m')" "from_pub pub1 (wire m')"
    "pubSeqNum pub1 = pubSeqNum pub + 1" "pubSenderId pub1 = pubSenderId pub" "pubSeqNum pub1 \<noteq> 0 \<longrightarrow> pub_ready pub1"
    using send_plain [OF assms(1) Cons.prems(1), of m] Cons.prems(2) by (metis list.set_intros(1))
  have n: "unat (pubSeqNum pub1) = unat (pubSeqNum pub) + 1"
    unfolding p(3) using Cons.prems(3) by (intro pub_next) auto
  then have "pubSeqNum pub1 \<noteq> 0" by auto
  with p(5) have r: "pub_ready pub1" by simp
  obtain s1 e1 where s1: "listenerMsgCallback_processMsg junk ok (wire m') s = Some s1" "in_step pub1 s1"
    "trace s1 = trace s @ e1 @ [OnMsg ((wire m')\<lparr>mStatus := MAMA_MSG_STATUS_OK\<rparr>)]" "\<forall>e \<in> set e1. is_stat e \<or> quiet e"
    "\<not> mTryToFillGap s1" "same_config s s1"
    using receive_next [OF Cons.prems(4) p(2-4)] by blast
  have "\<forall>m \<in> set ms. plain_update m" "unat (pubSeqNum pub1) + length ms < 2 ^ 32" using Cons.prems(2,3) n by simp_all
  from Cons.IH [OF r this s1(2)] s1(5) obtain pub' ws s' es where
    *: "publish_all payload now ms pub1 = Some (pub', ws)" "receive_all junk ok ws s1 = Some s'" "in_step pub' s'" "pub_ready pub'"
    "unat (pubSeqNum pub') = unat (pubSeqNum pub1) + length ms" "pubSenderId pub' = pubSenderId pub1" "length ws = length ms"
    "trace s' = trace s1 @ es" "delivered es = map (\<lambda>w. w\<lparr>mStatus := MAMA_MSG_STATUS_OK\<rparr>) ws" "\<forall>e \<in> set es. \<not> alarm e"
    "same_config s1 s'" "\<not> mTryToFillGap s'"
    by blast
  let ?es = "e1 @ OnMsg ((wire m')\<lparr>mStatus := MAMA_MSG_STATUS_OK\<rparr>) # es"
  have "publish_all payload now (m # ms) pub = Some (pub', wire m' # ws)" "receive_all junk ok (wire m' # ws) s = Some s'" "trace s' = trace s @ ?es"
    by (simp_all add: p(1) *(1,2,8) s1(1,3))
  moreover have "delivered ?es = map (\<lambda>w. w\<lparr>mStatus := MAMA_MSG_STATUS_OK\<rparr>) (wire m' # ws)" "\<forall>e \<in> set ?es. \<not> alarm e"
    using delivered_none [OF s1(4)] *(9,10) by (auto simp: alarm_def)
  moreover have "unat (pubSeqNum pub') = unat (pubSeqNum pub) + length (m # ms)" "pubSenderId pub' = pubSenderId pub" using *(5,6) n p(4) by simp_all
  ultimately show ?case
    using *(3,4,7,12) same_config_trans [OF s1(6) *(11)] by (metis length_Cons)
qed

lemma handleStaleData_frame:
  "same_config s (snd (handleStaleData msg s))" "cache_ok (dqCtx (snd (handleStaleData msg s))) = cache_ok (dqCtx s)"
  "mSenderId (dqCtx (snd (handleStaleData msg s))) = mSenderId (dqCtx s)" "mSeqNum (dqCtx (snd (handleStaleData msg s))) = mSeqNum (dqCtx s)"
  "mDQState (dqCtx s) = DQ_STATE_OK \<Longrightarrow> mDQState (dqCtx (snd (handleStaleData msg s))) = DQ_STATE_WAITING_FOR_RECAP"
  "mDQState (dqCtx s) = DQ_STATE_OK \<Longrightarrow> trace (snd (handleStaleData msg s)) = trace s @ [SendRecapRequest (mSubscType s = MAMA_SUBSC_TYPE_GROUP)] @
     (if hasOnRecapRequest s then [OnRecapRequest] else []) @ (if hasOnQuality s then [OnQuality MAMA_QUALITY_STALE] else [])"
  "\<not> mDoNotForward (dqCtx s) \<Longrightarrow> \<not> mDoNotForward (dqCtx (snd (handleStaleData msg s)))"
  "fst (handleStaleData msg s) = msg\<lparr>mStatus := MAMA_MSG_STATUS_STALE\<rparr>"
  by (simp_all add: handleStaleData_def dqStrategy_sendRecapRequest_def same_config_def cache_ok_def msgUtils_setStatus_def Let_def split: option.splits)
    (simp_all add: emit_def upd_ctx_def)

text \<open>A message after a lost one.\<close>

lemma receive_gap:
  assumes "in_step pub s" and "from_pub pub' w" and "pubSenderId pub' = pubSenderId pub" and "unat (pubSeqNum pub) + 1 < unat (pubSeqNum pub')"
    and "mDqStrategyScheme s = DQ_SCHEME_DELIVER_ALL" and "\<not> mTryToFillGap s"
  obtains s' es where "listenerMsgCallback_processMsg junk ok w s = Some s'" and "mDQState (dqCtx s') = DQ_STATE_WAITING_FOR_RECAP"
    and "mSeqNum (dqCtx s') = pubSeqNum pub"
    and "trace s' = trace s @ es @ (if hasOnGap s then [OnGap] else []) @ [SendRecapRequest (mSubscType s = MAMA_SUBSC_TYPE_GROUP)] @
       (if hasOnRecapRequest s then [OnRecapRequest] else []) @ (if hasOnQuality s then [OnQuality MAMA_QUALITY_STALE] else []) @
       [OnMsg (w\<lparr>mStatus := MAMA_MSG_STATUS_STALE\<rparr>)]" and "\<forall>e \<in> set es. is_stat e"
    and "same_config s s'" and "cache_ok (dqCtx s')" and "mSenderId (dqCtx s') = mSenderId (dqCtx s)"
proof -
  let ?w = "w\<lparr>mStatus := MAMA_MSG_STATUS_OK\<rparr>" and ?s = "increment_stats MamaStatNumMessages s"
  let ?u = "if hasOnGap s then emit [OnGap] (upd_ctx (\<lambda>ctx. ctx\<lparr>mDoNotForward := False\<rparr>) ?s) else upd_ctx (\<lambda>ctx. ctx\<lparr>mDoNotForward := False\<rparr>) ?s"
  obtain t where t: "fMsgType w = Some t" "t \<in> {MAMA_MSG_TYPE_UPDATE, MAMA_MSG_TYPE_QUOTE, MAMA_MSG_TYPE_TRADE}"
    using assms(2) by (auto simp: from_pub_def)
  obtain es where es: "trace ?s = trace s @ es" "\<forall>e \<in> set es. is_stat e" by (rule increment_stats_trace)
  have n: "mamaMsg_getSeqNum ?w = pubSeqNum pub'" and c: "conflate_count t ?w = 1"
    using assms(2) conflate_one by (auto simp: from_pub_def mamaMsg_getSeqNum_def)
  have upd: "is_update t" using t(2) by (auto simp: is_update_def)
  have lt: "unat (pubSeqNum pub') < 2 ^ 32" using unsigned_less [of "pubSeqNum pub'"] by simp
  have ne: "pubSeqNum pub' \<noteq> 0" "pubSeqNum pub' \<noteq> pubSeqNum pub" "pubSeqNum pub' \<noteq> pubSeqNum pub + 1"
    using assms(4) pub_next [of "unat (pubSeqNum pub)" "pubSeqNum pub"] lt by auto
  have "same_sender ?w ?s" "gap ?w t ?s"
    using assms n c ne by (auto simp: same_sender_def in_step_def from_pub_def gap_def in_sequence_def)
  from gap_run [OF this(1) upd this(2)] have g: "dqStrategy_checkSeqNum ?w t ?s = Some (handleStaleData ?w ?u)"
    by (simp add: increment_stats_def)
  have "\<not> held_back t s" using assms(1) by (auto simp: held_back_def in_step_def dqStrategy_getDqState_def)
  moreover have "\<not> mDoNotForward (dqCtx ?u)" "dqCtx ?u = (dqCtx s)\<lparr>mDoNotForward := False\<rparr>" by simp_all
  note u = this
  ultimately have run: "listenerMsgCallback_processMsg junk ok w s =
      Some (emit [OnMsg (w\<lparr>mStatus := MAMA_MSG_STATUS_STALE\<rparr>)] (snd (handleStaleData ?w ?u)))"
    using g assms(1,2) handleStaleData_frame(7) [OF u(1), of ?w] handleStaleData_frame(8) [of ?w ?u]
    by (simp add: process_update [OF t] from_pub_def check_and_forward_def mamaSubscription_checkSeqNum_def mamaSubscription_forwardMsg_def in_step_def
        split_beta)
  have st: "mDQState (dqCtx ?u) = DQ_STATE_OK" "mSeqNum (dqCtx ?u) = pubSeqNum pub" "cache_ok (dqCtx ?u)"
    using assms(1) by (simp_all add: in_step_def cache_ok_def split: option.splits)
  have "same_config s ?u" using same_config_stats same_config_steps(1,2) same_config_trans by (metis (mono_tags, lifting))
  then have "same_config s (emit [OnMsg (w\<lparr>mStatus := MAMA_MSG_STATUS_STALE\<rparr>)] (snd (handleStaleData ?w ?u)))"
    by (meson handleStaleData_frame(1) same_config_steps(2) same_config_trans)
  moreover have "trace ?u = trace s @ es @ (if hasOnGap s then [OnGap] else [])" "hasOnRecapRequest ?u = hasOnRecapRequest s"
    "mSubscType ?u = mSubscType s" "hasOnQuality ?u = hasOnQuality s" using es(1) by (simp_all add: increment_stats_def)
  ultimately show ?thesis
    using es(2) st u(2) by (intro that [OF run]) (simp_all add: handleStaleData_frame)
qed

subsection \<open>Recaps\<close>

text \<open>A complete recap of a publisher that is sent as a reply to a recap request.\<close>

definition recap_reply :: "pubMsg \<Rightarrow> bool" where
  "recap_reply m \<longleftrightarrow> fMsgType (wire m) = Some MAMA_MSG_TYPE_RECAP \<and> fMsgTotal (wire m) = Some 0 \<and>
     (fSenderId (wire m) = None \<or> fSenderIdType m = MAMA_FIELD_TYPE_U64)"

lemma sendReply_effect:
  assumes "accepts payload" and "pub_ready pub" and "recap_reply m"
  obtains pub' m' where "mamaDQPublisher_sendReply payload now m pub = Some (pub', m')" and "pub_ready pub'"
    and "pubSeqNum pub' = pubSeqNum pub" and "pubSenderId pub' = pubSenderId pub"
    and "wire m' = (wire m)\<lparr>fSeqNum := Some (ucast (pubSeqNum pub)), fMsgStatus := Some MAMA_MSG_STATUS_OK, fSenderId := Some (pubSenderId pub)\<rparr>"
proof -
  let ?m = "updateMsgStatus payload pub (updateSeqNum payload pub (updateSenderId payload pub m))"
  have i: "sent_id pub m = Some (pubSenderId pub)" using assms(3) by (auto simp: recap_reply_def sent_id_def)
  have w: "wire ?m = (wire m)\<lparr>fSeqNum := Some (ucast (pubSeqNum pub)), fMsgStatus := Some MAMA_MSG_STATUS_OK, fSenderId := Some (pubSenderId pub)\<rparr>"
    using assms(2) updateSenderId_wire [OF assms(1), of pub m]
    by (simp add: updateMsgStatus_wire [OF assms(1)] updateSeqNum_wire [OF assms(1)] i pub_ready_def) (simp add: upd_wire_def)
  have send: "mamaDQPublisher_sendReply payload now m pub = (if pubSendTime pub \<noteq> None then updateSendTime payload now pub ?m else Some (pub, ?m))"
    using assms(2) by (simp add: mamaDQPublisher_sendReply_def pub_ready_def)
  obtain m' where u: "updateSendTime payload now pub ?m = Some (pub\<lparr>pubSendTime := fst (mamaDateTime_setToNow now (pubSendTime pub))\<rparr>, m')"
    "wire m' = wire ?m" using updateSendTime_effect [of pub] assms(2) by (metis pub_ready_def)
  show ?thesis
  proof (cases "pubSendTime pub = None")
    case True
    with send w assms(2) show ?thesis by (intro that [of pub ?m]) simp_all
  next
    case False
    with send u w assms(2) show ?thesis
      by (intro that [of "pub\<lparr>pubSendTime := fst (mamaDateTime_setToNow now (pubSendTime pub))\<rparr>" m']) (simp_all add: pub_ready_def)
  qed
qed

lemma reset_config: "mPreInitialScheme (resetDqState s) = mPreInitialScheme s" "same_config s (dqStrategyImpl_resetDqContext n i s)"
  "mPreInitialScheme (dqStrategyImpl_resetDqContext n i s) = mPreInitialScheme s"
  "dqCtx (dqStrategyImpl_resetDqContext n i s) = (dqCtx s)\<lparr>mSeqNum := n, mSenderId := i\<rparr>"
  "trace (dqStrategyImpl_resetDqContext n i s) = trace s"
  by (simp_all add: resetDqState_def dqStrategyImpl_resetDqContext_def same_config_steps Let_def)

lemma check_recap_frame:
  "same_config s (check_recap n i s)" "mPreInitialScheme (check_recap n i s) = mPreInitialScheme s"
  "dqCtx (check_recap n i s) = (dqCtx s)\<lparr>mDQState := DQ_STATE_OK, mSeqNum := n, mSenderId := i, mDoNotForward := False\<rparr>"
  "\<exists>es. trace (check_recap n i s) = trace s @ es \<and> (\<forall>m. OnMsg m \<notin> set es)"
proof -
  let ?s = "if mPreRecapCacheEnabled s then s\<lparr>mTryToFillGap := True\<rparr> else s"
  have "same_config s ?s" by (simp add: same_config_steps)
  then show "same_config s (check_recap n i s)"
    unfolding check_recap_def Let_def by (meson reset_config(2) same_config_steps same_config_trans)
qed (auto simp: check_recap_def reset_config Let_def)

text \<open>Whatever state the subscription was in, a recap of its publisher brings it in step again.\<close>

lemma receive_recap:
  assumes "fMsgType w = Some MAMA_MSG_TYPE_RECAP" and "fMsgStatus w = Some MAMA_MSG_STATUS_OK" and "fSenderId w = Some (pubSenderId pub)"
    and "mamaMsg_getSeqNum w = pubSeqNum pub" and "fMsgTotal w = Some 0" and "mSenderId (dqCtx s) \<in> {0, pubSenderId pub}"
    and "cache_ok (dqCtx s)" and "mRecoverGaps s" and "hasDqStrategy s" and "mPreInitialScheme s \<noteq> PRE_INITIAL_SCHEME_ON_INITIAL"
  obtains s' es where "listenerMsgCallback_processMsg junk ok w s = Some s'" and "in_step pub s'"
    and "trace s' = trace s @ es @ [OnMsg (w\<lparr>mStatus := MAMA_MSG_STATUS_OK\<rparr>)]" and "\<forall>m. OnMsg m \<notin> set es"
proof -
  let ?w = "w\<lparr>mStatus := MAMA_MSG_STATUS_OK\<rparr>"
  define s1 where "s1 = process_stats MAMA_MSG_TYPE_RECAP (increment_stats MamaStatNumMessages s)"
  define s2 where "s2 = (let s = s1\<lparr>mInitialCount := mInitialCount s1 + 1, mImageCount := mImageCount s1 + 1, mInitialArrived := True\<rparr>
    in if \<not> mAcceptMultipleInitials s then mamaSubscription_stopWaitForResponse s else s)"
  define s3 where "s3 = check_recap (pubSeqNum pub) (pubSenderId pub) (upd_ctx (\<lambda>ctx. ctx\<lparr>mDoNotForward := False\<rparr>) s2)"
  define s4 where "s4 = (if \<not> mamaSubscription_isExpectingUpdates s3 \<and> \<not> mAcceptMultipleInitials s3 then emit [Deactivate] s3 else s3)"
  have s2: "dqCtx s2 = dqCtx s" "mRecoverGaps s2 = mRecoverGaps s" "hasDqStrategy s2 = hasDqStrategy s" "mPreInitialScheme s2 = mPreInitialScheme s"
    "mInitialArrived s2" "\<exists>es. trace s2 = trace s @ es \<and> (\<forall>m. OnMsg m \<notin> set es)"
    by (auto simp: s2_def s1_def process_stats_def increment_stats_def mamaSubscription_stopWaitForResponse_def emit_def Let_def)
  note s3 = check_recap_frame [where n = "pubSeqNum pub" and i = "pubSenderId pub" and s = "upd_ctx (\<lambda>ctx. ctx\<lparr>mDoNotForward := False\<rparr>) s2", folded s3_def]
  have f3: "mRecoverGaps s3 = mRecoverGaps s2" "hasDqStrategy s3 = hasDqStrategy s2" "mInitialArrived s3 = mInitialArrived s2"
    using listener_fields [OF same_config_trans [OF same_config_steps(1) s3(1)]] by simp_all
  have s4: "dqCtx s4 = dqCtx s3" "mRecoverGaps s4 = mRecoverGaps s3" "hasDqStrategy s4 = hasDqStrategy s3" "mInitialArrived s4 = mInitialArrived s3"
    "mPreInitialScheme s4 = mPreInitialScheme s3" "\<exists>es. trace s4 = trace s3 @ es \<and> (\<forall>m. OnMsg m \<notin> set es)"
    by (auto simp: s4_def emit_def)
  have "dqStrategy_checkSeqNum ?w MAMA_MSG_TYPE_RECAP s2 = Some (?w, s3)"
    using assms(3,4,6) s2(1) by (auto simp: dqStrategy_checkSeqNum_def check_type_def s3_def mamaMsg_getSeqNum_def Let_def)
  then have chk: "mamaSubscription_checkSeqNum ?w MAMA_MSG_TYPE_RECAP s2 = Some (?w, s3)"
    using assms(8,9) s2(2,3) by (simp add: mamaSubscription_checkSeqNum_def)
  have "mPreInitialScheme s4 \<noteq> PRE_INITIAL_SCHEME_ON_INITIAL" using assms(10) s4(5) s3(2) s2(4) by simp
  then have "processPointToPointMessage junk ?w MAMA_MSG_TYPE_RECAP s1 = Some (emit [OnMsg ?w] s4)"
    using assms(5) chk by (simp add: processPointToPointMessage_def msgUtils_msgTotal_def s2_def s4_def mamaSubscription_forwardMsg_def Let_def)
  then have "listenerMsgCallback_processMsg junk ok w s = Some (emit [OnMsg ?w] s4)"
    using assms(1,2)
    by (simp add: listenerMsgCallback_processMsg_def mamaMsgImpl_getStatusFromMsg_def mamaMsgType_typeForMsg_def isInitialMessageOrRecap_def s1_def Let_def)
  moreover have "cache_ok (dqCtx s4)" using assms(7) s2(1) s3(3) s4(1) by (simp add: cache_ok_def split: option.splits)
  then have "in_step pub (emit [OnMsg ?w] s4)"
    using assms(8,9) s2 s3(3) f3 s4 by (simp add: in_step_def) (simp add: emit_def)
  moreover have "\<exists>es. trace s4 = trace s @ es \<and> (\<forall>m. OnMsg m \<notin> set es)"
    using s2(6) s3(4) s4(6) by auto
  ultimately show ?thesis using that [of "emit [OnMsg ?w] s4"] by auto
qed

subsection \<open>Properties\<close>

lemma publish_all_append:
  "publish_all payload now (ms @ ms') pub =
    do { (pub, ws) \<leftarrow> publish_all payload now ms pub; (pub, ws') \<leftarrow> publish_all payload now ms' pub; Some (pub, ws @ ws') }"
  by (induction ms arbitrary: pub) (auto simp: split_beta split: Option.bind_splits)

lemma receive_all_append: "receive_all junk ok (ws @ ws') s = receive_all junk ok ws s \<bind> receive_all junk ok ws'"
  by (induction ws arbitrary: s) (auto split: Option.bind_splits)

text \<open>A publisher behind sequence number \<open>n\<close>, updates to be sent and a recap.\<close>

definition pub_demo :: "u32 \<Rightarrow> mamaDQPublisherImpl" where
  "pub_demo n = \<lparr>pubPublisher = True, pubStatus = MAMA_MSG_STATUS_OK, pubSenderId = 7, pubSeqNum = n, pubClosure = None, pubCache = None,
     pubSendTime = None, pubSendTimeFormat = ''%T%;''\<rparr>"

definition out_demo :: "mamaMsgType \<Rightarrow> pubMsg" where
  "out_demo t = \<lparr>wire = (upd 0)\<lparr>fMsgType := Some t, fSeqNum := None, fMsgTotal := Some 0\<rparr>, fSenderIdType = MAMA_FIELD_TYPE_U64, fSendTime = None\<rparr>"

lemma pub_demo_seq [simp]: "pubSeqNum (pub_demo n) = n"
  by (simp add: pub_demo_def)

lemma out_demo_plain: "t \<in> {MAMA_MSG_TYPE_UPDATE, MAMA_MSG_TYPE_QUOTE, MAMA_MSG_TYPE_TRADE} \<Longrightarrow> plain_update (out_demo t)"
  by (auto simp: plain_update_def out_demo_def upd_def)

lemma demo_in_step: "in_step (pub_demo 3) (lst_demo False)" "n \<noteq> 0 \<Longrightarrow> pub_ready (pub_demo n)"
  by (simp_all add: in_step_def pub_demo_def pub_ready_def cache_ok_def ctx0_def)

text \<open>C2: a lossless transport delivers a publisher's stream. When a subscription is in step with a publisher (same last sequence
  number, good data quality), any number of updates that the publisher sends and the subscription receives in order reach the application
  exactly once, in order, with status OK, without a gap, a recap request, an error or a change of quality on the way; and
  subscription and publisher are in step afterwards. The sequence number must not reach 2 to the power of 32 on the way.\<close>

theorem stream_delivered:
  assumes "accepts payload" and "pub_ready pub" and "\<forall>m \<in> set ms. plain_update m" and "unat (pubSeqNum pub) + length ms < 2 ^ 32" and "in_step pub s"
  shows "\<exists>pub' ws s' es. publish_all payload now ms pub = Some (pub', ws) \<and> receive_all junk ok ws s = Some s' \<and> in_step pub' s' \<and>
     unat (pubSeqNum pub') = unat (pubSeqNum pub) + length ms \<and> trace s' = trace s @ es \<and>
     delivered es = map (\<lambda>w. w\<lparr>mStatus := MAMA_MSG_STATUS_OK\<rparr>) ws \<and> length ws = length ms \<and> (\<forall>e \<in> set es. \<not> alarm e)"
  using stream_run [OF assms, of now junk ok] by blast

theorem stream_delivered_witness:
  "\<exists>pub' ws s' es. publish_all (\<lambda>p m. True) (Some (1, 2)) [out_demo MAMA_MSG_TYPE_UPDATE, out_demo MAMA_MSG_TYPE_TRADE] (pub_demo 3) = Some (pub', ws) \<and>
     receive_all (0, 0) True ws (lst_demo False) = Some s' \<and> in_step pub' s' \<and> unat (pubSeqNum pub') = 5 \<and> trace s' = es \<and>
     delivered es = map (\<lambda>w. w\<lparr>mStatus := MAMA_MSG_STATUS_OK\<rparr>) ws \<and> length ws = Suc (Suc 0) \<and> (\<forall>e \<in> set es. \<not> alarm e)"
  using stream_delivered [of "\<lambda>p m. True" "pub_demo 3" "[out_demo MAMA_MSG_TYPE_UPDATE, out_demo MAMA_MSG_TYPE_TRADE]" "lst_demo False"
      "Some (1, 2)" "(0, 0)" True] out_demo_plain demo_in_step
  by (simp add: accepts_def)

lemma publish_run:
  assumes "accepts payload" and "pub_ready pub" and "\<forall>m \<in> set ms. plain_update m" and "unat (pubSeqNum pub) + length ms < 2 ^ 32"
  obtains pub' ws where "publish_all payload now ms pub = Some (pub', ws)" and "pub_ready pub'" and "length ws = length ms"
    and "unat (pubSeqNum pub') = unat (pubSeqNum pub) + length ms" and "pubSenderId pub' = pubSenderId pub"
proof -
  define ctx where "ctx = ctx0\<lparr>mSeqNum := pubSeqNum pub, mDQState := DQ_STATE_OK\<rparr>"
  have "in_step pub ((lst_demo False)\<lparr>dqCtx := ctx\<rparr>)"
    by (simp add: in_step_def ctx_def ctx0_def cache_ok_def lst_demo_def dqSystem.defs listenerSystem.defs)
  from stream_run [OF assms this] that show ?thesis by blast
qed

text \<open>The messages sent before the loss, and the first one that arrives after it.\<close>

lemma lost_run:
  assumes "accepts payload" and "pub_ready pub" and "\<forall>m \<in> set (ms @ lost @ [m]). plain_update m" and "lost \<noteq> []"
    and "unat (pubSeqNum pub) + length (ms @ lost @ [m]) < 2 ^ 32" and "in_step pub s"
    and "mDqStrategyScheme s = DQ_SCHEME_DELIVER_ALL" and "\<not> mTryToFillGap s"
  obtains pub' ws xs w s' es where "publish_all payload now (ms @ lost @ [m]) pub = Some (pub', ws @ xs @ [w])" and "length ws = length ms"
    and "length xs = length lost" and "pub_ready pub'" and "unat (pubSeqNum pub') = unat (pubSeqNum pub) + length (ms @ lost @ [m])"
    and "receive_all junk ok (ws @ [w]) s = Some s'" and "mDQState (dqCtx s') = DQ_STATE_WAITING_FOR_RECAP"
    and "trace s' = trace s @ es" and "delivered es = map (\<lambda>w. w\<lparr>mStatus := MAMA_MSG_STATUS_OK\<rparr>) ws @ [w\<lparr>mStatus := MAMA_MSG_STATUS_STALE\<rparr>]"
    and "SendRecapRequest (mSubscType s = MAMA_SUBSC_TYPE_GROUP) \<in> set es"
    and "same_config s s'" and "cache_ok (dqCtx s')" and "mSenderId (dqCtx s') \<in> {0, pubSenderId pub'}"
proof -
  have a: "\<forall>m \<in> set ms. plain_update m" "unat (pubSeqNum pub) + length ms < 2 ^ 32" "\<forall>m \<in> set lost. plain_update m" "plain_update m"
    using assms(3,5) by simp_all
  from stream_run [OF assms(1,2) a(1,2) assms(6), of now junk ok] assms(8) obtain pub1 ws s1 e1 where
    1: "publish_all payload now ms pub = Some (pub1, ws)" "receive_all junk ok ws s = Some s1" "in_step pub1 s1" "pub_ready pub1"
    "unat (pubSeqNum pub1) = unat (pubSeqNum pub) + length ms" "length ws = length ms"
    "trace s1 = trace s @ e1" "delivered e1 = map (\<lambda>w. w\<lparr>mStatus := MAMA_MSG_STATUS_OK\<rparr>) ws" "same_config s s1" "\<not> mTryToFillGap s1" by blast
  have b: "unat (pubSeqNum pub1) + length lost < 2 ^ 32" using assms(5) 1(5) by simp
  obtain pub2 xs where 2: "publish_all payload now lost pub1 = Some (pub2, xs)" "pub_ready pub2" "length xs = length lost"
    "unat (pubSeqNum pub2) = unat (pubSeqNum pub1) + length lost" "pubSenderId pub2 = pubSenderId pub1"
    using publish_run [OF assms(1) 1(4) a(3) b, of now] .
  obtain pub3 m' where 3: "mamaDQPublisher_send payload now (Some m) m pub2 = Some (pub3, m')" "from_pub pub3 (wire m')"
    "pubSeqNum pub3 = pubSeqNum pub2 + 1" "pubSenderId pub3 = pubSenderId pub2" "pubSeqNum pub3 \<noteq> 0 \<longrightarrow> pub_ready pub3"
    using send_plain [OF assms(1) 2(2) a(4), of now] .
  have n: "unat (pubSeqNum pub3) = unat (pubSeqNum pub2) + 1" unfolding 3(3) using assms(5) 1(5) 2(4) by (intro pub_next) simp_all
  then have "pubSeqNum pub3 \<noteq> 0" by auto
  have "0 < length lost" using assms(4) by simp
  then have "unat (pubSeqNum pub1) + 1 < unat (pubSeqNum pub3)" using n 2(4) by simp
  moreover have "mDqStrategyScheme s1 = DQ_SCHEME_DELIVER_ALL" "mSubscType s1 = mSubscType s" using assms(7) 1(9) by (simp_all add: same_config_def)
  ultimately obtain s2 e2 where 4: "listenerMsgCallback_processMsg junk ok (wire m') s1 = Some s2" "mDQState (dqCtx s2) = DQ_STATE_WAITING_FOR_RECAP"
    "trace s2 = trace s1 @ e2 @ (if hasOnGap s1 then [OnGap] else []) @ [SendRecapRequest (mSubscType s = MAMA_SUBSC_TYPE_GROUP)] @
       (if hasOnRecapRequest s1 then [OnRecapRequest] else []) @ (if hasOnQuality s1 then [OnQuality MAMA_QUALITY_STALE] else []) @
       [OnMsg ((wire m')\<lparr>mStatus := MAMA_MSG_STATUS_STALE\<rparr>)]" "\<forall>e \<in> set e2. is_stat e"
    "same_config s1 s2" "cache_ok (dqCtx s2)" "mSenderId (dqCtx s2) = mSenderId (dqCtx s1)"
    using receive_gap [OF 1(3) 3(2), of junk ok] 3(4) 2(5) 1(10) by metis
  have "delivered e2 = []" using delivered_none [of e2] 4(4) by blast
  then show ?thesis
    using 1 2 3 4 n \<open>pubSeqNum pub3 \<noteq> 0\<close> same_config_trans [OF 1(9) 4(5)]
    by (intro that [of pub3 ws xs "wire m'" s2 "drop (length (trace s)) (trace s2)"])
      (auto simp: publish_all_append receive_all_append in_step_def)
qed

text \<open>C3: a loss is detected, and repaired by one recap. Messages of a stream get lost in front of a message that arrives: exactly this
  message is delivered as stale, a recap is requested and the subscription waits for it. When the publisher replies with a recap, the
  recap and all further updates are delivered with status OK again, and subscription and publisher are in step. Of all messages that arrived
  none is withheld, and none is delivered twice.\<close>

theorem stream_recovers:
  assumes "accepts payload" and "pub_ready pub" and "\<forall>m \<in> set (ms @ lost @ [m] @ ms'). plain_update m" and "lost \<noteq> []" and "recap_reply r"
    and "unat (pubSeqNum pub) + length (ms @ lost @ [m] @ ms') < 2 ^ 32" and "in_step pub s"
    and "mDqStrategyScheme s = DQ_SCHEME_DELIVER_ALL" and "\<not> mTryToFillGap s" and "mPreInitialScheme s \<noteq> PRE_INITIAL_SCHEME_ON_INITIAL"
  shows "\<exists>pub1 pub2 pub3 ws xs w r' vs s1 s2 es.
     publish_all payload now (ms @ lost @ [m]) pub = Some (pub1, ws @ xs @ [w]) \<and> length ws = length ms \<and> length xs = length lost \<and>
     mamaDQPublisher_sendReply payload now r pub1 = Some (pub2, r') \<and> publish_all payload now ms' pub2 = Some (pub3, vs) \<and>
     receive_all junk ok (ws @ [w]) s = Some s1 \<and> mDQState (dqCtx s1) = DQ_STATE_WAITING_FOR_RECAP \<and>
     SendRecapRequest (mSubscType s = MAMA_SUBSC_TYPE_GROUP) \<in> set (drop (length (trace s)) (trace s1)) \<and>
     receive_all junk ok (wire r' # vs) s1 = Some s2 \<and> in_step pub3 s2 \<and> trace s2 = trace s @ es \<and>
     delivered es = map (\<lambda>w. w\<lparr>mStatus := MAMA_MSG_STATUS_OK\<rparr>) ws @ [w\<lparr>mStatus := MAMA_MSG_STATUS_STALE\<rparr>] @
       map (\<lambda>w. w\<lparr>mStatus := MAMA_MSG_STATUS_OK\<rparr>) (wire r' # vs)"
proof -
  have a: "\<forall>m \<in> set (ms @ lost @ [m]). plain_update m" "unat (pubSeqNum pub) + length (ms @ lost @ [m]) < 2 ^ 32" "\<forall>m \<in> set ms'. plain_update m"
    using assms(3,6) by auto
  obtain pub1 ws xs w s1 e1 where
    1: "publish_all payload now (ms @ lost @ [m]) pub = Some (pub1, ws @ xs @ [w])" "length ws = length ms" "length xs = length lost" "pub_ready pub1"
    "unat (pubSeqNum pub1) = unat (pubSeqNum pub) + length (ms @ lost @ [m])"
    "receive_all junk ok (ws @ [w]) s = Some s1" "mDQState (dqCtx s1) = DQ_STATE_WAITING_FOR_RECAP" "trace s1 = trace s @ e1"
    "delivered e1 = map (\<lambda>w. w\<lparr>mStatus := MAMA_MSG_STATUS_OK\<rparr>) ws @ [w\<lparr>mStatus := MAMA_MSG_STATUS_STALE\<rparr>]"
    "SendRecapRequest (mSubscType s = MAMA_SUBSC_TYPE_GROUP) \<in> set e1" "same_config s s1" "cache_ok (dqCtx s1)"
    "mSenderId (dqCtx s1) \<in> {0, pubSenderId pub1}"
    using lost_run [OF assms(1,2) a(1) assms(4) a(2) assms(7-9), of now junk ok] .
  obtain pub2 r' where 2: "mamaDQPublisher_sendReply payload now r pub1 = Some (pub2, r')" "pub_ready pub2" "pubSeqNum pub2 = pubSeqNum pub1"
    "pubSenderId pub2 = pubSenderId pub1"
    "wire r' = (wire r)\<lparr>fSeqNum := Some (ucast (pubSeqNum pub1)), fMsgStatus := Some MAMA_MSG_STATUS_OK, fSenderId := Some (pubSenderId pub1)\<rparr>"
    using sendReply_effect [OF assms(1) 1(4) assms(5), of now] .
  have f: "mRecoverGaps s1" "hasDqStrategy s1" using assms(7) listener_fields [OF 1(11)] by (simp_all add: in_step_def)
  have w: "fMsgType (wire r') = Some MAMA_MSG_TYPE_RECAP" "fMsgStatus (wire r') = Some MAMA_MSG_STATUS_OK" "fSenderId (wire r') = Some (pubSenderId pub2)"
    "mamaMsg_getSeqNum (wire r') = pubSeqNum pub2" "fMsgTotal (wire r') = Some 0" "mSenderId (dqCtx s1) \<in> {0, pubSenderId pub2}"
    "mPreInitialScheme s1 \<noteq> PRE_INITIAL_SCHEME_ON_INITIAL"
    using assms(5,10) 1(11,13) 2(3-5) by (simp_all add: recap_reply_def mamaMsg_getSeqNum_def same_config_def)
  obtain s2 e2 where 3: "listenerMsgCallback_processMsg junk ok (wire r') s1 = Some s2" "in_step pub2 s2"
    "trace s2 = trace s1 @ e2 @ [OnMsg ((wire r')\<lparr>mStatus := MAMA_MSG_STATUS_OK\<rparr>)]" "\<forall>m. OnMsg m \<notin> set e2"
    using receive_recap [OF w(1-6) 1(12) f w(7), of junk ok] .
  have "delivered e2 = []" using 3(4) by (induction e2) (auto split: sub_event.splits)
  moreover have "unat (pubSeqNum pub2) + length ms' < 2 ^ 32" using assms(6) 1(5) 2(3) by simp
  from stream_run [OF assms(1) 2(2) a(3) this 3(2), of now junk ok] obtain pub3 vs s3 e3 where
    4: "publish_all payload now ms' pub2 = Some (pub3, vs)" "receive_all junk ok vs s2 = Some s3" "in_step pub3 s3" "trace s3 = trace s2 @ e3"
    "delivered e3 = map (\<lambda>w. w\<lparr>mStatus := MAMA_MSG_STATUS_OK\<rparr>) vs" by blast
  ultimately have "trace s3 = trace s @ e1 @ e2 @ OnMsg ((wire r')\<lparr>mStatus := MAMA_MSG_STATUS_OK\<rparr>) # e3"
    "delivered (e1 @ e2 @ OnMsg ((wire r')\<lparr>mStatus := MAMA_MSG_STATUS_OK\<rparr>) # e3) = map (\<lambda>w. w\<lparr>mStatus := MAMA_MSG_STATUS_OK\<rparr>) ws @
       [w\<lparr>mStatus := MAMA_MSG_STATUS_STALE\<rparr>] @ map (\<lambda>w. w\<lparr>mStatus := MAMA_MSG_STATUS_OK\<rparr>) (wire r' # vs)"
    using 1(8,9) 3(3) by simp_all
  moreover have "receive_all junk ok (wire r' # vs) s1 = Some s3" "SendRecapRequest (mSubscType s = MAMA_SUBSC_TYPE_GROUP) \<in> set (drop (length (trace s)) (trace s1))"
    using 3(1) 4(2) 1(8,10) by simp_all
  ultimately show ?thesis using 1(1-3,6,7) 2(1) 4(1,3) by blast
qed

theorem stream_recovers_witness:
  "\<exists>pub1 pub2 pub3 ws xs w r' vs s1 s2 es.
     publish_all (\<lambda>p m. True) None ([out_demo MAMA_MSG_TYPE_UPDATE] @ [out_demo MAMA_MSG_TYPE_QUOTE] @ [out_demo MAMA_MSG_TYPE_TRADE]) (pub_demo 3)
       = Some (pub1, ws @ xs @ [w]) \<and> length ws = 1 \<and> length xs = 1 \<and>
     mamaDQPublisher_sendReply (\<lambda>p m. True) None (out_demo MAMA_MSG_TYPE_RECAP) pub1 = Some (pub2, r') \<and>
     publish_all (\<lambda>p m. True) None [out_demo MAMA_MSG_TYPE_UPDATE] pub2 = Some (pub3, vs) \<and>
     receive_all (0, 0) True (ws @ [w]) (lst_demo False) = Some s1 \<and> mDQState (dqCtx s1) = DQ_STATE_WAITING_FOR_RECAP \<and>
     SendRecapRequest False \<in> set (trace s1) \<and>
     receive_all (0, 0) True (wire r' # vs) s1 = Some s2 \<and> in_step pub3 s2 \<and> trace s2 = es \<and>
     delivered es = map (\<lambda>w. w\<lparr>mStatus := MAMA_MSG_STATUS_OK\<rparr>) ws @ [w\<lparr>mStatus := MAMA_MSG_STATUS_STALE\<rparr>] @
       map (\<lambda>w. w\<lparr>mStatus := MAMA_MSG_STATUS_OK\<rparr>) (wire r' # vs)"
proof -
  have "\<not> mTryToFillGap (lst_demo False)" "mPreInitialScheme (lst_demo False) \<noteq> PRE_INITIAL_SCHEME_ON_INITIAL"
    "(mSubscType (lst_demo False) = MAMA_SUBSC_TYPE_GROUP) = False"
    by (simp_all add: lst_demo_def dqSystem.defs sys_demo_def)
  moreover have "recap_reply (out_demo MAMA_MSG_TYPE_RECAP)" by (simp add: recap_reply_def out_demo_def)
  moreover have "unat (pubSeqNum (pub_demo 3)) + 4 < 2 ^ 32" by (simp add: pub_demo_def)
  ultimately show ?thesis
    using stream_recovers [of "\<lambda>p m. True" "pub_demo 3" "[out_demo MAMA_MSG_TYPE_UPDATE]" "[out_demo MAMA_MSG_TYPE_QUOTE]" "out_demo MAMA_MSG_TYPE_TRADE"
        "[out_demo MAMA_MSG_TYPE_UPDATE]" "out_demo MAMA_MSG_TYPE_RECAP" "lst_demo False" None "(0, 0)" True] out_demo_plain demo_in_step
    by (simp add: accepts_def)
qed

text \<open>A publisher whose number is 0 does not touch the numbers of messages.\<close>

lemma send_unnumbered:
  assumes "pubSeqNum pub = 0" and "pubSenderId pub \<noteq> 0" and "pubSendTimeFormat pub = ''%T%;''" and "accepts payload"
  obtains pub' m' where "mamaDQPublisher_send payload now (Some m) m pub = Some (pub', m')" and "fSeqNum (wire m') = fSeqNum (wire m)"
    and "pubSeqNum pub' = 0" and "pubSenderId pub' = pubSenderId pub" and "pubSendTimeFormat pub' = ''%T%;''"
proof -
  let ?m = "updateSenderId payload pub m"
  have w: "fSeqNum (wire ?m) = fSeqNum (wire m)" by (simp add: updateSenderId_wire [OF assms(4)])
  have send: "mamaDQPublisher_send payload now (Some m) m pub = (if pubSendTime pub \<noteq> None then updateSendTime payload now pub ?m else Some (pub, ?m))"
    using assms(1,2) by (simp add: mamaDQPublisher_send_def)
  obtain m' where u: "updateSendTime payload now pub ?m = Some (pub\<lparr>pubSendTime := fst (mamaDateTime_setToNow now (pubSendTime pub))\<rparr>, m')"
    "wire m' = wire ?m" using updateSendTime_effect [OF assms(3)] by metis
  show ?thesis
  proof (cases "pubSendTime pub = None")
    case True
    with send w assms show ?thesis by (intro that [of pub ?m]) simp_all
  next
    case False
    with send u w assms show ?thesis
      by (intro that [of "pub\<lparr>pubSendTime := fst (mamaDateTime_setToNow now (pubSendTime pub))\<rparr>" m']) simp_all
  qed
qed

lemma publish_unnumbered:
  assumes "pubSeqNum pub = 0" and "pubSenderId pub \<noteq> 0" and "pubSendTimeFormat pub = ''%T%;''" and "accepts payload"
  shows "\<exists>pub' ws. publish_all payload now ms pub = Some (pub', ws) \<and> pubSeqNum pub' = 0 \<and> map fSeqNum ws = map (\<lambda>m. fSeqNum (wire m)) ms"
  using assms(1-3)
proof (induction ms arbitrary: pub)
  case (Cons m ms)
  obtain pub1 m' where "mamaDQPublisher_send payload now (Some m) m pub = Some (pub1, m')" "fSeqNum (wire m') = fSeqNum (wire m)"
    "pubSeqNum pub1 = 0" "pubSenderId pub1 = pubSenderId pub" "pubSendTimeFormat pub1 = ''%T%;''"
    using send_unnumbered [OF Cons.prems assms(4)] .
  with Cons.IH [of pub1] Cons.prems(2) show ?case by auto
qed simp

text \<open>The sequence number is not protected against running out: the message after number \<open>2 ^ 32 - 1\<close> gets the number 0, which
  subscriptions accept in every position, and from then on the publisher does not number its messages at all.\<close>

lemma publisher_stops_numbering:
  assumes "accepts payload" and "pubSeqNum pub = - 1" and "pub_ready pub" and "\<forall>m \<in> set (m # ms). plain_update m"
  shows "\<exists>pub' w ws. publish_all payload now (m # ms) pub = Some (pub', w # ws) \<and> fSeqNum w = Some 0 \<and> pubSeqNum pub' = 0 \<and>
     map fSeqNum ws = map (\<lambda>m. fSeqNum (wire m)) ms"
proof -
  have c: "counted (mamaMsgType_typeForMsg (wire m))" using assms(4) by (auto simp: plain_update_def mamaMsgType_typeForMsg_def counted_def)
  have p: "pubSendTimeFormat pub = ''%T%;''" "pubSeqNum pub \<noteq> 0" "pubSenderId pub \<noteq> 0" "pubStatus pub = MAMA_MSG_STATUS_OK"
    using assms(3) by (simp_all add: pub_ready_def)
  obtain pub1 m' where "mamaDQPublisher_send payload now (Some m) m pub = Some (pub1, m')" "pubSeqNum pub1 = 0"
    "pubSenderId pub1 = pubSenderId pub" "pubSendTimeFormat pub1 = ''%T%;''"
    "wire m' = (wire m)\<lparr>fSeqNum := Some 0, fMsgStatus := Some MAMA_MSG_STATUS_OK, fSenderId := sent_id pub m\<rparr>"
    by (rule send_effect [OF assms(1) p(1,2), where m = m and msg = m and now = now]) (simp_all add: c p assms(2))
  with publish_unnumbered [of pub1 payload now ms] assms(1,3) show ?thesis by (auto simp: pub_ready_def)
qed

end
