(* ===== verification/SenderId.thy ===== *)
theory SenderId
  imports CString
begin

text \<open>
  Sender ids, \<open>mama/c_cpp/src/c/senderId.c\<close>: the address of the host in the upper and the process id in the lower 32 bits. The two
  static variables are a record. What \<open>gethostname\<close>, \<open>gethostbyname\<close> and \<open>getpid\<close> return are arguments. The address is
  in network order, and the machine is little-endian.
\<close>

record senderId_vars =
  gSelf :: u64
  gIsSetSelf :: bool

text \<open>The text of an address, written byte by byte from its first one, and cut to the size of the buffer (0 writes nothing).\<close>

definition inet_ntoa :: "u32 \<Rightarrow> string" where
  "inet_ntoa addr =
    (let byte = (\<lambda>i. print_nat 10 (unat (ucast (drop_bit (8 * i) addr) :: u8)))
     in byte 0 @ ''.'' @ byte 1 @ ''.'' @ byte 2 @ ''.'' @ byte 3)"

definition mamaSenderId_getIpAddr :: "u64 \<Rightarrow> nat \<Rightarrow> string option" where
  "mamaSenderId_getIpAddr senderId maxLen =
    (if maxLen = 0 then None else Some (take (maxLen - 1) (inet_ntoa (ucast (drop_bit 32 senderId)))))"

definition mamaSenderId_getPid :: "u64 \<Rightarrow> u16" where
  "mamaSenderId_getPid senderId = ucast (0xFF AND senderId)"

definition mamaSenderId_getPid64 :: "u64 \<Rightarrow> u32" where
  "mamaSenderId_getPid64 senderId = ucast (0xFFFF AND senderId)"

definition INADDR_NONE :: u32 where "INADDR_NONE = 0xFFFFFFFF"

text \<open>The host name is \<open>None\<close> when it cannot be found; \<open>resolve\<close> gives its first address of the internet family.\<close>

definition mamaSenderId_getSelf :: "string option \<Rightarrow> (string \<Rightarrow> u32 option) \<Rightarrow> i32 \<Rightarrow> senderId_vars \<Rightarrow> u64 \<times> senderId_vars" where
  "mamaSenderId_getSelf hostname resolve pid v =
    (let v = (if \<not> gIsSetSelf v then
        (case hostname of
           Some h \<Rightarrow>
             let addr = (case resolve h of Some a \<Rightarrow> a | None \<Rightarrow> INADDR_NONE)
             in v\<lparr>gSelf := push_bit 32 (ucast addr) + scast pid, gIsSetSelf := True\<rparr>
         | None \<Rightarrow> v\<lparr>gSelf := scast pid, gIsSetSelf := True\<rparr>)
        else v)
     in (gSelf v, v))"

definition mamaSenderId_setSelf :: "u64 \<Rightarrow> senderId_vars \<Rightarrow> senderId_vars" where
  "mamaSenderId_setSelf self v = v\<lparr>gSelf := self, gIsSetSelf := True\<rparr>"

subsection \<open>Properties\<close>

text \<open>The id of a process does not change once it was asked for or set, whatever the host is called later on.\<close>

lemma getSelf_stable:
  "mamaSenderId_getSelf h2 r2 p2 (snd (mamaSenderId_getSelf h1 r1 p1 v)) = mamaSenderId_getSelf h1 r1 p1 v"
  "mamaSenderId_getSelf h1 r1 p1 (mamaSenderId_setSelf self v) = (self, mamaSenderId_setSelf self v)"
  by (auto simp: mamaSenderId_getSelf_def mamaSenderId_setSelf_def Let_def split: option.split)

text \<open>The address can be read back from the id, but only the last 8 and 16 bits of the process id.\<close>

lemma self_fields:
  assumes "\<not> gIsSetSelf v" and "resolve h = Some a" and "0 \<le> sint pid"
  defines "self \<equiv> fst (mamaSenderId_getSelf (Some h) resolve pid v)"
  shows "mamaSenderId_getIpAddr self 16 = Some (take 15 (inet_ntoa a))" and "mamaSenderId_getPid self = ucast (ucast pid :: u8)"
    and "mamaSenderId_getPid64 self = ucast (ucast pid :: u16)"
proof -
  have top: "\<not> bit pid 31" using assms(3) bit_last_iff [of pid] by simp
  have p: "(scast pid :: u64) = ucast pid"
  proof (rule bit_word_eqI)
    fix n assume "n < LENGTH(64)"
    then show "bit (scast pid :: u64) n = bit (ucast pid :: u64) n"
      using top bit_imp_le_length [of pid n] by (cases "n \<le> 31") (auto simp: bit_signed_iff bit_unsigned_iff min_def)
  qed
  have s: "self = push_bit 32 (ucast a) + ucast pid" using assms(1,2) p by (simp add: self_def mamaSenderId_getSelf_def)
  have o: "self = push_bit 32 (ucast a) OR ucast pid"
    unfolding s by (rule disjunctive_add) (auto simp: bit_push_bit_iff bit_unsigned_iff dest: bit_imp_le_length)
  have "(ucast (drop_bit 32 self) :: u32) = a"
    unfolding o by (rule bit_word_eqI) (auto simp: bit_simps dest: bit_imp_le_length)
  then show "mamaSenderId_getIpAddr self 16 = Some (take 15 (inet_ntoa a))" by (simp add: mamaSenderId_getIpAddr_def)
  have "0xFF = (mask 8 :: u64)" "0xFFFF = (mask 16 :: u64)" by (simp_all add: mask_eq_exp_minus_1)
  note masks = this
  show "mamaSenderId_getPid self = ucast (ucast pid :: u8)" "mamaSenderId_getPid64 self = ucast (ucast pid :: u16)"
    unfolding o mamaSenderId_getPid_def mamaSenderId_getPid64_def masks
    by (auto intro!: bit_word_eqI simp: bit_simps)
qed

end
