(* ===== verification/DqPublisherManager.thy ===== *)
theory DqPublisherManager
  imports WTable DqPublisher SenderId Transition_Spec
begin

text \<open>
  The publisher manager of \<open>mama/c_cpp/src/c/dqpublishermanager.c\<close>: a table (\<open>wtable.c\<close>) of the symbols for which there is
  a publisher (\<open>dqpublisher.c\<close>), and the requests of subscribers. Publishers live in a heap, a map from addresses, so that
  what is released or leaked can be stated; the address that an allocation returns is an argument. Calls of the
  application's callbacks and of the middleware are events. A callback that the code does not test for \<open>NULL\<close>, an array index out of range
  and an access to memory that could not be allocated give \<open>None\<close>. The creation of messages is taken to succeed.
\<close>

subsection \<open>Data\<close>

type_synonym i16 = "16 word"

record mamaPublishTopic =
  topSymbol :: string
  topPub :: nat
  topCache :: "nat option"

text \<open>A message from the subscription or the inbox, with the fields that are read.\<close>

record reqMsg =
  rId :: nat
  rSubscriptionType :: "i32 option"
  rSubscSymbol :: "string option"
  rSendSubject :: "string option"
  rSubscMsgType :: "i32 option"
  rSyncTopics :: "mama_status + string list"
  rSyncTypes :: "mama_status + i32 list"

datatype mgr_event =
    CbCreate | CbNewRequest string i16 i16 nat | CbRequest mamaPublishTopic i16 i16 nat | CbRefresh mamaPublishTopic i16 i16 nat
  | CbError mama_status string "nat option" | CbMsg nat
  | CreateMamaPublisher string | CreateSubscription string | CreateInbox
  | Publish nat pubMsg | PublishNoSubscribers | SendFromInbox
  | DestroyDQPublisher nat | DestroyMamaPublisher | DestroySubscription | DestroyInbox | DestroyManagerMsgs

record callbacks =
  onCreate :: bool
  onNewRequest :: bool
  onRequest :: bool
  onRefresh :: bool
  onError :: bool
  onMsg :: bool

record mamaDQPublisherManagerImpl =
  mPublisherMap :: "mamaPublishTopic wtable option"
  mRefreshResponseMsg :: "pubMsg option"
  mNoSubscribersMsg :: bool
  mSyncRequestMsg :: "(u16 \<times> rat \<times> rat \<times> string) option"
  mgrSubscription :: bool
  mgrPublisher :: bool
  mgrInbox :: bool
  mgrStatus :: mamaMsgStatus
  mgrSenderId :: u64
  mgrSeqNum :: u32
  mUserCallbacks :: callbacks
  mNameSpace :: string
  mgrClosure :: "nat option"
  mEnableSendTime :: bool
  pubs :: "nat \<rightharpoonup> mamaDQPublisherImpl"
  mgrTrace :: "mgr_event list"

definition log_events :: "mgr_event list \<Rightarrow> mamaDQPublisherManagerImpl \<Rightarrow> mamaDQPublisherManagerImpl" where
  "log_events es s = s\<lparr>mgrTrace := mgrTrace s @ es\<rparr>"

text \<open>Calling a callback of the application.\<close>

definition call :: "(callbacks \<Rightarrow> bool) \<Rightarrow> mgr_event \<Rightarrow> mamaDQPublisherManagerImpl \<Rightarrow> mamaDQPublisherManagerImpl option" where
  "call cb e s = (if cb (mUserCallbacks s) then Some (log_events [e] s) else None)"

subsection \<open>Requests\<close>

definition MAMA_SUBSC_RESUBSCRIBE :: i32 where "MAMA_SUBSC_RESUBSCRIBE = 3"
definition MAMA_SUBSC_REFRESH :: i32 where "MAMA_SUBSC_REFRESH = 4"

text \<open>The loop over the topics of a sync response: as many topics are read as there are types. The callbacks take 16-bit arguments.\<close>

fun sync_loop :: "reqMsg \<Rightarrow> string list \<Rightarrow> i32 list \<Rightarrow> mamaDQPublisherManagerImpl \<Rightarrow> mamaDQPublisherManagerImpl option" where
  "sync_loop msg topics [] s = Some s"
| "sync_loop msg [] (ty # types) s = None"
| "sync_loop msg (topic # topics) (ty # types) s =
    do { s \<leftarrow> (case wtable_lookup (mPublisherMap s) (Some topic) of
           Some info \<Rightarrow> call onRequest (CbRequest info (ucast ty) (ucast MAMA_SUBSC_RESUBSCRIBE) (rId msg)) s
         | None \<Rightarrow> call onNewRequest (CbNewRequest topic (ucast ty) (ucast MAMA_SUBSC_RESUBSCRIBE) (rId msg)) s);
         sync_loop msg topics types s }"

definition inboxMsgCb :: "reqMsg \<Rightarrow> mamaDQPublisherManagerImpl \<Rightarrow> mamaDQPublisherManagerImpl option" where
  "inboxMsgCb msg s =
    (case rSyncTopics msg of
       Inl status \<Rightarrow> call onError (CbError status ''Unknown Msg'' (Some (rId msg))) s
     | Inr topics \<Rightarrow>
         (case rSyncTypes msg of
            Inl status \<Rightarrow> call onError (CbError status ''Unknown Msg'' (Some (rId msg))) s
          | Inr types \<Rightarrow> sync_loop msg topics types s))"

definition inboxErrorCb :: "mama_status \<Rightarrow> mamaDQPublisherManagerImpl \<Rightarrow> mamaDQPublisherManagerImpl option" where
  "inboxErrorCb status s = call onError (CbError status ''Send sync failure'' None) s"

definition dqPublisherImplCreateCb :: "mamaDQPublisherManagerImpl \<Rightarrow> mamaDQPublisherManagerImpl" where
  "dqPublisherImplCreateCb s = (if onCreate (mUserCallbacks s) then log_events [CbCreate] s else s)"

definition dqPublisherImplErrorCb :: "mama_status \<Rightarrow> string \<Rightarrow> mamaDQPublisherManagerImpl option \<Rightarrow> mamaDQPublisherManagerImpl option" where
  "dqPublisherImplErrorCb status subject closure =
    (case closure of None \<Rightarrow> None | Some s \<Rightarrow> call onError (CbError status subject None) s)"

text \<open>The manager's own message is sent, and, being its own, may be modified by the publisher.\<close>

definition refresh_msg :: pubMsg where
  "refresh_msg = \<lparr>wire = \<lparr>mMsgId = 0, fMsgType = Some MAMA_MSG_TYPE_REFRESH, fMsgStatus = Some MAMA_MSG_STATUS_MISC, fSeqNum = None, fSenderId = None,
     fConflateCount = None, fMsgTotal = None, fMsgNum = None, mStatus = MAMA_MSG_STATUS_UNKNOWN, mDqStrategyContext = False\<rparr>,
     fSenderIdType = MAMA_FIELD_TYPE_NONE, fSendTime = None\<rparr>"

definition send_refresh :: "payload \<Rightarrow> (u64 \<times> u64) option \<Rightarrow> mamaPublishTopic \<Rightarrow> mamaDQPublisherManagerImpl \<Rightarrow> mamaDQPublisherManagerImpl option" where
  "send_refresh payload now info s =
    do { let m = (case mRefreshResponseMsg s of Some m \<Rightarrow> m | None \<Rightarrow> refresh_msg);
         pub \<leftarrow> pubs s (topPub info);
         (pub', m') \<leftarrow> mamaDQPublisher_send payload now (Some m) m pub;
         Some (log_events [Publish (topPub info) m'] (s\<lparr>mRefreshResponseMsg := Some m', pubs := (pubs s)(topPub info \<mapsto> pub')\<rparr>)) }"

definition dqPublisherImplMsgCb ::
  "payload \<Rightarrow> (u64 \<times> u64) option \<Rightarrow> reqMsg \<Rightarrow> mamaDQPublisherManagerImpl \<Rightarrow> mamaDQPublisherManagerImpl option" where
  "dqPublisherImplMsgCb payload now msg s =
    (case rSubscriptionType msg of
       None \<Rightarrow> Some (if onMsg (mUserCallbacks s) then log_events [CbMsg (rId msg)] s else s)
     | Some subType \<Rightarrow>
         (case (case rSubscSymbol msg of Some sy \<Rightarrow> Some sy | None \<Rightarrow> rSendSubject msg) of
            None \<Rightarrow> call onError (CbError MAMA_STATUS_NOT_FOUND ''No symbol'' (Some (rId msg))) s
          | Some symbol \<Rightarrow>
              (case rSubscMsgType msg of
                 None \<Rightarrow> call onError (CbError MAMA_STATUS_NOT_FOUND ''NO msg type'' (Some (rId msg))) s
               | Some msgType \<Rightarrow>
                   (case wtable_lookup (mPublisherMap s) (Some symbol) of
                      Some info \<Rightarrow>
                        if msgType = MAMA_SUBSC_REFRESH then
                          do { s \<leftarrow> send_refresh payload now info s;
                               call onRefresh (CbRefresh info (ucast subType) (ucast msgType) (rId msg)) s }
                        else call onRequest (CbRequest info (ucast subType) (ucast msgType) (rId msg)) s
                    | None \<Rightarrow> call onNewRequest (CbNewRequest symbol (ucast subType) (ucast msgType) (rId msg)) s))))"

subsection \<open>Life of the manager\<close>

definition mamaDQPublisherManager_allocate :: "bool \<Rightarrow> u64 \<Rightarrow> (nat \<rightharpoonup> mamaDQPublisherImpl) \<Rightarrow> mamaDQPublisherManagerImpl option \<times> mama_status" where
  "mamaDQPublisherManager_allocate callocOk self heap =
    (if \<not> callocOk then (None, MAMA_STATUS_NOMEM)
     else (Some \<lparr>mPublisherMap = None, mRefreshResponseMsg = None, mNoSubscribersMsg = False, mSyncRequestMsg = None, mgrSubscription = False,
       mgrPublisher = False, mgrInbox = False, mgrStatus = MAMA_MSG_STATUS_OK, mgrSenderId = self, mgrSeqNum = 1,
       mUserCallbacks = \<lparr>onCreate = False, onNewRequest = False, onRequest = False, onRefresh = False, onError = False, onMsg = False\<rparr>,
       mNameSpace = [], mgrClosure = None, mEnableSendTime = False, pubs = heap, mgrTrace = []\<rparr>, MAMA_STATUS_OK))"

definition mamaDQPublisherManager_getClosure :: "mamaDQPublisherManagerImpl option \<Rightarrow> nat option" where
  "mamaDQPublisherManager_getClosure manager = (case manager of None \<Rightarrow> None | Some s \<Rightarrow> mgrClosure s)"

definition NUM_BUCKETS :: u64 where "NUM_BUCKETS = 11"
definition MAMA_CM_TOPIC :: string where "MAMA_CM_TOPIC = ''__MAMA_CM''"

text \<open>The results of creating the publisher, the table and the subscription are not checked; the arguments say what they are.\<close>

definition mamaDQPublisherManager_create ::
  "bool \<times> bool \<Rightarrow> bool \<Rightarrow> bool \<Rightarrow> callbacks \<Rightarrow> string \<Rightarrow> string \<Rightarrow> nat option \<Rightarrow> mamaDQPublisherManagerImpl \<Rightarrow>
    (mamaDQPublisherManagerImpl \<times> mama_status) option" where
  "mamaDQPublisherManager_create tableMem subscOk pubOk callback sourcename srcRoot closure s =
    do { let topic = srcRoot @ ''.'' @ sourcename;
         t \<leftarrow> wtable_create (fst tableMem) (snd tableMem) (Some topic) NUM_BUCKETS;
         let s = s\<lparr>mUserCallbacks := callback, mgrClosure := closure, mNameSpace := sourcename, mPublisherMap := t, mgrSubscription := subscOk,
                   mgrPublisher := pubOk\<rparr>;
         Some (log_events [CreateMamaPublisher MAMA_CM_TOPIC, CreateSubscription topic] s, MAMA_STATUS_OK) }"

text \<open>Destroying the manager: the events, and the heap of publishers afterwards. The table is destroyed without looking at its entries.\<close>

definition mamaDQPublisherManager_destroy :: "mamaDQPublisherManagerImpl option \<Rightarrow> (mgr_event list \<times> (nat \<rightharpoonup> mamaDQPublisherImpl)) option" where
  "mamaDQPublisherManager_destroy manager =
    map_option (\<lambda>s. ((if mgrPublisher s then [DestroyMamaPublisher] else []) @ (if mgrSubscription s then [DestroySubscription] else []) @
      (if mgrInbox s then [DestroyInbox] else []) @
      (if mRefreshResponseMsg s \<noteq> None \<or> mNoSubscribersMsg s \<or> mSyncRequestMsg s \<noteq> None then [DestroyManagerMsgs] else []), pubs s)) manager"

subsection \<open>Publishers\<close>

text \<open>\<open>mem\<close>: whether the topic, and the bucket of the table, can be allocated.\<close>

definition mamaDQPublisherManager_addPublisher ::
  "bool \<times> bool \<Rightarrow> string \<Rightarrow> nat \<Rightarrow> nat option \<Rightarrow> mamaDQPublisherManagerImpl \<Rightarrow> (mama_status \<times> mamaDQPublisherManagerImpl) option" where
  "mamaDQPublisherManager_addPublisher mem symbol pub cache s =
    (case wtable_lookup (mPublisherMap s) (Some symbol) of
       Some _ \<Rightarrow> Some (MAMA_STATUS_INVALID_ARG, s)
     | None \<Rightarrow>
         if \<not> fst mem then None
         else
           let newTopic = \<lparr>topSymbol = symbol, topPub = pub, topCache = cache\<rparr>;
               (r, t) = wtable_insert (snd mem) (mPublisherMap s) (Some symbol) (Some newTopic);
               s = s\<lparr>mPublisherMap := t\<rparr>
           in Some (if r \<noteq> 1 then MAMA_STATUS_INVALID_ARG else MAMA_STATUS_OK, s))"

definition mamaDQPublisherManager_removePublisher ::
  "string \<Rightarrow> mamaDQPublisherManagerImpl \<Rightarrow> mama_status \<times> nat option \<times> mamaDQPublisherManagerImpl" where
  "mamaDQPublisherManager_removePublisher symbol s =
    (case wtable_lookup (mPublisherMap s) (Some symbol) of
       Some newTopic \<Rightarrow>
         (MAMA_STATUS_OK, Some (topPub newTopic), s\<lparr>mPublisherMap := snd (wtable_remove (mPublisherMap s) (Some symbol))\<rparr>)
     | None \<Rightarrow> (MAMA_STATUS_INVALID_ARG, None, s))"

definition destroy_dq :: "nat \<Rightarrow> mamaDQPublisherManagerImpl \<Rightarrow> mamaDQPublisherManagerImpl option" where
  "destroy_dq p s = (if pubs s p = None then None else Some (log_events [DestroyDQPublisher p] (s\<lparr>pubs := (pubs s)(p := None)\<rparr>)))"

text \<open>The publisher that is allocated, set up by the members of the manager.\<close>

definition new_publisher :: "bool \<Rightarrow> u64 \<Rightarrow> nat option \<Rightarrow> mamaDQPublisherManagerImpl \<Rightarrow> mamaDQPublisherImpl option \<times> mama_status" where
  "new_publisher dtOk self cache s =
    (let (pub, status) = mamaDQPublisher_allocate True self
     in (map_option (\<lambda>pub. mamaDQPublisher_enableSendTime dtOk (mEnableSendTime s) (mamaDQPublisher_setSeqNum (mgrSeqNum s)
          (mamaDQPublisher_setStatus (mgrStatus s) (mamaDQPublisher_setSenderId (mgrSenderId s) (mamaDQPublisher_setCache cache pub))))) pub, status))"

text \<open>\<open>addr\<close> is the result of the allocation of the publisher, \<open>self\<close> the sender id of the process and \<open>bridgeStatus\<close> that of
  creating the underlying publisher. The result has the pointer that is written through \<open>newPublisher\<close>, \<open>None\<close> when nothing is written.\<close>

definition mamaDQPublisherManager_createPublisher ::
  "nat option \<Rightarrow> bool \<times> bool \<times> bool \<Rightarrow> mama_status \<Rightarrow> u64 \<Rightarrow> string \<Rightarrow> nat option \<Rightarrow> mamaDQPublisherManagerImpl \<Rightarrow>
    (mama_status \<times> nat option \<times> mamaDQPublisherManagerImpl) option" where
  "mamaDQPublisherManager_createPublisher addr mem bridgeStatus self symbol cache s =
    (case wtable_lookup (mPublisherMap s) (Some symbol) of
       Some _ \<Rightarrow> Some (MAMA_STATUS_INVALID_ARG, None, s)
     | None \<Rightarrow>
         (case addr of
            None \<Rightarrow> Some (MAMA_STATUS_NOMEM, None, s)
          | Some p \<Rightarrow>
              (case new_publisher (snd (snd mem)) self cache s of
                 (None, status) \<Rightarrow> Some (status, None, s)
               | (Some pub, _) \<Rightarrow>
                   if \<not> fst mem then None
                   else
                     let newTopic = \<lparr>topSymbol = symbol, topPub = p, topCache = cache\<rparr>;
                         (pub, status) = mamaDQPublisher_create bridgeStatus pub;
                         s = log_events [CreateMamaPublisher (mNameSpace s @ ''.'' @ symbol)] (s\<lparr>pubs := (pubs s)(p \<mapsto> pub)\<rparr>)
                     in if status \<noteq> MAMA_STATUS_OK then Some (status, Some p, s)
                        else
                          let (r, t) = wtable_insert (fst (snd mem)) (mPublisherMap s) (Some symbol) (Some newTopic);
                              s = s\<lparr>mPublisherMap := t\<rparr>
                          in if r \<noteq> 1 then map_option (\<lambda>s. (status, Some p, s)) (destroy_dq p s)
                             else Some (MAMA_STATUS_OK, Some p, s))))"

definition mamaDQPublisherManager_destroyPublisher :: "string \<Rightarrow> mamaDQPublisherManagerImpl \<Rightarrow> (mama_status \<times> mamaDQPublisherManagerImpl) option" where
  "mamaDQPublisherManager_destroyPublisher symbol s =
    (case wtable_lookup (mPublisherMap s) (Some symbol) of
       None \<Rightarrow> Some (MAMA_STATUS_INVALID_ARG, s)
     | Some newTopic \<Rightarrow>
         do { s \<leftarrow> destroy_dq (topPub newTopic) s;
              Some (MAMA_STATUS_OK, s\<lparr>mPublisherMap := snd (wtable_remove (mPublisherMap s) (Some symbol))\<rparr>) })"

definition mamaDQPublisherManager_setStatus :: "mamaMsgStatus \<Rightarrow> mamaDQPublisherManagerImpl \<Rightarrow> mamaDQPublisherManagerImpl" where
  "mamaDQPublisherManager_setStatus status s = s\<lparr>mgrStatus := status\<rparr>"

definition mamaDQPublisherManager_setSenderId :: "u64 \<Rightarrow> mamaDQPublisherManagerImpl \<Rightarrow> mamaDQPublisherManagerImpl" where
  "mamaDQPublisherManager_setSenderId senderid s = s\<lparr>mgrSenderId := senderid\<rparr>"

definition mamaDQPublisherManager_setSeqNum :: "u32 \<Rightarrow> mamaDQPublisherManagerImpl \<Rightarrow> mamaDQPublisherManagerImpl" where
  "mamaDQPublisherManager_setSeqNum num s = s\<lparr>mgrSeqNum := num\<rparr>"

definition mamaDQPublisherManager_enableSendTime :: "bool \<Rightarrow> mamaDQPublisherManagerImpl \<Rightarrow> mamaDQPublisherManagerImpl" where
  "mamaDQPublisherManager_enableSendTime enable s = s\<lparr>mEnableSendTime := enable\<rparr>"

text \<open>The first call creates the inbox and the message, later ones send the same message whatever their arguments are.\<close>

definition mamaDQPublisherManager_sendSyncRequest ::
  "mama_status \<Rightarrow> u16 \<Rightarrow> rat \<Rightarrow> rat \<Rightarrow> mamaDQPublisherManagerImpl \<Rightarrow> mama_status \<times> mamaDQPublisherManagerImpl" where
  "mamaDQPublisherManager_sendSyncRequest sendStatus nummsg delay duration s =
    (let s = (if mSyncRequestMsg s = None
        then log_events [CreateInbox] (s\<lparr>mgrInbox := True, mSyncRequestMsg := Some (nummsg, delay, duration, mNameSpace s)\<rparr>) else s)
     in (sendStatus, log_events [SendFromInbox] s))"

definition mamaDQPublisherManager_sendNoSubscribers :: "string \<Rightarrow> mamaDQPublisherManagerImpl \<Rightarrow> mama_status \<times> mamaDQPublisherManagerImpl" where
  "mamaDQPublisherManager_sendNoSubscribers symbol s = (MAMA_STATUS_OK, log_events [PublishNoSubscribers] (s\<lparr>mNoSubscribersMsg := True\<rparr>))"

subsection \<open>The table of publishers\<close>

text \<open>What the manager stands for: which publisher and cache a symbol has, and which publishers are alive.\<close>

definition registered :: "mamaDQPublisherManagerImpl \<Rightarrow> string \<rightharpoonup> nat \<times> nat option" where
  "registered s k = map_option (\<lambda>i. (topPub i, topCache i)) (wtable_lookup (mPublisherMap s) (Some k))"

definition mgr_abs :: "mamaDQPublisherManagerImpl \<Rightarrow> (string \<rightharpoonup> nat \<times> nat option) \<times> nat set" where
  "mgr_abs s = (registered s, dom (pubs s))"

text \<open>The table is well formed, an entry has its symbol and a live publisher of its own, all callbacks that are not tested for \<open>NULL\<close> are
  there, no publisher has another format for the send time than the one it is allocated with, and the message for refreshs has its type.\<close>

definition mgr_inv :: "mamaDQPublisherManagerImpl \<Rightarrow> bool" where
  "mgr_inv s \<longleftrightarrow> (\<exists>t. mPublisherMap s = Some t \<and> wt_inv t \<and> (\<forall>k d. wt_map t k = Some d \<longrightarrow> (\<exists>i. d = Some i \<and> topSymbol i = k \<and> topPub i \<in> dom (pubs s))) \<and>
     (\<forall>k k' i i'. wt_map t k = Some (Some i) \<longrightarrow> wt_map t k' = Some (Some i') \<longrightarrow> topPub i = topPub i' \<longrightarrow> k = k')) \<and>
     onNewRequest (mUserCallbacks s) \<and> onRequest (mUserCallbacks s) \<and> onRefresh (mUserCallbacks s) \<and> onError (mUserCallbacks s) \<and>
     (\<forall>pub \<in> ran (pubs s). pubSendTimeFormat pub = ''%T%;'') \<and> (\<forall>m. mRefreshResponseMsg s = Some m \<longrightarrow> fMsgType (wire m) = Some MAMA_MSG_TYPE_REFRESH)"

lemma log_events_simps [simp]:
  "mPublisherMap (log_events es s) = mPublisherMap s" "pubs (log_events es s) = pubs s" "mUserCallbacks (log_events es s) = mUserCallbacks s"
  "mgrTrace (log_events es s) = mgrTrace s @ es" "registered (log_events es s) = registered s" "mgr_abs (log_events es s) = mgr_abs s"
  "mgr_inv (log_events es s) = mgr_inv s"
proof -
  have m: "mRefreshResponseMsg (log_events es s) = mRefreshResponseMsg s" by (simp add: log_events_def)
  show a: "mPublisherMap (log_events es s) = mPublisherMap s" "pubs (log_events es s) = pubs s" "mUserCallbacks (log_events es s) = mUserCallbacks s"
    "mgrTrace (log_events es s) = mgrTrace s @ es" by (simp_all add: log_events_def)
  then show "registered (log_events es s) = registered s" by (simp add: registered_def fun_eq_iff)
  with a m show "mgr_abs (log_events es s) = mgr_abs s" "mgr_inv (log_events es s) = mgr_inv s" by (simp_all add: mgr_abs_def mgr_inv_def)
qed

lemma registered_table:
  "mPublisherMap s = Some t \<Longrightarrow> registered s = (\<lambda>k. map_option (\<lambda>i. (topPub i, topCache i)) (Option.bind (wt_map t k) id))"
  by (simp add: registered_def wtable_lookup_map fun_eq_iff)

lemma registered_entry:
  assumes "mPublisherMap s = Some t" and "\<forall>k d. wt_map t k = Some d \<longrightarrow> (\<exists>i. d = Some i \<and> P k i)"
  shows "registered s k = None \<longleftrightarrow> wt_map t k = None"
  using assms(2) by (cases "wt_map t k") (auto simp: registered_table [OF assms(1)])

text \<open>An entry is added for a publisher that no other symbol has.\<close>

lemma mgr_put:
  fixes cache :: "nat option"
  assumes "mgr_inv s" and "registered s k = None" and "\<forall>k'. \<forall>c. registered s k' \<noteq> Some (p, c)" and "pubSendTimeFormat pub = ''%T%;''"
  defines "i \<equiv> \<lparr>topSymbol = k, topPub = p, topCache = cache\<rparr>"
  obtains t where "mPublisherMap s = Some t" and "wtable_insert True (Some t) (Some k) (Some i) = (1, Some (wt_put t k (Some i)))"
    and "mgr_inv (s\<lparr>mPublisherMap := Some (wt_put t k (Some i)), pubs := (pubs s)(p \<mapsto> pub)\<rparr>)"
    and "registered (s\<lparr>mPublisherMap := Some (wt_put t k (Some i)), pubs := (pubs s)(p \<mapsto> pub)\<rparr>) = (registered s)(k \<mapsto> (p, cache))"
proof -
  from assms(1) obtain t where t: "mPublisherMap s = Some t" "wt_inv t"
    "\<forall>k d. wt_map t k = Some d \<longrightarrow> (\<exists>i. d = Some i \<and> topSymbol i = k \<and> topPub i \<in> dom (pubs s))"
    "\<forall>k k' i i'. wt_map t k = Some (Some i) \<longrightarrow> wt_map t k' = Some (Some i') \<longrightarrow> topPub i = topPub i' \<longrightarrow> k = k'"
    unfolding mgr_inv_def by blast
  have k: "wt_map t k = None" using registered_entry [OF t(1,3)] assms(2) by simp
  have fresh: "topPub j \<noteq> p" if "wt_map t k' = Some (Some j)" for k' j
    using that assms(3) [rule_format, of k' "topCache j"] by (simp add: registered_table [OF t(1)])
  let ?t = "wt_put t k (Some i)"
  have m: "wt_map ?t = (wt_map t)(k \<mapsto> Some i)" "wt_inv ?t" using t(2) by (simp_all add: wt.tmap_put wt.inv_put)
  have i: "topSymbol i = k" "topPub i = p" "topCache i = cache" by (simp_all add: i_def)
  have "\<forall>k' d. wt_map ?t k' = Some d \<longrightarrow> (\<exists>i. d = Some i \<and> topSymbol i = k' \<and> topPub i \<in> dom ((pubs s)(p \<mapsto> pub)))"
    using t(3) by (auto simp: m(1) i) blast
  moreover have "\<forall>k1 k2 i1 i2. wt_map ?t k1 = Some (Some i1) \<longrightarrow> wt_map ?t k2 = Some (Some i2) \<longrightarrow> topPub i1 = topPub i2 \<longrightarrow> k1 = k2"
    using t(4) fresh by (auto simp: m(1) i(2) split: if_splits) metis+
  moreover have "\<forall>pub \<in> ran ((pubs s)(p \<mapsto> pub)). pubSendTimeFormat pub = ''%T%;''"
    using assms(1,4) by (auto simp: mgr_inv_def ran_def split: if_splits)
  ultimately have "mgr_inv (s\<lparr>mPublisherMap := Some ?t, pubs := (pubs s)(p \<mapsto> pub)\<rparr>)"
    using assms(1) m(2) unfolding mgr_inv_def by simp
  moreover have "registered (s\<lparr>mPublisherMap := Some ?t, pubs := (pubs s)(p \<mapsto> pub)\<rparr>) = (registered s)(k \<mapsto> (p, cache))"
    by (simp add: registered_table [OF t(1)] registered_table m(1) i fun_eq_iff)
  moreover have "wtable_insert True (Some t) (Some k) (Some i) = (1, Some ?t)" using k by (simp add: wtable_insert_Some domIff)
  ultimately show ?thesis using that t(1) by blast
qed

text \<open>An entry is removed; its publisher may be destroyed as well.\<close>

lemma mgr_del:
  assumes "mgr_inv s" and "registered s k = Some (p, c)"
  obtains t i where "mPublisherMap s = Some t" and "wtable_lookup (Some t) (Some k) = Some i" and "topPub i = p"
    and "wtable_remove (Some t) (Some k) = (Some i, Some (wt_del t k))" and "p \<in> dom (pubs s)"
    and "mgr_inv (s\<lparr>mPublisherMap := Some (wt_del t k)\<rparr>)" and "registered (s\<lparr>mPublisherMap := Some (wt_del t k)\<rparr>) = (registered s)(k := None)"
    and "mgr_inv (s\<lparr>mPublisherMap := Some (wt_del t k), pubs := (pubs s)(p := None)\<rparr>)"
proof -
  from assms(1) obtain t where t: "mPublisherMap s = Some t" "wt_inv t"
    "\<forall>k d. wt_map t k = Some d \<longrightarrow> (\<exists>i. d = Some i \<and> topSymbol i = k \<and> topPub i \<in> dom (pubs s))"
    "\<forall>k k' i i'. wt_map t k = Some (Some i) \<longrightarrow> wt_map t k' = Some (Some i') \<longrightarrow> topPub i = topPub i' \<longrightarrow> k = k'"
    unfolding mgr_inv_def by blast
  obtain i where i: "wt_map t k = Some (Some i)" "topPub i = p" "topCache i = c"
    using assms(2) by (auto simp: registered_table [OF t(1)] bind_eq_Some_conv)
  let ?t = "wt_del t k"
  have m: "wt_map ?t = (wt_map t)(k := None)" "wt_inv ?t" using t(2) by (simp_all add: wt.tmap_del wt.inv_del)
  have r: "\<forall>pub \<in> ran ((pubs s)(p := None)). pubSendTimeFormat pub = ''%T%;''"
    using assms(1) by (auto simp: mgr_inv_def ran_def split: if_splits)
  have inj: "\<forall>k1 k2 i1 i2. wt_map ?t k1 = Some (Some i1) \<longrightarrow> wt_map ?t k2 = Some (Some i2) \<longrightarrow> topPub i1 = topPub i2 \<longrightarrow> k1 = k2"
    using t(4) by (auto simp: m(1) split: if_splits)
  have "\<forall>k' d. wt_map ?t k' = Some d \<longrightarrow> (\<exists>i. d = Some i \<and> topSymbol i = k' \<and> topPub i \<in> dom (pubs s))"
    "\<forall>k' d. wt_map ?t k' = Some d \<longrightarrow> (\<exists>i. d = Some i \<and> topSymbol i = k' \<and> topPub i \<in> dom ((pubs s)(p := None)))"
    using t(3,4) i(1,2) by (fastforce simp: m(1) split: if_splits)+
  with inj r have "mgr_inv (s\<lparr>mPublisherMap := Some ?t\<rparr>)" "mgr_inv (s\<lparr>mPublisherMap := Some ?t, pubs := (pubs s)(p := None)\<rparr>)"
    using assms(1) m(2) unfolding mgr_inv_def by simp_all
  moreover have "registered (s\<lparr>mPublisherMap := Some ?t\<rparr>) = (registered s)(k := None)"
    by (simp add: registered_table [OF t(1)] registered_table m(1) fun_eq_iff)
  moreover have "p \<in> dom (pubs s)" using t(3) i by fastforce
  ultimately show ?thesis
    using that [of t i] t(1) i by (simp add: wtable_lookup_map wtable_remove_Some [OF t(2)])
qed

lemma registered_pubs [simp]: "registered (s\<lparr>pubs := h\<rparr>) = registered s" "registered (s\<lparr>mRefreshResponseMsg := m\<rparr>) = registered s"
  by (simp_all add: registered_def fun_eq_iff)

subsection \<open>Operations on publishers\<close>

text \<open>The publisher that a manager sets up.\<close>

lemma new_publisher_fields:
  obtains pub where "new_publisher dtOk self cache s = (Some pub, MAMA_STATUS_OK)" and "pubSenderId pub = mgrSenderId s" and "pubStatus pub = mgrStatus s"
    and "pubSeqNum pub = mgrSeqNum s" and "pubCache pub = cache" and "pubSendTimeFormat pub = ''%T%;''" and "pubSendTime pub \<noteq> None \<longleftrightarrow> mEnableSendTime s \<and> dtOk"
  using that
  by (simp add: new_publisher_def mamaDQPublisher_allocate_def mamaDQPublisher_setCache_def mamaDQPublisher_setSenderId_def mamaDQPublisher_setStatus_def
      mamaDQPublisher_setSeqNum_def mamaDQPublisher_enableSendTime_def mamaDateTime_create_def Let_def)

lemma createPublisher_new:
  assumes "mgr_inv s" and "registered s k = None" and "p \<notin> dom (pubs s)"
  obtains s' pub where "mamaDQPublisherManager_createPublisher (Some p) (True, True, dtOk) MAMA_STATUS_OK self k cache s = Some (MAMA_STATUS_OK, Some p, s')"
    and "mgr_inv s'" and "registered s' = (registered s)(k \<mapsto> (p, cache))" and "pubs s' = (pubs s)(p \<mapsto> pub)"
    and "pubSenderId pub = mgrSenderId s" and "pubStatus pub = mgrStatus s" and "pubSeqNum pub = mgrSeqNum s" and "pubCache pub = cache" and "pubPublisher pub"
    and "mgrTrace s' = mgrTrace s @ [CreateMamaPublisher (mNameSpace s @ ''.'' @ k)]"
proof -
  obtain pub where pub: "new_publisher dtOk self cache s = (Some pub, MAMA_STATUS_OK)" "pubSenderId pub = mgrSenderId s" "pubStatus pub = mgrStatus s"
    "pubSeqNum pub = mgrSeqNum s" "pubCache pub = cache" "pubSendTimeFormat pub = ''%T%;''"
    using new_publisher_fields [of dtOk self cache s] by metis
  let ?pub = "pub\<lparr>pubPublisher := True\<rparr>" and ?i = "\<lparr>topSymbol = k, topPub = p, topCache = cache\<rparr>"
  have "\<forall>k'. \<forall>c. registered s k' \<noteq> Some (p, c)" using assms(3) mgr_del [OF assms(1)] by metis
  moreover have "pubSendTimeFormat ?pub = ''%T%;''" using pub(6) by simp
  ultimately obtain t where t: "mPublisherMap s = Some t" "wtable_insert True (Some t) (Some k) (Some ?i) = (1, Some (wt_put t k (Some ?i)))"
    "mgr_inv (s\<lparr>mPublisherMap := Some (wt_put t k (Some ?i)), pubs := (pubs s)(p \<mapsto> ?pub)\<rparr>)"
    "registered (s\<lparr>mPublisherMap := Some (wt_put t k (Some ?i)), pubs := (pubs s)(p \<mapsto> ?pub)\<rparr>) = (registered s)(k \<mapsto> (p, cache))"
    using mgr_put [OF assms(1,2), of p ?pub cache] by metis
  let ?s = "log_events [CreateMamaPublisher (mNameSpace s @ ''.'' @ k)] (s\<lparr>mPublisherMap := Some (wt_put t k (Some ?i)), pubs := (pubs s)(p \<mapsto> ?pub)\<rparr>)"
  have "wtable_lookup (Some t) (Some k) = None" using assms(2) t(1) by (simp add: registered_def)
  then have "mamaDQPublisherManager_createPublisher (Some p) (True, True, dtOk) MAMA_STATUS_OK self k cache s = Some (MAMA_STATUS_OK, Some p, ?s)"
    by (simp add: mamaDQPublisherManager_createPublisher_def pub(1) t(1,2) mamaDQPublisher_create_def Let_def) (simp add: log_events_def)
  then show ?thesis using t(3,4) pub by (intro that [of ?s ?pub]) simp_all
qed

lemma createPublisher_existing:
  "registered s k \<noteq> None \<Longrightarrow> mamaDQPublisherManager_createPublisher addr mem st self k cache s = Some (MAMA_STATUS_INVALID_ARG, None, s)"
  by (auto simp: mamaDQPublisherManager_createPublisher_def registered_def)

lemma destroyPublisher_run:
  assumes "mgr_inv s" and "registered s k = Some (p, c)"
  obtains s' where "mamaDQPublisherManager_destroyPublisher k s = Some (MAMA_STATUS_OK, s')" and "mgr_inv s'"
    and "registered s' = (registered s)(k := None)" and "pubs s' = (pubs s)(p := None)" and "mgrTrace s' = mgrTrace s @ [DestroyDQPublisher p]"
proof -
  obtain t i where t: "mPublisherMap s = Some t" "wtable_lookup (Some t) (Some k) = Some i" "topPub i = p"
    "wtable_remove (Some t) (Some k) = (Some i, Some (wt_del t k))" "p \<in> dom (pubs s)"
    "registered (s\<lparr>mPublisherMap := Some (wt_del t k)\<rparr>) = (registered s)(k := None)"
    "mgr_inv (s\<lparr>mPublisherMap := Some (wt_del t k), pubs := (pubs s)(p := None)\<rparr>)"
    using mgr_del [OF assms] by metis
  let ?s = "log_events [DestroyDQPublisher p] (s\<lparr>mPublisherMap := Some (wt_del t k), pubs := (pubs s)(p := None)\<rparr>)"
  have "mamaDQPublisherManager_destroyPublisher k s = Some (MAMA_STATUS_OK, ?s)"
    using t(5) by (auto simp: mamaDQPublisherManager_destroyPublisher_def destroy_dq_def t(1-4)) (simp_all add: log_events_def)
  then show ?thesis using t(6,7) by (intro that [of ?s]) simp_all
qed

lemma removePublisher_run:
  assumes "mgr_inv s" and "registered s k = Some (p, c)"
  obtains s' where "mamaDQPublisherManager_removePublisher k s = (MAMA_STATUS_OK, Some p, s')" and "mgr_inv s'"
    and "registered s' = (registered s)(k := None)" and "pubs s' = pubs s"
proof -
  obtain t i where "mPublisherMap s = Some t" "wtable_lookup (Some t) (Some k) = Some i" "topPub i = p"
    "wtable_remove (Some t) (Some k) = (Some i, Some (wt_del t k))" "mgr_inv (s\<lparr>mPublisherMap := Some (wt_del t k)\<rparr>)"
    "registered (s\<lparr>mPublisherMap := Some (wt_del t k)\<rparr>) = (registered s)(k := None)"
    using mgr_del [OF assms] by metis
  then show ?thesis using that by (simp add: mamaDQPublisherManager_removePublisher_def)
qed

subsection \<open>Runs of operations\<close>

text \<open>Creating, destroying and removing publishers, registering one of the application's own, and messages from subscribers. Here all
  memory that is asked for is there and the middleware creates the publishers; the failures are treated separately.\<close>

datatype mgr_op = CreateP nat string "nat option" | DestroyP string | RemoveP string | AddP string nat "nat option" | Request reqMsg

fun mgr_step :: "payload \<Rightarrow> u64 \<Rightarrow> mgr_op \<Rightarrow> mamaDQPublisherManagerImpl \<Rightarrow> mamaDQPublisherManagerImpl option" where
  "mgr_step payload self (CreateP p k c) s =
    map_option (\<lambda>(st, q, s). s) (mamaDQPublisherManager_createPublisher (Some p) (True, True, True) MAMA_STATUS_OK self k c s)"
| "mgr_step payload self (DestroyP k) s = map_option snd (mamaDQPublisherManager_destroyPublisher k s)"
| "mgr_step payload self (RemoveP k) s = Some (snd (snd (mamaDQPublisherManager_removePublisher k s)))"
| "mgr_step payload self (AddP k p c) s = map_option snd (mamaDQPublisherManager_addPublisher (True, True) k p c s)"
| "mgr_step payload self (Request msg) s = dqPublisherImplMsgCb payload (Some (0, 0)) msg s"

fun mgr_spec :: "mgr_op \<Rightarrow> (string \<rightharpoonup> nat \<times> nat option) \<times> nat set \<Rightarrow> (string \<rightharpoonup> nat \<times> nat option) \<times> nat set" where
  "mgr_spec (CreateP p k c) (reg, live) = (if reg k = None then (reg(k \<mapsto> (p, c)), insert p live) else (reg, live))"
| "mgr_spec (DestroyP k) (reg, live) = (case reg k of None \<Rightarrow> (reg, live) | Some (p, c) \<Rightarrow> (reg(k := None), live - {p}))"
| "mgr_spec (RemoveP k) (reg, live) = (reg(k := None), live)"
| "mgr_spec (AddP k p c) (reg, live) = (if reg k = None then (reg(k \<mapsto> (p, c)), live) else (reg, live))"
| "mgr_spec (Request msg) (reg, live) = (reg, live)"

text \<open>An allocation returns memory that is not in use; a publisher that the application registers is alive and was not registered before.\<close>

fun mgr_valid :: "mgr_op \<Rightarrow> (string \<rightharpoonup> nat \<times> nat option) \<times> nat set \<Rightarrow> bool" where
  "mgr_valid (CreateP p k c) (reg, live) = (p \<notin> live)"
| "mgr_valid (AddP k p c) (reg, live) = (p \<in> live \<and> p \<notin> fst ` ran reg)"
| "mgr_valid op a = True"

lemma send_total:
  assumes "pubSendTimeFormat pub = ''%T%;''"
  obtains pub' m' where "mamaDQPublisher_send payload now (Some m) msg pub = Some (pub', m')" and "pubSendTimeFormat pub' = ''%T%;''"
proof -
  have n: "pubSendTimeFormat (fst (number_by_type payload pub m)) = ''%T%;''"
    using assms by (simp add: number_by_type_def split: mamaMsgType.splits)
  have u: "\<exists>q m'. updateSendTime payload now q' x = Some (q, m') \<and> pubSendTimeFormat q = ''%T%;''" if "pubSendTimeFormat q' = ''%T%;''" for q' x
    using updateSendTime_effect [OF that, of payload now x] that by (metis mamaDQPublisherImpl.select_convs(8) mamaDQPublisherImpl.surjective mamaDQPublisherImpl.update_convs(7))
  have "\<exists>pub' m'. mamaDQPublisher_send payload now (Some m) msg pub = Some (pub', m') \<and> pubSendTimeFormat pub' = ''%T%;''"
    using n u assms by (auto simp: mamaDQPublisher_send_def Let_def split_beta)
  with that show ?thesis by blast
qed

lemma type_kept:
  "fMsgType (wire (updateSenderId payload pub m)) = fMsgType (wire m)" "fMsgType (wire (updateSeqNum payload pub m)) = fMsgType (wire m)"
  "fMsgType (wire (updateMsgStatus payload pub m)) = fMsgType (wire m)"
  by (simp_all add: updateSenderId_def updateSeqNum_def updateMsgStatus_def attempt_def upd_wire_def Let_def split: senderIdType.split)

lemma send_keeps_type:
  assumes "mamaDQPublisher_send payload now (Some m) m pub = Some (pub', m')" and "pubSendTimeFormat pub = ''%T%;''"
  shows "fMsgType (wire m') = fMsgType (wire m)"
proof -
  have n: "pubSendTimeFormat (fst (number_by_type payload pub m)) = ''%T%;'' \<and> fMsgType (wire (snd (number_by_type payload pub m))) = fMsgType (wire m)"
    using assms(2) by (simp add: number_by_type_def type_kept split: mamaMsgType.splits)
  have u: "fMsgType (wire z) = fMsgType (wire x)" if u: "updateSendTime payload now q x = Some (q', z)" and "pubSendTimeFormat q = ''%T%;''" for q q' x z
    using updateSendTime_effect [OF that(2), of payload now x] u by (metis option.inject prod.inject)
  show ?thesis
    using assms n u by (auto simp: mamaDQPublisher_send_def Let_def split_beta type_kept split: if_splits)
qed

lemma send_refresh_run:
  assumes "mgr_inv s" and "wtable_lookup (mPublisherMap s) (Some k) = Some i"
  obtains s' where "send_refresh payload now i s = Some s'" and "mgr_inv s'" and "mgr_abs s' = mgr_abs s" 
    and "\<exists>m. mgrTrace s' = mgrTrace s @ [Publish (topPub i) m] \<and> fMsgType (wire m) = Some MAMA_MSG_TYPE_REFRESH"
proof -
  let ?m = "case mRefreshResponseMsg s of Some m \<Rightarrow> m | None \<Rightarrow> refresh_msg"
  from assms obtain pub where pub: "pubs s (topPub i) = Some pub"
    by (auto simp: mgr_inv_def wtable_lookup_map bind_eq_Some_conv) blast
  then have f: "pubSendTimeFormat pub = ''%T%;''" using assms(1) by (auto simp: mgr_inv_def ran_def)
  then obtain pub' m' where m: "mamaDQPublisher_send payload now (Some ?m) ?m pub = Some (pub', m')" "pubSendTimeFormat pub' = ''%T%;''"
    by (rule send_total)
  let ?s = "s\<lparr>mRefreshResponseMsg := Some m', pubs := (pubs s)(topPub i \<mapsto> pub')\<rparr>"
  have d: "dom ((pubs s)(topPub i \<mapsto> pub')) = dom (pubs s)" using pub by auto
  have "\<forall>pub \<in> ran ((pubs s)(topPub i \<mapsto> pub')). pubSendTimeFormat pub = ''%T%;''"
    using assms(1) m(2) by (auto simp: mgr_inv_def ran_def)
  moreover have ty: "fMsgType (wire m') = Some MAMA_MSG_TYPE_REFRESH"
    using send_keeps_type [OF m(1) f] assms(1) by (auto simp: mgr_inv_def refresh_msg_def split: option.splits)
  ultimately have "mgr_inv ?s" using assms(1) d unfolding mgr_inv_def by simp
  moreover have "mgr_abs ?s = mgr_abs s" using d by (simp add: mgr_abs_def)
  ultimately show ?thesis using m(1) pub ty
    by (intro that [of "log_events [Publish (topPub i) m'] ?s"]) (simp_all add: send_refresh_def)
qed

lemma mgr_inv_callbacks: "mgr_inv s \<Longrightarrow> onNewRequest (mUserCallbacks s) \<and> onRequest (mUserCallbacks s) \<and> onRefresh (mUserCallbacks s) \<and> onError (mUserCallbacks s)"
  by (simp add: mgr_inv_def)

lemma request_simulates:
  assumes "mgr_inv s"
  shows "\<exists>s'. dqPublisherImplMsgCb payload now msg s = Some s' \<and> mgr_inv s' \<and> mgr_abs s' = mgr_abs s"
proof -
  have r: "\<exists>s'. send_refresh payload now i s \<bind> call onRefresh e = Some s' \<and> mgr_inv s' \<and> mgr_abs s' = mgr_abs s"
    if l: "wtable_lookup (mPublisherMap s) (Some k) = Some i" for k i e
  proof -
    obtain s' where "send_refresh payload now i s = Some s'" "mgr_inv s'" "mgr_abs s' = mgr_abs s" using send_refresh_run [OF assms l] by metis
    then show ?thesis using mgr_inv_callbacks [of s'] by (simp add: call_def)
  qed
  show ?thesis
    using assms mgr_inv_callbacks [OF assms] r unfolding dqPublisherImplMsgCb_def call_def [of onError] call_def [of onNewRequest] call_def [of onRequest]
    by (auto split: option.split)
qed

lemma add_simulates:
  assumes "mgr_inv s" and "registered s k = None" and "p \<in> dom (pubs s)" and "p \<notin> fst ` ran (registered s)"
  obtains s' where "mamaDQPublisherManager_addPublisher (True, True) k p c s = Some (MAMA_STATUS_OK, s')" and "mgr_inv s'"
    and "registered s' = (registered s)(k \<mapsto> (p, c))" and "pubs s' = pubs s"
proof -
  obtain pub where pub: "pubs s p = Some pub" using assms(3) by blast
  then have f: "pubSendTimeFormat pub = ''%T%;''" using assms(1) by (auto simp: mgr_inv_def ran_def)
  have h: "(pubs s)(p \<mapsto> pub) = pubs s" using pub by auto
  have "\<forall>k'. \<forall>c. registered s k' \<noteq> Some (p, c)" using assms(4) by (force simp: ran_def image_iff)
  then obtain t where t: "mPublisherMap s = Some t"
    "wtable_insert True (Some t) (Some k) (Some \<lparr>topSymbol = k, topPub = p, topCache = c\<rparr>) =
       (1, Some (wt_put t k (Some \<lparr>topSymbol = k, topPub = p, topCache = c\<rparr>)))"
    "mgr_inv (s\<lparr>mPublisherMap := Some (wt_put t k (Some \<lparr>topSymbol = k, topPub = p, topCache = c\<rparr>))\<rparr>)"
    "registered (s\<lparr>mPublisherMap := Some (wt_put t k (Some \<lparr>topSymbol = k, topPub = p, topCache = c\<rparr>))\<rparr>) = (registered s)(k \<mapsto> (p, c))"
    using mgr_put [OF assms(1,2) _ f, of p c, unfolded h] by auto
  moreover have "wtable_lookup (Some t) (Some k) = None" using assms(2) t(1) by (simp add: registered_def)
  ultimately show ?thesis using that by (simp add: mamaDQPublisherManager_addPublisher_def)
qed

lemma mgr_simulates:
  assumes "mgr_inv s" and "mgr_valid p (mgr_abs s)"
  shows "\<exists>s'. mgr_step payload self p s = Some s' \<and> mgr_inv s' \<and> mgr_abs s' = mgr_spec p (mgr_abs s)"
proof (cases p)
  case (CreateP a k c)
  show ?thesis
  proof (cases "registered s k = None")
    case True
    have "a \<notin> dom (pubs s)" using assms(2) CreateP by (simp add: mgr_abs_def)
    then obtain s' pub where "mamaDQPublisherManager_createPublisher (Some a) (True, True, True) MAMA_STATUS_OK self k c s = Some (MAMA_STATUS_OK, Some a, s')"
      "mgr_inv s'" "registered s' = (registered s)(k \<mapsto> (a, c))" "pubs s' = (pubs s)(a \<mapsto> pub)"
      using createPublisher_new [OF assms(1) True] by metis
    then show ?thesis using CreateP True by (simp add: mgr_abs_def)
  next
    case False
    then show ?thesis using CreateP assms(1) createPublisher_existing [OF False] by (auto simp: mgr_abs_def)
  qed
next
  case (DestroyP k)
  show ?thesis
  proof (cases "registered s k")
    case None
    then show ?thesis using assms(1) DestroyP by (simp add: mgr_abs_def mamaDQPublisherManager_destroyPublisher_def registered_def)
  next
    case (Some e)
    obtain s' where "mamaDQPublisherManager_destroyPublisher k s = Some (MAMA_STATUS_OK, s')" "mgr_inv s'"
      "registered s' = (registered s)(k := None)" "pubs s' = (pubs s)(fst e := None)"
      using destroyPublisher_run [OF assms(1), of k "fst e" "snd e"] Some by (metis prod.collapse)
    then show ?thesis using DestroyP Some by (simp add: mgr_abs_def split_beta)
  qed
next
  case (RemoveP k)
  show ?thesis
  proof (cases "registered s k")
    case None
    then show ?thesis using assms(1) RemoveP by (auto simp: mgr_abs_def mamaDQPublisherManager_removePublisher_def registered_def)
  next
    case (Some e)
    obtain s' where "mamaDQPublisherManager_removePublisher k s = (MAMA_STATUS_OK, Some (fst e), s')" "mgr_inv s'"
      "registered s' = (registered s)(k := None)" "pubs s' = pubs s"
      using removePublisher_run [OF assms(1), of k "fst e" "snd e"] Some by (metis prod.collapse)
    then show ?thesis using RemoveP by (simp add: mgr_abs_def)
  qed
next
  case (AddP k a c)
  show ?thesis
  proof (cases "registered s k = None")
    case True
    obtain s' where "mamaDQPublisherManager_addPublisher (True, True) k a c s = Some (MAMA_STATUS_OK, s')" "mgr_inv s'"
      "registered s' = (registered s)(k \<mapsto> (a, c))" "pubs s' = pubs s"
      using add_simulates [OF assms(1) True, of a c] AddP assms(2) by (auto simp: mgr_abs_def)
    then show ?thesis using AddP True by (simp add: mgr_abs_def)
  next
    case False
    then show ?thesis using assms(1) AddP by (auto simp: mgr_abs_def mamaDQPublisherManager_addPublisher_def registered_def)
  qed
next
  case (Request msg)
  then show ?thesis using request_simulates [OF assms(1)] by (simp add: mgr_abs_def)
qed

interpretation mgr: simulation_spec mgr_inv mgr_abs "mgr_step payload self" mgr_spec mgr_valid for payload self
  by unfold_locales (rule mgr_simulates)

subsection \<open>Properties\<close>

text \<open>A new manager has no publishers.\<close>

lemma manager_created:
  assumes "onNewRequest cb \<and> onRequest cb \<and> onRefresh cb \<and> onError cb" and "\<forall>pub \<in> ran heap. pubSendTimeFormat pub = ''%T%;''"
    and "mamaDQPublisherManager_allocate True self heap = (Some s0, MAMA_STATUS_OK)"
  shows "\<exists>s. mamaDQPublisherManager_create (True, True) True pubOk cb source srcRoot closure s0 = Some (s, MAMA_STATUS_OK) \<and> mgr_inv s \<and>
     mgr_abs s = (Map.empty, dom heap)"
proof -
  have "unat NUM_BUCKETS * 10 \<le> 2 ^ 30" by (simp add: NUM_BUCKETS_def)
  from wtable_create_wf [OF this] obtain t :: "mamaPublishTopic wtable" where
    t: "wtable_create True True (Some (srcRoot @ ''.'' @ source)) NUM_BUCKETS = Some (Some t)" "wt_inv t" "wt_map t = Map.empty" by blast
  have "pubs s0 = heap" "mRefreshResponseMsg s0 = None" using assms(3) by (auto simp: mamaDQPublisherManager_allocate_def)
  with t assms(1,2) show ?thesis
    by (simp add: mamaDQPublisherManager_create_def mgr_abs_def registered_table) (simp add: mgr_inv_def)
qed

definition mgr_demo :: mamaDQPublisherManagerImpl where
  "mgr_demo = (the (fst (mamaDQPublisherManager_allocate True 7 Map.empty)))\<lparr>mPublisherMap := Some \<lparr>wname = ''demo'', buckets = [[], []], wsize = 1\<rparr>,
     mUserCallbacks := \<lparr>onCreate = True, onNewRequest = True, onRequest = True, onRefresh = True, onError = True, onMsg = True\<rparr>, mNameSpace := ''NYSE''\<rparr>"

lemma mgr_demo_inv: "mgr_inv mgr_demo" and mgr_demo_abs: "mgr_abs mgr_demo = (Map.empty, {})"
proof -
  let ?t = "\<lparr>wname = ''demo'', buckets = [[], []], wsize = 1\<rparr> :: mamaPublishTopic wtable"
  have t: "mPublisherMap mgr_demo = Some ?t" "pubs mgr_demo = Map.empty" "mRefreshResponseMsg mgr_demo = None"
    by (simp_all add: mgr_demo_def mamaDQPublisherManager_allocate_def)
  have i: "wt_inv ?t" by (auto simp: wt_inv_def nth_Cons')
  then have "wt_map ?t = Map.empty"
    using wt.tmap_entries [of ?t] by (simp add: wt_entries_def)
  with t i show "mgr_inv mgr_demo" "mgr_abs mgr_demo = (Map.empty, {})"
    by (simp_all add: mgr_abs_def registered_table) (simp add: mgr_inv_def mgr_demo_def)
qed

text \<open>C4: any sequence of creations, destructions, removals and registrations of publishers and of requests from subscribers behaves as the
  specification on the map of registered symbols and the set of live publishers: no operation uses a publisher that was
  destroyed, destroying releases exactly the publisher of the symbol, creating for a symbol that is registered changes nothing, and requests
  change neither. Allocations are assumed to succeed with fresh addresses, and the application registers only live publishers that are
  not registered yet.\<close>

theorem mgr_run_refines:
  assumes "mgr_inv s" and "allowed mgr_valid mgr_spec ops (mgr_abs s)"
  shows "\<exists>s'. run_ops (mgr_step payload self) ops s = Some s' \<and> mgr_inv s' \<and> mgr_abs s' = fold mgr_spec ops (mgr_abs s)"
  using assms by (rule mgr.run_simulates)

theorem mgr_run_refines_witness:
  "\<exists>s'. run_ops (mgr_step (\<lambda>p m. True) 7) [CreateP 1 ''IBM'' None, CreateP 2 ''AAPL'' (Some 5), CreateP 3 ''IBM'' None, RemoveP ''AAPL'', DestroyP ''IBM'', AddP ''MSFT'' 2 None] mgr_demo = Some s' \<and>
     mgr_inv s' \<and> mgr_abs s' = ([''MSFT'' \<mapsto> (2, None)], {2})"
proof -
  have "fold mgr_spec [CreateP 1 ''IBM'' None, CreateP 2 ''AAPL'' (Some 5), CreateP 3 ''IBM'' None, RemoveP ''AAPL'', DestroyP ''IBM'', AddP ''MSFT'' 2 None] (Map.empty, {}) =
      ([''MSFT'' \<mapsto> (2, None)], {2})" by (auto simp: fun_eq_iff)
  moreover have "allowed mgr_valid mgr_spec [CreateP 1 ''IBM'' None, CreateP 2 ''AAPL'' (Some 5), CreateP 3 ''IBM'' None, RemoveP ''AAPL'', DestroyP ''IBM'', AddP ''MSFT'' 2 None] (Map.empty, {})"
    by (simp add: ran_def)
  ultimately show ?thesis
    using mgr_run_refines [OF mgr_demo_inv, unfolded mgr_demo_abs] by metis
qed

text \<open>A request of a subscriber that names a symbol and a type is answered by exactly one callback: the one for new requests when the symbol
  has no publisher, else the one for requests with the entry of the symbol, or, for a refresh, the one for refreshs after
  the publisher of the symbol has sent a message of type refresh. Types are cut to 16 bits.\<close>

lemma mgr_request_routed:
  assumes "mgr_inv s" and "rSubscriptionType msg = Some st" and "rSubscMsgType msg = Some mt"
    and "(case rSubscSymbol msg of Some sy \<Rightarrow> Some sy | None \<Rightarrow> rSendSubject msg) = Some k"
  shows "\<exists>s' es. dqPublisherImplMsgCb payload now msg s = Some s' \<and> mgr_inv s' \<and> mgr_abs s' = mgr_abs s \<and> mgrTrace s' = mgrTrace s @ es \<and>
     (case wtable_lookup (mPublisherMap s) (Some k) of
        None \<Rightarrow> es = [CbNewRequest k (ucast st) (ucast mt) (rId msg)]
      | Some i \<Rightarrow> topSymbol i = k \<and> (if mt = MAMA_SUBSC_REFRESH
          then \<exists>m. es = [Publish (topPub i) m, CbRefresh i (ucast st) (ucast mt) (rId msg)] \<and> fMsgType (wire m) = Some MAMA_MSG_TYPE_REFRESH
          else es = [CbRequest i (ucast st) (ucast mt) (rId msg)]))"
proof (cases "wtable_lookup (mPublisherMap s) (Some k)")
  case None
  then show ?thesis
    using assms mgr_inv_callbacks [OF assms(1)] by (simp add: dqPublisherImplMsgCb_def call_def)
next
  case (Some i)
  have k: "topSymbol i = k" using assms(1) Some by (auto simp: mgr_inv_def wtable_lookup_map bind_eq_Some_conv) blast
  obtain s' where s': "send_refresh payload now i s = Some s'" "mgr_inv s'" "mgr_abs s' = mgr_abs s"
    "\<exists>m. mgrTrace s' = mgrTrace s @ [Publish (topPub i) m] \<and> fMsgType (wire m) = Some MAMA_MSG_TYPE_REFRESH"
    using send_refresh_run [OF assms(1) Some] by metis
  show ?thesis
  proof (cases "mt = MAMA_SUBSC_REFRESH")
    case True
    then show ?thesis using assms s' Some k mgr_inv_callbacks [OF s'(2)] by (auto simp: dqPublisherImplMsgCb_def call_def)
  next
    case False
    then show ?thesis using assms Some k mgr_inv_callbacks [OF assms(1)] by (simp add: dqPublisherImplMsgCb_def call_def)
  qed
qed

text \<open>Failures of creating a publisher are not handled. If the table has no memory for the entry the new publisher is destroyed, but the
  call returns OK with the pointer to it; if the middleware cannot create its publisher, the status is returned and the new publisher stays
  allocated without being registered.\<close>

lemma mgr_create_failures:
  assumes "mgr_inv s" and "registered s k = None" and "pubs s p = None" and "st \<noteq> MAMA_STATUS_OK"
  shows "\<exists>s1 s2. mamaDQPublisherManager_createPublisher (Some p) (True, False, dtOk) MAMA_STATUS_OK self k cache s = Some (MAMA_STATUS_OK, Some p, s1) \<and>
       pubs s1 p = None \<and> registered s1 = registered s \<and>
     mamaDQPublisherManager_createPublisher (Some p) (True, True, dtOk) st self k cache s = Some (st, Some p, s2) \<and>
       pubs s2 p \<noteq> None \<and> registered s2 = registered s"
proof -
  obtain pub where pub: "new_publisher dtOk self cache s = (Some pub, MAMA_STATUS_OK)" using new_publisher_fields [of dtOk self cache s] by metis
  obtain t where t: "mPublisherMap s = Some t" using assms(1) by (auto simp: mgr_inv_def)
  have l: "wtable_lookup (Some t) (Some k) = None" using assms(2) t by (simp add: registered_def)
  have "\<forall>k d. wt_map t k = Some d \<longrightarrow> (\<exists>i. d = Some i \<and> topSymbol i = k \<and> topPub i \<in> dom (pubs s))"
    using assms(1) t unfolding mgr_inv_def by (metis option.inject)
  then have "k \<notin> dom (wt_map t)" using registered_entry [OF t] assms(2) by (simp add: domIff)
  then have "wtable_insert False (Some t) (Some k) d = (- 1, Some t)" for d
    by (simp add: wtable_insert_def wt_map_def map_of_eq_None_iff image_image domIff chain_replace_None [THEN iffD2] Let_def)
  then show ?thesis
    using assms(3,4) t
    by (auto simp: mamaDQPublisherManager_createPublisher_def l pub mamaDQPublisher_create_def destroy_dq_def registered_def fun_eq_iff Let_def)
qed

end
