(* ===== verification/Spec2Isabelle.thy ===== *)
theory Spec2Isabelle
  imports Lookup2 WTable EndpointPool WList Throttle DqCache DqStrategy ListenerMsgCallback Ft FtWire FtSetup
    MRSWLock WQueue SubscLife DateTimeFormat MsgQualifier ImageRequest RefreshTransport Price MamaStrings SymbolList Property DqStream DqPublisherManager
begin

text \<open>
  Verification development for OpenMAMA, the middleware agnostic messaging API: the C library under \<open>src/mama/c_cpp/src/c\<close>
  and the common library under \<open>src/common/c_cpp/src/c\<close>.

  \<^bold>\<open>The program.\<close> An application creates subscriptions for symbols. A subscription is set up under its own lock and activated by an
  action of the throttle of its transport (\<open>subscription.c\<close>, \<open>throttle.c\<close>); the throttle keeps its actions in an intrusive list
  (\<open>list.c\<close>). The middleware bridge delivers messages to the message callback (\<open>listenermsgcallback.c\<close>), which has each one checked by
  the data quality strategy (\<open>dqstrategy.c\<close>: sequence numbers, senders, a ring of cached messages) before the application sees it. On the
  other side a publisher (\<open>dqpublisher.c\<close>) numbers and marks the messages it sends, with a date-time (\<open>datetime.c\<close>) and the
  sender id of its process (\<open>senderId.c\<close>), and a manager (\<open>dqpublishermanager.c\<close>) keeps the publishers of symbols in a hash
  table (\<open>wtable.c\<close>, \<open>lookup2.c\<close>) and answers requests. Publishers form fault tolerant groups that elect the active
  one by heartbeats (\<open>ft.c\<close>). Events wait in queues (\<open>queue.c\<close>), shared data is guarded by reader/writer locks (\<open>MRSWLock.c\<close>),
  and the qpid bridge finds the endpoints of a topic in its endpoint pool (\<open>endpointpool.c\<close>). Initial values and recaps are asked for by image requests
  (\<open>imagerequest.c\<close>), whose callbacks are protected by reference counted handles (\<open>destroyHandle.c\<close>), and a timer of the transport refreshes the
  subscriptions (\<open>refreshtransport.c\<close>). Prices, message qualifiers and names are data of messages (\<open>price.c\<close>, \<open>msgqualifier.c\<close>,
  \<open>status.c\<close>, \<open>quality.c\<close>), printed with the help of \<open>strutils.c\<close>.

  \<^bold>\<open>The theories.\<close>
  \<^item> Shared: \<open>Mama_Prelude\<close> (word types, status codes, generic lemmas), \<open>CString\<close> (numbers and searches in C strings), \<open>Doubles\<close>
    (the rounding of C doubles), and the
    interfaces \<open>Table_Spec\<close> (string-keyed tables; provided by \<open>WTable\<close>, used by the endpoint pool, the publisher manager and the properties),
    \<open>Deque_Spec\<close> (sequential containers; provided by \<open>WList\<close>, \<open>WQueue\<close> and the throttle's loops) and \<open>Transition_Spec\<close>
    (invariants of transition systems, provided by the lock, the queue, the subscription and the refreshing transport; simulation of a
    specification by sequences of operations, provided by the publisher manager and the destroy handle).
  \<^item> \<open>Lookup2\<close>, \<open>WTable\<close>: \<open>lookup2.c\<close> and \<open>wtable.c\<close>; the table is a finite map, iteration visits every entry once.
  \<^item> \<open>EndpointPool\<close>: \<open>bridge/qpid/endpointpool.c\<close> on top of the table; refinement of registration, and the bound of the result buffer.
  \<^item> \<open>WList\<close>: \<open>list.c\<close> on the level of pointers with the free list and the iterators; every operation refines one on sequences.
  \<^item> \<open>Throttle\<close>: \<open>throttle.c\<close> on top of the list; rate, order, cancellation and liveness under interleaved dispatches and expiries.
  \<^item> \<open>MamaMsg\<close>, \<open>DqCache\<close>, \<open>DqStrategy\<close>, \<open>ListenerMsgCallback\<close>: \<open>msgtype.h\<close>, \<open>msgstatus.h\<close>, the accessors of
    \<open>msg.c\<close> and \<open>msgutils.c\<close> that are used, \<open>dqstrategy.c\<close> and \<open>listenermsgcallback.c\<close>; which messages are delivered, held
    back, filled in from the cache or reported, and how quality changes.
  \<^item> \<open>Subscription\<close>, \<open>SubscMachine\<close>, \<open>SubscLife\<close>: the life cycle of \<open>subscription.c\<close>; for arbitrary answers of the other components,
    the changes between the documented states (the edges \<open>subsc_edges\<close> are read off the code, the header file documents the states only); when the
    components do what they are asked to, what is outstanding, released and completed.
  \<^item> \<open>DqPublisher\<close>, \<open>SenderId\<close>, \<open>DqPublisherManager\<close>: \<open>dqpublisher.c\<close>, \<open>senderId.c\<close>, \<open>dqpublishermanager.c\<close>.
  \<^item> \<open>DqStream\<close>: publisher and subscription together; a stream without losses is delivered completely, a loss is detected and repaired by one recap.
  \<^item> \<open>DateTime\<close>, \<open>Calendar\<close>, \<open>DateTimeText\<close>, \<open>DateTimeFormat\<close>: \<open>datetimeimpl.h\<close>, \<open>datetime.c\<close>, \<open>mamaStrUtils.c\<close>; fields of the packed
    word, arithmetic, comparison, round trips through the epoch, the calendar and texts, and the bound of formatting.
  \<^item> \<open>Ft\<close>, \<open>FtWire\<close>, \<open>FtSetup\<close>: \<open>ft.c\<close>; uniqueness of the elected member, takeover, the packet format and the set-up. The
    theorem of this theory composes the packets with the election.
  \<^item> \<open>DestroyHandle\<close>, \<open>ImageRequest\<close>: \<open>destroyHandle.c\<close> and \<open>imagerequest.c\<close>; the life time of handles (and when their lock blocks), the number of repetitions of a
    request and its report, and the accesses to freed memory after its destruction.
  \<^item> \<open>RefreshTransport\<close>: \<open>refreshtransport.c\<close>; termination of the walk of the timer and the time by which subscriptions are refreshed.
  \<^item> \<open>SymbolList\<close>: \<open>symbollist.c\<close> and \<open>symbollistmember.c\<close>; which member a search finds, what is freed and reported.
  \<^item> \<open>Property\<close>: \<open>property.c\<close> on top of the table; an object refines a map from names to values, with the memory of the values, environment variables, escapes and merging.
  \<^item> \<open>StrUtils\<close>, \<open>MsgQualifier\<close>, \<open>Price\<close>, \<open>MamaStrings\<close>: \<open>strutils.c\<close>, \<open>msgqualifier.c\<close>, \<open>price.c\<close> with \<open>priceimpl.c\<close>, and the names of
    statuses, message types and qualities; printing is compared with the formats of the C library, with the bounds of buffers.
  \<^item> \<open>MRSWLock\<close>, \<open>WQueue\<close>: \<open>MRSWLock.c\<close> for any number of interleaved threads, and \<open>queue.c\<close> on the level of pointers.

  \<^bold>\<open>Conventions.\<close> A structure is a record with the names of its members (with a prefix where two structures share a
  name), an operation a function from state to state. The result \<open>None\<close> of an operation that returns an option of a state is an invalid memory
  access, an undefined conversion, the call of a null function or, for the loops defined by \<open>partial_function\<close>, not returning; theorems about such operations
  state that the result is \<open>Some\<close>. Integers have the width of the LP64 platforms and wrap; the doubles of
  prices and date-times are rounded after every operation as IEEE 754 requires (\<open>Doubles\<close>), while rates, intervals and clock readings (throttle, image requests,
  refreshing) and the doubles that \<open>strutils.c\<close> prints are exact rationals. Failing allocations, system
  calls, the middleware, the payload and the clock are arguments (Booleans, statuses, environment records, the predicate \<open>payload\<close>). Calls
  of the application and of other components are recorded in traces in their order.

  \<^bold>\<open>Assumptions.\<close> An operation is one atomic step, as it runs under the lock of its structure, except in \<open>MRSWLock\<close>, where the
  steps of threads interleave, and for \<open>mamaSubscription_destroy\<close>, whose two critical sections are two steps (\<open>mamaSubscription_deactivate\<close> and
  \<open>destroy_section\<close>) between which others can come. Callbacks
  do not re-enter the structure that calls them. The build is the one without entitlements. Pointers that the code takes as not null (lock, list, queue and
  subscription handles in operations that do not test them) are not null. The loops of the C library's \<open>gmtime_r\<close> are given fuel or measures that their
  theorems show to be enough.

  \<^bold>\<open>Not modelled.\<close> Payload encodings and the network code of the bridges, which are calls of third-party client libraries; library management, logging
  and loading, which are process set-up and I/O; statistics, which count and report; event queue wrappers, timers and sockets, which wrap the
  operating system; the responders for sync and client management messages, sources, property files and the dictionary, which are
  filled from messages and files; the connections of transports; the field access functions of \<open>msg.c\<close>, which delegate to payload bridges; and the bindings for
  other languages.
\<close>

text \<open>C20: an election over the wire: when a member that is ahead of another member of its group by its
  credentials sends a multicast heartbeat, the packet fits the buffers, can be parsed, and makes the
  receiver stand by, whatever its state was; the receiver will take over, if it has to, with an
  incarnation beyond that of the sender.\<close>

theorem ft_wire_election:
  assumes "ftType m = MAMA_FT_TYPE_MULTICAST" and "ftType r = MAMA_FT_TYPE_MULTICAST"
    and "myGroupName m \<noteq> []" and "\<forall>c \<in> set (myGroupName m). \<not> is_space c" and "length (myGroupName m) < 100"
    and "myGroupName r = myGroupName m" and "\<not> (myPid r = myPid m \<and> myIP r = myIP m)"
    and "member_cred r < member_cred m" and "myIncarnation m \<noteq> - 1"
  shows "\<exists>p hb r'. multicastFt_sendHeartbeat m = Some p \<and> multicastFt_receiveHeartbeat p = Some hb \<and>
     ftRecvHearbeat env [hb] r = (r', [], 0) \<and> myState r' = MAMA_FT_STATE_STANDBY \<and>
     unat (myIncarnation m) < unat (myNextIncarnation r')"
proof -
  obtain p where p: "multicastFt_sendHeartbeat m = Some p"
    "multicastFt_receiveHeartbeat p = Some (Some (ftSendHeartbeat_msg m))"
    using packet_roundtrip [OF assms(1,3-5)] by blast
  let ?r' = "mamaCheckHeartbeat env (ftSendHeartbeat_msg m) r"
  have b: "beaten (ftSendHeartbeat_msg m) r" using assms(6-8) by (auto simp: beaten_def)
  have i: "hbIncarnation (ftSendHeartbeat_msg m) = myIncarnation m" by (simp add: ftSendHeartbeat_msg_def)
  have "unat (myIncarnation m) < unat (myIncarnation m + 1)"
    using word_less_succ [OF assms(9)] by (simp add: word_less_nat_alt)
  then have "unat (myIncarnation m) < unat (myNextIncarnation ?r')"
    using b i by (simp add: field_effects word_le_nat_alt)
  moreover have "myState ?r' = MAMA_FT_STATE_STANDBY" using b by (simp add: field_effects)
  moreover have "ftRecvHearbeat env [Some (ftSendHeartbeat_msg m)] r = (?r', [], 0)" using assms(2) by simp
  ultimately show ?thesis using p by blast
qed

theorem ft_wire_election_witness:
  "\<exists>p hb r'. multicastFt_sendHeartbeat (demo_member 5 100 MAMA_FT_STATE_ACTIVE) = Some p \<and>
     multicastFt_receiveHeartbeat p = Some hb \<and>
     ftRecvHearbeat demo_env [hb] (demo_member 4 101 MAMA_FT_STATE_ACTIVE) = (r', [], 0) \<and>
     myState r' = MAMA_FT_STATE_STANDBY \<and> 1 < unat (myNextIncarnation r')"
  using ft_wire_election [of "demo_member 5 100 MAMA_FT_STATE_ACTIVE" "demo_member 4 101 MAMA_FT_STATE_ACTIVE" demo_env]
  by (simp add: is_space_def member_cred_def)

end
